(* ===== verification/Prelude.thy ===== *)
theory Prelude
  imports Main "HOL-Library.AList"
begin

text \<open>
  The vocabulary every component shares: the Go types the sources use, the functions of Go's
  \<^verbatim>\<open>strings\<close> and \<^verbatim>\<open>strconv\<close> packages they call, and the lemmas about them.

  Conventions.
  \<^item> A Go \<^verbatim>\<open>string\<close> is its list of bytes, type \<^typ>\<open>string\<close>. Case folding and white space
    are those of the ASCII range; bytes from 128 on are left alone.
  \<^item> A Go \<^verbatim>\<open>map\<close> is an association list with distinct keys. Go leaves the order of a
    \<^verbatim>\<open>range\<close> over a map open: the list gives the order of one iteration, operations are
    stated for every list, and results are read back through \<^const>\<open>map_of\<close>.
  \<^item> An error return is \<open>Inl\<close> of a sum, a missing result \<open>None\<close>.
\<close>

type_synonym smap = "(string \<times> string) list"

named_theorems go_string \<open>facts about the modelled functions of package strings\<close>
named_theorems go_map \<open>facts about Go maps as association lists\<close>

section \<open>Package strings\<close>

text \<open>\<open>strings.HasPrefix\<close>, \<open>strings.TrimPrefix\<close> and \<open>strings.TrimSuffix\<close>.\<close>

definition has_prefix :: "string \<Rightarrow> string \<Rightarrow> bool" where
  "has_prefix s p \<longleftrightarrow> length p \<le> length s \<and> take (length p) s = p"

definition has_suffix :: "string \<Rightarrow> string \<Rightarrow> bool" where
  "has_suffix s p \<longleftrightarrow> length p \<le> length s \<and> drop (length s - length p) s = p"

definition trim_prefix :: "string \<Rightarrow> string \<Rightarrow> string" where
  "trim_prefix s p = (if has_prefix s p then drop (length p) s else s)"

definition trim_suffix :: "string \<Rightarrow> string \<Rightarrow> string" where
  "trim_suffix s p = (if has_suffix s p then take (length s - length p) s else s)"

text \<open>\<open>strings.ToLower\<close>, \<open>strings.ToUpper\<close> and \<open>strings.TrimSpace\<close> on the ASCII range.\<close>

definition lower_char :: "char \<Rightarrow> char" where
  "lower_char c =
     (let n = (of_char c :: nat) in if 65 \<le> n \<and> n \<le> 90 then char_of (n + 32) else c)"

definition to_lower :: "string \<Rightarrow> string" where
  "to_lower = map lower_char"

definition upper_char :: "char \<Rightarrow> char" where
  "upper_char c =
     (let n = (of_char c :: nat) in if 97 \<le> n \<and> n \<le> 122 then char_of (n - 32) else c)"

definition to_upper :: "string \<Rightarrow> string" where
  "to_upper = map upper_char"

definition is_space :: "char \<Rightarrow> bool" where
  "is_space c = ((of_char c :: nat) \<in> {9, 10, 11, 12, 13, 32})"

definition trim_space :: "string \<Rightarrow> string" where
  "trim_space s = rev (dropWhile is_space (rev (dropWhile is_space s)))"

text \<open>\<open>strings.TrimRight(s, cutset)\<close> for a one-byte cutset.\<close>

definition trim_right :: "string \<Rightarrow> char \<Rightarrow> string" where
  "trim_right s c = rev (dropWhile (\<lambda>x. x = c) (rev s))"

text \<open>\<open>strings.Split\<close> at a one-byte separator, and \<open>strings.Join\<close>.\<close>

fun split_char :: "char \<Rightarrow> string \<Rightarrow> string list" where
  "split_char c [] = [[]]"
| "split_char c (x # xs) =
     (if x = c then [] # split_char c xs
      else (case split_char c xs of [] \<Rightarrow> [[x]] | w # ws \<Rightarrow> (x # w) # ws))"

fun join :: "string \<Rightarrow> string list \<Rightarrow> string" where
  "join sep [] = []"
| "join sep [w] = w"
| "join sep (w # v # ws) = w @ sep @ join sep (v # ws)"

text \<open>\<open>strings.Contains\<close> and \<open>strings.LastIndex\<close> for a one-byte pattern.\<close>

definition contains_char :: "string \<Rightarrow> char \<Rightarrow> bool" where
  "contains_char s c \<longleftrightarrow> c \<in> set s"

fun last_index :: "string \<Rightarrow> char \<Rightarrow> nat option" where
  "last_index [] c = None"
| "last_index (x # xs) c =
     (case last_index xs c of Some i \<Rightarrow> Some (Suc i) | None \<Rightarrow> if x = c then Some 0 else None)"

subsection \<open>Prefixes\<close>

lemma has_prefix_append [simp, go_string]: "has_prefix (p @ s) p"
  by (simp add: has_prefix_def)

lemma has_prefix_iff [go_string]: "has_prefix s p \<longleftrightarrow> (\<exists>t. s = p @ t)"
  unfolding has_prefix_def by (metis append_eq_conv_conj append_take_drop_id length_append le_add1)

lemma has_prefix_Nil [simp]: "has_prefix s []"
  by (simp add: has_prefix_def)

lemma trim_prefix_append [simp, go_string]: "trim_prefix (p @ s) p = s"
  by (simp add: trim_prefix_def)

lemma trim_prefix_Nil [simp]: "trim_prefix s [] = s"
  by (simp add: trim_prefix_def)

lemma append_trim_prefix [go_string]: "has_prefix s p \<Longrightarrow> p @ trim_prefix s p = s"
  by (auto simp: has_prefix_iff)

subsection \<open>Case folding\<close>

lemma of_char_nat_less: "(of_char c :: nat) < 256"
  by (metis of_char_mod_256 mod_less_divisor zero_less_numeral)

lemma lower_char_idem [simp]: "lower_char (lower_char c) = lower_char c"
proof (cases "65 \<le> (of_char c :: nat) \<and> (of_char c :: nat) \<le> 90")
  case True
  then have "(of_char (lower_char c) :: nat) = of_char c + 32"
    by (simp add: lower_char_def Let_def)
  with True show ?thesis by (simp add: lower_char_def [of "lower_char c"] Let_def)
next
  case False
  then have "lower_char c = c" by (auto simp: lower_char_def Let_def)
  then show ?thesis by simp
qed

lemma to_lower_idem [simp, go_string]: "to_lower (to_lower s) = to_lower s"
  by (simp add: to_lower_def comp_def)

lemma to_lower_append [go_string]: "to_lower (s @ t) = to_lower s @ to_lower t"
  by (simp add: to_lower_def)

lemma to_lower_Nil [simp]: "to_lower [] = []"
  by (simp add: to_lower_def)

lemma to_lower_eq_Nil [simp]: "to_lower s = [] \<longleftrightarrow> s = []"
  by (simp add: to_lower_def)

lemma length_to_lower [simp]: "length (to_lower s) = length s"
  by (simp add: to_lower_def)

subsection \<open>Split and join\<close>

lemma split_char_nonempty [simp]: "split_char c s \<noteq> []"
  by (induction s) (auto split: list.splits)

lemma join_Cons: "ws \<noteq> [] \<Longrightarrow> join sep (w # ws) = w @ sep @ join sep ws"
  by (cases ws) auto

lemma join_Cons_head: "join sep ((x # w) # ws) = x # join sep (w # ws)"
  by (cases ws) auto

lemma join_split_char [simp, go_string]: "join [c] (split_char c s) = s"
  by (induction s) (auto simp: join_Cons join_Cons_head split: list.splits)

lemma split_char_inject [go_string]: "split_char c s = split_char c t \<longleftrightarrow> s = t"
  by (metis join_split_char)

lemma split_char_no_sep [go_string]: "w \<in> set (split_char c s) \<Longrightarrow> c \<notin> set w"
  by (induction s arbitrary: w) (fastforce split: if_splits list.splits)+

lemma split_char_word: "c \<notin> set w \<Longrightarrow> split_char c w = [w]"
  by (induction w) auto

lemma split_char_append_sep: "c \<notin> set w \<Longrightarrow> split_char c (w @ c # s) = w # split_char c s"
  by (induction w) auto

lemma split_char_append: "split_char c (s @ c # t) = split_char c s @ split_char c t"
  by (induction s) (auto split: list.splits)

lemma split_char_join [go_string]:
  "ws \<noteq> [] \<Longrightarrow> (\<And>w. w \<in> set ws \<Longrightarrow> c \<notin> set w) \<Longrightarrow> split_char c (join [c] ws) = ws"
proof (induction ws rule: induct_list012)
  case 1
  then show ?case by simp
next
  case (2 w)
  then show ?case by (simp add: split_char_word)
next
  case (3 w v ws)
  then show ?case by (simp add: split_char_append_sep)
qed

lemma join_append:
  "ws \<noteq> [] \<Longrightarrow> vs \<noteq> [] \<Longrightarrow> join sep (ws @ vs) = join sep ws @ sep @ join sep vs"
  by (induction ws rule: induct_list012) (auto simp: join_Cons)

lemma join_eq_Nil: "[] \<notin> set ws \<Longrightarrow> join sep ws = [] \<longleftrightarrow> ws = []"
  by (induction ws rule: induct_list012) auto

section \<open>Package strconv\<close>

text \<open>
  \<open>strconv.ParseUint(s, 10, bits)\<close> and \<open>strconv.ParseInt(s, 10, bits)\<close>: decimal digits only, a sign
  for the signed one, an error (\<open>None\<close>) on an empty or malformed text and on a value out of range.
  The callers use the result only when the error is nil. An \<open>int\<close> or \<open>uint\<close> is 64 bits wide.
\<close>

definition is_digit :: "char \<Rightarrow> bool" where
  "is_digit c = (48 \<le> (of_char c :: nat) \<and> (of_char c :: nat) \<le> 57)"

definition digits_value :: "string \<Rightarrow> nat" where
  "digits_value s = foldl (\<lambda>n c. 10 * n + (of_char c - 48)) 0 s"

definition parse_digits :: "string \<Rightarrow> nat option" where
  "parse_digits s = (if s = [] \<or> \<not> list_all is_digit s then None else Some (digits_value s))"

definition parse_uint :: "nat \<Rightarrow> string \<Rightarrow> int option" where
  "parse_uint bits s =
     (case parse_digits s of
        None \<Rightarrow> None
      | Some n \<Rightarrow> if int n < 2 ^ bits then Some (int n) else None)"

definition signed_range :: "nat \<Rightarrow> bool \<Rightarrow> int \<Rightarrow> int option" where
  "signed_range bits neg i =
     (if \<not> neg \<and> i \<ge> 2 ^ (bits - 1) then None
      else if neg \<and> i > 2 ^ (bits - 1) then None
      else Some (if neg then - i else i))"

definition parse_int :: "nat \<Rightarrow> string \<Rightarrow> int option" where
  "parse_int bits s =
     (case s of
        [] \<Rightarrow> None
      | c # cs \<Rightarrow>
          (case parse_digits (if c = CHR ''-'' \<or> c = CHR ''+'' then cs else s) of
             None \<Rightarrow> None
           | Some n \<Rightarrow> signed_range bits (c = CHR ''-'') (int n)))"

text \<open>\<open>strconv.FormatInt(v, 10)\<close>.\<close>

fun format_nat :: "nat \<Rightarrow> string" where
  "format_nat n = (if n < 10 then [char_of (48 + n)] else format_nat (n div 10) @ [char_of (48 + n mod 10)])"

declare format_nat.simps [simp del]

definition format_int :: "int \<Rightarrow> string" where
  "format_int i = (if i < 0 then ''-'' @ format_nat (nat (- i)) else format_nat (nat i))"

lemma parse_uint_bounds: "parse_uint bits s = Some i \<Longrightarrow> 0 \<le> i \<and> i < 2 ^ bits"
  by (auto simp: parse_uint_def split: option.splits if_splits)

lemma signed_range_bounds:
  assumes "signed_range bits neg i = Some j" and "0 \<le> i"
  shows "- (2 ^ (bits - 1)) \<le> j \<and> j < 2 ^ (bits - 1)"
proof -
  define M :: int where "M = 2 ^ (bits - 1)"
  have "0 < M" by (simp add: M_def)
  with assms show ?thesis
    unfolding signed_range_def M_def [symmetric] by (auto split: if_splits)
qed

lemma parse_int_bounds:
  "parse_int bits s = Some i \<Longrightarrow> - (2 ^ (bits - 1)) \<le> i \<and> i < 2 ^ (bits - 1)"
  by (auto simp: parse_int_def split: list.splits option.splits dest: signed_range_bounds)

section \<open>Maps\<close>

abbreviation mget :: "('k \<times> 'v) list \<Rightarrow> 'k \<Rightarrow> 'v option" where
  "mget al k \<equiv> map_of al k"

definition wf_map :: "('k \<times> 'v) list \<Rightarrow> bool" where
  "wf_map al \<longleftrightarrow> distinct (map fst al)"

lemma wf_map_Nil [simp, go_map]: "wf_map []"
  by (simp add: wf_map_def)

lemma wf_map_Cons [simp, go_map]: "wf_map (p # ps) \<longleftrightarrow> fst p \<notin> fst ` set ps \<and> wf_map ps"
  by (simp add: wf_map_def)

lemma wf_map_update [simp, go_map]: "wf_map al \<Longrightarrow> wf_map (AList.update k v al)"
  by (simp add: wf_map_def distinct_update)

lemma wf_map_delete [simp, go_map]: "wf_map al \<Longrightarrow> wf_map (AList.delete k al)"
  by (simp add: wf_map_def AList.distinct_delete)

lemma mget_update [simp, go_map]: "mget (AList.update k v al) x = (if x = k then Some v else mget al x)"
  by (simp add: update_conv')

lemma mget_delete [simp, go_map]: "mget (AList.delete k al) x = (if x = k then None else mget al x)"
  by (simp add: delete_conv')

lemma mget_in_set: "wf_map al \<Longrightarrow> mget al k = Some v \<longleftrightarrow> (k, v) \<in> set al"
  by (simp add: wf_map_def)

lemma in_update: "(x, y) \<in> set (AList.update k v al) \<Longrightarrow> x = k \<and> y = v \<or> (x, y) \<in> set al"
  by (induction al) (auto split: if_splits)

lemma mget_None_iff: "mget al k = None \<longleftrightarrow> k \<notin> fst ` set al"
  by (auto simp: map_of_eq_None_iff)

lemma mget_key: "mget al k = Some v \<Longrightarrow> k \<in> fst ` set al"
  by (metis mget_None_iff option.distinct(1))

text \<open>A Go set, \<open>map[k]struct{}\<close>, as the list of its members without repetition.\<close>

definition set_add :: "'a \<Rightarrow> 'a list \<Rightarrow> 'a list" where
  "set_add x xs = (if x \<in> set xs then xs else xs @ [x])"

lemma set_set_add [simp]: "set (set_add x xs) = insert x (set xs)"
  by (auto simp: set_add_def)

lemma distinct_set_add [simp]: "distinct (set_add x xs) \<longleftrightarrow> distinct xs"
  by (auto simp: set_add_def)

end
