(* ===== verification/Prefix_Tree.thy ===== *)
theory Prefix_Tree
  imports Prelude
begin

text \<open>
  The prefix tree of \<^verbatim>\<open>config/internal/prefix_tree.go\<close>, the store behind every configuration
  object. The Go tree keeps two ways to a node: the path from the root, and the map \<open>m\<close> from a
  whole key to the same node. \<open>Put\<close> and \<open>Del\<close> write a node through the path, \<open>Get\<close> reads it through
  \<open>m\<close>, so the model keeps the nodes in an explicit store (a node's address is its index) and
  shares addresses exactly where the code shares pointers. Nodes are never freed: \<open>Clear\<close> makes a
  new root and leaves the old nodes unreachable.

  The store invariant \<open>pt_inv\<close> says that the nodes form a forest and that the two ways agree; it is
  kept by every operation. Through it the tree refines a plain partial map from keys to values,
  and the locale \<open>key_store\<close> gives its clients that view.
\<close>

section \<open>State\<close>

record 'a node =
  node_meta :: "'a option"
  node_children :: "(string \<times> nat) list"

record 'a prefix_tree =
  pt_store :: "'a node list"
  pt_root :: nat
  pt_separator :: string
  pt_prefixCache :: "(string \<times> string list) list"
  pt_m :: "(string \<times> nat) list"

definition newNode :: "'a node" where
  "newNode = \<lparr>node_meta = None, node_children = []\<rparr>"

text \<open>A separator of more than one byte ends the process (\<open>log.Fatalf\<close>): \<open>None\<close>.\<close>

definition NewPrefixTree :: "string \<Rightarrow> 'a prefix_tree option" where
  "NewPrefixTree sep =
     (if length sep > 1 then None
      else Some \<lparr>pt_store = [newNode], pt_root = 0, pt_separator = sep,
                 pt_prefixCache = [], pt_m = []\<rparr>)"

section \<open>Operations\<close>

text \<open>\<open>strings.Split(key, separator)\<close>; an empty separator splits into single characters.\<close>

definition split_sep :: "string \<Rightarrow> string \<Rightarrow> string list" where
  "split_sep sep key = (case sep of [] \<Rightarrow> map (\<lambda>c. [c]) key | c # _ \<Rightarrow> split_char c key)"

definition pt_prefix :: "'a prefix_tree \<Rightarrow> string \<Rightarrow> string list \<times> 'a prefix_tree" where
  "pt_prefix t key =
     (case mget (pt_prefixCache t) key of
        Some p \<Rightarrow> (p, t)
      | None \<Rightarrow>
          (let p = split_sep (pt_separator t) key
           in (p, t\<lparr>pt_prefixCache := AList.update key p (pt_prefixCache t)\<rparr>)))"

text \<open>
  The loop of \<open>Put\<close>: follow the segments from node \<open>a\<close>, making the missing nodes. An empty segment
  makes \<open>Put\<close> return at once (\<open>None\<close>), with the nodes made so far left in place.
\<close>

fun put_walk :: "'a node list \<Rightarrow> nat \<Rightarrow> string list \<Rightarrow> 'a node list \<times> nat option" where
  "put_walk st a [] = (st, Some a)"
| "put_walk st a (p # ps) =
     (if p = [] then (st, None)
      else (case mget (node_children (st ! a)) p of
              Some c \<Rightarrow> put_walk st c ps
            | None \<Rightarrow>
                put_walk
                  (st[a := (st ! a)\<lparr>node_children := AList.update p (length st) (node_children (st ! a))\<rparr>]
                   @ [newNode])
                  (length st) ps))"

definition pt_Put :: "'a prefix_tree \<Rightarrow> string \<Rightarrow> 'a option \<Rightarrow> 'a prefix_tree" where
  "pt_Put t key mt =
     (let (ps, t1) = pt_prefix t key;
          (st, r) = put_walk (pt_store t1) (pt_root t1) ps
      in case r of
           None \<Rightarrow> t1\<lparr>pt_store := st\<rparr>
         | Some a \<Rightarrow> t1\<lparr>pt_store := st[a := (st ! a)\<lparr>node_meta := mt\<rparr>],
                        pt_m := AList.update key a (pt_m t1)\<rparr>)"

fun node_walk :: "'a node list \<Rightarrow> nat \<Rightarrow> string list \<Rightarrow> nat option" where
  "node_walk st a [] = Some a"
| "node_walk st a (p # ps) =
     (if p = [] then None
      else (case mget (node_children (st ! a)) p of None \<Rightarrow> None | Some c \<Rightarrow> node_walk st c ps))"

definition pt_node :: "'a prefix_tree \<Rightarrow> string \<Rightarrow> nat option \<times> 'a prefix_tree" where
  "pt_node t key =
     (let (ps, t1) = pt_prefix t key in (node_walk (pt_store t1) (pt_root t1) ps, t1))"

definition pt_Get :: "'a prefix_tree \<Rightarrow> string \<Rightarrow> 'a option" where
  "pt_Get t key =
     (case mget (pt_m t) key of None \<Rightarrow> None | Some a \<Rightarrow> node_meta (pt_store t ! a))"

definition pt_Del :: "'a prefix_tree \<Rightarrow> string \<Rightarrow> 'a prefix_tree" where
  "pt_Del t key =
     (let (n, t1) = pt_node t key;
          t2 = (case n of
                  None \<Rightarrow> t1
                | Some a \<Rightarrow> t1\<lparr>pt_store := (pt_store t1)[a := (pt_store t1 ! a)\<lparr>node_meta := None\<rparr>]\<rparr>)
      in t2\<lparr>pt_m := AList.delete key (pt_m t2)\<rparr>)"

definition pt_Keys :: "'a prefix_tree \<Rightarrow> string list" where
  "pt_Keys t = map fst (pt_m t)"

definition pt_Clear :: "'a prefix_tree \<Rightarrow> 'a prefix_tree" where
  "pt_Clear t =
     t\<lparr>pt_root := length (pt_store t), pt_store := pt_store t @ [newNode],
       pt_prefixCache := [], pt_m := []\<rparr>"

text \<open>
  The recursive closure \<open>travel\<close> of \<open>SearchByPrefix\<close>. Fuel bounds the depth; \<open>None\<close> means it ran
  out, which the length of the store excludes (\<open>travel_total\<close>).
\<close>

fun travel :: "nat \<Rightarrow> 'a node list \<Rightarrow> string \<Rightarrow> string \<Rightarrow> nat \<Rightarrow> (string \<times> 'a) list
                 \<Rightarrow> (string \<times> 'a) list option"
and travel_children :: "nat \<Rightarrow> 'a node list \<Rightarrow> string \<Rightarrow> string \<Rightarrow> (string \<times> nat) list
                 \<Rightarrow> (string \<times> 'a) list \<Rightarrow> (string \<times> 'a) list option" where
  "travel 0 st sep name a res = None"
| "travel (Suc n) st sep name a res =
     travel_children n st sep name (node_children (st ! a))
       (case node_meta (st ! a) of
          Some v \<Rightarrow> if name \<noteq> [] then AList.update name v res else res
        | None \<Rightarrow> res)"
| "travel_children n st sep name [] res = Some res"
| "travel_children n st sep name ((k, c) # cs) res =
     (case travel n st sep (if name \<noteq> [] then name @ sep @ k else k) c res of
        None \<Rightarrow> None
      | Some res' \<Rightarrow> travel_children n st sep name cs res')"

definition pt_SearchByPrefix :: "'a prefix_tree \<Rightarrow> string \<Rightarrow> (string \<times> 'a) list option \<times> 'a prefix_tree" where
  "pt_SearchByPrefix t prefix =
     (if prefix = []
      then (travel (length (pt_store t)) (pt_store t) (pt_separator t) prefix (pt_root t) [], t)
      else (case pt_node t prefix of
              (None, t1) \<Rightarrow> (Some [], t1)
            | (Some a, t1) \<Rightarrow>
                (travel (length (pt_store t1)) (pt_store t1) (pt_separator t1) prefix a [], t1)))"

section \<open>The store is a forest\<close>

definition edge :: "'a node list \<Rightarrow> nat \<Rightarrow> string \<Rightarrow> nat \<Rightarrow> bool" where
  "edge st a k c \<longleftrightarrow> a < length st \<and> mget (node_children (st ! a)) k = Some c"

text \<open>
  Child addresses grow, so there is no cycle; an address has one parent edge and the root none, so
  no node is shared; edge labels are the segments of keys.
\<close>

definition st_inv :: "char \<Rightarrow> 'a node list \<Rightarrow> nat \<Rightarrow> bool" where
  "st_inv s st r \<longleftrightarrow>
     r < length st \<and>
     (\<forall>a < length st. wf_map (node_children (st ! a))) \<and>
     (\<forall>a k c. edge st a k c \<longrightarrow> a < c \<and> c < length st \<and> c \<noteq> r \<and> k \<noteq> [] \<and> s \<notin> set k) \<and>
     (\<forall>a k b l c. edge st a k c \<longrightarrow> edge st b l c \<longrightarrow> a = b \<and> k = l)"

lemma st_invD:
  assumes "st_inv s st r"
  shows "r < length st"
    and "a < length st \<Longrightarrow> wf_map (node_children (st ! a))"
    and "edge st a k c \<Longrightarrow> a < c"
    and "edge st a k c \<Longrightarrow> c < length st"
    and "edge st a k c \<Longrightarrow> c \<noteq> r"
    and "edge st a k c \<Longrightarrow> k \<noteq> []"
    and "edge st a k c \<Longrightarrow> s \<notin> set k"
    and "edge st a k c \<Longrightarrow> edge st b l c \<Longrightarrow> a = b \<and> k = l"
  using assms unfolding st_inv_def by blast+

definition add_child :: "'a node list \<Rightarrow> nat \<Rightarrow> string \<Rightarrow> 'a node list" where
  "add_child st a p =
     st[a := (st ! a)\<lparr>node_children := AList.update p (length st) (node_children (st ! a))\<rparr>] @ [newNode]"

lemma put_walk_Cons:
  "put_walk st a (p # ps) =
     (if p = [] then (st, None)
      else (case mget (node_children (st ! a)) p of
              Some c \<Rightarrow> put_walk st c ps
            | None \<Rightarrow> put_walk (add_child st a p) (length st) ps))"
  by (simp add: add_child_def split: option.split)

declare put_walk.simps(2) [simp del]

lemma length_add_child [simp]: "length (add_child st a p) = Suc (length st)"
  by (simp add: add_child_def)

lemma meta_add_child:
  assumes "a < length st" and "b < Suc (length st)"
  shows "node_meta (add_child st a p ! b) = (if b < length st then node_meta (st ! b) else None)"
  using assms by (cases "b = length st") (auto simp: add_child_def newNode_def nth_append nth_list_update)

lemma edge_add_child:
  assumes "a < length st" and "mget (node_children (st ! a)) p = None"
  shows "edge (add_child st a p) b k c \<longleftrightarrow> edge st b k c \<or> (b = a \<and> k = p \<and> c = length st)"
proof (cases "b = length st")
  case True
  with assms show ?thesis by (auto simp: edge_def add_child_def newNode_def nth_append)
next
  case False
  with assms show ?thesis
    by (auto simp: edge_def add_child_def nth_append nth_list_update split: if_splits)
qed

lemma wf_children_add_child:
  assumes "\<forall>b < length st. wf_map (node_children (st ! b))" and "a < length st"
    and "b < Suc (length st)"
  shows "wf_map (node_children (add_child st a p ! b))"
  using assms by (cases "b = length st") (auto simp: add_child_def newNode_def nth_append nth_list_update)

lemma st_inv_add_child:
  assumes inv: "st_inv s st r" and a: "a < length st"
    and new: "mget (node_children (st ! a)) p = None" and p: "p \<noteq> []" "s \<notin> set p"
  shows "st_inv s (add_child st a p) r"
proof -
  note E = edge_add_child [OF a new]
  have fresh: "\<not> edge st b k (length st)" for b k
    using st_invD(4) [OF inv] by blast
  show ?thesis
    unfolding st_inv_def
  proof (intro conjI allI impI)
    show "r < length (add_child st a p)" using st_invD(1) [OF inv] by simp
  next
    fix b assume "b < length (add_child st a p)"
    then show "wf_map (node_children (add_child st a p ! b))"
      using st_invD(2) [OF inv] a by (simp add: wf_children_add_child)
  next
    fix b k c assume "edge (add_child st a p) b k c"
    then consider (old) "edge st b k c" | (new) "b = a" "k = p" "c = length st"
      unfolding E by blast
    then have "b < c \<and> c < length (add_child st a p) \<and> c \<noteq> r \<and> k \<noteq> [] \<and> s \<notin> set k"
    proof cases
      case old
      with st_invD(3-7) [OF inv old] show ?thesis by simp
    next
      case new
      with st_invD(1) [OF inv] a p show ?thesis by simp
    qed
    then show "b < c" and "c < length (add_child st a p)" and "c \<noteq> r" and "k \<noteq> []" and "s \<notin> set k"
      by blast+
  next
    fix b k b' l c
    assume "edge (add_child st a p) b k c" and "edge (add_child st a p) b' l c"
    then have "b = b' \<and> k = l"
      using st_invD(8) [OF inv, of b k c b' l] fresh unfolding E by auto
    then show "b = b'" and "k = l" by blast+
  qed
qed

subsection \<open>Walks\<close>

lemma node_walk_less:
  assumes "st_inv s st r" and "a < length st" and "node_walk st a ks = Some x"
  shows "x < length st"
  using assms(2,3)
proof (induction ks arbitrary: a)
  case (Cons k ks)
  then show ?case
    using st_invD(4) [OF assms(1)] by (fastforce simp: edge_def split: if_splits option.splits)
qed simp

lemma node_walk_mono:
  assumes sub: "\<And>b k c. edge st b k c \<Longrightarrow> edge st' b k c"
    and inv: "st_inv s st r" and "a < length st" and "node_walk st a ks = Some x"
  shows "node_walk st' a ks = Some x"
  using assms(3,4)
proof (induction ks arbitrary: a)
  case (Cons k ks)
  then obtain c where k: "k \<noteq> []" and e: "edge st a k c" and w: "node_walk st c ks = Some x"
    by (auto simp: edge_def split: if_splits option.splits)
  have "c < length st" using st_invD(4) [OF inv e] .
  then have "node_walk st' c ks = Some x" using w by (rule Cons.IH)
  with sub [OF e] k show ?case by (simp add: edge_def)
qed simp

lemma node_walk_snoc:
  "node_walk st a (ks @ [k]) =
     (case node_walk st a ks of
        None \<Rightarrow> None
      | Some b \<Rightarrow> if k = [] then None else mget (node_children (st ! b)) k)"
  by (induction ks arbitrary: a) (auto split: option.splits)

lemma node_walk_append:
  "node_walk st a (ks @ ls) = (case node_walk st a ks of None \<Rightarrow> None | Some b \<Rightarrow> node_walk st b ls)"
  by (induction ks arbitrary: a) (auto split: option.splits)

lemma node_walk_segments:
  assumes "st_inv s st r" and "a < length st" and "node_walk st a ks = Some x"
  shows "\<forall>k \<in> set ks. k \<noteq> [] \<and> s \<notin> set k"
  using assms(2,3)
proof (induction ks arbitrary: a)
  case (Cons k ks)
  then obtain c where e: "edge st a k c" and w: "node_walk st c ks = Some x"
    by (auto simp: edge_def split: if_splits option.splits)
  then show ?case using Cons.IH [of c] st_invD(4,6,7) [OF assms(1) e] by auto
qed simp

lemma node_walk_last_edge:
  assumes "st_inv s st r" and "a < length st" and "node_walk st a (ks @ [k]) = Some x"
  obtains b where "node_walk st a ks = Some b" and "edge st b k x"
  using assms node_walk_less [OF assms(1,2)]
  by (auto simp: node_walk_snoc edge_def split: option.splits if_splits)

lemma node_walk_ge:
  assumes "st_inv s st r" and "a < length st" and "node_walk st a ks = Some x"
  shows "a \<le> x" and "ks \<noteq> [] \<Longrightarrow> a < x"
proof -
  have "a \<le> x \<and> (ks \<noteq> [] \<longrightarrow> a < x)"
    using assms(3)
  proof (induction ks arbitrary: x rule: rev_induct)
    case (snoc k ks)
    then obtain b where "node_walk st a ks = Some b" and e: "edge st b k x"
      using node_walk_last_edge [OF assms(1,2)] by blast
    with snoc.IH have "a \<le> b" by blast
    with st_invD(3) [OF assms(1) e] show ?case by simp
  qed simp
  then show "a \<le> x" and "ks \<noteq> [] \<Longrightarrow> a < x" by blast+
qed

text \<open>No node is reached by two paths: the path of a node is unique.\<close>

lemma node_walk_unique:
  assumes inv: "st_inv s st r" and "node_walk st r ks = Some x" and "node_walk st r ls = Some x"
  shows "ks = ls"
  using assms(2,3)
proof (induction ks arbitrary: ls x rule: rev_induct)
  case Nil
  then show ?case
    using node_walk_ge(2) [OF inv st_invD(1) [OF inv], of ls] by force
next
  case (snoc k ks)
  from snoc.prems(1) obtain b where b: "node_walk st r ks = Some b" and e: "edge st b k x"
    using node_walk_last_edge [OF inv st_invD(1) [OF inv]] by blast
  have "ls \<noteq> []"
    using snoc.prems(2) st_invD(5) [OF inv e] by auto
  then obtain l ls' where ls: "ls = ls' @ [l]" by (metis rev_exhaust)
  with snoc.prems(2) obtain b' where b': "node_walk st r ls' = Some b'" and e': "edge st b' l x"
    using node_walk_last_edge [OF inv st_invD(1) [OF inv]] by blast
  have "b = b'" and "k = l" using st_invD(8) [OF inv e e'] by blast+
  with b b' snoc.IH ls show ?case by blast
qed

subsection \<open>What Put does to the store\<close>

definition extends :: "'a node list \<Rightarrow> 'a node list \<Rightarrow> bool" where
  "extends st st' \<longleftrightarrow>
     length st \<le> length st' \<and>
     (\<forall>b < length st'. node_meta (st' ! b) = (if b < length st then node_meta (st ! b) else None)) \<and>
     (\<forall>b k c. edge st b k c \<longrightarrow> edge st' b k c) \<and>
     (\<forall>b k c. edge st' b k c \<longrightarrow> edge st b k c \<or> length st \<le> c)"

lemma extendsD:
  assumes "extends st st'"
  shows "length st \<le> length st'"
    and "b < length st' \<Longrightarrow> node_meta (st' ! b) = (if b < length st then node_meta (st ! b) else None)"
    and "edge st b k c \<Longrightarrow> edge st' b k c"
    and "edge st' b k c \<Longrightarrow> edge st b k c \<or> length st \<le> c"
  using assms unfolding extends_def by blast+

lemma extends_refl [simp]: "extends st st"
  by (simp add: extends_def)

lemma extends_trans:
  assumes "extends st st1" and "extends st1 st2"
  shows "extends st st2"
  unfolding extends_def
proof (intro conjI allI impI)
  show "length st \<le> length st2" using extendsD(1) [OF assms(1)] extendsD(1) [OF assms(2)] by simp
next
  fix b assume "b < length st2"
  then show "node_meta (st2 ! b) = (if b < length st then node_meta (st ! b) else None)"
    using extendsD(1,2) [OF assms(1)] extendsD(2) [OF assms(2)] by auto
next
  fix b k c assume "edge st b k c"
  then show "edge st2 b k c" using extendsD(3) [OF assms(1)] extendsD(3) [OF assms(2)] by blast
next
  fix b k c assume "edge st2 b k c"
  then show "edge st b k c \<or> length st \<le> c"
    using extendsD(1,4) [OF assms(1)] extendsD(4) [OF assms(2)] by (meson le_trans)
qed

lemma extends_add_child:
  assumes "a < length st" and "mget (node_children (st ! a)) p = None"
  shows "extends st (add_child st a p)"
  using assms by (auto simp: extends_def edge_add_child meta_add_child)

lemma put_walk_props:
  assumes "st_inv s st r" and "a < length st" and "\<forall>p \<in> set ps. s \<notin> set p"
    and "put_walk st a ps = (st', res)"
  shows "st_inv s st' r \<and> extends st st' \<and>
         ([] \<in> set ps \<longrightarrow> res = None) \<and>
         ([] \<notin> set ps \<longrightarrow> res \<noteq> None \<and> res = node_walk st' a ps)"
  using assms
proof (induction ps arbitrary: st a)
  case Nil
  then show ?case by auto
next
  case (Cons p ps)
  show ?case
  proof (cases "p = []")
    case True
    with Cons.prems show ?thesis by (simp add: put_walk_Cons)
  next
    case p: False
    show ?thesis
    proof (cases "mget (node_children (st ! a)) p")
      case (Some c)
      then have e: "edge st a p c" using Cons.prems(2) by (simp add: edge_def)
      have "c < length st" using st_invD(4) [OF Cons.prems(1) e] .
      moreover have "put_walk st c ps = (st', res)" using Cons.prems(4) Some p by (simp add: put_walk_Cons)
      ultimately have IH: "st_inv s st' r \<and> extends st st' \<and> ([] \<in> set ps \<longrightarrow> res = None) \<and>
          ([] \<notin> set ps \<longrightarrow> res \<noteq> None \<and> res = node_walk st' c ps)"
        using Cons.IH Cons.prems(1,3) by simp
      then have "edge st' a p c" using extendsD(3) e by blast
      with IH p show ?thesis by (auto simp: edge_def)
    next
      case None
      let ?st1 = "add_child st a p"
      have inv1: "st_inv s ?st1 r"
        using st_inv_add_child [OF Cons.prems(1,2) None p] Cons.prems(3) by simp
      have e: "edge ?st1 a p (length st)" using edge_add_child [OF Cons.prems(2) None] by simp
      have pw: "put_walk ?st1 (length st) ps = (st', res)"
        using Cons.prems(4) None p by (simp add: put_walk_Cons)
      have IH: "st_inv s st' r \<and> extends ?st1 st' \<and> ([] \<in> set ps \<longrightarrow> res = None) \<and>
          ([] \<notin> set ps \<longrightarrow> res \<noteq> None \<and> res = node_walk st' (length st) ps)"
        by (rule Cons.IH [OF inv1 _ _ pw]) (use Cons.prems(3) in simp_all)
      then have "edge st' a p (length st)" using extendsD(3) e by blast
      moreover have "extends st st'"
        using extends_trans [OF extends_add_child [OF Cons.prems(2) None]] IH by blast
      ultimately show ?thesis using IH p by (auto simp: edge_def)
    qed
  qed
qed

lemma extends_walk:
  assumes "st_inv s st r" and "extends st st'" and "a < length st" and "node_walk st a ks = Some x"
  shows "node_walk st' a ks = Some x"
  using node_walk_mono [OF extendsD(3) [OF assms(2)] assms(1,3,4)] .

lemma extends_walk_back:
  assumes inv: "st_inv s st r" and inv': "st_inv s st' r" and ext: "extends st st'"
    and "a < length st" and "node_walk st' a ks = Some x" and "x < length st"
  shows "node_walk st a ks = Some x"
  using assms(5,6)
proof (induction ks arbitrary: x rule: rev_induct)
  case (snoc k ks)
  have "a < length st'" using assms(4) extendsD(1) [OF ext] by simp
  then obtain b where b: "node_walk st' a ks = Some b" and e: "edge st' b k x"
    using node_walk_last_edge [OF inv'] snoc.prems(1) by blast
  have "edge st b k x" using extendsD(4) [OF ext e] snoc.prems(2) by simp
  then have "b < length st" and kb: "mget (node_children (st ! b)) k = Some x"
    by (auto simp: edge_def)
  then have "node_walk st a ks = Some b" using snoc.IH b by blast
  with kb st_invD(6) [OF inv'] e show ?case by (auto simp: node_walk_snoc)
qed simp

text \<open>Writing a node's value changes no edge.\<close>

lemma set_meta_children [simp]:
  "a < length st \<Longrightarrow> node_children (st[a := (st ! a)\<lparr>node_meta := mt\<rparr>] ! b) = node_children (st ! b)"
  by (cases "a = b") auto

lemma set_meta_edge: "a < length st \<Longrightarrow> edge (st[a := (st ! a)\<lparr>node_meta := mt\<rparr>]) b k c = edge st b k c"
  by (simp add: edge_def)

lemma set_meta_st_inv:
  assumes "a < length st"
  shows "st_inv s (st[a := (st ! a)\<lparr>node_meta := mt\<rparr>]) r = st_inv s st r"
  unfolding st_inv_def set_meta_edge [OF assms] using assms by simp

lemma set_meta_walk:
  "a < length st \<Longrightarrow> node_walk (st[a := (st ! a)\<lparr>node_meta := mt\<rparr>]) b ks = node_walk st b ks"
  by (induction ks arbitrary: b) (auto split: option.splits)

section \<open>The invariant of the tree\<close>

abbreviation walk :: "'a prefix_tree \<Rightarrow> string list \<Rightarrow> nat option" where
  "walk t ks \<equiv> node_walk (pt_store t) (pt_root t) ks"

abbreviation meta_at :: "'a prefix_tree \<Rightarrow> nat \<Rightarrow> 'a option" where
  "meta_at t a \<equiv> node_meta (pt_store t ! a)"

text \<open>A key is storable when no segment of it is empty: \<open>Put\<close> ignores every other key.\<close>

definition valid_key :: "char \<Rightarrow> string \<Rightarrow> bool" where
  "valid_key s k \<longleftrightarrow> [] \<notin> set (split_char s k)"

definition pt_inv :: "char \<Rightarrow> 'a prefix_tree \<Rightarrow> bool" where
  "pt_inv s t \<longleftrightarrow>
     pt_separator t = [s] \<and>
     st_inv s (pt_store t) (pt_root t) \<and>
     (\<forall>k p. mget (pt_prefixCache t) k = Some p \<longrightarrow> p = split_char s k) \<and>
     wf_map (pt_m t) \<and>
     (\<forall>k a. mget (pt_m t) k = Some a \<longrightarrow> valid_key s k \<and> walk t (split_char s k) = Some a) \<and>
     (\<forall>ks a. walk t ks = Some a \<longrightarrow> meta_at t a \<noteq> None \<longrightarrow>
              ks \<noteq> [] \<and> mget (pt_m t) (join [s] ks) = Some a)"

lemma pt_invD:
  assumes "pt_inv s t"
  shows "pt_separator t = [s]"
    and "st_inv s (pt_store t) (pt_root t)"
    and "mget (pt_prefixCache t) k = Some p \<Longrightarrow> p = split_char s k"
    and "wf_map (pt_m t)"
    and "mget (pt_m t) k = Some a \<Longrightarrow> valid_key s k"
    and "mget (pt_m t) k = Some a \<Longrightarrow> walk t (split_char s k) = Some a"
    and "walk t ks = Some a \<Longrightarrow> meta_at t a \<noteq> None \<Longrightarrow> ks \<noteq> []"
    and "walk t ks = Some a \<Longrightarrow> meta_at t a \<noteq> None \<Longrightarrow> mget (pt_m t) (join [s] ks) = Some a"
  using assms unfolding pt_inv_def by blast+

lemma node_walk_single:
  "node_walk [newNode] 0 ks = Some a \<longleftrightarrow> ks = [] \<and> a = 0"
  by (cases ks) (auto simp: newNode_def)

lemma NewPrefixTree_inv: "NewPrefixTree [s] = Some t \<Longrightarrow> pt_inv s t"
  by (auto simp: NewPrefixTree_def pt_inv_def st_inv_def edge_def newNode_def
      node_walk_single [unfolded newNode_def])

text \<open>The memo table of \<open>prefix\<close> never changes what it computes.\<close>

lemma pt_prefix_correct:
  assumes "pt_inv s t"
  shows "\<exists>c. pt_prefix t key = (split_char s key, t\<lparr>pt_prefixCache := c\<rparr>)
           \<and> pt_inv s (t\<lparr>pt_prefixCache := c\<rparr>)"
proof (cases "mget (pt_prefixCache t) key")
  case None
  let ?c = "AList.update key (split_char s key) (pt_prefixCache t)"
  have "pt_prefix t key = (split_char s key, t\<lparr>pt_prefixCache := ?c\<rparr>)"
    using None pt_invD(1) [OF assms] by (simp add: pt_prefix_def split_sep_def Let_def)
  moreover have "pt_inv s (t\<lparr>pt_prefixCache := ?c\<rparr>)"
    using assms unfolding pt_inv_def by simp
  ultimately show ?thesis by blast
next
  case (Some p)
  then have "pt_prefix t key = (split_char s key, t\<lparr>pt_prefixCache := pt_prefixCache t\<rparr>)"
    using pt_invD(3) [OF assms Some] by (simp add: pt_prefix_def)
  moreover have "pt_inv s (t\<lparr>pt_prefixCache := pt_prefixCache t\<rparr>)" using assms by simp
  ultimately show ?thesis by blast
qed

lemma pt_Get_prefixCache [simp]: "pt_Get (t\<lparr>pt_prefixCache := c\<rparr>) k = pt_Get t k"
  by (simp add: pt_Get_def split: option.split)

subsection \<open>Put\<close>

lemma pt_Put_invalid:
  assumes "pt_inv s t" and "\<not> valid_key s key"
  obtains c st where "pt_Put t key mt = t\<lparr>pt_prefixCache := c, pt_store := st\<rparr>"
    and "pt_inv s (t\<lparr>pt_prefixCache := c\<rparr>)"
    and "st_inv s st (pt_root t)" and "extends (pt_store t) st"
proof -
  obtain c where c: "pt_prefix t key = (split_char s key, t\<lparr>pt_prefixCache := c\<rparr>)"
    and inv: "pt_inv s (t\<lparr>pt_prefixCache := c\<rparr>)"
    using pt_prefix_correct [OF assms(1)] by blast
  obtain st r where pw: "put_walk (pt_store t) (pt_root t) (split_char s key) = (st, r)"
    by (metis surj_pair)
  note P = put_walk_props [OF pt_invD(2) [OF assms(1)] st_invD(1) [OF pt_invD(2) [OF assms(1)]] _ pw]
  have "r = None" using P assms(2) split_char_no_sep by (auto simp: valid_key_def)
  with c pw have "pt_Put t key mt = t\<lparr>pt_prefixCache := c, pt_store := st\<rparr>"
    by (simp add: pt_Put_def)
  then show ?thesis using that inv P split_char_no_sep by blast
qed

lemma pt_Put_valid:
  assumes "pt_inv s t" and "valid_key s key"
  obtains c st a where "pt_Put t key mt =
      t\<lparr>pt_prefixCache := c, pt_store := st[a := (st ! a)\<lparr>node_meta := mt\<rparr>],
        pt_m := AList.update key a (pt_m t)\<rparr>"
    and "pt_inv s (t\<lparr>pt_prefixCache := c\<rparr>)"
    and "st_inv s st (pt_root t)" and "extends (pt_store t) st"
    and "node_walk st (pt_root t) (split_char s key) = Some a" and "a < length st"
proof -
  obtain c where c: "pt_prefix t key = (split_char s key, t\<lparr>pt_prefixCache := c\<rparr>)"
    and inv: "pt_inv s (t\<lparr>pt_prefixCache := c\<rparr>)"
    using pt_prefix_correct [OF assms(1)] by blast
  obtain st r where pw: "put_walk (pt_store t) (pt_root t) (split_char s key) = (st, r)"
    by (metis surj_pair)
  note P = put_walk_props [OF pt_invD(2) [OF assms(1)] st_invD(1) [OF pt_invD(2) [OF assms(1)]] _ pw]
  obtain a where r: "r = Some a" and w: "node_walk st (pt_root t) (split_char s key) = Some a"
    using P assms(2) split_char_no_sep by (auto simp: valid_key_def)
  have sti: "st_inv s st (pt_root t)" and ext: "extends (pt_store t) st"
    using P split_char_no_sep by blast+
  have "a < length st" using node_walk_less [OF sti st_invD(1) [OF sti] w] .
  moreover from c pw r have "pt_Put t key mt =
      t\<lparr>pt_prefixCache := c, pt_store := st[a := (st ! a)\<lparr>node_meta := mt\<rparr>],
        pt_m := AList.update key a (pt_m t)\<rparr>"
    by (simp add: pt_Put_def)
  ultimately show ?thesis using that inv sti ext w by blast
qed

text \<open>The nodes of the keys stored before keep their address and value in an extended store.\<close>

lemma extends_stored:
  assumes "pt_inv s t" and "extends (pt_store t) st" and "mget (pt_m t) k = Some a"
  shows "node_walk st (pt_root t) (split_char s k) = Some a" and "a < length (pt_store t)"
    and "node_meta (st ! a) = meta_at t a"
proof -
  note I = pt_invD(2) [OF assms(1)]
  note w = pt_invD(6) [OF assms(1,3)]
  show "node_walk st (pt_root t) (split_char s k) = Some a"
    by (rule extends_walk [OF I assms(2) st_invD(1) [OF I] w])
  show a: "a < length (pt_store t)" by (rule node_walk_less [OF I st_invD(1) [OF I] w])
  then show "node_meta (st ! a) = meta_at t a"
    using extendsD(1,2) [OF assms(2)] by auto
qed

lemma extends_reached:
  assumes "pt_inv s t" and "st_inv s st (pt_root t)" and "extends (pt_store t) st"
    and "node_walk st (pt_root t) ks = Some a" and "node_meta (st ! a) \<noteq> None"
  shows "ks \<noteq> [] \<and> mget (pt_m t) (join [s] ks) = Some a"
proof -
  note I = pt_invD(2) [OF assms(1)]
  have "a < length st" by (rule node_walk_less [OF assms(2) st_invD(1) [OF assms(2)] assms(4)])
  then have a: "a < length (pt_store t)" and m: "meta_at t a \<noteq> None"
    using extendsD(2) [OF assms(3)] assms(5) by (auto split: if_splits)
  have "walk t ks = Some a"
    by (rule extends_walk_back [OF I assms(2,3) st_invD(1) [OF I] assms(4) a])
  then show ?thesis using pt_invD(7,8) [OF assms(1)] m by blast
qed

lemma pt_Put_inv [intro]:
  assumes "pt_inv s t"
  shows "pt_inv s (pt_Put t key mt)"
proof (cases "valid_key s key")
  case False
  obtain c st where eq: "pt_Put t key mt = t\<lparr>pt_prefixCache := c, pt_store := st\<rparr>"
    and ci: "pt_inv s (t\<lparr>pt_prefixCache := c\<rparr>)"
    and sti: "st_inv s st (pt_root t)" and ext: "extends (pt_store t) st"
    by (rule pt_Put_invalid [OF assms False])
  show ?thesis
    unfolding pt_inv_def eq
    using pt_invD(1,3) [OF ci] sti pt_invD(4,5) [OF assms] extends_stored(1) [OF assms ext]
      extends_reached [OF assms sti ext] by simp
next
  case True
  obtain c st a where eq: "pt_Put t key mt =
      t\<lparr>pt_prefixCache := c, pt_store := st[a := (st ! a)\<lparr>node_meta := mt\<rparr>],
        pt_m := AList.update key a (pt_m t)\<rparr>"
    and ci: "pt_inv s (t\<lparr>pt_prefixCache := c\<rparr>)"
    and sti: "st_inv s st (pt_root t)" and ext: "extends (pt_store t) st"
    and w: "node_walk st (pt_root t) (split_char s key) = Some a" and a: "a < length st"
    by (rule pt_Put_valid [OF assms True])
  have reach: "ks \<noteq> [] \<and> mget (AList.update key a (pt_m t)) (join [s] ks) = Some b"
    if wb: "node_walk st (pt_root t) ks = Some b"
      and mb: "node_meta (st[a := (st ! a)\<lparr>node_meta := mt\<rparr>] ! b) \<noteq> None" for ks b
  proof (cases "b = a")
    case True
    with wb w have "ks = split_char s key" using node_walk_unique [OF sti] by blast
    with True show ?thesis by simp
  next
    case False
    then have "node_meta (st ! b) \<noteq> None" using mb by simp
    then have "ks \<noteq> []" and mj: "mget (pt_m t) (join [s] ks) = Some b"
      using extends_reached [OF assms sti ext wb] by blast+
    moreover have "join [s] ks \<noteq> key"
      using extends_stored(1) [OF assms ext mj] w False by auto
    ultimately show ?thesis by simp
  qed
  show ?thesis
    unfolding pt_inv_def eq
    using pt_invD(1,3) [OF ci] sti pt_invD(4,5) [OF assms] extends_stored(1) [OF assms ext]
      True w reach by (simp add: set_meta_st_inv [OF a] set_meta_walk [OF a])
qed

lemma pt_Get_Put:
  assumes "pt_inv s t"
  shows "pt_Get (pt_Put t key mt) k = (if k = key \<and> valid_key s key then mt else pt_Get t k)"
proof (cases "valid_key s key")
  case False
  obtain c st where eq: "pt_Put t key mt = t\<lparr>pt_prefixCache := c, pt_store := st\<rparr>"
    and ext: "extends (pt_store t) st"
    by (rule pt_Put_invalid [OF assms False]) blast
  show ?thesis
    using False extends_stored(3) [OF assms ext] by (simp add: eq pt_Get_def split: option.splits)
next
  case True
  obtain c st a where eq: "pt_Put t key mt =
      t\<lparr>pt_prefixCache := c, pt_store := st[a := (st ! a)\<lparr>node_meta := mt\<rparr>],
        pt_m := AList.update key a (pt_m t)\<rparr>"
    and sti: "st_inv s st (pt_root t)" and ext: "extends (pt_store t) st"
    and w: "node_walk st (pt_root t) (split_char s key) = Some a" and a: "a < length st"
    by (rule pt_Put_valid [OF assms True])
  have "a \<noteq> b" if "mget (pt_m t) k = Some b" "k \<noteq> key" for b
    using node_walk_unique [OF sti extends_stored(1) [OF assms ext that(1)], of "split_char s key"]
      w that(2) by (auto simp: split_char_inject)
  then show ?thesis
    using True a extends_stored(3) [OF assms ext]
    by (cases "k = key"; cases "mget (pt_m t) k") (simp_all add: eq pt_Get_def)
qed

subsection \<open>Del, Keys and Clear\<close>

lemma pt_node_correct:
  assumes "pt_inv s t"
  shows "\<exists>c. pt_node t key = (walk t (split_char s key), t\<lparr>pt_prefixCache := c\<rparr>)
           \<and> pt_inv s (t\<lparr>pt_prefixCache := c\<rparr>)"
proof -
  obtain c where "pt_prefix t key = (split_char s key, t\<lparr>pt_prefixCache := c\<rparr>)"
    and "pt_inv s (t\<lparr>pt_prefixCache := c\<rparr>)"
    using pt_prefix_correct [OF assms] by blast
  then show ?thesis by (auto simp: pt_node_def)
qed

lemma node_walk_valid: "node_walk st a ks = Some x \<Longrightarrow> [] \<notin> set ks"
  by (induction ks arbitrary: a) (auto split: if_splits option.splits)

text \<open>
  \<open>Del\<close> clears the node at the end of the path and drops the entry of \<open>m\<close>. A stored key has both
  or neither, so one lemma covers the two cases of the path being there or not.
\<close>

lemma pt_Del_inv [intro]:
  assumes "pt_inv s t"
  shows "pt_inv s (pt_Del t key)"
proof -
  obtain c where n: "pt_node t key = (walk t (split_char s key), t\<lparr>pt_prefixCache := c\<rparr>)"
    and ci: "pt_inv s (t\<lparr>pt_prefixCache := c\<rparr>)"
    using pt_node_correct [OF assms] by blast
  note I = pt_invD(2) [OF assms]
  show ?thesis
  proof (cases "walk t (split_char s key)")
    case None
    have eq: "pt_Del t key = t\<lparr>pt_prefixCache := c, pt_m := AList.delete key (pt_m t)\<rparr>"
      using n None by (simp add: pt_Del_def)
    have "join [s] ks \<noteq> key" if "walk t ks = Some a" "meta_at t a \<noteq> None" for ks a
      using pt_invD(6) [OF assms pt_invD(8) [OF assms that]] None by auto
    then show ?thesis
      unfolding pt_inv_def eq using pt_invD [OF ci] by simp
  next
    case (Some a)
    have a: "a < length (pt_store t)" by (rule node_walk_less [OF I st_invD(1) [OF I] Some])
    have eq: "pt_Del t key = t\<lparr>pt_prefixCache := c,
        pt_store := (pt_store t)[a := (pt_store t ! a)\<lparr>node_meta := None\<rparr>],
        pt_m := AList.delete key (pt_m t)\<rparr>"
      using n Some by (simp add: pt_Del_def)
    have reach: "ks \<noteq> [] \<and> mget (AList.delete key (pt_m t)) (join [s] ks) = Some b"
      if wb: "walk t ks = Some b"
        and mb: "node_meta ((pt_store t)[a := (pt_store t ! a)\<lparr>node_meta := None\<rparr>] ! b) \<noteq> None"
      for ks b
    proof -
      have ba: "b \<noteq> a" using mb a by auto
      then have "meta_at t b \<noteq> None" using mb by simp
      then have "ks \<noteq> []" and mj: "mget (pt_m t) (join [s] ks) = Some b"
        using pt_invD(7,8) [OF assms wb] by blast+
      moreover have "join [s] ks \<noteq> key" using pt_invD(6) [OF assms mj] Some ba by auto
      ultimately show ?thesis by simp
    qed
    show ?thesis
      unfolding pt_inv_def eq
      using pt_invD(1,3) [OF ci] I pt_invD(4,5,6) [OF assms] reach
      by (simp add: set_meta_st_inv [OF a] set_meta_walk [OF a])
  qed
qed

lemma pt_Get_Del:
  assumes "pt_inv s t"
  shows "pt_Get (pt_Del t key) k = (if k = key then None else pt_Get t k)"
proof -
  obtain c where n: "pt_node t key = (walk t (split_char s key), t\<lparr>pt_prefixCache := c\<rparr>)"
    using pt_node_correct [OF assms] by blast
  have "a \<noteq> b" if "mget (pt_m t) k = Some b" "walk t (split_char s key) = Some a" "k \<noteq> key" for a b
    using node_walk_unique [OF pt_invD(2) [OF assms] pt_invD(6) [OF assms that(1)], of "split_char s key"]
      that(2,3) by (auto simp: split_char_inject)
  with n show ?thesis
    by (cases "k = key"; cases "mget (pt_m t) k"; cases "walk t (split_char s key)")
      (simp_all add: pt_Del_def pt_Get_def)
qed

lemma pt_m_Put:
  assumes "pt_inv s t"
  shows "set (pt_Keys (pt_Put t key mt)) = (if valid_key s key then insert key else id) (set (pt_Keys t))"
proof (cases "valid_key s key")
  case True
  then show ?thesis
    by (rule pt_Put_valid [OF assms, where mt = mt]) (simp_all add: True pt_Keys_def dom_update)
next
  case False
  then show ?thesis
    by (rule pt_Put_invalid [OF assms, where mt = mt]) (simp_all add: False pt_Keys_def)
qed

lemma pt_m_Del:
  assumes "pt_inv s t"
  shows "set (pt_Keys (pt_Del t key)) = set (pt_Keys t) - {key}"
proof -
  obtain c where n: "pt_node t key = (walk t (split_char s key), t\<lparr>pt_prefixCache := c\<rparr>)"
    using pt_node_correct [OF assms] by blast
  then have "pt_m (pt_Del t key) = AList.delete key (pt_m t)"
    by (simp add: pt_Del_def split: option.split)
  then show ?thesis by (auto simp: pt_Keys_def delete_keys simp flip: set_map)
qed

lemma pt_Keys_Get: "pt_Get t k \<noteq> None \<Longrightarrow> k \<in> set (pt_Keys t)"
  by (auto simp: pt_Get_def pt_Keys_def split: option.splits dest: mget_key)

lemma pt_Clear_inv [intro]:
  assumes "pt_inv s t"
  shows "pt_inv s (pt_Clear t)"
proof -
  note I = pt_invD(2) [OF assms]
  let ?st = "pt_store t @ [newNode]"
  have E: "edge ?st b k c = edge (pt_store t) b k c" for b k c
    by (auto simp: edge_def nth_append newNode_def)
  have fresh: "\<not> edge (pt_store t) b k (length (pt_store t))" for b k
    using st_invD(4) [OF I] by blast
  have wf: "wf_map (node_children (?st ! b))" if "b < length ?st" for b
    using st_invD(2) [OF I, of b] that by (auto simp: nth_append newNode_def)
  have up: "b < c \<and> c < length ?st \<and> c \<noteq> length (pt_store t) \<and> k \<noteq> [] \<and> s \<notin> set k"
    if "edge (pt_store t) b k c" for b k c
    using st_invD(3,4,6,7) [OF I that] by simp
  have sti: "st_inv s ?st (length (pt_store t))"
    unfolding st_inv_def E
    by (intro conjI allI impI) (simp, (use wf up st_invD(8) [OF I] in blast)+)
  have "ks = [] \<and> a = length (pt_store t)"
    if "node_walk ?st (length (pt_store t)) ks = Some a" for ks a
    using that by (cases ks) (auto simp: newNode_def split: if_splits)
  then have "\<not> (node_walk ?st (length (pt_store t)) ks = Some a \<and> node_meta (?st ! a) \<noteq> None)" for ks a
    by (fastforce simp: newNode_def)
  with sti show ?thesis
    using pt_invD(1) [OF assms] by (auto simp: pt_Clear_def pt_inv_def)
qed

lemma pt_Get_Clear [simp]: "pt_Get (pt_Clear t) k = None"
  by (simp add: pt_Get_def pt_Clear_def)

subsection \<open>Search\<close>

text \<open>The name \<open>travel\<close> gives to the node reached from a node called \<open>name\<close> by the segments \<open>ks\<close>.\<close>

definition ext_name :: "string \<Rightarrow> string \<Rightarrow> string list \<Rightarrow> string" where
  "ext_name sep name ks = (if name = [] then join sep ks else join sep (name # ks))"

lemma ext_name_Nil [simp]: "ext_name sep name [] = name"
  by (simp add: ext_name_def)

lemma ext_name_step: "k \<noteq> [] \<Longrightarrow> ext_name sep (ext_name sep name [k]) ks = ext_name sep name (k # ks)"
  by (cases ks) (auto simp: ext_name_def)

lemma ext_name_child: "(if name \<noteq> [] then name @ sep @ k else k) = ext_name sep name [k]"
  by (simp add: ext_name_def)

definition found :: "'a node list \<Rightarrow> string \<Rightarrow> string \<Rightarrow> nat \<Rightarrow> string \<Rightarrow> 'a \<Rightarrow> bool" where
  "found st sep name a x v \<longleftrightarrow>
     (\<exists>ks b. node_walk st a ks = Some b \<and> node_meta (st ! b) = Some v \<and>
             x = ext_name sep name ks \<and> x \<noteq> [])"

lemma found_step:
  assumes "st_inv s st r" and "a < length st"
  shows "found st [s] name a x v \<longleftrightarrow>
           (node_meta (st ! a) = Some v \<and> x = name \<and> name \<noteq> []) \<or>
           (\<exists>(k, c) \<in> set (node_children (st ! a)). found st [s] (ext_name [s] name [k]) c x v)"
    (is "?L \<longleftrightarrow> ?here \<or> ?below")
proof -
  have kc: "mget (node_children (st ! a)) k = Some c \<longleftrightarrow> (k, c) \<in> set (node_children (st ! a))" for k c
    using mget_in_set [OF st_invD(2) [OF assms]] .
  have ne: "k \<noteq> []" if "mget (node_children (st ! a)) k = Some c" for k c
    using st_invD(6) [OF assms(1)] that assms(2) by (auto simp: edge_def)
  have "?here \<or> ?below" if ?L
  proof -
    from that obtain ks b where w: "node_walk st a ks = Some b" and m: "node_meta (st ! b) = Some v"
      and x: "x = ext_name [s] name ks" "x \<noteq> []" by (auto simp: found_def)
    show ?thesis
    proof (cases ks)
      case Nil
      with w m x show ?thesis by simp
    next
      case (Cons k ls)
      with w obtain c where k: "k \<noteq> []" and c: "mget (node_children (st ! a)) k = Some c"
        and w': "node_walk st c ls = Some b" by (auto split: if_splits option.splits)
      have "x = ext_name [s] (ext_name [s] name [k]) ls"
        using x(1) Cons k by (simp add: ext_name_step)
      then have "found st [s] (ext_name [s] name [k]) c x v"
        using w' m x(2) by (auto simp: found_def)
      with c show ?thesis by (auto simp: kc)
    qed
  qed
  moreover have ?L if ?here
    using that by (auto simp: found_def intro!: exI [of _ "[]"])
  moreover have ?L if ?below
  proof -
    from that obtain k c where kc': "(k, c) \<in> set (node_children (st ! a))"
      and f: "found st [s] (ext_name [s] name [k]) c x v" by auto
    then have c: "mget (node_children (st ! a)) k = Some c" by (simp add: kc)
    from f obtain ls b where "node_walk st c ls = Some b" and "node_meta (st ! b) = Some v"
      and "x = ext_name [s] (ext_name [s] name [k]) ls" "x \<noteq> []" by (auto simp: found_def)
    then show ?thesis
      using c ne [OF c] by (auto simp: found_def ext_name_step intro!: exI [of _ "k # ls"])
  qed
  ultimately show ?thesis by blast
qed

lemma child_edge:
  assumes "st_inv s st r" and "a < length st" and "(k, c) \<in> set (node_children (st ! a))"
  shows "a < c" and "c < length st"
proof -
  have "edge st a k c"
    using assms mget_in_set [OF st_invD(2) [OF assms(1,2)], of k c] by (simp add: edge_def)
  then show "a < c" and "c < length st" using st_invD(3,4) [OF assms(1)] by blast+
qed

text \<open>
  \<open>travel\<close> ends with fuel for the addresses above the node, finds nothing but reachable values, and
  finds all of them.
\<close>

lemma travel_total:
  "st_inv s st r \<Longrightarrow> a < length st \<Longrightarrow> length st - a \<le> n \<Longrightarrow>
     \<exists>res'. travel n st sep name a res = Some res'"
  "st_inv s st r \<Longrightarrow> \<forall>(k, c) \<in> set cs. c < length st \<and> length st - c \<le> n \<Longrightarrow>
     \<exists>res'. travel_children n st sep name cs res = Some res'"
proof (induction n st sep name a res and n st sep name cs res rule: travel_travel_children.induct)
  case (2 n st sep name a res)
  have "\<forall>(k, c) \<in> set (node_children (st ! a)). c < length st \<and> length st - c \<le> n"
    using child_edge [OF "2.prems"(1,2)] "2.prems"(3) by fastforce
  then show ?case using "2.IH" "2.prems"(1) by simp
next
  case (4 n st sep name k c cs res)
  then obtain res1 where "travel n st sep (if name \<noteq> [] then name @ sep @ k else k) c res = Some res1"
    by fastforce
  then show ?case using "4.IH"(2) "4.prems" by simp
qed simp_all

lemma travel_sound:
  "st_inv s st r \<Longrightarrow> a < length st \<Longrightarrow> sep = [s] \<Longrightarrow> travel n st sep name a res = Some res' \<Longrightarrow>
     mget res' x = Some v \<Longrightarrow> mget res x = Some v \<or> found st [s] name a x v"
  "st_inv s st r \<Longrightarrow> \<forall>(k, c) \<in> set cs. c < length st \<Longrightarrow> sep = [s] \<Longrightarrow>
     travel_children n st sep name cs res = Some res' \<Longrightarrow> mget res' x = Some v \<Longrightarrow>
     mget res x = Some v \<or> (\<exists>(k, c) \<in> set cs. found st [s] (ext_name [s] name [k]) c x v)"
proof (induction n st sep name a res and n st sep name cs res
    arbitrary: res' and res' rule: travel_travel_children.induct)
  case (2 n st sep name a res)
  let ?res = "case node_meta (st ! a) of
      Some w \<Rightarrow> if name \<noteq> [] then AList.update name w res else res | None \<Rightarrow> res"
  have "\<forall>(k, c) \<in> set (node_children (st ! a)). c < length st"
    using child_edge(2) [OF "2.prems"(1,2)] by fastforce
  then have "mget ?res x = Some v \<or>
      (\<exists>(k, c) \<in> set (node_children (st ! a)). found st [s] (ext_name [s] name [k]) c x v)"
    using "2.IH" "2.prems" by simp
  then show ?case
    unfolding found_step [OF "2.prems"(1,2)] by (auto split: option.splits if_splits)
next
  case (4 n st sep name k c cs res)
  then obtain res1 where r1: "travel n st [s] (ext_name [s] name [k]) c res = Some res1"
    and r2: "travel_children n st [s] name cs res1 = Some res'"
    by (auto simp: ext_name_child split: option.splits)
  have "mget res1 x = Some v \<or> (\<exists>(k, c) \<in> set cs. found st [s] (ext_name [s] name [k]) c x v)"
    using "4.IH"(2) [of res1 res'] r1 r2 "4.prems" by (simp add: ext_name_child)
  moreover have "mget res x = Some v \<or> found st [s] (ext_name [s] name [k]) c x v"
    if "mget res1 x = Some v"
    using "4.IH"(1) [of res1] r1 "4.prems" that by (simp add: ext_name_child)
  ultimately show ?case by auto
qed simp_all

lemma travel_complete:
  "st_inv s st r \<Longrightarrow> a < length st \<Longrightarrow> sep = [s] \<Longrightarrow> travel n st sep name a res = Some res' \<Longrightarrow>
     mget res x \<noteq> None \<or> found st [s] name a x v \<Longrightarrow> mget res' x \<noteq> None"
  "st_inv s st r \<Longrightarrow> \<forall>(k, c) \<in> set cs. c < length st \<Longrightarrow> sep = [s] \<Longrightarrow>
     travel_children n st sep name cs res = Some res' \<Longrightarrow>
     mget res x \<noteq> None \<or> (\<exists>(k, c) \<in> set cs. found st [s] (ext_name [s] name [k]) c x v) \<Longrightarrow>
     mget res' x \<noteq> None"
proof (induction n st sep name a res and n st sep name cs res
    arbitrary: res' and res' rule: travel_travel_children.induct)
  case (2 n st sep name a res)
  let ?res = "case node_meta (st ! a) of
      Some w \<Rightarrow> if name \<noteq> [] then AList.update name w res else res | None \<Rightarrow> res"
  have "\<forall>(k, c) \<in> set (node_children (st ! a)). c < length st"
    using child_edge(2) [OF "2.prems"(1,2)] by fastforce
  moreover have "mget ?res x \<noteq> None \<or>
      (\<exists>(k, c) \<in> set (node_children (st ! a)). found st [s] (ext_name [s] name [k]) c x v)"
    using "2.prems"(5) unfolding found_step [OF "2.prems"(1,2)] by (auto split: option.splits if_splits)
  ultimately show ?case using "2.IH" "2.prems" by simp
next
  case (4 n st sep name k c cs res)
  then obtain res1 where r1: "travel n st [s] (ext_name [s] name [k]) c res = Some res1"
    and r2: "travel_children n st [s] name cs res1 = Some res'"
    by (auto simp: ext_name_child split: option.splits)
  have "mget res1 x \<noteq> None"
    if "mget res x \<noteq> None \<or> found st [s] (ext_name [s] name [k]) c x v"
    using "4.IH"(1) [of res1] r1 "4.prems" that by (simp add: ext_name_child)
  then have "mget res1 x \<noteq> None \<or> (\<exists>(k, c) \<in> set cs. found st [s] (ext_name [s] name [k]) c x v)"
    using "4.prems"(5) by auto
  then show ?case using "4.IH"(2) [of res1 res'] r1 r2 "4.prems" by (simp add: ext_name_child)
qed simp_all

abbreviation search_path :: "char \<Rightarrow> string \<Rightarrow> string list" where
  "search_path s p \<equiv> (if p = [] then [] else split_char s p)"

lemma join_search_path:
  assumes "ks \<noteq> []"
  shows "join [s] (search_path s p @ ks) = ext_name [s] p ks"
  using assms by (auto simp: ext_name_def join_append join_Cons)

lemma ext_name_prefix: "p = [] \<or> ext_name [s] p ks = p \<or> has_prefix (ext_name [s] p ks) (p @ [s])"
  by (cases ks) (auto simp: ext_name_def has_prefix_iff)

lemma found_iff_Get:
  assumes inv: "pt_inv s t" and wp: "walk t (search_path s p) = Some a"
  shows "found (pt_store t) [s] p a x v \<longleftrightarrow>
           pt_Get t x = Some v \<and> (p = [] \<or> x = p \<or> has_prefix x (p @ [s]))"
    (is "?L \<longleftrightarrow> ?R")
proof
  assume ?L
  then obtain ks b where w: "node_walk (pt_store t) a ks = Some b" and mb: "meta_at t b = Some v"
    and x: "x = ext_name [s] p ks" "x \<noteq> []" by (auto simp: found_def)
  have wb: "walk t (search_path s p @ ks) = Some b"
    using w wp by (simp add: node_walk_append)
  have "join [s] (search_path s p @ ks) = x"
    using x join_search_path [of ks s p] by (cases "ks = []") auto
  with pt_invD(8) [OF inv wb] mb have "mget (pt_m t) x = Some b" by simp
  with mb have "pt_Get t x = Some v" by (simp add: pt_Get_def)
  with x(1) ext_name_prefix show ?R by blast
next
  assume R: ?R
  then obtain b where mx: "mget (pt_m t) x = Some b" and mb: "meta_at t b = Some v"
    by (auto simp: pt_Get_def split: option.splits)
  note wx = pt_invD(6) [OF inv mx]
  have "x \<noteq> []" using pt_invD(5) [OF inv mx] by (auto simp: valid_key_def)
  obtain ks where ks: "split_char s x = search_path s p @ ks"
  proof -
    have "\<exists>ks. split_char s x = search_path s p @ ks"
      using R by (auto simp: has_prefix_iff split_char_append)
    then show ?thesis using that by blast
  qed
  have "node_walk (pt_store t) a ks = Some b"
    using wx wp unfolding ks by (simp add: node_walk_append)
  moreover have "x = ext_name [s] p ks"
  proof (cases "ks = []")
    case True
    with ks have "p \<noteq> []" and "x = p" by (auto simp: split_char_inject split: if_splits)
    with True show ?thesis by simp
  next
    case False
    have "x = join [s] (search_path s p @ ks)" using ks by (metis join_split_char)
    with False show ?thesis using join_search_path by simp
  qed
  ultimately show ?L using mb \<open>x \<noteq> []\<close> by (auto simp: found_def)
qed

lemma travel_Get:
  assumes inv: "pt_inv s t" and wp: "walk t (search_path s p) = Some a"
  shows "\<exists>res. travel (length (pt_store t)) (pt_store t) [s] p a [] = Some res \<and>
           (\<forall>x. mget res x =
              (if p = [] \<or> x = p \<or> has_prefix x (p @ [s]) then pt_Get t x else None))"
proof -
  note I = pt_invD(2) [OF inv]
  have a: "a < length (pt_store t)" by (rule node_walk_less [OF I st_invD(1) [OF I] wp])
  obtain res where res: "travel (length (pt_store t)) (pt_store t) [s] p a [] = Some res"
    using travel_total(1) [OF I a] by fastforce
  have sound: "pt_Get t x = Some v \<and> (p = [] \<or> x = p \<or> has_prefix x (p @ [s]))"
    if "mget res x = Some v" for x v
    using travel_sound(1) [OF I a refl res that] by (simp add: found_iff_Get [OF assms])
  have complete: "mget res x \<noteq> None"
    if "pt_Get t x = Some v" "p = [] \<or> x = p \<or> has_prefix x (p @ [s])" for x v
    using travel_complete(1) [OF I a refl res, of x v] that by (simp add: found_iff_Get [OF assms])
  have "mget res x = (if p = [] \<or> x = p \<or> has_prefix x (p @ [s]) then pt_Get t x else None)" for x
    using sound [of x] complete [of x] by (cases "mget res x"; cases "pt_Get t x") auto
  with res show ?thesis by blast
qed

lemma pt_SearchByPrefix_correct:
  assumes inv: "pt_inv s t"
  shows "\<exists>res. fst (pt_SearchByPrefix t p) = Some res \<and>
           (\<forall>x. mget res x =
              (if p = [] \<or> x = p \<or> has_prefix x (p @ [s]) then pt_Get t x else None))"
proof (cases "p = []")
  case True
  with travel_Get [OF inv, of p] show ?thesis
    by (simp add: pt_SearchByPrefix_def pt_invD(1) [OF inv])
next
  case False
  obtain c where n: "pt_node t p = (walk t (split_char s p), t\<lparr>pt_prefixCache := c\<rparr>)"
    using pt_node_correct [OF inv] by blast
  show ?thesis
  proof (cases "walk t (split_char s p)")
    case (Some a)
    with travel_Get [OF inv, of p a] n False show ?thesis
      by (simp add: pt_SearchByPrefix_def pt_invD(1) [OF inv])
  next
    case None
    have "pt_Get t x = None" if "x = p \<or> has_prefix x (p @ [s])" for x
    proof (rule ccontr)
      assume "pt_Get t x \<noteq> None"
      then obtain b where "mget (pt_m t) x = Some b" by (auto simp: pt_Get_def split: option.splits)
      then have "walk t (split_char s x) = Some b" by (rule pt_invD(6) [OF inv])
      with None that show False
        by (auto simp: has_prefix_iff split_char_append node_walk_append)
    qed
    with n None False show ?thesis by (simp add: pt_SearchByPrefix_def)
  qed
qed

lemma pt_SearchByPrefix_inv [intro]:
  assumes "pt_inv s t"
  shows "pt_inv s (snd (pt_SearchByPrefix t p))" and "pt_Get (snd (pt_SearchByPrefix t p)) k = pt_Get t k"
proof -
  obtain c where n: "pt_node t p = (walk t (split_char s p), t\<lparr>pt_prefixCache := c\<rparr>)"
    and ci: "pt_inv s (t\<lparr>pt_prefixCache := c\<rparr>)"
    using pt_node_correct [OF assms] by blast
  have "snd (pt_SearchByPrefix t p) = (if p = [] then t else t\<lparr>pt_prefixCache := c\<rparr>)"
    using n by (simp add: pt_SearchByPrefix_def split: option.split)
  with ci assms show "pt_inv s (snd (pt_SearchByPrefix t p))"
    and "pt_Get (snd (pt_SearchByPrefix t p)) k = pt_Get t k" by auto
qed

section \<open>The interface to the clients\<close>

text \<open>
  What the configuration code relies on: a partial map from keys to values whose storable keys are
  given by \<open>ok\<close>. The lemmas about runs of updates are proved here once, from these laws.
\<close>

locale key_store =
  fixes get :: "'t \<Rightarrow> string \<Rightarrow> 'a option"
    and put :: "'t \<Rightarrow> string \<Rightarrow> 'a option \<Rightarrow> 't"
    and del :: "'t \<Rightarrow> string \<Rightarrow> 't"
    and inv :: "'t \<Rightarrow> bool"
    and ok :: "string \<Rightarrow> bool"
  assumes inv_put: "inv t \<Longrightarrow> inv (put t k v)"
    and inv_del: "inv t \<Longrightarrow> inv (del t k)"
    and get_put: "inv t \<Longrightarrow> get (put t k v) x = (if x = k \<and> ok k then v else get t x)"
    and get_del: "inv t \<Longrightarrow> get (del t k) x = (if x = k then None else get t x)"
begin

lemma inv_fold_put: "inv t \<Longrightarrow> inv (fold (\<lambda>(k, v) t. put t k (Some v)) kvs t)"
  by (induction kvs arbitrary: t) (auto intro: inv_put)

lemma get_fold_put:
  assumes "inv t" and "distinct (map fst kvs)"
  shows "get (fold (\<lambda>(k, v) t. put t k (Some v)) kvs t) x =
           (case map_of kvs x of Some v \<Rightarrow> if ok x then Some v else get t x | None \<Rightarrow> get t x)"
  using assms
proof (induction kvs arbitrary: t)
  case (Cons p kvs)
  obtain k v where p: "p = (k, v)" by (cases p)
  have "get (fold (\<lambda>(k, v) t. put t k (Some v)) (p # kvs) t) x =
      (case map_of kvs x of Some w \<Rightarrow> if ok x then Some w else get (put t k (Some v)) x
                          | None \<Rightarrow> get (put t k (Some v)) x)"
    using Cons p by (simp add: inv_put)
  moreover have "map_of kvs x = None" if "x = k"
    using Cons.prems(2) p that by (simp add: map_of_eq_None_iff)
  ultimately show ?case
    using p Cons.prems(1) by (auto simp: get_put split: option.splits)
qed simp

lemma put_overwrites: "inv t \<Longrightarrow> get (put (put t k v) k w) x = get (put t k w) x"
  by (simp add: get_put inv_put)

lemma del_put: "inv t \<Longrightarrow> get (del (put t k v) k) x = get (del t k) x"
  by (simp add: get_put get_del inv_put)

end

interpretation ptree: key_store pt_Get pt_Put pt_Del "pt_inv s" "valid_key s" for s
  by unfold_locales (auto simp: pt_Get_Put pt_Get_Del)

section \<open>Properties\<close>

text \<open>Runs of operations on the tree, and the partial map they are to agree with.\<close>

datatype 'a pt_op = OpPut string 'a | OpDel string | OpClear

fun pt_step :: "'a prefix_tree \<Rightarrow> 'a pt_op \<Rightarrow> 'a prefix_tree" where
  "pt_step t (OpPut k v) = pt_Put t k (Some v)"
| "pt_step t (OpDel k) = pt_Del t k"
| "pt_step t OpClear = pt_Clear t"

fun spec_step :: "char \<Rightarrow> (string \<Rightarrow> 'a option) \<Rightarrow> 'a pt_op \<Rightarrow> (string \<Rightarrow> 'a option)" where
  "spec_step s f (OpPut k v) = (if valid_key s k then f(k \<mapsto> v) else f)"
| "spec_step s f (OpDel k) = f(k := None)"
| "spec_step s f OpClear = Map.empty"

lemma pt_step_refines:
  assumes "pt_inv s t"
  shows "pt_inv s (pt_step t oper) \<and> pt_Get (pt_step t oper) = spec_step s (pt_Get t) oper"
  using assms by (cases oper) (auto simp: pt_Get_Put pt_Get_Del fun_eq_iff)

lemma pt_steps_refine:
  "pt_inv s t \<Longrightarrow>
     pt_inv s (foldl pt_step t ops) \<and> pt_Get (foldl pt_step t ops) = foldl (spec_step s) (pt_Get t) ops"
  by (induction ops arbitrary: t) (auto simp: pt_step_refines)

text \<open>
  C3 (the tree is a map). From a new tree, every sequence of \<open>Put\<close>, \<open>Del\<close> and \<open>Clear\<close> gives a tree
  whose \<open>Get\<close> answers as the partial map does that is updated, for the storable keys, by the same
  sequence: the detour through shared nodes, the memo table and the path walk is invisible.
\<close>

theorem prefix_tree_is_map:
  assumes "NewPrefixTree [s] = Some t"
  shows "pt_Get (foldl pt_step t ops) = foldl (spec_step s) Map.empty ops"
proof -
  have "pt_Get t = Map.empty"
    using assms by (auto simp: NewPrefixTree_def pt_Get_def)
  then show ?thesis using pt_steps_refine [OF NewPrefixTree_inv [OF assms], of ops] by simp
qed

theorem prefix_tree_is_map_witness:
  "\<exists>t. NewPrefixTree [CHR ''.''] = Some t \<and>
     pt_Get (foldl pt_step t [OpPut ''a.b'' (1::nat), OpPut ''a'' 2, OpPut ''a..c'' 3, OpDel ''a.b'']) =
       [''a'' \<mapsto> 2]"
proof -
  let ?t = "the (NewPrefixTree [CHR ''.'']) :: nat prefix_tree"
  have new: "NewPrefixTree [CHR ''.''] = Some ?t" by (simp add: NewPrefixTree_def)
  have "foldl (spec_step CHR ''.'') Map.empty
      [OpPut ''a.b'' (1::nat), OpPut ''a'' 2, OpPut ''a..c'' 3, OpDel ''a.b''] = [''a'' \<mapsto> 2]"
    by (auto simp: valid_key_def fun_eq_iff)
  then show ?thesis using prefix_tree_is_map [OF new] new by metis
qed

text \<open>
  C36 (prefix search). \<open>SearchByPrefix\<close> returns, on every tree the operations can make, exactly the
  stored keys that are the prefix itself or lie below it at a separator boundary (all of them for
  the empty prefix), each with the value \<open>Get\<close> has for it. It always returns: the recursion over the
  nodes ends.
\<close>

theorem search_by_prefix_exact:
  assumes "NewPrefixTree [s] = Some t"
  shows "\<exists>res. fst (pt_SearchByPrefix (foldl pt_step t ops) p) = Some res \<and>
           (\<forall>x. mget res x =
              (if p = [] \<or> x = p \<or> has_prefix x (p @ [s])
               then pt_Get (foldl pt_step t ops) x else None))"
  using pt_SearchByPrefix_correct pt_steps_refine [OF NewPrefixTree_inv [OF assms]] by blast

theorem search_by_prefix_exact_witness:
  "\<exists>t res. NewPrefixTree [CHR ''.''] = Some t \<and>
     fst (pt_SearchByPrefix (foldl pt_step t [OpPut ''a.b'' (1::nat), OpPut ''ab'' 2]) ''a'') = Some res \<and>
     mget res ''a.b'' = Some 1 \<and> mget res ''ab'' = None"
proof -
  let ?t = "the (NewPrefixTree [CHR ''.'']) :: nat prefix_tree"
  let ?ops = "[OpPut ''a.b'' (1::nat), OpPut ''ab'' 2]"
  have new: "NewPrefixTree [CHR ''.''] = Some ?t" by (simp add: NewPrefixTree_def)
  obtain res where "fst (pt_SearchByPrefix (foldl pt_step ?t ?ops) ''a'') = Some res"
    and "\<forall>x. mget res x = (if ''a'' = [] \<or> x = ''a'' \<or> has_prefix x (''a'' @ [CHR ''.''])
               then pt_Get (foldl pt_step ?t ?ops) x else None)"
    using search_by_prefix_exact [OF new, of ?ops "''a''"] by blast
  moreover have "pt_Get (foldl pt_step ?t ?ops) ''a.b'' = Some 1" by code_simp
  moreover have "has_prefix ''a.b'' ''a.''" "\<not> has_prefix ''ab'' ''a.''" by code_simp+
  ultimately show ?thesis using new by (intro exI [of _ ?t] exI [of _ res]) simp
qed

end
