(* ===== verification/Config_Watch.thy ===== *)
theory Config_Watch
  imports Prelude
begin

text \<open>
  The watchers of a configuration: \<^verbatim>\<open>config/watcher/notifier.go\<close> and
  \<^verbatim>\<open>config/watcher/watcher.go\<close>. A notifier is the list of its watchers, in the order they were
  added; a watcher is an interface value, compared with \<open>==\<close>, so the model takes any type with
  equality. What a notifier does is the list of the calls it makes, in order.

  The locale \<open>watcher_list\<close> states what a component that hands out cancel functions relies on; the
  notifier of the registry has the same contract and interprets it as well.
\<close>

datatype notification = NUpdate smap | NDelete "string list" | NSync smap

type_synonym 'w notifier = "'w list"

definition NewNotifier :: "'w list \<Rightarrow> 'w notifier" where
  "NewNotifier ws = ws"

definition nt_Watch :: "'w notifier \<Rightarrow> 'w \<Rightarrow> 'w notifier" where
  "nt_Watch n w = n @ [w]"

text \<open>The function \<open>Watch\<close> returns: it keeps every watcher that is not \<open>w\<close>.\<close>

definition nt_cancel :: "'w notifier \<Rightarrow> 'w \<Rightarrow> 'w notifier" where
  "nt_cancel n w = filter (\<lambda>x. x \<noteq> w) n"

definition nt_Watchers :: "'w notifier \<Rightarrow> 'w list" where
  "nt_Watchers n = n"

definition nt_OnUpdate :: "'w notifier \<Rightarrow> smap \<Rightarrow> ('w \<times> notification) list" where
  "nt_OnUpdate n notify = (if notify = [] then [] else map (\<lambda>w. (w, NUpdate notify)) (nt_Watchers n))"

definition nt_OnDelete :: "'w notifier \<Rightarrow> string list \<Rightarrow> ('w \<times> notification) list" where
  "nt_OnDelete n notify = (if notify = [] then [] else map (\<lambda>w. (w, NDelete notify)) (nt_Watchers n))"

text \<open>Only the watchers that implement \<open>SourceWatcher\<close> hear of a sync.\<close>

definition nt_OnSync :: "('w \<Rightarrow> bool) \<Rightarrow> 'w notifier \<Rightarrow> smap \<Rightarrow> ('w \<times> notification) list" where
  "nt_OnSync is_source n notify =
     (if notify = [] then []
      else map (\<lambda>w. (w, NSync notify)) (filter is_source (nt_Watchers n)))"

definition nt_Size :: "'w notifier \<Rightarrow> nat" where
  "nt_Size n = length (nt_Watchers n)"

section \<open>The contract of a list of watchers\<close>

locale watcher_list =
  fixes watch :: "'n \<Rightarrow> 'w \<Rightarrow> 'n"
    and cancel :: "'n \<Rightarrow> 'w \<Rightarrow> 'n"
    and watchers :: "'n \<Rightarrow> 'w list"
  assumes watchers_watch: "watchers (watch n w) = watchers n @ [w]"
    and watchers_cancel: "watchers (cancel n w) = filter (\<lambda>x. x \<noteq> w) (watchers n)"
begin

lemma cancelled_is_gone: "w \<notin> set (watchers (cancel n w))"
  by (simp add: watchers_cancel)

lemma cancel_keeps_others: "filter (\<lambda>x. x \<noteq> w) (watchers (cancel n w)) = filter (\<lambda>x. x \<noteq> w) (watchers n)"
  by (simp add: watchers_cancel)

lemma watch_then_cancel: "w \<notin> set (watchers n) \<Longrightarrow> watchers (cancel (watch n w) w) = watchers n"
  by (auto simp: watchers_cancel watchers_watch filter_id_conv)

lemma cancels_commute: "watchers (cancel (cancel n v) w) = watchers (cancel (cancel n w) v)"
  by (simp add: watchers_cancel conj_commute)

end

interpretation config_notifier: watcher_list nt_Watch nt_cancel nt_Watchers
  by unfold_locales (simp_all add: nt_Watch_def nt_cancel_def nt_Watchers_def)

section \<open>A watcher of one key\<close>

text \<open>
  \<open>Helper\<close>: the calls \<open>watcherFunc(v, deleted)\<close> that an update or a delete notification causes.
\<close>

record helper =
  keyToWatch :: string

definition NewHelper :: "string \<Rightarrow> helper" where
  "NewHelper key = \<lparr>keyToWatch = to_lower key\<rparr>"

definition helper_OnUpdate :: "helper \<Rightarrow> smap \<Rightarrow> (string \<times> bool) list" where
  "helper_OnUpdate h val =
     (case mget val (to_lower (keyToWatch h)) of Some v \<Rightarrow> [(v, False)] | None \<Rightarrow> [])"

fun helper_OnDelete :: "helper \<Rightarrow> string list \<Rightarrow> (string \<times> bool) list" where
  "helper_OnDelete h [] = []"
| "helper_OnDelete h (k # ks) =
     (if to_lower k \<noteq> keyToWatch h then helper_OnDelete h ks else [('''', True)])"

lemma helper_OnDelete_iff:
  "helper_OnDelete (NewHelper key) ks =
     (if \<exists>k \<in> set ks. to_lower k = to_lower key then [('''', True)] else [])"
  by (induction ks) (auto simp: NewHelper_def)

section \<open>Properties\<close>

text \<open>
  Cancel. Watching and then cancelling gives every later notification to exactly the watchers
  there were before, in the same order, whatever the notification; a cancelled watcher is never
  called again even if it had been added several times.
\<close>

theorem cancelled_watcher_not_called:
  "(w, x) \<notin> set (nt_OnUpdate (nt_cancel n w) m @ nt_OnDelete (nt_cancel n w) ks
                  @ nt_OnSync is_source (nt_cancel n w) m) \<and>
   (w \<notin> set n \<longleftrightarrow> nt_cancel (nt_Watch n w) w = n)"
proof
  have gone: "w \<notin> set (nt_Watchers (nt_cancel n w))"
    by (rule config_notifier.cancelled_is_gone)
  then show "(w, x) \<notin> set (nt_OnUpdate (nt_cancel n w) m @ nt_OnDelete (nt_cancel n w) ks
                  @ nt_OnSync is_source (nt_cancel n w) m)"
    by (auto simp: nt_OnUpdate_def nt_OnDelete_def nt_OnSync_def)
  show "w \<notin> set n \<longleftrightarrow> nt_cancel (nt_Watch n w) w = n"
    using config_notifier.watch_then_cancel [of w n] gone
    by (auto simp: nt_Watchers_def nt_cancel_def nt_Watch_def filter_id_conv)
qed

end
