(* ===== verification/Config_Source.thy ===== *)
theory Config_Source
  imports Config_Watch
begin

text \<open>
  The wrapper around a configuration source, \<^verbatim>\<open>SourceWrapper\<close> of
  \<^verbatim>\<open>config/internal/source.go\<close>. The wrapped source is an interface value: what its \<open>Sync\<close> and
  \<open>AppendPrefix\<close> return is an argument of the operations that call them. The wrapper keeps the
  values it has heard of in a cache; its notifier's only watcher is the closure of
  \<^verbatim>\<open>NewConfig\<close>, so \<open>OnUpdate\<close>, \<open>OnDelete\<close> and \<open>OnSync\<close> return the notification they pass on.
\<close>

datatype config_error = SourceError string | AlreadyClosed

record source_wrapper =
  sw_cache :: smap
  sw_prefix :: "string list"
  sw_synchronized :: bool
  sw_ignore_ns :: bool

definition NewSourceWrapper :: "bool \<Rightarrow> source_wrapper" where
  "NewSourceWrapper ignores =
     \<lparr>sw_cache = [], sw_prefix = [], sw_synchronized = False, sw_ignore_ns = ignores\<rparr>"

text \<open>\<open>Sync\<close>: the loop stores every pair under its lower-case key, in the cache and in the result.\<close>

definition store_lower :: "smap \<Rightarrow> smap \<Rightarrow> smap" where
  "store_lower val acc = fold (\<lambda>(k, v). AList.update (to_lower k) v) val acc"

definition sw_Sync ::
  "source_wrapper \<Rightarrow> config_error + smap \<Rightarrow> (config_error + smap) \<times> source_wrapper" where
  "sw_Sync s r =
     (if sw_synchronized s then (Inr (sw_cache s), s)
      else (case r of
              Inl e \<Rightarrow> (Inl e, s)
            | Inr val \<Rightarrow>
                (Inr (store_lower val []), s\<lparr>sw_cache := store_lower val (sw_cache s)\<rparr>)))"

definition covered :: "string list \<Rightarrow> string \<Rightarrow> bool" where
  "covered prefixes p \<longleftrightarrow> (\<exists>c \<in> set prefixes. has_prefix p c)"

definition sw_AppendPrefix ::
  "source_wrapper \<Rightarrow> (string list \<Rightarrow> config_error option) \<Rightarrow> string list \<Rightarrow>
     config_error option \<times> source_wrapper" where
  "sw_AppendPrefix s append_prefix prefix =
     (let filtered = filter (\<lambda>p. \<not> covered (sw_prefix s) p) (map trim_space prefix)
      in if filtered = [] then (None, s)
         else (case append_prefix filtered of
                 Some e \<Rightarrow> (Some e, s)
               | None \<Rightarrow> (None, s\<lparr>sw_prefix := sw_prefix s @ filtered\<rparr>)))"

definition sw_Get :: "source_wrapper \<Rightarrow> string \<Rightarrow> string option" where
  "sw_Get s key = mget (sw_cache s) key"

definition store_all :: "smap \<Rightarrow> smap \<Rightarrow> smap" where
  "store_all val acc = fold (\<lambda>(k, v). AList.update k v) val acc"

definition sw_OnUpdate :: "source_wrapper \<Rightarrow> smap \<Rightarrow> source_wrapper \<times> notification" where
  "sw_OnUpdate s val = (s\<lparr>sw_cache := store_all val (sw_cache s)\<rparr>, NUpdate val)"

definition sw_OnDelete :: "source_wrapper \<Rightarrow> string list \<Rightarrow> source_wrapper \<times> notification" where
  "sw_OnDelete s val = (s\<lparr>sw_cache := fold AList.delete val (sw_cache s)\<rparr>, NDelete val)"

definition sw_OnSync :: "source_wrapper \<Rightarrow> smap \<Rightarrow> source_wrapper \<times> notification" where
  "sw_OnSync s val = (s\<lparr>sw_cache := store_all val (sw_cache s)\<rparr>, NSync val)"

section \<open>Lemmas\<close>

lemma mget_store_all:
  "mget (store_all val acc) k = (case mget (rev val) k of Some v \<Rightarrow> Some v | None \<Rightarrow> mget acc k)"
  unfolding store_all_def
  by (induction val arbitrary: acc) (auto simp: map_add_def split: option.splits)

lemma mget_rev: "wf_map val \<Longrightarrow> mget (rev val) = mget val"
  unfolding wf_map_def by (simp add: map_of_inject_set rev_map [symmetric])

lemma mget_store_all_wf:
  "wf_map val \<Longrightarrow> mget (store_all val acc) k = (case mget val k of Some v \<Rightarrow> Some v | None \<Rightarrow> mget acc k)"
  by (simp add: mget_store_all mget_rev)

lemma wf_store_all [simp]: "wf_map acc \<Longrightarrow> wf_map (store_all val acc)"
  unfolding store_all_def by (induction val arbitrary: acc) auto

lemma mget_fold_delete: "mget (fold AList.delete ks acc) k = (if k \<in> set ks then None else mget acc k)"
  by (induction ks arbitrary: acc) auto

lemma store_lower_eq: "store_lower val acc = store_all (map (\<lambda>(k, v). (to_lower k, v)) val) acc"
  unfolding store_lower_def store_all_def by (induction val arbitrary: acc) auto

lemma wf_store_lower [simp]: "wf_map acc \<Longrightarrow> wf_map (store_lower val acc)"
  by (simp add: store_lower_eq)

text \<open>
  The prefixes a source has been told about: what \<open>AppendPrefix\<close> passes on is never already covered
  by an earlier prefix, and afterwards every requested prefix is.
\<close>

lemma covered_refl: "p \<in> set ps \<Longrightarrow> covered ps p"
  by (auto simp: covered_def has_prefix_iff)

lemma sw_AppendPrefix_covers:
  assumes "sw_AppendPrefix s ap prefix = (None, s')" and "p \<in> set prefix"
  shows "covered (sw_prefix s') (trim_space p)"
proof (cases "covered (sw_prefix s) (trim_space p)")
  case True
  with assms(1) show ?thesis
    by (auto simp: sw_AppendPrefix_def Let_def covered_def split: if_splits option.splits)
next
  case False
  let ?F = "filter (\<lambda>p. \<not> covered (sw_prefix s) p) (map trim_space prefix)"
  from False assms(2) have p: "trim_space p \<in> set ?F" by simp
  then have "?F \<noteq> []" by (metis empty_iff empty_set)
  with assms(1) have "sw_prefix s' = sw_prefix s @ ?F"
    unfolding sw_AppendPrefix_def Let_def by (auto split: option.splits)
  with p show ?thesis by (simp add: covered_refl)
qed

end
