(* ===== verification/Config_Impl.thy ===== *)
theory Config_Impl
  imports Prefix_Tree Config_Source
begin

text \<open>
  The layered configuration, \<^verbatim>\<open>ConfigImpl\<close> of \<^verbatim>\<open>config/internal/config_impl.go\<close>. A
  configuration has a list of sources; the level of a source is its position, and a higher level
  overrides a lower one. The values are kept in one prefix tree that records the level each value
  came from.

  The theory models the initial \<open>sync\<close> and the handlers of the sources' events whole, with the calls
  they make to the watchers. Its contract is the overlay \<open>overlay\<close>: a key's value is the one of the
  highest source that has it. \<open>sync\<close> establishes it and every update and delete event keeps it.
\<close>

record value_node =
  vn_level :: nat
  vn_value :: string

definition node :: "nat \<times> string \<Rightarrow> value_node" where
  "node p = \<lparr>vn_level = fst p, vn_value = snd p\<rparr>"

lemma node_sel [simp]: "vn_level (node p) = fst p" "vn_value (node p) = snd p"
  by (simp_all add: node_def)

record 'w config_impl =
  ci_source :: "source_wrapper list"
  ci_cache :: "value_node prefix_tree"
  ci_notifier :: "'w notifier"
  ci_closed :: bool

type_synonym 'w calls = "('w \<times> notification) list"

section \<open>Operations\<close>

definition withPrefix :: "string \<Rightarrow> string \<Rightarrow> string" where
  "withPrefix key prefix = prefix @ key"

text \<open>
  \<open>IgnoreNamespace\<close> of the source at a level. An index out of range would panic; levels come from the
  positions in \<open>ci_source\<close> (\<open>overlay_level\<close>).
\<close>

definition level_ignores :: "'w config_impl \<Rightarrow> nat \<Rightarrow> bool" where
  "level_ignores c l \<longleftrightarrow> l < length (ci_source c) \<and> sw_ignore_ns (ci_source c ! l)"

definition ci_Get :: "'w config_impl \<Rightarrow> string \<Rightarrow> string \<Rightarrow> bool \<Rightarrow> string \<times> int" where
  "ci_Get c key prefix raw =
     (if raw
      then (case pt_Get (ci_cache c) (to_lower key) of
              None \<Rightarrow> ('''', 1)
            | Some n \<Rightarrow> if \<not> level_ignores c (vn_level n) then ('''', 1)
                        else (vn_value n, int (vn_level n)))
      else (case pt_Get (ci_cache c) (withPrefix (to_lower key) prefix) of
              None \<Rightarrow> ('''', -1)
            | Some n \<Rightarrow> (vn_value n, int (vn_level n))))"

definition ci_Watch :: "'w config_impl \<Rightarrow> 'w \<Rightarrow> 'w config_impl" where
  "ci_Watch c w = c\<lparr>ci_notifier := nt_Watch (ci_notifier c) w\<rparr>"

text \<open>\<open>NewConfig\<close> before its deferred \<open>sync\<close>: one wrapper for each source, an empty tree.\<close>

definition NewConfig :: "bool list \<Rightarrow> value_node prefix_tree \<Rightarrow> 'w config_impl" where
  "NewConfig ignores t =
     \<lparr>ci_source = map NewSourceWrapper ignores, ci_cache = t, ci_notifier = NewNotifier [],
      ci_closed = False\<rparr>"

subsection \<open>sync\<close>

fun sync_entries :: "nat \<Rightarrow> smap \<Rightarrow> value_node prefix_tree \<Rightarrow> smap \<Rightarrow> value_node prefix_tree \<times> smap" where
  "sync_entries level [] t notify = (t, notify)"
| "sync_entries level ((k0, v) # kvs) t notify =
     (let k = to_lower k0;
          notify' = (case pt_Get t k of
                       Some vn \<Rightarrow> if vn_value vn \<noteq> v then AList.update k v notify else notify
                     | None \<Rightarrow> AList.update k v notify)
      in sync_entries level kvs (pt_Put t k (Some (node (level, v)))) notify')"

text \<open>
  The outer loop, from level \<open>level\<close> on; the list gives what each wrapped source's own \<open>Sync\<close> returns.
  The first error ends it.
\<close>

fun ci_sync :: "nat \<Rightarrow> (config_error + smap) list \<Rightarrow> 'w config_impl \<Rightarrow>
                  config_error option \<times> 'w config_impl \<times> 'w calls" where
  "ci_sync level [] c = (None, c, [])"
| "ci_sync level (r # rs) c =
     (case sw_Sync (ci_source c ! level) r of
        (Inl e, s) \<Rightarrow> (Some e, c, [])
      | (Inr val, s) \<Rightarrow>
          (let (t, notify) = sync_entries level val (ci_cache c) [];
               (e, c', calls) =
                 ci_sync (Suc level) rs (c\<lparr>ci_source := (ci_source c)[level := s], ci_cache := t\<rparr>)
           in (e, c', nt_OnUpdate (ci_notifier c) notify @ calls)))"

subsection \<open>Events\<close>

text \<open>The body of the loop that \<open>onUpdate\<close> and \<open>onSync\<close> share.\<close>

definition update_entry ::
  "nat \<Rightarrow> string \<Rightarrow> string \<Rightarrow> value_node prefix_tree \<times> smap \<Rightarrow> value_node prefix_tree \<times> smap" where
  "update_entry level k v st =
     (case st of (t, notify) \<Rightarrow>
        (case pt_Get t k of
           None \<Rightarrow> (pt_Put t k (Some (node (level, v))), AList.update k v notify)
         | Some vn \<Rightarrow>
             if vn_level vn \<le> level
             then (pt_Put t k (Some (node (level, v))),
                   if vn_value vn \<noteq> v then AList.update k v notify else notify)
             else (t, notify)))"

definition ci_onUpdate :: "'w config_impl \<Rightarrow> nat \<Rightarrow> smap \<Rightarrow> 'w config_impl \<times> 'w calls" where
  "ci_onUpdate c level val =
     (let (t, notify) = fold (\<lambda>(k, v). update_entry level (to_lower k) v) val (ci_cache c, [])
      in (c\<lparr>ci_cache := t\<rparr>, nt_OnUpdate (ci_notifier c) notify))"

text \<open>The loop \<open>for i := level - 1; i >= 0; i--\<close>: the next lower source that has the key.\<close>

fun fall_back :: "source_wrapper list \<Rightarrow> nat \<Rightarrow> string \<Rightarrow> (nat \<times> string) option" where
  "fall_back ss 0 k = None"
| "fall_back ss (Suc i) k =
     (case sw_Get (ss ! i) k of Some v \<Rightarrow> Some (i, v) | None \<Rightarrow> fall_back ss i k)"

text \<open>What \<open>onDelete\<close> and \<open>onSync\<close> do with a key whose value at \<open>level\<close> is gone.\<close>

definition drop_entry ::
  "source_wrapper list \<Rightarrow> nat \<Rightarrow> string \<Rightarrow> value_node \<Rightarrow>
     value_node prefix_tree \<times> smap \<times> string list \<Rightarrow> value_node prefix_tree \<times> smap \<times> string list" where
  "drop_entry ss level k vn st =
     (case st of (t, updateNotify, deleteNotify) \<Rightarrow>
        (case fall_back ss level k of
           Some (i, v) \<Rightarrow>
             (pt_Put t k (Some (node (i, v))),
              if v \<noteq> vn_value vn then AList.update k v updateNotify else updateNotify, deleteNotify)
         | None \<Rightarrow> (pt_Del t k, updateNotify, deleteNotify @ [k])))"

definition delete_entry ::
  "source_wrapper list \<Rightarrow> nat \<Rightarrow> string \<Rightarrow>
     value_node prefix_tree \<times> smap \<times> string list \<Rightarrow> value_node prefix_tree \<times> smap \<times> string list" where
  "delete_entry ss level k st =
     (case pt_Get (fst st) k of
        Some vn \<Rightarrow> if vn_level vn = level then drop_entry ss level k vn st else st
      | None \<Rightarrow> st)"

definition ci_onDelete :: "'w config_impl \<Rightarrow> nat \<Rightarrow> string list \<Rightarrow> 'w config_impl \<times> 'w calls" where
  "ci_onDelete c level val =
     (let (t, updateNotify, deleteNotify) =
            fold (\<lambda>k. delete_entry (ci_source c) level (to_lower k)) val (ci_cache c, [], [])
      in (c\<lparr>ci_cache := t\<rparr>,
          nt_OnUpdate (ci_notifier c) updateNotify @ nt_OnDelete (ci_notifier c) deleteNotify))"

text \<open>
  The second loop of \<open>onSync\<close>. A key without a node reads as the zero \<open>ValueNode\<close>.
\<close>

definition sync_drop ::
  "source_wrapper list \<Rightarrow> nat \<Rightarrow> smap \<Rightarrow> string \<Rightarrow>
     value_node prefix_tree \<times> smap \<times> string list \<Rightarrow> value_node prefix_tree \<times> smap \<times> string list" where
  "sync_drop ss level lowerVal k st =
     (let vn = (case pt_Get (fst st) k of Some vn \<Rightarrow> vn | None \<Rightarrow> node (0, ''''))
      in if mget lowerVal k = None \<and> level = vn_level vn then drop_entry ss level k vn st else st)"

definition ci_onSync :: "'w config_impl \<Rightarrow> nat \<Rightarrow> smap \<Rightarrow> 'w config_impl \<times> 'w calls" where
  "ci_onSync c level val =
     (let lowerVal = store_lower val [];
          (t, updateNotify) = fold (\<lambda>(k, v). update_entry level k v) lowerVal (ci_cache c, []);
          (t', updateNotify', deleteNotify) =
            fold (\<lambda>k. sync_drop (ci_source c) level lowerVal (to_lower k)) (pt_Keys t)
              (t, updateNotify, [])
      in (c\<lparr>ci_cache := t'\<rparr>,
          nt_OnUpdate (ci_notifier c) updateNotify' @ nt_OnDelete (ci_notifier c) deleteNotify))"

text \<open>
  An event of the source at a level, as it arrives: the wrapper stores it and passes it on to the
  closure \<open>WatcherClosure{level, ...}\<close>, which calls the handler above with its level.
\<close>

datatype source_event = EvUpdate smap | EvDelete "string list" | EvSync smap

definition with_source :: "'w config_impl \<Rightarrow> nat \<Rightarrow> source_wrapper \<Rightarrow> 'w config_impl" where
  "with_source c level s = c\<lparr>ci_source := (ci_source c)[level := s]\<rparr>"

definition closure_call :: "'w config_impl \<Rightarrow> nat \<Rightarrow> notification \<Rightarrow> 'w config_impl \<times> 'w calls" where
  "closure_call c level x =
     (case x of
        NUpdate val \<Rightarrow> ci_onUpdate c level val
      | NDelete ks \<Rightarrow> ci_onDelete c level ks
      | NSync val \<Rightarrow> ci_onSync c level val)"

definition ci_event :: "'w config_impl \<Rightarrow> nat \<Rightarrow> source_event \<Rightarrow> 'w config_impl \<times> 'w calls" where
  "ci_event c level ev =
     (let (s, x) = (case ev of
                      EvUpdate val \<Rightarrow> sw_OnUpdate (ci_source c ! level) val
                    | EvDelete ks \<Rightarrow> sw_OnDelete (ci_source c ! level) ks
                    | EvSync val \<Rightarrow> sw_OnSync (ci_source c ! level) val);
          quiet = (case x of NUpdate val \<Rightarrow> val = [] | NDelete ks \<Rightarrow> ks = [] | NSync val \<Rightarrow> val = [])
      in if quiet then (with_source c level s, []) else closure_call (with_source c level s) level x)"

subsection \<open>Reading by prefix, prefixes and closing\<close>

definition ci_GetByPrefix :: "'w config_impl \<Rightarrow> string \<Rightarrow> smap option" where
  "ci_GetByPrefix c prefix =
     map_option (map (\<lambda>(k, vn). (k, vn_value vn)))
       (fst (pt_SearchByPrefix (ci_cache c) (to_lower prefix)))"

fun ci_AppendPrefix ::
  "source_wrapper list \<Rightarrow> (string list \<Rightarrow> config_error option) list \<Rightarrow> string list \<Rightarrow>
     config_error option \<times> source_wrapper list" where
  "ci_AppendPrefix (s # ss) (f # fs) prefix =
     (let (e, s') = sw_AppendPrefix s f prefix; (e', ss') = ci_AppendPrefix ss fs prefix
      in (case e' of Some _ \<Rightarrow> e' | None \<Rightarrow> e, s' # ss'))"
| "ci_AppendPrefix ss fs prefix = (None, ss)"

text \<open>\<open>Close\<close> keeps the last error of the sources' \<open>Close\<close>, whose results are the argument.\<close>

definition ci_Close :: "'w config_impl \<Rightarrow> config_error option list \<Rightarrow> config_error option \<times> 'w config_impl" where
  "ci_Close c results =
     (if ci_closed c then (Some AlreadyClosed, c)
      else (fold (\<lambda>r acc. case r of Some e \<Rightarrow> Some e | None \<Rightarrow> acc) results None, c\<lparr>ci_closed := True\<rparr>))"

section \<open>The overlay of the sources\<close>

definition overlay :: "source_wrapper list \<Rightarrow> string \<Rightarrow> (nat \<times> string) option" where
  "overlay ss k = fall_back ss (length ss) k"

lemma fall_back_Some_iff:
  "fall_back ss n k = Some (j, v) \<longleftrightarrow>
     j < n \<and> sw_Get (ss ! j) k = Some v \<and> (\<forall>l. j < l \<and> l < n \<longrightarrow> sw_Get (ss ! l) k = None)"
proof (induction n)
  case (Suc n)
  then show ?case by (auto simp: less_Suc_eq split: option.splits)
qed simp

lemma fall_back_None_iff: "fall_back ss n k = None \<longleftrightarrow> (\<forall>l < n. sw_Get (ss ! l) k = None)"
  by (induction n) (auto simp: less_Suc_eq split: option.splits)

lemma overlay_eq: "overlay ss = fall_back ss (length ss)"
  by (simp add: overlay_def fun_eq_iff)

lemma overlay_level: "overlay ss k = Some (j, v) \<Longrightarrow> j < length ss"
  by (simp add: overlay_def fall_back_Some_iff)

text \<open>Whether a source above level \<open>i\<close> has the key; then nothing at or below \<open>i\<close> matters.\<close>

definition above :: "source_wrapper list \<Rightarrow> nat \<Rightarrow> string \<Rightarrow> bool" where
  "above ss i k \<longleftrightarrow> (\<exists>j. i < j \<and> j < length ss \<and> sw_Get (ss ! j) k \<noteq> None)"

lemma overlay_above:
  assumes "above ss i k"
  shows "\<exists>j v. overlay ss k = Some (j, v) \<and> i < j"
proof (cases "overlay ss k")
  case None
  with assms show ?thesis by (auto simp: above_def overlay_def fall_back_None_iff)
next
  case (Some p)
  obtain j v where "p = (j, v)" by (cases p)
  with Some assms show ?thesis
    by (auto simp: above_def overlay_def fall_back_Some_iff) (metis linorder_neqE_nat less_trans option.distinct(1))
qed

lemma overlay_not_above:
  assumes "\<not> above ss i k" and "i < length ss"
  shows "overlay ss k = fall_back ss (Suc i) k"
proof (cases "fall_back ss (Suc i) k")
  case None
  then have "\<forall>l < length ss. sw_Get (ss ! l) k = None"
    using assms unfolding above_def by (metis fall_back_None_iff not_less_eq)
  then have "overlay ss k = None" by (simp only: overlay_def fall_back_None_iff)
  with None show ?thesis by simp
next
  case (Some p)
  obtain j v where "p = (j, v)" by (cases p)
  with Some have "fall_back ss (Suc i) k = Some (j, v)" by (simp only:)
  then have j: "j < Suc i" and g: "sw_Get (ss ! j) k = Some v"
    and n: "\<forall>l. j < l \<and> l < Suc i \<longrightarrow> sw_Get (ss ! l) k = None"
    unfolding fall_back_Some_iff by blast+
  have "sw_Get (ss ! l) k = None" if "j < l" "l < length ss" for l
    using n assms(1) that by (cases "l < Suc i") (auto simp: above_def)
  then have "overlay ss k = Some (j, v)"
    using j g assms(2) by (simp add: overlay_def fall_back_Some_iff)
  with Some \<open>p = (j, v)\<close> show ?thesis by simp
qed

lemma fall_back_update_ge: "n \<le> i \<Longrightarrow> fall_back (ss[i := s]) n k = fall_back ss n k"
  by (induction n) (auto split: option.splits)

lemma above_update [simp]: "above (ss[i := s]) i k = above ss i k"
  by (auto simp: above_def)

lemma overlay_update_above:
  assumes "above ss i k"
  shows "overlay (ss[i := s]) k = overlay ss k"
proof -
  obtain j v where o: "overlay ss k = Some (j, v)" and "i < j" using overlay_above [OF assms] by blast
  then have "overlay (ss[i := s]) k = Some (j, v)" by (auto simp: overlay_def fall_back_Some_iff)
  with o show ?thesis by simp
qed

lemma overlay_update_not_above:
  assumes "\<not> above ss i k" and "i < length ss"
  shows "overlay (ss[i := s]) k = (case sw_Get s k of Some v \<Rightarrow> Some (i, v) | None \<Rightarrow> fall_back ss i k)"
  using overlay_not_above [of "ss[i := s]" i k] assms
  by (simp add: fall_back_update_ge split: option.splits)

lemma overlay_not_above':
  assumes "\<not> above ss i k" and "i < length ss"
  shows "overlay ss k = (case sw_Get (ss ! i) k of Some v \<Rightarrow> Some (i, v) | None \<Rightarrow> fall_back ss i k)"
  using overlay_not_above [OF assms] by simp

lemma fall_back_less: "fall_back ss n k = Some (j, v) \<Longrightarrow> j < n"
  by (simp add: fall_back_Some_iff)

section \<open>The invariant\<close>

definition lower :: "string \<Rightarrow> bool" where
  "lower k \<longleftrightarrow> to_lower k = k"

lemma lower_to_lower [simp]: "lower (to_lower k)"
  by (simp add: lower_def)

text \<open>The keys a configuration can hold: in lower case, with no empty segment between the dots.\<close>

definition config_key :: "string \<Rightarrow> bool" where
  "config_key k \<longleftrightarrow> lower k \<and> valid_key CHR ''.'' k"

definition agrees :: "value_node prefix_tree \<Rightarrow> (string \<Rightarrow> (nat \<times> string) option) \<Rightarrow> bool" where
  "agrees t f \<longleftrightarrow> pt_inv CHR ''.'' t \<and>
     (\<forall>k. pt_Get t k = (if config_key k then map_option node (f k) else None))"

definition ci_inv :: "'w config_impl \<Rightarrow> bool" where
  "ci_inv c \<longleftrightarrow> agrees (ci_cache c) (overlay (ci_source c))"

lemma agreesD:
  assumes "agrees t f"
  shows "pt_inv CHR ''.'' t" and "pt_Get t k = (if config_key k then map_option node (f k) else None)"
  using assms by (auto simp: agrees_def)

lemma agrees_Put:
  assumes "agrees t f" and "lower k"
  shows "agrees (pt_Put t k (Some (node p))) (f(k := Some p))"
  using assms by (auto simp: agrees_def pt_Get_Put config_key_def)

lemma agrees_Del:
  assumes "agrees t f"
  shows "agrees (pt_Del t k) (f(k := None))"
  using assms by (auto simp: agrees_def pt_Get_Del)

lemma agrees_cong: "agrees t f \<Longrightarrow> (\<And>k. config_key k \<Longrightarrow> f k = g k) \<Longrightarrow> agrees t g"
  by (simp add: agrees_def)

subsection \<open>Update events\<close>

text \<open>The effect of a batch of updates at one level on a layered map.\<close>

definition upd_spec :: "nat \<Rightarrow> smap \<Rightarrow> (string \<Rightarrow> (nat \<times> string) option) \<Rightarrow> string \<Rightarrow> (nat \<times> string) option" where
  "upd_spec level val f k =
     (case mget val k of
        None \<Rightarrow> f k
      | Some v \<Rightarrow> (case f k of Some (j, w) \<Rightarrow> if j \<le> level then Some (level, v) else f k
                             | None \<Rightarrow> Some (level, v)))"

lemma update_entry_agrees:
  assumes "agrees t f" and "lower k"
  shows "agrees (fst (update_entry level k v (t, n))) (upd_spec level [(k, v)] f)"
proof (cases "pt_Get t k")
  case None
  then have "upd_spec level [(k, v)] f x = (f(k := Some (level, v))) x" if "config_key x" for x
    using that agreesD(2) [OF assms(1), of k] by (auto simp: upd_spec_def split: if_splits)
  then show ?thesis
    using None agrees_cong [OF agrees_Put [OF assms]] by (simp add: update_entry_def)
next
  case (Some vn)
  then obtain j w where fk: "f k = Some (j, w)" and vn: "vn = node (j, w)"
    using agreesD(2) [OF assms(1), of k] by (auto split: if_splits)
  have "upd_spec level [(k, v)] f = (if j \<le> level then f(k := Some (level, v)) else f)"
    using fk by (auto simp: upd_spec_def fun_eq_iff)
  then show ?thesis
    using Some vn agrees_Put [OF assms] assms(1) by (simp add: update_entry_def)
qed

lemma upd_spec_Cons:
  assumes "k \<notin> fst ` set kvs"
  shows "upd_spec level kvs (upd_spec level [(k, v)] f) = upd_spec level ((k, v) # kvs) f"
proof
  fix x
  have "mget kvs k = None" using assms by (simp add: mget_None_iff)
  then show "upd_spec level kvs (upd_spec level [(k, v)] f) x = upd_spec level ((k, v) # kvs) f x"
    by (auto simp: upd_spec_def split: option.splits)
qed

lemma update_entries_agree:
  assumes "agrees t f" and "wf_map val" and "\<forall>k \<in> fst ` set val. lower k"
  shows "agrees (fst (fold (\<lambda>(k, v). update_entry level k v) val (t, n))) (upd_spec level val f)"
  using assms
proof (induction val arbitrary: t n f)
  case Nil
  then show ?case by (auto simp: upd_spec_def elim: agrees_cong)
next
  case (Cons p val)
  obtain k v where p: "p = (k, v)" by (cases p)
  obtain t1 n1 where e: "update_entry level k v (t, n) = (t1, n1)" by (metis surj_pair)
  have "agrees t1 (upd_spec level [(k, v)] f)"
    using update_entry_agrees [OF Cons.prems(1), of k level v n] Cons.prems(3) p e by simp
  then have "agrees (fst (fold (\<lambda>(k, v). update_entry level k v) val (t1, n1)))
      (upd_spec level val (upd_spec level [(k, v)] f))"
    by (rule Cons.IH) (use Cons.prems p in simp_all)
  then show ?case
    using p e upd_spec_Cons [of k val level v f] Cons.prems(2) by simp
qed

lemma fold_to_lower:
  assumes "\<forall>k \<in> fst ` set val. lower k"
  shows "fold (\<lambda>(k, v). g (to_lower k) v) val = fold (\<lambda>(k, v). g k v) val"
  using assms by (induction val) (auto simp: lower_def fun_eq_iff)

lemma overlay_upd_spec:
  assumes "i < length ss" and "wf_map val"
  shows "overlay (ss[i := fst (sw_OnUpdate (ss ! i) val)]) k = upd_spec i val (overlay ss) k"
proof (cases "above ss i k")
  case True
  then show ?thesis
    using overlay_above [OF True] overlay_update_above [OF True]
    by (auto simp: upd_spec_def split: option.splits)
next
  case False
  have le: "j \<le> i" if "overlay ss k = Some (j, v)" for j v
    using fall_back_less [of ss "Suc i" k j v] that
    unfolding overlay_not_above [OF False assms(1), symmetric] by simp
  have "overlay (ss[i := fst (sw_OnUpdate (ss ! i) val)]) k =
      (case mget val k of Some v \<Rightarrow> Some (i, v) | None \<Rightarrow> overlay ss k)"
    using overlay_update_not_above [OF False assms(1)] overlay_not_above' [OF False assms(1)] assms(2)
    by (auto simp: sw_OnUpdate_def sw_Get_def mget_store_all_wf split: option.splits)
  then show ?thesis using le by (auto simp: upd_spec_def split: option.splits)
qed

lemma ci_onUpdate_agrees:
  assumes "agrees (ci_cache c) f" and "wf_map val" and "\<forall>k \<in> fst ` set val. lower k"
  shows "agrees (ci_cache (fst (ci_onUpdate c level val))) (upd_spec level val f)"
  using update_entries_agree [OF assms, of level "[]"]
  by (auto simp: ci_onUpdate_def fold_to_lower [OF assms(3)] split: prod.splits)

subsection \<open>Delete events\<close>

definition del_spec ::
  "source_wrapper list \<Rightarrow> nat \<Rightarrow> string set \<Rightarrow> (string \<Rightarrow> (nat \<times> string) option) \<Rightarrow> string \<Rightarrow> (nat \<times> string) option" where
  "del_spec ss level K f k =
     (case f k of
        Some (j, w) \<Rightarrow> if k \<in> K \<and> j = level then fall_back ss level k else Some (j, w)
      | None \<Rightarrow> None)"

lemma drop_entry_agrees:
  assumes "agrees t f" and "lower k"
  shows "agrees (fst (drop_entry ss level k vn (t, un, dn))) (f(k := fall_back ss level k))"
  using agrees_Put [OF assms] agrees_Del [OF assms(1)]
  by (auto simp: drop_entry_def split: option.splits)

lemma delete_entry_agrees:
  assumes "agrees t f" and "lower k"
  shows "agrees (fst (delete_entry ss level k (t, un, dn))) (del_spec ss level {k} f)"
proof (cases "pt_Get t k")
  case None
  then have "del_spec ss level {k} f x = f x" if "config_key x" for x
    using that agreesD(2) [OF assms(1), of k] by (auto simp: del_spec_def split: option.splits if_splits)
  then show ?thesis using None agrees_cong [OF assms(1)] by (simp add: delete_entry_def)
next
  case (Some vn)
  then obtain j w where fk: "f k = Some (j, w)" and vn: "vn = node (j, w)"
    using agreesD(2) [OF assms(1), of k] by (auto split: if_splits)
  have "del_spec ss level {k} f = (if j = level then f(k := fall_back ss level k) else f)"
    using fk by (auto simp: del_spec_def fun_eq_iff split: option.splits)
  then show ?thesis
    using Some vn drop_entry_agrees [OF assms] assms(1) by (auto simp: delete_entry_def)
qed

lemma fall_back_not_level: "fall_back ss level k = Some (j, w) \<Longrightarrow> j \<noteq> level"
  using fall_back_less by blast

lemma del_spec_insert: "del_spec ss level K (del_spec ss level {k} f) = del_spec ss level (insert k K) f"
proof
  fix x
  show "del_spec ss level K (del_spec ss level {k} f) x = del_spec ss level (insert k K) f x"
    by (cases "f x"; cases "fall_back ss level x")
      (auto simp: del_spec_def dest: fall_back_not_level)
qed

lemma delete_entries_agree:
  assumes "agrees t f" and "\<forall>k \<in> set ks. lower k"
  shows "agrees (fst (fold (delete_entry ss level) ks (t, un, dn))) (del_spec ss level (set ks) f)"
  using assms
proof (induction ks arbitrary: t un dn f)
  case Nil
  then show ?case by (auto simp: del_spec_def elim!: agrees_cong split: option.splits)
next
  case (Cons k ks)
  obtain t1 un1 dn1 where e: "delete_entry ss level k (t, un, dn) = (t1, un1, dn1)"
    by (metis surj_pair)
  have "agrees t1 (del_spec ss level {k} f)"
    using delete_entry_agrees [OF Cons.prems(1), of k ss level un dn] Cons.prems(2) e by simp
  then have "agrees (fst (fold (delete_entry ss level) ks (t1, un1, dn1)))
      (del_spec ss level (set ks) (del_spec ss level {k} f))"
    by (rule Cons.IH) (use Cons.prems(2) in simp)
  then show ?case using e by (simp add: del_spec_insert)
qed

lemma overlay_del_spec:
  assumes "i < length ss"
  shows "overlay (ss[i := fst (sw_OnDelete (ss ! i) ks)]) k =
           del_spec (ss[i := fst (sw_OnDelete (ss ! i) ks)]) i (set ks) (overlay ss) k"
proof (cases "above ss i k")
  case True
  then show ?thesis
    using overlay_above [OF True] overlay_update_above [OF True]
    by (auto simp: del_spec_def split: option.splits)
next
  case False
  then show ?thesis
    using overlay_update_not_above [OF False assms] overlay_not_above' [OF False assms]
    by (auto simp: sw_OnDelete_def sw_Get_def mget_fold_delete del_spec_def fall_back_update_ge
        split: option.splits dest: fall_back_not_level)
qed

lemma ci_onDelete_agrees:
  assumes "agrees (ci_cache c) f" and "\<forall>k \<in> set ks. lower k"
  shows "agrees (ci_cache (fst (ci_onDelete c level ks))) (del_spec (ci_source c) level (set ks) f)"
proof -
  have "fold (\<lambda>k. delete_entry (ci_source c) level (to_lower k)) ks (ci_cache c, [], []) =
      fold (delete_entry (ci_source c) level) ks (ci_cache c, [], [])"
    by (rule fold_cong) (use assms(2) in \<open>auto simp: lower_def\<close>)
  then show ?thesis
    using delete_entries_agree [OF assms, of "ci_source c" level "[]" "[]"]
    by (auto simp: ci_onDelete_def split: prod.splits)
qed

subsection \<open>The initial sync\<close>

lemma store_lower_keys: "k \<in> fst ` set (store_lower val []) \<Longrightarrow> lower k"
proof -
  have "fst ` set (store_lower val acc) \<subseteq> fst ` set acc \<union> range to_lower" for acc
    unfolding store_lower_def
  proof (induction val arbitrary: acc)
    case (Cons p val)
    obtain k v where "p = (k, v)" by (cases p)
    then show ?case
      using Cons.IH [of "AList.update (to_lower k) v acc"] by (auto simp: dom_update)
  qed simp
  from this [of "[]"] show "k \<in> fst ` set (store_lower val []) \<Longrightarrow> lower k" by auto
qed

lemma sync_entries_fst:
  "fst (sync_entries level val t n) =
     fold (\<lambda>(k, v) t. pt_Put t k (Some v)) (map (\<lambda>(k, v). (to_lower k, node (level, v))) val) t"
  by (induction level val t n rule: sync_entries.induct) (simp_all add: Let_def)

lemma sync_entries_agree:
  assumes "agrees t f" and "wf_map val" and "\<forall>k \<in> fst ` set val. lower k"
  shows "agrees (fst (sync_entries level val t n))
           (\<lambda>k. case mget val k of Some v \<Rightarrow> Some (level, v) | None \<Rightarrow> f k)"
proof -
  let ?kvs = "map (\<lambda>(k, v). (k, node (level, v))) val"
  have lw: "map (\<lambda>(k, v). (to_lower k, node (level, v))) val = ?kvs"
    using assms(3) by (auto simp: lower_def)
  have d: "distinct (map fst ?kvs)"
    using assms(2) by (simp add: wf_map_def comp_def case_prod_beta)
  have mg: "map_of ?kvs k = map_option (\<lambda>v. node (level, v)) (mget val k)" for k
    by (simp add: map_of_map)
  have lk: "lower k" if "mget val k = Some v" for k v
    using assms(3) mget_key [OF that] by blast
  show ?thesis
    unfolding sync_entries_fst lw agrees_def
    using ptree.inv_fold_put [OF agreesD(1) [OF assms(1)]]
      ptree.get_fold_put [OF agreesD(1) [OF assms(1)] d] agreesD(2) [OF assms(1)] lk
    by (auto simp: mg config_key_def split: option.splits)
qed

definition unsynced :: "source_wrapper \<Rightarrow> bool" where
  "unsynced s \<longleftrightarrow> sw_cache s = [] \<and> \<not> sw_synchronized s"

lemma ci_sync_agrees:
  assumes "agrees (ci_cache c) (fall_back (ci_source c) level)"
    and "\<forall>j. level \<le> j \<and> j < length (ci_source c) \<longrightarrow> unsynced (ci_source c ! j)"
    and "level + length rs = length (ci_source c)"
    and "ci_sync level rs c = (None, c', calls)"
  shows "ci_inv c' \<and> length (ci_source c') = length (ci_source c)"
  using assms
proof (induction rs arbitrary: level c calls)
  case Nil
  then show ?case by (simp add: ci_inv_def overlay_eq)
next
  case (Cons r rs)
  let ?s = "ci_source c ! level"
  have l: "level < length (ci_source c)" using Cons.prems(3) by simp
  then have un: "unsynced ?s" using Cons.prems(2) by simp
  then obtain val where r: "r = Inr val"
    using Cons.prems(4) by (auto simp: sw_Sync_def unsynced_def split: sum.splits)
  let ?V = "store_lower val []"
  let ?s' = "?s\<lparr>sw_cache := ?V\<rparr>"
  obtain t n where t: "sync_entries level ?V (ci_cache c) [] = (t, n)" by (metis surj_pair)
  let ?c1 = "c\<lparr>ci_source := (ci_source c)[level := ?s'], ci_cache := t\<rparr>"
  obtain calls1 where rec: "ci_sync (Suc level) rs ?c1 = (None, c', calls1)"
    using Cons.prems(4) r un t
    by (auto simp: sw_Sync_def unsynced_def Let_def split: prod.splits)
  have "agrees t (\<lambda>k. case mget ?V k of Some v \<Rightarrow> Some (level, v) | None \<Rightarrow> fall_back (ci_source c) level k)"
    using sync_entries_agree [OF Cons.prems(1), of ?V level "[]"] store_lower_keys t by fastforce
  then have "agrees (ci_cache ?c1)
      (\<lambda>k. case mget ?V k of Some v \<Rightarrow> Some (level, v) | None \<Rightarrow> fall_back (ci_source c) level k)"
    by simp
  then have A1: "agrees (ci_cache ?c1) (fall_back (ci_source ?c1) (Suc level))"
    by (rule agrees_cong) (use l in \<open>auto simp: sw_Get_def fall_back_update_ge split: option.split\<close>)
  have A2: "\<forall>j. Suc level \<le> j \<and> j < length (ci_source ?c1) \<longrightarrow> unsynced (ci_source ?c1 ! j)"
    using Cons.prems(2) by simp
  have A3: "Suc level + length rs = length (ci_source ?c1)" using Cons.prems(3) by simp
  show ?case using Cons.IH [OF A1 A2 A3 rec] by simp
qed

lemma NewConfig_agrees:
  assumes "NewPrefixTree ''.'' = Some t"
  shows "agrees (ci_cache (NewConfig ig t)) (\<lambda>k. None)"
  using assms NewPrefixTree_inv [of "CHR ''.''" t]
  by (auto simp: NewConfig_def agrees_def pt_Get_def NewPrefixTree_def)

lemma NewConfig_synced:
  fixes c :: "'w config_impl"
  assumes "NewPrefixTree ''.'' = Some t" and "length rs = length ig"
    and "ci_sync 0 rs (NewConfig ig t) = (None, c, calls)"
  shows "ci_inv c \<and> length (ci_source c) = length ig"
proof -
  let ?c0 = "NewConfig ig t :: 'w config_impl"
  have n: "length (ci_source ?c0) = length ig" by (simp add: NewConfig_def)
  have u: "\<forall>j. 0 \<le> j \<and> j < length (ci_source ?c0) \<longrightarrow> unsynced (ci_source ?c0 ! j)"
    by (simp add: NewConfig_def unsynced_def NewSourceWrapper_def)
  have a: "agrees (ci_cache ?c0) (fall_back (ci_source ?c0) 0)"
    using NewConfig_agrees [OF assms(1)] by (simp add: fall_back.simps [abs_def])
  show ?thesis using ci_sync_agrees [OF a u _ assms(3)] n assms(2) by simp
qed

subsection \<open>Runs of events\<close>

fun ok_event :: "nat \<Rightarrow> nat \<times> source_event \<Rightarrow> bool" where
  "ok_event n (level, EvUpdate val) \<longleftrightarrow> level < n \<and> wf_map val \<and> list_all lower (map fst val)"
| "ok_event n (level, EvDelete ks) \<longleftrightarrow> level < n \<and> list_all lower ks"
| "ok_event n (level, EvSync val) \<longleftrightarrow> False"

definition ci_run :: "'w config_impl \<Rightarrow> (nat \<times> source_event) list \<Rightarrow> 'w config_impl" where
  "ci_run c evs = foldl (\<lambda>c (level, ev). fst (ci_event c level ev)) c evs"

lemma ci_source_onUpdate [simp]: "ci_source (fst (ci_onUpdate c level val)) = ci_source c"
  by (simp add: ci_onUpdate_def split: prod.split)

lemma ci_source_onDelete [simp]: "ci_source (fst (ci_onDelete c level ks)) = ci_source c"
  by (simp add: ci_onDelete_def split: prod.split)

lemma ci_event_inv:
  assumes "ci_inv c" and "ok_event (length (ci_source c)) (level, ev)"
  shows "ci_inv (fst (ci_event c level ev)) \<and>
         length (ci_source (fst (ci_event c level ev))) = length (ci_source c)"
proof (cases ev)
  case (EvUpdate val)
  let ?s = "fst (sw_OnUpdate (ci_source c ! level) val)"
  let ?c1 = "with_source c level ?s"
  have l: "level < length (ci_source c)" and wf: "wf_map val" and lw: "\<forall>k \<in> fst ` set val. lower k"
    using assms(2) EvUpdate by (auto simp: list_all_iff)
  have "ci_event c level ev = (if val = [] then (?c1, []) else ci_onUpdate ?c1 level val)"
    using EvUpdate by (simp add: ci_event_def sw_OnUpdate_def closure_call_def)
  moreover have "agrees (ci_cache (fst (ci_onUpdate ?c1 level val))) (overlay (ci_source ?c1))"
    using ci_onUpdate_agrees [of ?c1 "overlay (ci_source c)" val level, OF _ wf lw] assms(1)
    by (simp add: with_source_def ci_inv_def overlay_upd_spec [OF l wf, abs_def])
  moreover have "agrees (ci_cache ?c1) (overlay (ci_source ?c1))" if "val = []"
    using assms(1) that by (simp add: with_source_def ci_inv_def sw_OnUpdate_def store_all_def)
  ultimately show ?thesis by (simp add: ci_inv_def with_source_def)
next
  case (EvDelete ks)
  let ?s = "fst (sw_OnDelete (ci_source c ! level) ks)"
  let ?c1 = "with_source c level ?s"
  have l: "level < length (ci_source c)" and lw: "\<forall>k \<in> set ks. lower k"
    using assms(2) EvDelete by (auto simp: list_all_iff)
  have "ci_event c level ev = (if ks = [] then (?c1, []) else ci_onDelete ?c1 level ks)"
    using EvDelete by (simp add: ci_event_def sw_OnDelete_def closure_call_def)
  moreover have "agrees (ci_cache (fst (ci_onDelete ?c1 level ks))) (overlay (ci_source ?c1))"
    using ci_onDelete_agrees [of ?c1 "overlay (ci_source c)" ks level, OF _ lw] assms(1)
      overlay_del_spec [OF l] by (auto simp: with_source_def ci_inv_def elim: agrees_cong)
  moreover have "?s = ci_source c ! level" if "ks = []"
    using that by (simp add: sw_OnDelete_def)
  ultimately show ?thesis using assms(1) by (auto simp: ci_inv_def with_source_def)
next
  case (EvSync val)
  with assms(2) show ?thesis by simp
qed

lemma ci_run_inv:
  "ci_inv c \<Longrightarrow> list_all (ok_event (length (ci_source c))) evs \<Longrightarrow> ci_inv (ci_run c evs)"
proof (induction evs arbitrary: c)
  case (Cons e evs)
  obtain level ev where e: "e = (level, ev)" by (cases e)
  let ?c1 = "fst (ci_event c level ev)"
  have "ci_inv ?c1" and "length (ci_source ?c1) = length (ci_source c)"
    using ci_event_inv [OF Cons.prems(1)] Cons.prems(2) e by auto
  then show ?case using Cons.IH [of ?c1] Cons.prems(2) e by (simp add: ci_run_def)
qed (simp add: ci_run_def)

subsection \<open>What the watchers hear\<close>

definition value_at :: "value_node prefix_tree \<Rightarrow> string \<Rightarrow> string option" where
  "value_at t k = map_option vn_value (pt_Get t k)"

lemma update_entry_notify:
  assumes "pt_inv CHR ''.'' t" and "update_entry level k v (t, n) = (t', n')"
  shows "pt_inv CHR ''.'' t'"
    and "x \<noteq> k \<Longrightarrow> pt_Get t' x = pt_Get t x \<and> mget n' x = mget n x"
    and "valid_key CHR ''.'' k \<Longrightarrow>
           mget n' k = (if value_at t' k \<noteq> value_at t k then value_at t' k else mget n k)"
  using assms
  by (auto simp: update_entry_def value_at_def pt_Get_Put split: option.splits if_splits)

lemma update_entries_notify:
  assumes "pt_inv CHR ''.'' t" and "wf_map val"
    and "fold (\<lambda>(k, v). update_entry level k v) val (t, n) = (t', n')"
  shows "(x \<notin> fst ` set val \<longrightarrow> pt_Get t' x = pt_Get t x \<and> mget n' x = mget n x) \<and>
         (x \<in> fst ` set val \<and> valid_key CHR ''.'' x \<longrightarrow>
            mget n' x = (if value_at t' x \<noteq> value_at t x then value_at t' x else mget n x))"
  using assms
proof (induction val arbitrary: t n)
  case (Cons p val)
  obtain k v where p: "p = (k, v)" by (cases p)
  obtain t1 n1 where e: "update_entry level k v (t, n) = (t1, n1)" by (metis surj_pair)
  note E = update_entry_notify [OF Cons.prems(1) e]
  have IH: "(x \<notin> fst ` set val \<longrightarrow> pt_Get t' x = pt_Get t1 x \<and> mget n' x = mget n1 x) \<and>
         (x \<in> fst ` set val \<and> valid_key CHR ''.'' x \<longrightarrow>
            mget n' x = (if value_at t' x \<noteq> value_at t1 x then value_at t' x else mget n1 x))"
    using Cons.IH [OF E(1)] Cons.prems(2,3) p e by simp
  show ?case
  proof (cases "x = k")
    case True
    with Cons.prems(2) p have "x \<notin> fst ` set val" by simp
    with IH E(3) True p show ?thesis by (simp add: value_at_def)
  next
    case False
    with IH E(2) p show ?thesis by (auto simp: value_at_def)
  qed
qed simp

lemma drop_entry_effect:
  assumes "pt_inv CHR ''.'' t" and "drop_entry ss level k vn (t, un, dn) = (t', un', dn')"
    and "pt_Get t k = Some vn" and "valid_key CHR ''.'' k" and "k \<notin> set dn"
  shows "pt_inv CHR ''.'' t'"
    and "x \<noteq> k \<Longrightarrow> pt_Get t' x = pt_Get t x \<and> mget un' x = mget un x \<and> (x \<in> set dn' \<longleftrightarrow> x \<in> set dn)"
    and "pt_Get t' k = map_option node (fall_back ss level k)"
    and "mget un' k = (if value_at t' k \<noteq> None \<and> value_at t' k \<noteq> value_at t k then value_at t' k else mget un k)"
    and "k \<in> set dn' \<longleftrightarrow> value_at t' k = None"
  using assms
  by (auto simp: drop_entry_def value_at_def pt_Get_Put pt_Get_Del split: option.splits if_splits)

lemma delete_entry_effect:
  assumes "pt_inv CHR ''.'' t" and "delete_entry ss level k (t, un, dn) = (t', un', dn')"
  shows "pt_inv CHR ''.'' t'"
    and "x \<noteq> k \<or> (\<forall>vn. pt_Get t k = Some vn \<longrightarrow> vn_level vn \<noteq> level) \<Longrightarrow>
           pt_Get t' x = pt_Get t x \<and> mget un' x = mget un x \<and> (x \<in> set dn' \<longleftrightarrow> x \<in> set dn)"
  using assms
  by (auto simp: delete_entry_def drop_entry_def pt_Get_Put pt_Get_Del split: option.splits if_splits)

text \<open>A key that is not at the level of the event is left alone.\<close>

lemma delete_entries_frozen:
  assumes "pt_inv CHR ''.'' t" and "\<forall>vn. pt_Get t x = Some vn \<longrightarrow> vn_level vn \<noteq> level"
    and "fold (delete_entry ss level) ks (t, un, dn) = (t', un', dn')"
  shows "pt_Get t' x = pt_Get t x \<and> mget un' x = mget un x \<and> (x \<in> set dn' \<longleftrightarrow> x \<in> set dn)"
  using assms
proof (induction ks arbitrary: t un dn)
  case (Cons k ks)
  obtain t1 un1 dn1 where e: "delete_entry ss level k (t, un, dn) = (t1, un1, dn1)" by (metis surj_pair)
  note E = delete_entry_effect [OF Cons.prems(1) e]
  have "x \<noteq> k \<or> (\<forall>vn. pt_Get t k = Some vn \<longrightarrow> vn_level vn \<noteq> level)" using Cons.prems(2) by blast
  note E2 = E(2) [OF this]
  have "pt_Get t' x = pt_Get t1 x \<and> mget un' x = mget un1 x \<and> (x \<in> set dn' \<longleftrightarrow> x \<in> set dn1)"
    using Cons.IH [OF E(1), of un1 dn1] E2 Cons.prems(2,3) e by simp
  with E2 show ?case by simp
qed simp

lemma delete_entries_notify:
  assumes "pt_inv CHR ''.'' t" and "valid_key CHR ''.'' x" and "x \<notin> set dn"
    and "fold (delete_entry ss level) ks (t, un, dn) = (t', un', dn')"
  shows "mget un' x = (if value_at t' x \<noteq> None \<and> value_at t' x \<noteq> value_at t x
                       then value_at t' x else mget un x) \<and>
         (x \<in> set dn' \<longleftrightarrow> value_at t x \<noteq> None \<and> value_at t' x = None)"
  using assms
proof (induction ks arbitrary: t un dn)
  case (Cons k ks)
  obtain t1 un1 dn1 where e: "delete_entry ss level k (t, un, dn) = (t1, un1, dn1)" by (metis surj_pair)
  have rec: "fold (delete_entry ss level) ks (t1, un1, dn1) = (t', un', dn')"
    using Cons.prems(4) e by simp
  note E = delete_entry_effect [OF Cons.prems(1) e]
  show ?case
  proof (cases "x \<noteq> k \<or> (\<forall>vn. pt_Get t k = Some vn \<longrightarrow> vn_level vn \<noteq> level)")
    case True
    note E2 = E(2) [OF True]
    with Cons.IH [OF E(1) Cons.prems(2) _ rec] Cons.prems(3) show ?thesis
      by (simp add: value_at_def)
  next
    case False
    then obtain vn where k: "x = k" and g: "pt_Get t k = Some vn" and l: "vn_level vn = level" by blast
    then have d: "drop_entry ss level k vn (t, un, dn) = (t1, un1, dn1)"
      using e by (simp add: delete_entry_def)
    note D = drop_entry_effect [OF Cons.prems(1) d g]
    have v: "valid_key CHR ''.'' k" and n: "k \<notin> set dn" using Cons.prems(2,3) k by simp_all
    have "\<forall>w. pt_Get t1 x = Some w \<longrightarrow> vn_level w \<noteq> level"
      using D(3) [OF v n] k by (auto dest: fall_back_not_level)
    then have "pt_Get t' x = pt_Get t1 x \<and> mget un' x = mget un1 x \<and> (x \<in> set dn' \<longleftrightarrow> x \<in> set dn1)"
      by (rule delete_entries_frozen [OF E(1) _ rec])
    with D(4,5) [OF v n] k g show ?thesis
      by (cases "pt_Get t1 k") (auto simp: value_at_def)
  qed
qed (auto simp: value_at_def)

subsection \<open>Sync events\<close>

lemma sync_drop_agrees:
  assumes "agrees t f" and "lower k"
  shows "agrees (fst (sync_drop ss level V k (t, un, dn)))
           (if mget V k = None then del_spec ss level {k} f else f)"
proof (cases "pt_Get t k")
  case (Some vn)
  then have "sync_drop ss level V k (t, un, dn) =
      (if mget V k = None then delete_entry ss level k (t, un, dn) else (t, un, dn))"
    by (auto simp: sync_drop_def delete_entry_def)
  then show ?thesis using delete_entry_agrees [OF assms] assms(1) by simp
next
  case None
  have same: "del_spec ss level {k} f x = f x" if "config_key x" for x
    using None that agreesD(2) [OF assms(1), of k] by (auto simp: del_spec_def split: option.splits if_splits)
  have "agrees (pt_Del t k) f"
    using None assms(1) by (auto simp: agrees_def pt_Get_Del)
  then have "agrees (fst (sync_drop ss level V k (t, un, dn))) f"
    using None assms(1) by (auto simp: sync_drop_def drop_entry_def)
  then show ?thesis by (rule agrees_cong) (simp add: same)
qed

lemma sync_drops_agree:
  assumes "agrees t f"
  shows "agrees (fst (fold (\<lambda>k. sync_drop ss level V (to_lower k)) ks (t, un, dn)))
           (del_spec ss level (to_lower ` set ks - dom (map_of V)) f)"
  using assms
proof (induction ks arbitrary: t un dn f)
  case Nil
  then show ?case by (auto simp: del_spec_def elim!: agrees_cong split: option.splits)
next
  case (Cons k ks)
  let ?k = "to_lower k" and ?K = "to_lower ` set ks - dom (map_of V)"
  obtain t1 un1 dn1 where e: "sync_drop ss level V ?k (t, un, dn) = (t1, un1, dn1)" by (metis surj_pair)
  have "agrees t1 (if mget V ?k = None then del_spec ss level {?k} f else f)"
    using sync_drop_agrees [OF Cons.prems, of ?k ss level V un dn] e by simp
  then have IH: "agrees (fst (fold (\<lambda>k. sync_drop ss level V (to_lower k)) ks (t1, un1, dn1)))
      (del_spec ss level ?K (if mget V ?k = None then del_spec ss level {?k} f else f))"
    by (rule Cons.IH)
  have K: "to_lower ` set (k # ks) - dom (map_of V) = (if mget V ?k = None then insert ?k ?K else ?K)"
    by (auto simp: dom_def)
  show ?case
    unfolding K using e IH by (cases "mget V ?k") (simp_all add: del_spec_insert)
qed

text \<open>
  What a sync leaves in the tree is the overlay of the sources in which the synced one holds exactly
  the synced values.
\<close>

lemma overlay_sync_spec:
  assumes "i < length ss"
  shows "overlay (ss[i := s\<lparr>sw_cache := V\<rparr>]) k =
           del_spec ss i (- dom (map_of V)) (upd_spec i V (overlay ss)) k"
proof (cases "above ss i k")
  case True
  then show ?thesis
    using overlay_above [OF True] overlay_update_above [OF True]
    by (auto simp: upd_spec_def del_spec_def split: option.splits)
next
  case False
  have le: "j \<le> i" if "overlay ss k = Some (j, v)" for j v
    using fall_back_less [of ss "Suc i" k j v] that
    unfolding overlay_not_above [OF False assms, symmetric] by simp
  show ?thesis
    using overlay_update_not_above [OF False assms] overlay_not_above' [OF False assms] le
    by (auto simp: upd_spec_def del_spec_def sw_Get_def split: option.splits dest: fall_back_not_level)
qed

lemma ci_onSync_agrees:
  assumes "agrees (ci_cache c) f"
  shows "agrees (ci_cache (fst (ci_onSync c level val)))
           (del_spec (ci_source c) level (- dom (map_of (store_lower val [])))
              (upd_spec level (store_lower val []) f))"
proof -
  let ?V = "store_lower val []" and ?ss = "ci_source c"
  let ?f = "upd_spec level ?V f"
  obtain t un where t: "fold (\<lambda>(k, v). update_entry level k v) ?V (ci_cache c, []) = (t, un)"
    by (metis surj_pair)
  have at: "agrees t ?f"
    using update_entries_agree [OF assms, of ?V level "[]"] store_lower_keys t by fastforce
  obtain t' un' dn' where t': "fold (\<lambda>k. sync_drop ?ss level ?V (to_lower k)) (pt_Keys t) (t, un, []) = (t', un', dn')"
    by (metis surj_pair)
  have "agrees t' (del_spec ?ss level (to_lower ` set (pt_Keys t) - dom (map_of ?V)) ?f)"
    using sync_drops_agree [OF at, of ?ss level ?V "pt_Keys t" un "[]"] t' by simp
  moreover have "k \<in> to_lower ` set (pt_Keys t)" if "config_key k" "?f k = Some p" for k p
  proof -
    have "pt_Get t k \<noteq> None" using agreesD(2) [OF at, of k] that by simp
    then have "k \<in> set (pt_Keys t)" by (rule pt_Keys_Get)
    moreover have "to_lower k = k" using that(1) by (simp add: config_key_def lower_def)
    ultimately show ?thesis by (metis imageI)
  qed
  then have "del_spec ?ss level (to_lower ` set (pt_Keys t) - dom (map_of ?V)) ?f k =
      del_spec ?ss level (- dom (map_of ?V)) ?f k" if "config_key k" for k
    using that by (auto simp: del_spec_def split: option.splits)
  ultimately have "agrees t' (del_spec ?ss level (- dom (map_of ?V)) ?f)"
    by (rule agrees_cong)
  moreover have "ci_cache (fst (ci_onSync c level val)) = t'"
    using t t' by (simp add: ci_onSync_def)
  ultimately show ?thesis by simp
qed

section \<open>Properties\<close>

text \<open>
  C1 (layering). After a successful initial \<open>sync\<close>, and after every run of update and delete events
  with lower-case keys from any of the sources, a read answers with the value and the level of the
  highest source that has the key, and with level -1 when none has it.
\<close>

theorem config_is_overlay:
  fixes c :: "'w config_impl"
  assumes "NewPrefixTree ''.'' = Some t" and "length rs = length ig"
    and "ci_sync 0 rs (NewConfig ig t) = (None, c, calls)"
    and "list_all (ok_event (length ig)) evs" and "config_key (withPrefix (to_lower key) prefix)"
  shows "ci_Get (ci_run c evs) key prefix False =
           (case overlay (ci_source (ci_run c evs)) (withPrefix (to_lower key) prefix) of
              Some (l, v) \<Rightarrow> (v, int l)
            | None \<Rightarrow> ('''', -1))"
proof -
  have "ci_inv c \<and> length (ci_source c) = length ig"
    by (rule NewConfig_synced [OF assms(1-3)])
  then have "ci_inv (ci_run c evs)" using ci_run_inv assms(4) by metis
  then have "pt_Get (ci_cache (ci_run c evs)) (withPrefix (to_lower key) prefix) =
      map_option node (overlay (ci_source (ci_run c evs)) (withPrefix (to_lower key) prefix))"
    using agreesD(2) assms(5) unfolding ci_inv_def by metis
  then show ?thesis by (auto simp: ci_Get_def split: option.splits)
qed

definition demo_tree :: "value_node prefix_tree" where
  "demo_tree = \<lparr>pt_store = [newNode], pt_root = 0, pt_separator = ''.'', pt_prefixCache = [], pt_m = []\<rparr>"

definition demo_config :: "nat config_impl" where
  "demo_config = fst (snd (ci_sync 0 [Inr [(''A.b'', ''1'')], Inr [(''a.b'', ''2''), (''c'', ''3'')]]
     (NewConfig [False, False] demo_tree)))"

theorem config_is_overlay_witness:
  "ci_Get (ci_run demo_config [(1, EvDelete [''a.b'']), (0, EvUpdate [(''c'', ''4'')])]) ''B'' ''a.'' False
     = (''1'', 0)"
proof -
  let ?evs = "[(1, EvDelete [''a.b'']), (0, EvUpdate [(''c'', ''4'')])]"
  let ?rs = "[Inr [(''A.b'', ''1'')], Inr [(''a.b'', ''2''), (''c'', ''3'')]]"
  have a: "NewPrefixTree ''.'' = Some demo_tree" by (simp add: NewPrefixTree_def demo_tree_def)
  have b: "ci_sync 0 ?rs (NewConfig [False, False] demo_tree) =
      (None, demo_config, snd (snd (ci_sync 0 ?rs (NewConfig [False, False] demo_tree))))"
    unfolding demo_config_def by code_simp
  have c: "list_all (ok_event (length [False, False])) ?evs" by code_simp
  have d: "config_key (withPrefix (to_lower ''B'') ''a.'')" by code_simp
  have "overlay (ci_source (ci_run demo_config ?evs)) (withPrefix (to_lower ''B'') ''a.'') = Some (0, ''1'')"
    by code_simp
  with config_is_overlay [OF a _ b c d] show ?thesis by simp
qed

lemma demo_config_inv: "ci_inv demo_config"
proof -
  let ?rs = "[Inr [(''A.b'', ''1'')], Inr [(''a.b'', ''2''), (''c'', ''3'')]]"
  have t: "NewPrefixTree ''.'' = Some demo_tree" by (simp add: NewPrefixTree_def demo_tree_def)
  have "ci_sync 0 ?rs (NewConfig [False, False] demo_tree) = (None, demo_config,
      snd (snd (ci_sync 0 ?rs (NewConfig [False, False] demo_tree))))"
    unfolding demo_config_def by code_simp
  then show ?thesis using NewConfig_synced [OF t, of ?rs "[False, False]"] by auto
qed

text \<open>
  Update notifications. Handling an update event, the watchers are told of a storable key
  exactly when the value the configuration answers for it changes, and then with the new value; a
  value shadowed by a higher source, or equal to the one already there, causes no notification.
\<close>

theorem update_notifies_changes:
  assumes "ci_inv c" and "wf_map val" and "\<forall>k \<in> fst ` set val. lower k"
  shows "\<exists>notify. snd (ci_onUpdate c level val) = nt_OnUpdate (ci_notifier c) notify \<and>
           (\<forall>k. config_key k \<longrightarrow>
              mget notify k =
                (if value_at (ci_cache (fst (ci_onUpdate c level val))) k \<noteq> value_at (ci_cache c) k
                 then value_at (ci_cache (fst (ci_onUpdate c level val))) k else None))"
proof -
  obtain t n where f: "fold (\<lambda>(k, v). update_entry level k v) val (ci_cache c, []) = (t, n)"
    by (metis surj_pair)
  have eq: "ci_onUpdate c level val = (c\<lparr>ci_cache := t\<rparr>, nt_OnUpdate (ci_notifier c) n)"
    using f by (simp add: ci_onUpdate_def fold_to_lower [OF assms(3)])
  have inv: "pt_inv CHR ''.'' (ci_cache c)" using assms(1) agreesD(1) by (auto simp: ci_inv_def)
  have "mget n k = (if value_at t k \<noteq> value_at (ci_cache c) k then value_at t k else None)"
    if "config_key k" for k
    using update_entries_notify [OF inv assms(2) f, of k] that
    by (cases "k \<in> fst ` set val") (auto simp: config_key_def value_at_def)
  then show ?thesis using eq by auto
qed

theorem update_notifies_changes_witness:
  "\<exists>notify. snd (ci_onUpdate demo_config 0 [(''a.b'', ''9''), (''d'', ''5'')]) =
       nt_OnUpdate (ci_notifier demo_config) notify \<and> mget notify ''d'' = Some ''5'' \<and> mget notify ''a.b'' = None"
proof -
  note a = demo_config_inv
  have b: "wf_map [(''a.b'', ''9''), (''d'', ''5'')]"
    and c: "\<forall>k \<in> fst ` set [(''a.b'', ''9''), (''d'', ''5'')]. lower k" by code_simp+
  have v: "value_at (ci_cache demo_config) ''d'' = None"
    "value_at (ci_cache (fst (ci_onUpdate demo_config 0 [(''a.b'', ''9''), (''d'', ''5'')]))) ''d'' = Some ''5''"
    "value_at (ci_cache (fst (ci_onUpdate demo_config 0 [(''a.b'', ''9''), (''d'', ''5'')]))) ''a.b'' =
       value_at (ci_cache demo_config) ''a.b''"
    "config_key ''d''" "config_key ''a.b''"
    by code_simp+
  show ?thesis using update_notifies_changes [OF a b c, of 0] v by (metis option.distinct(1))
qed

text \<open>
  Delete notifications. Handling a delete event, a storable key is reported as deleted exactly
  when it had a value and has none afterwards, and as updated, with the value of the next lower
  source, exactly when it still has a value and that value is a different one.
\<close>

theorem delete_notifies_changes:
  assumes "ci_inv c" and "\<forall>k \<in> set ks. lower k"
  shows "\<exists>un dn. snd (ci_onDelete c level ks) = nt_OnUpdate (ci_notifier c) un @ nt_OnDelete (ci_notifier c) dn \<and>
           (\<forall>k. config_key k \<longrightarrow>
              (k \<in> set dn \<longleftrightarrow> value_at (ci_cache c) k \<noteq> None \<and>
                              value_at (ci_cache (fst (ci_onDelete c level ks))) k = None) \<and>
              mget un k =
                (if value_at (ci_cache (fst (ci_onDelete c level ks))) k \<noteq> value_at (ci_cache c) k
                 then value_at (ci_cache (fst (ci_onDelete c level ks))) k else None))"
proof -
  have lw: "fold (\<lambda>k. delete_entry (ci_source c) level (to_lower k)) ks (ci_cache c, [], []) =
      fold (delete_entry (ci_source c) level) ks (ci_cache c, [], [])"
    by (rule fold_cong) (use assms(2) in \<open>auto simp: lower_def\<close>)
  obtain t un dn where f: "fold (delete_entry (ci_source c) level) ks (ci_cache c, [], []) = (t, un, dn)"
    by (metis surj_pair)
  have eq: "ci_onDelete c level ks =
      (c\<lparr>ci_cache := t\<rparr>, nt_OnUpdate (ci_notifier c) un @ nt_OnDelete (ci_notifier c) dn)"
    using f by (simp add: ci_onDelete_def lw)
  have inv: "pt_inv CHR ''.'' (ci_cache c)" using assms(1) agreesD(1) by (auto simp: ci_inv_def)
  have "(k \<in> set dn \<longleftrightarrow> value_at (ci_cache c) k \<noteq> None \<and> value_at t k = None) \<and>
      mget un k = (if value_at t k \<noteq> value_at (ci_cache c) k then value_at t k else None)"
    if "config_key k" for k
    using delete_entries_notify [OF inv _ _ f, of k] that by (auto simp: config_key_def)
  then show ?thesis using eq by (intro exI [of _ un] exI [of _ dn]) simp
qed

theorem delete_notifies_changes_witness:
  "\<exists>un dn. snd (ci_onDelete demo_config 1 [''a.b'', ''c'']) =
      nt_OnUpdate (ci_notifier demo_config) un @ nt_OnDelete (ci_notifier demo_config) dn \<and>
      mget un ''a.b'' = Some ''1'' \<and> ''c'' \<in> set dn"
proof -
  have b: "\<forall>k \<in> set [''a.b'', ''c'']. lower k" by code_simp
  have v: "value_at (ci_cache demo_config) ''a.b'' = Some ''2''"
    "value_at (ci_cache demo_config) ''c'' = Some ''3''"
    "value_at (ci_cache (fst (ci_onDelete demo_config 1 [''a.b'', ''c'']))) ''a.b'' = Some ''1''"
    "value_at (ci_cache (fst (ci_onDelete demo_config 1 [''a.b'', ''c'']))) ''c'' = None"
    "config_key ''a.b''" "config_key ''c''"
    by code_simp+
  have "Some ''1'' \<noteq> Some ''2''" by simp
  with delete_notifies_changes [OF demo_config_inv b, of 1] v show ?thesis
    by (metis (no_types, lifting) option.distinct(1))
qed

text \<open>
  Sync events. Handling a sync event leaves, for every storable key, the overlay of the sources
  in which the synced source holds exactly the synced values under their lower-case keys: values it
  no longer has are replaced by the next lower ones or dropped.
\<close>

theorem sync_event_replaces_layer:
  assumes "ci_inv c" and "level < length (ci_source c)" and "config_key k"
  shows "pt_Get (ci_cache (fst (ci_onSync c level val))) k =
           map_option node
             (overlay ((ci_source c)[level := (ci_source c ! level)\<lparr>sw_cache := store_lower val []\<rparr>]) k)"
proof -
  have "agrees (ci_cache c) (overlay (ci_source c))" using assms(1) by (simp add: ci_inv_def)
  then show ?thesis
    using agreesD(2) [OF ci_onSync_agrees, of c _ level val k] assms(3) overlay_sync_spec [OF assms(2)]
    by simp
qed

theorem sync_event_replaces_layer_witness:
  "pt_Get (ci_cache (fst (ci_onSync demo_config 1 [(''D'', ''8'')]))) ''a.b'' = Some (node (0, ''1''))"
proof -
  have l: "1 < length (ci_source demo_config)" and k: "config_key ''a.b''" by code_simp+
  have "overlay ((ci_source demo_config)[1 := (ci_source demo_config ! 1)\<lparr>sw_cache := store_lower [(''D'', ''8'')] []\<rparr>]) ''a.b''
      = Some (0, ''1'')" by code_simp
  then show ?thesis using sync_event_replaces_layer [OF demo_config_inv l k, of "[(''D'', ''8'')]"] by simp
qed

text \<open>
  A sync does not reach the wrapper. The wrapper's own cache keeps the values a sync has dropped,
  because \<open>OnSync\<close> only stores. So a value that is gone from the configuration comes back: source 0
  has \<open>c = old\<close> and loses it in a sync, source 1 sets and deletes \<open>c\<close>, and the configuration answers
  with the value source 0 no longer has.
\<close>

theorem synced_away_value_returns:
  "let evs = [(0, EvUpdate [(''c'', ''old'')]), (0, EvSync [(''d'', ''x'')])];
       back = [(1, EvUpdate [(''c'', ''new'')]), (1, EvDelete [''c''])];
       c0 = ci_run (NewConfig [False, False] demo_tree :: nat config_impl) evs
   in ci_Get c0 ''c'' '''' False = ('''', -1) \<and>
      ci_Get (ci_run c0 back) ''c'' '''' False = (''old'', 0)"
  by code_simp

end
