(* ===== verification/Config_Filter.thy ===== *)
theory Config_Filter
  imports Config_Impl
begin

text \<open>
  The filter between a configuration view and the layered configuration,
  \<^verbatim>\<open>config/internal/filter.go\<close>: it tries a key under the prefix of every namespace, picks the
  answer of the highest level, and decrypts it. The data source is an interface; the operations take
  its \<open>Get\<close> as an argument, and \<open>ci_Get\<close> of a configuration is the instance the code uses. \<open>dec\<close>
  stands for \<open>lib.Decrypt\<close> (\<open>None\<close> for its error) and \<open>builtin\<close> for the key \<open>lib.K\<close>.
\<close>

type_synonym getter = "string \<Rightarrow> string \<Rightarrow> bool \<Rightarrow> string \<times> int"

record 'p filter_state =
  fl_prefix :: string
  fl_ns :: "string list"
  fl_password :: "'p list"
  fl_decrypted :: smap
  fl_prefixMap :: smap

definition EncryptedPrefix :: string where
  "EncryptedPrefix = ''encrypted://''"

text \<open>The body of the loop that fills \<open>prefixMap\<close>.\<close>

definition ns_prefix :: "string \<Rightarrow> string \<Rightarrow> string" where
  "ns_prefix prefix ns =
     (let p = (if prefix \<noteq> '''' then prefix @ ''.'' else '''')
      in if ns \<noteq> '''' then ns @ ''.'' @ p else p)"

definition NewFilter :: "string \<Rightarrow> string list \<Rightarrow> 'p list \<Rightarrow> 'p filter_state" where
  "NewFilter prefix ns password =
     (let ns' = (if '''' \<in> set ns then ns else '''' # ns)
      in \<lparr>fl_prefix = prefix, fl_ns = ns', fl_password = password, fl_decrypted = [],
          fl_prefixMap = fold (\<lambda>n. AList.update n (ns_prefix prefix n)) ns' []\<rparr>)"

text \<open>A missing key of a Go map reads as the zero value.\<close>

definition getPrefix :: "'p filter_state \<Rightarrow> string \<Rightarrow> string" where
  "getPrefix f ns = (case mget (fl_prefixMap f) ns of Some p \<Rightarrow> p | None \<Rightarrow> '''')"

definition namespace :: "'p filter_state \<Rightarrow> string list" where
  "namespace f = fl_ns f"

section \<open>Decryption\<close>

fun try_keys :: "('p \<Rightarrow> string \<Rightarrow> string option) \<Rightarrow> 'p list \<Rightarrow> string \<Rightarrow> string option" where
  "try_keys dec [] val = None"
| "try_keys dec (p # ps) val = (case dec p val of Some v \<Rightarrow> Some v | None \<Rightarrow> try_keys dec ps val)"

definition fl_decrypt ::
  "('p \<Rightarrow> string \<Rightarrow> string option) \<Rightarrow> 'p \<Rightarrow> 'p filter_state \<Rightarrow> string \<Rightarrow> string \<times> 'p filter_state" where
  "fl_decrypt dec builtin f val =
     (if \<not> has_prefix val EncryptedPrefix then (val, f)
      else (case mget (fl_decrypted f) val of
              Some v \<Rightarrow> (v, f)
            | None \<Rightarrow>
                (let v = (case try_keys dec (fl_password f @ [builtin]) val of Some v \<Rightarrow> v | None \<Rightarrow> val)
                 in (v, f\<lparr>fl_decrypted := AList.update val v (fl_decrypted f)\<rparr>))))"

section \<open>Get and the notification filters\<close>

text \<open>The loop over the namespaces, from the last to the first.\<close>

fun best :: "(string \<Rightarrow> string \<times> int) \<Rightarrow> string list \<Rightarrow> string \<times> int \<Rightarrow> string \<times> int" where
  "best g [] acc = acc"
| "best g (n # ns) acc = best g ns (if snd (g n) > snd acc then g n else acc)"

definition fl_Get ::
  "('p \<Rightarrow> string \<Rightarrow> string option) \<Rightarrow> 'p \<Rightarrow> getter \<Rightarrow> 'p filter_state \<Rightarrow> string \<Rightarrow>
     (string \<times> bool) \<times> 'p filter_state" where
  "fl_Get dec builtin get f k =
     (let (rv, rvIdx) = get k '''' True;
          (v, idx) = best (\<lambda>n. get k (getPrefix f n) False) (rev (namespace f)) ('''', -1)
      in if rvIdx = -1 \<and> idx = -1 then (('''', False), f)
         else (let (d, f') = fl_decrypt dec builtin f (if rvIdx > idx then rv else v)
               in ((d, True), f')))"

text \<open>The first namespace, from the last, whose prefix the key has: the key without that prefix.\<close>

fun strip_ns :: "'p filter_state \<Rightarrow> string list \<Rightarrow> string \<Rightarrow> string option" where
  "strip_ns f [] k = None"
| "strip_ns f (n # ns) k =
     (if has_prefix k (getPrefix f n) then Some (trim_prefix k (getPrefix f n)) else strip_ns f ns k)"

fun filter_update ::
  "('p \<Rightarrow> string \<Rightarrow> string option) \<Rightarrow> 'p \<Rightarrow> getter \<Rightarrow> 'p filter_state \<Rightarrow> smap \<Rightarrow> smap \<Rightarrow>
     smap \<times> 'p filter_state" where
  "filter_update dec builtin get f [] result = (result, f)"
| "filter_update dec builtin get f ((k0, v) # kvs) result =
     (case strip_ns f (rev (namespace f)) k0 of
        None \<Rightarrow> filter_update dec builtin get f kvs result
      | Some k \<Rightarrow>
          (let (dv, f1) = fl_decrypt dec builtin f v;
               ((val, ok), f2) = fl_Get dec builtin get f1 k
           in filter_update dec builtin get f2 kvs
                (if \<not> ok \<or> val = dv then AList.update k dv result else result)))"

definition FilterUpdate where
  "FilterUpdate dec builtin get f notify = filter_update dec builtin get f notify []"

fun filter_delete ::
  "('p \<Rightarrow> string \<Rightarrow> string option) \<Rightarrow> 'p \<Rightarrow> getter \<Rightarrow> 'p filter_state \<Rightarrow> string list \<Rightarrow> smap \<Rightarrow>
     string list \<Rightarrow> (smap \<times> string list) \<times> 'p filter_state" where
  "filter_delete dec builtin get f [] un dn = ((un, dn), f)"
| "filter_delete dec builtin get f (k0 # ks) un dn =
     (case strip_ns f (rev (namespace f)) k0 of
        None \<Rightarrow> filter_delete dec builtin get f ks un dn
      | Some k \<Rightarrow>
          (let ((val, ok), f1) = fl_Get dec builtin get f k
           in if ok then filter_delete dec builtin get f1 ks (AList.update k val un) dn
              else filter_delete dec builtin get f1 ks un (dn @ [k])))"

definition FilterDelete where
  "FilterDelete dec builtin get f notify = filter_delete dec builtin get f notify [] []"

section \<open>Namespaces\<close>

lemma NewFilter_ns: "'''' \<in> set (namespace (NewFilter prefix ns password))"
  by (simp add: NewFilter_def namespace_def Let_def)

lemma mget_fold_ns:
  "mget (fold (\<lambda>n. AList.update n (g n)) ns acc) n = (if n \<in> set ns then Some (g n) else mget acc n)"
  by (induction ns arbitrary: acc) auto

lemma NewFilter_getPrefix:
  "n \<in> set (namespace (NewFilter prefix ns password)) \<Longrightarrow>
     getPrefix (NewFilter prefix ns password) n = ns_prefix prefix n"
  by (simp add: NewFilter_def namespace_def getPrefix_def Let_def mget_fold_ns split: if_splits)

text \<open>What \<open>best\<close> picks: the first maximal answer of the list, if it beats the start value.\<close>

lemma best_ge_acc: "snd acc \<le> snd (best g ns acc)"
proof (induction ns arbitrary: acc)
  case (Cons n ns)
  show ?case
    using Cons.IH [of "g n"] Cons.IH [of acc] by (cases "snd (g n) > snd acc") auto
qed simp

lemma best_ge: "n \<in> set ns \<Longrightarrow> snd (g n) \<le> snd (best g ns acc)"
proof (induction ns arbitrary: acc)
  case (Cons x ns)
  then show ?case
    using best_ge_acc [of "g x" g ns] best_ge_acc [of acc g ns]
    by (cases "snd (g x) > snd acc"; cases "n = x") simp_all
qed simp

lemma best_in: "best g ns acc = acc \<or> (\<exists>n \<in> set ns. best g ns acc = g n \<and> snd acc < snd (g n))"
proof (induction ns arbitrary: acc)
  case (Cons n ns)
  show ?case
  proof (cases "snd (g n) > snd acc")
    case True
    then show ?thesis using Cons.IH [of "g n"] by fastforce
  next
    case False
    then show ?thesis using Cons.IH [of acc] by auto
  qed
qed simp

lemma best_first:
  "best g (ns @ n # ms) acc = g n"
  if "snd acc < snd (g n)" "\<forall>x \<in> set ns. snd (g x) < snd (g n)" "\<forall>x \<in> set ms. snd (g x) \<le> snd (g n)"
  using that
proof (induction ns arbitrary: acc)
  case Nil
  have "best g ms (g n) = g n" using Nil(3) by (induction ms) auto
  with Nil show ?case by simp
next
  case (Cons x ns)
  then show ?case by simp
qed

section \<open>Decryption is memoised transparently\<close>

definition decrypted :: "('p \<Rightarrow> string \<Rightarrow> string option) \<Rightarrow> 'p \<Rightarrow> 'p list \<Rightarrow> string \<Rightarrow> string" where
  "decrypted dec builtin password val =
     (if \<not> has_prefix val EncryptedPrefix then val
      else (case try_keys dec (password @ [builtin]) val of Some v \<Rightarrow> v | None \<Rightarrow> val))"

definition fl_inv :: "('p \<Rightarrow> string \<Rightarrow> string option) \<Rightarrow> 'p \<Rightarrow> 'p filter_state \<Rightarrow> bool" where
  "fl_inv dec builtin f \<longleftrightarrow>
     (\<forall>val v. mget (fl_decrypted f) val = Some v \<longrightarrow>
        has_prefix val EncryptedPrefix \<and> v = decrypted dec builtin (fl_password f) val)"

lemma NewFilter_inv: "fl_inv dec builtin (NewFilter prefix ns password)"
  by (simp add: fl_inv_def NewFilter_def Let_def)

lemma fl_decrypt_correct:
  assumes "fl_inv dec builtin f"
  shows "fst (fl_decrypt dec builtin f val) = decrypted dec builtin (fl_password f) val"
    and "\<exists>d. snd (fl_decrypt dec builtin f val) = f\<lparr>fl_decrypted := d\<rparr>"
    and "fl_inv dec builtin (snd (fl_decrypt dec builtin f val))"
proof -
  show "fst (fl_decrypt dec builtin f val) = decrypted dec builtin (fl_password f) val"
    using assms [unfolded fl_inv_def, rule_format, of val]
    by (cases "mget (fl_decrypted f) val") (simp_all add: fl_decrypt_def decrypted_def Let_def)
  show "\<exists>d. snd (fl_decrypt dec builtin f val) = f\<lparr>fl_decrypted := d\<rparr>"
    by (auto simp: fl_decrypt_def Let_def split: option.splits intro: exI [of _ "fl_decrypted f"])
  have "snd (fl_decrypt dec builtin f val) = f \<or> has_prefix val EncryptedPrefix \<and>
      snd (fl_decrypt dec builtin f val) =
        f\<lparr>fl_decrypted := AList.update val (decrypted dec builtin (fl_password f) val) (fl_decrypted f)\<rparr>"
    by (cases "mget (fl_decrypted f) val") (simp_all add: fl_decrypt_def decrypted_def Let_def)
  then show "fl_inv dec builtin (snd (fl_decrypt dec builtin f val))"
    using assms by (auto simp: fl_inv_def split: if_splits)
qed

lemma fl_Get_fst:
  "fst (fl_Get dec builtin get f k) =
     (let r = get k '''' True;
          b = best (\<lambda>n. get k (getPrefix f n) False) (rev (namespace f)) ('''', -1)
      in if snd r = -1 \<and> snd b = -1 then ('''', False)
         else (fst (fl_decrypt dec builtin f (if snd r > snd b then fst r else fst b)), True))"
  by (simp add: fl_Get_def case_prod_beta Let_def)

section \<open>The contract of a data source\<close>

text \<open>
  What \<open>Filter.Get\<close> relies on in its source: a read that finds something answers with a level from 0
  on, a prefixed read that finds nothing with -1, and a raw read that finds nothing with a fixed
  level \<open>miss\<close>. A missing key is noticed only if \<open>miss\<close> is -1.
\<close>

locale data_source =
  fixes get :: getter
    and has_raw :: "string \<Rightarrow> bool"
    and has_key :: "string \<Rightarrow> string \<Rightarrow> bool"
    and miss :: int
  assumes raw_level: "has_raw k \<Longrightarrow> 0 \<le> snd (get k p True)"
    and raw_missing: "\<not> has_raw k \<Longrightarrow> get k p True = ('''', miss)"
    and key_level: "has_key k p \<Longrightarrow> 0 \<le> snd (get k p False)"
    and key_missing: "\<not> has_key k p \<Longrightarrow> get k p False = ('''', -1)"
begin

lemma present_iff:
  "snd (fst (fl_Get dec builtin get f k)) \<longleftrightarrow>
     has_raw k \<or> miss \<noteq> -1 \<or> (\<exists>n \<in> set (namespace f). has_key k (getPrefix f n))"
proof -
  let ?g = "\<lambda>n. get k (getPrefix f n) False"
  let ?b = "best ?g (rev (namespace f)) ('''', -1)"
  have "snd ?b \<noteq> -1 \<longleftrightarrow> (\<exists>n \<in> set (namespace f). has_key k (getPrefix f n))"
  proof
    assume "snd ?b \<noteq> -1"
    then obtain n where "n \<in> set (namespace f)" and "?b = ?g n" and "-1 < snd (?g n)"
      using best_in [of ?g "rev (namespace f)" "('''', -1)"] by fastforce
    then show "\<exists>n \<in> set (namespace f). has_key k (getPrefix f n)" using key_missing by fastforce
  next
    assume "\<exists>n \<in> set (namespace f). has_key k (getPrefix f n)"
    then obtain n where "n \<in> set (rev (namespace f))" and "0 \<le> snd (?g n)" using key_level by auto
    then show "snd ?b \<noteq> -1" using best_ge [of n "rev (namespace f)" ?g "('''', -1)"] by linarith
  qed
  moreover have "snd (get k '''' True) \<noteq> -1 \<longleftrightarrow> has_raw k \<or> miss \<noteq> -1"
    using raw_level [of k "''''"] raw_missing [of k "''''"] by (cases "has_raw k") auto
  ultimately show ?thesis by (auto simp: fl_Get_fst Let_def)
qed

lemma raw_missing_wins:
  assumes "\<not> has_raw k" and "fl_inv dec builtin f" and "0 \<le> miss"
    and "best (\<lambda>n. get k (getPrefix f n) False) (rev (namespace f)) ('''', -1) = (v, idx)"
  shows "fst (fl_Get dec builtin get f k) =
           (if idx < miss then ('''', True) else (decrypted dec builtin (fl_password f) v, True))"
proof -
  have "decrypted dec builtin (fl_password f) '''' = ''''"
    by (simp add: decrypted_def has_prefix_def EncryptedPrefix_def)
  then show ?thesis
    using raw_missing [OF assms(1), of "''''"] fl_decrypt_correct(1) [OF assms(2)] assms(3,4)
    by (simp add: fl_Get_fst Let_def)
qed

end

text \<open>
  The data source of the code is \<open>ci_Get\<close>, whose raw read answers with level 1 when it finds nothing.
  The same source with that answer put right satisfies the contract with level -1.
\<close>

definition raw_found :: "'w config_impl \<Rightarrow> string \<Rightarrow> bool" where
  "raw_found c k \<longleftrightarrow>
     (\<exists>n. pt_Get (ci_cache c) (to_lower k) = Some n \<and> level_ignores c (vn_level n))"

definition key_found :: "'w config_impl \<Rightarrow> string \<Rightarrow> string \<Rightarrow> bool" where
  "key_found c k p \<longleftrightarrow> pt_Get (ci_cache c) (withPrefix (to_lower k) p) \<noteq> None"

definition repaired_Get :: "'w config_impl \<Rightarrow> getter" where
  "repaired_Get c k p raw = (if raw \<and> \<not> raw_found c k then ('''', -1) else ci_Get c k p raw)"

interpretation config_source: data_source "ci_Get c" "raw_found c" "key_found c" 1 for c
  by unfold_locales (auto simp: ci_Get_def raw_found_def key_found_def split: option.splits)

interpretation repaired: data_source "repaired_Get c" "raw_found c" "key_found c" "-1" for c
  by unfold_locales
    (auto simp: repaired_Get_def ci_Get_def raw_found_def key_found_def split: option.splits)

section \<open>Properties\<close>

text \<open>
  Missing keys are reported as present. With the layered configuration as its source,
  \<open>Filter.Get\<close> answers "found" for every key, whether any source has it or not; with level -1 for a
  raw read that finds nothing it would answer "found" exactly for the keys that are there.
\<close>

theorem filter_never_reports_missing:
  "snd (fst (fl_Get dec builtin (ci_Get c) f k)) \<and>
   (snd (fst (fl_Get dec builtin (repaired_Get c) f k)) \<longleftrightarrow>
      raw_found c k \<or> (\<exists>n \<in> set (namespace f). key_found c k (getPrefix f n)))"
  using config_source.present_iff [of dec builtin c f k] repaired.present_iff [of dec builtin c f k] by simp

text \<open>
  The lowest source is hidden. A value that only the source of level 0 has is never returned:
  the raw read's level 1 wins and the answer is the empty string. A value from level 1 on is
  returned.
\<close>

theorem filter_hides_level_zero:
  assumes "fl_inv dec builtin f" and "\<not> raw_found c k"
    and "best (\<lambda>n. ci_Get c k (getPrefix f n) False) (rev (namespace f)) ('''', -1) = (v, idx)"
  shows "fst (fl_Get dec builtin (ci_Get c) f k) =
           (if idx < 1 then ('''', True) else (decrypted dec builtin (fl_password f) v, True))"
  using config_source.raw_missing_wins [OF assms(2,1) _ assms(3)] by simp

theorem filter_hides_level_zero_witness:
  "let f = NewFilter '''' [] [] :: nat filter_state;
       c = ci_run (NewConfig [False] demo_tree :: nat config_impl) [(0, EvUpdate [(''a'', ''1'')])]
   in fst (fl_Get (\<lambda>_ _. None) 0 (ci_Get c) f ''a'') = ('''', True)"
proof -
  let ?f = "NewFilter '''' [] [] :: nat filter_state"
  let ?c = "ci_run (NewConfig [False] demo_tree :: nat config_impl) [(0, EvUpdate [(''a'', ''1'')])]"
  have g: "pt_Get (ci_cache ?c) (to_lower ''a'') = Some (node (0, ''1''))"
    and l: "\<not> level_ignores ?c 0" by code_simp+
  then have r: "\<not> raw_found ?c ''a''" by (auto simp: raw_found_def)
  have b: "best (\<lambda>n. ci_Get ?c ''a'' (getPrefix ?f n) False) (rev (namespace ?f)) ('''', -1) = (''1'', 0)"
    by code_simp
  show ?thesis
    using filter_hides_level_zero [OF NewFilter_inv r b, of "\<lambda>_ _. None" 0] by simp
qed

text \<open>
  Namespaces. Among the namespaces, the answer of the highest level wins, and at the same level
  the namespace that is later in the list.
\<close>

theorem later_namespace_wins:
  assumes "namespace f = ns @ n # ms" and "-1 < snd (get k (getPrefix f n) False)"
    and "\<forall>x \<in> set ms. snd (get k (getPrefix f x) False) < snd (get k (getPrefix f n) False)"
    and "\<forall>x \<in> set ns. snd (get k (getPrefix f x) False) \<le> snd (get k (getPrefix f n) False)"
    and "snd (get k '''' True) \<le> snd (get k (getPrefix f n) False)" and "fl_inv dec builtin f"
  shows "fst (fl_Get dec builtin get f k) =
           (decrypted dec builtin (fl_password f) (fst (get k (getPrefix f n) False)), True)"
proof -
  let ?g = "\<lambda>n. get k (getPrefix f n) False"
  have b: "best ?g (rev (namespace f)) ('''', -1) = ?g n"
    using best_first [of "('''', -1)" ?g n "rev ms" "rev ns"] assms(1-4) by simp
  obtain v idx where g: "?g n = (v, idx)" by (metis surj_pair)
  have "idx \<noteq> -1" and "\<not> idx < snd (get k '''' True)" using assms(2,5) g by auto
  then show ?thesis
    using b g fl_decrypt_correct(1) [OF assms(6), of v]
    by (simp add: fl_Get_fst Let_def)
qed

theorem later_namespace_wins_witness:
  "let f = NewFilter '''' [''x'', ''y''] [] :: nat filter_state;
       get = (\<lambda>k p raw. if raw then ('''', 1) else if p = ''y.'' then (''2'', 2)
                        else if p = ''x.'' then (''1'', 2) else ('''', -1))
   in fst (fl_Get (\<lambda>_ _. None) 0 get f ''k'') = (''2'', True)"
proof -
  let ?f = "NewFilter '''' [''x'', ''y''] [] :: nat filter_state"
  let ?get = "\<lambda>(k::string) (p::string) raw. if raw then ('''', 1::int) else if p = ''y.'' then (''2'', 2)
                        else if p = ''x.'' then (''1'', 2) else ('''', -1)"
  have ns: "namespace ?f = ['''', ''x''] @ ''y'' # []" by code_simp
  have p: "getPrefix ?f ''y'' = ''y.''" "getPrefix ?f ''x'' = ''x.''" "getPrefix ?f '''' = ''''" by code_simp+
  have "fst (fl_Get (\<lambda>_ _. None) 0 ?get ?f ''k'') =
      (decrypted (\<lambda>_ _. None) 0 (fl_password ?f) (fst (?get ''k'' (getPrefix ?f ''y'') False)), True)"
    by (rule later_namespace_wins [OF ns _ _ _ _ NewFilter_inv]) (simp_all add: p)
  then show ?thesis
    by (simp add: p decrypted_def has_prefix_def EncryptedPrefix_def)
qed

end
