(* ===== verification/Config_Value.thy ===== *)
theory Config_Value
  imports Config_Filter
begin

text \<open>
  The typed readers of a configuration value, \<^verbatim>\<open>ValueImpl\<close> of \<^verbatim>\<open>config/internal/value.go\<close>.
  A reader takes the \<open>Get\<close> of its \<open>ValueGetter\<close> as the function \<open>g\<close>. \<open>strconv.ParseFloat\<close>, the duration
  parser of the package \<^verbatim>\<open>str2duration\<close> and \<open>json.Unmarshal\<close> are arguments of the readers that call
  them; \<open>None\<close> is their error.
\<close>

type_synonym value_getter = "string \<Rightarrow> string \<times> bool"

definition val_String :: "value_getter \<Rightarrow> string \<Rightarrow> string" where
  "val_String g key = (let (v, ok) = g key in if ok then v else '''')"

definition val_Bytes :: "value_getter \<Rightarrow> string \<Rightarrow> string" where
  "val_Bytes g key = (let (v, ok) = g key in if ok then v else [])"

definition val_Has :: "value_getter \<Rightarrow> string \<Rightarrow> bool" where
  "val_Has g key = (let (_, ok) = g key in ok)"

definition val_Bool :: "value_getter \<Rightarrow> string \<Rightarrow> bool" where
  "val_Bool g key = (let v = to_lower (val_String g key) in v = ''true'' \<or> v = ''1'')"

definition or_zero :: "'a::zero option \<Rightarrow> 'a" where
  "or_zero r = (case r of Some n \<Rightarrow> n | None \<Rightarrow> 0)"

definition val_Int :: "value_getter \<Rightarrow> string \<Rightarrow> int" where
  "val_Int g key = or_zero (parse_int 64 (val_String g key))"

definition val_Uint :: "value_getter \<Rightarrow> string \<Rightarrow> int" where
  "val_Uint g key = or_zero (parse_uint 64 (val_String g key))"

definition val_Int64 :: "value_getter \<Rightarrow> string \<Rightarrow> int" where
  "val_Int64 g key = or_zero (parse_int 64 (val_String g key))"

definition val_Uint64 :: "value_getter \<Rightarrow> string \<Rightarrow> int" where
  "val_Uint64 g key = or_zero (parse_uint 64 (val_String g key))"

definition val_Float64 :: "(string \<Rightarrow> 'f::zero option) \<Rightarrow> value_getter \<Rightarrow> string \<Rightarrow> 'f" where
  "val_Float64 parse_float g key = or_zero (parse_float (val_String g key))"

definition val_Duration :: "(string \<Rightarrow> int option) \<Rightarrow> value_getter \<Rightarrow> string \<Rightarrow> int" where
  "val_Duration parse_duration g key =
     (let v = val_String g key
      in if length v > 0 then (case parse_duration v of None \<Rightarrow> 0 | Some d \<Rightarrow> d) else 0)"

definition val_StringList :: "value_getter \<Rightarrow> string \<Rightarrow> string list" where
  "val_StringList g key =
     filter (\<lambda>sv. length sv \<noteq> 0) (map trim_space (split_char CHR '','' (val_String g key)))"

fun parsed :: "(string \<Rightarrow> 'a option) \<Rightarrow> string list \<Rightarrow> 'a list" where
  "parsed p [] = []"
| "parsed p (s # ss) = (case p s of Some n \<Rightarrow> n # parsed p ss | None \<Rightarrow> parsed p ss)"

definition val_IntList :: "value_getter \<Rightarrow> string \<Rightarrow> int list" where
  "val_IntList g key = parsed (parse_int 64) (val_StringList g key)"

definition val_UintList :: "value_getter \<Rightarrow> string \<Rightarrow> int list" where
  "val_UintList g key = parsed (parse_uint 64) (val_StringList g key)"

definition val_Int64List :: "value_getter \<Rightarrow> string \<Rightarrow> int list" where
  "val_Int64List g key = parsed (parse_int 64) (val_StringList g key)"

definition val_Uint64List :: "value_getter \<Rightarrow> string \<Rightarrow> int list" where
  "val_Uint64List g key = parsed (parse_uint 64) (val_StringList g key)"

definition val_StringMap :: "(string \<Rightarrow> smap option) \<Rightarrow> value_getter \<Rightarrow> string \<Rightarrow> smap" where
  "val_StringMap unmarshal g key = (case unmarshal (val_String g key) of Some v \<Rightarrow> v | None \<Rightarrow> [])"

section \<open>Lemmas\<close>

lemma in_parsed: "x \<in> set (parsed p ss) \<longleftrightarrow> (\<exists>s \<in> set ss. p s = Some x)"
  by (induction ss) (auto split: option.splits)

lemma or_zero_int_range: "or_zero (parse_int 64 s) \<in> {- (2 ^ 63) ..< 2 ^ 63}"
  using parse_int_bounds [of 64 s] by (auto simp: or_zero_def split: option.splits)

lemma or_zero_uint_range: "or_zero (parse_uint 64 s) \<in> {0 ..< 2 ^ 64}"
  using parse_uint_bounds [of 64 s] by (auto simp: or_zero_def split: option.splits)

definition plain_item :: "string \<Rightarrow> bool" where
  "plain_item s \<longleftrightarrow> s \<noteq> [] \<and> CHR '','' \<notin> set s \<and> trim_space s = s"

lemma trim_space_pad:
  assumes "\<not> is_space (hd s)" and "\<not> is_space (last s)" and "s \<noteq> []" and "list_all is_space l" and "list_all is_space r"
  shows "trim_space (l @ s @ r) = s"
proof -
  have dw: "dropWhile is_space (xs @ ys) = ys" if "list_all is_space xs" "ys = [] \<or> \<not> is_space (hd ys)" for xs ys
    using that by (induction xs) (auto intro: dropWhile_eq_self_iff [THEN iffD2])
  have "dropWhile is_space (l @ s @ r) = s @ r"
    using dw [of l "s @ r"] assms(1,3,4) by simp
  moreover have "dropWhile is_space (rev r @ rev s) = rev s"
    using dw [of "rev r" "rev s"] assms(2,3,5) by (simp add: hd_rev list_all_iff)
  ultimately show ?thesis by (simp add: trim_space_def)
qed

section \<open>Properties\<close>

text \<open>
  Integer readers stay in range. Every integer reader answers within the range of its Go type,
  on every text: a text that is no number or does not fit reads as 0, and is left out of a list.
\<close>

theorem integer_readers_in_range:
  "val_Int g k \<in> {- (2 ^ 63) ..< 2 ^ 63} \<and> val_Uint g k \<in> {0 ..< 2 ^ 64} \<and>
   set (val_IntList g k) \<subseteq> {- (2 ^ 63) ..< 2 ^ 63} \<and> set (val_UintList g k) \<subseteq> {0 ..< 2 ^ 64} \<and>
   length (val_IntList g k) \<le> length (val_StringList g k)"
proof -
  have "length (parsed p ss) \<le> length ss" for p :: "string \<Rightarrow> int option" and ss
    by (induction ss) (auto split: option.splits)
  moreover have "set (val_IntList g k) \<subseteq> {- (2 ^ 63) ..< 2 ^ 63}"
    using parse_int_bounds [of 64] by (fastforce simp: val_IntList_def in_parsed)
  moreover have "set (val_UintList g k) \<subseteq> {0 ..< 2 ^ 64}"
    using parse_uint_bounds [of 64] by (fastforce simp: val_UintList_def in_parsed)
  ultimately show ?thesis
    using or_zero_int_range or_zero_uint_range by (auto simp: val_Int_def val_Uint_def val_IntList_def)
qed

text \<open>
  Lists round-trip. A list of items that are non-empty, free of commas and not padded, written
  with commas between them and any white space around each, reads back as the same list.
\<close>

theorem string_list_roundtrip:
  assumes "list_all plain_item xs" and "xs \<noteq> []" and "length ls = length xs" and "length rs = length xs"
    and "list_all (list_all is_space) ls" and "list_all (list_all is_space) rs"
    and "g key = (join '','' (map (\<lambda>(l, x, r). l @ x @ r) (zip ls (zip xs rs))), True)"
  shows "val_StringList g key = xs"
proof -
  let ?ws = "map (\<lambda>(l, x, r). l @ x @ r) (zip ls (zip xs rs))"
  have nosp: "CHR '','' \<notin> set l" if "list_all is_space l" for l
    using that by (induction l) (auto simp: is_space_def)
  have item: "\<not> is_space (hd x) \<and> \<not> is_space (last x)" if "plain_item x" for x
  proof -
    have x: "x \<noteq> []" and t: "rev (dropWhile is_space (rev (dropWhile is_space x))) = x"
      using that by (auto simp: plain_item_def trim_space_def)
    have "length (dropWhile is_space x) \<ge> length x"
      using t by (metis length_rev length_dropWhile_le)
    then have "takeWhile is_space x = []"
      using length_append [of "takeWhile is_space x" "dropWhile is_space x"] takeWhile_dropWhile_id [of is_space x] by simp
    then have "dropWhile is_space x = x"
      using takeWhile_dropWhile_id [of is_space x] by simp
    then have a: "\<not> is_space (hd x)" using x by (simp add: dropWhile_eq_self_iff)
    have "dropWhile is_space (rev x) = rev x" using t \<open>dropWhile is_space x = x\<close> by (metis rev_rev_ident)
    then have "\<not> is_space (hd (rev x))" using x by (simp add: dropWhile_eq_self_iff)
    with a x show ?thesis by (simp add: hd_rev)
  qed
  have split: "split_char CHR '','' (join [CHR '',''] ?ws) = ?ws"
  proof (rule split_char_join)
    show "?ws \<noteq> []" using assms(2-4) by auto
    fix w assume "w \<in> set ?ws"
    then show "CHR '','' \<notin> set w"
    proof -
      obtain l x r where w: "w = l @ x @ r" and "(l, x, r) \<in> set (zip ls (zip xs rs))"
        using \<open>w \<in> set ?ws\<close> by auto
      then have "l \<in> set ls" and "x \<in> set xs" and "r \<in> set rs"
        by (auto dest: set_zip_leftD set_zip_rightD)
      then show ?thesis
        using assms(1,5,6) nosp w by (simp add: list_all_iff plain_item_def)
    qed
  qed
  have "map trim_space ?ws = xs"
  proof (rule nth_equalityI)
    fix i assume "i < length (map trim_space ?ws)"
    then show "map trim_space ?ws ! i = xs ! i"
      using assms(1,3-6) item trim_space_pad [of "xs ! i" "ls ! i" "rs ! i"]
      by (simp add: list_all_length plain_item_def)
  qed (use assms(3,4) in simp)
  moreover have "filter (\<lambda>sv. length sv \<noteq> 0) xs = xs"
    using assms(1) by (auto simp: filter_id_conv list_all_iff plain_item_def)
  ultimately show ?thesis
    using split assms(7) by (simp add: val_StringList_def val_String_def)
qed

theorem string_list_roundtrip_witness:
  "val_StringList (\<lambda>_. ('' a,b b ,c'', True)) ''k'' = [''a'', ''b b'', ''c'']"
proof (rule string_list_roundtrip [where ls = "['' '', '''', '''']" and rs = "['''', '' '', '''']"])
  show "list_all plain_item [''a'', ''b b'', ''c'']" by code_simp
  show "list_all (list_all is_space) ['' '', '''', '''']" by code_simp
  show "list_all (list_all is_space) ['''', '' '', '''']" by code_simp
qed simp_all

end
