(* ===== verification/Encrypt.thy ===== *)
theory Encrypt
  imports Config_Filter
begin

text \<open>
  Encrypted configuration values, \<^verbatim>\<open>lib/encrypt.go\<close>. A byte slice is a list of characters, as a
  string is. The block cipher of \<^verbatim>\<open>crypto/aes\<close> and HMAC-SHA256 are arguments: \<open>enc key block\<close>,
  \<open>dec key block\<close> and \<open>mac key data\<close>; padding, the loop over the blocks, the base64 text and the
  layout of the message are the code's and are modelled. The laws of the primitives (a block cipher
  is inverted by its decryption and keeps the block size, a digest has 32 bytes) are the premises of
  the round trip.
\<close>

datatype crypt_error = BadBase64 | EmptyMessage | KeySize | NotFullBlocks | BadPadding | BadSignature

type_synonym cipher = "string \<Rightarrow> string \<Rightarrow> string"

section \<open>Package base64\<close>

text \<open>\<open>base64.StdEncoding\<close>: the standard alphabet, padded; line breaks in the input are skipped.\<close>

definition b64_alphabet :: string where
  "b64_alphabet = ''ABCDEFGHIJKLMNOPQRSTUVWXYZabcdefghijklmnopqrstuvwxyz0123456789+/''"

definition b64_char :: "nat \<Rightarrow> char" where
  "b64_char n = b64_alphabet ! n"

definition b64_val :: "char \<Rightarrow> nat option" where
  "b64_val c = map_of (zip b64_alphabet [0..<64]) c"

definition byte :: "nat \<Rightarrow> char" where
  "byte n = char_of (n mod 256)"

fun b64_encode :: "string \<Rightarrow> string" where
  "b64_encode [] = []"
| "b64_encode [a] =
     (let v = of_char a * 65536
      in [b64_char (v div 262144), b64_char (v div 4096 mod 64), CHR ''='', CHR ''=''])"
| "b64_encode [a, b] =
     (let v = of_char a * 65536 + of_char b * 256
      in [b64_char (v div 262144), b64_char (v div 4096 mod 64), b64_char (v div 64 mod 64), CHR ''=''])"
| "b64_encode (a # b # c # s) =
     (let v = of_char a * 65536 + of_char b * 256 + of_char c
      in [b64_char (v div 262144), b64_char (v div 4096 mod 64), b64_char (v div 64 mod 64), b64_char (v mod 64)]
         @ b64_encode s)"

fun b64_quanta :: "string \<Rightarrow> string option" where
  "b64_quanta [] = Some []"
| "b64_quanta (w # x # y # z # s) =
     (case (b64_val w, b64_val x) of
        (Some a, Some b) \<Rightarrow>
          if y = CHR ''='' then
            (if z = CHR ''='' \<and> s = [] then Some [byte ((a * 262144 + b * 4096) div 65536)] else None)
          else (case b64_val y of
                  None \<Rightarrow> None
                | Some c \<Rightarrow>
                    if z = CHR ''='' then
                      (let v = a * 262144 + b * 4096 + c * 64
                       in if s = [] then Some [byte (v div 65536), byte (v div 256)] else None)
                    else (case (b64_val z, b64_quanta s) of
                            (Some d, Some r) \<Rightarrow>
                              (let v = a * 262144 + b * 4096 + c * 64 + d
                               in Some ([byte (v div 65536), byte (v div 256), byte v] @ r))
                          | _ \<Rightarrow> None))
      | _ \<Rightarrow> None)"
| "b64_quanta _ = None"

definition b64_decode :: "string \<Rightarrow> string option" where
  "b64_decode s = b64_quanta (filter (\<lambda>c. (of_char c :: nat) \<noteq> 10 \<and> (of_char c :: nat) \<noteq> 13) s)"

section \<open>The cipher\<close>

definition BlockSize :: nat where
  "BlockSize = 16"

definition pad :: "string \<Rightarrow> string" where
  "pad data = (let paddingLen = BlockSize - length data mod BlockSize
               in data @ replicate paddingLen (byte paddingLen))"

text \<open>The loop over the blocks.\<close>

function each_block :: "(string \<Rightarrow> string) \<Rightarrow> string \<Rightarrow> string" where
  "each_block f data =
     (if data = [] then [] else f (take BlockSize data) @ each_block f (drop BlockSize data))"
  by auto
termination by (relation "measure (length \<circ> snd)") (auto simp: BlockSize_def)

declare each_block.simps [simp del]

definition valid_key_size :: "string \<Rightarrow> bool" where
  "valid_key_size key \<longleftrightarrow> length key \<in> {16, 24, 32}"

definition aesEncrypt :: "cipher \<Rightarrow> string \<Rightarrow> string \<Rightarrow> crypt_error + string" where
  "aesEncrypt enc key data =
     (if \<not> valid_key_size key then Inl KeySize else Inr (each_block (enc key) (pad data)))"

text \<open>A slice bound below zero panics; the deferred function turns the panic into an error.\<close>

definition aesDecrypt :: "cipher \<Rightarrow> string \<Rightarrow> string \<Rightarrow> crypt_error + string" where
  "aesDecrypt dec key data =
     (if \<not> valid_key_size key then Inl KeySize
      else if length data mod BlockSize \<noteq> 0 then Inl NotFullBlocks
      else if data = [] then Inr []
      else (let plain = each_block (dec key) data;
                paddingLen = of_char (last plain)
            in if length data < paddingLen then Inl BadPadding
               else Inr (take (length data - paddingLen) plain)))"

section \<open>Messages\<close>

definition Encrypt :: "cipher \<Rightarrow> cipher \<Rightarrow> string \<Rightarrow> string \<Rightarrow> crypt_error + string" where
  "Encrypt enc mac key data =
     (case aesEncrypt enc key data of
        Inl e \<Rightarrow> Inl e
      | Inr encrypted \<Rightarrow> Inr (EncryptedPrefix @ b64_encode (mac key data @ encrypted)))"

definition Decrypt :: "cipher \<Rightarrow> cipher \<Rightarrow> string \<Rightarrow> string \<Rightarrow> crypt_error + string" where
  "Decrypt dec mac key data =
     (if \<not> has_prefix data EncryptedPrefix then Inr data
      else (case b64_decode (drop (length EncryptedPrefix) data) of
              None \<Rightarrow> Inl BadBase64
            | Some binaryData \<Rightarrow>
                if binaryData = [] then Inl EmptyMessage
                else (let sign = take 32 binaryData @ replicate (32 - length binaryData) (byte 0)
                      in case aesDecrypt dec key (drop 32 binaryData) of
                           Inl e \<Rightarrow> Inl e
                         | Inr plain \<Rightarrow>
                             if mac key plain \<noteq> sign then Inl BadSignature else Inr plain)))"

section \<open>Base64 is invertible\<close>

lemma b64_val_char_all: "list_all (\<lambda>n. b64_val (b64_char n) = Some n \<and> b64_char n \<noteq> CHR ''=''
    \<and> (of_char (b64_char n) :: nat) \<noteq> 10 \<and> (of_char (b64_char n) :: nat) \<noteq> 13) [0..<64]"
  by code_simp

lemma b64_char_facts [simp]:
  assumes "n < 64"
  shows "b64_val (b64_char n) = Some n" and "b64_char n \<noteq> CHR ''=''"
    and "(of_char (b64_char n) :: nat) \<noteq> 10" and "(of_char (b64_char n) :: nat) \<noteq> 13"
  using b64_val_char_all assms by (simp_all add: list_all_iff)

lemma byte_of_char [simp]: "byte (of_char c) = c"
  by (simp add: byte_def of_char_nat_less)

lemma byte_shift: "byte (n * 256 + m) = byte m" "byte (n * 65536 + m) = byte m"
proof -
  have "(n * 256 + m) mod 256 = m mod 256" by simp
  moreover have "(n * 65536 + m) mod 256 = m mod 256"
    using mod_mult_self3 [of "n * 256" 256 m] by (simp add: mult.assoc)
  ultimately show "byte (n * 256 + m) = byte m" and "byte (n * 65536 + m) = byte m" by (simp_all add: byte_def)
qed

lemma sextets: "v div 262144 * 262144 + v div 4096 mod 64 * 4096 + v div 64 mod 64 * 64 + v mod 64 = (v :: nat)"
proof -
  have "v div 4096 = v div 64 div 64" and "v div 262144 = v div 4096 div 64" by (simp_all add: div_mult2_eq [symmetric])
  then show ?thesis
    using div_mult_mod_eq [of v 64] div_mult_mod_eq [of "v div 64" 64] div_mult_mod_eq [of "v div 4096" 64]
    by linarith
qed

lemma sextets_three:
  "v = a * 65536 + b * 256 \<Longrightarrow> v div 262144 * 262144 + v div 4096 mod 64 * 4096 + v div 64 mod 64 * 64 = (v :: nat)"
proof -
  assume v: "v = a * 65536 + b * 256"
  have "v = (a * 1024 + b * 4) * 64" using v by simp
  then have "v mod 64 = 0" by (metis mod_mult_self2_is_0)
  then show ?thesis using sextets [of v] by simp
qed

lemma sextets_two: "(a * 65536) div 262144 * 262144 + (a * 65536) div 4096 mod 64 * 4096 = (a * 65536 :: nat)"
proof -
  have "(a * 65536) div 64 = (a * 16) * 64" by simp
  then have "(a * 65536) div 64 mod 64 = 0" by (metis mod_mult_self2_is_0)
  then show ?thesis using sextets_three [of "a * 65536" a 0] by simp
qed

lemma octets:
  assumes "b < 256" "c < 256"
  shows "(a * 65536 + b * 256 + c) div 65536 = (a :: nat)" and "(a * 65536 + b * 256 + c) div 256 = a * 256 + b"
proof -
  have e: "a * 65536 + b * 256 + c = c + (a * 256 + b) * 256" by simp
  show d: "(a * 65536 + b * 256 + c) div 256 = a * 256 + b" unfolding e using assms(2) by simp
  have "(a * 65536 + b * 256 + c) div 65536 = (a * 65536 + b * 256 + c) div 256 div 256"
    by (simp add: div_mult2_eq [symmetric])
  also have "\<dots> = a" unfolding d using assms(1) by simp
  finally show "(a * 65536 + b * 256 + c) div 65536 = a" .
qed

lemma byte_triple:
  fixes a b c :: char
  defines "v \<equiv> of_char a * 65536 + of_char b * 256 + (of_char c :: nat)"
  shows "byte (v div 65536) = a" and "byte (v div 256) = b" and "byte v = c" and "v div 262144 < 64"
proof -
  show "byte (v div 65536) = a" and "byte (v div 256) = b"
    unfolding v_def using octets [of "of_char b" "of_char c" "of_char a"] of_char_nat_less [of b] of_char_nat_less [of c]
    by (simp_all add: byte_shift)
  show "byte v = c" unfolding v_def by (simp add: byte_shift add.assoc)
  show "v div 262144 < 64"
    unfolding v_def using of_char_nat_less [of a] of_char_nat_less [of b] of_char_nat_less [of c] by linarith
qed

lemma b64_encode_no_break:
  "filter (\<lambda>c. (of_char c :: nat) \<noteq> 10 \<and> (of_char c :: nat) \<noteq> 13) (b64_encode s) = b64_encode s"
proof (induction s rule: b64_encode.induct)
  case (2 a)
  then show ?case using byte_triple(4) [of a "CHR 0x00" "CHR 0x00"] by (simp add: Let_def)
next
  case (3 a b)
  then show ?case using byte_triple(4) [of a b "CHR 0x00"] by (simp add: Let_def)
next
  case (4 a b c s)
  then show ?case using byte_triple(4) [of a b c] by (simp add: Let_def)
qed simp

lemma b64_quanta_encode: "b64_quanta (b64_encode s) = Some s"
proof (induction s rule: b64_encode.induct)
  case (2 a)
  then show ?case
    using byte_triple [of a "CHR 0x00" "CHR 0x00"] sextets_two [of "of_char a"] by (simp add: Let_def)
next
  case (3 a b)
  then show ?case
    using byte_triple [of a b "CHR 0x00"] sextets_three [OF refl, of "of_char a" "of_char b"] by (simp add: Let_def)
next
  case (4 a b c s)
  then show ?case
    using byte_triple [of a b c] sextets by (simp add: Let_def)
qed simp

lemma b64_roundtrip [simp]: "b64_decode (b64_encode s) = Some s"
  by (simp add: b64_decode_def b64_encode_no_break b64_quanta_encode)

section \<open>Blocks and padding\<close>

definition block_inverse :: "cipher \<Rightarrow> cipher \<Rightarrow> bool" where
  "block_inverse enc dec \<longleftrightarrow>
     (\<forall>key b. length b = BlockSize \<longrightarrow> length (enc key b) = BlockSize \<and> dec key (enc key b) = b)"

lemma each_block_Nil [simp]: "each_block f [] = []"
  by (simp add: each_block.simps)

lemma each_block_Cons: "length b = BlockSize \<Longrightarrow> each_block f (b @ s) = f b @ each_block f s"
  by (subst each_block.simps) (auto simp: BlockSize_def)

lemma full_blocks_induct [consumes 1, case_names Nil Block]:
  assumes "length data mod BlockSize = 0" and "P []"
    and "\<And>b s. length b = BlockSize \<Longrightarrow> length s mod BlockSize = 0 \<Longrightarrow> P s \<Longrightarrow> P (b @ s)"
  shows "P data"
  using assms(1)
proof (induction data rule: length_induct)
  case (1 data)
  show ?case
  proof (cases "data = []")
    case False
    then have "BlockSize \<le> length data" using 1(2) by (metis leI length_0_conv mod_less)
    moreover from this have "length (drop BlockSize data) mod BlockSize = 0" using 1(2) by (simp add: le_mod_geq [symmetric])
    moreover have "length (drop BlockSize data) < length data" using False by (simp add: BlockSize_def)
    ultimately show ?thesis
      using 1(1) assms(3) [of "take BlockSize data" "drop BlockSize data"] by simp
  qed (use assms(2) in simp)
qed

lemma each_block_inverse:
  assumes "block_inverse enc dec" and "length data mod BlockSize = 0"
  shows "length (each_block (enc key) data) = length data \<and>
         each_block (dec key) (each_block (enc key) data) = data"
  using assms(2)
proof (induction data rule: full_blocks_induct)
  case (Block b s)
  then show ?case using assms(1) by (simp add: each_block_Cons block_inverse_def)
qed simp

lemma pad_facts:
  shows "length (pad s) mod BlockSize = 0" and "pad s \<noteq> []" and "of_char (last (pad s)) \<le> length (pad s)"
    and "take (length (pad s) - of_char (last (pad s))) (pad s) = s"
proof -
  define n where "n = BlockSize - length s mod BlockSize"
  have r: "length s mod BlockSize < BlockSize" by (simp add: BlockSize_def)
  then have n: "0 < n" "n \<le> 16" by (simp_all add: n_def BlockSize_def)
  have p: "pad s = s @ replicate n (byte n)" by (simp add: pad_def n_def Let_def)
  have last: "(of_char (last (pad s)) :: nat) = n" using n by (simp add: p byte_def)
  have "length (pad s) = (length s div BlockSize + 1) * BlockSize"
  proof -
    have "length (pad s) = length s + (BlockSize - length s mod BlockSize)" by (simp add: p n_def)
    moreover have "length s = length s div BlockSize * BlockSize + length s mod BlockSize" by simp
    moreover have "(length s div BlockSize + 1) * BlockSize = length s div BlockSize * BlockSize + BlockSize" by simp
    ultimately show ?thesis using r by linarith
  qed
  then show "length (pad s) mod BlockSize = 0" by simp
  show "pad s \<noteq> []" using n by (simp add: p)
  show "of_char (last (pad s)) \<le> length (pad s)" unfolding last by (simp add: p)
  show "take (length (pad s) - of_char (last (pad s))) (pad s) = s" unfolding last by (simp add: p)
qed

lemma aes_roundtrip:
  assumes "block_inverse enc dec" and "valid_key_size key" and "aesEncrypt enc key s = Inr c"
  shows "aesDecrypt dec key c = Inr s"
proof -
  have c: "c = each_block (enc key) (pad s)" using assms(2,3) by (simp add: aesEncrypt_def)
  have "length c = length (pad s)" and "each_block (dec key) c = pad s"
    using each_block_inverse [OF assms(1) pad_facts(1)] by (simp_all add: c)
  moreover have "c \<noteq> []" using calculation(1) pad_facts(2) [of s] by auto
  ultimately show ?thesis
    using pad_facts [of s] assms(2) by (simp add: aesDecrypt_def Let_def)
qed

lemma message_roundtrip:
  assumes "block_inverse enc dec" and "\<And>k d. length (mac k d) = 32" and "length key = 16"
  shows "\<exists>c. Encrypt enc mac key s = Inr (EncryptedPrefix @ c) \<and>
           Decrypt dec mac key (EncryptedPrefix @ c) = Inr s"
proof -
  have k: "valid_key_size key" using assms(3) by (simp add: valid_key_size_def)
  then obtain e where e: "aesEncrypt enc key s = Inr e" by (simp add: aesEncrypt_def)
  have "Decrypt dec mac key (EncryptedPrefix @ b64_encode (mac key s @ e)) = Inr s"
    using aes_roundtrip [OF assms(1) k e] assms(2) [of key s]
    by (cases "mac key s") (auto simp: Decrypt_def Let_def)
  with e show ?thesis by (simp add: Encrypt_def)
qed

section \<open>Properties\<close>

text \<open>
  C26 (round trip). Under a 16-byte key \<open>Encrypt\<close> succeeds on every text, and \<open>Decrypt\<close> under the same
  key gives the text back. The block cipher and the MAC are those of the Go library: decryption of a
  block inverts encryption and the MAC has 32 bytes.
\<close>

theorem decrypt_encrypt:
  assumes "block_inverse enc dec" and "\<And>k d. length (mac k d) = 32" and "length key = 16"
  shows "\<exists>c. Encrypt enc mac key s = Inr c \<and> has_prefix c EncryptedPrefix \<and> Decrypt dec mac key c = Inr s"
  using message_roundtrip [where mac = mac, OF assms] has_prefix_append by blast

text \<open>A cipher for the witnesses.\<close>

definition xor_block :: cipher where
  "xor_block key b = map (\<lambda>c. char_of (255 - of_char c :: nat)) b"

lemma xor_block_inverse: "block_inverse xor_block xor_block"
proof -
  have "char_of (255 - of_char (char_of (255 - of_char c :: nat)) :: nat) = c" for c :: char
  proof -
    have "(255 - of_char c :: nat) mod 256 = 255 - of_char c" by simp
    then have "(of_char (char_of (255 - of_char c :: nat)) :: nat) = 255 - of_char c" by simp
    moreover have "255 - (255 - of_char c) = (of_char c :: nat)" using of_char_nat_less [of c] by linarith
    ultimately show ?thesis by simp
  qed
  then show ?thesis by (simp add: block_inverse_def xor_block_def comp_def)
qed

theorem decrypt_encrypt_witness:
  "\<exists>c. Encrypt xor_block (\<lambda>_ _. replicate 32 CHR ''m'') (replicate 16 CHR ''k'') ''secret'' = Inr c \<and>
       has_prefix c EncryptedPrefix \<and>
       Decrypt xor_block (\<lambda>_ _. replicate 32 CHR ''m'') (replicate 16 CHR ''k'') c = Inr ''secret''"
  by (rule decrypt_encrypt [OF xor_block_inverse]) simp_all

text \<open>
  Authenticity. Whatever \<open>Decrypt\<close> accepts under the prefix carries, in its first 32 bytes, the
  MAC of the text it returns: a wrong key or an altered message gives an error or a MAC collision,
  never an unauthenticated text. A message whose signed part is shorter than 32 bytes is compared
  with the missing bytes as zeros.
\<close>

theorem decrypt_authentic:
  assumes "has_prefix d EncryptedPrefix" and "Decrypt dec mac key d = Inr p"
  shows "\<exists>bin. b64_decode (drop (length EncryptedPrefix) d) = Some bin \<and> bin \<noteq> [] \<and>
           mac key p = take 32 bin @ replicate (32 - length bin) (byte 0) \<and>
           aesDecrypt dec key (drop 32 bin) = Inr p"
  using assms by (auto simp: Decrypt_def Let_def split: option.splits sum.splits if_splits)

theorem decrypt_authentic_witness:
  "let m = (\<lambda>_ _. replicate 32 CHR ''m''); key = replicate 16 CHR ''k'' in
   \<exists>c bin. b64_decode (drop (length EncryptedPrefix) (EncryptedPrefix @ c)) = Some bin \<and> bin \<noteq> [] \<and>
     m key ''secret'' = take 32 bin @ replicate (32 - length bin) (byte 0) \<and>
     aesDecrypt xor_block key (drop 32 bin) = Inr ''secret''"
proof -
  let ?m = "\<lambda>(_ :: string) (_ :: string). replicate 32 CHR ''m''"
  let ?key = "replicate 16 CHR ''k''"
  obtain c where "Decrypt xor_block ?m ?key (EncryptedPrefix @ c) = Inr ''secret''"
    using message_roundtrip [OF xor_block_inverse, of ?m ?key "''secret''"] by auto
  from decrypt_authentic [OF has_prefix_append this] show ?thesis unfolding Let_def by (rule exI [of _ c])
qed

end
