(* ===== verification/Config_View.thy ===== *)
theory Config_View
  imports Config_Value Encrypt
begin

text \<open>
  The views of a configuration, \<^verbatim>\<open>config/internal/view.go\<close>: a view is a prefix, a list of
  namespaces and a list of keys over a shared source, and hands out further views, which it caches
  by an id. Views are shared objects: they live in a list and are named by their position, and the
  source they share is part of the world. A view watches its source, so the watchers of the source
  are views; the watchers of a view are of any type. \<open>md5\<close> is \<open>md5.Sum\<close>; \<open>aps\<close> holds, for each
  source of the configuration, its \<open>AppendPrefix\<close>.
\<close>

record 'w view =
  vw_filter :: "string filter_state"
  vw_prefix :: string
  vw_ns :: "string list"
  vw_password :: "string list"
  vw_notifier :: "'w notifier"
  vw_once :: bool
  vw_viewCache :: "(string \<times> nat) list"

record 'w world =
  wd_views :: "'w view list"
  wd_source :: "nat config_impl"

type_synonym appenders = "(string list \<Rightarrow> config_error option) list"

section \<open>Operations\<close>

definition hex_digit :: "nat \<Rightarrow> char" where
  "hex_digit n = ''0123456789abcdef'' ! n"

text \<open>\<open>hex.EncodeToString\<close>.\<close>

definition hex_encode :: "string \<Rightarrow> string" where
  "hex_encode s = concat (map (\<lambda>c. [hex_digit (of_char c div 16), hex_digit (of_char c mod 16)]) s)"

definition viewId :: "string \<Rightarrow> string list \<Rightarrow> string list \<Rightarrow> string" where
  "viewId prefix ns password = prefix @ '':'' @ join ''|'' ns @ concat (map hex_encode password)"

definition append_prefix :: "appenders \<Rightarrow> string list \<Rightarrow> 'w world \<Rightarrow> 'w world" where
  "append_prefix aps ns W =
     W\<lparr>wd_source := (wd_source W)\<lparr>ci_source := snd (ci_AppendPrefix (ci_source (wd_source W)) aps ns)\<rparr>\<rparr>"

text \<open>The object literal of \<open>NewConfigView\<close>: the field \<open>password\<close> is not among those it sets.\<close>

definition new_view :: "string \<Rightarrow> string list \<Rightarrow> string list \<Rightarrow> 'w view" where
  "new_view prefix lowerNs password =
     \<lparr>vw_filter = NewFilter prefix lowerNs password, vw_prefix = prefix, vw_ns = lowerNs,
      vw_password = [], vw_notifier = NewNotifier [], vw_once = False, vw_viewCache = []\<rparr>"

definition NewConfigView ::
  "appenders \<Rightarrow> string \<Rightarrow> string list \<Rightarrow> string list \<Rightarrow> 'w world \<Rightarrow> nat \<times> 'w world" where
  "NewConfigView aps prefix ns password W =
     (let lowerNs = map to_lower ns;
          W1 = (if length lowerNs \<noteq> 0 then append_prefix aps lowerNs W else W)
      in (length (wd_views W1), W1\<lparr>wd_views := wd_views W1 @ [new_view prefix lowerNs password]\<rparr>))"

definition set_view :: "nat \<Rightarrow> 'w view \<Rightarrow> 'w world \<Rightarrow> 'w world" where
  "set_view s v W = W\<lparr>wd_views := (wd_views W)[s := v]\<rparr>"

definition the_view :: "'w world \<Rightarrow> nat \<Rightarrow> 'w view" where
  "the_view W s = wd_views W ! s"

text \<open>\<open>s.viewCache[id] = view\<close>.\<close>

definition cache_view :: "nat \<Rightarrow> string \<Rightarrow> nat \<times> 'w world \<Rightarrow> nat \<times> 'w world" where
  "cache_view s vid r =
     (let (a, W) = r; v = the_view W s
      in (a, set_view s (v\<lparr>vw_viewCache := AList.update vid a (vw_viewCache v)\<rparr>) W))"

definition WithNamespace :: "appenders \<Rightarrow> nat \<Rightarrow> string list \<Rightarrow> 'w world \<Rightarrow> nat \<times> 'w world" where
  "WithNamespace aps s ns W =
     (let lowerNs = map to_lower ns;
          v = the_view W s;
          newNs = vw_ns v @ lowerNs;
          vid = viewId (vw_prefix v) newNs (vw_password v)
      in case mget (vw_viewCache v) vid of
           Some a \<Rightarrow> (a, W)
         | None \<Rightarrow>
             (let W1 = (if length lowerNs \<noteq> 0 then append_prefix aps lowerNs W else W)
              in cache_view s vid (NewConfigView aps (vw_prefix v) newNs (vw_password v) W1)))"

definition WithPrefix :: "appenders \<Rightarrow> nat \<Rightarrow> string \<Rightarrow> 'w world \<Rightarrow> nat \<times> 'w world" where
  "WithPrefix aps s prefix W =
     (let v = the_view W s;
          p = to_lower prefix;
          vid = viewId p (vw_ns v) (vw_password v)
      in case mget (vw_viewCache v) vid of
           Some a \<Rightarrow> (a, W)
         | None \<Rightarrow> cache_view s vid (NewConfigView aps p (vw_ns v) (vw_password v) W))"

definition WithPassword ::
  "(string \<Rightarrow> string) \<Rightarrow> appenders \<Rightarrow> nat \<Rightarrow> string list \<Rightarrow> 'w world \<Rightarrow> nat \<times> 'w world" where
  "WithPassword md5 aps s password W =
     (let v = the_view W s;
          newPassword = vw_password v @ map md5 (filter (\<lambda>p. p \<noteq> '''') password);
          vid = viewId (vw_prefix v) (vw_ns v) newPassword
      in case mget (vw_viewCache v) vid of
           Some a \<Rightarrow> (a, W)
         | None \<Rightarrow> cache_view s vid (NewConfigView aps (vw_prefix v) (vw_ns v) newPassword W))"

definition vw_Watch :: "nat \<Rightarrow> 'w \<Rightarrow> 'w world \<Rightarrow> 'w world" where
  "vw_Watch s w W =
     (let v = the_view W s;
          W1 = (if vw_once v then W else W\<lparr>wd_source := ci_Watch (wd_source W) s\<rparr>)
      in set_view s (v\<lparr>vw_once := True, vw_notifier := nt_Watch (vw_notifier v) w\<rparr>) W1)"

text \<open>\<open>s.cancel\<close> is set once the view has a watcher; it takes the view off the source's notifier.\<close>

definition vw_Close :: "nat \<Rightarrow> config_error option list \<Rightarrow> 'w world \<Rightarrow> config_error option \<times> 'w world" where
  "vw_Close s results W =
     (let c = wd_source W;
          c1 = (if vw_once (the_view W s) then c\<lparr>ci_notifier := nt_cancel (ci_notifier c) s\<rparr> else c);
          (e, c2) = ci_Close c1 results
      in (e, W\<lparr>wd_source := c2\<rparr>))"

definition vw_OnUpdate ::
  "(string \<Rightarrow> string \<Rightarrow> string option) \<Rightarrow> string \<Rightarrow> nat \<Rightarrow> smap \<Rightarrow> 'w world \<Rightarrow> 'w calls \<times> 'w world" where
  "vw_OnUpdate dec builtin s val W =
     (let v = the_view W s
      in if nt_Size (vw_notifier v) = 0 then ([], W)
         else (let (result, f) = FilterUpdate dec builtin (ci_Get (wd_source W)) (vw_filter v) val
               in (if length result > 0 then nt_OnUpdate (vw_notifier v) result else [],
                   set_view s (v\<lparr>vw_filter := f\<rparr>) W)))"

definition vw_OnDelete ::
  "(string \<Rightarrow> string \<Rightarrow> string option) \<Rightarrow> string \<Rightarrow> nat \<Rightarrow> string list \<Rightarrow> 'w world \<Rightarrow> 'w calls \<times> 'w world" where
  "vw_OnDelete dec builtin s val W =
     (let v = the_view W s
      in if nt_Size (vw_notifier v) = 0 then ([], W)
         else (let ((un, dn), f) = FilterDelete dec builtin (ci_Get (wd_source W)) (vw_filter v) val
               in ((if length un > 0 then nt_OnUpdate (vw_notifier v) un else []) @
                   (if length dn > 0 then nt_OnDelete (vw_notifier v) dn else []),
                   set_view s (v\<lparr>vw_filter := f\<rparr>) W)))"

text \<open>\<open>View.Get\<close>, through the embedded \<open>Value\<close>.\<close>

definition vw_Get ::
  "(string \<Rightarrow> string \<Rightarrow> string option) \<Rightarrow> string \<Rightarrow> nat \<Rightarrow> string \<Rightarrow> 'w world \<Rightarrow> (string \<times> bool) \<times> 'w world" where
  "vw_Get dec builtin s key W =
     (let v = the_view W s;
          (r, f) = fl_Get dec builtin (ci_Get (wd_source W)) (vw_filter v) key
      in (r, set_view s (v\<lparr>vw_filter := f\<rparr>) W))"

section \<open>What every reachable world keeps\<close>

text \<open>
  The steps: the operations on any view there is, and changes of the source. \<open>A\<close> gives the parameters
  \<open>md5\<close>, \<open>dec\<close> and the built-in key.
\<close>

record crypto =
  cr_md5 :: "string \<Rightarrow> string"
  cr_dec :: "string \<Rightarrow> string \<Rightarrow> string option"
  cr_builtin :: string

inductive view_step :: "crypto \<Rightarrow> 'w world \<Rightarrow> 'w world \<Rightarrow> bool" for A where
  Root: "view_step A W (snd (NewConfigView aps prefix ns password W))"
| Namespace: "s < length (wd_views W) \<Longrightarrow> view_step A W (snd (WithNamespace aps s ns W))"
| Prefix: "s < length (wd_views W) \<Longrightarrow> view_step A W (snd (WithPrefix aps s prefix W))"
| Password: "s < length (wd_views W) \<Longrightarrow> view_step A W (snd (WithPassword (cr_md5 A) aps s ps W))"
| Watch: "s < length (wd_views W) \<Longrightarrow> view_step A W (vw_Watch s w W)"
| Close: "s < length (wd_views W) \<Longrightarrow> view_step A W (snd (vw_Close s results W))"
| Update: "s < length (wd_views W) \<Longrightarrow> view_step A W (snd (vw_OnUpdate (cr_dec A) (cr_builtin A) s val W))"
| Delete: "s < length (wd_views W) \<Longrightarrow> view_step A W (snd (vw_OnDelete (cr_dec A) (cr_builtin A) s ks W))"
| Read: "s < length (wd_views W) \<Longrightarrow> view_step A W (snd (vw_Get (cr_dec A) (cr_builtin A) s key W))"
| Source: "view_step A W (W\<lparr>wd_source := c\<rparr>)"

definition empty_world :: "nat config_impl \<Rightarrow> 'w world" where
  "empty_world c = \<lparr>wd_views = [], wd_source = c\<rparr>"

definition reachable :: "crypto \<Rightarrow> 'w world \<Rightarrow> bool" where
  "reachable A W \<longleftrightarrow> (\<exists>c. (view_step A)\<^sup>*\<^sup>* (empty_world c) W)"

text \<open>
  The identity of a view, which no operation changes: its prefix, its namespaces and the keys of its
  filter. The filter is the one \<open>NewFilter\<close> made for them, up to its memo of decrypted values.
\<close>

definition ident :: "'w view \<Rightarrow> string \<times> string list \<times> string list" where
  "ident v = (vw_prefix v, vw_ns v, fl_password (vw_filter v))"

definition same_filter :: "'p filter_state \<Rightarrow> 'p filter_state \<Rightarrow> bool" where
  "same_filter f g \<longleftrightarrow> (\<exists>d. f = g\<lparr>fl_decrypted := d\<rparr>)"

definition view_ok :: "crypto \<Rightarrow> 'w view \<Rightarrow> bool" where
  "view_ok A v \<longleftrightarrow> vw_password v = [] \<and> fl_inv (cr_dec A) (cr_builtin A) (vw_filter v) \<and>
     same_filter (vw_filter v) (NewFilter (vw_prefix v) (vw_ns v) (fl_password (vw_filter v)))"

definition id_of :: "'w view \<Rightarrow> string" where
  "id_of v = viewId (vw_prefix v) (vw_ns v) (fl_password (vw_filter v))"

definition cache_ok :: "'w view list \<Rightarrow> 'w view \<Rightarrow> bool" where
  "cache_ok vs v \<longleftrightarrow> (\<forall>i a. mget (vw_viewCache v) i = Some a \<longrightarrow> a < length vs \<and> id_of (vs ! a) = i)"

definition world_ok :: "crypto \<Rightarrow> 'w world \<Rightarrow> bool" where
  "world_ok A W \<longleftrightarrow> (\<forall>v \<in> set (wd_views W). view_ok A v \<and> cache_ok (wd_views W) v \<and> map to_lower (vw_ns v) = vw_ns v)"

lemma same_filter_refl [simp]: "same_filter f f"
  unfolding same_filter_def by (rule exI [of _ "fl_decrypted f"]) simp

lemma same_filter_trans: "same_filter f g \<Longrightarrow> same_filter g h \<Longrightarrow> same_filter f h"
  by (auto simp: same_filter_def)

lemma same_filter_fields:
  assumes "same_filter f g"
  shows "fl_password f = fl_password g" and "namespace f = namespace g" and "getPrefix f n = getPrefix g n"
  using assms by (auto simp: same_filter_def namespace_def getPrefix_def)

subsection \<open>The filter's operations keep it the same filter\<close>

lemma fl_decrypt_same:
  "fl_inv dec builtin f \<Longrightarrow> same_filter (snd (fl_decrypt dec builtin f v)) f \<and> fl_inv dec builtin (snd (fl_decrypt dec builtin f v))"
  using fl_decrypt_correct(2,3) [of dec builtin f v] by (auto simp: same_filter_def)

lemma fl_Get_same:
  "fl_inv dec builtin f \<Longrightarrow> same_filter (snd (fl_Get dec builtin get f k)) f \<and> fl_inv dec builtin (snd (fl_Get dec builtin get f k))"
  using fl_decrypt_same [of dec builtin f] by (simp add: fl_Get_def Let_def case_prod_beta)

lemma fl_Get_memo_free:
  assumes "same_filter f g" and "fl_inv dec builtin f" and "fl_inv dec builtin g"
  shows "fst (fl_Get dec builtin get f k) = fst (fl_Get dec builtin get g k)"
  using same_filter_fields [OF assms(1)] fl_decrypt_correct(1) [OF assms(2)] fl_decrypt_correct(1) [OF assms(3)]
  by (simp add: fl_Get_fst Let_def)

lemma filter_update_same:
  "fl_inv dec builtin f \<Longrightarrow> same_filter (snd (filter_update dec builtin get f kvs r)) f \<and>
     fl_inv dec builtin (snd (filter_update dec builtin get f kvs r))"
proof (induction kvs arbitrary: f r)
  case (Cons kv kvs)
  obtain k0 v where kv: "kv = (k0, v)" by (cases kv)
  show ?case
  proof (cases "strip_ns f (rev (namespace f)) k0")
    case None
    then show ?thesis using Cons by (simp add: kv)
  next
    case (Some k)
    define f1 where "f1 = snd (fl_decrypt dec builtin f v)"
    define f2 where "f2 = snd (fl_Get dec builtin get f1 k)"
    have 1: "same_filter f1 f" "fl_inv dec builtin f1" using fl_decrypt_same [OF Cons.prems] by (simp_all add: f1_def)
    then have 2: "same_filter f2 f" "fl_inv dec builtin f2"
      using fl_Get_same [OF 1(2), of get k] same_filter_trans by (auto simp: f2_def)
    then show ?thesis
      using Cons.IH [OF 2(2)] same_filter_trans Some
      by (auto simp: kv Let_def case_prod_beta f1_def [symmetric] f2_def [symmetric])
  qed
qed simp

lemma filter_delete_same:
  "fl_inv dec builtin f \<Longrightarrow> same_filter (snd (filter_delete dec builtin get f ks un dn)) f \<and>
     fl_inv dec builtin (snd (filter_delete dec builtin get f ks un dn))"
proof (induction ks arbitrary: f un dn)
  case (Cons k0 ks)
  show ?case
  proof (cases "strip_ns f (rev (namespace f)) k0")
    case (Some k)
    define f1 where "f1 = snd (fl_Get dec builtin get f k)"
    have "same_filter f1 f" "fl_inv dec builtin f1" using fl_Get_same [OF Cons.prems, of get k] by (simp_all add: f1_def)
    then show ?thesis
      using Cons.IH [of f1] Some
      by (auto simp: Let_def case_prod_beta f1_def [symmetric] intro: same_filter_trans [of _ f1 f])
  qed (use Cons in simp)
qed simp

subsection \<open>The invariant\<close>

lemma view_ok_new: "view_ok A (new_view prefix ns password)"
proof -
  have "fl_password (NewFilter prefix ns password) = password" by (simp add: NewFilter_def Let_def)
  then show ?thesis by (simp add: view_ok_def new_view_def NewFilter_inv)
qed

lemma id_of_new: "id_of (new_view prefix ns password) = viewId prefix ns password"
  by (simp add: id_of_def new_view_def NewFilter_def Let_def)

lemma cache_ok_mono:
  assumes "cache_ok vs v" and "length vs \<le> length ws" and "\<And>a. a < length vs \<Longrightarrow> id_of (ws ! a) = id_of (vs ! a)"
    and "vw_viewCache v' = vw_viewCache v"
  shows "cache_ok ws v'"
  using assms unfolding cache_ok_def by (metis order.strict_trans2)

text \<open>Replacing a view by one with the same identity and cache.\<close>

lemma world_ok_set_view:
  assumes "world_ok A W" and "s < length (wd_views W)" and "view_ok A v"
    and "ident v = ident (the_view W s)" and "vw_viewCache v = vw_viewCache (the_view W s)"
  shows "world_ok A (set_view s v W)"
proof -
  let ?vs = "wd_views W"
  have id: "id_of v = id_of (?vs ! s)" and ns: "vw_ns v = vw_ns (?vs ! s)"
    using assms(4) by (simp_all add: ident_def id_of_def the_view_def)
  have same: "id_of (?vs[s := v] ! a) = id_of (?vs ! a)" if "a < length ?vs" for a
    using id that by (cases "a = s") simp_all
  have s: "?vs ! s \<in> set ?vs" using assms(2) by simp
  have "view_ok A u \<and> cache_ok (?vs[s := v]) u \<and> map to_lower (vw_ns u) = vw_ns u" if "u \<in> set (?vs[s := v])" for u
  proof (cases "u = v")
    case True
    have "cache_ok ?vs (?vs ! s)" and "map to_lower (vw_ns (?vs ! s)) = vw_ns (?vs ! s)"
      using assms(1) s by (auto simp: world_ok_def)
    then show ?thesis
      using True assms(3,5) ns cache_ok_mono [OF _ _ same, of "?vs ! s" v] by (simp add: the_view_def)
  next
    case False
    then have "u \<in> set ?vs" using that set_update_subset_insert by fastforce
    then show ?thesis
      using assms(1) cache_ok_mono [OF _ _ same, of u u] by (simp add: world_ok_def)
  qed
  then show ?thesis by (simp add: world_ok_def set_view_def)
qed

lemma append_prefix_views [simp]: "wd_views (append_prefix aps ns W) = wd_views W"
  by (simp add: append_prefix_def)

lemma NewConfigView_views:
  "NewConfigView aps prefix ns password W = (a, W') \<Longrightarrow>
     a = length (wd_views W) \<and> wd_views W' = wd_views W @ [new_view prefix (map to_lower ns) password]"
  by (auto simp: NewConfigView_def Let_def)

lemma world_ok_new:
  assumes "world_ok A W" and "wd_views W' = wd_views W @ [new_view prefix (map to_lower ns) password]"
  shows "world_ok A W'"
proof -
  have "cache_ok (wd_views W') u" if "u \<in> set (wd_views W)" for u
    using assms that cache_ok_mono [of "wd_views W" u "wd_views W'" u] by (auto simp: world_ok_def nth_append)
  moreover have "cache_ok (wd_views W') (new_view prefix (map to_lower ns) password)"
    by (simp add: cache_ok_def new_view_def)
  ultimately show ?thesis
    using assms view_ok_new by (auto simp: world_ok_def new_view_def comp_def)
qed

lemma cache_view_ok:
  assumes "world_ok A W" and "s < length (wd_views W)"
    and "NewConfigView aps prefix ns password W = (a, W')" and "i = viewId prefix (map to_lower ns) password"
    and "cache_view s i (a, W') = r"
  shows "world_ok A (snd r)" and "fst r = length (wd_views W)" and "fst r < length (wd_views (snd r))"
    and "ident (the_view (snd r) (fst r)) = (prefix, map to_lower ns, password)"
    and "mget (vw_viewCache (the_view (snd r) s)) i = Some (fst r)"
    and "\<And>u. u < length (wd_views W) \<Longrightarrow> ident (the_view (snd r) u) = ident (the_view W u)"
proof -
  have a: "a = length (wd_views W)" and W': "wd_views W' = wd_views W @ [new_view prefix (map to_lower ns) password]"
    using NewConfigView_views [OF assms(3)] by auto
  define v where "v = (the_view W' s)\<lparr>vw_viewCache := AList.update i a (vw_viewCache (the_view W' s))\<rparr>"
  have r: "r = (a, set_view s v W')" using assms(5) by (simp add: cache_view_def v_def Let_def)
  have vs: "wd_views (snd r) = (wd_views W')[s := v]" by (simp add: r set_view_def)
  have ok: "world_ok A W'" using world_ok_new [OF assms(1) W'] .
  have lt: "s < length (wd_views W')" using assms(2) W' by simp
  have id: "id_of (wd_views (snd r) ! u) = id_of (wd_views W' ! u)" if "u < length (wd_views W')" for u
    using that lt by (cases "u = s") (simp_all add: vs v_def id_of_def the_view_def)
  have new: "id_of (wd_views W' ! a) = i" by (simp add: a W' nth_append id_of_new assms(4))
  have "view_ok A u \<and> cache_ok (wd_views (snd r)) u \<and> map to_lower (vw_ns u) = vw_ns u"
    if "u \<in> set (wd_views (snd r))" for u
  proof (cases "u = v")
    case True
    have w: "the_view W' s \<in> set (wd_views W')" using lt by (simp add: the_view_def)
    then have "cache_ok (wd_views (snd r)) (the_view W' s)"
      using ok cache_ok_mono [of "wd_views W'" _ "wd_views (snd r)" "the_view W' s"] id
      by (auto simp: world_ok_def vs)
    then have "cache_ok (wd_views (snd r)) v"
      using id [of a] new a W' by (auto simp: cache_ok_def v_def vs split: if_splits)
    then show ?thesis using ok w True by (auto simp: world_ok_def v_def view_ok_def)
  next
    case False
    then have "u \<in> set (wd_views W')" using that set_update_subset_insert vs by fastforce
    then show ?thesis
      using ok cache_ok_mono [of "wd_views W'" u "wd_views (snd r)" u] id by (auto simp: world_ok_def vs)
  qed
  then show "world_ok A (snd r)" by (simp add: world_ok_def)
  show "fst r = length (wd_views W)" by (simp add: r a)
  show "fst r < length (wd_views (snd r))" by (simp add: r a vs W' set_view_def)
  have "the_view (snd r) (fst r) = new_view prefix (map to_lower ns) password"
    using assms(2) by (simp add: r a W' the_view_def set_view_def nth_append)
  then show "ident (the_view (snd r) (fst r)) = (prefix, map to_lower ns, password)"
    by (simp add: ident_def new_view_def NewFilter_def Let_def)
  show "mget (vw_viewCache (the_view (snd r) s)) i = Some (fst r)"
    using lt by (simp add: r set_view_def the_view_def v_def)
  show "ident (the_view (snd r) u) = ident (the_view W u)" if "u < length (wd_views W)" for u
    using that lt by (cases "u = s") (simp_all add: r set_view_def the_view_def v_def W' nth_append ident_def)
qed

text \<open>The shape the three operations share: the cached view, or a new one that is cached.\<close>

definition lookup_or_new ::
  "appenders \<Rightarrow> nat \<Rightarrow> string \<Rightarrow> string list \<Rightarrow> string list \<Rightarrow> 'w world \<Rightarrow> 'w world \<Rightarrow> nat \<times> 'w world" where
  "lookup_or_new aps s prefix ns password W W1 =
     (case mget (vw_viewCache (the_view W s)) (viewId prefix ns password) of
        Some a \<Rightarrow> (a, W)
      | None \<Rightarrow> cache_view s (viewId prefix ns password) (NewConfigView aps prefix ns password W1))"

lemma world_ok_views: "wd_views W1 = wd_views W \<Longrightarrow> world_ok A W1 = world_ok A W"
  by (simp add: world_ok_def)

lemma lookup_or_new_ok:
  assumes "world_ok A W" and "s < length (wd_views W)" and "wd_views W1 = wd_views W" and "map to_lower ns = ns"
    and "lookup_or_new aps s prefix ns password W W1 = r"
  shows "world_ok A (snd r)" and "fst r < length (wd_views (snd r))"
    and "id_of (the_view (snd r) (fst r)) = viewId prefix ns password"
    and "mget (vw_viewCache (the_view (snd r) s)) (viewId prefix ns password) = Some (fst r)"
    and "\<And>u. u < length (wd_views W) \<Longrightarrow> ident (the_view (snd r) u) = ident (the_view W u)"
    and "length (wd_views W) \<le> length (wd_views (snd r))"
    and "mget (vw_viewCache (the_view W s)) (viewId prefix ns password) = None \<Longrightarrow>
           ident (the_view (snd r) (fst r)) = (prefix, ns, password)"
proof -
  let ?i = "viewId prefix ns password"
  have "world_ok A (snd r) \<and> fst r < length (wd_views (snd r)) \<and> id_of (the_view (snd r) (fst r)) = ?i \<and>
      mget (vw_viewCache (the_view (snd r) s)) ?i = Some (fst r) \<and> length (wd_views W) \<le> length (wd_views (snd r)) \<and>
      (\<forall>u < length (wd_views W). ident (the_view (snd r) u) = ident (the_view W u)) \<and>
      (mget (vw_viewCache (the_view W s)) ?i = None \<longrightarrow> ident (the_view (snd r) (fst r)) = (prefix, ns, password))"
  proof (cases "mget (vw_viewCache (the_view W s)) ?i")
    case (Some a)
    have "cache_ok (wd_views W) (the_view W s)" using assms(1,2) by (simp add: world_ok_def the_view_def)
    with Some assms(1,5) show ?thesis by (auto simp: lookup_or_new_def cache_ok_def the_view_def)
  next
    case None
    obtain a W' where n: "NewConfigView aps prefix ns password W1 = (a, W')" by (metis surj_pair)
    have r: "cache_view s ?i (a, W') = r" using assms(5) None n by (simp add: lookup_or_new_def)
    have W1: "world_ok A W1" "s < length (wd_views W1)" using assms(1-3) by (simp_all add: world_ok_def)
    note c = cache_view_ok [OF W1 n _ r]
    have "ident (the_view (snd r) (fst r)) = (prefix, ns, password)" using c(4) assms(4) by simp
    moreover from this have "id_of (the_view (snd r) (fst r)) = ?i" by (simp add: ident_def id_of_def)
    moreover have "the_view W1 u = the_view W u" for u by (simp add: the_view_def assms(3))
    moreover have "length (wd_views W) \<le> length (wd_views (snd r))" using c(2,3) assms(3,4) by simp
    ultimately show ?thesis using c(1,3,5,6) assms(3,4) by simp
  qed
  then show "world_ok A (snd r)" and "fst r < length (wd_views (snd r))"
    and "id_of (the_view (snd r) (fst r)) = ?i"
    and "mget (vw_viewCache (the_view (snd r) s)) ?i = Some (fst r)"
    and "\<And>u. u < length (wd_views W) \<Longrightarrow> ident (the_view (snd r) u) = ident (the_view W u)"
    and "length (wd_views W) \<le> length (wd_views (snd r))"
    and "mget (vw_viewCache (the_view W s)) ?i = None \<Longrightarrow> ident (the_view (snd r) (fst r)) = (prefix, ns, password)"
    by auto
qed

lemma With_as_lookup:
  "WithPrefix aps s prefix W =
     (let v = the_view W s in lookup_or_new aps s (to_lower prefix) (vw_ns v) (vw_password v) W W)"
  "WithNamespace aps s ns W =
     (let v = the_view W s; l = map to_lower ns
      in lookup_or_new aps s (vw_prefix v) (vw_ns v @ l) (vw_password v) W
           (if length l \<noteq> 0 then append_prefix aps l W else W))"
  "WithPassword md5 aps s ps W =
     (let v = the_view W s
      in lookup_or_new aps s (vw_prefix v) (vw_ns v)
           (vw_password v @ map md5 (filter (\<lambda>p. p \<noteq> '''') ps)) W W)"
  by (simp_all only: WithPrefix_def WithNamespace_def WithPassword_def lookup_or_new_def Let_def)

lemma world_ok_view:
  assumes "world_ok A W" and "s < length (wd_views W)"
  shows "view_ok A (the_view W s)" and "map to_lower (vw_ns (the_view W s)) = vw_ns (the_view W s)"
  using assms by (auto simp: world_ok_def the_view_def)

lemma map_to_lower_idem: "map to_lower (map to_lower ns) = map to_lower ns"
  by (simp add: comp_def)

lemma set_filter_ok:
  assumes "world_ok A W" and "s < length (wd_views W)"
    and "same_filter f (vw_filter (the_view W s))" and "fl_inv (cr_dec A) (cr_builtin A) f"
  shows "world_ok A (set_view s ((the_view W s)\<lparr>vw_filter := f\<rparr>) W)"
proof (rule world_ok_set_view [OF assms(1,2)])
  have p: "fl_password f = fl_password (vw_filter (the_view W s))" using same_filter_fields(1) [OF assms(3)] .
  then show "view_ok A ((the_view W s)\<lparr>vw_filter := f\<rparr>)"
    using world_ok_view(1) [OF assms(1,2)] same_filter_trans [OF assms(3)] assms(4) by (simp add: view_ok_def)
  show "ident ((the_view W s)\<lparr>vw_filter := f\<rparr>) = ident (the_view W s)" by (simp add: ident_def p)
qed simp

lemma view_step_ok:
  assumes "view_step A W W'" and "world_ok A W"
  shows "world_ok A W'"
  using assms(1)
proof cases
  case (Root aps prefix ns password)
  obtain a W1 where "NewConfigView aps prefix ns password W = (a, W1)" by (metis surj_pair)
  then show ?thesis using Root NewConfigView_views world_ok_new [OF assms(2)] by fastforce
next
  case (Namespace s aps ns)
  let ?v = "the_view W s" and ?l = "map to_lower ns"
  show ?thesis
    unfolding Namespace(1) With_as_lookup(2) Let_def
    by (rule lookup_or_new_ok(1) [OF assms(2) Namespace(2) _ _ refl])
      (simp_all add: world_ok_view(2) [OF assms(2) Namespace(2)])
next
  case (Prefix s aps prefix)
  then show ?thesis
    using lookup_or_new_ok(1) [OF assms(2) Prefix(2) refl world_ok_view(2) [OF assms(2) Prefix(2)] refl]
    by (simp add: With_as_lookup(1) Let_def)
next
  case (Password s aps ps)
  then show ?thesis
    using lookup_or_new_ok(1) [OF assms(2) Password(2) refl world_ok_view(2) [OF assms(2) Password(2)] refl]
    by (simp add: With_as_lookup(3) Let_def)
next
  case (Watch s w)
  have "world_ok A (W\<lparr>wd_source := c\<rparr>)" for c using assms(2) by (simp add: world_ok_def)
  then show ?thesis
    unfolding Watch(1) vw_Watch_def Let_def
    using assms(2) Watch(2) world_ok_view(1) [OF assms(2) Watch(2)]
    by (auto intro!: world_ok_set_view simp: the_view_def ident_def view_ok_def)
next
  case (Close s results)
  then show ?thesis using assms(2) by (simp add: vw_Close_def Let_def case_prod_beta world_ok_def)
next
  case (Update s val)
  have "fl_inv (cr_dec A) (cr_builtin A) (vw_filter (the_view W s))"
    using world_ok_view(1) [OF assms(2) Update(2)] by (simp add: view_ok_def)
  then show ?thesis
    using Update(1) assms(2) set_filter_ok [OF assms(2) Update(2) conjunct1 conjunct2, OF filter_update_same filter_update_same]
    by (auto simp: vw_OnUpdate_def Let_def case_prod_beta FilterUpdate_def split: if_splits)
next
  case (Delete s ks)
  have "fl_inv (cr_dec A) (cr_builtin A) (vw_filter (the_view W s))"
    using world_ok_view(1) [OF assms(2) Delete(2)] by (simp add: view_ok_def)
  then show ?thesis
    using Delete(1) assms(2) set_filter_ok [OF assms(2) Delete(2) conjunct1 conjunct2, OF filter_delete_same filter_delete_same]
    by (auto simp: vw_OnDelete_def Let_def case_prod_beta FilterDelete_def split: if_splits)
next
  case (Read s key)
  have "fl_inv (cr_dec A) (cr_builtin A) (vw_filter (the_view W s))"
    using world_ok_view(1) [OF assms(2) Read(2)] by (simp add: view_ok_def)
  then show ?thesis
    using Read(1) assms(2) set_filter_ok [OF assms(2) Read(2) conjunct1 conjunct2, OF fl_Get_same fl_Get_same]
    by (simp add: vw_Get_def Let_def case_prod_beta)
next
  case (Source c)
  then show ?thesis using assms(2) by (simp add: world_ok_def)
qed

lemma reachable_step: "reachable A W \<Longrightarrow> view_step A W W' \<Longrightarrow> reachable A W'"
  unfolding reachable_def by (meson rtranclp.rtrancl_into_rtrancl)

lemma reachable_ok: "reachable A W \<Longrightarrow> world_ok A W"
proof -
  assume "reachable A W"
  then obtain c where "(view_step A)\<^sup>*\<^sup>* (empty_world c) W" by (auto simp: reachable_def)
  then show ?thesis
    by (induction rule: rtranclp_induct) (auto simp: world_ok_def empty_world_def dest: view_step_ok)
qed

section \<open>Deriving a view\<close>

datatype derive_op = ByPrefix string | ByNamespace "string list" | ByPassword "string list"

fun derive :: "(string \<Rightarrow> string) \<Rightarrow> appenders \<Rightarrow> nat \<Rightarrow> derive_op \<Rightarrow> 'w world \<Rightarrow> nat \<times> 'w world" where
  "derive md5 aps s (ByPrefix p) W = WithPrefix aps s p W"
| "derive md5 aps s (ByNamespace ns) W = WithNamespace aps s ns W"
| "derive md5 aps s (ByPassword ps) W = WithPassword md5 aps s ps W"

text \<open>What a derived view should be: the identity of its parent with the one change asked for.\<close>

fun wanted :: "(string \<Rightarrow> string) \<Rightarrow> 'w view \<Rightarrow> derive_op \<Rightarrow> string \<times> string list \<times> string list" where
  "wanted md5 v (ByPrefix p) = (to_lower p, vw_ns v, vw_password v)"
| "wanted md5 v (ByNamespace ns) = (vw_prefix v, vw_ns v @ map to_lower ns, vw_password v)"
| "wanted md5 v (ByPassword ps) = (vw_prefix v, vw_ns v, vw_password v @ map md5 (filter (\<lambda>p. p \<noteq> '''') ps))"

definition id_ident :: "string \<times> string list \<times> string list \<Rightarrow> string" where
  "id_ident x = (case x of (p, ns, pw) \<Rightarrow> viewId p ns pw)"

lemma id_ident_ident: "id_ident (ident v) = id_of v"
  by (simp add: id_ident_def ident_def id_of_def)

lemma derive_as_lookup:
  assumes "world_ok A W" and "s < length (wd_views W)"
  shows "\<exists>p ns pw W1. wanted md5 (the_view W s) d = (p, ns, pw) \<and> map to_lower ns = ns \<and>
           wd_views W1 = wd_views W \<and> derive md5 aps s d W = lookup_or_new aps s p ns pw W W1"
proof (cases d)
  case (ByNamespace ns)
  then show ?thesis
    using world_ok_view(2) [OF assms]
    by (intro exI [of _ "if ns \<noteq> [] then append_prefix aps (map to_lower ns) W else W"] exI)
      (auto simp: With_as_lookup Let_def comp_def)
qed (use world_ok_view(2) [OF assms] in \<open>auto simp: With_as_lookup Let_def\<close>)

text \<open>A cached view is returned again, and nothing changes.\<close>

lemma derive_cached:
  assumes "mget (vw_viewCache (the_view W s)) (id_ident (wanted md5 (the_view W s) d)) = Some a"
  shows "derive md5 aps s d W = (a, W)"
  using assms by (cases d) (simp_all add: With_as_lookup lookup_or_new_def id_ident_def Let_def)

lemma wanted_ident:
  assumes "world_ok A W" and "world_ok A W'" and "s < length (wd_views W)" and "s < length (wd_views W')"
    and "ident (the_view W' s) = ident (the_view W s)"
  shows "wanted md5 (the_view W' s) d = wanted md5 (the_view W s) d"
  using assms world_ok_view(1) [of A W s] world_ok_view(1) [of A W' s]
  by (cases d) (simp_all add: ident_def view_ok_def)

lemma derive_ok:
  assumes "world_ok A W" and "s < length (wd_views W)" and "derive md5 aps s d W = (a, W')"
  shows "world_ok A W'" and "a < length (wd_views W')"
    and "id_of (the_view W' a) = id_ident (wanted md5 (the_view W s) d)"
    and "\<And>u. u < length (wd_views W) \<Longrightarrow> ident (the_view W' u) = ident (the_view W u)"
    and "length (wd_views W) \<le> length (wd_views W')"
    and "derive md5 aps s d W' = (a, W')"
    and "mget (vw_viewCache (the_view W s)) (id_ident (wanted md5 (the_view W s) d)) = None \<Longrightarrow>
           ident (the_view W' a) = wanted md5 (the_view W s) d"
proof -
  obtain p ns pw W1 where w: "wanted md5 (the_view W s) d = (p, ns, pw)" and "map to_lower ns = ns"
    and "wd_views W1 = wd_views W" and "lookup_or_new aps s p ns pw W W1 = (a, W')"
    using derive_as_lookup [OF assms(1,2), of md5 d aps] assms(3) by auto
  note l = lookup_or_new_ok [OF assms(1,2) this(3,2,4), simplified]
  show "world_ok A W'" and "a < length (wd_views W')" and "length (wd_views W) \<le> length (wd_views W')"
    and "\<And>u. u < length (wd_views W) \<Longrightarrow> ident (the_view W' u) = ident (the_view W u)"
    using l by auto
  show "id_of (the_view W' a) = id_ident (wanted md5 (the_view W s) d)"
    and "mget (vw_viewCache (the_view W s)) (id_ident (wanted md5 (the_view W s) d)) = None \<Longrightarrow>
           ident (the_view W' a) = wanted md5 (the_view W s) d"
    using l by (simp_all add: w id_ident_def)
  have "wanted md5 (the_view W' s) d = wanted md5 (the_view W s) d"
    using wanted_ident [OF assms(1) l(1) assms(2)] l(5,6) assms(2) by simp
  then show "derive md5 aps s d W' = (a, W')"
    using l(4) by (intro derive_cached) (simp add: w id_ident_def)
qed

section \<open>Notifications of a view\<close>

text \<open>
  What an update notification of a view holds: keys without the prefix of a namespace, each with the
  value a read returns now.
\<close>

lemma filter_update_current:
  assumes "fl_inv dec builtin f" and "\<forall>k. snd (fst (fl_Get dec builtin get f k))"
    and "\<forall>(k, v) \<in> set r. fst (fl_Get dec builtin get f k) = (v, True)"
  shows "\<forall>(k, v) \<in> set (fst (filter_update dec builtin get f kvs r)). fst (fl_Get dec builtin get f k) = (v, True)"
  using assms
proof (induction kvs arbitrary: f r)
  case (Cons kv kvs)
  obtain k0 v where kv: "kv = (k0, v)" by (cases kv)
  show ?case
  proof (cases "strip_ns f (rev (namespace f)) k0")
    case None
    then show ?thesis using Cons by (simp add: kv)
  next
    case (Some k)
    define dv where "dv = fst (fl_decrypt dec builtin f v)"
    define f1 where "f1 = snd (fl_decrypt dec builtin f v)"
    define f2 where "f2 = snd (fl_Get dec builtin get f1 k)"
    define g where "g = fst (fl_Get dec builtin get f k)"
    define r1 where "r1 = (if \<not> snd g \<or> fst g = dv then AList.update k dv r else r)"
    have 1: "same_filter f1 f" "fl_inv dec builtin f1" using fl_decrypt_same [OF Cons.prems(1)] by (simp_all add: f1_def)
    then have 2: "same_filter f2 f" "fl_inv dec builtin f2"
      using fl_Get_same [OF 1(2), of get k] same_filter_trans by (auto simp: f2_def)
    have same1: "fst (fl_Get dec builtin get f1 x) = fst (fl_Get dec builtin get f x)" for x
      using fl_Get_memo_free [OF 1 Cons.prems(1)] .
    have same2: "fst (fl_Get dec builtin get f2 x) = fst (fl_Get dec builtin get f x)" for x
      using fl_Get_memo_free [OF 2 Cons.prems(1)] .
    have "fst g = dv \<Longrightarrow> fst (fl_Get dec builtin get f k) = (dv, True)"
      using Cons.prems(2) by (metis g_def prod.collapse)
    then have "\<forall>(k, v) \<in> set r1. fst (fl_Get dec builtin get f k) = (v, True)"
      using Cons.prems(2,3) by (auto simp: r1_def g_def dest!: in_update)
    then have "\<forall>(k, v) \<in> set (fst (filter_update dec builtin get f2 kvs r1)). fst (fl_Get dec builtin get f2 k) = (v, True)"
      by (intro Cons.IH 2(2)) (use Cons.prems(2) same2 in auto)
    moreover have "fst (filter_update dec builtin get f (kv # kvs) r) = fst (filter_update dec builtin get f2 kvs r1)"
      using Some by (simp add: kv Let_def case_prod_beta f1_def [symmetric] f2_def [symmetric] dv_def [symmetric]
          g_def [symmetric] r1_def same1)
    ultimately show ?thesis using same2 by simp
  qed
qed simp

lemma FilterUpdate_current:
  assumes "fl_inv dec builtin f" and "(k, v) \<in> set (fst (FilterUpdate dec builtin (ci_Get c) f kvs))"
  shows "fst (fl_Get dec builtin (ci_Get c) f k) = (v, True)"
proof -
  have "\<forall>k. snd (fst (fl_Get dec builtin (ci_Get c) f k))" by (simp add: config_source.present_iff)
  then show ?thesis
    using filter_update_current [OF assms(1), of "ci_Get c" "[]" kvs] assms(2) by (auto simp: FilterUpdate_def)
qed

lemma FilterDelete_empty_deletes:
  "fst (filter_delete dec builtin (ci_Get c) f ks un dn) = (un', dn') \<Longrightarrow> dn' = dn"
proof (induction ks arbitrary: f un)
  case (Cons k0 ks)
  have "snd (fst (fl_Get dec builtin (ci_Get c) f k))" for k by (simp add: config_source.present_iff)
  then show ?case
    using Cons by (auto simp: Let_def case_prod_beta split: option.splits)
qed simp

section \<open>Properties\<close>

text \<open>
  Derived views. In every reachable world a derived view exists, carries the id of what was
  asked for, is what was asked for if it is new, and is the same view when asked for again, which
  then changes nothing. No view that was there before changes its prefix, its namespaces or its keys.
\<close>

theorem derived_view:
  assumes "reachable A W" and "s < length (wd_views W)" and "derive md5 aps s d W = (a, W')"
  shows "a < length (wd_views W') \<and> id_of (the_view W' a) = id_ident (wanted md5 (the_view W s) d) \<and>
     (mget (vw_viewCache (the_view W s)) (id_ident (wanted md5 (the_view W s) d)) = None \<longrightarrow>
        ident (the_view W' a) = wanted md5 (the_view W s) d) \<and>
     derive md5 aps s d W' = (a, W') \<and>
     (\<forall>u < length (wd_views W). ident (the_view W' u) = ident (the_view W u))"
  using derive_ok [OF reachable_ok [OF assms(1)] assms(2,3)] by blast

definition demo_crypto :: crypto where
  "demo_crypto = \<lparr>cr_md5 = (\<lambda>p. p), cr_dec = (\<lambda>_ _. None), cr_builtin = ''''\<rparr>"

definition demo_world :: "nat world" where
  "demo_world = snd (NewConfigView [] '''' [] [] (empty_world (NewConfig [False] demo_tree)))"

lemma demo_world_reachable: "reachable demo_crypto demo_world"
  unfolding reachable_def demo_world_def by (rule exI, rule r_into_rtranclp, rule view_step.Root)

theorem derived_view_witness:
  "let r = WithPrefix [] 0 ''App'' demo_world
   in fst r = 1 \<and> ident (the_view (snd r) 1) = (''app'', [], []) \<and> WithPrefix [] 0 ''App'' (snd r) = r"
proof -
  have l: "0 < length (wd_views demo_world)" by code_simp
  have f: "fst (WithPrefix [] 0 ''App'' demo_world) = 1" by code_simp
  then have "derive (\<lambda>p. p) [] 0 (ByPrefix ''App'') demo_world = (1, snd (WithPrefix [] 0 ''App'' demo_world))"
    by (simp add: prod_eq_iff)
  note d = derived_view [OF demo_world_reachable l this]
  have "wanted (\<lambda>p. p) (the_view demo_world 0) (ByPrefix ''App'') = (''app'', [], [])" by code_simp
  moreover have "mget (vw_viewCache (the_view demo_world 0)) (id_ident (''app'', [], [])) = None" by code_simp
  ultimately show ?thesis using d f by (simp add: Let_def prod_eq_iff)
qed

text \<open>
  Keys are forgotten. A view that is derived anew by prefix or by namespace has no key at all,
  whatever keys its parent was given with \<open>WithPassword\<close>: it can read only values encrypted under the
  built-in key.
\<close>

theorem derived_view_forgets_password:
  assumes "reachable A W" and "s < length (wd_views W)" and "derive md5 aps s d W = (a, W')"
    and "\<forall>ps. d \<noteq> ByPassword ps"
    and "mget (vw_viewCache (the_view W s)) (id_ident (wanted md5 (the_view W s) d)) = None"
  shows "fl_password (vw_filter (the_view W' a)) = []"
proof -
  have "vw_password (the_view W s) = []"
    using world_ok_view(1) [OF reachable_ok [OF assms(1)] assms(2)] by (simp add: view_ok_def)
  moreover have "ident (the_view W' a) = wanted md5 (the_view W s) d"
    using derive_ok(7) [OF reachable_ok [OF assms(1)] assms(2,3,5)] .
  ultimately show ?thesis using assms(4) by (cases d) (auto simp: ident_def)
qed

theorem derived_view_forgets_password_witness:
  "let r = WithPassword (\<lambda>p. p) [] 0 [''secret''] demo_world;
       r' = WithPrefix [] 1 ''app'' (snd r)
   in fst r = 1 \<and> fst r' = 2 \<and> fl_password (vw_filter (the_view (snd r) 1)) = [''secret''] \<and>
      fl_password (vw_filter (the_view (snd r') 2)) = []"
proof -
  define W where "W = snd (WithPassword (\<lambda>p. p) [] 0 [''secret''] demo_world)"
  have l: "0 < length (wd_views demo_world)" by code_simp
  have "view_step demo_crypto demo_world W"
    using view_step.Password [OF l, of demo_crypto "[]" "[''secret'']"] by (simp add: demo_crypto_def W_def)
  then have r: "reachable demo_crypto W"
    using demo_world_reachable reachable_step by blast
  have a: "derive (\<lambda>p. p) [] 1 (ByPrefix ''app'') W = (2, snd (WithPrefix [] 1 ''app'' W))"
    unfolding W_def prod_eq_iff by code_simp
  have "1 < length (wd_views W)" unfolding W_def by code_simp
  moreover have "mget (vw_viewCache (the_view W 1)) (id_ident (wanted (\<lambda>p. p) (the_view W 1) (ByPrefix ''app''))) = None"
    unfolding W_def by code_simp
  ultimately have "fl_password (vw_filter (the_view (snd (WithPrefix [] 1 ''app'' W)) 2)) = []"
    using derived_view_forgets_password [OF r _ a] by simp
  moreover have "fl_password (vw_filter (the_view W 1)) = [''secret'']" unfolding W_def by code_simp
  moreover have "fst (WithPrefix [] 1 ''app'' W) = 2" unfolding W_def by code_simp
  moreover have "fst (WithPassword (\<lambda>p. p) [] 0 [''secret''] demo_world) = 1" by code_simp
  ultimately show ?thesis unfolding Let_def W_def [symmetric] by blast
qed

text \<open>
  Notifications of a view. In every reachable world, what a view sends to its watchers on an
  update is an update only, goes to its own watchers, and gives every key the value a read of the view
  returns at that moment; on a delete it sends no delete notification at all, since every key of a
  layered configuration reads as present.
\<close>

theorem view_notifications_current:
  assumes "reachable A W" and "s < length (wd_views W)"
  shows "(\<forall>(w, x) \<in> set (fst (vw_OnUpdate (cr_dec A) (cr_builtin A) s val W)).
           w \<in> set (vw_notifier (the_view W s)) \<and>
           (\<exists>m. x = NUpdate m \<and> m \<noteq> [] \<and>
              (\<forall>(k, v) \<in> set m. fst (vw_Get (cr_dec A) (cr_builtin A) s k W) = (v, True)))) \<and>
         (\<forall>(w, x) \<in> set (fst (vw_OnDelete (cr_dec A) (cr_builtin A) s ks W)). \<exists>m. x = NUpdate m)"
proof -
  have inv: "fl_inv (cr_dec A) (cr_builtin A) (vw_filter (the_view W s))"
    using world_ok_view(1) [OF reachable_ok [OF assms(1)] assms(2)] by (simp add: view_ok_def)
  have "\<forall>(w, x) \<in> set (fst (vw_OnUpdate (cr_dec A) (cr_builtin A) s val W)).
           w \<in> set (vw_notifier (the_view W s)) \<and>
           (\<exists>m. x = NUpdate m \<and> m \<noteq> [] \<and>
              (\<forall>(k, v) \<in> set m. fst (vw_Get (cr_dec A) (cr_builtin A) s k W) = (v, True)))"
    using FilterUpdate_current [OF inv]
    by (auto simp: vw_OnUpdate_def vw_Get_def Let_def case_prod_beta nt_OnUpdate_def nt_Watchers_def split: if_splits)
  moreover obtain un dn where d: "fst (FilterDelete (cr_dec A) (cr_builtin A) (ci_Get (wd_source W)) (vw_filter (the_view W s)) ks) = (un, dn)"
    by (metis surj_pair)
  moreover from this have "dn = []" using FilterDelete_empty_deletes unfolding FilterDelete_def by fastforce
  with d have "\<forall>(w, x) \<in> set (fst (vw_OnDelete (cr_dec A) (cr_builtin A) s ks W)). \<exists>m. x = NUpdate m"
    by (auto simp: vw_OnDelete_def Let_def case_prod_beta nt_OnUpdate_def split: if_splits)
  ultimately show ?thesis by blast
qed

definition watched_world :: "nat world" where
  "watched_world =
     (vw_Watch 0 7 demo_world)\<lparr>wd_source := ci_run (NewConfig [False, False] demo_tree) [(1, EvUpdate [(''a'', ''1'')])]\<rparr>"

theorem view_notifications_current_witness:
  "fst (vw_OnUpdate (\<lambda>_ _. None) '''' 0 [(''a'', ''1'')] watched_world) = [(7, NUpdate [(''a'', ''1'')])] \<and>
   fst (vw_Get (\<lambda>_ _. None) '''' 0 ''a'' watched_world) = (''1'', True)"
proof -
  have l: "0 < length (wd_views demo_world)" by code_simp
  have "reachable demo_crypto (vw_Watch 0 7 demo_world)"
    using reachable_step [OF demo_world_reachable view_step.Watch [OF l]] .
  then have r: "reachable demo_crypto watched_world"
    unfolding watched_world_def by (rule reachable_step [OF _ view_step.Source])
  have "0 < length (wd_views watched_world)" by code_simp
  note v = view_notifications_current [OF r this, of "[(''a'', ''1'')]" "[]"]
  have u: "fst (vw_OnUpdate (\<lambda>_ _. None) '''' 0 [(''a'', ''1'')] watched_world) = [(7, NUpdate [(''a'', ''1'')])]"
    by code_simp
  then show ?thesis using v by (simp add: demo_crypto_def)
qed

end
