(* ===== verification/Interceptor.thy ===== *)
theory Interceptor
  imports Prelude
begin

text \<open>
  Interceptors: the chains of \<^verbatim>\<open>interceptor/chain.go\<close> and \<^verbatim>\<open>hooks/server.go\<close>, the recovery from panics of
  \<^verbatim>\<open>recovery/recovery.go\<close> and the check of a context of \<^verbatim>\<open>deadline/deadline.go\<close>.

  A handler is a function of its arguments whose result type is left open in the chains, so that it can be
  a function of a state. The loops of the chains run over the interceptors from the last to the first and
  replace the handler by one that calls the interceptor with the handler there was before; \<open>wrap_loop\<close> is
  that loop, and each chain says what one round makes of the handler.
\<close>

section \<open>Chains\<close>

fun wrap_loop :: "('i \<Rightarrow> 'h \<Rightarrow> 'h) \<Rightarrow> 'i list \<Rightarrow> nat \<Rightarrow> 'h \<Rightarrow> 'h" where
  "wrap_loop w interceptors 0 h = h"
| "wrap_loop w interceptors (Suc i) h = wrap_loop w interceptors i (w (interceptors ! i) h)"

type_synonym ('c, 'q, 'p, 'k, 'o, 'r) unary_invoker = "'c \<Rightarrow> string \<Rightarrow> 'q \<Rightarrow> 'p \<Rightarrow> 'k \<Rightarrow> 'o list \<Rightarrow> 'r"
type_synonym ('c, 'q, 'p, 'k, 'o, 'r) unary_client_int =
  "'c \<Rightarrow> string \<Rightarrow> 'q \<Rightarrow> 'p \<Rightarrow> 'k \<Rightarrow> ('c, 'q, 'p, 'k, 'o, 'r) unary_invoker \<Rightarrow> 'o list \<Rightarrow> 'r"
type_synonym ('c, 'd, 'k, 'o, 'r) streamer = "'c \<Rightarrow> 'd \<Rightarrow> 'k \<Rightarrow> string \<Rightarrow> 'o list \<Rightarrow> 'r"
type_synonym ('c, 'd, 'k, 'o, 'r) stream_client_int =
  "'c \<Rightarrow> 'd \<Rightarrow> 'k \<Rightarrow> string \<Rightarrow> ('c, 'd, 'k, 'o, 'r) streamer \<Rightarrow> 'o list \<Rightarrow> 'r"
type_synonym ('c, 'q, 'i, 'r) unary_server_int = "'c \<Rightarrow> 'q \<Rightarrow> 'i \<Rightarrow> ('c \<Rightarrow> 'q \<Rightarrow> 'r) \<Rightarrow> 'r"
type_synonym ('v, 't, 'i, 'r) stream_server_int = "'v \<Rightarrow> 't \<Rightarrow> 'i \<Rightarrow> ('v \<Rightarrow> 't \<Rightarrow> 'r) \<Rightarrow> 'r"
type_synonym ('v, 'c, 'r) unary_hook_int = "'v \<Rightarrow> 'c \<Rightarrow> string \<Rightarrow> string \<Rightarrow> ('v \<Rightarrow> 'c \<Rightarrow> 'r) \<Rightarrow> 'r"
type_synonym ('v, 't, 'r) stream_hook_int = "'v \<Rightarrow> string \<Rightarrow> string \<Rightarrow> 't \<Rightarrow> ('v \<Rightarrow> 't \<Rightarrow> 'r) \<Rightarrow> 'r"

definition ChainUnaryClient :: "('c, 'q, 'p, 'k, 'o, 'r) unary_client_int list \<Rightarrow> ('c, 'q, 'p, 'k, 'o, 'r) unary_client_int" where
  "ChainUnaryClient interceptors ctx meth req reply cc invoker opts =
     wrap_loop (\<lambda>unaryInt prevInvoker ctx meth req reply cc opts. unaryInt ctx meth req reply cc prevInvoker opts)
       interceptors (length interceptors) invoker ctx meth req reply cc opts"

definition ChainStreamClient :: "('c, 'd, 'k, 'o, 'r) stream_client_int list \<Rightarrow> ('c, 'd, 'k, 'o, 'r) stream_client_int" where
  "ChainStreamClient interceptors ctx desc cc meth streamer opts =
     wrap_loop (\<lambda>streamInt prevStreamer ctx desc cc meth opts. streamInt ctx desc cc meth prevStreamer opts)
       interceptors (length interceptors) streamer ctx desc cc meth opts"

definition ChainUnaryServer :: "('c, 'q, 'i, 'r) unary_server_int list \<Rightarrow> ('c, 'q, 'i, 'r) unary_server_int" where
  "ChainUnaryServer interceptors ctx req info handler =
     wrap_loop (\<lambda>unaryInt prevHandler ctx req. unaryInt ctx req info prevHandler)
       interceptors (length interceptors) handler ctx req"

definition ChainStreamServer :: "('v, 't, 'i, 'r) stream_server_int list \<Rightarrow> ('v, 't, 'i, 'r) stream_server_int" where
  "ChainStreamServer interceptors srv stream info handler =
     wrap_loop (\<lambda>streamInt prevHandler srv stream. streamInt srv stream info prevHandler)
       interceptors (length interceptors) handler srv stream"

definition ChainUnaryHook :: "('v, 'c, 'r) unary_hook_int list \<Rightarrow> ('v, 'c, 'r) unary_hook_int" where
  "ChainUnaryHook interceptors srv ctx service meth handler =
     wrap_loop (\<lambda>unaryInt prevHandler srv ctx. unaryInt srv ctx service meth prevHandler)
       interceptors (length interceptors) handler srv ctx"

definition ChainStreamHook :: "('v, 't, 'r) stream_hook_int list \<Rightarrow> ('v, 't, 'r) stream_hook_int" where
  "ChainStreamHook interceptors srv service meth stream handler =
     wrap_loop (\<lambda>streamInt prevHandler srv stream. streamInt srv service meth stream prevHandler)
       interceptors (length interceptors) handler srv stream"

section \<open>Hooks of a server\<close>

text \<open>
  \<open>HookServer\<close> collects the interceptors of its options and replaces the handlers of all services of the
  server. A service is its name with its unary and its stream handlers by the names of the methods. An option
  may fail; then nothing is replaced. The table is read and written by reflection in the code.
\<close>

record ('v, 'c, 'd, 'n, 't, 'r, 'q) hooked_service =
  hs_name :: string
  hs_md :: "(string \<times> ('v \<Rightarrow> 'c \<Rightarrow> 'd \<Rightarrow> 'n \<Rightarrow> 'r)) list"
  hs_sd :: "(string \<times> ('v \<Rightarrow> 't \<Rightarrow> 'q)) list"

record ('v, 'c, 't, 'r, 'q) hook_options =
  ho_unaryInt :: "('v, 'c, 'r) unary_hook_int list"
  ho_streamInt :: "('v, 't, 'q) stream_hook_int list"

definition HookWithUnaryInterceptors ::
  "('v, 'c, 'r) unary_hook_int list \<Rightarrow> ('v, 'c, 't, 'r, 'q) hook_options \<Rightarrow> 'e + ('v, 'c, 't, 'r, 'q) hook_options" where
  "HookWithUnaryInterceptors unaryInt opts = Inr (opts\<lparr>ho_unaryInt := ho_unaryInt opts @ unaryInt\<rparr>)"

definition HookWithStreamInterceptors ::
  "('v, 't, 'q) stream_hook_int list \<Rightarrow> ('v, 'c, 't, 'r, 'q) hook_options \<Rightarrow> 'e + ('v, 'c, 't, 'r, 'q) hook_options" where
  "HookWithStreamInterceptors streamInt opts = Inr (opts\<lparr>ho_streamInt := ho_streamInt opts @ streamInt\<rparr>)"

fun apply_hook_options :: "('o \<Rightarrow> 'e + 'o) list \<Rightarrow> 'o \<Rightarrow> 'e + 'o" where
  "apply_hook_options [] opts = Inr opts"
| "apply_hook_options (o1 # os) opts = (case o1 opts of Inl e \<Rightarrow> Inl e | Inr opts' \<Rightarrow> apply_hook_options os opts')"

definition hook_service ::
  "('v, 'c, 't, 'r, 'q) hook_options \<Rightarrow> ('v, 'c, 'd, 'n, 't, 'r, 'q) hooked_service \<Rightarrow> ('v, 'c, 'd, 'n, 't, 'r, 'q) hooked_service" where
  "hook_service opts sv =
     sv\<lparr>hs_md := map (\<lambda>(meth, handler).
          (meth, \<lambda>srv ctx dec interceptor.
             if length (ho_unaryInt opts) > 0
             then ChainUnaryHook (ho_unaryInt opts) srv ctx (hs_name sv) meth (\<lambda>srv ctx. handler srv ctx dec interceptor)
             else handler srv ctx dec interceptor)) (hs_md sv),
        hs_sd := map (\<lambda>(meth, handler).
          (meth, \<lambda>srv stream.
             if length (ho_streamInt opts) > 0
             then ChainStreamHook (ho_streamInt opts) srv (hs_name sv) meth stream (\<lambda>srv stream. handler srv stream)
             else handler srv stream)) (hs_sd sv)\<rparr>"

definition HookServer ::
  "(('v, 'c, 't, 'r, 'q) hook_options \<Rightarrow> 'e + ('v, 'c, 't, 'r, 'q) hook_options) list \<Rightarrow>
     ('v, 'c, 'd, 'n, 't, 'r, 'q) hooked_service list \<Rightarrow> 'e option \<times> ('v, 'c, 'd, 'n, 't, 'r, 'q) hooked_service list" where
  "HookServer opt services =
     (case apply_hook_options opt \<lparr>ho_unaryInt = [], ho_streamInt = []\<rparr> of
        Inl e \<Rightarrow> (Some e, services)
      | Inr opts \<Rightarrow> (None, map (hook_service opts) services))"

section \<open>Panics\<close>

text \<open>
  A handler with effects: a function of a state whose outcome is a value or a panic. The value of a panic
  may be nil, which \<open>recover\<close> cannot tell from no panic (the module requires a version of Go before the one
  that changed this); the panic is over all the same.
\<close>

datatype 'a outcome = Panicked "string option" | Returned 'a

datatype status_error = Status int string | OtherError string

definition codes_Internal :: int where
  "codes_Internal = 13"

definition panic_message :: "string \<Rightarrow> string" where
  "panic_message v = ''[PANIC] panic = '' @ v"

text \<open>\<open>UnaryServerInterceptor\<close> and \<open>StreamServerInterceptor\<close> of the package \<open>recovery\<close>; the message ends in the stack, which is left out.\<close>

definition recovery_UnaryServerInterceptor ::
  "('c, 'q, 'i, 's \<Rightarrow> ('r option \<times> status_error option) outcome \<times> 's) unary_server_int" where
  "recovery_UnaryServerInterceptor ctx req info handler s =
     (case handler ctx req s of
        (Panicked None, s') \<Rightarrow> (Returned (None, None), s')
      | (Panicked (Some v), s') \<Rightarrow> (Returned (None, Some (Status codes_Internal (panic_message v))), s')
      | (Returned r, s') \<Rightarrow> (Returned r, s'))"

definition recovery_StreamServerInterceptor ::
  "('v, 't, 'i, 's \<Rightarrow> status_error option outcome \<times> 's) stream_server_int" where
  "recovery_StreamServerInterceptor srv stream info handler s =
     (case handler srv stream s of
        (Panicked None, s') \<Rightarrow> (Returned None, s')
      | (Panicked (Some v), s') \<Rightarrow> (Returned (Some (Status codes_Internal (panic_message v))), s')
      | (Returned r, s') \<Rightarrow> (Returned r, s'))"

text \<open>An HTTP handler writes to its response; what is written is kept in order.\<close>

datatype response_op = SetHeader string string | WriteHeader int | WriteBody string

definition recovery_HttpHandler ::
  "('q \<Rightarrow> response_op list \<Rightarrow> unit outcome \<times> response_op list) \<Rightarrow> 'q \<Rightarrow> response_op list \<Rightarrow> unit outcome \<times> response_op list" where
  "recovery_HttpHandler h r w =
     (case h r w of
        (Panicked None, w') \<Rightarrow> (Returned (), w')
      | (Panicked (Some v), w') \<Rightarrow>
          (Returned (), w' @ [SetHeader ''Content-Type'' ''text/plain'', WriteHeader 500, WriteBody (''[PAMIC] panic = '' @ v)])
      | (Returned u, w') \<Rightarrow> (Returned u, w'))"

section \<open>Deadlines\<close>

datatype ctx_err = Canceled | DeadlineExceeded | OtherCtxError string

definition CheckContext :: "ctx_err option \<Rightarrow> status_error option" where
  "CheckContext e =
     (case e of
        Some Canceled \<Rightarrow> Some (Status 1 ''Interrupted by deadline checker[context is canceled]'')
      | Some DeadlineExceeded \<Rightarrow> Some (Status 4 ''Interrupted by deadline checker[context deadline is exceeded]'')
      | None \<Rightarrow> None
      | Some (OtherCtxError m) \<Rightarrow> Some (Status codes_Internal (''Interrupted by deadline checker[caught context error]'' @ m)))"

definition DeadlineCheckerUnaryServerInterceptor ::
  "('c \<Rightarrow> 's \<Rightarrow> ctx_err option) \<Rightarrow> ('c, 'q, 'i, 's \<Rightarrow> ('r option \<times> status_error option) outcome \<times> 's) unary_server_int" where
  "DeadlineCheckerUnaryServerInterceptor ctx_Err ctx req info handler s =
     (case CheckContext (ctx_Err ctx s) of
        Some e \<Rightarrow> (Returned (None, Some e), s)
      | None \<Rightarrow> handler ctx req s)"

section \<open>What a chain does\<close>

lemma wrap_loop_foldr: "n \<le> length is \<Longrightarrow> wrap_loop w is n h = foldr w (take n is) h"
  by (induction n arbitrary: h) (simp_all add: take_Suc_conv_app_nth)

lemma wrap_loop_all: "wrap_loop w is (length is) h = foldr w is h"
  by (simp add: wrap_loop_foldr)

lemmas chain_foldr =
  ChainUnaryClient_def [unfolded wrap_loop_all] ChainStreamClient_def [unfolded wrap_loop_all]
  ChainUnaryServer_def [unfolded wrap_loop_all] ChainStreamServer_def [unfolded wrap_loop_all]
  ChainUnaryHook_def [unfolded wrap_loop_all] ChainStreamHook_def [unfolded wrap_loop_all]

text \<open>
  The contract of a chain, for all kinds of interceptors: \<open>app x i h\<close> is the handler that calls the
  interceptor \<open>i\<close> around the handler \<open>h\<close> in the context \<open>x\<close> of one call, and interceptors that give the same
  handlers are equal. A chain is itself an interceptor.
\<close>

locale interceptor_chain =
  fixes app :: "'x \<Rightarrow> 'i \<Rightarrow> 'h \<Rightarrow> 'h" and Chain :: "'i list \<Rightarrow> 'i"
  assumes app_Chain: "app x (Chain is) h = foldr (app x) is h"
    and app_ext: "(\<And>x h. app x i h = app x j h) \<Longrightarrow> i = j"
begin

lemma Chain_single: "Chain [i] = i"
  by (rule app_ext) (simp add: app_Chain)

lemma Chain_nested: "Chain (xs @ Chain ys # zs) = Chain (xs @ ys @ zs)"
  by (rule app_ext) (simp add: app_Chain)

lemma app_Chain_Cons: "app x (Chain (i # is)) h = app x i (app x (Chain is) h)"
  by (simp add: app_Chain)

end

interpretation uc: interceptor_chain
  "\<lambda>_ :: unit. \<lambda>i h ctx meth req reply cc opts. i ctx meth req reply cc h opts" ChainUnaryClient
  by unfold_locales (auto simp: fun_eq_iff chain_foldr)

interpretation sc: interceptor_chain
  "\<lambda>_ :: unit. \<lambda>i h ctx desc cc meth opts. i ctx desc cc meth h opts" ChainStreamClient
  by unfold_locales (auto simp: fun_eq_iff chain_foldr)

interpretation us: interceptor_chain "\<lambda>info i h ctx req. i ctx req info h" ChainUnaryServer
  by unfold_locales (auto simp: fun_eq_iff chain_foldr)

interpretation ss: interceptor_chain "\<lambda>info i h srv stream. i srv stream info h" ChainStreamServer
  by unfold_locales (auto simp: fun_eq_iff chain_foldr)

interpretation uh: interceptor_chain "\<lambda>(service, meth) i h srv ctx. i srv ctx service meth h" ChainUnaryHook
  by unfold_locales (auto simp: fun_eq_iff chain_foldr)

interpretation sh: interceptor_chain "\<lambda>(service, meth) i h srv stream. i srv service meth stream h" ChainStreamHook
  by unfold_locales (auto simp: fun_eq_iff chain_foldr)

text \<open>Hooking a server again: the interceptors of the second time run outside of those of the first.\<close>

lemma hook_service_twice:
  "hook_service o2 (hook_service o1 sv) =
     hook_service \<lparr>ho_unaryInt = ho_unaryInt o2 @ ho_unaryInt o1, ho_streamInt = ho_streamInt o2 @ ho_streamInt o1\<rparr> sv"
proof -
  have u: "ChainUnaryHook xs srv ctx service meth (\<lambda>srv ctx. ChainUnaryHook ys srv ctx service meth h) =
           ChainUnaryHook (xs @ ys) srv ctx service meth h" for xs ys srv ctx service meth h
    by (simp add: chain_foldr)
  have s: "ChainStreamHook xs srv service meth stream (\<lambda>srv stream. ChainStreamHook ys srv service meth stream h) =
           ChainStreamHook (xs @ ys) srv service meth stream h" for xs ys srv stream service meth h
    by (simp add: chain_foldr)
  have e: "ChainUnaryHook [] srv ctx service meth h = h srv ctx" "ChainStreamHook [] srv service meth stream k = k srv stream"
    for srv ctx service meth h stream k
    by (simp_all add: chain_foldr)
  show ?thesis
    by (cases "ho_unaryInt o2"; cases "ho_unaryInt o1"; cases "ho_streamInt o2"; cases "ho_streamInt o1")
       (simp_all add: hook_service_def comp_def case_prod_unfold u s)
qed

section \<open>Properties\<close>

text \<open>
  C23 (interceptors nest in order). A chain of no interceptors calls the handler itself; the first interceptor
  of a chain is called with the request and with the chain of the others as its handler; and a chain used as
  an interceptor of another chain acts as if its members stood in its place. This holds for the unary and
  stream chains of clients, servers and hooks.
\<close>

theorem interceptors_nest:
  "ChainUnaryClient [] ctx meth req reply cc invoker opts = invoker ctx meth req reply cc opts \<and>
   ChainUnaryClient (uc # ucs) ctx meth req reply cc invoker opts =
     uc ctx meth req reply cc (\<lambda>ctx meth req reply cc opts. ChainUnaryClient ucs ctx meth req reply cc invoker opts) opts \<and>
   ChainUnaryClient (ucs @ ChainUnaryClient ucs' # ucs'') = ChainUnaryClient (ucs @ ucs' @ ucs'') \<and>
   ChainStreamClient [] ctx desc cc meth streamer opts = streamer ctx desc cc meth opts \<and>
   ChainStreamClient (sc # scs) ctx desc cc meth streamer opts =
     sc ctx desc cc meth (\<lambda>ctx desc cc meth opts. ChainStreamClient scs ctx desc cc meth streamer opts) opts \<and>
   ChainStreamClient (scs @ ChainStreamClient scs' # scs'') = ChainStreamClient (scs @ scs' @ scs'') \<and>
   ChainUnaryServer [] ctx req info handler = handler ctx req \<and>
   ChainUnaryServer (us # uss) ctx req info handler = us ctx req info (\<lambda>ctx req. ChainUnaryServer uss ctx req info handler) \<and>
   ChainUnaryServer (uss @ ChainUnaryServer uss' # uss'') = ChainUnaryServer (uss @ uss' @ uss'') \<and>
   ChainStreamServer [] srv stream sinfo shandler = shandler srv stream \<and>
   ChainStreamServer (ss # sss) srv stream sinfo shandler =
     ss srv stream sinfo (\<lambda>srv stream. ChainStreamServer sss srv stream sinfo shandler) \<and>
   ChainStreamServer (sss @ ChainStreamServer sss' # sss'') = ChainStreamServer (sss @ sss' @ sss'') \<and>
   ChainUnaryHook [] srv ctx service meth hhandler = hhandler srv ctx \<and>
   ChainUnaryHook (uh # uhs) srv ctx service meth hhandler =
     uh srv ctx service meth (\<lambda>srv ctx. ChainUnaryHook uhs srv ctx service meth hhandler) \<and>
   ChainUnaryHook (uhs @ ChainUnaryHook uhs' # uhs'') = ChainUnaryHook (uhs @ uhs' @ uhs'') \<and>
   ChainStreamHook [] srv service meth stream shandler = shandler srv stream \<and>
   ChainStreamHook (sh # shs) srv service meth stream shandler =
     sh srv service meth stream (\<lambda>srv stream. ChainStreamHook shs srv service meth stream shandler) \<and>
   ChainStreamHook (shs @ ChainStreamHook shs' # shs'') = ChainStreamHook (shs @ shs' @ shs'')"
  by (intro conjI uc.Chain_nested sc.Chain_nested us.Chain_nested ss.Chain_nested uh.Chain_nested sh.Chain_nested)
     (simp_all add: chain_foldr)

text \<open>
  Recovery. A chain that begins with the interceptor of \<open>recovery\<close> returns, whatever panics inside it;
  if nothing panics the result is that of the rest of the chain, and otherwise, unless the value of the
  panic is nil, an error with the code \<open>Internal\<close>.
\<close>

theorem recovered_chain_returns:
  "(case ChainUnaryServer is ctx req info handler s of
      (Returned r, s') \<Rightarrow> ChainUnaryServer (recovery_UnaryServerInterceptor # is) ctx req info handler s = (Returned r, s')
    | (Panicked v, s') \<Rightarrow>
        (\<exists>e. ChainUnaryServer (recovery_UnaryServerInterceptor # is) ctx req info handler s = (Returned (None, e), s') \<and>
             (v = None \<or> (\<exists>m. e = Some (Status codes_Internal m))))) \<and>
   (case ChainStreamServer js srv stream info' handler' s of
      (Returned r, s') \<Rightarrow> ChainStreamServer (recovery_StreamServerInterceptor # js) srv stream info' handler' s = (Returned r, s')
    | (Panicked v, s') \<Rightarrow>
        (\<exists>e. ChainStreamServer (recovery_StreamServerInterceptor # js) srv stream info' handler' s = (Returned e, s') \<and>
             (v = None \<or> (\<exists>m. e = Some (Status codes_Internal m)))))"
proof -
  have u: "ChainUnaryServer (recovery_UnaryServerInterceptor # is) ctx req info handler s =
           recovery_UnaryServerInterceptor ctx req info (\<lambda>ctx req. ChainUnaryServer is ctx req info handler) s"
    by (simp add: chain_foldr)
  have t: "ChainStreamServer (recovery_StreamServerInterceptor # js) srv stream info' handler' s =
           recovery_StreamServerInterceptor srv stream info' (\<lambda>srv stream. ChainStreamServer js srv stream info' handler') s"
    by (simp add: chain_foldr)
  show ?thesis unfolding u t
    by (auto simp: recovery_UnaryServerInterceptor_def recovery_StreamServerInterceptor_def split: prod.split outcome.split option.split)
qed

end
