(* ===== verification/Control_Policy.thy ===== *)
theory Control_Policy
  imports Prelude
begin

text \<open>
  The policies of the control plane, \<^verbatim>\<open>control/control.go\<close>, and the wrapper every control plane is handed
  out in, \<^verbatim>\<open>control/wrapper.go\<close>. A record extends the record of the struct it embeds. Durations are
  nanoseconds; the type of the floating-point jitter is left open. The numbers of the status codes are
  those of \<^verbatim>\<open>3rdparty/googleapis/google/rpc/code.proto\<close>.

  Policies are handed around as pointers: the wrapper writes its defaults into the object the control plane
  gave it. What a control plane keeps of that object is changed by the function \<open>write\<close>.
\<close>

record policy =
  po_Enabled :: bool
  po_Version :: int

record 'f retry_policy = policy +
  rp_NumOfRetries :: int
  rp_PerTryTimeout :: int
  rp_RetriableStatusCodes :: "int list"
  rp_Overlap :: bool
  rp_BackoffDuration :: int
  rp_BackoffJitter :: 'f
  rp_BackoffExponential :: bool

record timeout_policy = policy +
  tp_Timeout :: int

record client_timeout_policy = timeout_policy +
  tp_ConnTimeout :: int

record circuit_breaker_policy = policy +
  cb_Timeout :: int
  cb_MaxConcurrentRequests :: int
  cb_RequestVolumeThreshold :: int
  cb_SleepWindow :: int
  cb_ErrorPercentThreshold :: int
  cb_FailureStatusCode :: "int list"
  cb_RollingDurationInSec :: int

record rate_limit_policy = policy +
  rl_MaxRequestPerUnit :: int
  rl_MaxSendMsgPerUnit :: int
  rl_MaxRecvMsgPerUnit :: int
  rl_Unit :: int

text \<open>The zero values of the structs, with a version.\<close>

definition new_timeout_policy :: "int \<Rightarrow> timeout_policy" where
  "new_timeout_policy version = \<lparr>po_Enabled = False, po_Version = version, tp_Timeout = 0\<rparr>"

definition new_client_timeout_policy :: "int \<Rightarrow> client_timeout_policy" where
  "new_client_timeout_policy version =
     \<lparr>po_Enabled = False, po_Version = version, tp_Timeout = 0, tp_ConnTimeout = 0\<rparr>"

definition new_retry_policy :: "int \<Rightarrow> 'f::zero retry_policy" where
  "new_retry_policy version =
     \<lparr>po_Enabled = False, po_Version = version, rp_NumOfRetries = 0, rp_PerTryTimeout = 0, rp_RetriableStatusCodes = [],
      rp_Overlap = False, rp_BackoffDuration = 0, rp_BackoffJitter = 0, rp_BackoffExponential = False\<rparr>"

definition new_circuit_breaker_policy :: "int \<Rightarrow> circuit_breaker_policy" where
  "new_circuit_breaker_policy version =
     \<lparr>po_Enabled = False, po_Version = version, cb_Timeout = 0, cb_MaxConcurrentRequests = 0,
      cb_RequestVolumeThreshold = 0, cb_SleepWindow = 0, cb_ErrorPercentThreshold = 0, cb_FailureStatusCode = [],
      cb_RollingDurationInSec = 0\<rparr>"

definition new_rate_limit_policy :: "int \<Rightarrow> rate_limit_policy" where
  "new_rate_limit_policy version =
     \<lparr>po_Enabled = False, po_Version = version, rl_MaxRequestPerUnit = 0, rl_MaxSendMsgPerUnit = 0,
      rl_MaxRecvMsgPerUnit = 0, rl_Unit = 0\<rparr>"

lemmas new_policy_defs =
  new_timeout_policy_def new_client_timeout_policy_def new_retry_policy_def new_circuit_breaker_policy_def
  new_rate_limit_policy_def

section \<open>The defaults\<close>

definition wr_retry_defaults :: "'f retry_policy \<Rightarrow> 'f retry_policy" where
  "wr_retry_defaults policy =
     (if \<not> po_Enabled policy then policy
      else if rp_NumOfRetries policy \<le> 0 then policy\<lparr>po_Enabled := False\<rparr>
      else (let p1 = (if length (rp_RetriableStatusCodes policy) = 0 then policy\<lparr>rp_RetriableStatusCodes := [4]\<rparr> else policy)
            in if rp_BackoffDuration p1 = 0 then p1\<lparr>rp_BackoffDuration := 500 * 1000000\<rparr> else p1))"

definition wr_timeout_defaults :: "'p \<Rightarrow> 'p" where
  "wr_timeout_defaults policy = policy"

definition wr_circuit_breaker_defaults :: "circuit_breaker_policy \<Rightarrow> circuit_breaker_policy" where
  "wr_circuit_breaker_defaults policy =
     (if \<not> po_Enabled policy then policy
      else (let p1 = (if cb_ErrorPercentThreshold policy \<le> 0 then policy\<lparr>cb_ErrorPercentThreshold := 50\<rparr> else policy);
                p2 = (if cb_RequestVolumeThreshold p1 \<le> 0 then p1\<lparr>cb_RequestVolumeThreshold := 20\<rparr> else p1);
                p3 = (if cb_SleepWindow p2 \<le> 0 then p2\<lparr>cb_SleepWindow := 5 * 1000000000\<rparr> else p2);
                p4 = (if cb_MaxConcurrentRequests p3 = 0 then p3\<lparr>cb_MaxConcurrentRequests := -1\<rparr> else p3);
                p5 = (if cb_RollingDurationInSec p4 \<le> 0 then p4\<lparr>cb_RollingDurationInSec := 10\<rparr> else p4);
                p6 = (if length (cb_FailureStatusCode p5) = 0 then p5\<lparr>cb_FailureStatusCode := [2, 4, 8, 13, 14]\<rparr> else p5)
            in p6\<lparr>cb_FailureStatusCode := sort (cb_FailureStatusCode p6)\<rparr>))"

definition wr_rate_limit_defaults :: "rate_limit_policy \<Rightarrow> rate_limit_policy" where
  "wr_rate_limit_defaults policy =
     (if \<not> po_Enabled policy then policy
      else (let p1 = (if rl_MaxRequestPerUnit policy = 0 then policy\<lparr>rl_MaxRequestPerUnit := -1\<rparr> else policy);
                p2 = (if rl_MaxSendMsgPerUnit p1 = 0 then p1\<lparr>rl_MaxSendMsgPerUnit := -1\<rparr> else p1);
                p3 = (if rl_MaxRecvMsgPerUnit p2 = 0 then p2\<lparr>rl_MaxRecvMsgPerUnit := -1\<rparr> else p2)
            in if rl_Unit p3 = 0 then p3\<lparr>rl_Unit := 1000000000\<rparr> else p3))"

section \<open>The wrapper\<close>

text \<open>
  One call of a wrapped control plane: \<open>None\<close> is a control plane that is nil, and one may answer nil. The
  defaults are written into the object the control plane answered.
\<close>

definition wr_call ::
  "'p \<Rightarrow> ('p \<Rightarrow> 'p) \<Rightarrow> ('p \<Rightarrow> 's \<Rightarrow> 's) \<Rightarrow> ('s \<Rightarrow> 'p option \<times> 's) option \<Rightarrow> 's \<Rightarrow> 'p \<times> 's" where
  "wr_call zero defaults write plane s =
     (case plane of
        None \<Rightarrow> (zero, s)
      | Some query \<Rightarrow>
          (case query s of
             (None, s') \<Rightarrow> (zero, s')
           | (Some policy, s') \<Rightarrow> (let p = defaults policy in (p, write p s'))))"

definition wr_ClientTimeoutPolicy where
  "wr_ClientTimeoutPolicy = wr_call (new_client_timeout_policy 0) wr_timeout_defaults"

definition wr_RetryPolicy where
  "wr_RetryPolicy = wr_call (new_retry_policy 0) wr_retry_defaults"

definition wr_ServerTimeoutPolicy where
  "wr_ServerTimeoutPolicy = wr_call (new_timeout_policy 0) wr_timeout_defaults"

definition wr_CircuitBreakerPolicy where
  "wr_CircuitBreakerPolicy = wr_call (new_circuit_breaker_policy 0) wr_circuit_breaker_defaults"

definition wr_RateLimitPolicy where
  "wr_RateLimitPolicy = wr_call (new_rate_limit_policy 0) wr_rate_limit_defaults"

text \<open>A wrapped factory: nil is an error, an error of the factory is passed on, a control plane is wrapped.\<close>

datatype ('e, 'cp) cp_result = NoControlPlane string | FactoryError 'e | Wrapped 'cp

definition wr_ControlPlane :: "(string \<Rightarrow> 's \<Rightarrow> ('e + 'cp) \<times> 's) option \<Rightarrow> string \<Rightarrow> 's \<Rightarrow> ('e, 'cp) cp_result \<times> 's" where
  "wr_ControlPlane factory service s =
     (case factory of
        None \<Rightarrow> (NoControlPlane service, s)
      | Some f \<Rightarrow> (case f service s of (Inl e, s') \<Rightarrow> (FactoryError e, s') | (Inr cp, s') \<Rightarrow> (Wrapped cp, s')))"

section \<open>What the clients of a policy rely on\<close>

definition retry_ok :: "'f retry_policy \<Rightarrow> bool" where
  "retry_ok p \<longleftrightarrow> (if po_Enabled p then rp_NumOfRetries p \<ge> 1 \<and> rp_RetriableStatusCodes p \<noteq> [] \<and> rp_BackoffDuration p \<noteq> 0 else True)"

definition circuit_breaker_ok :: "circuit_breaker_policy \<Rightarrow> bool" where
  "circuit_breaker_ok p \<longleftrightarrow>
     (if po_Enabled p then
        cb_ErrorPercentThreshold p > 0 \<and> cb_RequestVolumeThreshold p > 0 \<and> cb_SleepWindow p > 0 \<and>
        cb_MaxConcurrentRequests p \<noteq> 0 \<and> cb_RollingDurationInSec p > 0 \<and> cb_FailureStatusCode p \<noteq> [] \<and>
        sorted (cb_FailureStatusCode p)
      else True)"

definition rate_limit_ok :: "rate_limit_policy \<Rightarrow> bool" where
  "rate_limit_ok p \<longleftrightarrow>
     (if po_Enabled p then
        rl_MaxRequestPerUnit p \<noteq> 0 \<and> rl_MaxSendMsgPerUnit p \<noteq> 0 \<and> rl_MaxRecvMsgPerUnit p \<noteq> 0 \<and> rl_Unit p \<noteq> 0
      else True)"

lemma if_upd:
  "(if b then p\<lparr>cb_ErrorPercentThreshold := x\<rparr> else p) = p\<lparr>cb_ErrorPercentThreshold := if b then x else cb_ErrorPercentThreshold p\<rparr>"
  "(if b then p\<lparr>cb_RequestVolumeThreshold := x\<rparr> else p) = p\<lparr>cb_RequestVolumeThreshold := if b then x else cb_RequestVolumeThreshold p\<rparr>"
  "(if b then p\<lparr>cb_SleepWindow := x\<rparr> else p) = p\<lparr>cb_SleepWindow := if b then x else cb_SleepWindow p\<rparr>"
  "(if b then p\<lparr>cb_MaxConcurrentRequests := x\<rparr> else p) = p\<lparr>cb_MaxConcurrentRequests := if b then x else cb_MaxConcurrentRequests p\<rparr>"
  "(if b then p\<lparr>cb_RollingDurationInSec := x\<rparr> else p) = p\<lparr>cb_RollingDurationInSec := if b then x else cb_RollingDurationInSec p\<rparr>"
  "(if b then p\<lparr>cb_FailureStatusCode := xs\<rparr> else p) = p\<lparr>cb_FailureStatusCode := if b then xs else cb_FailureStatusCode p\<rparr>"
  by simp_all

lemma circuit_breaker_defaults_eq:
  "wr_circuit_breaker_defaults p =
     (if po_Enabled p then
        p\<lparr>cb_ErrorPercentThreshold := if cb_ErrorPercentThreshold p \<le> 0 then 50 else cb_ErrorPercentThreshold p,
          cb_RequestVolumeThreshold := if cb_RequestVolumeThreshold p \<le> 0 then 20 else cb_RequestVolumeThreshold p,
          cb_SleepWindow := if cb_SleepWindow p \<le> 0 then 5000000000 else cb_SleepWindow p,
          cb_MaxConcurrentRequests := if cb_MaxConcurrentRequests p = 0 then -1 else cb_MaxConcurrentRequests p,
          cb_RollingDurationInSec := if cb_RollingDurationInSec p \<le> 0 then 10 else cb_RollingDurationInSec p,
          cb_FailureStatusCode := sort (if cb_FailureStatusCode p = [] then [2, 4, 8, 13, 14] else cb_FailureStatusCode p)\<rparr>
      else p)"
  unfolding wr_circuit_breaker_defaults_def Let_def if_upd by simp

lemma retry_defaults_ok: "retry_ok (wr_retry_defaults p)"
  by (simp add: retry_ok_def wr_retry_defaults_def Let_def)

lemma sort_nonempty: "sort xs = [] \<longleftrightarrow> xs = []"
  by (metis length_0_conv length_sort)

lemma circuit_breaker_defaults_ok: "circuit_breaker_ok (wr_circuit_breaker_defaults p)"
  by (simp add: circuit_breaker_ok_def circuit_breaker_defaults_eq sort_nonempty)

lemma rate_limit_defaults_ok: "rate_limit_ok (wr_rate_limit_defaults p)"
  by (simp add: rate_limit_ok_def wr_rate_limit_defaults_def Let_def)

text \<open>A policy that is well formed is left alone, so a second pass over the same object changes nothing.\<close>

lemma retry_defaults_id: "retry_ok p \<Longrightarrow> wr_retry_defaults p = p"
  by (simp add: retry_ok_def wr_retry_defaults_def Let_def split: if_splits)

lemma circuit_breaker_defaults_id: "circuit_breaker_ok p \<Longrightarrow> wr_circuit_breaker_defaults p = p"
  by (cases "po_Enabled p") (simp_all add: circuit_breaker_ok_def circuit_breaker_defaults_eq sorted_sort_id)

lemma rate_limit_defaults_id: "rate_limit_ok p \<Longrightarrow> wr_rate_limit_defaults p = p"
  by (simp add: rate_limit_ok_def wr_rate_limit_defaults_def Let_def split: if_splits)

lemma version_defaults [simp]:
  "po_Version (wr_retry_defaults p) = po_Version p"
  "po_Version (wr_circuit_breaker_defaults b) = po_Version b"
  "po_Version (wr_rate_limit_defaults r) = po_Version r"
  "wr_timeout_defaults x = x"
  by (simp_all add: wr_retry_defaults_def wr_rate_limit_defaults_def wr_timeout_defaults_def circuit_breaker_defaults_eq Let_def)

lemma wr_call_ok:
  assumes "P zero" and "\<And>p. P (defaults p)"
  shows "P (fst (wr_call zero defaults write plane s))"
  using assms by (simp add: wr_call_def Let_def split: option.split prod.split)

end
