(* ===== verification/Retry_Queue.thy ===== *)
theory Retry_Queue
  imports Prelude "HOL-Library.Word"
begin

text \<open>
  The queue of running tasks of a retry, \<^verbatim>\<open>internal/retry/task_queue.go\<close>. A task is its id, a 32-bit
  number, and whether it is still valid. Each operation also gives the ids of the tasks whose context
  it cancels, in order.
\<close>

type_synonym task_id = "32 word"

record task =
  tk_id :: task_id
  tk_valid :: bool

record task_queue =
  tq_tasks :: "task list"
  tq_closed :: bool

definition NewTaskQueue :: task_queue where
  "NewTaskQueue = \<lparr>tq_tasks = [], tq_closed = False\<rparr>"

text \<open>The loop of \<open>AddTask\<close>: the first valid task is made invalid and cancelled.\<close>

fun evict :: "task list \<Rightarrow> task list \<times> task_id list" where
  "evict [] = ([], [])"
| "evict (t # ts) =
     (if tk_valid t then (t\<lparr>tk_valid := False\<rparr> # ts, [tk_id t])
      else (let (ts', c) = evict ts in (t # ts', c)))"

definition AddTask :: "task_id \<Rightarrow> bool \<Rightarrow> task_queue \<Rightarrow> task_queue \<times> task_id list" where
  "AddTask i evictOldestOne q =
     (let (ts, c) = (if evictOldestOne then evict (tq_tasks q) else (tq_tasks q, []))
      in (q\<lparr>tq_tasks := ts @ [\<lparr>tk_id = i, tk_valid = True\<rparr>]\<rparr>, c))"

definition RemoveTask :: "task_id \<Rightarrow> task_queue \<Rightarrow> task_queue \<times> task_id list" where
  "RemoveTask i q =
     (q\<lparr>tq_tasks := map (\<lambda>t. if tk_id t = i then t\<lparr>tk_valid := False\<rparr> else t) (tq_tasks q)\<rparr>,
      map tk_id (filter (\<lambda>t. tk_id t = i) (tq_tasks q)))"

definition CloseQueue :: "task_queue \<Rightarrow> task_queue \<times> task_id list" where
  "CloseQueue q = (q\<lparr>tq_tasks := [], tq_closed := True\<rparr>, map tk_id (filter tk_valid (tq_tasks q)))"

definition IsTaskValid :: "task_id \<Rightarrow> task_queue \<Rightarrow> bool" where
  "IsTaskValid i q =
     (if tq_closed q then False
      else (case find (\<lambda>t. tk_id t = i) (tq_tasks q) of Some t \<Rightarrow> tk_valid t | None \<Rightarrow> False))"

definition TaskCount :: "task_queue \<Rightarrow> nat" where
  "TaskCount q = (if tq_closed q then 0 else length (filter tk_valid (tq_tasks q)))"

definition IsQueueClosed :: "task_queue \<Rightarrow> bool" where
  "IsQueueClosed q = tq_closed q"

section \<open>Lemmas\<close>

definition valids :: "task_queue \<Rightarrow> task_id list" where
  "valids q = map tk_id (filter tk_valid (tq_tasks q))"

lemma evict_valids: "map tk_id (filter tk_valid (fst (evict ts))) = tl (map tk_id (filter tk_valid ts))"
  by (induction ts) (auto simp: case_prod_beta)

lemma evict_ids: "map tk_id (fst (evict ts)) = map tk_id ts"
  by (induction ts) (auto simp: case_prod_beta)

lemma evict_cancels: "snd (evict ts) = take 1 (map tk_id (filter tk_valid ts))"
  by (induction ts) (auto simp: case_prod_beta)

lemma AddTask_valids:
  "valids (fst (AddTask i e q)) = (if e then tl (valids q) else valids q) @ [i]"
  by (simp add: AddTask_def valids_def case_prod_beta Let_def evict_valids)

lemma AddTask_ids: "map tk_id (tq_tasks (fst (AddTask i e q))) = map tk_id (tq_tasks q) @ [i]"
  by (simp add: AddTask_def case_prod_beta Let_def evict_ids)

lemma RemoveTask_valids: "valids (fst (RemoveTask i q)) = filter (\<lambda>j. j \<noteq> i) (valids q)"
proof -
  have "map tk_id (filter tk_valid (map (\<lambda>t. if tk_id t = i then t\<lparr>tk_valid := False\<rparr> else t) ts)) =
      filter (\<lambda>j. j \<noteq> i) (map tk_id (filter tk_valid ts))" for ts
    by (induction ts) auto
  then show ?thesis by (simp add: RemoveTask_def valids_def)
qed

lemma RemoveTask_ids: "map tk_id (tq_tasks (fst (RemoveTask i q))) = map tk_id (tq_tasks q)"
  by (simp add: RemoveTask_def comp_def if_distrib cong: if_cong)

lemma CloseQueue_valids: "valids (fst (CloseQueue q)) = []"
  by (simp add: CloseQueue_def valids_def)

lemma IsTaskValid_iff:
  assumes "distinct (map tk_id (tq_tasks q))" and "\<not> tq_closed q"
  shows "IsTaskValid i q \<longleftrightarrow> i \<in> set (valids q)"
proof -
  have "distinct (map tk_id ts) \<Longrightarrow>
      (case find (\<lambda>t. tk_id t = i) ts of Some t \<Rightarrow> tk_valid t | None \<Rightarrow> False) \<longleftrightarrow> i \<in> tk_id ` set (filter tk_valid ts)" for ts
    by (induction ts) (auto simp: image_iff)
  then show ?thesis using assms by (simp add: IsTaskValid_def valids_def)
qed

lemma TaskCount_valids: "\<not> tq_closed q \<Longrightarrow> TaskCount q = length (valids q)"
  by (simp add: TaskCount_def valids_def)

end
