(* ===== verification/Retry.thy ===== *)
theory Retry
  imports Retry_Queue
begin

text \<open>
  Retrying a task: the policies, the options and the controller of \<^verbatim>\<open>internal/retry\<close> and its scheduler,
  \<^verbatim>\<open>internal/retry/task_scheduler.go\<close>.

  One call of \<open>Invoke\<close> is a state machine. Its threads are lists of instructions still to run: the caller,
  which reads the signal channel in \<open>Wait\<close>, and one list per callback, timer or cancellation that passed its
  check. The signal channel holds one message, the finish channel one token; a send on a full channel
  waits. The test of \<open>Finish\<close> and the closing of the queue are separate instructions, as in the code.
  Time is not measured: a timeout or the deadline may come at any moment, if its duration is not zero.
  An attempt is scheduled first, sleeps for its delay, and then begins, as the code has it: without a look at the
  queue. Its timer starts and its callbacks can be called only after it has begun.
\<close>

section \<open>Policies and options\<close>

record 'e task_context =
  tc_RetryNum :: nat
  tc_ConcurrencyNum :: nat
  tc_TotalLimit :: int
  tc_LastError :: "'e option"

record 'e options =
  op_timeLimit :: int
  op_timeoutPolicy :: "('e task_context \<Rightarrow> int) option"
  op_intervalPolicy :: "('e task_context \<Rightarrow> int) option"
  op_retryPolicy :: "('e task_context \<Rightarrow> bool) option"
  op_concurrencyPolicy :: "('e task_context \<Rightarrow> bool) option"
  op_timeoutErr :: "int \<Rightarrow> 'e"
  op_cancelError :: 'e

definition FixedTimeoutPolicy :: "int \<Rightarrow> 'e task_context \<Rightarrow> int" where
  "FixedTimeoutPolicy timeout c = timeout"

definition FixedRetryIntervalPolicy :: "int \<Rightarrow> 'e task_context \<Rightarrow> int" where
  "FixedRetryIntervalPolicy interval c = (if tc_RetryNum c = 0 then 0 else interval)"

definition FixedRetryCountPolicy :: "nat \<Rightarrow> 'e task_context \<Rightarrow> bool" where
  "FixedRetryCountPolicy retryTimes c = (tc_RetryNum c < retryTimes)"

definition AlwaysConcurrencyPolicy :: "'e task_context \<Rightarrow> bool" where
  "AlwaysConcurrencyPolicy c = True"

definition NeverConcurrencyPolicy :: "'e task_context \<Rightarrow> bool" where
  "NeverConcurrencyPolicy c = False"

definition WithTimeLimit :: "int \<Rightarrow> 'e options \<Rightarrow> 'e options" where
  "WithTimeLimit l opt = opt\<lparr>op_timeLimit := l\<rparr>"

definition WithTimeoutPolicy :: "('e task_context \<Rightarrow> int) \<Rightarrow> 'e options \<Rightarrow> 'e options" where
  "WithTimeoutPolicy p opt = opt\<lparr>op_timeoutPolicy := Some p\<rparr>"

definition WithRetryIntervalPolicy :: "('e task_context \<Rightarrow> int) \<Rightarrow> 'e options \<Rightarrow> 'e options" where
  "WithRetryIntervalPolicy p opt = opt\<lparr>op_intervalPolicy := Some p\<rparr>"

definition WithRetryPolicy :: "('e task_context \<Rightarrow> bool) \<Rightarrow> 'e options \<Rightarrow> 'e options" where
  "WithRetryPolicy p opt = opt\<lparr>op_retryPolicy := Some p\<rparr>"

definition WithConcurrencyPolicy :: "('e task_context \<Rightarrow> bool) \<Rightarrow> 'e options \<Rightarrow> 'e options" where
  "WithConcurrencyPolicy p opt = opt\<lparr>op_concurrencyPolicy := Some p\<rparr>"

definition WithTimeoutError :: "(int \<Rightarrow> 'e) \<Rightarrow> 'e options \<Rightarrow> 'e options" where
  "WithTimeoutError g opt = opt\<lparr>op_timeoutErr := g\<rparr>"

definition WithCancelError :: "'e \<Rightarrow> 'e options \<Rightarrow> 'e options" where
  "WithCancelError e opt = opt\<lparr>op_cancelError := e\<rparr>"

datatype controller_panic = NoTimeoutPolicy | NoIntervalPolicy | NoRetryPolicy | NoConcurrencyPolicy | DivideByZero

text \<open>The option functions are applied in order to the default options; a policy that is missing panics.\<close>

definition NewRetryController ::
  "'e \<Rightarrow> 'e \<Rightarrow> ('e options \<Rightarrow> 'e options) list \<Rightarrow> controller_panic + 'e options" where
  "NewRetryController errRetryTimeout errCanceled optFuncs =
     (let opt = fold (\<lambda>f. f) optFuncs
                \<lparr>op_timeLimit = 0, op_timeoutPolicy = None, op_intervalPolicy = None, op_retryPolicy = None,
                 op_concurrencyPolicy = None, op_timeoutErr = (\<lambda>_. errRetryTimeout), op_cancelError = errCanceled\<rparr>
      in if op_timeoutPolicy opt = None then Inl NoTimeoutPolicy
         else if op_intervalPolicy opt = None then Inl NoIntervalPolicy
         else if op_retryPolicy opt = None then Inl NoRetryPolicy
         else if op_concurrencyPolicy opt = None then Inl NoConcurrencyPolicy
         else Inr opt)"

text \<open>Go's division of integers rounds towards zero and panics on zero.\<close>

definition go_div :: "int \<Rightarrow> int \<Rightarrow> int option" where
  "go_div a b = (if b = 0 then None else Some (sgn a * sgn b * (\<bar>a\<bar> div \<bar>b\<bar>)))"

definition SimpleRetryController ::
  "('e task_context \<Rightarrow> bool) \<Rightarrow> 'e \<Rightarrow> 'e \<Rightarrow> nat \<Rightarrow> int \<Rightarrow> int \<Rightarrow> controller_panic + 'e options" where
  "SimpleRetryController concurrency errRetryTimeout errCanceled retryTimes retryInterval timeLimit =
     (case go_div (timeLimit + retryInterval) (int retryTimes) of
        None \<Rightarrow> Inl DivideByZero
      | Some q \<Rightarrow>
          NewRetryController errRetryTimeout errCanceled
            [WithTimeLimit timeLimit, WithTimeoutPolicy (FixedTimeoutPolicy (q - retryInterval)),
             WithRetryIntervalPolicy (FixedRetryIntervalPolicy retryInterval),
             WithRetryPolicy (FixedRetryCountPolicy retryTimes), WithConcurrencyPolicy concurrency])"

definition ConcurrencySimpleRetryController :: "'e \<Rightarrow> 'e \<Rightarrow> nat \<Rightarrow> int \<Rightarrow> int \<Rightarrow> controller_panic + 'e options" where
  "ConcurrencySimpleRetryController = SimpleRetryController AlwaysConcurrencyPolicy"

definition SerializationSimpleRetryController :: "'e \<Rightarrow> 'e \<Rightarrow> nat \<Rightarrow> int \<Rightarrow> int \<Rightarrow> controller_panic + 'e options" where
  "SerializationSimpleRetryController = SimpleRetryController NeverConcurrencyPolicy"

section \<open>The scheduler\<close>

datatype ('v, 'e) signal = SigDone 'v | SigError 'e | SigRetry 'e | SigTimeout int | SigQuit

text \<open>
  The instructions: a send on the signal channel, the test of \<open>Finish\<close> (which skips the rest of it if the
  queue is closed), its two further statements before the last send, and the removal of a task.
\<close>

datatype ('v, 'e) instr = Send "('v, 'e) signal" | FinTest | FinClose | FinToken | Remove task_id

record ('v, 'e) sched =
  sc_id :: task_id
  sc_queue :: task_queue
  sc_signalChan :: "('v, 'e) signal list"
  sc_finishChan :: nat
  sc_reader :: bool
  sc_threads :: "('v, 'e) instr list list"
  sc_main :: "('v, 'e) instr list option"
  sc_sleeping :: "(task_id \<times> int \<times> int) list"
  sc_begun :: "task_id list"
  sc_timeouts :: "(task_id \<times> int) list"
  sc_context :: "'e task_context"
  sc_result :: "'v option"
  sc_err :: "'e option"
  sc_started :: nat

text \<open>
  \<open>_Scheduler.Invoke\<close> schedules an attempt, which \<open>sc_started\<close> counts: the goroutine it starts sleeps for the delay. When
  it wakes up (\<open>invokeRoutine\<close>), the timer is set and the task is called, whether it is still valid or not.
\<close>

definition sc_Invoke :: "int \<Rightarrow> int \<Rightarrow> bool \<Rightarrow> ('v, 'e) sched \<Rightarrow> ('v, 'e) sched" where
  "sc_Invoke delay timeout evictOldestOne s =
     (if IsQueueClosed (sc_queue s) then s
      else (let i = sc_id s + 1
            in s\<lparr>sc_id := i, sc_queue := fst (AddTask i evictOldestOne (sc_queue s)),
                 sc_sleeping := (i, delay, timeout) # sc_sleeping s, sc_started := sc_started s + 1\<rparr>))"

definition invokeRoutine :: "task_id \<Rightarrow> ('v, 'e) sched \<Rightarrow> ('v, 'e) sched option" where
  "invokeRoutine i s =
     (case map_of (sc_sleeping s) i of
        None \<Rightarrow> None
      | Some (delay, timeout) \<Rightarrow>
          Some (s\<lparr>sc_sleeping := remove1 (i, delay, timeout) (sc_sleeping s), sc_begun := i # sc_begun s,
                  sc_timeouts := (i, timeout) # sc_timeouts s\<rparr>))"

definition calc_time :: "('e task_context \<Rightarrow> int) option \<Rightarrow> 'e task_context \<Rightarrow> int" where
  "calc_time p c = (case p of Some f \<Rightarrow> f c | None \<Rightarrow> 0)"

definition calc_bool :: "('e task_context \<Rightarrow> bool) option \<Rightarrow> 'e task_context \<Rightarrow> bool" where
  "calc_bool p c = (case p of Some f \<Rightarrow> f c | None \<Rightarrow> False)"

text \<open>\<open>_NewScheduler\<close> and the first \<open>Invoke\<close> of the controller. The reader is the goroutine at the finish channel.\<close>

definition start :: "'e options \<Rightarrow> ('v, 'e) sched" where
  "start opt =
     (let c = \<lparr>tc_RetryNum = 0, tc_ConcurrencyNum = 0, tc_TotalLimit = op_timeLimit opt, tc_LastError = None\<rparr>
      in sc_Invoke (calc_time (op_intervalPolicy opt) c) (calc_time (op_timeoutPolicy opt) c) False
           \<lparr>sc_id = 0, sc_queue = NewTaskQueue, sc_signalChan = [], sc_finishChan = 0, sc_reader = True,
            sc_threads = [], sc_main = Some [], sc_sleeping = [], sc_begun = [], sc_timeouts = [], sc_context = c, sc_result = None,
            sc_err = None, sc_started = 0\<rparr>)"

definition finish :: "('v, 'e) instr list" where
  "finish = [FinTest]"

text \<open>The closure \<open>retry\<close> of the controller.\<close>

definition do_retry :: "'e options \<Rightarrow> 'e \<Rightarrow> ('v, 'e) sched \<Rightarrow> ('v, 'e) sched" where
  "do_retry opt e s =
     (let c = (sc_context s)\<lparr>tc_LastError := Some e, tc_RetryNum := tc_RetryNum (sc_context s) + 1,
                tc_ConcurrencyNum := TaskCount (sc_queue s)\<rparr>;
          s1 = s\<lparr>sc_context := c\<rparr>
      in if calc_bool (op_retryPolicy opt) c
         then sc_Invoke (calc_time (op_intervalPolicy opt) c) (calc_time (op_timeoutPolicy opt) c) (\<not> calc_bool (op_concurrencyPolicy opt) c) s1
         else s1\<lparr>sc_err := Some e, sc_main := Some finish\<rparr>)"

text \<open>One round of the loop of \<open>Wait\<close>, with the functions the controller passes.\<close>

definition on_signal :: "'e \<Rightarrow> 'e options \<Rightarrow> ('v, 'e) signal \<Rightarrow> ('v, 'e) sched \<Rightarrow> ('v, 'e) sched" where
  "on_signal errCanceled opt sig s =
     (case sig of
        SigDone v \<Rightarrow> s\<lparr>sc_result := Some v\<rparr>
      | SigError e \<Rightarrow> s\<lparr>sc_err := Some (if e = errCanceled then op_cancelError opt else e)\<rparr>
      | SigRetry e \<Rightarrow> do_retry opt e s
      | SigTimeout t \<Rightarrow> do_retry opt (op_timeoutErr opt t) s
      | SigQuit \<Rightarrow> s\<lparr>sc_main := None\<rparr>)"

text \<open>
  One instruction of a thread: the instructions that are left and the new state, or \<open>None\<close> while it
  has to wait.
\<close>

fun exec :: "('v, 'e) instr list \<Rightarrow> ('v, 'e) sched \<Rightarrow> (('v, 'e) instr list \<times> ('v, 'e) sched) option" where
  "exec [] s = None"
| "exec (Send sig # is) s =
     (if length (sc_signalChan s) < 1 then Some (is, s\<lparr>sc_signalChan := sc_signalChan s @ [sig]\<rparr>) else None)"
| "exec (FinTest # is) s =
     (if IsQueueClosed (sc_queue s) then Some (is, s) else Some (FinClose # FinToken # Send SigQuit # is, s))"
| "exec (FinClose # is) s = Some (is, s\<lparr>sc_queue := fst (CloseQueue (sc_queue s))\<rparr>)"
| "exec (FinToken # is) s =
     (if sc_finishChan s < 1 then Some (is, s\<lparr>sc_finishChan := sc_finishChan s + 1\<rparr>) else None)"
| "exec (Remove i # is) s = Some (is, s\<lparr>sc_queue := fst (RemoveTask i (sc_queue s))\<rparr>)"

section \<open>Steps\<close>

datatype ('v, 'e) act =
    Receive | MainStep | ThreadStep nat | ReadToken
  | TaskBegin task_id
  | TaskSuccess task_id 'v | TaskError task_id 'e | TaskRetry task_id 'e | TaskTimeout task_id
  | Deadline 'e | CancelTask

definition spawn :: "('v, 'e) instr list \<Rightarrow> ('v, 'e) sched \<Rightarrow> ('v, 'e) sched" where
  "spawn p s = s\<lparr>sc_threads := sc_threads s @ [p]\<rparr>"

fun step :: "'e \<Rightarrow> 'e options \<Rightarrow> ('v, 'e) act \<Rightarrow> ('v, 'e) sched \<Rightarrow> ('v, 'e) sched option" where
  "step errCanceled opt Receive s =
     (if sc_main s = Some [] then
        (case sc_signalChan s of [] \<Rightarrow> None | sig # q \<Rightarrow> Some (on_signal errCanceled opt sig (s\<lparr>sc_signalChan := q\<rparr>)))
      else None)"
| "step errCanceled opt MainStep s =
     (case sc_main s of
        None \<Rightarrow> None
      | Some p \<Rightarrow> (case exec p s of None \<Rightarrow> None | Some (p', s') \<Rightarrow> Some (s'\<lparr>sc_main := Some p'\<rparr>)))"
| "step errCanceled opt (ThreadStep n) s =
     (if n < length (sc_threads s) then
        (case exec (sc_threads s ! n) s of
           None \<Rightarrow> None
         | Some (p', s') \<Rightarrow> Some (s'\<lparr>sc_threads := (sc_threads s')[n := p']\<rparr>))
      else None)"
| "step errCanceled opt ReadToken s =
     (if sc_reader s \<and> sc_finishChan s \<ge> 1 then Some (s\<lparr>sc_reader := False, sc_finishChan := sc_finishChan s - 1\<rparr>) else None)"
| "step errCanceled opt (TaskBegin i) s = invokeRoutine i s"
| "step errCanceled opt (TaskSuccess i v) s =
     (if i \<in> set (sc_begun s) \<and> IsTaskValid i (sc_queue s) then Some (spawn (Send (SigDone v) # finish) s) else None)"
| "step errCanceled opt (TaskError i e) s =
     (if i \<in> set (sc_begun s) \<and> IsTaskValid i (sc_queue s) then Some (spawn (Send (SigError e) # finish) s) else None)"
| "step errCanceled opt (TaskRetry i e) s =
     (if i \<in> set (sc_begun s) \<and> IsTaskValid i (sc_queue s) then Some (spawn [Send (SigRetry e), Remove i] s) else None)"
| "step errCanceled opt (TaskTimeout i) s =
     (case map_of (sc_timeouts s) i of
        None \<Rightarrow> None
      | Some t \<Rightarrow> if t \<noteq> 0 \<and> IsTaskValid i (sc_queue s) then Some (spawn [Send (SigTimeout t)] s) else None)"
| "step errCanceled opt (Deadline e) s =
     (if op_timeLimit opt \<noteq> 0 \<and> sc_reader s then
        Some (if IsQueueClosed (sc_queue s) then s\<lparr>sc_reader := False\<rparr>
              else spawn (Send (SigError e) # finish) (s\<lparr>sc_reader := False\<rparr>))
      else None)"
| "step errCanceled opt CancelTask s =
     (if IsQueueClosed (sc_queue s) then None else Some (spawn (Send (SigError errCanceled) # finish) s))"

fun steps :: "'e \<Rightarrow> 'e options \<Rightarrow> ('v, 'e) act list \<Rightarrow> ('v, 'e) sched \<Rightarrow> ('v, 'e) sched option" where
  "steps errCanceled opt [] s = Some s"
| "steps errCanceled opt (a # as) s =
     (case step errCanceled opt a s of None \<Rightarrow> None | Some s' \<Rightarrow> steps errCanceled opt as s')"

section \<open>What a step changes\<close>

text \<open>\<open>keeps P\<close>: \<open>P\<close> holds after every step from a state in which it holds.\<close>

definition keeps :: "'e \<Rightarrow> 'e options \<Rightarrow> (('v, 'e) sched \<Rightarrow> bool) \<Rightarrow> bool" where
  "keeps ec opt P \<longleftrightarrow> (\<forall>a s s'. P s \<longrightarrow> step ec opt a s = Some s' \<longrightarrow> P s')"

lemma keeps_steps:
  assumes "keeps ec opt P" and "P s" and "steps ec opt as s = Some s'"
  shows "P s'"
  using assms(2,3)
proof (induction as arbitrary: s)
  case (Cons a as)
  then obtain s1 where "step ec opt a s = Some s1" and "steps ec opt as s1 = Some s'" by (auto split: option.splits)
  then show ?case using Cons assms(1) by (metis keeps_def)
qed simp

text \<open>
  What all proofs use: an invariant only has to be checked for the two kinds of progress that matter, a
  received signal and one instruction, and for the harmless changes around them.
\<close>

lemma keepsI:
  fixes P :: "('v, 'e) sched \<Rightarrow> bool"
  assumes signal: "\<And>s sig q. P s \<Longrightarrow> sc_main s = Some [] \<Longrightarrow> sc_signalChan s = sig # q \<Longrightarrow>
      P (on_signal ec opt sig (s\<lparr>sc_signalChan := q\<rparr>))"
    and main: "\<And>s p p' s'. P s \<Longrightarrow> sc_main s = Some p \<Longrightarrow> exec p s = Some (p', s') \<Longrightarrow> P (s'\<lparr>sc_main := Some p'\<rparr>)"
    and thread: "\<And>s n p' s'. P s \<Longrightarrow> n < length (sc_threads s) \<Longrightarrow> exec (sc_threads s ! n) s = Some (p', s') \<Longrightarrow>
      P (s'\<lparr>sc_threads := (sc_threads s')[n := p']\<rparr>)"
    and spawn: "\<And>s p. P s \<Longrightarrow> p \<in> {Send (SigDone v) # finish | v. True} \<union> {Send (SigError e) # finish | e. True} \<union>
        {[Send (SigRetry e), Remove i] | e i. True} \<union> {[Send (SigTimeout t)] | t. True} \<Longrightarrow>
      P (s\<lparr>sc_threads := sc_threads s @ [p]\<rparr>)"
    and reader: "\<And>s r n. P s \<Longrightarrow> P (s\<lparr>sc_reader := r\<rparr>)"
    and token: "\<And>s n. P s \<Longrightarrow> P (s\<lparr>sc_reader := False, sc_finishChan := n\<rparr>)"
    and begun: "\<And>s sl b t. P s \<Longrightarrow> P (s\<lparr>sc_sleeping := sl, sc_begun := b, sc_timeouts := t\<rparr>)"
  shows "keeps ec opt P"
  unfolding keeps_def
proof (intro allI impI)
  fix a :: "('v, 'e) act" and s s'
  assume P: "P s" and st: "step ec opt a s = Some s'"
  show "P s'"
  proof (cases a)
    case Receive
    then show ?thesis using P st signal by (auto split: if_splits list.splits)
  next
    case MainStep
    then show ?thesis using P st main by (auto split: option.splits)
  next
    case (ThreadStep n)
    then show ?thesis using P st thread by (auto split: if_splits option.splits)
  next
    case ReadToken
    then show ?thesis using P st token by (auto split: if_splits)
  next
    case (TaskBegin i)
    then show ?thesis using P st begun by (auto simp: invokeRoutine_def split: option.splits)
  next
    case (TaskSuccess i v)
    then show ?thesis using P st spawn by (auto simp: spawn_def split: if_splits)
  next
    case (TaskError i e)
    then show ?thesis using P st spawn by (auto simp: spawn_def split: if_splits)
  next
    case (TaskRetry i e)
    then show ?thesis using P st spawn by (auto simp: spawn_def split: if_splits)
  next
    case (TaskTimeout i)
    then show ?thesis using P st spawn by (auto simp: spawn_def split: if_splits option.splits)
  next
    case (Deadline e)
    then show ?thesis
      using P st spawn [OF reader [OF P], of "Send (SigError e) # finish" False] reader [OF P, of False]
      by (auto simp: spawn_def split: if_splits)
  next
    case CancelTask
    then show ?thesis using P st spawn by (auto simp: spawn_def split: if_splits)
  qed
qed

lemma exec_frame:
  assumes "exec p s = Some (p', s')"
  shows "sc_threads s' = sc_threads s" and "sc_main s' = sc_main s" and "sc_context s' = sc_context s"
    and "sc_started s' = sc_started s" and "sc_id s' = sc_id s" and "sc_sleeping s' = sc_sleeping s" and "sc_begun s' = sc_begun s"
    and "sc_result s' = sc_result s" and "sc_err s' = sc_err s"
  using assms by (induction p s rule: exec.induct) (auto split: if_splits)

lemma sc_Invoke_frame:
  "sc_threads (sc_Invoke d t e s) = sc_threads s" "sc_main (sc_Invoke d t e s) = sc_main s"
  "sc_context (sc_Invoke d t e s) = sc_context s" "sc_signalChan (sc_Invoke d t e s) = sc_signalChan s"
  by (simp_all add: sc_Invoke_def Let_def)

subsection \<open>The number of attempts\<close>

definition bounded :: "nat \<Rightarrow> ('v, 'e) sched \<Rightarrow> bool" where
  "bounded n s \<longleftrightarrow> sc_started s \<le> tc_RetryNum (sc_context s) + 1 \<and> sc_started s \<le> max 1 n"

lemma sc_Invoke_started: "sc_started (sc_Invoke d t e s) \<le> sc_started s + 1"
  by (simp add: sc_Invoke_def Let_def)

lemma do_retry_bounded:
  assumes "op_retryPolicy opt = Some (FixedRetryCountPolicy n)" and "bounded n s"
  shows "bounded n (do_retry opt e s)"
proof (cases "tc_RetryNum (sc_context s) + 1 < n")
  case True
  let ?s = "s\<lparr>sc_context := (sc_context s)\<lparr>tc_LastError := Some e, tc_RetryNum := tc_RetryNum (sc_context s) + 1,
      tc_ConcurrencyNum := TaskCount (sc_queue s)\<rparr>\<rparr>"
  obtain d t v where r: "do_retry opt e s = sc_Invoke d t v ?s"
    using assms(1) True by (auto simp: do_retry_def Let_def calc_bool_def FixedRetryCountPolicy_def)
  have "sc_started (do_retry opt e s) \<le> sc_started s + 1" using sc_Invoke_started [of d t v ?s] by (simp add: r)
  moreover have "tc_RetryNum (sc_context (do_retry opt e s)) = tc_RetryNum (sc_context s) + 1"
    by (simp add: r sc_Invoke_frame)
  ultimately show ?thesis using assms(2) True by (auto simp: bounded_def)
next
  case False
  then show ?thesis
    using assms by (auto simp: do_retry_def Let_def bounded_def calc_bool_def FixedRetryCountPolicy_def)
qed

lemma keeps_bounded:
  assumes "op_retryPolicy opt = Some (FixedRetryCountPolicy n)"
  shows "keeps ec opt (bounded n :: ('v, 'e) sched \<Rightarrow> bool)"
proof (rule keepsI)
  fix s :: "('v, 'e) sched" and sig q
  assume "bounded n s"
  then have "bounded n (s\<lparr>sc_signalChan := q\<rparr>)" by (simp add: bounded_def)
  then show "bounded n (on_signal ec opt sig (s\<lparr>sc_signalChan := q\<rparr>))"
    using do_retry_bounded [OF assms, of "s\<lparr>sc_signalChan := q\<rparr>"]
    by (cases sig) (simp_all add: on_signal_def bounded_def)
qed (auto simp: bounded_def exec_frame)

lemma start_bounded: "bounded n (start opt)"
  by (simp add: start_def bounded_def sc_Invoke_def Let_def NewTaskQueue_def IsQueueClosed_def)

subsection \<open>One task at a time\<close>

definition serial :: "('v, 'e) sched \<Rightarrow> bool" where
  "serial s \<longleftrightarrow> length (valids (sc_queue s)) \<le> 1"

lemma exec_valids:
  "exec p s = Some (p', s') \<Longrightarrow> length (valids (sc_queue s')) \<le> length (valids (sc_queue s))"
  by (induction p s rule: exec.induct) (auto simp: CloseQueue_valids RemoveTask_valids split: if_splits)

lemma sc_Invoke_serial: "serial s \<Longrightarrow> serial (sc_Invoke d t True s)"
  by (simp add: serial_def sc_Invoke_def Let_def AddTask_valids)

lemma keeps_serial:
  assumes "\<And>c. \<not> calc_bool (op_concurrencyPolicy opt) c"
  shows "keeps ec opt (serial :: ('v, 'e) sched \<Rightarrow> bool)"
proof (rule keepsI)
  fix s :: "('v, 'e) sched" and sig q
  assume "serial s"
  then have s: "serial (s\<lparr>sc_signalChan := q, sc_context := c\<rparr>)" for c by (simp add: serial_def)
  have "serial (do_retry opt e (s\<lparr>sc_signalChan := q\<rparr>))" for e
    using sc_Invoke_serial [OF s] \<open>serial s\<close> by (auto simp: do_retry_def Let_def assms serial_def)
  then show "serial (on_signal ec opt sig (s\<lparr>sc_signalChan := q\<rparr>))"
    using \<open>serial s\<close> by (cases sig) (simp_all add: on_signal_def serial_def)
next
  fix s s' :: "('v, 'e) sched" and p p'
  assume "serial s" and "exec p s = Some (p', s')"
  then show "serial (s'\<lparr>sc_main := Some p'\<rparr>)" using exec_valids by (fastforce simp: serial_def)
next
  fix s s' :: "('v, 'e) sched" and n p'
  assume "serial s" and "exec (sc_threads s ! n) s = Some (p', s')"
  then show "serial (s'\<lparr>sc_threads := (sc_threads s')[n := p']\<rparr>)" using exec_valids by (fastforce simp: serial_def)
qed (simp_all add: serial_def)

lemma start_serial: "serial (start opt)"
  by (simp add: start_def serial_def sc_Invoke_def Let_def AddTask_def NewTaskQueue_def IsQueueClosed_def valids_def)

subsection \<open>A returned call is finished\<close>

text \<open>
  A quit signal is sent only after the queue was closed. \<open>after_close c p\<close>: if \<open>c\<close> says whether the queue is
  closed now, the program \<open>p\<close> sends no quit signal before it is closed.
\<close>

fun after_close :: "bool \<Rightarrow> ('v, 'e) instr list \<Rightarrow> bool" where
  "after_close c [] = True"
| "after_close c (FinClose # is) = after_close True is"
| "after_close c (Send SigQuit # is) = (c \<and> after_close c is)"
| "after_close c (_ # is) = after_close c is"

lemma after_close_mono: "after_close c p \<Longrightarrow> after_close True p"
  by (induction c p rule: after_close.induct) auto

lemma after_close_imp: "after_close c p \<Longrightarrow> c \<longrightarrow> d \<Longrightarrow> after_close d p"
  using after_close_mono by (cases c; cases d) auto

definition finished_ok :: "('v, 'e) sched \<Rightarrow> bool" where
  "finished_ok s \<longleftrightarrow>
     (let c = tq_closed (sc_queue s)
      in (\<forall>p \<in> set (sc_threads s). after_close c p) \<and>
         (case sc_main s of None \<Rightarrow> c | Some p \<Rightarrow> after_close c p) \<and>
         (SigQuit \<in> set (sc_signalChan s) \<longrightarrow> c) \<and> (c \<longrightarrow> tq_tasks (sc_queue s) = []))"

lemma exec_after_close:
  assumes "exec p s = Some (p', s')" and "after_close (tq_closed (sc_queue s)) p"
    and "tq_closed (sc_queue s) \<longrightarrow> tq_tasks (sc_queue s) = []" and "SigQuit \<in> set (sc_signalChan s) \<longrightarrow> tq_closed (sc_queue s)"
  shows "after_close (tq_closed (sc_queue s')) p' \<and> (tq_closed (sc_queue s) \<longrightarrow> tq_closed (sc_queue s')) \<and>
    (tq_closed (sc_queue s') \<longrightarrow> tq_tasks (sc_queue s') = []) \<and>
    (SigQuit \<in> set (sc_signalChan s') \<longrightarrow> tq_closed (sc_queue s'))"
proof (cases p)
  case (Cons i "is")
  then show ?thesis
  proof (cases i)
    case (Send sig)
    then show ?thesis using assms Cons by (cases sig) (auto split: if_splits)
  next
    case FinTest
    then show ?thesis using assms Cons by (auto simp: IsQueueClosed_def split: if_splits dest: after_close_mono)
  qed (use assms Cons in \<open>auto simp: CloseQueue_def RemoveTask_def split: if_splits\<close>)
qed (use assms in simp)

lemma after_close_finish [simp]: "after_close c finish"
  by (simp add: finish_def)

lemma AddTask_closed [simp]: "tq_closed (fst (AddTask i e q)) = tq_closed q"
  by (simp add: AddTask_def case_prod_beta Let_def)

lemma finished_ok_Invoke:
  assumes "finished_ok s"
  shows "finished_ok (sc_Invoke d t e s)"
proof (cases "tq_closed (sc_queue s)")
  case True
  then show ?thesis using assms by (simp add: sc_Invoke_def IsQueueClosed_def)
next
  case False
  then show ?thesis
    using assms by (cases "sc_main s") (simp_all add: sc_Invoke_def IsQueueClosed_def finished_ok_def Let_def)
qed

lemma keeps_finished: "keeps ec opt (finished_ok :: ('v, 'e) sched \<Rightarrow> bool)"
proof (rule keepsI)
  fix s :: "('v, 'e) sched" and sig q
  assume ok: "finished_ok s" and m: "sc_main s = Some []" and ch: "sc_signalChan s = sig # q"
  have s: "finished_ok (s\<lparr>sc_signalChan := q, sc_context := c\<rparr>)" for c
    using ok ch by (simp add: finished_ok_def Let_def)
  have e: "finished_ok (s\<lparr>sc_signalChan := q, sc_context := c, sc_err := x, sc_main := Some finish\<rparr>)" for c x
    using s [of c] by (simp add: finished_ok_def Let_def)
  have r: "finished_ok (do_retry opt e (s\<lparr>sc_signalChan := q\<rparr>))" for e
    using finished_ok_Invoke [OF s] e by (simp add: do_retry_def Let_def)
  show "finished_ok (on_signal ec opt sig (s\<lparr>sc_signalChan := q\<rparr>))"
  proof (cases sig)
    case SigQuit
    then have "tq_closed (sc_queue s)" using ok ch by (simp add: finished_ok_def Let_def)
    then show ?thesis using ok SigQuit by (auto simp: on_signal_def finished_ok_def Let_def)
  qed (use ok m ch r in \<open>simp_all add: on_signal_def finished_ok_def Let_def\<close>)
next
  fix s s' :: "('v, 'e) sched" and p p'
  assume "finished_ok s" and "sc_main s = Some p" and "exec p s = Some (p', s')"
  then show "finished_ok (s'\<lparr>sc_main := Some p'\<rparr>)"
    using exec_after_close [of p s p' s'] after_close_imp by (auto simp: finished_ok_def Let_def exec_frame)
next
  fix s s' :: "('v, 'e) sched" and n p'
  assume ok: "finished_ok s" and "n < length (sc_threads s)" and e: "exec (sc_threads s ! n) s = Some (p', s')"
  then have "after_close (tq_closed (sc_queue s)) (sc_threads s ! n)" by (simp add: finished_ok_def Let_def)
  note x = exec_after_close [OF e this]
  show "finished_ok (s'\<lparr>sc_threads := (sc_threads s')[n := p']\<rparr>)"
    using ok x after_close_imp [of "tq_closed (sc_queue s)" _ "tq_closed (sc_queue s')"] exec_frame(1,2) [OF e]
    by (auto simp: finished_ok_def Let_def dest!: set_update_subset_insert [THEN subsetD] split: option.splits)
next
  fix s :: "('v, 'e) sched" and p :: "('v, 'e) instr list"
  assume "finished_ok s" and "p \<in> {Send (SigDone v) # finish | v. True} \<union> {Send (SigError e) # finish | e. True} \<union>
        {[Send (SigRetry e), Remove i] | e i. True} \<union> {[Send (SigTimeout t)] | t. True}"
  then show "finished_ok (s\<lparr>sc_threads := sc_threads s @ [p]\<rparr>)"
    by (auto simp: finished_ok_def Let_def)
qed (simp_all add: finished_ok_def Let_def)

lemma start_finished_ok: "finished_ok (start opt)"
  unfolding start_def Let_def by (rule finished_ok_Invoke) (simp add: finished_ok_def NewTaskQueue_def)

subsection \<open>A caller that waits for itself\<close>

definition stuck :: "('v, 'e) sched \<Rightarrow> bool" where
  "stuck s \<longleftrightarrow> sc_main s = Some [Send SigQuit] \<and> length (sc_signalChan s) = 1"

lemma exec_full: "exec p s = Some (p', s') \<Longrightarrow> length (sc_signalChan s) = 1 \<Longrightarrow> sc_signalChan s' = sc_signalChan s"
  by (induction p s rule: exec.induct) (auto split: if_splits)

lemma keeps_stuck: "keeps ec opt (stuck :: ('v, 'e) sched \<Rightarrow> bool)"
proof (rule keepsI)
  fix s s' :: "('v, 'e) sched" and n p'
  assume s: "stuck s" and e: "exec (sc_threads s ! n) s = Some (p', s')"
  then show "stuck (s'\<lparr>sc_threads := (sc_threads s')[n := p']\<rparr>)"
    using exec_full [OF e] exec_frame(2) [OF e] by (simp add: stuck_def)
qed (auto simp: stuck_def)

section \<open>The controller\<close>

text \<open>
  The tasks with an id that are running: \<open>Invoke\<close> refuses an id that is in use, adds it while it runs and
  takes it out when it returns.
\<close>

datatype 's invoke_begin = DuplicateId | Begun "(string \<times> 's) list"

definition Invoke_begin :: "string \<Rightarrow> 's \<Rightarrow> (string \<times> 's) list \<Rightarrow> 's invoke_begin" where
  "Invoke_begin taskId scheduler taskMap =
     (if taskId \<noteq> '''' then
        (if mget taskMap taskId \<noteq> None then DuplicateId else Begun (AList.update taskId scheduler taskMap))
      else Begun taskMap)"

definition Invoke_end :: "string \<Rightarrow> (string \<times> 's) list \<Rightarrow> (string \<times> 's) list" where
  "Invoke_end taskId taskMap = (if taskId \<noteq> '''' then AList.delete taskId taskMap else taskMap)"

text \<open>Cancelling an unknown or finished task has no effect; otherwise a thread that sends the cancellation starts.\<close>

definition rc_CancelTask ::
  "'e \<Rightarrow> 'e options \<Rightarrow> string \<Rightarrow> (string \<times> ('v, 'e) sched) list \<Rightarrow> (string \<times> ('v, 'e) sched) list" where
  "rc_CancelTask errCanceled opt i taskMap =
     (case mget taskMap i of
        None \<Rightarrow> taskMap
      | Some s \<Rightarrow> (case step errCanceled opt CancelTask s of None \<Rightarrow> taskMap | Some s' \<Rightarrow> AList.update i s' taskMap))"

definition HasTask :: "string \<Rightarrow> (string \<times> 's) list \<Rightarrow> bool" where
  "HasTask i taskMap = (mget taskMap i \<noteq> None)"

section \<open>Runs of the machine\<close>

lemma started_bounded:
  assumes "op_retryPolicy opt = Some (FixedRetryCountPolicy n)"
    and "steps ec opt as (start opt :: ('v, 'e) sched) = Some s"
  shows "sc_started s \<le> max 1 n"
  using keeps_steps [OF keeps_bounded [OF assms(1)] start_bounded assms(2)] by (simp add: bounded_def)

lemma serial_task_count:
  assumes "op_concurrencyPolicy opt = Some NeverConcurrencyPolicy"
    and "steps ec opt as (start opt :: ('v, 'e) sched) = Some s"
  shows "TaskCount (sc_queue s) \<le> 1"
proof -
  have "\<not> calc_bool (op_concurrencyPolicy opt) c" for c by (simp add: assms(1) calc_bool_def NeverConcurrencyPolicy_def)
  then have "serial s" using keeps_steps [OF keeps_serial start_serial assms(2)] by blast
  then show ?thesis by (cases "tq_closed (sc_queue s)") (simp_all add: serial_def TaskCount_valids, simp add: TaskCount_def)
qed

text \<open>As long as no attempt asks to be repeated and none times out, the first attempt is the only one.\<close>

fun asks_repeat :: "('v, 'e) act \<Rightarrow> bool" where
  "asks_repeat (TaskRetry i e) = True"
| "asks_repeat (TaskTimeout i) = True"
| "asks_repeat _ = False"

fun repeats :: "('v, 'e) signal \<Rightarrow> bool" where
  "repeats (SigRetry e) = True"
| "repeats (SigTimeout t) = True"
| "repeats _ = False"

fun harmless :: "('v, 'e) instr \<Rightarrow> bool" where
  "harmless (Send sig) = (\<not> repeats sig)"
| "harmless _ = True"

definition calm :: "('v, 'e) sched \<Rightarrow> bool" where
  "calm s \<longleftrightarrow> sc_started s = 1 \<and> (\<forall>sig \<in> set (sc_signalChan s). \<not> repeats sig) \<and>
     (\<forall>p \<in> set (sc_threads s). list_all harmless p) \<and> (\<forall>p. sc_main s = Some p \<longrightarrow> list_all harmless p)"

lemma exec_calm:
  assumes "exec p s = Some (p', s')" and "calm s" and "list_all harmless p"
  shows "list_all harmless p' \<and> calm s'"
  using assms by (induction p s rule: exec.induct) (auto simp: calm_def split: if_splits)

lemma calm_step:
  assumes "step ec opt a s = Some s'" and "calm s" and "\<not> asks_repeat a"
  shows "calm s'"
proof (cases a)
  case Receive
  then obtain sig q where q: "sc_signalChan s = sig # q" and s': "s' = on_signal ec opt sig (s\<lparr>sc_signalChan := q\<rparr>)"
    using assms(1) by (auto split: if_splits list.splits)
  then show ?thesis using assms(2) by (cases sig) (simp_all add: on_signal_def calm_def)
next
  case MainStep
  then obtain p p' s1 where p: "sc_main s = Some p" "exec p s = Some (p', s1)" and s': "s' = s1\<lparr>sc_main := Some p'\<rparr>"
    using assms(1) by (auto split: option.splits)
  have "list_all harmless p" using p(1) assms(2) by (simp add: calm_def)
  then show ?thesis using exec_calm [OF p(2) assms(2)] s' by (simp add: calm_def)
next
  case (ThreadStep n)
  then obtain p' s1 where e: "exec (sc_threads s ! n) s = Some (p', s1)" "n < length (sc_threads s)"
    and s': "s' = s1\<lparr>sc_threads := (sc_threads s1)[n := p']\<rparr>"
    using assms(1) by (auto split: if_splits option.splits)
  have "list_all harmless (sc_threads s ! n)" using e(2) assms(2) by (simp add: calm_def)
  then show ?thesis using exec_calm [OF e(1) assms(2)] s' set_update_subset_insert [of "sc_threads s1" n p']
    by (auto simp: calm_def)
next
  case (Deadline e)
  then show ?thesis using assms(1,2) by (auto simp: calm_def spawn_def finish_def split: if_splits)
qed (use assms in \<open>auto simp: calm_def spawn_def finish_def invokeRoutine_def split: if_splits option.splits\<close>)

lemma calm_steps:
  "steps ec opt as s = Some s' \<Longrightarrow> calm s \<Longrightarrow> \<not> list_ex asks_repeat as \<Longrightarrow> calm s'"
  by (induction as arbitrary: s) (auto split: option.splits dest: calm_step)

lemma calm_started:
  assumes "steps ec opt as (start opt :: ('v, 'e) sched) = Some s" and "\<not> list_ex asks_repeat as"
  shows "sc_started s = 1"
proof -
  have "calm (start opt :: ('v, 'e) sched)"
    by (simp add: start_def calm_def sc_Invoke_def Let_def NewTaskQueue_def IsQueueClosed_def)
  then show ?thesis using calm_steps [OF assms(1) _ assms(2)] by (simp add: calm_def)
qed

subsection \<open>After the return\<close>

text \<open>\<open>over s s'\<close>: the call has returned in \<open>s\<close>, and \<open>s'\<close> is a later state of what is left of it.\<close>

definition over :: "('v, 'e) sched \<Rightarrow> ('v, 'e) sched \<Rightarrow> bool" where
  "over s s' \<longleftrightarrow> sc_main s' = None \<and> tq_closed (sc_queue s') \<and> tq_tasks (sc_queue s') = [] \<and>
     sc_result s' = sc_result s \<and> sc_err s' = sc_err s \<and> sc_id s' = sc_id s \<and> sc_started s' = sc_started s \<and>
     set (sc_begun s') \<union> fst ` set (sc_sleeping s') \<subseteq> set (sc_begun s) \<union> fst ` set (sc_sleeping s)"

lemma exec_closed:
  "exec p s = Some (p', s') \<Longrightarrow> tq_closed (sc_queue s) \<Longrightarrow> tq_tasks (sc_queue s) = [] \<Longrightarrow>
   tq_closed (sc_queue s') \<and> tq_tasks (sc_queue s') = []"
  by (induction p s rule: exec.induct) (auto simp: CloseQueue_def RemoveTask_def split: if_splits)

lemma invokeRoutine_over:
  assumes "over s s1" and "invokeRoutine i s1 = Some s2"
  shows "over s s2"
proof -
  obtain d t where m: "map_of (sc_sleeping s1) i = Some (d, t)"
    and s2: "s2 = s1\<lparr>sc_sleeping := remove1 (i, d, t) (sc_sleeping s1), sc_begun := i # sc_begun s1, sc_timeouts := (i, t) # sc_timeouts s1\<rparr>"
    using assms(2) by (auto simp: invokeRoutine_def split: option.splits)
  have "i \<in> fst ` set (sc_sleeping s1)" using map_of_SomeD [OF m] by force
  moreover have "fst ` set (remove1 (i, d, t) (sc_sleeping s1)) \<subseteq> fst ` set (sc_sleeping s1)"
    by (rule image_mono) (rule set_remove1_subset)
  ultimately show ?thesis using assms(1) unfolding over_def s2 by auto
qed

lemma over_step:
  assumes "over s s1" and "step ec opt a s1 = Some s2"
  shows "over s s2"
proof (cases a)
  case (ThreadStep n)
  then obtain p' s3 where e: "exec (sc_threads s1 ! n) s1 = Some (p', s3)" and s2: "s2 = s3\<lparr>sc_threads := (sc_threads s3)[n := p']\<rparr>"
    using assms(2) by (auto split: if_splits option.splits)
  show ?thesis using assms(1) exec_closed [OF e] by (simp add: over_def s2 exec_frame [OF e])
next
  case (TaskBegin i)
  then show ?thesis using assms invokeRoutine_over by auto
next
  case (Deadline e)
  then have "s2 = s1\<lparr>sc_reader := False\<rparr>" using assms by (auto simp: over_def IsQueueClosed_def split: if_splits)
  then show ?thesis using assms(1) by (simp add: over_def)
next
  case ReadToken
  then have "\<exists>n. s2 = s1\<lparr>sc_reader := False, sc_finishChan := n\<rparr>" using assms(2) by (auto split: if_splits)
  then obtain n where "s2 = s1\<lparr>sc_reader := False, sc_finishChan := n\<rparr>" ..
  then show ?thesis using assms(1) by (simp add: over_def)
qed (use assms in \<open>auto simp: over_def IsTaskValid_def IsQueueClosed_def split: if_splits option.splits\<close>)

lemma over_steps: "over s s1 \<Longrightarrow> steps ec opt as s1 = Some s2 \<Longrightarrow> over s s2"
  by (induction as arbitrary: s1) (auto split: option.splits dest: over_step)

text \<open>No more attempts begin than are scheduled.\<close>

definition counted :: "('v, 'e) sched \<Rightarrow> bool" where
  "counted s \<longleftrightarrow> length (sc_begun s) + length (sc_sleeping s) = sc_started s"

lemma counted_Invoke: "counted s \<Longrightarrow> counted (sc_Invoke d t e s)"
  by (simp add: counted_def sc_Invoke_def Let_def)

lemma counted_retry:
  assumes "counted s"
  shows "counted (do_retry opt e s)"
proof -
  have c: "counted (s\<lparr>sc_context := c\<rparr>)" "counted (s\<lparr>sc_context := c, sc_err := x, sc_main := y\<rparr>)" for c x y
    using assms by (simp_all add: counted_def)
  show ?thesis using counted_Invoke [OF c(1)] c(2) by (simp add: do_retry_def Let_def)
qed

lemma counted_step:
  assumes "counted s" and "step ec opt a s = Some s'"
  shows "counted s'"
proof (cases a)
  case Receive
  then obtain sig q where s': "s' = on_signal ec opt sig (s\<lparr>sc_signalChan := q\<rparr>)" using assms(2) by (auto split: if_splits list.splits)
  have "counted (s\<lparr>sc_signalChan := q\<rparr>)" using assms(1) by (simp add: counted_def)
  then have "counted (do_retry opt e (s\<lparr>sc_signalChan := q\<rparr>))" for e by (rule counted_retry)
  then show ?thesis using assms(1) s' by (cases sig) (simp_all add: on_signal_def counted_def)
next
  case (TaskBegin i)
  then obtain d t where "map_of (sc_sleeping s) i = Some (d, t)" using assms(2) by (auto simp: invokeRoutine_def split: option.splits)
  then have m: "(i, d, t) \<in> set (sc_sleeping s)" and s': "s' = s\<lparr>sc_sleeping := remove1 (i, d, t) (sc_sleeping s), sc_begun := i # sc_begun s,
      sc_timeouts := (i, t) # sc_timeouts s\<rparr>"
    using assms(2) TaskBegin by (auto simp: invokeRoutine_def dest: map_of_SomeD)
  have "length (sc_sleeping s) > 0" using m by (rule length_pos_if_in_set)
  then show ?thesis using assms(1) m by (cases "length (sc_sleeping s)") (auto simp: counted_def s' length_remove1)
next
  case (Deadline e)
  then show ?thesis using assms by (auto simp: counted_def spawn_def split: if_splits)
qed (use assms in \<open>auto simp: counted_def spawn_def exec_frame split: if_splits option.splits\<close>)

lemma begun_le_started:
  assumes "steps ec opt as (start opt :: ('v, 'e) sched) = Some s"
  shows "length (sc_begun s) \<le> sc_started s"
proof -
  have "counted (start opt :: ('v, 'e) sched)" unfolding start_def Let_def by (rule counted_Invoke) (simp add: counted_def)
  moreover have k: "keeps ec opt (counted :: ('v, 'e) sched \<Rightarrow> bool)" unfolding keeps_def by (intro allI impI) (rule counted_step)
  ultimately have "counted s" using keeps_steps [OF k _ assms] by blast
  then show ?thesis by (simp add: counted_def)
qed

section \<open>Properties\<close>

text \<open>
  Bounded attempts. With the fixed retry count \<open>n\<close> no run of \<open>Invoke\<close>, whatever the interleaving of
  callbacks, timeouts, deadline and cancellation, starts the task more than \<open>max 1 n\<close> times.
\<close>

theorem attempts_bounded:
  assumes "op_retryPolicy opt = Some (FixedRetryCountPolicy n)"
    and "steps ec opt as (start opt :: ('v, 'e) sched) = Some s"
  shows "sc_started s \<le> max 1 n"
  using assms by (rule started_bounded)

definition demo_options :: "nat \<Rightarrow> bool \<Rightarrow> string options" where
  "demo_options n concurrent =
     \<lparr>op_timeLimit = 0, op_timeoutPolicy = Some (FixedTimeoutPolicy 5), op_intervalPolicy = Some (FixedRetryIntervalPolicy 0),
      op_retryPolicy = Some (FixedRetryCountPolicy n),
      op_concurrencyPolicy = Some (if concurrent then AlwaysConcurrencyPolicy else NeverConcurrencyPolicy),
      op_timeoutErr = (\<lambda>_. ''timeout''), op_cancelError = ''canceled''\<rparr>"

definition demo_run :: "(nat, string) act list" where
  "demo_run = [TaskBegin 1, TaskRetry 1 ''e'', ThreadStep 0, ThreadStep 0, Receive, TaskBegin 2, TaskSuccess 2 7, ThreadStep 1, Receive,
     ThreadStep 1, ThreadStep 1, ThreadStep 1, ThreadStep 1, Receive]"

text \<open>The first attempt times out, the second sleeps while the first succeeds.\<close>

definition late_run :: "(nat, string) act list" where
  "late_run = [TaskBegin 1, TaskTimeout 1, ThreadStep 0, Receive, TaskSuccess 1 7, ThreadStep 1, Receive,
     ThreadStep 1, ThreadStep 1, ThreadStep 1, ThreadStep 1, Receive]"

theorem attempts_bounded_witness:
  "case steps ''canceled'' (demo_options 2 False) demo_run (start (demo_options 2 False)) of
     None \<Rightarrow> False
   | Some s \<Rightarrow> sc_started s \<le> max 1 2 \<and> sc_main s = None \<and> sc_result s = Some 7"
proof -
  define s where "s = the (steps ''canceled'' (demo_options 2 False) demo_run (start (demo_options 2 False)))"
  have "steps ''canceled'' (demo_options 2 False) demo_run (start (demo_options 2 False)) \<noteq> None" by code_simp
  then have s: "steps ''canceled'' (demo_options 2 False) demo_run (start (demo_options 2 False)) = Some s"
    by (auto simp: s_def)
  have p: "op_retryPolicy (demo_options 2 False) = Some (FixedRetryCountPolicy 2)" by (simp add: demo_options_def)
  have "sc_main s = None \<and> sc_result s = Some 7" unfolding s_def by code_simp
  with attempts_bounded [OF p s] show ?thesis by (simp add: s)
qed

text \<open>
  Serialised retries. With the policy that never allows concurrent retries, at most one attempt is
  valid at any moment of any run; the others can no longer report a result.
\<close>

theorem serial_single_attempt:
  assumes "op_concurrencyPolicy opt = Some NeverConcurrencyPolicy"
    and "steps ec opt as (start opt :: ('v, 'e) sched) = Some s"
  shows "TaskCount (sc_queue s) \<le> 1"
  using assms by (rule serial_task_count)

theorem serial_single_attempt_witness:
  "case steps ''canceled'' (demo_options 2 False) [TaskBegin 1, TaskTimeout 1, ThreadStep 0, Receive] (start (demo_options 2 False) :: (nat, string) sched) of
     None \<Rightarrow> False
   | Some s \<Rightarrow> sc_started s = 2 \<and> TaskCount (sc_queue s) \<le> 1"
proof -
  let ?r = "steps ''canceled'' (demo_options 2 False) [TaskBegin 1, TaskTimeout 1, ThreadStep 0, Receive] (start (demo_options 2 False) :: (nat, string) sched)"
  have "?r \<noteq> None" by code_simp
  then obtain s where s: "?r = Some s" by blast
  have p: "op_concurrencyPolicy (demo_options 2 False) = Some NeverConcurrencyPolicy" by (simp add: demo_options_def)
  have "sc_started (the ?r) = 2" by code_simp
  with serial_single_attempt [OF p s] s show ?thesis by simp
qed



text \<open>
  An attempt that sleeps when \<open>Invoke\<close> returns still begins: the task is called, although nobody waits for it and its
  answer is not heard.
\<close>

theorem attempt_after_return:
  "\<exists>s s'. steps ''canceled'' (demo_options 2 True) late_run (start (demo_options 2 True) :: (nat, string) sched) = Some s \<and>
     sc_main s = None \<and> step ''canceled'' (demo_options 2 True) (TaskBegin 2) s = Some s' \<and>
     \<not> IsTaskValid 2 (sc_queue s) \<and> 2 \<in> set (sc_begun s') - set (sc_begun s)"
proof -
  define s where "s = the (steps ''canceled'' (demo_options 2 True) late_run (start (demo_options 2 True) :: (nat, string) sched))"
  have "steps ''canceled'' (demo_options 2 True) late_run (start (demo_options 2 True) :: (nat, string) sched) \<noteq> None" by code_simp
  then have s: "steps ''canceled'' (demo_options 2 True) late_run (start (demo_options 2 True)) = Some s" by (auto simp: s_def)
  have m: "sc_main s = None" "\<not> IsTaskValid 2 (sc_queue s)" "sc_begun s = [1]" unfolding s_def by code_simp+
  have "map_of (sc_sleeping s) 2 \<noteq> None" unfolding s_def by code_simp
  then obtain d t where "map_of (sc_sleeping s) 2 = Some (d, t)" by auto
  then show ?thesis using s m by (auto simp: invokeRoutine_def)
qed

text \<open>
  Deadlock of the caller. With concurrent retries and no retry left there is a run in which the
  caller, inside \<open>Finish\<close>, waits to send the quit signal while a signal of another attempt is on the
  channel that only the caller reads. From there on, whatever happens, \<open>Invoke\<close> does not return.
\<close>

theorem finish_deadlock:
  "\<exists>s. steps ''canceled'' (demo_options 2 True)
         [TaskBegin 1, TaskTimeout 1, ThreadStep 0, Receive, TaskBegin 2, TaskRetry 1 ''e'', TaskRetry 2 ''f'', ThreadStep 1, Receive, ThreadStep 2,
          MainStep, MainStep, MainStep]
         (start (demo_options 2 True) :: (nat, string) sched) = Some s \<and>
       (\<forall>as. case steps ''canceled'' (demo_options 2 True) as s of None \<Rightarrow> True | Some s' \<Rightarrow> sc_main s' \<noteq> None)"
proof -
  let ?r = "steps ''canceled'' (demo_options 2 True)
         [TaskBegin 1, TaskTimeout 1, ThreadStep 0, Receive, TaskBegin 2, TaskRetry 1 ''e'', TaskRetry 2 ''f'', ThreadStep 1, Receive, ThreadStep 2,
          MainStep, MainStep, MainStep]
         (start (demo_options 2 True) :: (nat, string) sched)"
  have "?r \<noteq> None" by code_simp
  then obtain s where s: "?r = Some s" by blast
  have "sc_main (the ?r) = Some [Send SigQuit] \<and> length (sc_signalChan (the ?r)) = 1" by code_simp
  then have "stuck s" using s by (simp add: stuck_def)
  then have "sc_main s' \<noteq> None" if "steps ''canceled'' (demo_options 2 True) as s = Some s'" for as s'
    using keeps_steps [OF keeps_stuck _ that] by (simp add: stuck_def)
  with s show ?thesis by (auto split: option.split)
qed

end
