(* ===== verification/Control_Interceptor.thy ===== *)
theory Control_Interceptor
  imports Interceptor Control_Policy Retry "HOL-Library.Word"
begin

text \<open>
  The interceptors that apply the policies of the control plane: \<^verbatim>\<open>retry/retry.go\<close> and \<^verbatim>\<open>retry/export.go\<close>,
  \<^verbatim>\<open>circuit_breaker\<close>, \<^verbatim>\<open>rate_limit\<close> and \<^verbatim>\<open>timeout\<close>.

  Each of the first three keeps one object per service and method, made for a policy, and replaces or
  configures it anew when the policy changes. The control plane's answer for one call is \<open>None\<close> if there
  is no control plane. The circuits of \<open>cep21/circuit\<close> and the token buckets of \<open>juju/ratelimit\<close> are not part
  of the repository: a circuit is what the code has told it, how it runs a function is the argument
  \<open>execute\<close>, and buckets are made by \<open>newBucket\<close>, which panics on some arguments, and drawn from by \<open>take1\<close>.
  The locks make a look-up with its update one step.
\<close>

unbundle bit_operations_syntax

section \<open>Objects kept per policy\<close>

text \<open>The last state of a policy that was logged, and what a call logs.\<close>

datatype status_log = LogEnabled string | LogDisabled string

definition note_status :: "string \<Rightarrow> bool \<Rightarrow> (string \<times> bool) list \<Rightarrow> status_log list \<times> (string \<times> bool) list" where
  "note_status key enabled lastStatus =
     (let st = mget lastStatus key
      in if st = Some enabled then ([], lastStatus)
         else (if enabled then [LogEnabled key] else if st \<noteq> None then [LogDisabled key] else [],
               AList.update key enabled lastStatus))"

text \<open>
  The look-up all three managers have: an object that is there is updated to the policy, otherwise one is
  made. \<open>False\<close> is a panic; an update that panics may have changed the object all the same.
\<close>

definition with_policy ::
  "('p \<Rightarrow> 'w option) \<Rightarrow> ('p \<Rightarrow> 'w \<Rightarrow> bool \<times> 'w) \<Rightarrow> string \<Rightarrow> 'p \<Rightarrow> (string \<times> 'w) list \<Rightarrow> 'w option \<times> (string \<times> 'w) list" where
  "with_policy new update name policy objects =
     (case mget objects name of
        Some b \<Rightarrow>
          (case update policy b of
             (ok, b') \<Rightarrow> (if ok then Some b' else None, AList.update name b' objects))
      | None \<Rightarrow>
          (case new policy of
             None \<Rightarrow> (None, objects)
           | Some w \<Rightarrow> (Some w, AList.update name w objects)))"

section \<open>Retries\<close>

text \<open>The back-off: durations are 64-bit integers, and so is the shifted one.\<close>

definition exponentBase2 :: "bool \<Rightarrow> int \<Rightarrow> nat \<Rightarrow> int" where
  "exponentBase2 backoffExponential duration attemp =
     (if \<not> backoffExponential then duration
      else sint (word_of_int duration * signed_drop_bit 1 (push_bit attemp (1 :: 64 word))))"

text \<open>The jitter is a floating-point computation with a random number and stays a parameter.\<close>

definition jitterUp :: "('f \<Rightarrow> int \<Rightarrow> int) \<Rightarrow> 'f::zero \<Rightarrow> int \<Rightarrow> int" where
  "jitterUp jitter backoffJitter duration = (if backoffJitter = 0 then duration else jitter backoffJitter duration)"

definition NewBackoffPolicy :: "('f \<Rightarrow> int \<Rightarrow> int) \<Rightarrow> int \<Rightarrow> 'f::zero \<Rightarrow> bool \<Rightarrow> 'e task_context \<Rightarrow> int" where
  "NewBackoffPolicy jitter backoffDuration backoffJitter backoffExponential c =
     (if tc_RetryNum c = 0 then 0
      else jitterUp jitter backoffJitter (exponentBase2 backoffExponential backoffDuration (tc_RetryNum c)))"

definition rt_FixedTimeoutPolicy :: "int \<Rightarrow> 'e task_context \<Rightarrow> int" where
  "rt_FixedTimeoutPolicy timeout c = timeout"

definition rt_FixedRetryCountPolicy :: "nat \<Rightarrow> 'e task_context \<Rightarrow> bool" where
  "rt_FixedRetryCountPolicy retryTimes c = (tc_RetryNum c \<le> retryTimes)"

text \<open>The two errors the controller makes itself.\<close>

definition ErrRetryTimeout :: status_error where
  "ErrRetryTimeout = OtherError ''retry timeout exceeded''"

definition ErrSchedulerCanceled :: status_error where
  "ErrSchedulerCanceled = OtherError ''task canceled''"

definition newRetryController :: "('f \<Rightarrow> int \<Rightarrow> int) \<Rightarrow> 'f::zero retry_policy \<Rightarrow> controller_panic + status_error options" where
  "newRetryController jitter policy =
     NewRetryController ErrRetryTimeout ErrSchedulerCanceled
       ([WithTimeoutPolicy (rt_FixedTimeoutPolicy (rp_PerTryTimeout policy)),
         WithRetryPolicy (rt_FixedRetryCountPolicy (nat (rp_NumOfRetries policy))),
         WithRetryIntervalPolicy (NewBackoffPolicy jitter (rp_BackoffDuration policy) (rp_BackoffJitter policy) (rp_BackoffExponential policy))]
        @ (if rp_Overlap policy then [WithConcurrencyPolicy AlwaysConcurrencyPolicy] else [WithConcurrencyPolicy NeverConcurrencyPolicy]))"

record 'f retry_wrapper =
  rw_name :: string
  rw_controller :: "status_error options"
  rw_policy :: "'f retry_policy"

definition newRetryControllerWrapper :: "('f \<Rightarrow> int \<Rightarrow> int) \<Rightarrow> string \<Rightarrow> 'f::zero retry_policy \<Rightarrow> 'f retry_wrapper option" where
  "newRetryControllerWrapper jitter name policy =
     (case newRetryController jitter policy of
        Inl _ \<Rightarrow> None
      | Inr opt \<Rightarrow> Some \<lparr>rw_name = name, rw_controller = opt, rw_policy = policy\<rparr>)"

definition rw_UpdatePolicy :: "('f \<Rightarrow> int \<Rightarrow> int) \<Rightarrow> 'f::zero retry_policy \<Rightarrow> 'f retry_wrapper \<Rightarrow> bool \<times> 'f retry_wrapper" where
  "rw_UpdatePolicy jitter policy w =
     (let p = rw_policy w
      in if po_Version policy = po_Version p then (True, w)
         else if po_Enabled policy = po_Enabled p \<and> rp_NumOfRetries policy = rp_NumOfRetries p \<and>
                 rp_PerTryTimeout policy = rp_PerTryTimeout p \<and> rp_Overlap policy = rp_Overlap p \<and>
                 rp_BackoffDuration policy = rp_BackoffDuration p \<and> rp_BackoffJitter policy = rp_BackoffJitter p \<and>
                 rp_BackoffExponential policy = rp_BackoffExponential p then (True, w)
         else (let w1 = w\<lparr>rw_policy := policy\<rparr>
               in case newRetryController jitter policy of
                    Inl _ \<Rightarrow> (False, w1)
                  | Inr opt \<Rightarrow> (True, w1\<lparr>rw_controller := opt\<rparr>)))"

definition RetryControlByPolicy ::
  "('f \<Rightarrow> int \<Rightarrow> int) \<Rightarrow> string \<Rightarrow> 'f::zero retry_policy \<Rightarrow> (string \<times> 'f retry_wrapper) list \<Rightarrow>
     'f retry_wrapper option \<times> (string \<times> 'f retry_wrapper) list" where
  "RetryControlByPolicy jitter name = with_policy (newRetryControllerWrapper jitter name) (rw_UpdatePolicy jitter) name"

text \<open>
  \<open>retryHandler\<close> calls the handler once, or lets the controller of its key run it as often as its machine says,
  with the codes for which an attempt is repeated. Nothing else of it depends on the handler.
\<close>

record 'f retry_state =
  rs_lastStatus :: "(string \<times> bool) list"
  rs_retryControllers :: "(string \<times> 'f retry_wrapper) list"

datatype retry_plan = CallOnce | CallWith "status_error options" "int list" | RetryPanic

definition retryHandler ::
  "('f \<Rightarrow> int \<Rightarrow> int) \<Rightarrow> 'f::zero retry_policy option \<Rightarrow> string \<Rightarrow> string \<Rightarrow> 'f retry_state \<Rightarrow> retry_plan \<times> 'f retry_state" where
  "retryHandler jitter cp service meth st =
     (case cp of
        None \<Rightarrow> (CallOnce, st)
      | Some policy \<Rightarrow>
          (let key = service @ ''/'' @ meth;
               st1 = st\<lparr>rs_lastStatus := snd (note_status key (po_Enabled policy) (rs_lastStatus st))\<rparr>
           in if \<not> po_Enabled policy then (CallOnce, st1)
              else (case RetryControlByPolicy jitter key policy (rs_retryControllers st1) of
                      (None, cs) \<Rightarrow> (RetryPanic, st1\<lparr>rs_retryControllers := cs\<rparr>)
                    | (Some w, cs) \<Rightarrow>
                        (CallWith (rw_controller w) (rp_RetriableStatusCodes policy), st1\<lparr>rs_retryControllers := cs\<rparr>))))"

text \<open>What one attempt reports to the scheduler, by the result of the handler: the task of \<open>retryControllerWrapper.Invoke\<close>.\<close>

definition same_code :: "int \<Rightarrow> int \<Rightarrow> bool" where
  "same_code a b \<longleftrightarrow> a mod 2 ^ 32 = b mod 2 ^ 32"

definition attempt_report :: "int list \<Rightarrow> task_id \<Rightarrow> status_error option \<Rightarrow> (unit, status_error) act" where
  "attempt_report retriableCodes i result =
     (case result of
        None \<Rightarrow> TaskSuccess i ()
      | Some (Status c m) \<Rightarrow>
          if list_ex (\<lambda>code. same_code code c) retriableCodes then TaskRetry i (Status c m) else TaskError i (Status c m)
      | Some (OtherError m) \<Rightarrow> TaskError i (OtherError m))"

section \<open>Circuit breakers\<close>

record circuit_settings =
  cs_RequestVolumeThreshold :: int
  cs_ErrorThresholdPercentage :: int
  cs_RollingDuration :: int
  cs_NumBuckets :: int
  cs_SleepWindow :: int
  cs_Timeout :: int
  cs_MaxConcurrentRequests :: int
  cs_FallbackMaxConcurrentRequests :: int

record circuit =
  ci_name :: string
  ci_told :: "circuit_settings list"

record circuit_wrapper =
  cw_Circuit :: circuit
  cw_policy :: circuit_breaker_policy

text \<open>The settings of the four parts of a circuit, in the order in which a new one gets them.\<close>

definition settings_of :: "circuit_breaker_policy \<Rightarrow> circuit_settings" where
  "settings_of policy =
     \<lparr>cs_RequestVolumeThreshold = cb_RequestVolumeThreshold policy, cs_ErrorThresholdPercentage = cb_ErrorPercentThreshold policy,
      cs_RollingDuration = cb_RollingDurationInSec policy * 1000000000, cs_NumBuckets = cb_RollingDurationInSec policy,
      cs_SleepWindow = cb_SleepWindow policy, cs_Timeout = cb_Timeout policy,
      cs_MaxConcurrentRequests = cb_MaxConcurrentRequests policy, cs_FallbackMaxConcurrentRequests = -1\<rparr>"

definition newCircuitBreakerWrapper :: "string \<Rightarrow> circuit_breaker_policy \<Rightarrow> circuit_wrapper option" where
  "newCircuitBreakerWrapper name policy =
     Some \<lparr>cw_Circuit = \<lparr>ci_name = name, ci_told = [settings_of policy]\<rparr>, cw_policy = policy\<rparr>"

definition cw_UpdatePolicy :: "circuit_breaker_policy \<Rightarrow> circuit_wrapper \<Rightarrow> bool \<times> circuit_wrapper" where
  "cw_UpdatePolicy policy w =
     (let p = cw_policy w
      in if po_Version policy = po_Version p then (True, w)
         else if po_Enabled policy = po_Enabled p \<and> cb_Timeout policy = cb_Timeout p \<and>
                 cb_MaxConcurrentRequests policy = cb_MaxConcurrentRequests p \<and>
                 cb_RequestVolumeThreshold policy = cb_RequestVolumeThreshold p \<and> cb_SleepWindow policy = cb_SleepWindow p \<and>
                 cb_ErrorPercentThreshold policy = cb_ErrorPercentThreshold p \<and>
                 cb_RollingDurationInSec policy = cb_RollingDurationInSec p then (True, w)
         else (True, w\<lparr>cw_policy := policy,
                       cw_Circuit := (cw_Circuit w)\<lparr>ci_told := ci_told (cw_Circuit w) @ [settings_of policy]\<rparr>\<rparr>))"

definition CircuitWithPolicy ::
  "string \<Rightarrow> circuit_breaker_policy \<Rightarrow> (string \<times> circuit_wrapper) list \<Rightarrow> circuit_wrapper option \<times> (string \<times> circuit_wrapper) list" where
  "CircuitWithPolicy name = with_policy (newCircuitBreakerWrapper name) cw_UpdatePolicy name"

text \<open>
  The errors a circuit sees: one of the handler, one marked as the fault of the request, and the circuit's
  own refusal.
\<close>

datatype circuit_error = Plain status_error | SimpleBadRequest status_error | CircuitError string

record circuit_state =
  cs_lastStatus :: "(string \<times> bool) list"
  cs_circuitBreakers :: "(string \<times> circuit_wrapper) list"

definition codes_ResourceExhausted :: int where
  "codes_ResourceExhausted = 8"

text \<open>The two functions the circuit is given: the guarded handler and the fallback.\<close>

definition guarded ::
  "int list \<Rightarrow> ('s \<Rightarrow> status_error option outcome \<times> 's) \<Rightarrow> 's \<Rightarrow> circuit_error option outcome \<times> 's" where
  "guarded failureCodes handler s =
     (case handler s of
        (Panicked v, s') \<Rightarrow> (Panicked v, s')
      | (Returned None, s') \<Rightarrow> (Returned None, s')
      | (Returned (Some (Status c m)), s') \<Rightarrow>
          (Returned (Some (if list_ex (\<lambda>code. same_code code c) failureCodes then Plain (Status c m)
                           else SimpleBadRequest (Status c m))), s')
      | (Returned (Some (OtherError m)), s') \<Rightarrow> (Returned (Some (Plain (OtherError m))), s'))"

definition fallback :: "string \<Rightarrow> circuit_error \<Rightarrow> circuit_error option" where
  "fallback key err =
     (case err of
        CircuitError m \<Rightarrow>
          Some (Plain (Status codes_ResourceExhausted (''circuit_breaker: circuit breaker of '' @ key @ '' is triggered, err = '' @ m)))
      | _ \<Rightarrow> Some err)"

definition unwrap_error :: "circuit_error \<Rightarrow> status_error" where
  "unwrap_error e = (case e of SimpleBadRequest x \<Rightarrow> x | Plain x \<Rightarrow> x | CircuitError m \<Rightarrow> OtherError m)"

type_synonym 's executor =
  "circuit \<Rightarrow> ('s \<Rightarrow> circuit_error option outcome \<times> 's) \<Rightarrow> (circuit_error \<Rightarrow> circuit_error option) \<Rightarrow> 's \<Rightarrow> circuit_error option outcome \<times> 's"

definition circuitBreakerHandler ::
  "'w circuit_state_scheme executor \<Rightarrow> circuit_breaker_policy option \<Rightarrow> string \<Rightarrow> string \<Rightarrow>
     ('w circuit_state_scheme \<Rightarrow> status_error option outcome \<times> 'w circuit_state_scheme) \<Rightarrow>
     'w circuit_state_scheme \<Rightarrow> status_error option outcome \<times> 'w circuit_state_scheme" where
  "circuitBreakerHandler execute cp service meth handler st =
     (case cp of
        None \<Rightarrow> handler st
      | Some policy \<Rightarrow>
          (let key = service @ ''/'' @ meth;
               st1 = st\<lparr>cs_lastStatus := snd (note_status key (po_Enabled policy) (cs_lastStatus st))\<rparr>
           in if \<not> po_Enabled policy then handler st1
              else (case CircuitWithPolicy key policy (cs_circuitBreakers st1) of
                      (None, bs) \<Rightarrow> (Panicked (Some ''''), st1\<lparr>cs_circuitBreakers := bs\<rparr>)
                    | (Some w, bs) \<Rightarrow>
                        (case execute (cw_Circuit w) (guarded (cb_FailureStatusCode policy) handler) (fallback key)
                                (st1\<lparr>cs_circuitBreakers := bs\<rparr>) of
                           (Panicked v, s') \<Rightarrow> (Panicked v, s')
                         | (Returned r, s') \<Rightarrow> (Returned (map_option unwrap_error r), s')))))"

section \<open>Rate limits\<close>

datatype rateLimiterType = requestRateLimiter | sendMsgRateLimiter | recvMsgRateLimiter

fun limiter_digit :: "rateLimiterType \<Rightarrow> string" where
  "limiter_digit requestRateLimiter = ''0''"
| "limiter_digit sendMsgRateLimiter = ''1''"
| "limiter_digit recvMsgRateLimiter = ''2''"

record 'b rate_wrapper =
  lw_name :: string
  lw_rateLimiter :: 'b
  lw_policy :: rate_limit_policy

text \<open>A bucket for a policy: the interval between two tokens and the capacity. Both the division and \<open>newBucket\<close> may panic.\<close>

definition bucket_for :: "(int \<Rightarrow> int \<Rightarrow> 'b option) \<Rightarrow> (rate_limit_policy \<Rightarrow> int) \<Rightarrow> rate_limit_policy \<Rightarrow> 'b option" where
  "bucket_for newBucket requestPerUnit policy =
     (case go_div (rl_Unit policy) (requestPerUnit policy) of
        None \<Rightarrow> None
      | Some fillInterval \<Rightarrow> newBucket fillInterval (requestPerUnit policy))"

definition newRateLimiterWrapper ::
  "(int \<Rightarrow> int \<Rightarrow> 'b option) \<Rightarrow> string \<Rightarrow> (rate_limit_policy \<Rightarrow> int) \<Rightarrow> rate_limit_policy \<Rightarrow> 'b rate_wrapper option" where
  "newRateLimiterWrapper newBucket name requestPerUnit policy =
     map_option (\<lambda>b. \<lparr>lw_name = name, lw_rateLimiter = b, lw_policy = policy\<rparr>) (bucket_for newBucket requestPerUnit policy)"

definition lw_UpdatePolicy ::
  "(int \<Rightarrow> int \<Rightarrow> 'b option) \<Rightarrow> (rate_limit_policy \<Rightarrow> int) \<Rightarrow> rate_limit_policy \<Rightarrow> 'b rate_wrapper \<Rightarrow> bool \<times> 'b rate_wrapper" where
  "lw_UpdatePolicy newBucket requestPerUnit policy w =
     (let p = lw_policy w
      in if po_Version policy = po_Version p then (True, w)
         else if po_Enabled policy = po_Enabled p \<and> rl_MaxRequestPerUnit policy = rl_MaxRequestPerUnit p \<and>
                 rl_MaxSendMsgPerUnit policy = rl_MaxSendMsgPerUnit p \<and> rl_MaxRecvMsgPerUnit policy = rl_MaxRecvMsgPerUnit p \<and>
                 rl_Unit policy = rl_Unit p then (True, w)
         else (let w1 = w\<lparr>lw_policy := policy\<rparr>
               in case bucket_for newBucket requestPerUnit policy of
                    None \<Rightarrow> (False, w1)
                  | Some b \<Rightarrow> (True, w1\<lparr>lw_rateLimiter := b\<rparr>)))"

definition RateLimiterWithPolicy ::
  "(int \<Rightarrow> int \<Rightarrow> 'b option) \<Rightarrow> rateLimiterType \<Rightarrow> string \<Rightarrow> (rate_limit_policy \<Rightarrow> int) \<Rightarrow> rate_limit_policy \<Rightarrow>
     (string \<times> 'b rate_wrapper) list \<Rightarrow> 'b rate_wrapper option \<times> (string \<times> 'b rate_wrapper) list" where
  "RateLimiterWithPolicy newBucket typ name requestPerUnit =
     with_policy (newRateLimiterWrapper newBucket name requestPerUnit) (lw_UpdatePolicy newBucket requestPerUnit) (name @ limiter_digit typ)"

text \<open>
  One limited operation: a request, a message to send or a message to receive. The rest of the state is
  behind the fields of the record, so the operation that is limited can be another limited one.
  \<open>TakeAvailable(1)\<close> answers with the tokens it got and changes the bucket.
\<close>

record 'b rate_state =
  ls_lastStatus :: "(string \<times> bool) list"
  ls_rateLimiters :: "(string \<times> 'b rate_wrapper) list"

type_synonym ('b, 'w) limited = "('b, 'w) rate_state_scheme \<Rightarrow> status_error option outcome \<times> ('b, 'w) rate_state_scheme"

definition limit_operation ::
  "rateLimiterType \<Rightarrow> (rate_limit_policy \<Rightarrow> int) \<Rightarrow> string \<Rightarrow> (int \<Rightarrow> int \<Rightarrow> 'b option) \<Rightarrow> ('b \<Rightarrow> int \<times> 'b) \<Rightarrow>
     rate_limit_policy option \<Rightarrow> string \<Rightarrow> string \<Rightarrow> ('b, 'w) limited \<Rightarrow> ('b, 'w) limited" where
  "limit_operation typ perUnit what newBucket take1 cp service meth inner st =
     (case cp of
        None \<Rightarrow> inner st
      | Some policy \<Rightarrow>
          (let key = service @ ''/'' @ meth;
               st1 = st\<lparr>ls_lastStatus := snd (note_status key (po_Enabled policy) (ls_lastStatus st))\<rparr>
           in if \<not> po_Enabled policy \<or> perUnit policy \<le> 0 then inner st1
              else (case RateLimiterWithPolicy newBucket typ key perUnit policy (ls_rateLimiters st1) of
                      (None, ls) \<Rightarrow> (Panicked (Some ''token bucket''), st1\<lparr>ls_rateLimiters := ls\<rparr>)
                    | (Some w, ls) \<Rightarrow>
                        (case take1 (lw_rateLimiter w) of
                           (n, b) \<Rightarrow>
                             (let st2 = st1\<lparr>ls_rateLimiters := AList.update (key @ limiter_digit typ) (w\<lparr>lw_rateLimiter := b\<rparr>) ls\<rparr>
                              in if n > 0 then inner st2
                                 else (Returned (Some (Status codes_ResourceExhausted
                                         (what @ '' of '' @ key @ '' is rejected by rate limiter''))), st2))))))"

definition requestRateLimitHandler where
  "requestRateLimitHandler = limit_operation requestRateLimiter rl_MaxRequestPerUnit ''request''"

definition lm_SendMsg where
  "lm_SendMsg = limit_operation sendMsgRateLimiter rl_MaxSendMsgPerUnit ''stream msg send''"

definition lm_RecvMsg where
  "lm_RecvMsg = limit_operation recvMsgRateLimiter rl_MaxRecvMsgPerUnit ''stream msg receive''"

section \<open>Timeouts\<close>

text \<open>
  With a timeout the handler runs in a goroutine of its own, with a context that expires after the timeout,
  and the caller takes whichever comes first. \<open>CtxDone\<close>: the context is done first; the handler goes on, what
  it does then is no part of the result, and its send on the unbuffered channel never ends. A panic in
  the goroutine ends the program.
\<close>

datatype race = HandlerFirst | CtxDone

datatype 'a timeout_result = Answer "'a outcome" | Crash "string option"

definition codes_DeadlineExceeded :: int where
  "codes_DeadlineExceeded = 4"

record timeout_state =
  ts_lastStatus :: "(string \<times> bool) list"

definition timeoutHandler ::
  "string \<Rightarrow> ('p::type) timeout_policy_scheme option \<Rightarrow> string \<Rightarrow> string \<Rightarrow> race \<Rightarrow>
     (int option \<Rightarrow> 'w timeout_state_scheme \<Rightarrow> status_error option outcome \<times> 'w timeout_state_scheme) \<Rightarrow>
     'w timeout_state_scheme \<Rightarrow> status_error option timeout_result \<times> 'w timeout_state_scheme" where
  "timeoutHandler typ cp service meth race handler st =
     (case cp of
        None \<Rightarrow> (case handler None st of (r, st') \<Rightarrow> (Answer r, st'))
      | Some policy \<Rightarrow>
          (let key = typ @ '':'' @ service @ ''/'' @ meth;
               st1 = st\<lparr>ts_lastStatus := snd (note_status key (po_Enabled policy) (ts_lastStatus st))\<rparr>
           in if \<not> po_Enabled policy \<or> tp_Timeout policy = 0 then (case handler None st1 of (r, st') \<Rightarrow> (Answer r, st'))
              else (case race of
                      CtxDone \<Rightarrow>
                        (Answer (Returned (Some (Status codes_DeadlineExceeded
                           (''timeout_handler: deadline of '' @ key @ '' is exceeded'')))), st1)
                    | HandlerFirst \<Rightarrow>
                        (case handler (Some (tp_Timeout policy)) st1 of
                           (Panicked v, st') \<Rightarrow> (Crash v, st')
                         | (Returned e, st') \<Rightarrow> (Answer (Returned e), st')))))"

section \<open>A call with retries\<close>

record 'f invoke_options =
  io_numberOfRetries :: nat
  io_perTryTimeout :: int
  io_overlap :: bool
  io_backoffDuration :: int
  io_backoffJitter :: 'f
  io_retriablePredict :: "(status_error \<Rightarrow> bool) option"
  io_invokerName :: string
  io_backoffExponential :: bool

definition WithRetry :: "nat \<Rightarrow> int \<Rightarrow> (status_error \<Rightarrow> bool) option \<Rightarrow> 'f invoke_options \<Rightarrow> 'e + 'f invoke_options" where
  "WithRetry numberOfRetries perTryTimeout retriablePredict opts =
     Inr (opts\<lparr>io_numberOfRetries := numberOfRetries, io_perTryTimeout := perTryTimeout, io_retriablePredict := retriablePredict\<rparr>)"

definition WithOverlap :: "bool \<Rightarrow> 'f invoke_options \<Rightarrow> 'e + 'f invoke_options" where
  "WithOverlap overlap opts = Inr (opts\<lparr>io_overlap := overlap\<rparr>)"

definition WithBackoffDuration :: "int \<Rightarrow> 'f invoke_options \<Rightarrow> 'e + 'f invoke_options" where
  "WithBackoffDuration backoffDuration opts = Inr (opts\<lparr>io_backoffDuration := backoffDuration\<rparr>)"

definition WithBackoffJitter :: "'f \<Rightarrow> 'f invoke_options \<Rightarrow> 'e + 'f invoke_options" where
  "WithBackoffJitter backoffJitter opts = Inr (opts\<lparr>io_backoffJitter := backoffJitter\<rparr>)"

definition WithBackoffExponential :: "bool \<Rightarrow> 'f invoke_options \<Rightarrow> 'e + 'f invoke_options" where
  "WithBackoffExponential backoffExponential opts = Inr (opts\<lparr>io_backoffExponential := backoffExponential\<rparr>)"

definition WithInvokerName :: "string \<Rightarrow> 'f invoke_options \<Rightarrow> 'e + 'f invoke_options" where
  "WithInvokerName name opts = Inr (opts\<lparr>io_invokerName := name\<rparr>)"

text \<open>
  \<open>InvokeWithRetry\<close> calls the function once by itself. Only if that fails it makes a controller, whose
  machine then runs the further attempts; \<open>invoke_report\<close> is what each of those reports.
\<close>

datatype 'v invoke_start = OptionFailed status_error | FirstSucceeded 'v | RetryWith "status_error options" | InvokePanic

definition invoke_controller :: "('f \<Rightarrow> int \<Rightarrow> int) \<Rightarrow> 'f::zero invoke_options \<Rightarrow> controller_panic + status_error options" where
  "invoke_controller jitter opts =
     NewRetryController ErrRetryTimeout ErrSchedulerCanceled
       ([WithTimeoutPolicy (rt_FixedTimeoutPolicy (io_perTryTimeout opts)),
         WithRetryPolicy (rt_FixedRetryCountPolicy (io_numberOfRetries opts)),
         WithRetryIntervalPolicy (NewBackoffPolicy jitter (io_backoffDuration opts) (io_backoffJitter opts) (io_backoffExponential opts))]
        @ (if io_overlap opts then [WithConcurrencyPolicy AlwaysConcurrencyPolicy] else [WithConcurrencyPolicy NeverConcurrencyPolicy]))"

definition InvokeWithRetry ::
  "('f \<Rightarrow> int \<Rightarrow> int) \<Rightarrow> ('f::zero invoke_options \<Rightarrow> status_error + 'f invoke_options) list \<Rightarrow>
     ('s \<Rightarrow> (status_error + 'v) \<times> 's) \<Rightarrow> 's \<Rightarrow> 'v invoke_start \<times> 's" where
  "InvokeWithRetry jitter opt invoker s =
     (case apply_hook_options opt
             \<lparr>io_numberOfRetries = 0, io_perTryTimeout = 0, io_overlap = False, io_backoffDuration = 0, io_backoffJitter = 0,
              io_retriablePredict = None, io_invokerName = '''', io_backoffExponential = False\<rparr> of
        Inl e \<Rightarrow> (OptionFailed e, s)
      | Inr opts \<Rightarrow>
          (case invoke_controller jitter opts of
             Inl _ \<Rightarrow> (InvokePanic, s)
           | Inr c \<Rightarrow>
               (case invoker s of
                  (Inr v, s') \<Rightarrow> (FirstSucceeded v, s')
                | (Inl e, s') \<Rightarrow> (RetryWith c, s'))))"

definition invoke_report :: "(status_error \<Rightarrow> bool) option \<Rightarrow> task_id \<Rightarrow> status_error + 'v \<Rightarrow> ('v, status_error) act" where
  "invoke_report retriablePredict i result =
     (case result of
        Inr v \<Rightarrow> TaskSuccess i v
      | Inl e \<Rightarrow> if (case retriablePredict of None \<Rightarrow> True | Some p \<Rightarrow> p e) then TaskRetry i e else TaskError i e)"

section \<open>Objects follow their policies\<close>

text \<open>
  The contract of a manager: an object made for a policy is good for it, an update makes an object that was
  good for its own policy good for the new one, and being good only depends on the settings of a policy.
  It rests on what a version is for: policies of one name with the same version have the same settings.
\<close>

definition agreeing :: "('p \<Rightarrow> int) \<Rightarrow> ('p \<Rightarrow> 'c) \<Rightarrow> (string \<times> 'p) set \<Rightarrow> bool" where
  "agreeing version settings S \<longleftrightarrow>
     (\<forall>n p q. (n, p) \<in> S \<and> (n, q) \<in> S \<and> version p = version q \<longrightarrow> settings p = settings q)"

text \<open>A sequence of look-ups, each followed by a use of the object that was found.\<close>

fun lookups ::
  "(string \<Rightarrow> 'p \<Rightarrow> (string \<times> 'w) list \<Rightarrow> 'w option \<times> (string \<times> 'w) list) \<Rightarrow> (string \<Rightarrow> string) \<Rightarrow> ('w \<Rightarrow> 'w) \<Rightarrow>
     (string \<times> 'p) list \<Rightarrow> (string \<times> 'w) list \<Rightarrow> 'w option list" where
  "lookups lookup key uses [] m = []"
| "lookups lookup key uses ((n, p) # cs) m =
     (case lookup n p m of
        (r, m') \<Rightarrow> r # lookups lookup key uses cs (case r of None \<Rightarrow> m' | Some w \<Rightarrow> AList.update (key n) (uses w) m'))"

lemma agreeing_subset: "agreeing version settings S \<Longrightarrow> T \<subseteq> S \<Longrightarrow> agreeing version settings T"
  unfolding agreeing_def by blast

locale policy_cache =
  fixes lookup :: "string \<Rightarrow> 'p \<Rightarrow> (string \<times> 'w) list \<Rightarrow> 'w option \<times> (string \<times> 'w) list"
    and new :: "string \<Rightarrow> 'p \<Rightarrow> 'w option" and update :: "'p \<Rightarrow> 'w \<Rightarrow> bool \<times> 'w" and key :: "string \<Rightarrow> string"
    and pol :: "'w \<Rightarrow> 'p" and version :: "'p \<Rightarrow> int" and settings :: "'p \<Rightarrow> 'c" and fine :: "'p \<Rightarrow> bool"
    and good :: "'p \<Rightarrow> 'w \<Rightarrow> bool"
  assumes lookup_eq: "lookup n = with_policy (new n) update (key n)"
    and key_inj: "key n = key n' \<longleftrightarrow> n = n'"
    and new_good: "fine p \<Longrightarrow> \<exists>w. new n p = Some w \<and> good p w \<and> pol w = p"
    and update_good: "fine p \<Longrightarrow> good (pol w) w \<Longrightarrow> (version p = version (pol w) \<longrightarrow> settings p = settings (pol w)) \<Longrightarrow>
      \<exists>w'. update p w = (True, w') \<and> good p w' \<and> good (pol w') w' \<and> (pol w' = p \<or> pol w' = pol w)"
begin

definition follows :: "(string \<times> 'p) set \<Rightarrow> (string \<times> 'w) list \<Rightarrow> bool" where
  "follows S m \<longleftrightarrow> (\<forall>n w. mget m (key n) = Some w \<longrightarrow> good (pol w) w \<and> (n, pol w) \<in> S)"

lemma follows_empty: "follows S []"
  by (simp add: follows_def)

lemma follows_update:
  "follows S m \<Longrightarrow> good (pol w) w \<Longrightarrow> (n, pol w) \<in> S \<Longrightarrow> follows S (AList.update (key n) w m)"
  by (auto simp: follows_def key_inj split: if_splits)

lemma lookup_step:
  assumes "fine p" and "agreeing version settings (insert (n, p) S)" and m: "follows S m"
  shows "\<exists>w m'. lookup n p m = (Some w, m') \<and> good p w \<and> good (pol w) w \<and> (n, pol w) \<in> insert (n, p) S \<and>
           follows (insert (n, p) S) m'"
proof -
  have mono: "follows (insert (n, p) S) m" using m by (auto simp: follows_def)
  show ?thesis
  proof (cases "mget m (key n)")
    case None
    obtain w where "new n p = Some w" "good p w" "pol w = p" using new_good [OF \<open>fine p\<close>] by blast
    then show ?thesis using None follows_update [OF mono, of w n] by (simp add: lookup_eq with_policy_def)
  next
    case (Some w)
    then have w: "good (pol w) w" "(n, pol w) \<in> S" using m by (auto simp: follows_def)
    then have "version p = version (pol w) \<longrightarrow> settings p = settings (pol w)"
      using assms(2) unfolding agreeing_def by blast
    then obtain w' where u: "update p w = (True, w')" "good p w'" "good (pol w') w'" and p: "pol w' = p \<or> pol w' = pol w"
      using update_good [OF \<open>fine p\<close> w(1)] by blast
    have "(n, pol w') \<in> insert (n, p) S" using p w(2) by auto
    then show ?thesis using Some u follows_update [OF mono u(3)] by (simp add: lookup_eq with_policy_def)
  qed
qed

lemma lookups_good:
  assumes "\<And>p w. good p w \<Longrightarrow> good p (uses w) \<and> pol (uses w) = pol w"
  shows "follows S m \<Longrightarrow> agreeing version settings (S \<union> set cs) \<Longrightarrow> \<forall>(n, p) \<in> set cs. fine p \<Longrightarrow>
    list_all2 (\<lambda>(n, p) r. \<exists>w. r = Some w \<and> good p w) cs (lookups lookup key uses cs m)"
proof (induction cs arbitrary: S m)
  case (Cons c cs)
  obtain n p where c: "c = (n, p)" by (cases c)
  have "agreeing version settings (insert (n, p) S)" using Cons.prems(2) by (rule agreeing_subset) (auto simp: c)
  then obtain w m' where l: "lookup n p m = (Some w, m')" and w: "good p w" "good (pol w) w" "(n, pol w) \<in> insert (n, p) S"
    and m': "follows (insert (n, p) S) m'"
    using lookup_step [OF _ _ Cons.prems(1), of p n] Cons.prems(3) c by auto
  have "follows (insert (n, p) S) (AList.update (key n) (uses w) m')"
    using follows_update [OF m', of "uses w" n] assms [OF w(2)] w(3) by simp
  moreover have "agreeing version settings (insert (n, p) S \<union> set cs)" using Cons.prems(2) by (simp add: c)
  ultimately show ?case using Cons.IH Cons.prems(3) c l w(1) by simp
qed simp

end

subsection \<open>The three managers keep the contract\<close>

definition retry_settings :: "'f retry_policy \<Rightarrow> bool \<times> int \<times> int \<times> bool \<times> int \<times> 'f \<times> bool" where
  "retry_settings p = (po_Enabled p, rp_NumOfRetries p, rp_PerTryTimeout p, rp_Overlap p, rp_BackoffDuration p, rp_BackoffJitter p,
     rp_BackoffExponential p)"

definition breaker_settings :: "circuit_breaker_policy \<Rightarrow> bool \<times> int \<times> int \<times> int \<times> int \<times> int \<times> int" where
  "breaker_settings p = (po_Enabled p, cb_Timeout p, cb_MaxConcurrentRequests p, cb_RequestVolumeThreshold p, cb_SleepWindow p,
     cb_ErrorPercentThreshold p, cb_RollingDurationInSec p)"

definition rate_settings :: "rate_limit_policy \<Rightarrow> bool \<times> int \<times> int \<times> int \<times> int" where
  "rate_settings p = (po_Enabled p, rl_MaxRequestPerUnit p, rl_MaxSendMsgPerUnit p, rl_MaxRecvMsgPerUnit p, rl_Unit p)"

fun per_unit :: "rateLimiterType \<Rightarrow> rate_limit_policy \<Rightarrow> int" where
  "per_unit requestRateLimiter = rl_MaxRequestPerUnit"
| "per_unit sendMsgRateLimiter = rl_MaxSendMsgPerUnit"
| "per_unit recvMsgRateLimiter = rl_MaxRecvMsgPerUnit"

text \<open>A bucket that was made with an interval and a capacity and then drawn from.\<close>

inductive drawn :: "(int \<Rightarrow> int \<Rightarrow> 'b option) \<Rightarrow> ('b \<Rightarrow> int \<times> 'b) \<Rightarrow> int \<Rightarrow> int \<Rightarrow> 'b \<Rightarrow> bool"
  for newBucket take1 fillInterval capacity where
  drawn_new: "newBucket fillInterval capacity = Some b \<Longrightarrow> drawn newBucket take1 fillInterval capacity b"
| drawn_take: "drawn newBucket take1 fillInterval capacity b \<Longrightarrow> drawn newBucket take1 fillInterval capacity (snd (take1 b))"

definition rate_good ::
  "(int \<Rightarrow> int \<Rightarrow> 'b option) \<Rightarrow> ('b \<Rightarrow> int \<times> 'b) \<Rightarrow> rateLimiterType \<Rightarrow> rate_limit_policy \<Rightarrow> 'b rate_wrapper \<Rightarrow> bool" where
  "rate_good newBucket take1 lt p w \<longleftrightarrow>
     (\<exists>iv. go_div (rl_Unit p) (per_unit lt p) = Some iv \<and> drawn newBucket take1 iv (per_unit lt p) (lw_rateLimiter w))"

definition retry_good :: "('f \<Rightarrow> int \<Rightarrow> int) \<Rightarrow> 'f::zero retry_policy \<Rightarrow> 'f retry_wrapper \<Rightarrow> bool" where
  "retry_good jitter p w \<longleftrightarrow> newRetryController jitter p = Inr (rw_controller w)"

definition circuit_good :: "circuit_breaker_policy \<Rightarrow> circuit_wrapper \<Rightarrow> bool" where
  "circuit_good p w \<longleftrightarrow> ci_told (cw_Circuit w) \<noteq> [] \<and> last (ci_told (cw_Circuit w)) = settings_of p"

lemma newRetryController_made:
  "\<exists>opt. newRetryController jitter p = Inr opt \<and> op_timeLimit opt = 0 \<and>
     op_timeoutPolicy opt = Some (rt_FixedTimeoutPolicy (rp_PerTryTimeout p)) \<and>
     op_retryPolicy opt = Some (rt_FixedRetryCountPolicy (nat (rp_NumOfRetries p))) \<and>
     op_concurrencyPolicy opt = Some (if rp_Overlap p then AlwaysConcurrencyPolicy else NeverConcurrencyPolicy)"
  by (simp add: newRetryController_def NewRetryController_def WithTimeoutPolicy_def WithRetryPolicy_def
      WithRetryIntervalPolicy_def WithConcurrencyPolicy_def Let_def)

lemma newRetryController_settings:
  "retry_settings p = retry_settings q \<Longrightarrow> newRetryController jitter p = newRetryController jitter q"
  by (simp add: retry_settings_def newRetryController_def)

lemma settings_of_settings: "breaker_settings p = breaker_settings q \<Longrightarrow> settings_of p = settings_of q"
  by (simp add: breaker_settings_def settings_of_def)

lemma rate_good_settings:
  "rate_settings p = rate_settings q \<Longrightarrow> rate_good newBucket take1 lt p w \<Longrightarrow> rate_good newBucket take1 lt q w"
  by (cases lt) (simp_all add: rate_settings_def rate_good_def)

lemma rate_good_bucket:
  "bucket_for newBucket (per_unit lt) p = Some b \<Longrightarrow> lw_rateLimiter w = b \<Longrightarrow> rate_good newBucket take1 lt p w"
  by (auto simp: bucket_for_def rate_good_def intro: drawn_new split: option.splits)

interpretation rc: policy_cache "RetryControlByPolicy jitter" "newRetryControllerWrapper jitter" "rw_UpdatePolicy jitter"
  "\<lambda>n. n" rw_policy po_Version retry_settings "\<lambda>_. True" "retry_good jitter" for jitter :: "'f::zero \<Rightarrow> int \<Rightarrow> int"
proof (unfold_locales, goal_cases)
  case (3 p n)
  obtain opt where "newRetryController jitter p = Inr opt" using newRetryController_made [of jitter p] by blast
  then show ?case by (simp add: newRetryControllerWrapper_def retry_good_def)
next
  case (4 p w)
  obtain opt where "newRetryController jitter p = Inr opt" using newRetryController_made [of jitter p] by blast
  moreover have "retry_good jitter p w" if "retry_settings p = retry_settings (rw_policy w)"
    using 4(2) newRetryController_settings [OF that] by (simp add: retry_good_def)
  ultimately show ?case using 4 by (auto simp: rw_UpdatePolicy_def Let_def retry_good_def retry_settings_def)
qed (simp_all add: RetryControlByPolicy_def)

interpretation cb: policy_cache CircuitWithPolicy newCircuitBreakerWrapper cw_UpdatePolicy
  "\<lambda>n. n" cw_policy po_Version breaker_settings "\<lambda>_. True" circuit_good
proof (unfold_locales, goal_cases)
  case (4 p w)
  moreover have "circuit_good p w" if "breaker_settings p = breaker_settings (cw_policy w)"
    using 4(2) settings_of_settings [OF that] by (simp add: circuit_good_def)
  ultimately show ?case by (auto simp: cw_UpdatePolicy_def Let_def circuit_good_def breaker_settings_def)
qed (simp_all add: CircuitWithPolicy_def newCircuitBreakerWrapper_def circuit_good_def)

interpretation rl: policy_cache "\<lambda>n. RateLimiterWithPolicy newBucket lt n (per_unit lt)"
  "\<lambda>n. newRateLimiterWrapper newBucket n (per_unit lt)" "lw_UpdatePolicy newBucket (per_unit lt)" "\<lambda>n. n @ limiter_digit lt"
  lw_policy po_Version rate_settings "\<lambda>p. bucket_for newBucket (per_unit lt) p \<noteq> None" "rate_good newBucket take1 lt"
  for newBucket :: "int \<Rightarrow> int \<Rightarrow> 'b option" and take1 :: "'b \<Rightarrow> int \<times> 'b" and lt :: rateLimiterType
proof (unfold_locales, goal_cases)
  case (3 p n)
  then show ?case using rate_good_bucket [of newBucket lt p] by (fastforce simp: newRateLimiterWrapper_def)
next
  case (4 p w)
  then obtain b where b: "bucket_for newBucket (per_unit lt) p = Some b" by blast
  have "rate_good newBucket take1 lt p w" if "rate_settings p = rate_settings (lw_policy w)"
    using 4(2) rate_good_settings [OF that [symmetric]] by blast
  moreover have "rate_good newBucket take1 lt p (w\<lparr>lw_policy := p, lw_rateLimiter := b\<rparr>)"
    using rate_good_bucket [OF b] by simp
  ultimately show ?case using 4 b by (auto simp: lw_UpdatePolicy_def Let_def rate_settings_def)
qed (simp_all add: RateLimiterWithPolicy_def)

subsection \<open>Calls with retries\<close>

lemma fixed_count_Suc: "rt_FixedRetryCountPolicy n = FixedRetryCountPolicy (Suc n)"
  by (auto simp: rt_FixedRetryCountPolicy_def FixedRetryCountPolicy_def fun_eq_iff)

text \<open>What a controller made for a policy does in any run of its machine.\<close>

lemma controller_runs:
  assumes "newRetryController jitter p = Inr opt"
    and "steps ec opt as (start opt :: ('v, status_error) sched) = Some s"
  shows "sc_started s \<le> nat (rp_NumOfRetries p) + 1" and "rp_Overlap p \<or> TaskCount (sc_queue s) \<le> 1"
proof -
  have "op_retryPolicy opt = Some (FixedRetryCountPolicy (Suc (nat (rp_NumOfRetries p))))"
    and c: "op_concurrencyPolicy opt = Some (if rp_Overlap p then AlwaysConcurrencyPolicy else NeverConcurrencyPolicy)"
    using newRetryController_made [of jitter p] assms(1) by (auto simp: fixed_count_Suc)
  then show "sc_started s \<le> nat (rp_NumOfRetries p) + 1" using started_bounded [OF _ assms(2)] by fastforce
  show "rp_Overlap p \<or> TaskCount (sc_queue s) \<le> 1" using c serial_task_count [OF _ assms(2)] by (cases "rp_Overlap p") simp_all
qed

text \<open>Sequences of calls of \<open>retryHandler\<close>, and the policies with which they reach a controller.\<close>

type_synonym 'f retry_call = "'f retry_policy option \<times> string \<times> string"

definition retry_history :: "('f \<Rightarrow> int \<Rightarrow> int) \<Rightarrow> 'f::zero retry_call list \<Rightarrow> 'f retry_state" where
  "retry_history jitter hs =
     fold (\<lambda>(cp, service, meth) st. snd (retryHandler jitter cp service meth st)) hs \<lparr>rs_lastStatus = [], rs_retryControllers = []\<rparr>"

definition enabled_policies :: "'f retry_call list \<Rightarrow> (string \<times> 'f retry_policy) set" where
  "enabled_policies hs =
     set (concat (map (\<lambda>(cp, service, meth). case cp of
            None \<Rightarrow> []
          | Some p \<Rightarrow> if po_Enabled p then [(service @ ''/'' @ meth, p)] else []) hs))"

lemma retryHandler_step:
  assumes "agreeing po_Version retry_settings (S \<union> enabled_policies [(cp, service, meth)])"
    and "rc.follows jitter S (rs_retryControllers st)"
  shows "rc.follows jitter (S \<union> enabled_policies [(cp, service, meth)]) (rs_retryControllers (snd (retryHandler jitter cp service meth st))) \<and>
         (\<forall>p. cp = Some p \<and> po_Enabled p \<longrightarrow>
            (\<exists>opt. fst (retryHandler jitter cp service meth st) = CallWith opt (rp_RetriableStatusCodes p) \<and> newRetryController jitter p = Inr opt))"
proof (cases "\<exists>p. cp = Some p \<and> po_Enabled p")
  case False
  then show ?thesis using assms(2) by (auto simp: retryHandler_def enabled_policies_def Let_def split: option.split)
next
  case True
  then obtain p where p: "cp = Some p" "po_Enabled p" by blast
  have e: "S \<union> enabled_policies [(cp, service, meth)] = insert (service @ ''/'' @ meth, p) S"
    using p by (simp add: enabled_policies_def)
  have "agreeing po_Version retry_settings (insert (service @ ''/'' @ meth, p) S)" using assms(1) by (simp only: e)
  from rc.lookup_step [OF TrueI this assms(2)] obtain w m' where
    "RetryControlByPolicy jitter (service @ ''/'' @ meth) p (rs_retryControllers st) = (Some w, m')" "retry_good jitter p w"
    "rc.follows jitter (insert (service @ ''/'' @ meth, p) S) m'" by blast
  then show ?thesis unfolding e using p by (simp add: retryHandler_def Let_def retry_good_def)
qed

lemma retry_history_follows:
  "agreeing po_Version retry_settings (enabled_policies hs) \<Longrightarrow>
     rc.follows jitter (enabled_policies hs) (rs_retryControllers (retry_history jitter hs))"
proof (induction hs rule: rev_induct)
  case Nil
  then show ?case using rc.follows_empty by (simp add: retry_history_def)
next
  case (snoc h hs)
  obtain cp service meth where h: "h = (cp, service, meth)" by (cases h)
  have e: "enabled_policies (hs @ [h]) = enabled_policies hs \<union> enabled_policies [h]" by (simp add: enabled_policies_def)
  have "rc.follows jitter (enabled_policies hs) (rs_retryControllers (retry_history jitter hs))"
    using snoc agreeing_subset [OF snoc.prems, of "enabled_policies hs"] by (simp add: e)
  moreover have "retry_history jitter (hs @ [h]) = snd (retryHandler jitter cp service meth (retry_history jitter hs))"
    by (simp add: retry_history_def h)
  ultimately show ?case using retryHandler_step [of "enabled_policies hs" cp service meth jitter "retry_history jitter hs"] snoc.prems
    unfolding h e [unfolded h] by simp
qed

section \<open>Properties\<close>

text \<open>
  Objects follow their policies. However often the managers of retries, circuit breakers and rate
  limits are asked, and with whatever policies, provided that policies of one name with the same version
  have the same settings: the controller that is answered is one made for the policy of the call, the circuit was
  last told the settings of that policy, and the bucket is one made with its interval and its capacity, less
  the tokens that were drawn since.
\<close>

theorem objects_follow_policies:
  assumes "agreeing po_Version retry_settings (set rs)" and "agreeing po_Version breaker_settings (set bs)"
    and "agreeing po_Version rate_settings (set ls)" and "\<forall>(n, p) \<in> set ls. bucket_for newBucket (per_unit lt) p \<noteq> None"
  shows "list_all2 (\<lambda>(n, p) r. \<exists>w. r = Some w \<and> newRetryController jitter p = Inr (rw_controller w))
           rs (lookups (RetryControlByPolicy jitter) (\<lambda>n. n) (\<lambda>w. w) rs []) \<and>
         list_all2 (\<lambda>(n, p) r. \<exists>w. r = Some w \<and> ci_told (cw_Circuit w) \<noteq> [] \<and> last (ci_told (cw_Circuit w)) = settings_of p)
           bs (lookups CircuitWithPolicy (\<lambda>n. n) (\<lambda>w. w) bs []) \<and>
         list_all2 (\<lambda>(n, p) r. \<exists>w iv. r = Some w \<and> go_div (rl_Unit p) (per_unit lt p) = Some iv \<and>
                       drawn newBucket take1 iv (per_unit lt p) (lw_rateLimiter w))
           ls (lookups (\<lambda>n. RateLimiterWithPolicy newBucket lt n (per_unit lt)) (\<lambda>n. n @ limiter_digit lt)
                 (\<lambda>w. w\<lparr>lw_rateLimiter := snd (take1 (lw_rateLimiter w))\<rparr>) ls [])"
proof (intro conjI)
  show "list_all2 (\<lambda>(n, p) r. \<exists>w. r = Some w \<and> newRetryController jitter p = Inr (rw_controller w))
           rs (lookups (RetryControlByPolicy jitter) (\<lambda>n. n) (\<lambda>w. w) rs [])"
    using rc.lookups_good [of jitter "\<lambda>w. w" "{}" "[]" rs, OF _ rc.follows_empty] assms(1) by (simp add: retry_good_def)
  show "list_all2 (\<lambda>(n, p) r. \<exists>w. r = Some w \<and> ci_told (cw_Circuit w) \<noteq> [] \<and> last (ci_told (cw_Circuit w)) = settings_of p)
           bs (lookups CircuitWithPolicy (\<lambda>n. n) (\<lambda>w. w) bs [])"
    using cb.lookups_good [of "\<lambda>w. w" "{}" "[]" bs, OF _ cb.follows_empty] assms(2) by (simp add: circuit_good_def)
  have "rate_good newBucket take1 lt p (w\<lparr>lw_rateLimiter := snd (take1 (lw_rateLimiter w))\<rparr>) \<and>
        lw_policy (w\<lparr>lw_rateLimiter := snd (take1 (lw_rateLimiter w))\<rparr>) = lw_policy w"
    if "rate_good newBucket take1 lt p w" for p w
    using that by (auto simp: rate_good_def intro: drawn_take)
  then show "list_all2 (\<lambda>(n, p) r. \<exists>w iv. r = Some w \<and> go_div (rl_Unit p) (per_unit lt p) = Some iv \<and>
                       drawn newBucket take1 iv (per_unit lt p) (lw_rateLimiter w))
           ls (lookups (\<lambda>n. RateLimiterWithPolicy newBucket lt n (per_unit lt)) (\<lambda>n. n @ limiter_digit lt)
                 (\<lambda>w. w\<lparr>lw_rateLimiter := snd (take1 (lw_rateLimiter w))\<rparr>) ls [])"
    using rl.lookups_good [of newBucket take1 lt "\<lambda>w. w\<lparr>lw_rateLimiter := snd (take1 (lw_rateLimiter w))\<rparr>" "{}" "[]" ls,
        OF _ rl.follows_empty] assms(3,4) by (simp add: rate_good_def)
qed

definition demo_retry :: "int \<Rightarrow> int \<Rightarrow> int retry_policy" where
  "demo_retry version n =
     \<lparr>po_Enabled = True, po_Version = version, rp_NumOfRetries = n, rp_PerTryTimeout = 5, rp_RetriableStatusCodes = [14],
      rp_Overlap = False, rp_BackoffDuration = 100, rp_BackoffJitter = 0, rp_BackoffExponential = True\<rparr>"

definition demo_breaker :: "int \<Rightarrow> int \<Rightarrow> circuit_breaker_policy" where
  "demo_breaker version n =
     \<lparr>po_Enabled = True, po_Version = version, cb_Timeout = 0, cb_MaxConcurrentRequests = n, cb_RequestVolumeThreshold = 20,
      cb_SleepWindow = 5, cb_ErrorPercentThreshold = 50, cb_FailureStatusCode = [13, 14], cb_RollingDurationInSec = 10\<rparr>"

definition demo_rate :: "int \<Rightarrow> int \<Rightarrow> rate_limit_policy" where
  "demo_rate version n =
     \<lparr>po_Enabled = True, po_Version = version, rl_MaxRequestPerUnit = n, rl_MaxSendMsgPerUnit = -1, rl_MaxRecvMsgPerUnit = -1,
      rl_Unit = 1000\<rparr>"

definition demo_bucket :: "int \<Rightarrow> int \<Rightarrow> int option" where
  "demo_bucket iv cap = (if iv > 0 \<and> cap > 0 then Some cap else None)"

definition demo_take :: "int \<Rightarrow> int \<times> int" where
  "demo_take b = (if b > 0 then (1, b - 1) else (0, b))"

theorem objects_follow_policies_witness:
  "list_all2 (\<lambda>(n, p) r. \<exists>w. r = Some w \<and> newRetryController (\<lambda>_ d. d) p = Inr (rw_controller w))
     [(''s/m'', demo_retry 1 2), (''s/m'', demo_retry 2 5)]
     (lookups (RetryControlByPolicy (\<lambda>_ d. d)) (\<lambda>n. n) (\<lambda>w. w) [(''s/m'', demo_retry 1 2), (''s/m'', demo_retry 2 5)] []) \<and>
   list_all2 (\<lambda>(n, p) r. \<exists>w iv. r = Some w \<and> go_div (rl_Unit p) (per_unit requestRateLimiter p) = Some iv \<and>
                       drawn demo_bucket demo_take iv (per_unit requestRateLimiter p) (lw_rateLimiter w))
     [(''s/m'', demo_rate 1 10), (''s/m'', demo_rate 1 10), (''s/m'', demo_rate 2 20)]
     (lookups (\<lambda>n. RateLimiterWithPolicy demo_bucket requestRateLimiter n (per_unit requestRateLimiter)) (\<lambda>n. n @ limiter_digit requestRateLimiter)
        (\<lambda>w. w\<lparr>lw_rateLimiter := snd (demo_take (lw_rateLimiter w))\<rparr>)
        [(''s/m'', demo_rate 1 10), (''s/m'', demo_rate 1 10), (''s/m'', demo_rate 2 20)] [])"
proof -
  have r: "agreeing po_Version retry_settings (set [(''s/m'', demo_retry 1 2), (''s/m'', demo_retry 2 5)])"
    by (auto simp: agreeing_def demo_retry_def)
  have b: "agreeing po_Version breaker_settings (set [(''s/m'', demo_breaker 1 2), (''s/m'', demo_breaker 2 5)])"
    by (auto simp: agreeing_def demo_breaker_def)
  have l: "agreeing po_Version rate_settings (set [(''s/m'', demo_rate 1 10), (''s/m'', demo_rate 1 10), (''s/m'', demo_rate 2 20)])"
    by (auto simp: agreeing_def demo_rate_def)
  have f: "\<forall>(n, p) \<in> set [(''s/m'', demo_rate 1 10), (''s/m'', demo_rate 1 10), (''s/m'', demo_rate 2 20)].
             bucket_for demo_bucket (per_unit requestRateLimiter) p \<noteq> None"
    by (simp add: demo_rate_def bucket_for_def go_div_def demo_bucket_def)
  from objects_follow_policies [OF r b l f, of "\<lambda>_ d. d" demo_take] show ?thesis by blast
qed

text \<open>
  C9 (a call with retries). After any history of calls, a call with an enabled policy is run by a controller
  that starts at most one attempt more than the policy allows retries, never two valid ones at a time
  unless the policy says so, and a second attempt only if one was reported as failed with a code of the
  policy or timed out. An attempt is reported for repetition exactly if it failed with such a code.
\<close>

theorem retried_call_follows_policy:
  assumes "agreeing po_Version retry_settings (enabled_policies (hs @ [(Some p, service, meth)]))" and "po_Enabled p"
  shows "\<exists>opt. fst (retryHandler jitter (Some p) service meth (retry_history jitter hs)) = CallWith opt (rp_RetriableStatusCodes p) \<and>
    (\<forall>as s. steps ErrSchedulerCanceled opt as (start opt :: (unit, status_error) sched) = Some s \<longrightarrow>
       sc_started s \<le> nat (rp_NumOfRetries p) + 1 \<and> (rp_Overlap p \<or> TaskCount (sc_queue s) \<le> 1) \<and>
       (sc_started s = 1 \<or> list_ex asks_repeat as)) \<and>
    (\<forall>i r. asks_repeat (attempt_report (rp_RetriableStatusCodes p) i r) \<longleftrightarrow>
       (\<exists>c m. r = Some (Status c m) \<and> list_ex (\<lambda>code. same_code code c) (rp_RetriableStatusCodes p)))"
proof -
  have e: "enabled_policies (hs @ [(Some p, service, meth)]) = enabled_policies hs \<union> enabled_policies [(Some p, service, meth)]"
    by (simp add: enabled_policies_def)
  have "agreeing po_Version retry_settings (enabled_policies hs)" by (rule agreeing_subset [OF assms(1)]) (simp add: e)
  then have "rc.follows jitter (enabled_policies hs) (rs_retryControllers (retry_history jitter hs))" by (rule retry_history_follows)
  from retryHandler_step [OF assms(1) [unfolded e] this] assms(2) obtain opt where
    o: "fst (retryHandler jitter (Some p) service meth (retry_history jitter hs)) = CallWith opt (rp_RetriableStatusCodes p)"
       "newRetryController jitter p = Inr opt" by blast
  have "asks_repeat (attempt_report (rp_RetriableStatusCodes p) i r) \<longleftrightarrow>
       (\<exists>c m. r = Some (Status c m) \<and> list_ex (\<lambda>code. same_code code c) (rp_RetriableStatusCodes p))" for i r
    by (simp add: attempt_report_def split: option.split status_error.split)
  moreover have "sc_started s \<le> nat (rp_NumOfRetries p) + 1 \<and> (rp_Overlap p \<or> TaskCount (sc_queue s) \<le> 1) \<and>
       (sc_started s = 1 \<or> list_ex asks_repeat as)"
    if "steps ErrSchedulerCanceled opt as (start opt :: (unit, status_error) sched) = Some s" for as s
    using controller_runs [OF o(2) that] calm_started [OF that] by blast
  ultimately show ?thesis using o(1) by (intro exI [of _ opt]) simp
qed

theorem retried_call_follows_policy_witness:
  "\<exists>opt. fst (retryHandler (\<lambda>_ d. d) (Some (demo_retry 2 5)) ''s'' ''m''
            (retry_history (\<lambda>_ d. d) [(Some (demo_retry 1 2), ''s'', ''m''), (None, ''t'', ''m'')])) = CallWith opt [14] \<and>
    (\<forall>as s. steps ErrSchedulerCanceled opt as (start opt :: (unit, status_error) sched) = Some s \<longrightarrow>
       sc_started s \<le> 6 \<and> TaskCount (sc_queue s) \<le> 1 \<and> (sc_started s = 1 \<or> list_ex asks_repeat as))"
proof -
  have a: "agreeing po_Version retry_settings
    (enabled_policies ([(Some (demo_retry 1 2), ''s'', ''m''), (None, ''t'', ''m'')] @ [(Some (demo_retry 2 5), ''s'', ''m'')]))"
    by (auto simp: agreeing_def enabled_policies_def demo_retry_def)
  have "po_Enabled (demo_retry 2 5)" by (simp add: demo_retry_def)
  from retried_call_follows_policy [OF a this, of "\<lambda>_ d. d"] show ?thesis by (fastforce simp: demo_retry_def)
qed

lemma half_shift: "0 < n \<Longrightarrow> n \<le> 62 \<Longrightarrow> signed_drop_bit 1 (push_bit n (1 :: 64 word)) = 2 ^ (n - 1)"
  by (rule bit_word_eqI) (auto simp: bit_simps)

lemma sint_product: "0 \<le> d \<Longrightarrow> d * 2 ^ k < 2 ^ 63 \<Longrightarrow> sint (word_of_int d * 2 ^ k :: 64 word) = d * 2 ^ k"
proof -
  assume d: "0 \<le> d" "d * 2 ^ k < 2 ^ 63"
  have e: "(word_of_int d * 2 ^ k :: 64 word) = word_of_int (d * 2 ^ k)" by simp
  have "signed_take_bit 63 (d * 2 ^ k) = d * 2 ^ k"
    using d by (intro signed_take_bit_int_eq_self) (auto intro: order_trans [of _ 0])
  then show ?thesis unfolding e by (simp only: sint_sbintrunc') simp
qed

text \<open>From the retry 64 on no bit of the shifted one is left, and the retries follow without a delay.\<close>

lemma backoff_vanishes: "64 \<le> n \<Longrightarrow> exponentBase2 True duration n = 0"
proof -
  assume "64 \<le> n"
  then have e: "push_bit n (1 :: 64 word) = 0" by (simp add: push_bit_eq_mult)
  show ?thesis unfolding exponentBase2_def e by simp
qed

text \<open>
  The back-off doubles. Without jitter the delay before the first attempt is 0 and the one before the
  retry \<open>n\<close>, up to the retry 62, is the configured duration times \<open>2 ^ (n - 1)\<close>, if this fits into a signed
  64-bit integer.
\<close>

theorem backoff_doubles:
  fixes c :: "'e task_context" and jitter :: "'f::zero \<Rightarrow> int \<Rightarrow> int"
  assumes "0 \<le> duration" and "duration * 2 ^ (tc_RetryNum c - 1) < 2 ^ 63" and "tc_RetryNum c \<le> 62"
  shows "NewBackoffPolicy jitter duration 0 True c = (if tc_RetryNum c = 0 then 0 else duration * 2 ^ (tc_RetryNum c - 1))"
  using half_shift [of "tc_RetryNum c"] sint_product [OF assms(1,2)] assms(3)
  by (simp add: NewBackoffPolicy_def jitterUp_def exponentBase2_def)

theorem backoff_doubles_witness:
  "NewBackoffPolicy (\<lambda>_ d. d) 500 (0 :: int) True \<lparr>tc_RetryNum = 5, tc_ConcurrencyNum = 0, tc_TotalLimit = 0, tc_LastError = None :: string option\<rparr> = 8000"
  using backoff_doubles [of 500 "\<lparr>tc_RetryNum = 5, tc_ConcurrencyNum = 0, tc_TotalLimit = 0, tc_LastError = None :: string option\<rparr>"
      "\<lambda>_ d. d :: int"] by simp

text \<open>
  What the package of the circuits documents: a circuit either refuses and answers with the fallback's
  answer to its own error, or runs the function once, hands a success or a bad request on, and any other error to the
  fallback.
\<close>

definition executes :: "'s executor \<Rightarrow> bool" where
  "executes execute \<longleftrightarrow>
     (\<forall>c run fb s.
        (\<exists>m. execute c run fb s = (Returned (fb (CircuitError m)), s)) \<or>
        execute c run fb s =
          (case run s of
             (Returned (Some (Plain e)), s') \<Rightarrow> (Returned (fb (Plain e)), s')
           | (Returned (Some (CircuitError m)), s') \<Rightarrow> (Returned (fb (CircuitError m)), s')
           | (r, s') \<Rightarrow> (r, s')))"

lemma guarded_executed:
  "(case guarded codes handler s of
      (Returned (Some (Plain e)), s') \<Rightarrow> (Returned (fallback key (Plain e)), s')
    | (Returned (Some (CircuitError m)), s') \<Rightarrow> (Returned (fallback key (CircuitError m)), s')
    | (r, s') \<Rightarrow> (r, s')) = guarded codes handler s"
  by (auto simp: guarded_def fallback_def split: prod.split outcome.split option.split status_error.split)

lemma guarded_unwrapped:
  "(case guarded codes handler s of (Panicked v, s') \<Rightarrow> (Panicked v, s') | (Returned r, s') \<Rightarrow> (Returned (map_option unwrap_error r), s')) =
     handler s"
  by (auto simp: guarded_def unwrap_error_def split: prod.split outcome.split option.split status_error.split)

lemma circuit_lookup_Some: "\<exists>w bs'. CircuitWithPolicy n p bs = (Some w, bs')"
proof (cases "mget bs n")
  case (Some w)
  have "fst (cw_UpdatePolicy p w)" by (simp add: cw_UpdatePolicy_def Let_def)
  then obtain w' where "cw_UpdatePolicy p w = (True, w')" by (cases "cw_UpdatePolicy p w") simp
  then show ?thesis using Some by (simp add: CircuitWithPolicy_def with_policy_def)
qed (simp add: CircuitWithPolicy_def with_policy_def newCircuitBreakerWrapper_def)

lemma breaker_guard:
  assumes "executes execute"
  shows "\<exists>b. circuit_state.more b = circuit_state.more st \<and> circuitBreakerHandler execute cp service meth handler st \<in>
          {handler b} \<union> {(Returned (Some (Status codes_ResourceExhausted m)), b) | m. True}"
proof -
  let ?key = "service @ ''/'' @ meth"
  consider "cp = None" | p where "cp = Some p" "\<not> po_Enabled p" | p where "cp = Some p" "po_Enabled p" by (cases cp) auto
  then show ?thesis
  proof cases
    case 1
    then show ?thesis by (intro exI [of _ st]) (simp add: circuitBreakerHandler_def)
  next
    case (2 p)
    then show ?thesis
      by (intro exI [of _ "st\<lparr>cs_lastStatus := snd (note_status ?key False (cs_lastStatus st))\<rparr>"]) (simp add: circuitBreakerHandler_def Let_def)
  next
    case (3 p)
    obtain w bs where w: "CircuitWithPolicy ?key p (cs_circuitBreakers st) = (Some w, bs)"
      using circuit_lookup_Some by blast
    define b where "b = st\<lparr>cs_lastStatus := snd (note_status ?key True (cs_lastStatus st)), cs_circuitBreakers := bs\<rparr>"
    have "circuitBreakerHandler execute cp service meth handler st =
      (case execute (cw_Circuit w) (guarded (cb_FailureStatusCode p) handler) (fallback ?key) b of
         (Panicked v, s') \<Rightarrow> (Panicked v, s') | (Returned r, s') \<Rightarrow> (Returned (map_option unwrap_error r), s'))"
      using 3 w by (simp add: circuitBreakerHandler_def Let_def b_def)
    then have "circuitBreakerHandler execute cp service meth handler st \<in>
        {handler b} \<union> {(Returned (Some (Status codes_ResourceExhausted m)), b) | m. True}"
      using assms [unfolded executes_def, THEN spec, of "cw_Circuit w", THEN spec, of "guarded (cb_FailureStatusCode p) handler",
          THEN spec, of "fallback ?key", THEN spec, of b] guarded_unwrapped [of "cb_FailureStatusCode p" handler b]
      by (auto simp: guarded_executed fallback_def unwrap_error_def)
    then show ?thesis by (intro exI [of _ b]) (simp add: b_def)
  qed
qed

lemma rate_lookup_Some:
  assumes "bucket_for newBucket requestPerUnit p \<noteq> None"
  shows "\<exists>w ls'. RateLimiterWithPolicy newBucket lt n requestPerUnit p ls = (Some w, ls')"
  using assms
  by (cases "mget ls (n @ limiter_digit lt)")
     (auto simp: RateLimiterWithPolicy_def with_policy_def newRateLimiterWrapper_def lw_UpdatePolicy_def Let_def)

lemma rate_guard:
  assumes "\<And>p. cp = Some p \<Longrightarrow> po_Enabled p \<Longrightarrow> 0 < perUnit p \<Longrightarrow> bucket_for newBucket perUnit p \<noteq> None"
  shows "\<exists>l. rate_state.more l = rate_state.more st \<and> limit_operation lt perUnit what newBucket take1 cp service meth inner st \<in>
          {inner l} \<union> {(Returned (Some (Status codes_ResourceExhausted m)), l) | m. True}"
proof -
  let ?key = "service @ ''/'' @ meth"
  consider "cp = None" | p where "cp = Some p" "\<not> po_Enabled p \<or> perUnit p \<le> 0" | p where "cp = Some p" "po_Enabled p" "0 < perUnit p"
    by (cases cp) force+
  then show ?thesis
  proof cases
    case 1
    then show ?thesis by (intro exI [of _ st]) (simp add: limit_operation_def)
  next
    case (2 p)
    then show ?thesis
      by (intro exI [of _ "st\<lparr>ls_lastStatus := snd (note_status ?key (po_Enabled p) (ls_lastStatus st))\<rparr>"])
         (auto simp: limit_operation_def Let_def)
  next
    case (3 p)
    obtain w ls where w: "RateLimiterWithPolicy newBucket lt ?key perUnit p (ls_rateLimiters st) = (Some w, ls)"
      using rate_lookup_Some [OF assms [OF 3]] by blast
    obtain n b where n: "take1 (lw_rateLimiter w) = (n, b)" by (cases "take1 (lw_rateLimiter w)")
    show ?thesis
      using 3 w n
      by (intro exI [of _ "st\<lparr>ls_lastStatus := snd (note_status ?key True (ls_lastStatus st)),
            ls_rateLimiters := AList.update (?key @ limiter_digit lt) (w\<lparr>lw_rateLimiter := b\<rparr>) ls\<rparr>"])
         (auto simp: limit_operation_def Let_def)
  qed
qed

lemma timeout_guard:
  "\<exists>t. timeout_state.more t = timeout_state.more st \<and> timeoutHandler side cp service meth race limited st \<in>
       {(Answer (fst (limited None t)), snd (limited None t))} \<union>
       {(Answer (Returned (Some (Status codes_DeadlineExceeded m))), t) | m. True} \<union>
       {(case limited (Some d) t of (Panicked v, t') \<Rightarrow> (Crash v, t') | (Returned e, t') \<Rightarrow> (Answer (Returned e), t')) | d. d \<noteq> 0}"
proof (cases cp)
  case None
  then show ?thesis by (intro exI [of _ st]) (simp add: timeoutHandler_def case_prod_unfold)
next
  case (Some p)
  let ?t = "st\<lparr>ts_lastStatus := snd (note_status (side @ '':'' @ service @ ''/'' @ meth) (po_Enabled p) (ts_lastStatus st))\<rparr>"
  consider "\<not> po_Enabled p \<or> tp_Timeout p = 0" | "po_Enabled p" "tp_Timeout p \<noteq> 0" "race = CtxDone"
    | "po_Enabled p" "tp_Timeout p \<noteq> 0" "race = HandlerFirst" by (cases race) auto
  then show ?thesis
  proof cases
    case 1
    then show ?thesis using Some by (intro exI [of _ ?t]) (simp add: timeoutHandler_def Let_def case_prod_unfold)
  next
    case 2
    then show ?thesis using Some by (intro exI [of _ ?t]) (simp add: timeoutHandler_def Let_def)
  next
    case 3
    then have "timeoutHandler side cp service meth race limited st =
      (case limited (Some (tp_Timeout p)) ?t of (Panicked v, t') \<Rightarrow> (Crash v, t') | (Returned e, t') \<Rightarrow> (Answer (Returned e), t'))"
      using Some by (simp add: timeoutHandler_def Let_def)
    then show ?thesis using 3(2) by (intro exI [of _ ?t]) auto
  qed
qed

text \<open>
  The guards are transparent. A circuit breaker, a rate limit of requests or messages, and a timeout change
  nothing but their own bookkeeping before they either answer exactly as the guarded operation does, run
  once, or answer without running it: with \<open>ResourceExhausted\<close> if the circuit or the bucket refuses, with
  \<open>DeadlineExceeded\<close> if the time is over. With a timeout in force, a panic of the handler ends the program.
\<close>

theorem guards_are_transparent:
  assumes "executes execute" and "\<And>p. cp' = Some p \<Longrightarrow> po_Enabled p \<Longrightarrow> 0 < per_unit lt p \<Longrightarrow> bucket_for newBucket (per_unit lt) p \<noteq> None"
  shows "\<exists>b l t. circuit_state.more b = circuit_state.more st \<and> rate_state.more l = rate_state.more lst \<and>
           timeout_state.more t = timeout_state.more tst \<and>
           circuitBreakerHandler execute cp service meth handler st \<in>
             {handler b} \<union> {(Returned (Some (Status codes_ResourceExhausted m)), b) | m. True} \<and>
           limit_operation lt (per_unit lt) what newBucket take1 cp' service meth inner lst \<in>
             {inner l} \<union> {(Returned (Some (Status codes_ResourceExhausted m)), l) | m. True} \<and>
           timeoutHandler side cp'' service meth race limited tst \<in>
             {(Answer (fst (limited None t)), snd (limited None t))} \<union>
             {(Answer (Returned (Some (Status codes_DeadlineExceeded m))), t) | m. True} \<union>
             {(case limited (Some d) t of (Panicked v, t') \<Rightarrow> (Crash v, t') | (Returned e, t') \<Rightarrow> (Answer (Returned e), t')) | d. d \<noteq> 0}"
proof -
  from breaker_guard [OF assms(1)] obtain b where "circuit_state.more b = circuit_state.more st"
    "circuitBreakerHandler execute cp service meth handler st \<in>
       {handler b} \<union> {(Returned (Some (Status codes_ResourceExhausted m)), b) | m. True}" by blast
  moreover from rate_guard [OF assms(2)] obtain l where "rate_state.more l = rate_state.more lst"
    "limit_operation lt (per_unit lt) what newBucket take1 cp' service meth inner lst \<in>
       {inner l} \<union> {(Returned (Some (Status codes_ResourceExhausted m)), l) | m. True}" by blast
  moreover note timeout_guard [of tst side cp'' service meth race limited]
  ultimately show ?thesis by blast
qed

definition demo_execute :: "unit circuit_state_scheme executor" where
  "demo_execute c run fb s =
     (if ci_name c = ''s/open'' then (Returned (fb (CircuitError ''open'')), s)
      else (case run s of
             (Returned (Some (Plain e)), s') \<Rightarrow> (Returned (fb (Plain e)), s')
           | (Returned (Some (CircuitError m)), s') \<Rightarrow> (Returned (fb (CircuitError m)), s')
           | (r, s') \<Rightarrow> (r, s')))"

theorem guards_are_transparent_witness:
  "\<exists>b l. circuitBreakerHandler demo_execute (Some (demo_breaker 1 2)) ''s'' ''m''
           (\<lambda>s. (Returned (Some (Status 13 ''down'')), s)) \<lparr>cs_lastStatus = [], cs_circuitBreakers = []\<rparr> \<in>
             {(Returned (Some (Status 13 ''down'')), b)} \<union> {(Returned (Some (Status codes_ResourceExhausted m)), b) | m. True} \<and>
         limit_operation requestRateLimiter (per_unit requestRateLimiter) ''request'' demo_bucket demo_take (Some (demo_rate 1 1)) ''s'' ''m''
           (\<lambda>s. (Returned None, s)) \<lparr>ls_lastStatus = [], ls_rateLimiters = []\<rparr> \<in>
             {(Returned None, l)} \<union> {(Returned (Some (Status codes_ResourceExhausted m)), l) | m. True}"
proof -
  have e: "executes demo_execute" unfolding executes_def demo_execute_def by (intro allI) (auto intro: exI [of _ "''open''"])
  have b: "bucket_for demo_bucket (per_unit requestRateLimiter) p \<noteq> None" if "Some (demo_rate 1 1) = Some p" for p
    using that by (auto simp: demo_rate_def bucket_for_def go_div_def demo_bucket_def)
  from guards_are_transparent [OF e b, where handler = "\<lambda>s. (Returned (Some (Status 13 ''down'')), s)" and ?take1.0 = demo_take
      and cp = "Some (demo_breaker 1 2)" and service = "''s''" and meth = "''m''" and what = "''request''"
      and inner = "\<lambda>s. (Returned None, s)" and st = "\<lparr>cs_lastStatus = [], cs_circuitBreakers = []\<rparr>"
      and lst = "\<lparr>ls_lastStatus = [], ls_rateLimiters = []\<rparr>" and tst = "\<lparr>ts_lastStatus = []\<rparr>"
      and cp'' = "None :: timeout_policy option" and side = "''client''" and race = CtxDone
      and limited = "\<lambda>_ s. (Returned None, s)"]
  show ?thesis by blast
qed

text \<open>
  \<open>InvokeWithRetry\<close> starts at most \<open>n + 1\<close> attempts after the first call, so one more than the number of
  retries that is given.
\<close>

lemma invoke_with_retry_attempts:
  assumes "invoke_controller jitter opts = Inr opt"
    and "steps ec opt as (start opt :: ('v, status_error) sched) = Some s"
  shows "sc_started s \<le> io_numberOfRetries opts + 1"
proof -
  have "op_retryPolicy opt = Some (FixedRetryCountPolicy (Suc (io_numberOfRetries opts)))"
    using assms(1)
    by (cases "io_overlap opts") (auto simp: invoke_controller_def NewRetryController_def WithTimeoutPolicy_def WithRetryPolicy_def
        WithRetryIntervalPolicy_def WithConcurrencyPolicy_def Let_def fixed_count_Suc)
  then show ?thesis using started_bounded [OF _ assms(2)] by fastforce
qed

end
