(* ===== verification/Control_Config.thy ===== *)
theory Control_Config
  imports Control_Policy Config_Value
begin

text \<open>
  The control plane that reads its policies from the configuration, \<^verbatim>\<open>control_plugins/config.go\<close>. A
  configuration is read through a getter \<open>g\<close>, the content of the configuration at that moment. A call reads
  the clock twice, once to see whether the policy it keeps is too old and once for the version of a new one:
  \<open>now1\<close> and \<open>now2\<close>. The duration and number parsers, the constant 0.2 and the map of status names are
  parameters, collected in \<open>readers\<close>.
\<close>

section \<open>Keys\<close>

definition configUpdateInterval :: int where
  "configUpdateInterval = 10 * 1000000000"

definition enableFlag :: string where
  "enableFlag = ''enable''"

definition circuitBreakerPolicyPrefix :: string where
  "circuitBreakerPolicyPrefix = ''circuit_breaker.''"

definition circuitBreakerEnable :: string where
  "circuitBreakerEnable = circuitBreakerPolicyPrefix @ enableFlag"

definition circuitBreakerTimeout :: string where
  "circuitBreakerTimeout = circuitBreakerPolicyPrefix @ ''timeout''"

definition circuitBreakerMaxConcurrentRequests :: string where
  "circuitBreakerMaxConcurrentRequests = circuitBreakerPolicyPrefix @ ''max_concurrent_requests''"

definition circuitBreakerRequestVolumeThreshold :: string where
  "circuitBreakerRequestVolumeThreshold = circuitBreakerPolicyPrefix @ ''request_volume_threshold''"

definition circuitBreakerSleepWindow :: string where
  "circuitBreakerSleepWindow = circuitBreakerPolicyPrefix @ ''sleep_window''"

definition circuitBreakerErrorPercentThreshold :: string where
  "circuitBreakerErrorPercentThreshold = circuitBreakerPolicyPrefix @ ''error_percent_threshold''"

definition circuitBreakerFailureCodes :: string where
  "circuitBreakerFailureCodes = circuitBreakerPolicyPrefix @ ''failure_status_codes''"

definition circuitBreakerFailureStatus :: string where
  "circuitBreakerFailureStatus = circuitBreakerPolicyPrefix @ ''failure_status''"

definition circuitBreakerRollingDurationInSec :: string where
  "circuitBreakerRollingDurationInSec = circuitBreakerPolicyPrefix @ ''rolling_duration''"

definition rateLimitPolicyPrefix :: string where
  "rateLimitPolicyPrefix = ''rate_limit.''"

definition rateLimitEnable :: string where
  "rateLimitEnable = rateLimitPolicyPrefix @ enableFlag"

definition rateLimitMaxRequestPerSecond :: string where
  "rateLimitMaxRequestPerSecond = rateLimitPolicyPrefix @ ''max_request_per_unit''"

definition rateLimitMaxSendMsgPerSecond :: string where
  "rateLimitMaxSendMsgPerSecond = rateLimitPolicyPrefix @ ''max_send_msg_per_unit''"

definition rateLimitMaxRecvMsgPerSecond :: string where
  "rateLimitMaxRecvMsgPerSecond = rateLimitPolicyPrefix @ ''max_recv_msg_per_unit''"

definition rateLimitUnit :: string where
  "rateLimitUnit = rateLimitPolicyPrefix @ ''unit''"

definition clientSideTimeoutPolicyPrefix :: string where
  "clientSideTimeoutPolicyPrefix = ''client_timeout.''"

definition clientSideTimeoutEnable :: string where
  "clientSideTimeoutEnable = clientSideTimeoutPolicyPrefix @ enableFlag"

definition clientSideConnTimeout :: string where
  "clientSideConnTimeout = clientSideTimeoutPolicyPrefix @ ''conn_timeout''"

definition clientSideRequestTimeout :: string where
  "clientSideRequestTimeout = clientSideTimeoutPolicyPrefix @ ''request_timeout''"

definition serverSideTimeoutPolicyPrefix :: string where
  "serverSideTimeoutPolicyPrefix = ''server_timeout.''"

definition serverSideTimeoutEnable :: string where
  "serverSideTimeoutEnable = serverSideTimeoutPolicyPrefix @ enableFlag"

definition serverSideRequestTimeout :: string where
  "serverSideRequestTimeout = serverSideTimeoutPolicyPrefix @ ''request_timeout''"

definition retryPolicyPrefix :: string where
  "retryPolicyPrefix = ''retry.''"

definition retryEnable :: string where
  "retryEnable = retryPolicyPrefix @ enableFlag"

definition retryNumberOfRetries :: string where
  "retryNumberOfRetries = retryPolicyPrefix @ ''num_of_retries''"

definition retryPerTryTimeout :: string where
  "retryPerTryTimeout = retryPolicyPrefix @ ''per_try_timeout''"

definition retryRetriableStatus :: string where
  "retryRetriableStatus = retryPolicyPrefix @ ''retriable_status''"

definition retryRetriableCodes :: string where
  "retryRetriableCodes = retryPolicyPrefix @ ''retriable_status_codes''"

definition retryOverlap :: string where
  "retryOverlap = retryPolicyPrefix @ ''overlap''"

definition retryBackoffDuration :: string where
  "retryBackoffDuration = retryPolicyPrefix @ ''backoff_duration''"

definition retryBackoffJitter :: string where
  "retryBackoffJitter = retryPolicyPrefix @ ''backoff_jitter''"

definition retryBackoffExponential :: string where
  "retryBackoffExponential = retryPolicyPrefix @ ''backoff_exponential''"

section \<open>Names of status codes\<close>

text \<open>
  \<open>code_string\<close> is \<open>codes.Code.String\<close>, \<open>strcases\<close> are the five functions of the package \<^verbatim>\<open>strcase\<close> that are
  called, in their order.
\<close>

definition fillStatusMap :: "(int \<Rightarrow> string) \<Rightarrow> (string \<Rightarrow> string) list \<Rightarrow> int \<Rightarrow> (string \<times> int) list \<Rightarrow> (string \<times> int) list" where
  "fillStatusMap code_string strcases code m =
     fold (\<lambda>f. AList.update (f (code_string code)) code) (to_lower # to_upper # strcases) m"

definition statusMap :: "(int \<Rightarrow> string) \<Rightarrow> (string \<Rightarrow> string) list \<Rightarrow> (string \<times> int) list" where
  "statusMap code_string strcases = fold (fillStatusMap code_string strcases) [0..16] []"

record 'f readers =
  rd_duration :: "string \<Rightarrow> int option"
  rd_float :: "string \<Rightarrow> 'f option"
  rd_jitter :: 'f
  rd_status :: "(string \<times> int) list"

section \<open>Policies from the configuration\<close>

definition withMethod :: "string \<Rightarrow> string \<Rightarrow> string" where
  "withMethod methodName key = methodName @ ''.'' @ key"

text \<open>A setting: that of the method if there is one, else that of the service, else what the field has.\<close>

definition setting :: "value_getter \<Rightarrow> string \<Rightarrow> string \<Rightarrow> (value_getter \<Rightarrow> string \<Rightarrow> 'a) \<Rightarrow> 'a \<Rightarrow> 'a" where
  "setting g methodName key reader dflt =
     (if val_Has g (withMethod methodName key) then reader g (withMethod methodName key)
      else if val_Has g key then reader g key else dflt)"

definition disabled :: "value_getter \<Rightarrow> string \<Rightarrow> string \<Rightarrow> bool" where
  "disabled g methodName key \<longleftrightarrow> \<not> val_Bool g (withMethod methodName key) \<and> \<not> val_Bool g key"

text \<open>The set \<open>c\<close> of codes: numbers and names together. A name that is not in the map is left out.\<close>

definition code_set :: "(string \<times> int) list \<Rightarrow> value_getter \<Rightarrow> string \<Rightarrow> string \<Rightarrow> string \<Rightarrow> int list" where
  "code_set statuses g methodName codesKey statusKey =
     fold (\<lambda>status c. case mget statuses status of Some code \<Rightarrow> set_add code c | None \<Rightarrow> c)
       (setting g methodName statusKey val_StringList [])
       (fold set_add (setting g methodName codesKey val_IntList []) [])"

definition client_timeout_from :: "'f readers \<Rightarrow> value_getter \<Rightarrow> string \<Rightarrow> int \<Rightarrow> client_timeout_policy" where
  "client_timeout_from rd g m version =
     (let policy = new_client_timeout_policy version
      in if disabled g m clientSideTimeoutEnable then policy
         else policy\<lparr>po_Enabled := True,
                tp_Timeout := setting g m clientSideRequestTimeout (val_Duration (rd_duration rd)) 0,
                tp_ConnTimeout := setting g m clientSideConnTimeout (val_Duration (rd_duration rd)) 0\<rparr>)"

definition retry_from :: "'f::zero readers \<Rightarrow> value_getter \<Rightarrow> string \<Rightarrow> int \<Rightarrow> 'f retry_policy" where
  "retry_from rd g m version =
     (let policy = new_retry_policy version
      in if disabled g m retryEnable then policy
         else policy\<lparr>po_Enabled := True,
                rp_NumOfRetries := setting g m retryNumberOfRetries val_Uint 0,
                rp_PerTryTimeout := setting g m retryPerTryTimeout (val_Duration (rd_duration rd)) 0,
                rp_RetriableStatusCodes := code_set (rd_status rd) g m retryRetriableCodes retryRetriableStatus,
                rp_Overlap := setting g m retryOverlap val_Bool False,
                rp_BackoffDuration := setting g m retryBackoffDuration (val_Duration (rd_duration rd)) 0,
                rp_BackoffJitter := setting g m retryBackoffJitter (val_Float64 (rd_float rd)) (rd_jitter rd),
                rp_BackoffExponential := setting g m retryBackoffExponential val_Bool True\<rparr>)"

definition server_timeout_from :: "'f readers \<Rightarrow> value_getter \<Rightarrow> string \<Rightarrow> int \<Rightarrow> timeout_policy" where
  "server_timeout_from rd g m version =
     (let policy = new_timeout_policy version
      in if disabled g m serverSideTimeoutEnable then policy
         else policy\<lparr>po_Enabled := True,
                tp_Timeout := setting g m serverSideRequestTimeout (val_Duration (rd_duration rd)) 0\<rparr>)"

definition circuit_breaker_from :: "'f readers \<Rightarrow> value_getter \<Rightarrow> string \<Rightarrow> int \<Rightarrow> circuit_breaker_policy" where
  "circuit_breaker_from rd g m version =
     (let policy = new_circuit_breaker_policy version
      in if disabled g m circuitBreakerEnable then policy
         else policy\<lparr>po_Enabled := True,
                cb_Timeout := setting g m circuitBreakerTimeout (val_Duration (rd_duration rd)) 0,
                cb_MaxConcurrentRequests := setting g m circuitBreakerMaxConcurrentRequests val_Int (-1),
                cb_RequestVolumeThreshold := setting g m circuitBreakerRequestVolumeThreshold val_Int 0,
                cb_SleepWindow := setting g m circuitBreakerSleepWindow (val_Duration (rd_duration rd)) 0,
                cb_ErrorPercentThreshold := setting g m circuitBreakerErrorPercentThreshold val_Int 0,
                cb_RollingDurationInSec := setting g m circuitBreakerRollingDurationInSec val_Int 0,
                cb_FailureStatusCode := code_set (rd_status rd) g m circuitBreakerFailureCodes circuitBreakerFailureStatus\<rparr>)"

definition rate_limit_from :: "'f readers \<Rightarrow> value_getter \<Rightarrow> string \<Rightarrow> int \<Rightarrow> rate_limit_policy" where
  "rate_limit_from rd g m version =
     (let policy = new_rate_limit_policy version
      in if disabled g m rateLimitEnable then policy
         else policy\<lparr>po_Enabled := True,
                rl_MaxRequestPerUnit := setting g m rateLimitMaxRequestPerSecond val_Int (-1),
                rl_MaxSendMsgPerUnit := setting g m rateLimitMaxSendMsgPerSecond val_Int (-1),
                rl_MaxRecvMsgPerUnit := setting g m rateLimitMaxRecvMsgPerSecond val_Int (-1),
                rl_Unit := setting g m rateLimitUnit (val_Duration (rd_duration rd)) 1000000000\<rparr>)"

section \<open>Control planes\<close>

text \<open>The end of every method: the policy kept for the method, unless it is too old.\<close>

definition cached_policy ::
  "('p \<Rightarrow> int) \<Rightarrow> (int \<Rightarrow> 'p) \<Rightarrow> int \<Rightarrow> int \<Rightarrow> string \<Rightarrow> (string \<times> 'p) list \<Rightarrow> 'p \<times> (string \<times> 'p) list" where
  "cached_policy version policyFromConfig now1 now2 methodName policies =
     (let new = policyFromConfig now2; set_new = (new, AList.update methodName new policies)
      in case mget policies methodName of
           Some p \<Rightarrow> if now1 - version p > configUpdateInterval then set_new else (p, policies)
         | None \<Rightarrow> set_new)"

record ('cfg, 'f) client_config_control =
  cl_cfg :: 'cfg
  cl_timeoutPolicies :: "(string \<times> client_timeout_policy) list"
  cl_retryPolicies :: "(string \<times> 'f retry_policy) list"

record 'cfg server_config_control =
  sv_cfg :: 'cfg
  sv_circuitBreakerPolicies :: "(string \<times> circuit_breaker_policy) list"
  sv_rateLimitPolicies :: "(string \<times> rate_limit_policy) list"
  sv_timeoutPolicies :: "(string \<times> timeout_policy) list"

text \<open>\<open>read\<close> is the present content of each configuration.\<close>

definition cl_TimeoutPolicy where
  "cl_TimeoutPolicy rd read now1 now2 m s =
     (let (p, c) = cached_policy po_Version (client_timeout_from rd (read (cl_cfg s)) m) now1 now2 m (cl_timeoutPolicies s)
      in (p, s\<lparr>cl_timeoutPolicies := c\<rparr>))"

definition cl_RetryPolicy where
  "cl_RetryPolicy rd read now1 now2 m s =
     (let (p, c) = cached_policy po_Version (retry_from rd (read (cl_cfg s)) m) now1 now2 m (cl_retryPolicies s)
      in (p, s\<lparr>cl_retryPolicies := c\<rparr>))"

definition sv_TimeoutPolicy where
  "sv_TimeoutPolicy rd read now1 now2 m s =
     (let (p, c) = cached_policy po_Version (server_timeout_from rd (read (sv_cfg s)) m) now1 now2 m (sv_timeoutPolicies s)
      in (p, s\<lparr>sv_timeoutPolicies := c\<rparr>))"

definition sv_CircuitBreakerPolicy where
  "sv_CircuitBreakerPolicy rd read now1 now2 m s =
     (let (p, c) = cached_policy po_Version (circuit_breaker_from rd (read (sv_cfg s)) m) now1 now2 m (sv_circuitBreakerPolicies s)
      in (p, s\<lparr>sv_circuitBreakerPolicies := c\<rparr>))"

definition sv_RateLimitPolicy where
  "sv_RateLimitPolicy rd read now1 now2 m s =
     (let (p, c) = cached_policy po_Version (rate_limit_from rd (read (sv_cfg s)) m) now1 now2 m (sv_rateLimitPolicies s)
      in (p, s\<lparr>sv_rateLimitPolicies := c\<rparr>))"

text \<open>
  The factory keeps one control plane per service. A server control plane takes the name and the
  configuration of its service provider, if it has a configuration.
\<close>

record ('cfg, 'f) config_control_factory =
  fc_serverControlPlanes :: "(string \<times> 'cfg server_config_control) list"
  fc_clientControlPlanes :: "(string \<times> ('cfg, 'f) client_config_control) list"

definition NewConfigControlFactory :: "('cfg, 'f) config_control_factory" where
  "NewConfigControlFactory = \<lparr>fc_serverControlPlanes = [], fc_clientControlPlanes = []\<rparr>"

definition fc_ClientControlPlane where
  "fc_ClientControlPlane with_prefix service f =
     (case mget (fc_clientControlPlanes f) service of
        Some p \<Rightarrow> (p, f)
      | None \<Rightarrow>
          (let p = \<lparr>cl_cfg = with_prefix service, cl_timeoutPolicies = [], cl_retryPolicies = []\<rparr>
           in (p, f\<lparr>fc_clientControlPlanes := AList.update service p (fc_clientControlPlanes f)\<rparr>)))"

definition fc_ServerControlPlane where
  "fc_ServerControlPlane with_prefix provider service0 f =
     (let (service, cfg) = (case provider of Some (name, Some c) \<Rightarrow> (name, c) | _ \<Rightarrow> (service0, with_prefix service0))
      in case mget (fc_serverControlPlanes f) service of
           Some p \<Rightarrow> (p, f)
         | None \<Rightarrow>
             (let p = \<lparr>sv_cfg = cfg, sv_circuitBreakerPolicies = [], sv_rateLimitPolicies = [], sv_timeoutPolicies = []\<rparr>
              in (p, f\<lparr>fc_serverControlPlanes := AList.update service p (fc_serverControlPlanes f)\<rparr>)))"

section \<open>Wrapped control planes\<close>

text \<open>A call of a wrapped control plane. The defaults go into the object the control plane keeps.\<close>

definition wrapped_query ::
  "('p \<Rightarrow> int) \<Rightarrow> 'p \<Rightarrow> ('p \<Rightarrow> 'p) \<Rightarrow> (int \<Rightarrow> 'p) \<Rightarrow> int \<Rightarrow> int \<Rightarrow> string \<Rightarrow> (string \<times> 'p) list \<Rightarrow> 'p \<times> (string \<times> 'p) list" where
  "wrapped_query version zero defaults policyFromConfig now1 now2 m policies =
     wr_call zero defaults (AList.update m)
       (Some (\<lambda>c. case cached_policy version policyFromConfig now1 now2 m c of (p, c') \<Rightarrow> (Some p, c'))) policies"

text \<open>The five calls a client or server makes, on the state of the control plane.\<close>

definition client_timeout_call where
  "client_timeout_call rd read now1 now2 m s =
     wr_ClientTimeoutPolicy (\<lambda>p s. s\<lparr>cl_timeoutPolicies := AList.update m p (cl_timeoutPolicies s)\<rparr>)
       (Some (\<lambda>s. case cl_TimeoutPolicy rd read now1 now2 m s of (p, s') \<Rightarrow> (Some p, s'))) s"

definition client_retry_call where
  "client_retry_call rd read now1 now2 m s =
     wr_RetryPolicy (\<lambda>p s. s\<lparr>cl_retryPolicies := AList.update m p (cl_retryPolicies s)\<rparr>)
       (Some (\<lambda>s. case cl_RetryPolicy rd read now1 now2 m s of (p, s') \<Rightarrow> (Some p, s'))) s"

definition server_timeout_call where
  "server_timeout_call rd read now1 now2 m s =
     wr_ServerTimeoutPolicy (\<lambda>p s. s\<lparr>sv_timeoutPolicies := AList.update m p (sv_timeoutPolicies s)\<rparr>)
       (Some (\<lambda>s. case sv_TimeoutPolicy rd read now1 now2 m s of (p, s') \<Rightarrow> (Some p, s'))) s"

definition circuit_breaker_call where
  "circuit_breaker_call rd read now1 now2 m s =
     wr_CircuitBreakerPolicy (\<lambda>p s. s\<lparr>sv_circuitBreakerPolicies := AList.update m p (sv_circuitBreakerPolicies s)\<rparr>)
       (Some (\<lambda>s. case sv_CircuitBreakerPolicy rd read now1 now2 m s of (p, s') \<Rightarrow> (Some p, s'))) s"

definition rate_limit_call where
  "rate_limit_call rd read now1 now2 m s =
     wr_RateLimitPolicy (\<lambda>p s. s\<lparr>sv_rateLimitPolicies := AList.update m p (sv_rateLimitPolicies s)\<rparr>)
       (Some (\<lambda>s. case sv_RateLimitPolicy rd read now1 now2 m s of (p, s') \<Rightarrow> (Some p, s'))) s"

lemmas call_defs =
  wr_call_def wr_ClientTimeoutPolicy_def wr_RetryPolicy_def wr_ServerTimeoutPolicy_def wr_CircuitBreakerPolicy_def
  wr_RateLimitPolicy_def cl_TimeoutPolicy_def cl_RetryPolicy_def sv_TimeoutPolicy_def sv_CircuitBreakerPolicy_def
  sv_RateLimitPolicy_def wrapped_query_def

text \<open>Each of them is a wrapped query on its own part of the state.\<close>

lemma call_is_query:
  "client_timeout_call rd read now1 now2 m s =
     (case wrapped_query po_Version (new_client_timeout_policy 0) wr_timeout_defaults (client_timeout_from rd (read (cl_cfg s)) m)
             now1 now2 m (cl_timeoutPolicies s) of (p, c) \<Rightarrow> (p, s\<lparr>cl_timeoutPolicies := c\<rparr>))"
  "client_retry_call rd read now1 now2 m s =
     (case wrapped_query po_Version (new_retry_policy 0) wr_retry_defaults (retry_from rd (read (cl_cfg s)) m)
             now1 now2 m (cl_retryPolicies s) of (p, c) \<Rightarrow> (p, s\<lparr>cl_retryPolicies := c\<rparr>))"
  "server_timeout_call rd read' now1 now2 m s' =
     (case wrapped_query po_Version (new_timeout_policy 0) wr_timeout_defaults (server_timeout_from rd (read' (sv_cfg s')) m)
             now1 now2 m (sv_timeoutPolicies s') of (p, c) \<Rightarrow> (p, s'\<lparr>sv_timeoutPolicies := c\<rparr>))"
  "circuit_breaker_call rd read' now1 now2 m s' =
     (case wrapped_query po_Version (new_circuit_breaker_policy 0) wr_circuit_breaker_defaults (circuit_breaker_from rd (read' (sv_cfg s')) m)
             now1 now2 m (sv_circuitBreakerPolicies s') of (p, c) \<Rightarrow> (p, s'\<lparr>sv_circuitBreakerPolicies := c\<rparr>))"
  "rate_limit_call rd read' now1 now2 m s' =
     (case wrapped_query po_Version (new_rate_limit_policy 0) wr_rate_limit_defaults (rate_limit_from rd (read' (sv_cfg s')) m)
             now1 now2 m (sv_rateLimitPolicies s') of (p, c) \<Rightarrow> (p, s'\<lparr>sv_rateLimitPolicies := c\<rparr>))"
  by (simp_all add: client_timeout_call_def client_retry_call_def server_timeout_call_def circuit_breaker_call_def
      rate_limit_call_def call_defs Let_def split: prod.split)

section \<open>Runs\<close>

text \<open>
  A sequence of calls of one kind: for each the content of the configuration, the two times and the method.
  \<open>fresh_results\<close>: each answer is the policy of the configuration at this call, or at an earlier call for the
  same method not more than the update interval ago, with the defaults.
\<close>

type_synonym 'g policy_call = "'g \<times> int \<times> int \<times> string"

fun policy_run where
  "policy_run version zero defaults from_config [] c = ([], c)"
| "policy_run version zero defaults from_config ((g, now1, now2, m) # es) c =
     (let (p, c1) = wrapped_query version zero defaults (from_config g m) now1 now2 m c;
          (ps, c2) = policy_run version zero defaults from_config es c1
      in (p # ps, c2))"

definition call_time :: "'g policy_call \<Rightarrow> int" where
  "call_time e = fst (snd e)"

definition call_method :: "'g policy_call \<Rightarrow> string" where
  "call_method e = snd (snd (snd e))"

definition fresh_at :: "('p \<Rightarrow> 'p) \<Rightarrow> ('g \<Rightarrow> string \<Rightarrow> int \<Rightarrow> 'p) \<Rightarrow> 'g policy_call list \<Rightarrow> 'p list \<Rightarrow> nat \<Rightarrow> bool" where
  "fresh_at defaults from_config es ps i \<longleftrightarrow>
     (\<exists>j g n t. j \<le> i \<and> es ! j = (g, n, t, call_method (es ! i)) \<and>
        ps ! i = defaults (from_config g (call_method (es ! i)) t) \<and>
        (j = i \<or> call_time (es ! i) - t \<le> configUpdateInterval))"

definition fresh_results :: "('p \<Rightarrow> 'p) \<Rightarrow> ('g \<Rightarrow> string \<Rightarrow> int \<Rightarrow> 'p) \<Rightarrow> 'g policy_call list \<Rightarrow> 'p list \<Rightarrow> bool" where
  "fresh_results defaults from_config es ps \<longleftrightarrow>
     length ps = length es \<and> (\<forall>i < length es. fresh_at defaults from_config es ps i)"

lemma fresh_at_append:
  assumes "i < length es" and "length ps = length es"
  shows "fresh_at defaults from_config (es @ [e]) (ps @ [p]) i = fresh_at defaults from_config es ps i"
proof -
  have "(es @ [e]) ! j = es ! j" if "j \<le> i" for j using that assms(1) by (simp add: nth_append)
  then show ?thesis using assms unfolding fresh_at_def by (metis nth_append_left order_refl)
qed

text \<open>
  What a kind of policy has to promise: a policy carries the time it was read, the defaults leave that
  time alone, and a second pass of the defaults changes nothing.
\<close>

locale policy_kind =
  fixes version :: "'p \<Rightarrow> int"
    and zero :: 'p
    and defaults :: "'p \<Rightarrow> 'p"
    and from_config :: "'g \<Rightarrow> string \<Rightarrow> int \<Rightarrow> 'p"
  assumes version_from: "version (from_config g m t) = t"
    and version_kept: "version (defaults p) = version p"
    and defaults_twice: "defaults (defaults p) = defaults p"
begin

definition kept :: "'g policy_call list \<Rightarrow> (string \<times> 'p) list \<Rightarrow> bool" where
  "kept es c \<longleftrightarrow> (\<forall>m p. mget c m = Some p \<longrightarrow> (\<exists>j < length es. \<exists>g n t. es ! j = (g, n, t, m) \<and> p = defaults (from_config g m t)))"

lemma run_append:
  "policy_run version zero defaults from_config (es @ [(g, n1, n2, m)]) c =
     (let (ps, c1) = policy_run version zero defaults from_config es c;
          (p, c2) = wrapped_query version zero defaults (from_config g m) n1 n2 m c1
      in (ps @ [p], c2))"
  by (induction es arbitrary: c) (auto simp: Let_def split: prod.splits)

lemma kept_mono: "kept es c \<Longrightarrow> kept (es @ [e]) c"
  unfolding kept_def by (metis (no_types, lifting) length_append_singleton less_Suc_eq nth_append)

lemma kept_update: "kept (es @ [e]) c \<Longrightarrow> j < length (es @ [e]) \<Longrightarrow> (es @ [e]) ! j = (g, n, t, m) \<Longrightarrow>
    kept (es @ [e]) (AList.update m (defaults (from_config g m t)) c)"
  by (simp add: kept_def) blast

text \<open>One call: the answer comes from this call or from one that is recorded and young enough.\<close>

lemma query_fresh:
  assumes "kept es c" and "wrapped_query version zero defaults (from_config g m) n1 n2 m c = (p, c')"
  shows "kept (es @ [(g, n1, n2, m)]) c' \<and>
    (\<exists>j \<le> length es. \<exists>g' n t. (es @ [(g, n1, n2, m)]) ! j = (g', n, t, m) \<and> p = defaults (from_config g' m t) \<and>
       (j = length es \<or> n1 - t \<le> configUpdateInterval))"
proof -
  let ?es = "es @ [(g, n1, n2, m)]"
  consider (new) "p = defaults (from_config g m n2)" and "mget c' = (mget c)(m \<mapsto> p)"
    | (old) q where "mget c m = Some q" and "n1 - version q \<le> configUpdateInterval" and "p = defaults q" and "mget c' = (mget c)(m \<mapsto> p)"
    using assms(2)
    by (auto simp: wrapped_query_def wr_call_def cached_policy_def Let_def update_conv' split: option.splits if_splits)
  then show ?thesis
  proof cases
    case new
    have "kept ?es c'"
      using assms(1) new unfolding kept_def
      by (auto simp: nth_append) (metis less_SucI nth_append)+
    then show ?thesis using new(1) by (auto intro!: exI [of _ "length es"])
  next
    case (old q)
    obtain j g' n t where j: "j < length es" "es ! j = (g', n, t, m)" and q: "q = defaults (from_config g' m t)"
      using assms(1) old(1) unfolding kept_def by blast
    have p: "p = q" and "mget c' = mget c" using old q by (auto simp: defaults_twice)
    then have "kept ?es c'" using kept_mono [OF assms(1), of "(g, n1, n2, m)"] by (simp add: kept_def)
    moreover have "n1 - t \<le> configUpdateInterval" using old(2) q by (simp add: version_kept version_from)
    ultimately show ?thesis using j p q by (auto intro!: exI [of _ j] simp: nth_append)
  qed
qed

lemma run_fresh:
  assumes "policy_run version zero defaults from_config es [] = (ps, c)"
  shows "kept es c \<and> fresh_results defaults from_config es ps"
  using assms
proof (induction es arbitrary: ps c rule: rev_induct)
  case Nil
  then show ?case by (simp add: kept_def fresh_results_def)
next
  case (snoc e es)
  obtain g n1 n2 m where e: "e = (g, n1, n2, m)" by (cases e)
  obtain ps0 c0 p where r: "policy_run version zero defaults from_config es [] = (ps0, c0)"
    and w: "wrapped_query version zero defaults (from_config g m) n1 n2 m c0 = (p, c)" and ps: "ps = ps0 @ [p]"
    using snoc.prems by (auto simp: e run_append Let_def split: prod.splits)
  note ih = snoc.IH [OF r]
  note q = query_fresh [OF conjunct1 [OF ih] w]
  have f: "fresh_results defaults from_config es ps0" using ih by blast
  then have len: "length ps0 = length es" by (simp add: fresh_results_def)
  have "fresh_at defaults from_config (es @ [e]) ps i" if "i < length (es @ [e])" for i
  proof (cases "i < length es")
    case True
    then show ?thesis using f by (simp add: ps fresh_at_append [OF _ len] fresh_results_def)
  next
    case False
    then have "i = length es" using that by simp
    then show ?thesis
      using conjunct2 [OF q] len unfolding fresh_at_def e ps call_method_def call_time_def by (simp add: nth_append)
  qed
  then show ?case using q len ps e by (simp add: fresh_results_def)
qed

lemma results_fresh: "fresh_results defaults from_config es (fst (policy_run version zero defaults from_config es []))"
  by (rule conjunct2 [OF run_fresh [OF surjective_pairing]])

end

text \<open>The five kinds of policies.\<close>

lemma version_of_new [simp]:
  "po_Version (client_timeout_from rd g m t) = t" "po_Version (retry_from rd' g m t) = t"
  "po_Version (server_timeout_from rd g m t) = t" "po_Version (circuit_breaker_from rd g m t) = t"
  "po_Version (rate_limit_from rd g m t) = t"
  by (simp_all add: client_timeout_from_def retry_from_def server_timeout_from_def circuit_breaker_from_def
      rate_limit_from_def new_policy_defs Let_def)

interpretation client_timeout_kind: policy_kind po_Version "new_client_timeout_policy 0" wr_timeout_defaults "client_timeout_from rd" for rd
  by unfold_locales simp_all

interpretation retry_kind: policy_kind po_Version "new_retry_policy 0" wr_retry_defaults "retry_from rd" for rd
  by unfold_locales (simp_all add: retry_defaults_id retry_defaults_ok)

interpretation server_timeout_kind: policy_kind po_Version "new_timeout_policy 0" wr_timeout_defaults "server_timeout_from rd" for rd
  by unfold_locales simp_all

interpretation circuit_breaker_kind: policy_kind po_Version "new_circuit_breaker_policy 0" wr_circuit_breaker_defaults "circuit_breaker_from rd" for rd
  by unfold_locales (simp_all add: circuit_breaker_defaults_id circuit_breaker_defaults_ok)

interpretation rate_limit_kind: policy_kind po_Version "new_rate_limit_policy 0" wr_rate_limit_defaults "rate_limit_from rd" for rd
  by unfold_locales (simp_all add: rate_limit_defaults_id rate_limit_defaults_ok)

lemma set_fold_set_add_codes: "set (fold set_add xs c) = set xs \<union> set c"
  by (induction xs arbitrary: c) auto

lemma set_code_set:
  "set (code_set statuses g m ck sk) =
     set (setting g m ck val_IntList []) \<union> {code. \<exists>s \<in> set (setting g m sk val_StringList []). mget statuses s = Some code}"
proof -
  have "set (fold (\<lambda>status c. case mget statuses status of Some code \<Rightarrow> set_add code c | None \<Rightarrow> c) ss c) =
      set c \<union> {code. \<exists>s \<in> set ss. mget statuses s = Some code}" for ss c
    by (induction ss arbitrary: c) (auto split: option.splits)
  then show ?thesis by (auto simp: code_set_def set_fold_set_add_codes)
qed

section \<open>Properties\<close>

text \<open>
  C16 (policies follow the configuration). Whatever sequence of calls a client or a server makes, each
  policy it gets is the one its configuration gave at this call or at an earlier call for the same
  method at most ten seconds before, completed by the defaults of the wrapper, although the wrapper writes
  those defaults into the object the control plane keeps. This holds for all five kinds of policies.
\<close>

theorem policies_follow_configuration:
  "fresh_results wr_timeout_defaults (client_timeout_from rd) es1
     (fst (policy_run po_Version (new_client_timeout_policy 0) wr_timeout_defaults (client_timeout_from rd) es1 [])) \<and>
   fresh_results wr_retry_defaults (retry_from rd) es2
     (fst (policy_run po_Version (new_retry_policy 0) wr_retry_defaults (retry_from rd) es2 [])) \<and>
   fresh_results wr_timeout_defaults (server_timeout_from rd) es3
     (fst (policy_run po_Version (new_timeout_policy 0) wr_timeout_defaults (server_timeout_from rd) es3 [])) \<and>
   fresh_results wr_circuit_breaker_defaults (circuit_breaker_from rd) es4
     (fst (policy_run po_Version (new_circuit_breaker_policy 0) wr_circuit_breaker_defaults (circuit_breaker_from rd) es4 [])) \<and>
   fresh_results wr_rate_limit_defaults (rate_limit_from rd) es5
     (fst (policy_run po_Version (new_rate_limit_policy 0) wr_rate_limit_defaults (rate_limit_from rd) es5 []))"
  by (intro conjI client_timeout_kind.results_fresh retry_kind.results_fresh server_timeout_kind.results_fresh
      circuit_breaker_kind.results_fresh rate_limit_kind.results_fresh)

text \<open>
  C25 (policies handed out are well formed). A policy from a wrapped control plane that is enabled has
  these values, whatever the control plane answers, nil included: at least one retry, a code to retry on and a
  back-off; positive thresholds, windows and a sorted, non-empty list of failure codes; and no limit or
  unit of zero.
\<close>

theorem policies_well_formed:
  "retry_ok (fst (wr_RetryPolicy write1 plane1 s1)) \<and>
   circuit_breaker_ok (fst (wr_CircuitBreakerPolicy write2 plane2 s2)) \<and>
   rate_limit_ok (fst (wr_RateLimitPolicy write3 plane3 s3))"
proof -
  have "retry_ok (fst (wr_RetryPolicy write1 plane1 s1))"
    unfolding wr_RetryPolicy_def
    by (rule wr_call_ok [where P = retry_ok]) (simp_all add: retry_defaults_ok, simp add: retry_ok_def new_retry_policy_def)
  moreover have "circuit_breaker_ok (fst (wr_CircuitBreakerPolicy write2 plane2 s2))"
    unfolding wr_CircuitBreakerPolicy_def
    by (rule wr_call_ok [where P = circuit_breaker_ok])
      (simp_all add: circuit_breaker_defaults_ok, simp add: circuit_breaker_ok_def new_circuit_breaker_policy_def)
  moreover have "rate_limit_ok (fst (wr_RateLimitPolicy write3 plane3 s3))"
    unfolding wr_RateLimitPolicy_def
    by (rule wr_call_ok [where P = rate_limit_ok])
      (simp_all add: rate_limit_defaults_ok, simp add: rate_limit_ok_def new_rate_limit_policy_def)
  ultimately show ?thesis by blast
qed

text \<open>
  Failure codes. The failure codes of an enabled circuit breaker are exactly the configured numbers
  together with the numbers of the configured names that are known, each from the setting of the method
  if it has one and else from that of the service; the five default codes are used exactly if nothing is
  left of either.
\<close>

theorem failure_codes_exact:
  fixes rd :: "'f readers"
  assumes "\<not> disabled g m circuitBreakerEnable"
  defines "codes \<equiv> set (setting g m circuitBreakerFailureCodes val_IntList []) \<union>
    {code. \<exists>s \<in> set (setting g m circuitBreakerFailureStatus val_StringList []). mget (rd_status rd) s = Some code}"
  shows "set (cb_FailureStatusCode (wr_circuit_breaker_defaults (circuit_breaker_from rd g m t))) =
    (if codes = {} then {2, 4, 8, 13, 14} else codes)"
proof -
  have e: "po_Enabled (circuit_breaker_from rd g m t)"
    and c: "set (cb_FailureStatusCode (circuit_breaker_from rd g m t)) = codes"
    using assms by (simp_all add: circuit_breaker_from_def Let_def set_code_set)
  then have "cb_FailureStatusCode (circuit_breaker_from rd g m t) = [] \<longleftrightarrow> codes = {}" by auto
  then show ?thesis using e c by (simp add: circuit_breaker_defaults_eq)
qed

definition demo_getter :: value_getter where
  "demo_getter k =
     (if k = ''circuit_breaker.enable'' then (''true'', True)
      else if k = ''Get.circuit_breaker.failure_status'' then (''internal, no_such'', True)
      else if k = ''circuit_breaker.failure_status_codes'' then (''7'', True) else ('''', False))"

definition demo_readers :: "int readers" where
  "demo_readers = \<lparr>rd_duration = (\<lambda>_. None), rd_float = (\<lambda>_. None), rd_jitter = 0, rd_status = [(''internal'', 13)]\<rparr>"

theorem failure_codes_exact_witness:
  "set (cb_FailureStatusCode (wr_circuit_breaker_defaults (circuit_breaker_from demo_readers demo_getter ''Get'' 5))) = {7, 13}"
proof -
  have d: "\<not> disabled demo_getter ''Get'' circuitBreakerEnable" by code_simp
  have a: "setting demo_getter ''Get'' circuitBreakerFailureCodes val_IntList [] = [7]"
    and b: "setting demo_getter ''Get'' circuitBreakerFailureStatus val_StringList [] = [''internal'', ''no_such'']" by code_simp+
  show ?thesis using failure_codes_exact [OF d, of demo_readers 5] unfolding a b by (auto simp: demo_readers_def)
qed

end
