(* ===== verification/Http_Cors.thy ===== *)
theory Http_Cors
  imports Prelude
begin

text \<open>
  The origins a server accepts, \<^verbatim>\<open>server/internal/http_server/cors.go\<close>. The handler of the package \<^verbatim>\<open>rs/cors\<close>
  it embeds is not part of the repository and is left out.
\<close>

record wildcard =
  wc_prefix :: string
  wc_suffix :: string

definition wc_match :: "wildcard \<Rightarrow> string \<Rightarrow> bool" where
  "wc_match w s \<longleftrightarrow> length s \<ge> length (wc_prefix w) + length (wc_suffix w) \<and> has_prefix s (wc_prefix w) \<and> has_suffix s (wc_suffix w)"

record cors_handler =
  co_allowedOrigins :: "string list"
  co_allowedWOrigins :: "wildcard list"
  co_allowedOriginsAll :: bool

text \<open>The loop over the configured origins; a lone star ends it.\<close>

fun add_origins :: "string list \<Rightarrow> cors_handler \<Rightarrow> cors_handler" where
  "add_origins [] h = h"
| "add_origins (origin0 # os) h =
     (let origin = to_lower origin0
      in if origin = ''*'' then \<lparr>co_allowedOrigins = [], co_allowedWOrigins = [], co_allowedOriginsAll = True\<rparr>
         else if CHR ''*'' \<in> set origin then
           add_origins os (h\<lparr>co_allowedWOrigins := co_allowedWOrigins h @
             [\<lparr>wc_prefix = takeWhile (\<lambda>c. c \<noteq> CHR ''*'') origin, wc_suffix = tl (dropWhile (\<lambda>c. c \<noteq> CHR ''*'') origin)\<rparr>]\<rparr>)
         else add_origins os (h\<lparr>co_allowedOrigins := co_allowedOrigins h @ [origin]\<rparr>))"

definition newCorsHandler :: "string list \<Rightarrow> cors_handler" where
  "newCorsHandler allowedOrigins =
     (if length allowedOrigins = 0 then \<lparr>co_allowedOrigins = [], co_allowedWOrigins = [], co_allowedOriginsAll = True\<rparr>
      else add_origins allowedOrigins \<lparr>co_allowedOrigins = [], co_allowedWOrigins = [], co_allowedOriginsAll = False\<rparr>)"

definition isOriginAllowed :: "cors_handler \<Rightarrow> string \<Rightarrow> bool" where
  "isOriginAllowed c origin0 =
     (if co_allowedOriginsAll c then True
      else (let origin = to_lower origin0
            in list_ex (\<lambda>p. p = origin) (co_allowedOrigins c) \<or> list_ex (\<lambda>w. wc_match w origin) (co_allowedWOrigins c)))"

section \<open>The meaning of a configured origin\<close>

text \<open>
  The reference: a configured origin is a text in which the first star, if there is one, stands for any
  text, the empty one included; upper and lower case are the same.
\<close>

definition glob :: "string \<Rightarrow> string \<Rightarrow> bool" where
  "glob pattern origin \<longleftrightarrow>
     (case dropWhile (\<lambda>c. c \<noteq> CHR ''*'') (to_lower pattern) of
        [] \<Rightarrow> to_lower origin = to_lower pattern
      | _ # after \<Rightarrow> (\<exists>x. to_lower origin = takeWhile (\<lambda>c. c \<noteq> CHR ''*'') (to_lower pattern) @ x @ after))"

lemma wc_match_iff: "wc_match w s \<longleftrightarrow> (\<exists>x. s = wc_prefix w @ x @ wc_suffix w)"
proof
  assume w: "wc_match w s"
  then obtain t where s: "s = wc_prefix w @ t" by (auto simp: wc_match_def has_prefix_iff)
  then have "length (wc_suffix w) \<le> length t" and "drop (length s - length (wc_suffix w)) s = wc_suffix w"
    using w by (simp_all add: wc_match_def has_suffix_def)
  then have "drop (length t - length (wc_suffix w)) t = wc_suffix w" using s by simp
  then have "t = take (length t - length (wc_suffix w)) t @ wc_suffix w" by (metis append_take_drop_id)
  then show "\<exists>x. s = wc_prefix w @ x @ wc_suffix w" using s by metis
qed (auto simp: wc_match_def has_suffix_def)

definition accepts :: "cors_handler \<Rightarrow> string \<Rightarrow> bool" where
  "accepts h s \<longleftrightarrow> co_allowedOriginsAll h \<or> list_ex (\<lambda>p. p = s) (co_allowedOrigins h) \<or> list_ex (\<lambda>w. wc_match w s) (co_allowedWOrigins h)"

lemma star_split: "CHR ''*'' \<in> set s \<Longrightarrow> \<exists>r. dropWhile (\<lambda>c. c \<noteq> CHR ''*'') s = CHR ''*'' # r"
  by (induction s) auto

lemma add_origins_accepts:
  "accepts (add_origins os h) (to_lower o') \<longleftrightarrow> accepts h (to_lower o') \<or> list_ex (\<lambda>p. glob p o') os"
proof (induction os h rule: add_origins.induct)
  case (2 origin0 os h)
  let ?o = "to_lower origin0"
  consider (all) "?o = ''*''" | (wild) "?o \<noteq> ''*''" "CHR ''*'' \<in> set ?o" | (plain) "CHR ''*'' \<notin> set ?o" by auto
  then show ?case
  proof cases
    case all
    then have "glob origin0 o'" by (simp add: glob_def)
    then show ?thesis using all by (simp add: accepts_def)
  next
    case wild
    obtain r where r: "dropWhile (\<lambda>c. c \<noteq> CHR ''*'') ?o = CHR ''*'' # r" using star_split [OF wild(2)] by blast
    then have "glob origin0 o' \<longleftrightarrow>
        wc_match \<lparr>wc_prefix = takeWhile (\<lambda>c. c \<noteq> CHR ''*'') ?o, wc_suffix = tl (dropWhile (\<lambda>c. c \<noteq> CHR ''*'') ?o)\<rparr> (to_lower o')"
      by (simp add: glob_def wc_match_iff)
    then show ?thesis using 2(1) [OF refl wild] wild by (auto simp: Let_def accepts_def)
  next
    case plain
    then have n: "?o \<noteq> ''*''" by auto
    have d: "dropWhile (\<lambda>c. c \<noteq> CHR ''*'') ?o = []" using plain by (simp add: dropWhile_eq_Nil_conv) metis
    have "glob origin0 o' \<longleftrightarrow> to_lower o' = ?o" unfolding glob_def d by simp
    then show ?thesis using 2(2) [OF refl n plain] plain n by (auto simp: Let_def accepts_def)
  qed
qed simp

text \<open>
  C20 (accepted origins). An origin is allowed exactly if no origins are configured or one of the configured
  origins, read as a pattern, matches it: sorting them into plain ones and wildcards and stopping at a
  lone star changes nothing.
\<close>

theorem cors_matches_globs:
  "isOriginAllowed (newCorsHandler origins) origin \<longleftrightarrow> origins = [] \<or> list_ex (\<lambda>p. glob p origin) origins"
proof (cases origins)
  case Nil
  then show ?thesis by (simp add: isOriginAllowed_def newCorsHandler_def)
next
  case (Cons p ps)
  have "isOriginAllowed h origin = accepts h (to_lower origin)" for h
    by (simp add: isOriginAllowed_def accepts_def Let_def)
  moreover have "\<not> accepts \<lparr>co_allowedOrigins = [], co_allowedWOrigins = [], co_allowedOriginsAll = False\<rparr> (to_lower origin)"
    by (simp add: accepts_def)
  ultimately show ?thesis using add_origins_accepts [of origins] Cons by (simp add: newCorsHandler_def del: add_origins.simps)
qed

end
