(* ===== verification/Http_Matcher.thy ===== *)
theory Http_Matcher
  imports Prelude "HOL-Library.Sublist"
begin

text \<open>
  The path matcher of the HTTP server, \<^verbatim>\<open>http/matcher.go\<close>, with \<^verbatim>\<open>http/header.go\<close> and
  \<^verbatim>\<open>http/registry.go\<close>. Patterns with the wildcards \<open>*\<close> (one component) and \<open>**\<close> (several) are
  kept in a trie. No node of the trie is shared, so it is a datatype; the field \<open>meta\<close> is a list that is
  empty exactly when the Go slice is nil. A Go panic is the error \<open>Panic\<close>.
\<close>

datatype matcher_error = Panic | EmptyComponent | StandaloneVerb | BadTemplate | NoMatch | Refused

datatype 'm seg = Seg (seg_meta: "'m list") (seg_children: "(string \<times> 'm seg) list")

definition newPathSegment :: "'m seg" where
  "newPathSegment = Seg [] []"

section \<open>Templates\<close>

text \<open>
  One match of \<open>(?U){(.+)}\<close> after its opening brace: at least one byte that is no line break, then up to
  the first closing brace. The result is the variable and the rest of the text.
\<close>

fun close_brace :: "string \<Rightarrow> string \<Rightarrow> (string \<times> string) option" where
  "close_brace acc [] = None"
| "close_brace acc (c # cs) =
     (if acc \<noteq> [] \<and> c = CHR ''}'' then Some (rev acc, cs)
      else if c = CHR 0x0A then None else close_brace (c # acc) cs)"

definition variable_text :: "string \<Rightarrow> matcher_error + string" where
  "variable_text var =
     (case split_char CHR ''='' var of [_] \<Rightarrow> Inr ''*'' | [_, v] \<Rightarrow> Inr v | _ \<Rightarrow> Inl BadTemplate)"

lemma close_brace_length: "close_brace acc s = Some (v, r) \<Longrightarrow> length r < length s"
  by (induction s arbitrary: acc) (force split: if_splits)+

function TemplateConvert :: "string \<Rightarrow> matcher_error + string" where
  "TemplateConvert [] = Inr []"
| "TemplateConvert (c # cs) =
     (case (if c = CHR ''{'' then close_brace [] cs else None) of
        Some (var, rest) \<Rightarrow>
          (case variable_text var of
             Inl e \<Rightarrow> Inl e
           | Inr t \<Rightarrow> (case TemplateConvert rest of Inl e \<Rightarrow> Inl e | Inr r \<Rightarrow> Inr (t @ r)))
      | None \<Rightarrow> (case TemplateConvert cs of Inl e \<Rightarrow> Inl e | Inr r \<Rightarrow> Inr (c # r)))"
  by pat_completeness auto
termination
  by (relation "measure length") (auto split: if_splits dest: close_brace_length)

section \<open>Components\<close>

text \<open>\<open>path[1:]\<close> panics on the empty path. The verb is split off the last component.\<close>

definition split_verb :: "string list \<Rightarrow> matcher_error + string list" where
  "split_verb cs =
     (case last_index (last cs) CHR '':'' of
        None \<Rightarrow> Inr cs
      | Some idx \<Rightarrow>
          if idx = 0 then Inl StandaloneVerb
          else (let verb = drop (idx + 1) (last cs); cs' = butlast cs @ [take idx (last cs)]
                in Inr (if verb \<noteq> '''' then cs' @ ['':'' @ verb] else cs')))"

definition path_components :: "string \<Rightarrow> string \<Rightarrow> matcher_error + string list" where
  "path_components method path =
     (case path of
        [] \<Rightarrow> Inl Panic
      | _ # p \<Rightarrow>
          (let cs = split_char CHR ''/'' (to_lower p)
           in split_verb (if method \<noteq> '''' then to_lower method # cs else cs)))"

section \<open>Adding a pattern\<close>

text \<open>
  The walk of \<open>AddPattern\<close>. An empty component ends it with an error; the nodes made on the way stay.
\<close>

fun add_walk :: "string list \<Rightarrow> 'm \<Rightarrow> 'm seg \<Rightarrow> 'm seg \<times> matcher_error option" where
  "add_walk [] m t = (Seg (seg_meta t @ [m]) (seg_children t), None)"
| "add_walk (p # ps) m t =
     (if p = [] then (t, Some EmptyComponent)
      else (let child = (case mget (seg_children t) p of Some c \<Rightarrow> c | None \<Rightarrow> newPathSegment);
                (child', e) = add_walk ps m child
            in (Seg (seg_meta t) (AList.update p child' (seg_children t)), e)))"

definition AddPattern :: "string \<Rightarrow> string \<Rightarrow> 'm \<Rightarrow> 'm seg \<Rightarrow> 'm seg \<times> matcher_error option" where
  "AddPattern method pattern meta t =
     (case TemplateConvert pattern of
        Inl e \<Rightarrow> (t, Some e)
      | Inr pat \<Rightarrow>
          (case path_components method pat of
             Inl e \<Rightarrow> (t, Some e)
           | Inr cs \<Rightarrow> add_walk cs meta t))"

definition Clear :: "'m seg \<Rightarrow> 'm seg" where
  "Clear t = newPathSegment"

section \<open>Matching\<close>

lemma child_size: "mget ch p = Some n \<Longrightarrow> size n < size (Seg ms ch)"
proof -
  assume "mget ch p = Some n"
  then have "(p, n) \<in> set ch" by (rule map_of_SomeD)
  then show ?thesis by (induction ch) auto
qed

function (sequential) matchInternal :: "string list \<Rightarrow> 'm seg \<Rightarrow> 'm list option"
  and deep_loop :: "string list \<Rightarrow> 'm seg \<Rightarrow> 'm list option" where
  "matchInternal [] seg = (if seg_meta seg \<noteq> [] then Some (seg_meta seg) else None)"
| "matchInternal (c # cs) (Seg ms ch) =
     (if c = [] then None
      else (case (case mget ch c of Some n \<Rightarrow> matchInternal cs n | None \<Rightarrow> None) of
              Some m \<Rightarrow> Some m
            | None \<Rightarrow>
                (case (case mget ch ''*'' of Some n \<Rightarrow> matchInternal cs n | None \<Rightarrow> None) of
                   Some m \<Rightarrow> Some m
                 | None \<Rightarrow>
                     (case mget ch ''**'' of
                        None \<Rightarrow> None
                      | Some n \<Rightarrow>
                          (case (if seg_children n \<noteq> [] then deep_loop (c # cs) n else None) of
                             Some m \<Rightarrow> Some m
                           | None \<Rightarrow> if seg_meta n \<noteq> [] then Some (seg_meta n) else None)))))"
| "deep_loop [] n = None"
| "deep_loop (c # cs) n =
     (case (if mget (seg_children n) c \<noteq> None then matchInternal (c # cs) n
            else if mget (seg_children n) ''*'' \<noteq> None then matchInternal cs n
            else None) of
        Some m \<Rightarrow> Some m
      | None \<Rightarrow> deep_loop cs n)"
  by pat_completeness auto
termination
  by (relation "inv_image (less_than <*lex*> less_than)
        (case_sum (\<lambda>(cs, t). (2 * size t, length cs)) (\<lambda>(cs, t). (2 * size t + 1, length cs)))")
    (auto dest: child_size [where ms = "[]"])

definition Match :: "string \<Rightarrow> string \<Rightarrow> 'm seg \<Rightarrow> matcher_error + 'm list option" where
  "Match method path t =
     (case path_components method path of
        Inl Panic \<Rightarrow> Inl Panic
      | Inl e \<Rightarrow> Inr None
      | Inr cs \<Rightarrow> Inr (matchInternal cs t))"

section \<open>What a trie holds\<close>

text \<open>The metas stored under a list of components: the abstract content of the trie.\<close>

fun metas_at :: "'m seg \<Rightarrow> string list \<Rightarrow> 'm list" where
  "metas_at t [] = seg_meta t"
| "metas_at t (p # ps) = (case mget (seg_children t) p of Some n \<Rightarrow> metas_at n ps | None \<Rightarrow> [])"

lemma metas_at_new [simp]: "metas_at newPathSegment ps = []"
  by (cases ps) (simp_all add: newPathSegment_def)

lemma add_walk_content:
  "metas_at (fst (add_walk ps m t)) qs =
     metas_at t qs @ (if [] \<notin> set ps \<and> qs = ps then [m] else [])"
proof (induction ps arbitrary: t qs)
  case Nil
  show ?case by (cases qs) simp_all
next
  case (Cons p ps)
  show ?case
  proof (cases "p = []")
    case False
    define child where "child = (case mget (seg_children t) p of Some c \<Rightarrow> c | None \<Rightarrow> newPathSegment)"
    have t: "fst (add_walk (p # ps) m t) = Seg (seg_meta t) (AList.update p (fst (add_walk ps m child)) (seg_children t))"
      using False by (simp add: child_def Let_def case_prod_beta)
    have old: "metas_at t (p # rs) = metas_at child rs" for rs
      by (simp add: child_def split: option.split)
    show ?thesis
    proof (cases qs)
      case Nil
      then show ?thesis unfolding t by simp
    next
      case (Cons q rs)
      then show ?thesis
        using Cons.IH [of child rs] old [of rs] False unfolding t by auto
    qed
  qed simp
qed

lemma add_walk_error: "snd (add_walk ps m t) = (if [] \<in> set ps then Some EmptyComponent else None)"
  by (induction ps arbitrary: t) (auto simp: Let_def case_prod_beta)

text \<open>What a pattern compiles to, and the content that a list of additions leaves.\<close>

definition compile :: "string \<Rightarrow> string \<Rightarrow> matcher_error + string list" where
  "compile method pattern =
     (case TemplateConvert pattern of
        Inl e \<Rightarrow> Inl e
      | Inr pat \<Rightarrow> (case path_components method pat of
                      Inl e \<Rightarrow> Inl e
                    | Inr cs \<Rightarrow> if [] \<in> set cs then Inl EmptyComponent else Inr cs))"

definition add_all :: "(string \<times> string \<times> 'm) list \<Rightarrow> 'm seg \<Rightarrow> 'm seg" where
  "add_all adds t = foldl (\<lambda>t (method, pattern, m). fst (AddPattern method pattern m t)) t adds"

definition metas_for :: "(string \<times> string \<times> 'm) list \<Rightarrow> string list \<Rightarrow> 'm list" where
  "metas_for adds cs =
     map (\<lambda>(_, _, m). m) (filter (\<lambda>(method, pattern, _). compile method pattern = Inr cs) adds)"

lemma AddPattern_content:
  "metas_at (fst (AddPattern method pattern m t)) cs =
     metas_at t cs @ (if compile method pattern = Inr cs then [m] else [])"
  by (auto simp: AddPattern_def compile_def add_walk_content split: sum.split)

lemma AddPattern_error:
  "snd (AddPattern method pattern m t) = (case compile method pattern of Inl e \<Rightarrow> Some e | Inr _ \<Rightarrow> None)"
  by (auto simp: AddPattern_def compile_def add_walk_error split: sum.split)

lemma add_all_content: "metas_at (add_all adds t) cs = metas_at t cs @ metas_for adds cs"
proof (induction adds arbitrary: t)
  case (Cons a adds)
  obtain mth pat m where a: "a = (mth, pat, m)" by (cases a)
  show ?case using Cons.IH [of "fst (AddPattern mth pat m t)"]
    by (simp add: a add_all_def metas_for_def AddPattern_content)
qed (simp add: add_all_def metas_for_def)

section \<open>What a pattern means\<close>

text \<open>
  \<open>*\<close> stands for one component, \<open>**\<close> for some: any number when more of the pattern follows, at least one
  at the end. An empty component is matched by a \<open>**\<close> only, and not as the first it takes.
\<close>

primrec pmatch :: "string list \<Rightarrow> string list \<Rightarrow> bool" where
  "pmatch [] = (\<lambda>cs. cs = [])"
| "pmatch (p # ps) = (\<lambda>cs. case cs of
       [] \<Rightarrow> False
     | c # cs' \<Rightarrow> c \<noteq> [] \<and>
         ((p = c \<or> p = ''*'') \<and> pmatch ps cs' \<or>
          p = ''**'' \<and> (ps = [] \<or> (\<exists>s \<in> set (suffixes cs). pmatch ps s))))"

text \<open>One step of each of the two functions, as a choice of alternatives.\<close>

definition via :: "'m seg \<Rightarrow> string \<Rightarrow> string list \<Rightarrow> 'm list option" where
  "via t p cs = (case mget (seg_children t) p of Some n \<Rightarrow> matchInternal cs n | None \<Rightarrow> None)"

definition via_deep :: "'m seg \<Rightarrow> string list \<Rightarrow> 'm list option" where
  "via_deep t cs =
     (case mget (seg_children t) ''**'' of
        None \<Rightarrow> None
      | Some n \<Rightarrow> (case (if seg_children n \<noteq> [] then deep_loop cs n else None) of
                     Some m \<Rightarrow> Some m
                   | None \<Rightarrow> if seg_meta n \<noteq> [] then Some (seg_meta n) else None))"

definition or_else :: "'a option \<Rightarrow> 'a option \<Rightarrow> 'a option" where
  "or_else x y = (case x of Some v \<Rightarrow> Some v | None \<Rightarrow> y)"

lemma or_else_Some: "or_else x y = Some v \<longleftrightarrow> x = Some v \<or> x = None \<and> y = Some v"
  by (cases x) (auto simp: or_else_def)

lemma or_else_None: "or_else x y = None \<longleftrightarrow> x = None \<and> y = None"
  by (cases x) (auto simp: or_else_def)

lemma matchInternal_step:
  "c \<noteq> [] \<Longrightarrow> matchInternal (c # cs) t = or_else (via t c cs) (or_else (via t ''*'' cs) (via_deep t (c # cs)))"
  by (cases t) (simp add: via_def via_deep_def or_else_def)

lemma deep_loop_step:
  "deep_loop (c # cs) n =
     or_else (if mget (seg_children n) c \<noteq> None then matchInternal (c # cs) n
              else if mget (seg_children n) ''*'' \<noteq> None then matchInternal cs n
              else None) (deep_loop cs n)"
  by (simp add: or_else_def)

lemma deep_loop_sound:
  assumes "\<And>cs. matchInternal cs n = Some ms \<Longrightarrow> \<exists>p. pmatch p cs \<and> metas_at n p = ms"
    and "deep_loop cs n = Some ms"
  shows "\<exists>p s. suffix s cs \<and> pmatch p s \<and> metas_at n p = ms"
  using assms(2)
proof (induction cs)
  case (Cons c cs)
  then consider "matchInternal (c # cs) n = Some ms" | "matchInternal cs n = Some ms" | "deep_loop cs n = Some ms"
    unfolding deep_loop_step or_else_Some by (auto split: if_splits)
  then show ?case
  proof cases
    case 1
    then show ?thesis using assms(1) by blast
  next
    case 2
    then show ?thesis using assms(1) by (blast intro: suffix_ConsI)
  next
    case 3
    then show ?thesis using Cons.IH by (blast intro: suffix_ConsI)
  qed
qed simp

lemma child_smaller: "mget (seg_children t) p = Some n \<Longrightarrow> size n < size t"
  by (cases t) (use child_size in auto)

lemma pmatch_Cons:
  "pmatch (p # ps) (c # cs) \<longleftrightarrow> c \<noteq> [] \<and>
     ((p = c \<or> p = ''*'') \<and> pmatch ps cs \<or> p = ''**'' \<and> (ps = [] \<or> (\<exists>s. suffix s (c # cs) \<and> pmatch ps s)))"
  by (simp only: pmatch.simps list.case Bex_def in_set_suffixes)

lemma pmatch_deep: "c \<noteq> [] \<Longrightarrow> suffix s (c # cs) \<Longrightarrow> pmatch p s \<Longrightarrow> pmatch (''**'' # p) (c # cs)"
  unfolding pmatch_Cons by blast

lemma match_sound:
  "matchInternal cs t = Some ms \<Longrightarrow> \<exists>p. pmatch p cs \<and> metas_at t p = ms"
proof (induction t arbitrary: cs rule: measure_induct_rule [of size])
  case (less t)
  show ?case
  proof (cases cs)
    case Nil
    then have "pmatch [] cs \<and> metas_at t [] = ms" using less.prems by (auto split: if_splits)
    then show ?thesis by blast
  next
    case (Cons c ds)
    have c: "c \<noteq> []" using less.prems Cons by (cases t) auto
    have child: "\<exists>p. pmatch p ds \<and> metas_at t (q # p) = ms" if "via t q ds = Some ms" for q
      using that less.IH child_smaller by (fastforce simp: via_def split: option.splits)
    consider "via t c ds = Some ms" | "via t ''*'' ds = Some ms" | "via_deep t (c # ds) = Some ms"
      using less.prems by (auto simp: Cons matchInternal_step [OF c] or_else_Some)
    then show ?thesis
    proof cases
      case 1
      then obtain p where "pmatch (c # p) cs \<and> metas_at t (c # p) = ms" using child [of c] c Cons by auto
      then show ?thesis by blast
    next
      case 2
      then obtain p where "pmatch (''*'' # p) cs \<and> metas_at t (''*'' # p) = ms" using child [of "''*''"] c Cons by auto
      then show ?thesis by blast
    next
      case 3
      then obtain n where n: "mget (seg_children t) ''**'' = Some n"
        and "deep_loop (c # ds) n = Some ms \<or> seg_meta n = ms"
        by (auto simp: via_deep_def split: option.splits if_splits)
      then show ?thesis
      proof (elim disjE)
        assume "deep_loop (c # ds) n = Some ms"
        then obtain p s where "suffix s (c # ds)" "pmatch p s" "metas_at n p = ms"
          using deep_loop_sound less.IH [OF child_smaller [OF n]] by blast
        then have "pmatch (''**'' # p) cs \<and> metas_at t (''**'' # p) = ms"
          using n Cons pmatch_deep [OF c] by simp
        then show ?thesis by blast
      next
        assume "seg_meta n = ms"
        then have "pmatch [''**''] cs \<and> metas_at t [''**''] = ms" using n c Cons by simp
        then show ?thesis by blast
      qed
    qed
  qed
qed

lemma match_nonempty: "matchInternal cs t = Some ms \<Longrightarrow> ms \<noteq> []" "deep_loop cs n = Some ms \<Longrightarrow> ms \<noteq> []"
  by (induction cs t and cs n rule: matchInternal_deep_loop.induct)
    (auto split: option.splits if_splits)

text \<open>
  The patterns for which matching is complete: after \<open>**\<close> the loop looks for the next component of
  the pattern among the children, so that component has to be a literal one.
\<close>

fun regular :: "string list \<Rightarrow> bool" where
  "regular (p # q # ps) \<longleftrightarrow> (p = ''**'' \<longrightarrow> q \<noteq> ''*'' \<and> q \<noteq> ''**'') \<and> regular (q # ps)"
| "regular _ \<longleftrightarrow> True"

lemma regular_tl: "regular (p # ps) \<Longrightarrow> regular ps"
  by (cases ps) auto

lemma deep_loop_complete:
  assumes "matchInternal (d # ds) n \<noteq> None" and "mget (seg_children n) d \<noteq> None" and "suffix (d # ds) cs"
  shows "deep_loop cs n \<noteq> None"
  using assms(3)
proof (induction cs)
  case (Cons c cs)
  show ?case
  proof (cases "d # ds = c # cs")
    case True
    then show ?thesis using assms(1,2) unfolding deep_loop_step or_else_None by auto
  next
    case False
    then show ?thesis using Cons unfolding deep_loop_step or_else_None by (auto simp: suffix_Cons)
  qed
qed simp

lemma match_complete:
  assumes "pmatch p cs" and "metas_at t p \<noteq> []" and "regular p"
  shows "matchInternal cs t \<noteq> None"
  using assms
proof (induction p arbitrary: t cs)
  case (Cons p ps)
  obtain c ds where cs: "cs = c # ds" and c: "c \<noteq> []" using Cons.prems(1) by (auto split: list.splits)
  obtain n where n: "mget (seg_children t) p = Some n" and m: "metas_at n ps \<noteq> []"
    using Cons.prems(2) by (auto split: option.splits)
  have IH: "pmatch ps s \<Longrightarrow> matchInternal s n \<noteq> None" for s
    using Cons.IH [OF _ m] regular_tl [OF Cons.prems(3)] by blast
  consider (one) "p = c \<or> p = ''*''" "pmatch ps ds" | (last) "p = ''**''" "ps = []"
    | (deep) s where "p = ''**''" "ps \<noteq> []" "suffix s cs" "pmatch ps s"
    using Cons.prems(1) unfolding cs pmatch_Cons by (elim conjE disjE exE) (assumption | blast)+
  then have "via t c ds \<noteq> None \<or> via t ''*'' ds \<noteq> None \<or> via_deep t cs \<noteq> None"
  proof cases
    case one
    then show ?thesis using n IH by (auto simp: via_def)
  next
    case last
    then show ?thesis using n m by (auto simp: via_deep_def split: option.splits)
  next
    case deep
    then obtain q qs where ps: "ps = q # qs" by (cases ps) auto
    then have q: "q \<noteq> ''*''" "q \<noteq> ''**''" using deep(1) Cons.prems(3) by auto
    then obtain s' where s: "s = q # s'" using deep(4) ps by (auto split: list.splits)
    have "mget (seg_children n) q \<noteq> None" using m ps by (auto split: option.splits)
    moreover have "matchInternal (q # s') n \<noteq> None" using IH [OF deep(4)] s by simp
    ultimately have "deep_loop cs n \<noteq> None" and "seg_children n \<noteq> []"
      using deep_loop_complete [of q s' n cs] deep(3) s by auto
    then show ?thesis using n deep(1) by (auto simp: via_deep_def)
  qed
  then show ?case unfolding cs matchInternal_step [OF c] or_else_None by blast
qed auto

lemma match_exact: "metas_at t cs \<noteq> [] \<Longrightarrow> [] \<notin> set cs \<Longrightarrow> matchInternal cs t = Some (metas_at t cs)"
proof (induction cs arbitrary: t)
  case (Cons c cs)
  then obtain n where "mget (seg_children t) c = Some n" and "metas_at n cs \<noteq> []" by (auto split: option.splits)
  moreover have "c \<noteq> []" using Cons.prems(2) by auto
  ultimately show ?case using Cons by (simp add: matchInternal_step via_def or_else_def)
qed simp

section \<open>Properties\<close>

text \<open>
  A match is a pattern that was added. After any list of additions to an empty matcher, failed
  ones included, what \<open>Match\<close> returns are the metas of one pattern that was added and that matches the
  path, all of them, in the order of their addition; and a path that is itself a pattern is answered by
  that pattern.
\<close>

theorem match_returns_added_pattern:
  assumes "path_components method path = Inr cs" and "Match method path (add_all adds newPathSegment) = Inr (Some ms)"
  shows "(\<exists>p. pmatch p cs \<and> ms = metas_for adds p \<and> ms \<noteq> []) \<and>
         (metas_for adds cs \<noteq> [] \<and> [] \<notin> set cs \<longrightarrow> ms = metas_for adds cs)"
proof -
  have content: "metas_at (add_all adds newPathSegment) p = metas_for adds p" for p
    by (simp add: add_all_content)
  have m: "matchInternal cs (add_all adds newPathSegment) = Some ms" using assms by (simp add: Match_def)
  have "metas_for adds cs \<noteq> [] \<Longrightarrow> [] \<notin> set cs \<Longrightarrow> ms = metas_for adds cs"
    using match_exact [of "add_all adds newPathSegment" cs] m by (simp add: content)
  then show ?thesis using match_sound [OF m] match_nonempty(1) [OF m] by (auto simp: content)
qed

definition demo_adds :: "(string \<times> string \<times> nat) list" where
  "demo_adds = [(''GET'', ''/v1/{id}'', 1), (''GET'', ''/v1/self'', 2), (''GET'', ''/v1/{p=a/**}:meta'', 3)]"

theorem match_returns_added_pattern_witness:
  "Match ''GET'' ''/v1/self'' (add_all demo_adds newPathSegment) = Inr (Some [2]) \<and>
   (\<exists>p. pmatch p [''get'', ''v1'', ''self''] \<and> [2] = metas_for demo_adds p)"
proof -
  have p: "path_components ''GET'' ''/v1/self'' = Inr [''get'', ''v1'', ''self'']" by code_simp
  have m: "Match ''GET'' ''/v1/self'' (add_all demo_adds newPathSegment) = Inr (Some [2])" by code_simp
  from match_returns_added_pattern [OF p m] m show ?thesis by blast
qed

text \<open>
  C29 (no regular pattern is missed). A pattern that was added and that matches the path is never
  missed: \<open>Match\<close> finds it or another one, as long as no \<open>**\<close> of the pattern is directly followed by
  another wildcard.
\<close>

theorem match_finds_regular_pattern:
  assumes "path_components method path = Inr cs" and "pmatch p cs" and "regular p" and "metas_for adds p \<noteq> []"
  shows "\<exists>ms. Match method path (add_all adds newPathSegment) = Inr (Some ms)"
  using match_complete [OF assms(2), of "add_all adds newPathSegment"] assms(1,3,4)
  by (auto simp: Match_def add_all_content)

theorem match_finds_regular_pattern_witness:
  "\<exists>ms. Match ''GET'' ''/v1/a/b/c:meta'' (add_all demo_adds newPathSegment) = Inr (Some ms)"
proof (rule match_finds_regular_pattern [where p = "[''get'', ''v1'', ''a'', ''**'', '':meta'']"])
  show "path_components ''GET'' ''/v1/a/b/c:meta'' = Inr [''get'', ''v1'', ''a'', ''b'', ''c'', '':meta'']" by code_simp
  show "pmatch [''get'', ''v1'', ''a'', ''**'', '':meta''] [''get'', ''v1'', ''a'', ''b'', ''c'', '':meta'']" by code_simp
  show "regular [''get'', ''v1'', ''a'', ''**'', '':meta'']" by code_simp
  show "metas_for demo_adds [''get'', ''v1'', ''a'', ''**'', '':meta''] \<noteq> []" by code_simp
qed

text \<open>
  An irregular pattern depends on the others. The pattern \<open>/**/*\<close> alone does not match \<open>/x\<close>; with
  a second pattern that does not match \<open>/x\<close> either, the first one does.
\<close>

theorem unrelated_pattern_changes_match:
  "let one = [(''GET'', ''/**/*'', 1 :: nat)]; two = one @ [(''GET'', ''/**/x/y'', 2)]
   in Match ''GET'' ''/x'' (add_all one newPathSegment) = Inr None \<and>
      Match ''GET'' ''/x'' (add_all two newPathSegment) = Inr (Some [1])"
  by code_simp

end
