(* ===== verification/Http_Header.thy ===== *)
theory Http_Header
  imports Http_Matcher
begin

text \<open>
  The choice among the metas of a matched pattern: \<open>MatchWithMeta\<close> and \<open>EstimateMetaChain\<close> of
  \<^verbatim>\<open>http/matcher.go\<close>, \<^verbatim>\<open>http/header.go\<close>, and the paths of \<^verbatim>\<open>http/registry.go\<close>. A meta is an interface
  value; what the code asks of it are the two interfaces \<open>EstimatableHeaderMeta\<close> and
  \<open>EstimatableMetaPriority\<close>, each implemented or not. A regular expression is its text.
  \<open>utils.MatchHeadersWithString\<close> and \<open>utils.MatchHeadersWithRegex\<close>, which the repository calls but does
  not contain, are arguments.
\<close>

type_synonym header = "(string \<times> string list) list"

record 'x meta =
  mt_header :: "(smap list \<times> smap list) option"
  mt_priority :: "int option"
  mt_value :: 'x

section \<open>Package sort\<close>

text \<open>
  \<open>sort.SliceStable\<close> as insertion: each element moves left while it is less than its neighbour; the sorted
  prefix is kept reversed.
\<close>

fun insert_back :: "('a \<Rightarrow> 'a \<Rightarrow> bool) \<Rightarrow> 'a \<Rightarrow> 'a list \<Rightarrow> 'a list" where
  "insert_back lt x [] = [x]"
| "insert_back lt x (y # ys) = (if lt x y then y # insert_back lt x ys else x # y # ys)"

definition slice_stable :: "('a \<Rightarrow> 'a \<Rightarrow> bool) \<Rightarrow> 'a list \<Rightarrow> 'a list" where
  "slice_stable lt xs = rev (fold (insert_back lt) xs [])"

text \<open>\<open>strings.Compare(a, b) < 0\<close>.\<close>

fun str_less :: "string \<Rightarrow> string \<Rightarrow> bool" where
  "str_less [] [] = False"
| "str_less [] (y # ys) = True"
| "str_less (x # xs) [] = False"
| "str_less (x # xs) (y # ys) =
     ((of_char x :: nat) < of_char y \<or> x = y \<and> str_less xs ys)"

section \<open>Header rules\<close>

definition EstimateHeader ::
  "(smap \<Rightarrow> header \<Rightarrow> bool) \<Rightarrow> (smap \<Rightarrow> header \<Rightarrow> bool) \<Rightarrow> string \<Rightarrow> header \<Rightarrow> 'x meta \<Rightarrow> nat \<Rightarrow>
     matcher_error option \<times> header" where
  "EstimateHeader match_string match_regex host r meta count =
     (case mt_header meta of
        None \<Rightarrow> (Some Refused, r)
      | Some (hm, rm) \<Rightarrow>
          if count = 1 then (None, r)
          else if hm = [] \<and> rm = [] then (None, r)
          else (let r' = AList.update ''Host'' [host] r
                in if list_ex (\<lambda>h. match_string h r') hm \<or> list_ex (\<lambda>h. match_regex h r') rm
                   then (None, r') else (Some Refused, r')))"

text \<open>The key a meta gets: its pairs, sorted by name.\<close>

definition pairs_key :: "smap list \<Rightarrow> string" where
  "pairs_key maps =
     concat (map (\<lambda>(k, v). k @ '','' @ v @ '','')
       (slice_stable (\<lambda>a b. str_less (fst a) (fst b)) (concat maps)))"

definition header_key :: "smap list \<times> smap list \<Rightarrow> string" where
  "header_key h = pairs_key (fst h) @ ''|'' @ pairs_key (snd h)"

text \<open>
  A meta without the interface is counted, and then the method call on the nil interface value panics.
\<close>

fun header_keys :: "'x meta list \<Rightarrow> string list \<Rightarrow> matcher_error + string list" where
  "header_keys [] acc = Inr acc"
| "header_keys (m # ms) acc =
     (case mt_header m of None \<Rightarrow> Inl Panic | Some h \<Rightarrow> header_keys ms (set_add (header_key h) acc))"

definition adjustHeaderRuleCount :: "'x meta list \<Rightarrow> matcher_error + nat" where
  "adjustHeaderRuleCount metas =
     (case header_keys metas [] of Inl e \<Rightarrow> Inl e | Inr ks \<Rightarrow> Inr (length ks))"

section \<open>MatchWithMeta\<close>

type_synonym 'm estimate = "header \<Rightarrow> 'm \<Rightarrow> nat \<Rightarrow> matcher_error option \<times> header"

text \<open>The loop over the metas: the accepted ones, and the header map as the estimates leave it.\<close>

fun estimate_all :: "'m estimate \<Rightarrow> header \<Rightarrow> nat \<Rightarrow> 'm list \<Rightarrow> 'm list \<Rightarrow> 'm list \<times> header" where
  "estimate_all est r count [] result = (result, r)"
| "estimate_all est r count (m # ms) result =
     (case est r m count of
        (None, r') \<Rightarrow> estimate_all est r' count ms (result @ [m])
      | (Some e, r') \<Rightarrow> estimate_all est r' count ms result)"

text \<open>The comparison of \<open>MatchWithMeta\<close>: both sides are read from \<open>result[i]\<close>.\<close>

definition meta_less :: "'x meta \<Rightarrow> 'x meta \<Rightarrow> bool" where
  "meta_less a b =
     (let metaI = mt_priority a; metaJ = mt_priority a
      in if (metaI \<noteq> None) \<noteq> (metaJ \<noteq> None) then metaI \<noteq> None
         else if metaI = None then False
         else the metaI < the metaJ)"

definition MatchWithMeta ::
  "('x meta) estimate \<Rightarrow> string \<Rightarrow> string \<Rightarrow> header \<Rightarrow> 'x meta seg \<Rightarrow> (matcher_error + 'x meta list) \<times> header" where
  "MatchWithMeta est method path r t =
     (case path_components method path of
        Inl e \<Rightarrow> (Inl e, r)
      | Inr cs \<Rightarrow>
          (case matchInternal cs t of
             None \<Rightarrow> (Inl NoMatch, r)
           | Some metas \<Rightarrow>
               (case (if length metas > 1 then adjustHeaderRuleCount metas else Inr (length metas)) of
                  Inl e \<Rightarrow> (Inl e, r)
                | Inr count \<Rightarrow>
                    (let (result, r') = estimate_all est r count metas []
                     in (if length result > 0 then Inr (slice_stable meta_less result) else Inl Refused, r')))))"

text \<open>\<open>EstimateMetaChain\<close>: the first error ends the chain.\<close>

fun EstimateMetaChain :: "'m estimate list \<Rightarrow> 'm estimate" where
  "EstimateMetaChain [] r meta count = (None, r)"
| "EstimateMetaChain (e # es) r meta count =
     (case e r meta count of (Some err, r') \<Rightarrow> (Some err, r') | (None, r') \<Rightarrow> EstimateMetaChain es r' meta count)"

section \<open>Registry paths\<close>

definition RegistryWithPath :: "string list \<Rightarrow> string \<Rightarrow> string list" where
  "RegistryWithPath methods servicePath =
     (if length methods = 0 then [''/'' @ ''*'' @ trim_right servicePath CHR ''/'']
      else foldl (\<lambda>result method. [''/'' @ method @ trim_right servicePath CHR ''/'']) [] methods)"

definition RegistryWithGrpcPattern :: "string \<Rightarrow> matcher_error + string" where
  "RegistryWithGrpcPattern pattern =
     (case TemplateConvert pattern of Inl e \<Rightarrow> Inl e | Inr p \<Rightarrow> Inr (''/'' @ p))"

section \<open>Lemmas\<close>

lemma meta_less_False [simp]: "meta_less a b = False"
  by (simp add: meta_less_def Let_def)

lemma slice_stable_none: "(\<And>a b. \<not> lt a b) \<Longrightarrow> slice_stable lt xs = xs"
proof -
  assume l: "\<And>a b. \<not> lt a b"
  have "insert_back lt x ys = x # ys" for x ys using l by (cases ys) auto
  then have "fold (insert_back lt) xs acc = rev xs @ acc" for acc
    by (induction xs arbitrary: acc) auto
  then show ?thesis by (simp add: slice_stable_def)
qed

lemma estimate_all_acc:
  "fst (estimate_all est r count ms acc) = acc @ fst (estimate_all est r count ms [])"
proof (induction ms arbitrary: r acc)
  case (Cons m ms)
  obtain e r' where e: "est r m count = (e, r')" by (metis surj_pair)
  show ?case
  proof (cases e)
    case None
    then show ?thesis using e Cons.IH [of r' "acc @ [m]"] Cons.IH [of r' "[m]"] by simp
  next
    case (Some x)
    then show ?thesis using e Cons.IH [of r' acc] by simp
  qed
qed simp

lemma estimate_all_subseq: "subseq (fst (estimate_all est r count ms [])) ms"
proof (induction ms arbitrary: r)
  case (Cons m ms)
  obtain e r' where e: "est r m count = (e, r')" by (metis surj_pair)
  then show ?case using Cons.IH [of r'] estimate_all_acc [of est r' count ms "[m]"] by (cases e) auto
qed simp

lemma header_keys_result:
  "header_keys ms acc =
     (if list_ex (\<lambda>m. mt_header m = None) ms then Inl Panic
      else Inr (fold (\<lambda>m. set_add (header_key (the (mt_header m)))) ms acc))"
proof (induction ms arbitrary: acc)
  case (Cons m ms)
  then show ?case by (cases "mt_header m") simp_all
qed simp

lemma set_fold_set_add: "set (fold (\<lambda>m. set_add (f m)) ms acc) = f ` set ms \<union> set acc"
  by (induction ms arbitrary: acc) auto

lemma distinct_fold_set_add: "distinct acc \<Longrightarrow> distinct (fold (\<lambda>m. set_add (f m)) ms acc)"
  by (induction ms arbitrary: acc) auto

lemma adjustHeaderRuleCount_result:
  "adjustHeaderRuleCount ms =
     (if list_ex (\<lambda>m. mt_header m = None) ms then Inl Panic
      else Inr (card ((\<lambda>m. header_key (the (mt_header m))) ` set ms)))"
proof -
  let ?f = "\<lambda>m. header_key (the (mt_header m))"
  have "length (fold (\<lambda>m. set_add (?f m)) ms []) = card (?f ` set ms)"
    using distinct_card [OF distinct_fold_set_add [of "[]" ?f ms]] by (simp add: set_fold_set_add)
  then show ?thesis by (simp add: adjustHeaderRuleCount_def header_keys_result)
qed

section \<open>Properties\<close>

text \<open>
  Priorities have no effect. \<open>MatchWithMeta\<close> answers with the metas that the estimate accepts, in
  the order in which they were added, whatever their priorities: the sort compares every element with
  itself. It fails exactly when no pattern matches, when no meta is accepted, or, with a panic, when
  several metas match and one of them has no header rules.
\<close>

theorem match_with_meta_keeps_order:
  assumes "path_components method path = Inr cs"
  shows "fst (MatchWithMeta est method path r t) =
     (case matchInternal cs t of
        None \<Rightarrow> Inl NoMatch
      | Some metas \<Rightarrow>
          if length metas > 1 \<and> (list_ex (\<lambda>m. mt_header m = None) metas) then Inl Panic
          else (let n = (if length metas > 1 then card ((\<lambda>m. header_key (the (mt_header m))) ` set metas) else length metas);
                    accepted = fst (estimate_all est r n metas [])
                in if accepted = [] then Inl Refused else Inr accepted))"
proof (cases "matchInternal cs t")
  case None
  then show ?thesis using assms by (simp add: MatchWithMeta_def)
next
  case (Some metas)
  then show ?thesis
    using assms by (simp add: MatchWithMeta_def adjustHeaderRuleCount_result Let_def case_prod_beta slice_stable_none)
qed

definition prio_meta :: "int \<Rightarrow> nat meta" where
  "prio_meta p = \<lparr>mt_header = Some ([], []), mt_priority = Some p, mt_value = 0\<rparr>"

theorem match_with_meta_keeps_order_witness:
  "fst (MatchWithMeta (\<lambda>r m n. (None, r)) ''GET'' ''/a'' []
     (add_all [(''GET'', ''/a'', prio_meta 2), (''GET'', ''/a'', prio_meta 1)] newPathSegment))
   = Inr [prio_meta 2, prio_meta 1]"
proof -
  let ?t = "add_all [(''GET'', ''/a'', prio_meta 2), (''GET'', ''/a'', prio_meta 1)] newPathSegment"
  have p: "path_components ''GET'' ''/a'' = Inr [''get'', ''a'']" by code_simp
  have "matchInternal [''get'', ''a''] ?t = Some [prio_meta 2, prio_meta 1]" by code_simp
  then show ?thesis
    using match_with_meta_keeps_order [OF p, of "\<lambda>r m n. (None, r)" "[]" ?t] by (simp add: prio_meta_def)
qed

text \<open>
  Methods are lost. Of several methods, \<open>RegistryWithPath\<close> registers the path of the last one only.
\<close>

theorem registry_keeps_last_method:
  "RegistryWithPath (methods @ [method]) servicePath = [''/'' @ method @ trim_right servicePath CHR ''/'']"
  by (simp add: RegistryWithPath_def)

end
