(* ===== verification/Round_Robin.thy ===== *)
theory Round_Robin
  imports Prelude
begin

text \<open>
  The pickers of the load balancer: the interfaces of \<^verbatim>\<open>balancer/picker/picker.go\<close>, the round-robin
  picker of \<^verbatim>\<open>balancer/roundrobin/balancer.go\<close>, and the key of consistent hashing,
  \<^verbatim>\<open>balancer/hash_key.go\<close>. An address is of any type \<open>'a\<close>; the balancer uses object references and
  the discovery uses address records. The locale \<open>picker\<close> is what both rely on.
\<close>

datatype pick_error = NoAddress | PickPanic

section \<open>The round-robin picker\<close>

record 'a rr_picker =
  rr_filter :: "('a \<Rightarrow> bool) option"
  rr_addrs :: "'a list"
  rr_next :: nat

definition rr_build :: "('a \<Rightarrow> bool) option \<Rightarrow> 'a list \<Rightarrow> 'a rr_picker" where
  "rr_build flt addrs = \<lparr>rr_filter = flt, rr_addrs = addrs, rr_next = 0\<rparr>"

text \<open>
  The loop of \<open>Pick\<close>. The fuel is the number of addresses: each round advances \<open>next\<close> by one, so after
  that many rounds \<open>next\<close> is back at \<open>cur\<close> and the loop ends. An index out of range panics.
\<close>

fun rr_loop :: "nat \<Rightarrow> ('a \<Rightarrow> bool) \<Rightarrow> 'a list \<Rightarrow> nat \<Rightarrow> nat \<Rightarrow> (pick_error + 'a) \<times> nat" where
  "rr_loop 0 avail addrs cur next = (Inl PickPanic, next)"
| "rr_loop (Suc fuel) avail addrs cur next =
     (if next \<ge> length addrs then (Inl PickPanic, next)
      else (let addr = addrs ! next; next' = (next + 1) mod length addrs
            in if avail addr then (Inr addr, next')
               else if next' = cur then (Inl NoAddress, next')
               else rr_loop fuel avail addrs cur next'))"

definition rr_Pick :: "'a rr_picker \<Rightarrow> (pick_error + 'a) \<times> 'a rr_picker" where
  "rr_Pick p =
     (let addrs = rr_addrs p
      in if length addrs = 0 then (Inl NoAddress, p)
         else (case rr_filter p of
                 Some avail \<Rightarrow>
                   (let (r, next) = rr_loop (length addrs) avail addrs (rr_next p) (rr_next p)
                    in (r, p\<lparr>rr_next := next\<rparr>))
               | None \<Rightarrow>
                   if rr_next p \<ge> length addrs then (Inl PickPanic, p)
                   else (Inr (addrs ! rr_next p), p\<lparr>rr_next := (rr_next p + 1) mod length addrs\<rparr>)))"

definition rr_StateChanged :: "'a \<Rightarrow> 'a rr_picker \<Rightarrow> 'a rr_picker" where
  "rr_StateChanged addr p = p"

section \<open>ConcurrentPicker\<close>

text \<open>A picker behind a mutex: calls are serialised and passed on.\<close>

record 'p concurrent_picker =
  cp_picker :: 'p

definition NewConcurrentPicker :: "'p \<Rightarrow> 'p concurrent_picker" where
  "NewConcurrentPicker p = \<lparr>cp_picker = p\<rparr>"

definition cp_Pick :: "('p \<Rightarrow> 'r \<times> 'p) \<Rightarrow> 'p concurrent_picker \<Rightarrow> 'r \<times> 'p concurrent_picker" where
  "cp_Pick pick c = (let (r, p) = pick (cp_picker c) in (r, c\<lparr>cp_picker := p\<rparr>))"

definition cp_StateChanged :: "('a \<Rightarrow> 'p \<Rightarrow> 'p) \<Rightarrow> 'a \<Rightarrow> 'p concurrent_picker \<Rightarrow> 'p concurrent_picker" where
  "cp_StateChanged changed addr c = c\<lparr>cp_picker := changed addr (cp_picker c)\<rparr>"

section \<open>The key of consistent hashing\<close>

text \<open>The dynamic types the switch distinguishes; \<open>HOther\<close> carries the text of \<open>%+v\<close>.\<close>

datatype hash_value =
    HNil | HString string | HInt int | HUint nat | HInt16 int | HUint16 nat | HInt32 int | HUint32 nat
  | HInt64 int | HUint64 nat | HOther string

text \<open>\<open>strconv.FormatUint\<close> in base 10.\<close>

fun format_uint :: "nat \<Rightarrow> string" where
  "format_uint n = (if n < 10 then [char_of (48 + n)] else format_uint (n div 10) @ [char_of (48 + n mod 10)])"

declare format_uint.simps [simp del]

definition ConsistHashKey :: "hash_value \<Rightarrow> string" where
  "ConsistHashKey v =
     (case v of
        HString s \<Rightarrow> s
      | HUint64 n \<Rightarrow> format_uint n
      | HNil \<Rightarrow> ''''
      | HOther s \<Rightarrow> s
      | _ \<Rightarrow> '''')"

section \<open>The contract of a picker\<close>

text \<open>
  \<open>members p\<close> are the addresses a picker was built on, \<open>ok\<close> its invariant. A pick keeps both, never panics,
  and answers with a member or with "no address".
\<close>

locale picker =
  fixes build :: "'a list \<Rightarrow> 'p"
    and pick :: "'p \<Rightarrow> (pick_error + 'a) \<times> 'p"
    and changed :: "'a \<Rightarrow> 'p \<Rightarrow> 'p"
    and ok :: "'p \<Rightarrow> bool"
    and members :: "'p \<Rightarrow> 'a list"
  assumes ok_build: "ok (build addrs)"
    and members_build: "members (build addrs) = addrs"
    and ok_pick: "ok p \<Longrightarrow> ok (snd (pick p)) \<and> members (snd (pick p)) = members p"
    and ok_changed: "ok p \<Longrightarrow> ok (changed a p) \<and> members (changed a p) = members p"
    and pick_member: "ok p \<Longrightarrow> fst (pick p) = Inr a \<Longrightarrow> a \<in> set (members p)"
    and pick_error: "ok p \<Longrightarrow> fst (pick p) = Inl e \<Longrightarrow> e = NoAddress"
    and pick_empty: "ok p \<Longrightarrow> members p = [] \<Longrightarrow> fst (pick p) = Inl NoAddress"
begin

primrec picks :: "nat \<Rightarrow> 'p \<Rightarrow> (pick_error + 'a) list \<times> 'p" where
  "picks 0 p = ([], p)"
| "picks (Suc n) p = (let (r, p1) = pick p; (rs, p2) = picks n p1 in (r # rs, p2))"

lemma picks_members:
  "ok p \<Longrightarrow> set (fst (picks n p)) \<subseteq> insert (Inl NoAddress) (Inr ` set (members p)) \<and>
     ok (snd (picks n p)) \<and> members (snd (picks n p)) = members p"
proof (induction n arbitrary: p)
  case (Suc n)
  obtain r p1 where p: "pick p = (r, p1)" by (metis surj_pair)
  have "ok p1" and m: "members p1 = members p" using ok_pick [OF Suc.prems] p by simp_all
  moreover have "r \<in> insert (Inl NoAddress) (Inr ` set (members p))"
    using pick_member [OF Suc.prems] pick_error [OF Suc.prems] p by (cases r) auto
  ultimately show ?case using Suc.IH [of p1] by (simp add: p case_prod_beta)
qed simp

end

section \<open>The round-robin picker satisfies it\<close>

definition rr_ok :: "'a rr_picker \<Rightarrow> bool" where
  "rr_ok p \<longleftrightarrow> rr_addrs p = [] \<or> rr_next p < length (rr_addrs p)"

text \<open>The addresses in the order in which \<open>Pick\<close> looks at them.\<close>

definition from_next :: "'a list \<Rightarrow> nat \<Rightarrow> 'a list" where
  "from_next addrs next = drop next addrs @ take next addrs"

lemma length_from_next [simp]: "length (from_next addrs next) = length addrs"
  by (simp add: from_next_def)

lemma set_from_next [simp]: "set (from_next addrs next) = set addrs"
  using set_append [of "take next addrs" "drop next addrs"] by (auto simp: from_next_def)

lemma from_next_nth:
  assumes "next < length addrs" and "i < length addrs"
  shows "from_next addrs next ! i = addrs ! ((next + i) mod length addrs)"
  using assms by (auto simp: from_next_def nth_append le_mod_geq not_less add.commute)

lemma rr_loop_spec:
  assumes "cur < length addrs" and "k < length addrs" and "fuel = length addrs - k"
  shows "rr_loop fuel avail addrs cur ((cur + k) mod length addrs) =
     (case find avail (drop k (from_next addrs cur)) of
        Some a \<Rightarrow> (Inr a, (cur + k + length (takeWhile (\<lambda>x. \<not> avail x) (drop k (from_next addrs cur))) + 1) mod length addrs)
      | None \<Rightarrow> (Inl NoAddress, cur))"
  using assms
proof (induction fuel arbitrary: k)
  case (Suc fuel)
  let ?n = "length addrs" and ?xs = "from_next addrs cur"
  define nx where "nx = (cur + k) mod ?n"
  have n: "nx < ?n" unfolding nx_def by (rule mod_less_divisor) (use Suc.prems(1) in linarith)
  have x: "addrs ! nx = ?xs ! k" using from_next_nth [OF Suc.prems(1,2)] by (simp add: nx_def)
  have d: "drop k ?xs = ?xs ! k # drop (Suc k) ?xs" using Suc.prems(2) by (simp add: Cons_nth_drop_Suc)
  have step: "(nx + 1) mod ?n = (cur + Suc k) mod ?n" by (simp add: nx_def mod_simps)
  show ?case
  proof (cases "avail (?xs ! k)")
    case True
    then show ?thesis using n x step by (simp add: nx_def [symmetric] d Let_def)
  next
    case False
    show ?thesis
    proof (cases "Suc k = ?n")
      case True
      then have "(cur + Suc k) mod ?n = cur" using Suc.prems(1) by simp
      then show ?thesis
        using False n x step True by (simp add: nx_def [symmetric] d Let_def)
    next
      case less: False
      then have k: "Suc k < ?n" using Suc.prems(2) by simp
      have "(cur + Suc k) mod ?n \<noteq> cur"
      proof
        assume "(cur + Suc k) mod ?n = cur"
        then have "cur + Suc k < ?n \<or> cur + Suc k - ?n = cur"
          using Suc.prems(1) k by (cases "cur + Suc k < ?n") (auto simp: le_mod_geq not_less)
        then show False using \<open>(cur + Suc k) mod ?n = cur\<close> k by auto
      qed
      then have "rr_loop (Suc fuel) avail addrs cur nx = rr_loop fuel avail addrs cur ((cur + Suc k) mod ?n)"
        using False n x step by (simp add: Let_def)
      moreover have "fuel = ?n - Suc k" using Suc.prems(3) by simp
      ultimately have "rr_loop (Suc fuel) avail addrs cur nx =
          (case find avail (drop (Suc k) ?xs) of
             Some a \<Rightarrow> (Inr a, (cur + Suc k + length (takeWhile (\<lambda>x. \<not> avail x) (drop (Suc k) ?xs)) + 1) mod ?n)
           | None \<Rightarrow> (Inl NoAddress, cur))"
        using Suc.IH [OF Suc.prems(1) k] by simp
      then show ?thesis
        using False unfolding nx_def [symmetric] d by (simp split: option.split)
    qed
  qed
qed simp

lemma rr_loop_full:
  assumes "cur < length addrs"
  shows "rr_loop (length addrs) avail addrs cur cur =
     (case find avail (from_next addrs cur) of
        Some a \<Rightarrow> (Inr a, (cur + length (takeWhile (\<lambda>x. \<not> avail x) (from_next addrs cur)) + 1) mod length addrs)
      | None \<Rightarrow> (Inl NoAddress, cur))"
proof -
  have "0 < length addrs" using assms by linarith
  then show ?thesis using rr_loop_spec [OF assms, of 0 "length addrs" avail] assms by (simp split: option.split)
qed

lemma rr_Pick_result:
  assumes "rr_ok p" and "rr_addrs p \<noteq> []"
  shows "fst (rr_Pick p) =
     (case find (case rr_filter p of Some f \<Rightarrow> f | None \<Rightarrow> \<lambda>_. True) (from_next (rr_addrs p) (rr_next p)) of
        Some a \<Rightarrow> Inr a | None \<Rightarrow> Inl NoAddress)"
proof -
  have n: "rr_next p < length (rr_addrs p)" using assms by (simp add: rr_ok_def)
  obtain x xs where "from_next (rr_addrs p) (rr_next p) = x # xs"
    by (metis assms(2) length_0_conv length_from_next list.exhaust)
  moreover have "x = rr_addrs p ! rr_next p" using from_next_nth [OF n, of 0] n calculation assms(2) by simp
  ultimately show ?thesis
    using assms(2) n rr_loop_full [OF n]
    by (cases "rr_filter p") (auto simp: rr_Pick_def Let_def case_prod_beta split: option.splits)
qed

lemma rr_Pick_keeps:
  assumes "rr_ok p"
  shows "rr_ok (snd (rr_Pick p)) \<and> rr_addrs (snd (rr_Pick p)) = rr_addrs p \<and> rr_filter (snd (rr_Pick p)) = rr_filter p"
proof (cases "rr_addrs p = []")
  case True
  then show ?thesis using assms by (simp add: rr_Pick_def)
next
  case False
  then have n: "rr_next p < length (rr_addrs p)" and pos: "0 < length (rr_addrs p)" using assms by (simp_all add: rr_ok_def)
  have "snd (rr_loop (length (rr_addrs p)) f (rr_addrs p) (rr_next p) (rr_next p)) < length (rr_addrs p)" for f
    using n pos by (auto simp: rr_loop_full [OF n] split: option.split intro: mod_less_divisor)
  then show ?thesis
    using n pos by (auto simp: rr_Pick_def rr_ok_def Let_def case_prod_beta split: option.split intro: mod_less_divisor)
qed

interpretation rr: picker "rr_build flt" rr_Pick rr_StateChanged rr_ok rr_addrs for flt
proof unfold_locales
  show "rr_ok (rr_build flt addrs)" and "rr_addrs (rr_build flt addrs) = addrs" for addrs :: "'a list"
    by (auto simp: rr_ok_def rr_build_def)
  fix p :: "'a rr_picker" and a e
  assume ok: "rr_ok p"
  show "rr_ok (snd (rr_Pick p)) \<and> rr_addrs (snd (rr_Pick p)) = rr_addrs p" using rr_Pick_keeps [OF ok] by blast
  show "rr_ok (rr_StateChanged a p) \<and> rr_addrs (rr_StateChanged a p) = rr_addrs p" using ok by (simp add: rr_StateChanged_def)
  show "fst (rr_Pick p) = Inl NoAddress" if "rr_addrs p = []" using that by (simp add: rr_Pick_def)
  show "a \<in> set (rr_addrs p)" if "fst (rr_Pick p) = Inr a"
  proof -
    have "rr_addrs p \<noteq> []" using that by (auto simp: rr_Pick_def)
    with rr_Pick_result [OF ok this] that show ?thesis
      by (auto simp: find_Some_iff split: option.splits) (metis length_from_next nth_mem set_from_next)+
  qed
  show "e = NoAddress" if "fst (rr_Pick p) = Inl e"
    using that rr_Pick_result [OF ok] by (cases "rr_addrs p = []") (auto simp: rr_Pick_def split: option.splits)
qed

section \<open>Properties\<close>

text \<open>
  C18 (round robin with a filter). \<open>Pick\<close> never loops for ever and never indexes out of range: it
  answers with the first address, from the current position round the list, that is available, and
  with an error exactly if none is.
\<close>

theorem round_robin_first_available:
  assumes "rr_ok p" and "rr_addrs p \<noteq> []" and "rr_filter p = Some avail"
  shows "fst (rr_Pick p) = (case find avail (from_next (rr_addrs p) (rr_next p)) of Some a \<Rightarrow> Inr a | None \<Rightarrow> Inl NoAddress) \<and>
     (fst (rr_Pick p) = Inl NoAddress \<longleftrightarrow> (\<forall>a \<in> set (rr_addrs p). \<not> avail a)) \<and> rr_ok (snd (rr_Pick p))"
proof -
  have f: "find avail (from_next (rr_addrs p) (rr_next p)) = None \<longleftrightarrow> (\<forall>a \<in> set (rr_addrs p). \<not> avail a)"
    by (simp add: find_None_iff Ball_def)
  have r: "fst (rr_Pick p) = (case find avail (from_next (rr_addrs p) (rr_next p)) of Some a \<Rightarrow> Inr a | None \<Rightarrow> Inl NoAddress)"
    using rr_Pick_result [OF assms(1,2)] assms(3) by simp
  moreover from r have "fst (rr_Pick p) = Inl NoAddress \<longleftrightarrow> find avail (from_next (rr_addrs p) (rr_next p)) = None"
    by (auto split: option.split)
  ultimately show ?thesis using f conjunct1 [OF rr_Pick_keeps [OF assms(1)]] by (intro conjI) simp_all
qed

theorem round_robin_first_available_witness:
  "fst (rr_Pick \<lparr>rr_filter = Some (\<lambda>a. a \<noteq> 2), rr_addrs = [1 :: nat, 2, 3], rr_next = 1\<rparr>) = Inr 3"
proof -
  let ?p = "\<lparr>rr_filter = Some (\<lambda>a. a \<noteq> 2), rr_addrs = [1 :: nat, 2, 3], rr_next = 1\<rparr>"
  have "rr_ok ?p" by (simp add: rr_ok_def)
  from round_robin_first_available [OF this] show ?thesis by (simp add: from_next_def)
qed

lemma picks_rotate:
  assumes "rr_ok p" and "rr_addrs p \<noteq> []" and "rr_filter p = None"
  shows "fst (rr.picks n p) = map (\<lambda>i. Inr (rr_addrs p ! ((rr_next p + i) mod length (rr_addrs p)))) [0..<n]"
  using assms
proof (induction n arbitrary: p)
  case (Suc n)
  let ?a = "rr_addrs p" and ?p = "snd (rr_Pick p)"
  have n: "rr_next p < length ?a" using Suc.prems by (simp add: rr_ok_def)
  have pick: "rr_Pick p = (Inr (?a ! rr_next p), p\<lparr>rr_next := (rr_next p + 1) mod length ?a\<rparr>)"
    using Suc.prems n by (simp add: rr_Pick_def Let_def)
  have "fst (rr.picks n ?p) = map (\<lambda>i. Inr (?a ! ((rr_next ?p + i) mod length ?a))) [0..<n]"
    using Suc.IH [of ?p] rr_Pick_keeps [OF Suc.prems(1)] Suc.prems(2,3) by simp
  also have "\<dots> = map (\<lambda>i. Inr (?a ! ((rr_next p + Suc i) mod length ?a))) [0..<n]"
    by (simp add: pick mod_simps)
  finally have "fst (rr.picks (Suc n) p) =
      Inr (?a ! ((rr_next p + 0) mod length ?a)) # map (\<lambda>i. Inr (?a ! ((rr_next p + Suc i) mod length ?a))) [0..<n]"
    using n by (simp add: case_prod_beta pick)
  then show ?case by (simp only: upt_conv_Cons map_Suc_upt [symmetric] map_map comp_def list.map zero_less_Suc)
qed simp

text \<open>
  Round robin is fair. Without a filter, as many picks as there are addresses answer with every
  address once, in the order of the list from the current position on, and leave the picker where it was.
\<close>

theorem round_robin_fair:
  assumes "rr_ok p" and "rr_addrs p \<noteq> []" and "rr_filter p = None"
  shows "fst (rr.picks (length (rr_addrs p)) p) = map Inr (from_next (rr_addrs p) (rr_next p))"
proof (rule nth_equalityI)
  have n: "rr_next p < length (rr_addrs p)" using assms by (simp add: rr_ok_def)
  fix i assume "i < length (fst (rr.picks (length (rr_addrs p)) p))"
  then have "i < length (rr_addrs p)" by (simp add: picks_rotate [OF assms])
  then show "fst (rr.picks (length (rr_addrs p)) p) ! i = map Inr (from_next (rr_addrs p) (rr_next p)) ! i"
    using from_next_nth [OF n] by (simp add: picks_rotate [OF assms])
qed (simp add: picks_rotate [OF assms])

theorem round_robin_fair_witness:
  "fst (rr.picks 3 \<lparr>rr_filter = None, rr_addrs = [1 :: nat, 2, 3], rr_next = 1\<rparr>) = [Inr 2, Inr 3, Inr 1]"
proof -
  let ?p = "\<lparr>rr_filter = None, rr_addrs = [1 :: nat, 2, 3], rr_next = 1\<rparr>"
  have "rr_ok ?p" by (simp add: rr_ok_def)
  from round_robin_fair [OF this] show ?thesis by (simp add: from_next_def numeral_3_eq_3)
qed

text \<open>
  Integer keys. Of the integer types the switch lists, only \<open>uint64\<close> yields a key; a key of any
  other integer type is the empty string, whatever its value.
\<close>

theorem integer_hash_keys_collapse:
  "ConsistHashKey (HInt i) = '''' \<and> ConsistHashKey (HUint n) = '''' \<and> ConsistHashKey (HInt16 i) = '''' \<and>
   ConsistHashKey (HUint16 n) = '''' \<and> ConsistHashKey (HInt32 i) = '''' \<and> ConsistHashKey (HUint32 n) = '''' \<and>
   ConsistHashKey (HInt64 i) = '''' \<and> ConsistHashKey (HUint64 n) \<noteq> ''''"
  by (simp add: ConsistHashKey_def format_uint.simps [of n])

end
