(* ===== verification/Registry_Memory.thy ===== *)
theory Registry_Memory
  imports Config_Watch
begin

text \<open>
  The in-memory registry, \<^verbatim>\<open>registry/memory.go\<close>, with the watchers of \<^verbatim>\<open>registry/notifier.go\<close> and
  \<^verbatim>\<open>registry/watcher.go\<close>. An instance is a pair of an address and its metadata; the registry maps a
  service name to the instances by address. What the registry tells its watchers is the list of the
  events it raises, in order; an event goes to every watcher there is at that moment. The order of
  the services in one notification is the order of a Go map and is that of the list here.
\<close>

type_synonym 'm inst = "string \<times> 'm"

datatype 'm reg_event = RUpdate string "'m inst list" | RDelete string "'m inst list"

section \<open>The notifier\<close>

definition rn_NewNotifier :: "'w list \<Rightarrow> 'w list" where
  "rn_NewNotifier watchers = watchers"

definition rn_Watch :: "'w list \<Rightarrow> 'w \<Rightarrow> 'w list" where
  "rn_Watch ws w = ws @ [w]"

definition rn_cancel :: "'w list \<Rightarrow> 'w \<Rightarrow> 'w list" where
  "rn_cancel ws watcher = filter (\<lambda>w. w \<noteq> watcher) ws"

definition rn_Watchers :: "'w list \<Rightarrow> 'w list" where
  "rn_Watchers ws = ws"

definition rn_OnUpdate :: "'w list \<Rightarrow> string \<Rightarrow> 'm inst list \<Rightarrow> ('w \<times> 'm reg_event) list" where
  "rn_OnUpdate ws serviceName instances = map (\<lambda>w. (w, RUpdate serviceName instances)) (rn_Watchers ws)"

definition rn_OnDelete :: "'w list \<Rightarrow> string \<Rightarrow> 'm inst list \<Rightarrow> ('w \<times> 'm reg_event) list" where
  "rn_OnDelete ws serviceName instances = map (\<lambda>w. (w, RDelete serviceName instances)) (rn_Watchers ws)"

interpretation registry_notifier: watcher_list rn_Watch rn_cancel rn_Watchers
  by unfold_locales (simp_all add: rn_Watch_def rn_cancel_def rn_Watchers_def)

text \<open>\<open>WatcherWrapper\<close>: a callback that is nil is not called.\<close>

record ('m, 'r) watcher_wrapper =
  ww_onUpdate :: "(string \<Rightarrow> 'm inst list \<Rightarrow> 'r) option"
  ww_onDelete :: "(string \<Rightarrow> 'm inst list \<Rightarrow> 'r) option"

definition ww_OnUpdate :: "('m, 'r) watcher_wrapper \<Rightarrow> string \<Rightarrow> 'm inst list \<Rightarrow> 'r option" where
  "ww_OnUpdate w serviceName instances = (case ww_onUpdate w of None \<Rightarrow> None | Some f \<Rightarrow> Some (f serviceName instances))"

definition ww_OnDelete :: "('m, 'r) watcher_wrapper \<Rightarrow> string \<Rightarrow> 'm inst list \<Rightarrow> 'r option" where
  "ww_OnDelete w serviceName instances = (case ww_onDelete w of None \<Rightarrow> None | Some f \<Rightarrow> Some (f serviceName instances))"

section \<open>The registry\<close>

record ('m, 'w) memory_discovery =
  md_entries :: "(string \<times> 'm inst list) list"
  md_notifier :: "'w list"

definition NewMemoryServiceDiscovery :: "('m, 'w) memory_discovery" where
  "NewMemoryServiceDiscovery = \<lparr>md_entries = [], md_notifier = rn_NewNotifier []\<rparr>"

text \<open>
  The loop over the entries of one service: the new map, what is left of the previous one (\<open>None\<close> when
  there was none), and the instances that are new.
\<close>

fun entry_loop ::
  "'m inst list \<Rightarrow> 'm inst list \<times> 'm inst list option \<times> 'm inst list \<Rightarrow>
     'm inst list \<times> 'm inst list option \<times> 'm inst list" where
  "entry_loop [] st = st"
| "entry_loop ((addr, meta) # es) (instanceMap, prev, newInsts) =
     entry_loop es
       (AList.update addr meta instanceMap,
        (case prev of None \<Rightarrow> None
         | Some p \<Rightarrow> if mget p addr = None then Some p else Some (AList.delete addr p)),
        (case prev of None \<Rightarrow> newInsts @ [(addr, meta)]
         | Some p \<Rightarrow> if mget p addr = None then newInsts @ [(addr, meta)] else newInsts))"

definition put_service :: "string \<Rightarrow> 'm inst list \<Rightarrow> (string \<times> 'm inst list) list \<Rightarrow> (string \<times> 'm inst list) list" where
  "put_service s im entries = (if length im = 0 then AList.delete s entries else AList.update s im entries)"

text \<open>The loop over the service names, with the map of what to notify.\<close>

fun service_loop ::
  "string list \<Rightarrow> 'm inst list \<Rightarrow>
     (string \<times> 'm inst list) list \<times> (string \<times> 'm inst list \<times> 'm inst list) list \<Rightarrow>
     (string \<times> 'm inst list) list \<times> (string \<times> 'm inst list \<times> 'm inst list) list" where
  "service_loop [] es st = st"
| "service_loop (s # ss) es (entries, notifyMap) =
     (let (instanceMap, prev, newInsts) = entry_loop es ([], mget entries s, []);
          delInsts = (case prev of None \<Rightarrow> [] | Some p \<Rightarrow> p)
      in service_loop ss es (put_service s instanceMap entries, AList.update s (newInsts, delInsts) notifyMap))"

definition notify_one :: "'w list \<Rightarrow> string \<times> 'm inst list \<times> 'm inst list \<Rightarrow> ('w \<times> 'm reg_event) list" where
  "notify_one ws n =
     (case n of (s, newInsts, delInsts) \<Rightarrow>
        (if length newInsts > 0 then rn_OnUpdate ws s newInsts else []) @
        (if length delInsts > 0 then rn_OnDelete ws s delInsts else []))"

definition RegisterServiceWithEntries ::
  "string list \<Rightarrow> 'm inst list \<Rightarrow> ('m, 'w) memory_discovery \<Rightarrow> ('m, 'w) memory_discovery \<times> ('w \<times> 'm reg_event) list" where
  "RegisterServiceWithEntries serviceNames entries d =
     (let (es, notifyMap) = service_loop serviceNames entries (md_entries d, [])
      in (d\<lparr>md_entries := es\<rparr>, concat (map (notify_one (md_notifier d)) notifyMap)))"

definition RegisterService ::
  "string \<Rightarrow> string \<Rightarrow> 'm \<Rightarrow> ('m, 'w) memory_discovery \<Rightarrow> ('m, 'w) memory_discovery \<times> ('w \<times> 'm reg_event) list" where
  "RegisterService serviceName addr meta d =
     (let instanceMap = (case mget (md_entries d) serviceName of None \<Rightarrow> [] | Some im \<Rightarrow> im)
      in (d\<lparr>md_entries := AList.update serviceName (AList.update addr meta instanceMap) (md_entries d)\<rparr>,
          rn_OnUpdate (md_notifier d) serviceName [(addr, meta)]))"

definition UnregisterService ::
  "string \<Rightarrow> string \<Rightarrow> ('m, 'w) memory_discovery \<Rightarrow> ('m, 'w) memory_discovery \<times> ('w \<times> 'm reg_event) list" where
  "UnregisterService serviceName addr d =
     (let (es, dels) =
        (case mget (md_entries d) serviceName of
           None \<Rightarrow> (md_entries d, [])
         | Some im \<Rightarrow>
             if addr = '''' then (AList.delete serviceName (md_entries d), im)
             else (let (im', dels) = (case mget im addr of None \<Rightarrow> (im, []) | Some meta \<Rightarrow> (AList.delete addr im, [(addr, meta)]))
                   in (put_service serviceName im' (md_entries d), dels)))
      in (d\<lparr>md_entries := es\<rparr>, rn_OnDelete (md_notifier d) serviceName dels))"

section \<open>Reading\<close>

definition ServiceInstances :: "('m, 'w) memory_discovery \<Rightarrow> string \<Rightarrow> 'm inst list" where
  "ServiceInstances d serviceName = (case mget (md_entries d) serviceName of None \<Rightarrow> [] | Some im \<Rightarrow> im)"

definition HasService :: "('m, 'w) memory_discovery \<Rightarrow> string \<Rightarrow> bool" where
  "HasService d serviceName = (case mget (md_entries d) serviceName of None \<Rightarrow> False | Some im \<Rightarrow> length im > 0)"

definition HasInstance :: "('m, 'w) memory_discovery \<Rightarrow> string \<Rightarrow> string \<Rightarrow> bool" where
  "HasInstance d serviceName addr =
     (case mget (md_entries d) serviceName of
        None \<Rightarrow> False
      | Some im \<Rightarrow> if length im = 0 then False else mget im addr \<noteq> None)"

definition ListServiceAddresses :: "('m, 'w) memory_discovery \<Rightarrow> string \<Rightarrow> string list" where
  "ListServiceAddresses d serviceName =
     (case mget (md_entries d) serviceName of None \<Rightarrow> [] | Some im \<Rightarrow> map fst im)"

definition ListServiceByPrefix :: "('m, 'w) memory_discovery \<Rightarrow> string \<Rightarrow> (string \<times> string list) list" where
  "ListServiceByPrefix d prefix =
     map (\<lambda>(s, im). (s, map fst im))
       (filter (\<lambda>(s, im). length im \<noteq> 0 \<and> (prefix = '''' \<or> has_prefix s prefix)) (md_entries d))"

definition ListAllService :: "('m, 'w) memory_discovery \<Rightarrow> (string \<times> 'm inst list) list" where
  "ListAllService d = filter (\<lambda>(s, im). length im \<noteq> 0) (md_entries d)"

definition WatchAllServiceChanges :: "'w \<Rightarrow> ('m, 'w) memory_discovery \<Rightarrow> ('m, 'w) memory_discovery" where
  "WatchAllServiceChanges w d = d\<lparr>md_notifier := rn_Watch (md_notifier d) w\<rparr>"

definition cancel_watch :: "'w \<Rightarrow> ('m, 'w) memory_discovery \<Rightarrow> ('m, 'w) memory_discovery" where
  "cancel_watch w d = d\<lparr>md_notifier := rn_cancel (md_notifier d) w\<rparr>"

section \<open>The resolver's watcher\<close>

text \<open>
  \<open>memoryWatcher\<close>: \<open>mw_started\<close> says that the channel was made. The channel holds one message; a send on a
  full channel blocks, which the result \<open>None\<close> of a notification stands for. \<open>Next\<close> waits for a message or
  for the context; when both are there Go chooses freely, so its outcome is a relation.
\<close>

datatype upd_op = Add | Delete

record 'm update =
  up_Op :: upd_op
  up_Addr :: string
  up_Metadata :: 'm

record 'm memory_watcher =
  mw_target :: string
  mw_started :: bool
  mw_ch :: "'m update list list"
  mw_closed :: bool
  mw_done :: bool

definition newMemoryWatcher :: "string \<Rightarrow> 'm memory_watcher" where
  "newMemoryWatcher target =
     \<lparr>mw_target = target, mw_started = False, mw_ch = [], mw_closed = False, mw_done = False\<rparr>"

definition updates_of :: "upd_op \<Rightarrow> 'm inst list \<Rightarrow> 'm update list" where
  "updates_of op instances = map (\<lambda>(a, m). \<lparr>up_Op = op, up_Addr = a, up_Metadata = m\<rparr>) instances"

text \<open>\<open>firstNext\<close>: \<open>None\<close> is \<open>ErrWatcherClosed\<close>. The watcher \<open>w\<close> is added to the registry's notifier.\<close>

definition firstNext ::
  "'w \<Rightarrow> ('m, 'w) memory_discovery \<Rightarrow> 'm memory_watcher \<Rightarrow>
     'm update list option \<times> ('m, 'w) memory_discovery \<times> 'm memory_watcher" where
  "firstNext w d mw =
     (if mw_closed mw then (None, d, mw)
      else (Some (updates_of Add (ServiceInstances d (mw_target mw))),
            WatchAllServiceChanges w d, mw\<lparr>mw_started := True, mw_ch := []\<rparr>))"

definition notifyService :: "upd_op \<Rightarrow> string \<Rightarrow> 'm inst list \<Rightarrow> 'm memory_watcher \<Rightarrow> 'm memory_watcher option" where
  "notifyService op serviceName instances mw =
     (if serviceName \<noteq> mw_target mw then Some mw
      else if mw_closed mw then Some mw
      else if length (mw_ch mw) \<ge> 1 then None
      else Some (mw\<lparr>mw_ch := mw_ch mw @ [updates_of op instances]\<rparr>))"

definition notifyServiceUpdate :: "string \<Rightarrow> 'm inst list \<Rightarrow> 'm memory_watcher \<Rightarrow> 'm memory_watcher option" where
  "notifyServiceUpdate = notifyService Add"

definition notifyServiceDelete :: "string \<Rightarrow> 'm inst list \<Rightarrow> 'm memory_watcher \<Rightarrow> 'm memory_watcher option" where
  "notifyServiceDelete = notifyService Delete"

inductive mw_Next ::
  "'w \<Rightarrow> ('m, 'w) memory_discovery \<times> 'm memory_watcher \<Rightarrow> 'm update list option \<Rightarrow>
     ('m, 'w) memory_discovery \<times> 'm memory_watcher \<Rightarrow> bool" where
  First: "\<not> mw_started mw \<Longrightarrow> firstNext w d mw = (r, d', mw') \<Longrightarrow> mw_Next w (d, mw) r (d', mw')"
| Receive: "mw_started mw \<Longrightarrow> mw_ch mw = u # us \<Longrightarrow> mw_Next w (d, mw) (Some u) (d, mw\<lparr>mw_ch := us\<rparr>)"
| Done: "mw_started mw \<Longrightarrow> mw_done mw \<Longrightarrow> mw_Next w (d, mw) None (d, mw)"

definition mw_Close ::
  "'w \<Rightarrow> ('m, 'w) memory_discovery \<Rightarrow> 'm memory_watcher \<Rightarrow> ('m, 'w) memory_discovery \<times> 'm memory_watcher" where
  "mw_Close w d mw =
     (if mw_closed mw then (d, mw)
      else (if mw_started mw then cancel_watch w d else d, mw\<lparr>mw_closed := True, mw_done := True\<rparr>))"

section \<open>Operations as a sequence, and what a watcher can rebuild\<close>

datatype 'm reg_op = OpRegister string string 'm | OpUnregister string string | OpEntries "string list" "'m inst list"

fun reg_step :: "'m reg_op \<Rightarrow> ('m, 'w) memory_discovery \<Rightarrow> ('m, 'w) memory_discovery \<times> ('w \<times> 'm reg_event) list" where
  "reg_step (OpRegister s a m) d = RegisterService s a m d"
| "reg_step (OpUnregister s a) d = UnregisterService s a d"
| "reg_step (OpEntries ss es) d = RegisterServiceWithEntries ss es d"

text \<open>A watcher that keeps the instances of one service by applying the events it hears.\<close>

fun apply_event :: "string \<Rightarrow> 'm reg_event \<Rightarrow> 'm inst list \<Rightarrow> 'm inst list" where
  "apply_event t (RUpdate s is) M = (if s = t then fold (\<lambda>(a, m). AList.update a m) is M else M)"
| "apply_event t (RDelete s is) M = (if s = t then fold (\<lambda>(a, m). AList.delete a) is M else M)"

definition heard :: "'w \<Rightarrow> ('w \<times> 'm reg_event) list \<Rightarrow> 'm reg_event list" where
  "heard w calls = map snd (filter (\<lambda>c. fst c = w) calls)"

definition replay :: "string \<Rightarrow> 'm reg_event list \<Rightarrow> 'm inst list \<Rightarrow> 'm inst list" where
  "replay t evs M = fold (apply_event t) evs M"

definition addrs :: "'m inst list \<Rightarrow> string set" where
  "addrs M = fst ` set M"

lemma addrs_Nil [simp]: "addrs [] = {}"
  by (simp add: addrs_def)

lemma addrs_Cons [simp]: "addrs (i # is) = insert (fst i) (addrs is)"
  by (simp add: addrs_def)

lemma addrs_append [simp]: "addrs (xs @ ys) = addrs xs \<union> addrs ys"
  by (simp add: addrs_def image_Un)

lemma addrs_update [simp]: "addrs (AList.update a m M) = insert a (addrs M)"
  by (simp add: addrs_def dom_update)

lemma addrs_delete [simp]: "addrs (AList.delete a M) = addrs M - {a}"
  by (auto simp: addrs_def AList.delete_eq)

lemma addrs_fold_update: "addrs (fold (\<lambda>(a, m). AList.update a m) is M) = addrs is \<union> addrs M"
proof (induction "is" arbitrary: M)
  case (Cons i "is")
  then show ?case by (cases i) auto
qed simp

lemma addrs_fold_delete: "addrs (fold (\<lambda>(a, m). AList.delete a) is M) = addrs M - addrs is"
proof (induction "is" arbitrary: M)
  case (Cons i "is")
  then show ?case by (cases i) auto
qed simp

lemma mget_addrs: "mget M a \<noteq> None \<longleftrightarrow> a \<in> addrs M"
  by (simp add: addrs_def mget_None_iff)

subsection \<open>One call\<close>

lemma replay_Nil [simp]: "replay t [] M = M"
  by (simp add: replay_def)

lemma replay_append: "replay t (xs @ ys) M = replay t ys (replay t xs M)"
  by (simp add: replay_def)

lemma heard_append: "heard w (xs @ ys) = heard w xs @ heard w ys"
  by (simp add: heard_def)

lemma heard_notify:
  "distinct ws \<Longrightarrow> w \<in> set ws \<Longrightarrow> heard w (rn_OnUpdate ws s is) = [RUpdate s is]"
  "distinct ws \<Longrightarrow> w \<in> set ws \<Longrightarrow> heard w (rn_OnDelete ws s is) = [RDelete s is]"
proof -
  have one: "distinct ws \<Longrightarrow> w \<in> set ws \<Longrightarrow> filter (\<lambda>x. x = w) ws = [w]" for ws
    by (induction ws) (auto simp: filter_empty_conv)
  show "distinct ws \<Longrightarrow> w \<in> set ws \<Longrightarrow> heard w (rn_OnUpdate ws s is) = [RUpdate s is]"
    and "distinct ws \<Longrightarrow> w \<in> set ws \<Longrightarrow> heard w (rn_OnDelete ws s is) = [RDelete s is]"
    using one by (simp_all add: heard_def rn_OnUpdate_def rn_OnDelete_def rn_Watchers_def filter_map comp_def)
qed

definition notifies :: "string \<Rightarrow> 'm inst list \<Rightarrow> 'm inst list \<Rightarrow> 'm reg_event list" where
  "notifies s new del = (if new = [] then [] else [RUpdate s new]) @ (if del = [] then [] else [RDelete s del])"

lemma heard_notify_one:
  assumes "distinct ws" and "w \<in> set ws"
  shows "heard w (notify_one ws (s, new, del)) = notifies s new del"
  by (simp add: notify_one_def notifies_def heard_append heard_notify [OF assms]) (simp add: heard_def)

lemma addrs_replay_notifies:
  "addrs (replay t (notifies s new del) M) = (if s = t then addrs new \<union> addrs M - addrs del else addrs M)"
  by (auto simp: notifies_def replay_def addrs_fold_update addrs_fold_delete)

subsection \<open>The loops\<close>

definition opt_addrs :: "'m inst list option \<Rightarrow> string set" where
  "opt_addrs p = (case p of None \<Rightarrow> {} | Some M \<Rightarrow> addrs M)"

definition svc :: "(string \<times> 'm inst list) list \<Rightarrow> string \<Rightarrow> string set" where
  "svc entries s = opt_addrs (mget entries s)"

lemma opt_addrs_simps [simp]: "opt_addrs None = {}" "opt_addrs (Some M) = addrs M"
  by (simp_all add: opt_addrs_def)

lemma addrs_empty_iff [simp]: "addrs M = {} \<longleftrightarrow> M = []"
  by (simp add: addrs_def)

lemma svc_put: "svc (put_service s im entries) t = (if t = s then addrs im else svc entries t)"
  by (auto simp: svc_def put_service_def)

lemma entry_loop_spec:
  assumes "entry_loop es (im, prev, new) = (im', prev', new')"
  shows "addrs im' = addrs es \<union> addrs im \<and> opt_addrs prev' = opt_addrs prev - addrs es \<and>
         (\<exists>X. new' = new @ X \<and> addrs X \<subseteq> addrs es \<and> addrs es - opt_addrs prev \<subseteq> addrs X)"
  using assms
proof (induction es arbitrary: im prev new)
  case (Cons e es)
  obtain a m where e: "e = (a, m)" by (cases e)
  define seen where "seen \<longleftrightarrow> a \<in> opt_addrs prev"
  define prev1 where "prev1 = (case prev of None \<Rightarrow> None | Some p \<Rightarrow> if mget p a = None then Some p else Some (AList.delete a p))"
  have prev1: "opt_addrs prev1 = opt_addrs prev - {a}"
    by (auto simp: prev1_def mget_addrs [symmetric] split: option.split)
  have step: "entry_loop es (AList.update a m im, prev1, if seen then new else new @ [(a, m)]) = (im', prev', new')"
    using Cons.prems by (cases prev) (auto simp: e prev1_def seen_def mget_addrs [symmetric] split: if_splits)
  obtain X where "new' = (if seen then new else new @ [(a, m)]) @ X" "addrs X \<subseteq> addrs es"
    "addrs es - (opt_addrs prev - {a}) \<subseteq> addrs X"
    using Cons.IH [OF step] prev1 by auto
  then have "\<exists>X. new' = new @ X \<and> addrs X \<subseteq> addrs (e # es) \<and> addrs (e # es) - opt_addrs prev \<subseteq> addrs X"
    by (intro exI [of _ "if seen then X else (a, m) # X"]) (auto simp: e seen_def)
  moreover have "addrs im' = addrs (e # es) \<union> addrs im \<and> opt_addrs prev' = opt_addrs prev - addrs (e # es)"
    using Cons.IH [OF step] prev1 by (auto simp: e)
  ultimately show ?case by blast
qed auto

lemma service_loop_spec:
  assumes "distinct ss" and "set ss \<inter> fst ` set nm = {}"
  shows "\<exists>f. snd (service_loop ss es (entries, nm)) = nm @ map (\<lambda>s. (s, f s)) ss \<and>
           (\<forall>s \<in> set ss. addrs (fst (f s)) \<union> svc entries s - addrs (snd (f s)) = addrs es) \<and>
           (\<forall>t. svc (fst (service_loop ss es (entries, nm))) t = (if t \<in> set ss then addrs es else svc entries t))"
  using assms
proof (induction ss arbitrary: entries nm)
  case (Cons s ss)
  obtain im prev new where l: "entry_loop es ([], mget entries s, []) = (im, prev, new)" by (metis prod_cases3)
  define del where "del = (case prev of None \<Rightarrow> [] | Some p \<Rightarrow> p)"
  have del: "addrs del = opt_addrs prev" by (simp add: del_def split: option.split)
  have x: "addrs im = addrs es" "opt_addrs prev = svc entries s - addrs es" "addrs new \<subseteq> addrs es"
    "addrs es - svc entries s \<subseteq> addrs new"
    using entry_loop_spec [OF l] by (auto simp: svc_def)
  have nm: "AList.update s (new, del) nm = nm @ [(s, new, del)]"
  proof -
    have "s \<notin> fst ` set nm" using Cons.prems(2) by auto
    then show ?thesis by (induction nm) auto
  qed
  have step: "service_loop (s # ss) es (entries, nm) =
      service_loop ss es (put_service s im entries, nm @ [(s, new, del)])"
    unfolding service_loop.simps l Let_def prod.case del_def [symmetric] nm ..
  obtain f where f: "snd (service_loop ss es (put_service s im entries, nm @ [(s, new, del)]))
        = (nm @ [(s, new, del)]) @ map (\<lambda>s. (s, f s)) ss"
    and old: "\<forall>t \<in> set ss. addrs (fst (f t)) \<union> svc (put_service s im entries) t - addrs (snd (f t)) = addrs es"
    and after: "\<forall>t. svc (fst (service_loop ss es (put_service s im entries, nm @ [(s, new, del)]))) t =
        (if t \<in> set ss then addrs es else svc (put_service s im entries) t)"
    using Cons.IH [of "nm @ [(s, new, del)]" "put_service s im entries"] Cons.prems by auto
  have s: "s \<notin> set ss" using Cons.prems(1) by simp
  let ?g = "f(s := (new, del))"
  have g: "map (\<lambda>t. (t, ?g t)) ss = map (\<lambda>t. (t, f t)) ss" using s by auto
  show ?case
  proof (intro exI [of _ ?g] conjI)
    show "snd (service_loop (s # ss) es (entries, nm)) = nm @ map (\<lambda>s. (s, ?g s)) (s # ss)"
      unfolding step using f g by simp
    show "\<forall>t \<in> set (s # ss). addrs (fst (?g t)) \<union> svc entries t - addrs (snd (?g t)) = addrs es"
    proof
      fix t assume t: "t \<in> set (s # ss)"
      show "addrs (fst (?g t)) \<union> svc entries t - addrs (snd (?g t)) = addrs es"
      proof (cases "t = s")
        case True
        then show ?thesis using x del by auto
      next
        case False
        then show ?thesis using bspec [OF old, of t] t by (simp add: svc_put)
      qed
    qed
    show "\<forall>t. svc (fst (service_loop (s # ss) es (entries, nm))) t = (if t \<in> set (s # ss) then addrs es else svc entries t)"
      unfolding step using after s x(1) by (auto simp: svc_put)
  qed
qed simp

lemma addrs_replay_services:
  "distinct ss \<Longrightarrow>
     addrs (replay t (concat (map (\<lambda>s. notifies s (fst (f s)) (snd (f s))) ss)) M) =
       (if t \<in> set ss then addrs (fst (f t)) \<union> addrs M - addrs (snd (f t)) else addrs M)"
proof (induction ss arbitrary: M)
  case (Cons s ss)
  then show ?case
    using Cons.IH [of "replay t (notifies s (fst (f s)) (snd (f s))) M"]
    by (auto simp: replay_append addrs_replay_notifies)
qed simp

subsection \<open>A sequence of operations\<close>

fun ok_op :: "'m reg_op \<Rightarrow> bool" where
  "ok_op (OpEntries ss es) = distinct ss"
| "ok_op _ = True"

lemma reg_step_notifier: "md_notifier (fst (reg_step op d)) = md_notifier d"
  by (cases op) (simp_all add: RegisterService_def UnregisterService_def RegisterServiceWithEntries_def Let_def case_prod_beta)

lemma replay_step:
  assumes "ok_op op" and "distinct (md_notifier d)" and "w \<in> set (md_notifier d)" and "addrs M = svc (md_entries d) t"
  shows "addrs (replay t (heard w (snd (reg_step op d))) M) = svc (md_entries (fst (reg_step op d))) t"
proof (cases op)
  case (OpRegister s a m)
  then show ?thesis
    using assms(4) by (auto simp: RegisterService_def Let_def heard_notify [OF assms(2,3)] replay_def svc_def split: option.splits)
next
  case (OpUnregister s a)
  have f: "addrs (fold (\<lambda>(a, m). AList.delete a) is M) = addrs M - addrs is" for "is" by (rule addrs_fold_delete)
  show ?thesis
  proof (cases "mget (md_entries d) s")
    case None
    then show ?thesis
      using OpUnregister assms(4) by (simp add: UnregisterService_def heard_notify [OF assms(2,3)] replay_def)
  next
    case (Some im)
    have t: "svc (md_entries d) s = addrs im" by (simp add: svc_def Some)
    consider "a = []" | "a \<noteq> []" "mget im a = None" | m where "a \<noteq> []" "mget im a = Some m" by blast
    then show ?thesis
    proof cases
      case 1
      then show ?thesis
        using OpUnregister Some assms(4) f [of im] t
        by (auto simp: UnregisterService_def heard_notify [OF assms(2,3)] replay_def svc_def)
    next
      case 2
      then show ?thesis
        using OpUnregister Some assms(4) t
        by (simp add: UnregisterService_def heard_notify [OF assms(2,3)] replay_def svc_put)
    next
      case 3
      then show ?thesis
        using OpUnregister Some assms(4) t
        by (simp add: UnregisterService_def heard_notify [OF assms(2,3)] replay_def svc_put)
    qed
  qed
next
  case (OpEntries ss es)
  then have ss: "distinct ss" using assms(1) by simp
  obtain f where nm: "snd (service_loop ss es (md_entries d, [])) = map (\<lambda>s. (s, f s)) ss"
    and old: "\<forall>s \<in> set ss. addrs (fst (f s)) \<union> svc (md_entries d) s - addrs (snd (f s)) = addrs es"
    and after: "\<forall>t. svc (fst (service_loop ss es (md_entries d, []))) t = (if t \<in> set ss then addrs es else svc (md_entries d) t)"
    using service_loop_spec [OF ss, of "[]" es "md_entries d"] by auto
  have "heard w (concat (map (notify_one (md_notifier d)) (map (\<lambda>s. (s, f s)) us))) =
      concat (map (\<lambda>s. notifies s (fst (f s)) (snd (f s))) us)" for us
  proof (induction us)
    case (Cons u us)
    then show ?case
      using heard_notify_one [OF assms(2,3), of u "fst (f u)" "snd (f u)"] by (simp add: heard_append)
  qed (simp add: heard_def)
  then have "addrs (replay t (heard w (snd (reg_step op d))) M) =
      (if t \<in> set ss then addrs (fst (f t)) \<union> addrs M - addrs (snd (f t)) else addrs M)"
    using OpEntries by (simp add: RegisterServiceWithEntries_def case_prod_beta nm addrs_replay_services [OF ss])
  then show ?thesis using OpEntries after old assms(4) by (simp add: RegisterServiceWithEntries_def case_prod_beta)
qed

fun reg_run :: "'m reg_op list \<Rightarrow> ('m, 'w) memory_discovery \<Rightarrow> ('m, 'w) memory_discovery \<times> ('w \<times> 'm reg_event) list" where
  "reg_run [] d = (d, [])"
| "reg_run (op # ops) d =
     (let (d1, c1) = reg_step op d; (d2, c2) = reg_run ops d1 in (d2, c1 @ c2))"

lemma reg_run_replay:
  assumes "list_all ok_op ops" and "distinct (md_notifier d)" and "w \<in> set (md_notifier d)" and "addrs M = svc (md_entries d) t"
  shows "addrs (replay t (heard w (snd (reg_run ops d))) M) = svc (md_entries (fst (reg_run ops d))) t"
  using assms
proof (induction ops arbitrary: d M)
  case (Cons op ops)
  have op: "ok_op op" using Cons.prems(1) by simp
  show ?case
    using Cons.IH [of "fst (reg_step op d)" "replay t (heard w (snd (reg_step op d))) M"] Cons.prems
      replay_step [OF op Cons.prems(2,3,4)]
    by (simp add: case_prod_beta heard_append replay_append reg_step_notifier)
qed (simp add: heard_def)

subsection \<open>No empty service\<close>

definition entries_ok :: "(string \<times> 'm inst list) list \<Rightarrow> bool" where
  "entries_ok E \<longleftrightarrow> wf_map E \<and> (\<forall>s im. (s, im) \<in> set E \<longrightarrow> im \<noteq> [] \<and> wf_map im)"

definition reg_inv :: "('m, 'w) memory_discovery \<Rightarrow> bool" where
  "reg_inv d \<longleftrightarrow> entries_ok (md_entries d)"

lemma in_delete: "x \<in> set (AList.delete k E) \<Longrightarrow> x \<in> set E"
  by (auto simp: AList.delete_eq)

lemma entries_ok_delete: "entries_ok E \<Longrightarrow> entries_ok (AList.delete s E)"
  unfolding entries_ok_def using in_delete by (metis wf_map_delete)

lemma entries_ok_update: "entries_ok E \<Longrightarrow> im \<noteq> [] \<Longrightarrow> wf_map im \<Longrightarrow> entries_ok (AList.update s im E)"
  by (auto simp: entries_ok_def dest!: in_update)

lemma entries_ok_put: "entries_ok E \<Longrightarrow> wf_map im \<Longrightarrow> entries_ok (put_service s im E)"
  by (simp add: put_service_def entries_ok_delete entries_ok_update)

lemma entries_ok_get: "entries_ok E \<Longrightarrow> mget E s = Some im \<Longrightarrow> im \<noteq> [] \<and> wf_map im"
  by (auto simp: entries_ok_def dest: map_of_SomeD)

lemma entry_loop_wf: "wf_map im \<Longrightarrow> entry_loop es (im, prev, new) = (im', r) \<Longrightarrow> wf_map im'"
proof (induction es arbitrary: im prev new)
  case (Cons e es)
  then show ?case using Cons.IH [OF wf_map_update [OF Cons.prems(1)]] by (cases e) auto
qed simp

lemma service_loop_ok: "entries_ok E \<Longrightarrow> entries_ok (fst (service_loop ss es (E, nm)))"
proof (induction ss arbitrary: E nm)
  case (Cons s ss)
  obtain im prev new where l: "entry_loop es ([], mget E s, []) = (im, prev, new)" by (metis prod_cases3)
  have "wf_map im" using entry_loop_wf [OF _ l] by simp
  then show ?case
    using Cons.IH entries_ok_put [OF Cons.prems, of im s] by (simp add: l)
qed simp

lemma reg_step_inv: "reg_inv d \<Longrightarrow> reg_inv (fst (reg_step op d))"
proof (cases op)
  case (OpRegister s a m)
  assume inv: "reg_inv d"
  let ?im = "case mget (md_entries d) s of None \<Rightarrow> [] | Some im \<Rightarrow> im"
  have "wf_map ?im" using inv entries_ok_get by (auto simp: reg_inv_def split: option.split)
  then have "wf_map (AList.update a m ?im)" and "AList.update a m ?im \<noteq> []" by (auto simp: update_nonempty)
  then show ?thesis
    using inv OpRegister by (simp add: reg_inv_def RegisterService_def Let_def entries_ok_update)
next
  case (OpUnregister s a)
  assume "reg_inv d"
  then have E: "entries_ok (md_entries d)" by (simp add: reg_inv_def)
  show ?thesis
  proof (cases "mget (md_entries d) s")
    case (Some im)
    then have "wf_map im" using entries_ok_get [OF E] by blast
    then show ?thesis
      using OpUnregister Some E entries_ok_delete [OF E, of s] entries_ok_put [OF E, of _ s]
      by (cases "mget im a") (simp_all add: reg_inv_def UnregisterService_def)
  qed (use E OpUnregister in \<open>simp add: reg_inv_def UnregisterService_def\<close>)
next
  case (OpEntries ss es)
  assume "reg_inv d"
  then show ?thesis
    using OpEntries service_loop_ok [of "md_entries d" ss es "[]"]
    by (simp add: reg_inv_def RegisterServiceWithEntries_def case_prod_beta)
qed

lemma reg_run_inv: "reg_inv d \<Longrightarrow> reg_inv (fst (reg_run ops d))"
proof (induction ops arbitrary: d)
  case (Cons op ops)
  then show ?case using reg_step_inv [OF Cons.prems, of op] by (simp add: case_prod_beta)
qed simp

lemma NewMemoryServiceDiscovery_inv: "reg_inv NewMemoryServiceDiscovery"
  by (simp add: reg_inv_def entries_ok_def NewMemoryServiceDiscovery_def)

lemma HasService_svc: "HasService d s \<longleftrightarrow> svc (md_entries d) s \<noteq> {}"
  by (simp add: HasService_def svc_def split: option.split)

lemma set_ListServiceAddresses: "set (ListServiceAddresses d s) = svc (md_entries d) s"
  by (cases "mget (md_entries d) s") (simp_all add: ListServiceAddresses_def svc_def addrs_def)

section \<open>Properties\<close>



text \<open>
  Readers agree. After any sequence of operations on a new registry, no service is kept without
  instances, and the readers agree: \<open>HasService\<close>, \<open>ListServiceAddresses\<close>, \<open>HasInstance\<close>,
  \<open>ListServiceByPrefix\<close> and \<open>ListAllService\<close> speak of the same instances.
\<close>

theorem registry_readers_agree:
  fixes ops :: "'m reg_op list"
  defines "d \<equiv> fst (reg_run ops (NewMemoryServiceDiscovery :: ('m, 'w) memory_discovery))"
  shows "ListAllService d = md_entries d \<and>
     (HasService d s \<longleftrightarrow> ListServiceAddresses d s \<noteq> []) \<and>
     (HasInstance d s a \<longleftrightarrow> a \<in> set (ListServiceAddresses d s)) \<and>
     (HasService d s \<longleftrightarrow> s \<in> fst ` set (ListAllService d)) \<and>
     mget (ListServiceByPrefix d p) s =
       (if HasService d s \<and> has_prefix s p then Some (ListServiceAddresses d s) else None)"
proof -
  have "reg_inv d" unfolding d_def by (rule reg_run_inv [OF NewMemoryServiceDiscovery_inv])
  then have ok: "entries_ok (md_entries d)" by (simp add: reg_inv_def)
  have all: "ListAllService d = md_entries d"
    using ok by (auto simp: ListAllService_def entries_ok_def filter_id_conv)
  have addr: "HasService d s \<longleftrightarrow> ListServiceAddresses d s \<noteq> []"
    using set_ListServiceAddresses [of d s] by (auto simp: HasService_svc)
  have inst: "HasInstance d s a \<longleftrightarrow> a \<in> set (ListServiceAddresses d s)"
    using mget_addrs [of _ a]
    by (cases "mget (md_entries d) s") (auto simp: HasInstance_def ListServiceAddresses_def addrs_def)
  have mem: "HasService d s \<longleftrightarrow> s \<in> fst ` set (ListAllService d)"
    using entries_ok_get [OF ok, of s] unfolding all
    by (auto simp: HasService_def mget_None_iff split: option.split dest: mget_key)
  have "map_of (map (\<lambda>(s, im). (s, map fst im)) (filter (\<lambda>(s, im). P s \<and> im \<noteq> []) E)) s =
      (case mget E s of Some im \<Rightarrow> if P s \<and> im \<noteq> [] then Some (map fst im) else None | None \<Rightarrow> None)"
    if "wf_map E" for P and E :: "(string \<times> 'm inst list) list"
    using that
  proof (induction E)
    case (Cons e E)
    obtain s' im where e: "e = (s', im)" by (cases e)
    show ?case
    proof (cases "s' = s")
      case True
      then have "mget E s = None" using Cons.prems e by (auto simp: map_of_eq_None_iff)
      then show ?thesis using True Cons e by simp
    next
      case False
      then show ?thesis using Cons e by simp
    qed
  qed simp
  from this [of "md_entries d" "\<lambda>s. p = '''' \<or> has_prefix s p"] ok
  have "mget (ListServiceByPrefix d p) s =
      (if HasService d s \<and> has_prefix s p then Some (ListServiceAddresses d s) else None)"
    by (auto simp: ListServiceByPrefix_def HasService_def ListServiceAddresses_def entries_ok_def conj_commute
        split: option.splits)
  with all addr inst mem show ?thesis by blast
qed

end
