(* ===== verification/Balancer.thy ===== *)
theory Balancer
  imports Round_Robin Registry_Memory
begin

text \<open>
  The load balancer, \<^verbatim>\<open>balancer/internal/balancer.go\<close> and \<^verbatim>\<open>balancer/internal/addr_info.go\<close>. The
  \<open>AddressInfo\<close> objects are shared between the balancer and its picker and are mutated by \<open>Up\<close> and
  \<open>down\<close>, so they live in a store and are named by their position; the slices of the balancer and
  of the picker hold positions. The picker is an argument, given by its three operations. A channel that
  waiters block on has a number, and the balancer records the channels that were closed; a waiter runs
  again once its channel is closed. The resolver and its watcher are outside: an update arrives as the
  list \<open>Next\<close> returned.
\<close>

type_synonym 'm address = "string \<times> 'm option"

datatype balancer_error = ClientConnClosing | NoAddressAvailable | BalancerClosed | PickerBuilderIsNil | ResolveError

record ('a, 'p) picker_ops =
  po_build :: "'a list \<Rightarrow> 'p"
  po_pick :: "'p \<Rightarrow> (pick_error + 'a) \<times> 'p"
  po_changed :: "'a \<Rightarrow> 'p \<Rightarrow> 'p"

record ('m, 'p) balancer =
  bl_objs :: "('m address \<times> bool) list"
  bl_addrs :: "nat list"
  bl_addrCh :: "'m address list list option"
  bl_waitCh :: "nat option"
  bl_closedCh :: "nat list"
  bl_fresh :: nat
  bl_done :: bool
  bl_watching :: bool
  bl_picker :: "'p option"

definition NewBalancerWithPicker :: "('m, 'p) balancer" where
  "NewBalancerWithPicker =
     \<lparr>bl_objs = [], bl_addrs = [], bl_addrCh = None, bl_waitCh = None, bl_closedCh = [], bl_fresh = 0,
      bl_done = False, bl_watching = False, bl_picker = None\<rparr>"

definition ai_Address :: "('m, 'p) balancer \<Rightarrow> nat \<Rightarrow> 'm address" where
  "ai_Address b i = fst (bl_objs b ! i)"

definition ai_Connected :: "('m, 'p) balancer \<Rightarrow> nat \<Rightarrow> bool" where
  "ai_Connected b i = snd (bl_objs b ! i)"

section \<open>Updates\<close>

definition add_addr :: "'m address \<Rightarrow> ('m, 'p) balancer \<Rightarrow> ('m, 'p) balancer" where
  "add_addr addr b =
     (if list_ex (\<lambda>v. addr = ai_Address b v) (bl_addrs b) then b
      else b\<lparr>bl_objs := bl_objs b @ [(addr, False)], bl_addrs := bl_addrs b @ [length (bl_objs b)]\<rparr>)"

text \<open>The copy and the shortened slice of the delete case take the first match out.\<close>

fun take_out :: "('a \<Rightarrow> bool) \<Rightarrow> 'a list \<Rightarrow> 'a list" where
  "take_out P [] = []"
| "take_out P (x # xs) = (if P x then xs else x # take_out P xs)"

definition delete_addr :: "'m address \<Rightarrow> ('m, 'p) balancer \<Rightarrow> ('m, 'p) balancer" where
  "delete_addr addr b = b\<lparr>bl_addrs := take_out (\<lambda>v. addr = ai_Address b v) (bl_addrs b)\<rparr>"

definition one_update :: "'m update \<Rightarrow> ('m, 'p) balancer \<Rightarrow> ('m, 'p) balancer" where
  "one_update u b =
     (let addr = (up_Addr u, Some (up_Metadata u))
      in case up_Op u of Add \<Rightarrow> add_addr addr b | Delete \<Rightarrow> delete_addr addr b)"

text \<open>
  The part of \<open>watchAddrUpdates\<close> after \<open>Next\<close>. The old message, if any, is taken off the channel before
  the new one is sent. \<open>addrCh\<close> was made by \<open>StartInternal\<close>.
\<close>

definition watchAddrUpdates ::
  "(nat, 'p) picker_ops \<Rightarrow> 'm update list \<Rightarrow> ('m, 'p) balancer \<Rightarrow> balancer_error option \<times> ('m, 'p) balancer" where
  "watchAddrUpdates P updates b =
     (let b1 = fold one_update updates b;
          open = map (ai_Address b1) (bl_addrs b1)
      in if bl_done b1 then (Some ClientConnClosing, b1)
         else (let rest = (case bl_addrCh b1 of Some (_ # q) \<Rightarrow> q | _ \<Rightarrow> [])
               in (None, b1\<lparr>bl_addrCh := Some (rest @ [open]), bl_picker := Some (po_build P (bl_addrs b1))\<rparr>)))"

text \<open>\<open>r\<close> is \<open>None\<close> without a resolver, otherwise whether \<open>Resolve\<close> succeeds.\<close>

definition StartInternal ::
  "(nat, 'p) picker_ops \<Rightarrow> bool option \<Rightarrow> string \<Rightarrow> ('m, 'p) balancer \<Rightarrow> balancer_error option \<times> ('m, 'p) balancer" where
  "StartInternal P r target b =
     (if bl_done b then (Some ClientConnClosing, b)
      else (case r of
              None \<Rightarrow>
                (let addrs = bl_addrs b @ [length (bl_objs b)]
                 in (None, b\<lparr>bl_objs := bl_objs b @ [((target, None), False)], bl_addrs := addrs,
                             bl_picker := Some (po_build P addrs)\<rparr>))
            | Some False \<Rightarrow> (Some ResolveError, b)
            | Some True \<Rightarrow>
                (None, b\<lparr>bl_watching := True, bl_addrCh := Some [], bl_picker := Some (po_build P [])\<rparr>)))"

definition bl_Start ::
  "(nat, 'p) picker_ops \<Rightarrow> bool option \<Rightarrow> string \<Rightarrow> ('m, 'p) balancer \<Rightarrow> balancer_error option \<times> ('m, 'p) balancer" where
  "bl_Start P r target b = StartInternal P r target b"

section \<open>Connection state\<close>

definition set_connected :: "nat \<Rightarrow> bool \<Rightarrow> ('m, 'p) balancer \<Rightarrow> ('m, 'p) balancer" where
  "set_connected i c b = b\<lparr>bl_objs := (bl_objs b)[i := (ai_Address b i, c)]\<rparr>"

definition state_changed :: "(nat, 'p) picker_ops \<Rightarrow> nat \<Rightarrow> ('m, 'p) balancer \<Rightarrow> ('m, 'p) balancer" where
  "state_changed P i b = b\<lparr>bl_picker := map_option (po_changed P i) (bl_picker b)\<rparr>"

definition close_waitCh :: "('m, 'p) balancer \<Rightarrow> ('m, 'p) balancer" where
  "close_waitCh b =
     (case bl_waitCh b of None \<Rightarrow> b | Some c \<Rightarrow> b\<lparr>bl_closedCh := c # bl_closedCh b, bl_waitCh := None\<rparr>)"

text \<open>The loop of \<open>Up\<close>: \<open>None\<close> is the early return, otherwise the number of connected addresses.\<close>

fun up_loop :: "(nat, 'p) picker_ops \<Rightarrow> 'm address \<Rightarrow> nat list \<Rightarrow> nat \<Rightarrow> ('m, 'p) balancer \<Rightarrow> nat option \<times> ('m, 'p) balancer" where
  "up_loop P addr [] cnt b = (Some cnt, b)"
| "up_loop P addr (a # as) cnt b =
     (if ai_Address b a = addr \<and> ai_Connected b a then (None, b)
      else (let b1 = (if ai_Address b a = addr then state_changed P a (set_connected a True b) else b)
            in up_loop P addr as (if ai_Connected b1 a then cnt + 1 else cnt) b1))"

definition bl_Up :: "(nat, 'p) picker_ops \<Rightarrow> 'm address \<Rightarrow> ('m, 'p) balancer \<Rightarrow> ('m, 'p) balancer" where
  "bl_Up P addr b =
     (case up_loop P addr (bl_addrs b) 0 b of
        (None, b1) \<Rightarrow> b1
      | (Some cnt, b1) \<Rightarrow> if cnt = 1 \<and> bl_waitCh b1 \<noteq> None then close_waitCh b1 else b1)"

definition bl_down :: "(nat, 'p) picker_ops \<Rightarrow> 'm address \<Rightarrow> ('m, 'p) balancer \<Rightarrow> ('m, 'p) balancer" where
  "bl_down P addr b =
     (case find (\<lambda>a. addr = ai_Address b a) (bl_addrs b) of
        None \<Rightarrow> b
      | Some a \<Rightarrow> state_changed P a (set_connected a False b))"

section \<open>Getting an address\<close>

datatype 'm get_result = GotAddr "'m address" | GetError balancer_error | Waiting nat | GetPanic

text \<open>
  \<open>Get\<close> up to the point where it returns or waits on a channel. A woken caller runs the same code again,
  with \<open>BlockingWait\<close> on.
\<close>

definition bl_Get :: "(nat, 'p) picker_ops \<Rightarrow> bool \<Rightarrow> ('m, 'p) balancer \<Rightarrow> 'm get_result \<times> ('m, 'p) balancer" where
  "bl_Get P BlockingWait b =
     (if bl_done b then (GetError ClientConnClosing, b)
      else (case bl_picker b of
              None \<Rightarrow> (GetPanic, b)
            | Some p \<Rightarrow>
                (let (r, p') = po_pick P p; b1 = b\<lparr>bl_picker := Some p'\<rparr>
                 in case r of
                      Inl e \<Rightarrow> (GetError NoAddressAvailable, b1)
                    | Inr a \<Rightarrow>
                        if ai_Connected b1 a then (GotAddr (ai_Address b1 a), b1)
                        else if \<not> BlockingWait then
                          (if length (bl_addrs b1) = 0 then (GetError NoAddressAvailable, b1)
                           else (GotAddr (ai_Address b1 a), b1))
                        else (case bl_waitCh b1 of
                                None \<Rightarrow> (Waiting (bl_fresh b1), b1\<lparr>bl_waitCh := Some (bl_fresh b1), bl_fresh := bl_fresh b1 + 1\<rparr>)
                              | Some c \<Rightarrow> (Waiting c, b1)))))"

definition bl_Notify :: "('m, 'p) balancer \<Rightarrow> 'm address list list option" where
  "bl_Notify b = bl_addrCh b"

definition bl_Close :: "('m, 'p) balancer \<Rightarrow> balancer_error option \<times> ('m, 'p) balancer" where
  "bl_Close b =
     (if bl_done b then (Some BalancerClosed, b)
      else (None, (close_waitCh b)\<lparr>bl_done := True, bl_watching := False\<rparr>))"

section \<open>What updates do\<close>

text \<open>The addresses of a balancer as values, and what an update means for them.\<close>

definition addr_list :: "('m, 'p) balancer \<Rightarrow> 'm address list" where
  "addr_list b = map (ai_Address b) (bl_addrs b)"

definition spec_update :: "'m update \<Rightarrow> 'm address list \<Rightarrow> 'm address list" where
  "spec_update u as =
     (let a = (up_Addr u, Some (up_Metadata u))
      in case up_Op u of Add \<Rightarrow> if a \<in> set as then as else as @ [a] | Delete \<Rightarrow> remove1 a as)"

definition objs_ok :: "('m, 'p) balancer \<Rightarrow> bool" where
  "objs_ok b \<longleftrightarrow> list_all (\<lambda>i. i < length (bl_objs b)) (bl_addrs b) \<and> distinct (addr_list b)"

lemma take_out_map: "map f (take_out (\<lambda>v. a = f v) xs) = remove1 a (map f xs)"
  by (induction xs) auto

lemma set_take_out: "set (take_out P xs) \<subseteq> set xs"
  by (induction xs) auto

lemma ai_Address_same [simp]:
  "ai_Address (b\<lparr>bl_addrs := as\<rparr>) = ai_Address b"
  "ai_Address (b\<lparr>bl_picker := p\<rparr>) = ai_Address b"
  "ai_Address (b\<lparr>bl_addrCh := q\<rparr>) = ai_Address b"
  "ai_Address (b\<lparr>bl_waitCh := w\<rparr>) = ai_Address b"
  "ai_Address (b\<lparr>bl_closedCh := cs\<rparr>) = ai_Address b"
  "ai_Address (b\<lparr>bl_fresh := n\<rparr>) = ai_Address b"
  "ai_Address (b\<lparr>bl_done := d\<rparr>) = ai_Address b"
  "ai_Address (b\<lparr>bl_watching := d\<rparr>) = ai_Address b"
  by (simp_all add: ai_Address_def fun_eq_iff)

lemma one_update_spec:
  assumes "objs_ok b"
  shows "addr_list (one_update u b) = spec_update u (addr_list b) \<and> objs_ok (one_update u b)"
proof (cases "up_Op u")
  case Add
  let ?a = "(up_Addr u, Some (up_Metadata u))"
  show ?thesis
  proof (cases "?a \<in> set (addr_list b)")
    case True
    then have "list_ex (\<lambda>v. ?a = ai_Address b v) (bl_addrs b)" by (auto simp: addr_list_def list_ex_iff)
    then show ?thesis using Add True assms by (simp add: one_update_def add_addr_def spec_update_def)
  next
    case False
    then have "\<not> list_ex (\<lambda>v. ?a = ai_Address b v) (bl_addrs b)" by (auto simp: addr_list_def list_ex_iff)
    then have u: "one_update u b = b\<lparr>bl_objs := bl_objs b @ [(?a, False)], bl_addrs := bl_addrs b @ [length (bl_objs b)]\<rparr>"
      using Add by (simp add: one_update_def add_addr_def)
    have "addr_list (one_update u b) = addr_list b @ [?a]"
      using assms by (auto simp: u addr_list_def ai_Address_def objs_ok_def list_all_iff nth_append)
    moreover have "objs_ok (one_update u b)"
      using calculation False assms by (auto simp: u objs_ok_def list_all_iff)
    ultimately show ?thesis using Add False by (simp add: spec_update_def)
  qed
next
  case Delete
  then have "addr_list (one_update u b) = spec_update u (addr_list b)"
    using take_out_map [of "ai_Address b" "(up_Addr u, Some (up_Metadata u))" "bl_addrs b"]
    by (simp add: one_update_def delete_addr_def spec_update_def addr_list_def)
  moreover from this have "distinct (addr_list (one_update u b))"
    using assms Delete by (simp add: objs_ok_def spec_update_def)
  ultimately show ?thesis
    using assms Delete set_take_out [of _ "bl_addrs b"]
    by (auto simp: objs_ok_def one_update_def delete_addr_def list_all_iff)
qed

lemma updates_spec:
  "objs_ok b \<Longrightarrow> addr_list (fold one_update us b) = fold spec_update us (addr_list b) \<and> objs_ok (fold one_update us b)"
proof (induction us arbitrary: b)
  case (Cons u us)
  then show ?case using one_update_spec [OF Cons.prems, of u] by simp
qed simp

lemma updates_fields:
  shows "bl_addrCh (fold one_update us b) = bl_addrCh b" and "bl_done (fold one_update us b) = bl_done b"
    and "bl_waitCh (fold one_update us b) = bl_waitCh b" and "bl_fresh (fold one_update us b) = bl_fresh b"
    and "bl_closedCh (fold one_update us b) = bl_closedCh b"
    and "bl_picker (fold one_update us b) = bl_picker b"
  by (induction us arbitrary: b)
    (simp_all add: one_update_def Let_def add_addr_def delete_addr_def split: upd_op.split)

section \<open>The invariant of a balancer\<close>

definition chan_ok :: "('m, 'p) balancer \<Rightarrow> bool" where
  "chan_ok b \<longleftrightarrow> (case bl_addrCh b of None \<Rightarrow> True | Some q \<Rightarrow> length q \<le> 1) \<and>
     (case bl_waitCh b of None \<Rightarrow> True | Some c \<Rightarrow> c < bl_fresh b \<and> c \<notin> set (bl_closedCh b)) \<and>
     (\<forall>c \<in> set (bl_closedCh b). c < bl_fresh b)"

text \<open>The steps of a balancer after \<open>NewBalancerWithPicker\<close>, on a picker given by its operations.\<close>

inductive bl_step :: "(nat, 'p) picker_ops \<Rightarrow> ('m, 'p) balancer \<Rightarrow> ('m, 'p) balancer \<Rightarrow> bool" for P where
  StartResolver: "\<not> bl_watching b \<Longrightarrow> bl_addrs b = [] \<Longrightarrow> bl_step P b (snd (bl_Start P (Some r) target b))"
| StartDirect: "bl_addrs b = [] \<Longrightarrow> bl_step P b (snd (bl_Start P None target b))"
| Updates: "bl_watching b \<Longrightarrow> bl_step P b (snd (watchAddrUpdates P us b))"
| Up: "bl_step P b (bl_Up P addr b)"
| Down: "bl_step P b (bl_down P addr b)"
| Get: "bl_step P b (snd (bl_Get P blocking b))"
| Close: "bl_step P b (snd (bl_Close b))"

definition bl_reach :: "(nat, 'p) picker_ops \<Rightarrow> ('m, 'p) balancer \<Rightarrow> bool" where
  "bl_reach P b \<longleftrightarrow> (bl_step P)\<^sup>*\<^sup>* NewBalancerWithPicker b"

context picker
begin

definition ops :: "('a, 'p) picker_ops" where
  "ops = \<lparr>po_build = build, po_pick = pick, po_changed = changed\<rparr>"

end

locale index_picker = picker build pick changed ok members
  for build :: "nat list \<Rightarrow> 'p" and pick changed ok members
begin

definition picker_ok :: "('m, 'p) balancer \<Rightarrow> bool" where
  "picker_ok b \<longleftrightarrow>
     (\<forall>p. bl_picker b = Some p \<longrightarrow> ok p \<and> (\<not> bl_done b \<longrightarrow> members p = bl_addrs b))"

definition bl_inv :: "('m, 'p) balancer \<Rightarrow> bool" where
  "bl_inv b \<longleftrightarrow> objs_ok b \<and> chan_ok b \<and> picker_ok b"

lemma watch_inv:
  assumes "bl_inv b" and "watchAddrUpdates ops us b = (e, b')"
  shows "bl_inv b' \<and> addr_list b' = fold spec_update us (addr_list b) \<and>
         (e = None \<longrightarrow> bl_addrCh b' = Some [addr_list b'])"
proof -
  define b1 where "b1 = fold one_update us b"
  have o: "objs_ok b1" "addr_list b1 = fold spec_update us (addr_list b)"
    using updates_spec assms(1) by (auto simp: bl_inv_def b1_def)
  have c: "chan_ok b1" using assms(1) by (simp add: bl_inv_def chan_ok_def b1_def updates_fields split: option.splits)
  show ?thesis
  proof (cases "bl_done b")
    case True
    then have "e = Some ClientConnClosing" and "b' = b1"
      using assms(2) by (simp_all add: watchAddrUpdates_def Let_def b1_def updates_fields)
    moreover have "picker_ok b1"
      using assms(1) True by (simp add: bl_inv_def picker_ok_def b1_def updates_fields)
    ultimately show ?thesis using o c by (simp add: bl_inv_def)
  next
    case False
    define rest where "rest = (case bl_addrCh b1 of Some (_ # q) \<Rightarrow> q | _ \<Rightarrow> [])"
    have "rest = []" using c by (auto simp: rest_def chan_ok_def split: option.splits list.splits)
    moreover have "\<not> bl_done b1" using False by (simp add: b1_def updates_fields)
    ultimately have "(e, b') = (None, b1\<lparr>bl_addrCh := Some [addr_list b1], bl_picker := Some (build (bl_addrs b1))\<rparr>)"
      using assms(2) unfolding watchAddrUpdates_def b1_def [symmetric] rest_def [symmetric] Let_def ops_def addr_list_def
      by simp
    then have b': "b' = b1\<lparr>bl_addrCh := Some [addr_list b1], bl_picker := Some (build (bl_addrs b1))\<rparr>" and "e = None"
      by simp_all
    then show ?thesis
      using o c by (auto simp: b' bl_inv_def objs_ok_def chan_ok_def picker_ok_def addr_list_def ai_Address_def
          ok_build members_build split: option.splits)
  qed
qed

lemma get_result:
  assumes "bl_inv b" and "bl_picker b = Some p" and "\<not> bl_done b"
  shows "case fst (bl_Get ops blocking b) of
           GotAddr a \<Rightarrow> a \<in> set (addr_list b)
         | GetError e \<Rightarrow> e = NoAddressAvailable
         | Waiting c \<Rightarrow> blocking \<and> bl_waitCh (snd (bl_Get ops blocking b)) = Some c
         | GetPanic \<Rightarrow> False"
proof -
  have p: "ok p" "members p = bl_addrs b" using assms by (auto simp: bl_inv_def picker_ok_def)
  obtain r p' where r: "pick p = (r, p')" by (metis surj_pair)
  show ?thesis
  proof (cases r)
    case (Inl e)
    then show ?thesis using assms(2,3) r by (simp add: bl_Get_def ops_def)
  next
    case (Inr i)
    then have "i \<in> set (bl_addrs b)" using pick_member [OF p(1)] p(2) r by simp
    then have "ai_Address b i \<in> set (addr_list b)" and "bl_addrs b \<noteq> []" by (auto simp: addr_list_def)
    then show ?thesis
      using assms(2,3) r Inr
      by (auto simp: bl_Get_def ops_def Let_def ai_Connected_def ai_Address_def split: option.split)
  qed
qed

lemma state_changed_inv:
  assumes "bl_inv b"
  shows "bl_inv (state_changed ops i (set_connected i c b)) \<and> addr_list (state_changed ops i (set_connected i c b)) = addr_list b"
proof -
  have a: "ai_Address (state_changed ops i (set_connected i c b)) j = ai_Address b j" for j
  proof (cases "j = i \<and> j < length (bl_objs b)")
    case False
    then show ?thesis by (cases "j = i") (auto simp: ai_Address_def state_changed_def set_connected_def list_update_beyond)
  qed (auto simp: ai_Address_def state_changed_def set_connected_def)
  then have "addr_list (state_changed ops i (set_connected i c b)) = addr_list b"
    by (simp add: addr_list_def) (simp add: state_changed_def set_connected_def)
  moreover have "list_all (\<lambda>j. j < length (bl_objs (state_changed ops i (set_connected i c b))))
      (bl_addrs (state_changed ops i (set_connected i c b)))"
    using assms by (simp add: bl_inv_def objs_ok_def state_changed_def set_connected_def)
  moreover have "chan_ok (state_changed ops i (set_connected i c b))"
    using assms by (auto simp: bl_inv_def chan_ok_def state_changed_def set_connected_def split: option.splits)
  moreover have "picker_ok (state_changed ops i (set_connected i c b))"
    using assms ok_changed by (auto simp: bl_inv_def picker_ok_def state_changed_def set_connected_def ops_def)
  ultimately show ?thesis using assms by (simp add: bl_inv_def objs_ok_def)
qed

lemma close_waitCh_inv: "bl_inv b \<Longrightarrow> bl_inv (close_waitCh b) \<and> addr_list (close_waitCh b) = addr_list b"
  by (auto simp: bl_inv_def close_waitCh_def objs_ok_def chan_ok_def picker_ok_def addr_list_def
      split: option.splits)

lemma up_loop_inv: "bl_inv b \<Longrightarrow> bl_inv (snd (up_loop ops addr as cnt b)) \<and> addr_list (snd (up_loop ops addr as cnt b)) = addr_list b"
proof (induction as arbitrary: cnt b)
  case (Cons a as)
  then show ?case using state_changed_inv [of b a True] by (auto simp: Let_def)
qed simp

lemma step_inv:
  assumes "bl_step ops b b'" and "bl_inv b"
  shows "bl_inv b'"
  using assms(1)
proof cases
  case (StartResolver r target)
  then show ?thesis
    using assms(2)
    by (auto simp: bl_Start_def StartInternal_def bl_inv_def objs_ok_def chan_ok_def picker_ok_def addr_list_def
        ops_def ok_build members_build split: bool.split option.splits)
next
  case (StartDirect target)
  then show ?thesis
    using assms(2)
    by (auto simp: bl_Start_def StartInternal_def Let_def bl_inv_def objs_ok_def chan_ok_def picker_ok_def addr_list_def
        ops_def ok_build members_build split: option.splits)
next
  case (Updates us)
  then show ?thesis using watch_inv [OF assms(2)] by (metis prod.collapse)
next
  case (Up addr)
  have "bl_inv (snd (up_loop ops addr (bl_addrs b) 0 b))" using up_loop_inv [OF assms(2)] by blast
  then show ?thesis using close_waitCh_inv Up by (auto simp: bl_Up_def split: prod.splits option.splits)
next
  case (Down addr)
  then show ?thesis using state_changed_inv [OF assms(2)] assms(2) by (auto simp: bl_down_def split: option.split)
next
  case (Get blocking)
  have p: "bl_inv (b\<lparr>bl_picker := Some (snd (pick p))\<rparr>)" if "bl_picker b = Some p" for p
    using assms(2) that ok_pick [of p]
    by (auto simp: bl_inv_def objs_ok_def chan_ok_def picker_ok_def addr_list_def split: option.splits)
  have w: "bl_inv (c\<lparr>bl_waitCh := Some (bl_fresh c), bl_fresh := bl_fresh c + 1\<rparr>)" if "bl_inv c" for c :: "('b, 'p) balancer"
    using that by (auto simp: bl_inv_def objs_ok_def chan_ok_def picker_ok_def addr_list_def less_SucI
        split: option.splits)
  have pw: "bl_inv (b\<lparr>bl_picker := Some (snd (pick p)), bl_waitCh := Some (bl_fresh b), bl_fresh := Suc (bl_fresh b)\<rparr>)"
    if "bl_picker b = Some p" for p using w [OF p [OF that]] by simp
  show ?thesis
    unfolding Get(1) using assms(2) p pw
    by (auto simp: bl_Get_def ops_def case_prod_beta Let_def split: option.split sum.split)
next
  case Close
  have "bl_inv (c\<lparr>bl_done := True, bl_watching := False\<rparr>)" if "bl_inv c" for c :: "('b, 'p) balancer"
    using that by (auto simp: bl_inv_def objs_ok_def chan_ok_def picker_ok_def addr_list_def split: option.splits)
  then show ?thesis using Close close_waitCh_inv [OF assms(2)] assms(2) by (auto simp: bl_Close_def)
qed

lemma reach_inv:
  assumes "bl_reach ops b"
  shows "bl_inv b"
  using assms unfolding bl_reach_def
proof (induction rule: rtranclp_induct)
  case base
  show ?case
    by (simp add: NewBalancerWithPicker_def bl_inv_def objs_ok_def chan_ok_def picker_ok_def addr_list_def)
qed (rule step_inv)

end

section \<open>The round-robin balancer\<close>

interpretation rr_balancer: index_picker "rr_build flt" rr_Pick rr_StateChanged rr_ok rr_addrs for flt :: "(nat \<Rightarrow> bool) option"
  by unfold_locales

definition rr_ops :: "(nat \<Rightarrow> bool) option \<Rightarrow> (nat, nat rr_picker) picker_ops" where
  "rr_ops flt = \<lparr>po_build = rr_build flt, po_pick = rr_Pick, po_changed = rr_StateChanged\<rparr>"

lemma rr_ops_eq: "rr.ops flt = rr_ops flt"
  by (simp add: rr.ops_def rr_ops_def)

section \<open>Properties\<close>

text \<open>
  C27 (addresses). In every reachable state of a round-robin balancer the addresses are distinct, an
  update makes of them what the update says, and a successful one leaves exactly the new list on the
  notification channel, so that the client never blocks the balancer and never reads an old list.
\<close>

theorem balancer_applies_updates:
  assumes "bl_reach (rr_ops flt) b" and "watchAddrUpdates (rr_ops flt) us b = (e, b')"
  shows "addr_list b' = fold spec_update us (addr_list b) \<and> distinct (addr_list b') \<and>
         (e = None \<longrightarrow> bl_Notify b' = Some [addr_list b'])"
proof -
  have inv: "rr_balancer.bl_inv b" using rr_balancer.reach_inv [of flt b] assms(1) by (simp add: rr_ops_eq)
  have w: "watchAddrUpdates (rr.ops flt) us b = (e, b')" using assms(2) by (simp add: rr_ops_eq)
  show ?thesis
    using rr_balancer.watch_inv [OF inv w] by (auto simp: rr_balancer.bl_inv_def objs_ok_def bl_Notify_def)
qed

definition upd :: "upd_op \<Rightarrow> string \<Rightarrow> nat update" where
  "upd op a = \<lparr>up_Op = op, up_Addr = a, up_Metadata = 0\<rparr>"

definition demo_balancer :: "(nat, nat rr_picker) balancer" where
  "demo_balancer = snd (bl_Start (rr_ops None) (Some True) ''svc'' NewBalancerWithPicker)"

lemma demo_balancer_reach: "bl_reach (rr_ops None) demo_balancer"
  unfolding bl_reach_def demo_balancer_def
  by (rule r_into_rtranclp, rule StartResolver) (simp_all add: NewBalancerWithPicker_def)

theorem balancer_applies_updates_witness:
  "addr_list (snd (watchAddrUpdates (rr_ops None) [upd Add ''a'', upd Add ''b'', upd Delete ''a''] demo_balancer)) =
     [(''b'', Some 0)]"
proof -
  let ?us = "[upd Add ''a'', upd Add ''b'', upd Delete ''a'']"
  have "watchAddrUpdates (rr_ops None) ?us demo_balancer = (None, snd (watchAddrUpdates (rr_ops None) ?us demo_balancer))"
    by (simp add: prod_eq_iff) code_simp
  from balancer_applies_updates [OF demo_balancer_reach this]
  have "addr_list (snd (watchAddrUpdates (rr_ops None) ?us demo_balancer)) = fold spec_update ?us (addr_list demo_balancer)"
    by blast
  then show ?thesis
    by (simp add: spec_update_def upd_def demo_balancer_def bl_Start_def StartInternal_def NewBalancerWithPicker_def addr_list_def)
qed

text \<open>
  Getting an address. Once a reachable round-robin balancer was started and until it is closed,
  \<open>Get\<close> does not panic: it answers with an address of the current list or with "no address available",
  or, only if it may block, waits on the channel that the next wake-up closes.
\<close>

theorem balancer_get_current_address:
  assumes "bl_reach (rr_ops flt) b" and "bl_picker b \<noteq> None" and "\<not> bl_done b"
  shows "case fst (bl_Get (rr_ops flt) blocking b) of
           GotAddr a \<Rightarrow> a \<in> set (addr_list b)
         | GetError e \<Rightarrow> e = NoAddressAvailable
         | Waiting c \<Rightarrow> blocking \<and> bl_waitCh (snd (bl_Get (rr_ops flt) blocking b)) = Some c
         | GetPanic \<Rightarrow> False"
proof -
  have "rr_balancer.bl_inv b" using rr_balancer.reach_inv [of flt b] assms(1) by (simp add: rr_ops_eq)
  moreover obtain p where "bl_picker b = Some p" using assms(2) by blast
  ultimately show ?thesis
    using rr_balancer.get_result [where flt = flt and b = b and blocking = blocking] assms(3)
    unfolding rr_ops_eq by blast
qed

theorem balancer_get_current_address_witness:
  "fst (bl_Get (rr_ops None) True demo_balancer) = GetError NoAddressAvailable"
proof -
  have p: "bl_picker demo_balancer \<noteq> None" and d: "\<not> bl_done demo_balancer" by code_simp+
  show ?thesis
    using balancer_get_current_address [OF demo_balancer_reach p d, of True]
    by (simp add: demo_balancer_def bl_Start_def StartInternal_def NewBalancerWithPicker_def bl_Get_def rr_ops_def
        rr_Pick_def rr_build_def)
qed

text \<open>
  A waiter is not woken. With two addresses, one of them connected, a blocking \<open>Get\<close> that picks the
  other one waits; when that other one comes up, two addresses are connected and the waiter's channel is
  not closed: \<open>Up\<close> wakes waiters only at the first connected address.
\<close>

theorem waiter_not_woken:
  "let P = rr_ops None;
       b1 = snd (watchAddrUpdates P [upd Add ''a'', upd Add ''b''] demo_balancer);
       b2 = snd (bl_Get P False (bl_Up P (''a'', Some 0) b1));
       (r, b3) = bl_Get P True b2;
       b4 = bl_Up P (''b'', Some 0) b3
   in r = Waiting 0 \<and> bl_waitCh b4 = Some 0 \<and> bl_closedCh b4 = [] \<and> list_all (ai_Connected b4) (bl_addrs b4)"
  by code_simp

end
