(* ===== verification/Discovery.thy ===== *)
theory Discovery
  imports Http_Header Balancer
begin

text \<open>
  Service discovery, \<^verbatim>\<open>registry/discovery.go\<close>, with the metadata of \<^verbatim>\<open>registry/meta.go\<close> and the filter of
  \<^verbatim>\<open>registry/utils.go\<close>: it keeps, for every service, a picker over the addresses it heard of, a path
  matcher for the HTTP services, and the list of the addresses that are down. The model is that of
  \<open>DefaultDiscovery\<close>: the provider is round robin with the filter \<open>isAddressAvailable\<close>, which looks at the
  list of down addresses at the time of the pick. Arguments: \<open>unmarshal\<close> for \<open>json.Unmarshal\<close> into a
  \<open>Meta\<close>, \<open>md5\<close> for \<open>md5.Sum\<close>, \<open>mkregex\<close> for \<open>utils.CreateHeaderRegexMap\<close> (the texts of the expressions), which
  the repository calls but does not contain. The body of each ticker loop is an operation.
\<close>

section \<open>Metadata\<close>

datatype meta_value = MetaString string | MetaOther

record http_rule_def =
  hr_HttpPatterns :: "string list"
  hr_HeaderMap :: "smap list"
  hr_HeaderRegexMap :: "smap list"

record reg_meta =
  rm_TlsServer :: bool
  rm_HttpPatterns :: "string list"
  rm_Version :: int
  rm_Type :: int
  rm_HttpRules :: "http_rule_def option list"

definition CurrentVersion :: int where "CurrentVersion = 3"
definition RegistryType_Grpc :: int where "RegistryType_Grpc = 1"
definition RegistryType_Http :: int where "RegistryType_Http = 2"
definition RegistryType_Http_Endpoint :: int where "RegistryType_Http_Endpoint = 3"

definition RegistryPrefix :: string where
  "RegistryPrefix = ''http.server@registry''"

definition MarshalRegistryMeta :: "(reg_meta \<Rightarrow> string option) \<Rightarrow> reg_meta \<Rightarrow> string option" where
  "MarshalRegistryMeta marshal m = marshal (m\<lparr>rm_Version := CurrentVersion\<rparr>)"

definition UnmarshalRegistryMeta :: "(string \<Rightarrow> reg_meta option) \<Rightarrow> string \<Rightarrow> reg_meta option" where
  "UnmarshalRegistryMeta unmarshal json =
     (case unmarshal json of
        None \<Rightarrow> None
      | Some m \<Rightarrow> Some (if rm_Version m = 0 then m\<lparr>rm_Version := 1\<rparr> else m))"

definition ResolveWithTls :: "(string \<Rightarrow> reg_meta option) \<Rightarrow> bool \<Rightarrow> meta_value inst \<Rightarrow> bool" where
  "ResolveWithTls unmarshal tls i =
     (case snd i of
        MetaOther \<Rightarrow> True
      | MetaString json \<Rightarrow>
          (case UnmarshalRegistryMeta unmarshal json of None \<Rightarrow> True | Some m \<Rightarrow> rm_TlsServer m = tls))"

section \<open>HTTP rules\<close>

type_synonym address_info = "string \<times> bool"

record http_rule =
  hu_patterns :: "string list"
  hu_headerMap :: "smap list"
  hu_headerRegexMap :: "smap list"
  hu_addrs :: "address_info list"
  hu_picker :: "address_info rr_picker"

text \<open>\<open>sort.Strings\<close>.\<close>

definition sort_strings :: "string list \<Rightarrow> string list" where
  "sort_strings = slice_stable str_less"

fun regex_maps :: "(smap \<Rightarrow> smap option) \<Rightarrow> smap list \<Rightarrow> smap list option" where
  "regex_maps mkregex [] = Some []"
| "regex_maps mkregex (r # rs) =
     (case mkregex r of
        None \<Rightarrow> None
      | Some m \<Rightarrow> (case regex_maps mkregex rs of None \<Rightarrow> None | Some ms \<Rightarrow> Some (m # ms)))"

definition generateKey ::
  "(string \<Rightarrow> 'k) \<Rightarrow> (smap \<Rightarrow> smap option) \<Rightarrow> http_rule_def \<Rightarrow> ('k \<times> http_rule) option" where
  "generateKey md5 mkregex r =
     (let patterns = sort_strings (hr_HttpPatterns r)
      in case regex_maps mkregex (hr_HeaderRegexMap r) of
           None \<Rightarrow> None
         | Some ms \<Rightarrow>
             Some (md5 (join '','' patterns @ ''|'' @ pairs_key (hr_HeaderMap r) @ ''|'' @ pairs_key ms),
                   \<lparr>hu_patterns = patterns, hu_headerMap = hr_HeaderMap r, hu_headerRegexMap = ms,
                    hu_addrs = [], hu_picker = rr_build None []\<rparr>))"

type_synonym 'k rule_map = "('k \<times> http_rule) list"

text \<open>A nil rule is an error; the other arguments are never nil here.\<close>

definition AddHttpRule ::
  "(string \<Rightarrow> 'k) \<Rightarrow> (smap \<Rightarrow> smap option) \<Rightarrow> http_rule_def option \<Rightarrow> address_info \<Rightarrow> 'k rule_map \<Rightarrow> 'k rule_map" where
  "AddHttpRule md5 mkregex rule addr rules =
     (case rule of
        None \<Rightarrow> rules
      | Some r \<Rightarrow>
          (case generateKey md5 mkregex r of
             None \<Rightarrow> rules
           | Some (key, fresh) \<Rightarrow>
               (let u = (case mget rules key of Some old \<Rightarrow> old | None \<Rightarrow> fresh);
                    addrs = hu_addrs u @ [addr]
                in AList.update key (u\<lparr>hu_addrs := addrs, hu_picker := rr_build None addrs\<rparr>) rules)))"

definition plain_rule :: "string list \<Rightarrow> http_rule_def option" where
  "plain_rule patterns = Some \<lparr>hr_HttpPatterns = patterns, hr_HeaderMap = [], hr_HeaderRegexMap = []\<rparr>"

definition rule_Priority :: "http_rule \<Rightarrow> int" where
  "rule_Priority r = (if length (hu_headerMap r) > 0 \<or> length (hu_headerRegexMap r) > 0 then 1 else 0)"

text \<open>The rules that one instance of a service brings.\<close>

definition instance_rules :: "string \<Rightarrow> reg_meta \<Rightarrow> http_rule_def option list" where
  "instance_rules serviceName m =
     (if rm_Version m < 2 \<and> has_prefix serviceName RegistryPrefix \<or> rm_Version m = 2 \<and> rm_Type m = RegistryType_Http
      then [plain_rule (rm_HttpPatterns m)] else []) @
     (if rm_Version m < 2 \<and> \<not> has_prefix serviceName RegistryPrefix
      then [plain_rule (RegistryWithPath [''*''] (''/'' @ serviceName @ ''/*''))] else []) @
     (if rm_Version m = 3 \<and> rm_Type m = RegistryType_Http then rm_HttpRules m else []) @
     (if rm_Version m = 3 \<and> rm_Type m = RegistryType_Http_Endpoint
      then [plain_rule (RegistryWithPath [''*''] (''/'' @ trim_suffix serviceName ''.http.endpoint'' @ ''/*''))] else [])"

definition add_instance ::
  "(string \<Rightarrow> reg_meta option) \<Rightarrow> (string \<Rightarrow> 'k) \<Rightarrow> (smap \<Rightarrow> smap option) \<Rightarrow> string \<Rightarrow> meta_value inst \<Rightarrow> 'k rule_map \<Rightarrow> 'k rule_map" where
  "add_instance unmarshal md5 mkregex serviceName i rules =
     (case snd i of
        MetaOther \<Rightarrow> rules
      | MetaString json \<Rightarrow>
          (case UnmarshalRegistryMeta unmarshal json of
             None \<Rightarrow> rules
           | Some m \<Rightarrow>
               fold (\<lambda>rule. AddHttpRule md5 mkregex rule (fst i, rm_TlsServer m)) (instance_rules serviceName m) rules))"

definition rule_meta :: "'k \<Rightarrow> http_rule \<Rightarrow> 'k meta" where
  "rule_meta key r =
     \<lparr>mt_header = Some (hu_headerMap r, hu_headerRegexMap r), mt_priority = Some (rule_Priority r), mt_value = key\<rparr>"

definition rules_of where
  "rules_of unmarshal md5 mkregex entries =
     fold (\<lambda>(s, is). fold (add_instance unmarshal md5 mkregex s) is) entries []"

definition matcher_of :: "'k rule_map \<Rightarrow> 'k meta seg" where
  "matcher_of rules =
     add_all (concat (map (\<lambda>(key, r). map (\<lambda>pat. ('''', pat, rule_meta key r)) (hu_patterns r)) rules)) newPathSegment"

section \<open>The state\<close>

record down_info =
  dn_t :: int
  dn_retryTimes :: nat

record 'k discovery =
  dc_rules :: "'k rule_map"
  dc_httpMatcher :: "'k meta seg"
  dc_updateFlag :: bool
  dc_grpcEntries :: "(string \<times> address_info rr_picker) list"
  dc_grpcServices :: "(string \<times> meta_value inst list) list"
  dc_downList :: "(string \<times> down_info) list"
  dc_closed :: bool

definition isAddressAvailable :: "'k discovery \<Rightarrow> address_info \<Rightarrow> bool" where
  "isAddressAvailable d addr = (mget (dc_downList d) (fst addr) = None)"

text \<open>The loops that turn instances into addresses: HTTP services have no gRPC address.\<close>

definition grpc_addr :: "(string \<Rightarrow> reg_meta option) \<Rightarrow> string \<Rightarrow> meta_value inst \<Rightarrow> address_info option" where
  "grpc_addr unmarshal serviceName i =
     (case snd i of
        MetaOther \<Rightarrow> Some (fst i, False)
      | MetaString json \<Rightarrow>
          (case UnmarshalRegistryMeta unmarshal json of
             None \<Rightarrow> Some (fst i, False)
           | Some m \<Rightarrow>
               if rm_Version m < 2 \<and> has_prefix serviceName RegistryPrefix \<or>
                  rm_Version m \<ge> 2 \<and> rm_Type m = RegistryType_Http
               then None else Some (fst i, rm_TlsServer m)))"

definition grpc_addrs :: "(string \<Rightarrow> reg_meta option) \<Rightarrow> string \<Rightarrow> meta_value inst list \<Rightarrow> address_info list" where
  "grpc_addrs unmarshal serviceName is = List.map_filter (grpc_addr unmarshal serviceName) is"

definition services :: "'k discovery \<Rightarrow> string \<Rightarrow> meta_value inst list" where
  "services d serviceName = (case mget (dc_grpcServices d) serviceName of None \<Rightarrow> [] | Some is \<Rightarrow> is)"

definition updateGrpcEntries ::
  "(string \<Rightarrow> reg_meta option) \<Rightarrow> string \<Rightarrow> meta_value inst list \<Rightarrow> 'k discovery \<Rightarrow> 'k discovery" where
  "updateGrpcEntries unmarshal serviceName instances d =
     (if length instances = 0 then d
      else (let all = instances @ services d serviceName
            in d\<lparr>dc_grpcEntries := AList.update serviceName (rr_build None (grpc_addrs unmarshal serviceName all)) (dc_grpcEntries d),
                 dc_grpcServices := AList.update serviceName all (dc_grpcServices d)\<rparr>))"

definition deleteGrpcEntries ::
  "(string \<Rightarrow> reg_meta option) \<Rightarrow> string \<Rightarrow> meta_value inst list \<Rightarrow> 'k discovery \<Rightarrow> 'k discovery" where
  "deleteGrpcEntries unmarshal serviceName instances d =
     (if length instances = 0 then d
      else (let remains = filter (\<lambda>prev. \<not> list_ex (\<lambda>i. fst i = fst prev) instances) (services d serviceName);
                addrs = grpc_addrs unmarshal serviceName remains
            in d\<lparr>dc_grpcEntries := (if length addrs > 0 then AList.update serviceName (rr_build None addrs) (dc_grpcEntries d)
                                    else AList.delete serviceName (dc_grpcEntries d)),
                 dc_grpcServices := AList.update serviceName remains (dc_grpcServices d)\<rparr>))"

definition dc_OnUpdate :: "(string \<Rightarrow> reg_meta option) \<Rightarrow> string \<Rightarrow> meta_value inst list \<Rightarrow> 'k discovery \<Rightarrow> 'k discovery" where
  "dc_OnUpdate unmarshal serviceName instances d =
     updateGrpcEntries unmarshal serviceName instances (d\<lparr>dc_updateFlag := True\<rparr>)"

definition dc_OnDelete :: "(string \<Rightarrow> reg_meta option) \<Rightarrow> string \<Rightarrow> meta_value inst list \<Rightarrow> 'k discovery \<Rightarrow> 'k discovery" where
  "dc_OnDelete unmarshal serviceName instances d =
     deleteGrpcEntries unmarshal serviceName instances (d\<lparr>dc_updateFlag := True\<rparr>)"

text \<open>\<open>getEntries\<close> gave \<open>None\<close> for an error.\<close>

definition updateHttpMatcher where
  "updateHttpMatcher unmarshal md5 mkregex entries d =
     (case entries of
        None \<Rightarrow> d
      | Some es \<Rightarrow>
          (let rules = rules_of unmarshal md5 mkregex es
           in d\<lparr>dc_rules := rules, dc_httpMatcher := matcher_of rules\<rparr>))"

definition dc_initialize where
  "dc_initialize unmarshal md5 mkregex entries d =
     updateHttpMatcher unmarshal md5 mkregex (Some entries)
       (fold (\<lambda>(s, is). updateGrpcEntries unmarshal s is) entries d)"

definition NewDiscovery where
  "NewDiscovery unmarshal md5 mkregex entries =
     dc_initialize unmarshal md5 mkregex entries
       \<lparr>dc_rules = [], dc_httpMatcher = newPathSegment, dc_updateFlag = False, dc_grpcEntries = [],
        dc_grpcServices = [], dc_downList = [], dc_closed = False\<rparr>"

definition dc_Close :: "'k discovery \<Rightarrow> 'k discovery" where
  "dc_Close d = d\<lparr>dc_closed := True\<rparr>"

text \<open>The body of the loop of \<open>monitorHttpUpdate\<close> at a tick.\<close>

definition http_tick where
  "http_tick unmarshal md5 mkregex entries d =
     (if dc_updateFlag d
      then (updateHttpMatcher unmarshal md5 mkregex entries (d\<lparr>dc_updateFlag := False\<rparr>))\<lparr>dc_downList := []\<rparr>
      else d)"

section \<open>Picking\<close>

datatype discovery_error = NoEntry | PickFailed pick_error | MatchFailed matcher_error | NotAvailable

text \<open>A pick with the provider's filter.\<close>

definition filtered_pick :: "'k discovery \<Rightarrow> address_info rr_picker \<Rightarrow> (pick_error + address_info) \<times> address_info rr_picker" where
  "filtered_pick d p = rr_Pick (p\<lparr>rr_filter := Some (isAddressAvailable d)\<rparr>)"

definition PickWithInfo :: "string \<Rightarrow> 'k discovery \<Rightarrow> (discovery_error + address_info) \<times> 'k discovery" where
  "PickWithInfo serviceName d =
     (case mget (dc_grpcEntries d) serviceName of
        None \<Rightarrow> (Inl NoEntry, d)
      | Some p \<Rightarrow>
          (let (r, p') = filtered_pick d p
           in (case r of Inl e \<Rightarrow> Inl (PickFailed e) | Inr a \<Rightarrow> Inr a,
               d\<lparr>dc_grpcEntries := AList.update serviceName p' (dc_grpcEntries d)\<rparr>)))"

definition dc_Pick :: "string \<Rightarrow> 'k discovery \<Rightarrow> (discovery_error + string) \<times> 'k discovery" where
  "dc_Pick serviceName d =
     (let (r, d') = PickWithInfo serviceName d
      in (case r of Inl e \<Rightarrow> Inl e | Inr a \<Rightarrow> Inr (fst a), d'))"

text \<open>\<open>choice\<close> is the result of \<open>rand.Intn\<close>; the estimate is \<open>EstimateHeader\<close>.\<close>

definition HttpPickWithInfo ::
  "('k meta) estimate \<Rightarrow> (nat \<Rightarrow> nat) \<Rightarrow> string \<Rightarrow> string \<Rightarrow> header \<Rightarrow> 'k discovery \<Rightarrow>
     (discovery_error + address_info) \<times> 'k discovery" where
  "HttpPickWithInfo est choice method path r d =
     (case fst (MatchWithMeta est method path r (dc_httpMatcher d)) of
        Inl e \<Rightarrow> (Inl (MatchFailed e), d)
      | Inr metas \<Rightarrow>
          if length metas = 0 then (Inl (MatchFailed NoMatch), d)
          else (let key = mt_value (metas ! (choice (length metas) mod length metas))
                in case mget (dc_rules d) key of
                     None \<Rightarrow> (Inl NotAvailable, d)
                   | Some u \<Rightarrow>
                       (let (res, p') = filtered_pick d (hu_picker u)
                        in (case res of Inl e \<Rightarrow> Inl (PickFailed e) | Inr a \<Rightarrow> Inr a,
                            d\<lparr>dc_rules := AList.update key (u\<lparr>hu_picker := p'\<rparr>) (dc_rules d)\<rparr>))))"

definition HttpPick where
  "HttpPick est choice method path r d =
     (let (res, d') = HttpPickWithInfo est choice method path r d
      in (case res of Inl e \<Rightarrow> Inl e | Inr a \<Rightarrow> Inr (fst a), d'))"

section \<open>Down addresses\<close>

definition dc_Down :: "int \<Rightarrow> string \<Rightarrow> 'k discovery \<Rightarrow> 'k discovery" where
  "dc_Down now addr d = d\<lparr>dc_downList := AList.update addr \<lparr>dn_t = now, dn_retryTimes = 0\<rparr> (dc_downList d)\<rparr>"

definition minute :: int where
  "minute = 60 * 1000000000"

definition is_due :: "int \<Rightarrow> down_info \<Rightarrow> bool" where
  "is_due t v \<longleftrightarrow> t - dn_t v \<ge> minute \<and> dn_retryTimes v < 5"

text \<open>
  The body of the loop of \<open>downListMonitor\<close> at a tick: the addresses to check, and their counters.
\<close>

definition down_tick :: "int \<Rightarrow> 'k discovery \<Rightarrow> (string \<times> nat) list \<times> 'k discovery" where
  "down_tick t d =
     (map (\<lambda>(k, v). (k, dn_retryTimes v + 1)) (filter (\<lambda>(k, v). is_due t v) (dc_downList d)),
      d\<lparr>dc_downList := map (\<lambda>(k, v). (k, if is_due t v then v\<lparr>dn_retryTimes := dn_retryTimes v + 1\<rparr> else v)) (dc_downList d)\<rparr>)"

text \<open>\<open>checkDownAddr\<close>; the argument says whether the connection succeeded.\<close>

definition checkDownAddr :: "bool \<Rightarrow> string \<Rightarrow> 'k discovery \<Rightarrow> 'k discovery" where
  "checkDownAddr ok addr d = (if ok then d\<lparr>dc_downList := AList.delete addr (dc_downList d)\<rparr> else d)"

section \<open>Runs\<close>

text \<open>
  What happens to a discovery after it was made: the events of the registry, mixed with picks, reports of
  down addresses and the ticks of its two loops.
\<close>

datatype action =
    Hear "meta_value reg_event" | DoPick string | DoHttpPick string string | DoDown int string
  | HttpTick "(string \<times> meta_value inst list) list option" | DownTick int | Checked bool string

record 'k params =
  pa_unmarshal :: "string \<Rightarrow> reg_meta option"
  pa_md5 :: "string \<Rightarrow> 'k"
  pa_mkregex :: "smap \<Rightarrow> smap option"
  pa_estimate :: "('k meta) estimate"
  pa_choice :: "nat \<Rightarrow> nat"

fun act :: "'k params \<Rightarrow> action \<Rightarrow> 'k discovery \<Rightarrow> 'k discovery" where
  "act A (Hear (RUpdate s is)) d = dc_OnUpdate (pa_unmarshal A) s is d"
| "act A (Hear (RDelete s is)) d = dc_OnDelete (pa_unmarshal A) s is d"
| "act A (DoPick s) d = snd (PickWithInfo s d)"
| "act A (DoHttpPick m p) d = snd (HttpPickWithInfo (pa_estimate A) (pa_choice A) m p [] d)"
| "act A (DoDown now a) d = dc_Down now a d"
| "act A (HttpTick es) d = http_tick (pa_unmarshal A) (pa_md5 A) (pa_mkregex A) es d"
| "act A (DownTick t) d = snd (down_tick t d)"
| "act A (Checked ok a) d = checkDownAddr ok a d"

definition run :: "'k params \<Rightarrow> action list \<Rightarrow> 'k discovery \<Rightarrow> 'k discovery" where
  "run A acts d = fold (act A) acts d"

fun hears :: "action list \<Rightarrow> meta_value reg_event list" where
  "hears [] = []"
| "hears (Hear ev # as) = ev # hears as"
| "hears (_ # as) = hears as"

subsection \<open>The instances of a service\<close>

lemma services_updateGrpcEntries:
  "services (updateGrpcEntries u s is d) t = (if t = s then is @ services d s else services d t)"
  by (auto simp: updateGrpcEntries_def services_def Let_def)

lemma services_deleteGrpcEntries:
  "addrs (services (deleteGrpcEntries u s is d) t) =
     (if t = s then addrs (services d s) - addrs is else addrs (services d t))"
proof -
  have f: "addrs (filter (\<lambda>prev. \<not> list_ex (\<lambda>i. fst i = fst prev) is) M) = addrs M - addrs is" for M
    by (force simp: addrs_def list_ex_iff)
  have "services (deleteGrpcEntries u s is d) t =
      (if t = s \<and> is \<noteq> [] then filter (\<lambda>prev. \<not> list_ex (\<lambda>i. fst i = fst prev) is) (services d s) else services d t)"
    by (simp add: deleteGrpcEntries_def services_def Let_def)
  then show ?thesis using f by auto
qed

lemma services_flag [simp]: "services (d\<lparr>dc_updateFlag := f\<rparr>) t = services d t"
  by (simp add: services_def)

lemma services_act:
  assumes "addrs (services d t) = addrs M"
  shows "addrs (services (act A a d) t) =
           (case a of Hear ev \<Rightarrow> addrs (apply_event t ev M) | _ \<Rightarrow> addrs M)"
proof (cases a)
  case (Hear ev)
  then show ?thesis
    using assms by (cases ev) (auto simp: dc_OnUpdate_def dc_OnDelete_def services_updateGrpcEntries
        services_deleteGrpcEntries addrs_fold_update addrs_fold_delete)
next
  case (HttpTick es)
  then show ?thesis
    using assms by (auto simp: services_def http_tick_def updateHttpMatcher_def Let_def split: option.splits)
qed (use assms in \<open>auto simp: services_def PickWithInfo_def HttpPickWithInfo_def dc_Down_def down_tick_def
      checkDownAddr_def Let_def case_prod_beta split: option.splits sum.splits\<close>)

lemma services_run:
  "addrs (services d t) = addrs M \<Longrightarrow> addrs (services (run A acts d) t) = addrs (replay t (hears acts) M)"
proof (induction acts arbitrary: d M)
  case (Cons a acts)
  have s: "run A (a # acts) d = run A acts (act A a d)" by (simp add: run_def)
  show ?case
  proof (cases a)
    case (Hear ev)
    then show ?thesis
      using Cons.IH [of "act A a d" "apply_event t ev M"] services_act [OF Cons.prems, of A a] s
      by (simp add: replay_def)
  qed (use Cons.IH [of "act A a d" M] services_act [OF Cons.prems, of A a] s in simp_all)
qed (simp add: run_def replay_def)

lemma services_initialize:
  assumes "wf_map entries"
  shows "addrs (services (fold (\<lambda>(s, is). updateGrpcEntries u s is) entries d) t) =
           opt_addrs (mget entries t) \<union> addrs (services d t)"
  using assms
proof (induction entries arbitrary: d)
  case (Cons e entries)
  obtain s "is" where e: "e = (s, is)" by (cases e)
  have "t = s \<Longrightarrow> mget entries t = None" using Cons.prems by (auto simp: e map_of_eq_None_iff)
  then show ?case
    using Cons.IH [of "updateGrpcEntries u s is d"] Cons.prems
    by (auto simp: e services_updateGrpcEntries)
qed simp

lemma services_matcher [simp]: "services (d\<lparr>dc_rules := a, dc_httpMatcher := b\<rparr>) t = services d t"
  by (simp add: services_def)

lemma services_NewDiscovery:
  assumes "wf_map entries"
  shows "addrs (services (NewDiscovery u h r entries :: 'k discovery) t) = svc entries t"
proof -
  let ?d = "\<lparr>dc_rules = [], dc_httpMatcher = newPathSegment, dc_updateFlag = False, dc_grpcEntries = [],
        dc_grpcServices = [], dc_downList = [], dc_closed = False\<rparr> :: 'k discovery"
  have "addrs (services ?d t) = {}" by (simp add: services_def)
  then show ?thesis
    unfolding NewDiscovery_def dc_initialize_def updateHttpMatcher_def Let_def svc_def option.case
      services_matcher services_initialize [OF assms]
    by simp
qed

subsection \<open>The pickers\<close>

definition entry_ok :: "(string \<Rightarrow> reg_meta option) \<Rightarrow> string \<Rightarrow> address_info rr_picker option \<Rightarrow> meta_value inst list \<Rightarrow> bool" where
  "entry_ok u s e is \<longleftrightarrow>
     (case e of
        Some p \<Rightarrow> rr_ok p \<and> rr_addrs p = grpc_addrs u s is
      | None \<Rightarrow> grpc_addrs u s is = [])"

definition dc_inv :: "(string \<Rightarrow> reg_meta option) \<Rightarrow> 'k discovery \<Rightarrow> bool" where
  "dc_inv u d \<longleftrightarrow> (\<forall>s. entry_ok u s (mget (dc_grpcEntries d) s) (services d s))"

lemma dc_inv_cong:
  "dc_grpcEntries d' = dc_grpcEntries d \<Longrightarrow> dc_grpcServices d' = dc_grpcServices d \<Longrightarrow> dc_inv u d \<Longrightarrow> dc_inv u d'"
  by (auto simp: dc_inv_def services_def)

lemma entry_ok_build: "entry_ok u s (Some (rr_build f (grpc_addrs u s is))) is"
  by (simp add: entry_ok_def rr_ok_def rr_build_def)

lemma dc_inv_update:
  assumes "dc_inv u d"
  shows "dc_inv u (updateGrpcEntries u s is d)"
  unfolding dc_inv_def
proof
  fix t
  show "entry_ok u t (mget (dc_grpcEntries (updateGrpcEntries u s is d)) t) (services (updateGrpcEntries u s is d) t)"
  proof (cases "t = s \<and> is \<noteq> []")
    case True
    then show ?thesis unfolding services_updateGrpcEntries by (simp add: updateGrpcEntries_def Let_def entry_ok_build)
  next
    case False
    then show ?thesis
      using assms unfolding services_updateGrpcEntries by (auto simp: updateGrpcEntries_def Let_def dc_inv_def)
  qed
qed

lemma dc_inv_delete:
  assumes "dc_inv u d"
  shows "dc_inv u (deleteGrpcEntries u s is d)"
  unfolding dc_inv_def
proof
  fix t
  define rem where "rem = filter (\<lambda>prev. \<not> list_ex (\<lambda>i. fst i = fst prev) is) (services d s)"
  have sv: "services (deleteGrpcEntries u s is d) t = (if t = s \<and> is \<noteq> [] then rem else services d t)"
    by (simp add: deleteGrpcEntries_def services_def Let_def rem_def)
  have en: "mget (dc_grpcEntries (deleteGrpcEntries u s is d)) t =
      (if t = s \<and> is \<noteq> [] then (if grpc_addrs u s rem \<noteq> [] then Some (rr_build None (grpc_addrs u s rem)) else None)
       else mget (dc_grpcEntries d) t)"
    unfolding deleteGrpcEntries_def Let_def rem_def [symmetric] by simp
  have "entry_ok u s None rem" if "grpc_addrs u s rem = []" using that by (simp add: entry_ok_def)
  then show "entry_ok u t (mget (dc_grpcEntries (deleteGrpcEntries u s is d)) t) (services (deleteGrpcEntries u s is d) t)"
    using assms unfolding sv en by (auto simp: dc_inv_def entry_ok_build)
qed

lemma rr_Pick_any_filter:
  assumes "rr_ok p"
  shows "rr_ok (snd (rr_Pick (p\<lparr>rr_filter := f\<rparr>))) \<and> rr_addrs (snd (rr_Pick (p\<lparr>rr_filter := f\<rparr>))) = rr_addrs p"
  using rr_Pick_keeps [of "p\<lparr>rr_filter := f\<rparr>"] assms by (auto simp: rr_ok_def)

lemma dc_inv_pick: "dc_inv u d \<Longrightarrow> dc_inv u (snd (PickWithInfo s d))"
proof (cases "mget (dc_grpcEntries d) s")
  case (Some p)
  assume inv: "dc_inv u d"
  then have "entry_ok u s (Some p) (services d s)" using Some by (metis dc_inv_def)
  then have "entry_ok u s (Some (snd (filtered_pick d p))) (services d s)"
    using rr_Pick_any_filter [of p "Some (isAddressAvailable d)"] by (simp add: entry_ok_def filtered_pick_def)
  moreover have "services (snd (PickWithInfo s d)) t = services d t" for t
    by (simp add: services_def PickWithInfo_def Some case_prod_beta)
  ultimately show ?thesis
    using inv Some by (simp add: dc_inv_def PickWithInfo_def case_prod_beta)
qed (simp add: PickWithInfo_def)

lemma dc_inv_act: "dc_inv (pa_unmarshal A) d \<Longrightarrow> dc_inv (pa_unmarshal A) (act A a d)"
proof -
  assume inv: "dc_inv (pa_unmarshal A) d"
  then have flag: "dc_inv (pa_unmarshal A) (d\<lparr>dc_updateFlag := f\<rparr>)" for f by (rule dc_inv_cong [rotated 2]) simp_all
  show ?thesis
  proof (cases a)
    case (Hear ev)
    then show ?thesis
      using dc_inv_update [OF flag] dc_inv_delete [OF flag] by (cases ev) (auto simp: dc_OnUpdate_def dc_OnDelete_def)
  next
    case (DoPick s)
    then show ?thesis using dc_inv_pick [OF inv] by simp
  qed (rule dc_inv_cong [OF _ _ inv]; auto simp: HttpPickWithInfo_def dc_Down_def down_tick_def checkDownAddr_def http_tick_def
        updateHttpMatcher_def Let_def case_prod_beta split: option.splits sum.splits)+
qed

lemma dc_inv_run: "dc_inv (pa_unmarshal A) d \<Longrightarrow> dc_inv (pa_unmarshal A) (run A acts d)"
  unfolding run_def by (induction acts arbitrary: d) (simp_all add: dc_inv_act)

lemma dc_inv_NewDiscovery: "dc_inv u (NewDiscovery u h r entries :: 'k discovery)"
proof -
  have "dc_inv u d \<Longrightarrow> dc_inv u (fold (\<lambda>(s, is). updateGrpcEntries u s is) entries d)" for d :: "'k discovery"
  proof (induction entries arbitrary: d)
    case (Cons e entries)
    then show ?case using dc_inv_update [OF Cons.prems] by (cases e) simp
  qed simp
  moreover have "dc_inv u (d :: 'k discovery)" if "dc_grpcEntries d = []" "dc_grpcServices d = []" for d
    using that by (simp add: dc_inv_def services_def entry_ok_def grpc_addrs_def map_filter_simps)
  ultimately have "dc_inv u (fold (\<lambda>(s, is). updateGrpcEntries u s is) entries
      (\<lparr>dc_rules = [], dc_httpMatcher = newPathSegment, dc_updateFlag = False, dc_grpcEntries = [],
        dc_grpcServices = [], dc_downList = [], dc_closed = False\<rparr> :: 'k discovery))" by simp
  then show ?thesis
    unfolding NewDiscovery_def dc_initialize_def updateHttpMatcher_def Let_def option.case
    by (rule dc_inv_cong [rotated 2]) simp_all
qed

lemma grpc_addrs_addrs: "a \<in> set (grpc_addrs u s is) \<Longrightarrow> fst a \<in> addrs is"
proof -
  assume "a \<in> set (grpc_addrs u s is)"
  then obtain i where "i \<in> set is" and "grpc_addr u s i = Some a"
    unfolding grpc_addrs_def List.map_filter_def by auto
  then show ?thesis by (auto simp: grpc_addr_def addrs_def split: meta_value.splits option.splits if_splits)
qed

lemma PickWithInfo_result:
  assumes "dc_inv u d"
  shows "fst (PickWithInfo s d) = Inr a \<Longrightarrow> a \<in> set (grpc_addrs u s (services d s)) \<and> isAddressAvailable d a"
    and "fst (PickWithInfo s d) = Inl e \<Longrightarrow> \<forall>a \<in> set (grpc_addrs u s (services d s)). \<not> isAddressAvailable d a"
proof -
  have e: "entry_ok u s (mget (dc_grpcEntries d) s) (services d s)" using assms by (simp add: dc_inv_def)
  have "(fst (PickWithInfo s d) = Inr a \<longrightarrow> a \<in> set (grpc_addrs u s (services d s)) \<and> isAddressAvailable d a) \<and>
      (fst (PickWithInfo s d) = Inl e \<longrightarrow> (\<forall>a \<in> set (grpc_addrs u s (services d s)). \<not> isAddressAvailable d a))"
  proof (cases "mget (dc_grpcEntries d) s")
    case None
    then show ?thesis using e by (simp add: PickWithInfo_def entry_ok_def)
  next
    case (Some p)
    let ?p = "p\<lparr>rr_filter := Some (isAddressAvailable d)\<rparr>"
    have ok: "rr_ok ?p" and m: "rr_addrs ?p = grpc_addrs u s (services d s)"
      using e Some by (auto simp: entry_ok_def rr_ok_def)
    have f: "fst (PickWithInfo s d) = (case fst (rr_Pick ?p) of Inl e \<Rightarrow> Inl (PickFailed e) | Inr a \<Rightarrow> Inr a)"
      by (simp add: PickWithInfo_def Some filtered_pick_def case_prod_beta)
    show ?thesis
    proof (cases "rr_addrs ?p = []")
      case True
      then show ?thesis using m f by (simp add: rr_Pick_def)
    next
      case False
      have r: "fst (rr_Pick ?p) = (case find (isAddressAvailable d) (from_next (rr_addrs ?p) (rr_next ?p)) of
          Some a \<Rightarrow> Inr a | None \<Rightarrow> Inl NoAddress)"
        using rr_Pick_result [OF ok False] by simp
      show ?thesis
      proof (cases "find (isAddressAvailable d) (from_next (rr_addrs ?p) (rr_next ?p))")
        case None
        then have "fst (PickWithInfo s d) = Inl (PickFailed NoAddress)" using f r by simp
        moreover have "\<forall>a \<in> set (rr_addrs ?p). \<not> isAddressAvailable d a" using None by (simp add: find_None_iff Ball_def)
        ultimately show ?thesis using m by simp
      next
        case (Some b)
        then have "b \<in> set (from_next (rr_addrs ?p) (rr_next ?p)) \<and> isAddressAvailable d b"
          by (metis find_Some_iff nth_mem)
        then show ?thesis using f r m Some by auto
      qed
    qed
  qed
  then show "fst (PickWithInfo s d) = Inr a \<Longrightarrow> a \<in> set (grpc_addrs u s (services d s)) \<and> isAddressAvailable d a"
    and "fst (PickWithInfo s d) = Inl e \<Longrightarrow> \<forall>a \<in> set (grpc_addrs u s (services d s)). \<not> isAddressAvailable d a"
    by blast+
qed

section \<open>Properties\<close>


text \<open>
  C28 (a pick fails only if it must). In any run, \<open>PickWithInfo\<close> fails exactly if every gRPC address the
  discovery knows for the service is reported down, in particular if it knows none.
\<close>

theorem pick_fails_iff_all_down:
  assumes "d = run A acts (NewDiscovery (pa_unmarshal A) (pa_md5 A) (pa_mkregex A) entries)"
  shows "(\<exists>e. fst (PickWithInfo s d) = Inl e) \<longleftrightarrow>
         (\<forall>a \<in> set (grpc_addrs (pa_unmarshal A) s (services d s)). mget (dc_downList d) (fst a) \<noteq> None)"
proof -
  have inv: "dc_inv (pa_unmarshal A) d" unfolding assms by (rule dc_inv_run [OF dc_inv_NewDiscovery])
  show ?thesis
    using PickWithInfo_result [OF inv, of s] by (cases "fst (PickWithInfo s d)") (auto simp: isAddressAvailable_def)
qed

definition demo_params :: "string params" where
  "demo_params = \<lparr>pa_unmarshal = (\<lambda>_. None), pa_md5 = (\<lambda>s. s), pa_mkregex = (\<lambda>_. None),
     pa_estimate = (\<lambda>r m n. (None, r)), pa_choice = (\<lambda>n. 0)\<rparr>"

theorem pick_fails_iff_all_down_witness:
  "\<exists>e. fst (PickWithInfo ''s'' (run demo_params [DoDown 0 ''a'']
     (NewDiscovery (\<lambda>_. None) (\<lambda>s. s) (\<lambda>_. None) [(''s'', [(''a'', MetaOther)])]))) = Inl e"
proof -
  let ?d = "run demo_params [DoDown 0 ''a''] (NewDiscovery (\<lambda>_. None) (\<lambda>s. s) (\<lambda>_. None) [(''s'', [(''a'', MetaOther)])])"
  have "?d = run demo_params [DoDown 0 ''a'']
      (NewDiscovery (pa_unmarshal demo_params) (pa_md5 demo_params) (pa_mkregex demo_params) [(''s'', [(''a'', MetaOther)])])"
    by (simp add: demo_params_def)
  note p = pick_fails_iff_all_down [OF this, of "''s''"]
  have "list_all (\<lambda>a. mget (dc_downList ?d) (fst a) \<noteq> None)
      (grpc_addrs (pa_unmarshal demo_params) ''s'' (services ?d ''s''))" by code_simp
  then show ?thesis using p by (simp add: list_all_iff)
qed


end
