(* ===== verification/Http_Mux.thy ===== *)
theory Http_Mux
  imports Discovery
begin

text \<open>
  The HTTP front of a gRPC server, \<^verbatim>\<open>server/internal/http_server/http_mux.go\<close>: the methods of the registered
  services become patterns of two path matchers, and a request is answered by the method whose pattern and
  header rules it meets. What the code takes from other packages is collected in \<open>mux_env\<close>: the parser and
  compiler of path templates (\<^verbatim>\<open>httprule\<close>), the pattern of the gateway runtime, reflection on message types,
  and the lookup of methods. Proto descriptors are records of what the code reads of them; a file descriptor
  that cannot be found or unpacked is \<open>None\<close>. A Go panic is the error \<open>MuxPanic\<close>.
\<close>

section \<open>Data\<close>

datatype mux_error = MuxMatcher matcher_error | MuxTemplate | MuxNoField string | MuxNested | MuxBadRule | MuxExtensions | MuxPanic

datatype 'ty field_result = FieldPanics | NoField | Field 'ty

datatype rule_pattern =
    PatGet string | PatPost string | PatPut string | PatDelete string | PatPatch string | PatCustom string string | PatNone

datatype annotation =
  HttpAnnotation (an_pattern: rule_pattern) (an_body: string) (an_response_body: string) (an_additional: "annotation list")

record method_desc =
  md_Name :: string
  md_ClientStreaming :: bool
  md_ServerStreaming :: bool
  md_extensions :: "annotation option list option"

record service_desc =
  sd_Name :: string
  sd_methods :: "method_desc list"

record file_desc =
  fd_Package :: string
  fd_services :: "service_desc list"

record 'h grpc_service =
  gs_ServiceName :: string
  gs_Alias :: "string list"
  gs_HttpParameterHandler :: "(string \<times> 'h) list"

record ('i, 'ty, 'tmpl, 'pat) mux_env =
  me_parse :: "string \<Rightarrow> 'tmpl option"
  me_fields :: "'tmpl \<Rightarrow> string list"
  me_newPattern :: "'tmpl \<Rightarrow> 'pat option"
  me_match :: "'pat \<Rightarrow> string list \<Rightarrow> string \<Rightarrow> smap option"
  me_field :: "'ty \<Rightarrow> string \<Rightarrow> 'ty field_result"
  me_request :: "'i \<Rightarrow> 'ty"
  me_response :: "'i \<Rightarrow> 'ty"
  me_unary :: "string \<Rightarrow> string \<Rightarrow> 'i option"
  me_streaming :: "string \<Rightarrow> string \<Rightarrow> 'i option"

record service_opt =
  so_headerMap :: "smap list"
  so_headerRegexStringMap :: "smap list"
  so_headerRegexMap :: "smap list"

record ('i, 'pat, 'h) rule_desc =
  rd_method :: 'i
  rd_pattern :: 'pat
  rd_filter :: "string list list"
  rd_bodyField :: string
  rd_respField :: string
  rd_parameterHandler :: "(string \<times> 'h) list"

record ('i, 'pat, 'h) mux =
  mx_rawPostMatcher :: "'i meta seg"
  mx_ruleMatcher :: "('i, 'pat, 'h) rule_desc meta seg"
  mx_httpRules :: "http_rule_def list"

section \<open>Header rules of a service\<close>

definition hm_HeaderMap :: "service_opt option \<Rightarrow> smap list" where
  "hm_HeaderMap opt = (case opt of None \<Rightarrow> [] | Some s \<Rightarrow> so_headerMap s)"

definition hm_HeaderRegexMap :: "service_opt option \<Rightarrow> smap list" where
  "hm_HeaderRegexMap opt = (case opt of None \<Rightarrow> [] | Some s \<Rightarrow> so_headerRegexMap s)"

definition hm_Priority :: "service_opt option \<Rightarrow> int" where
  "hm_Priority opt = (if length (hm_HeaderMap opt) > 0 \<or> length (hm_HeaderRegexMap opt) > 0 then 1 else 0)"

text \<open>A \<open>_RawDesc\<close> or \<open>_HttpRuleDesc\<close> as a meta of the matcher.\<close>

definition mux_meta :: "service_opt option \<Rightarrow> 'x \<Rightarrow> 'x meta" where
  "mux_meta opt x =
     \<lparr>mt_header = Some (hm_HeaderMap opt, hm_HeaderRegexMap opt), mt_priority = Some (hm_Priority opt), mt_value = x\<rparr>"

definition serviceOptions :: "string list \<Rightarrow> service_opt option" where
  "serviceOptions alias =
     (if length alias = 0 then None
      else Some \<lparr>so_headerMap = map (\<lambda>a. [(''X-F-Service'', a)]) alias, so_headerRegexStringMap = [], so_headerRegexMap = []\<rparr>)"

section \<open>Registering patterns\<close>

text \<open>
  A registration works on the matchers and on the rule that will be announced for the service, and ends
  with an error or without.
\<close>

type_synonym ('i, 'pat, 'h) registration = "mux_error option \<times> ('i, 'pat, 'h) mux \<times> http_rule_def"

definition registerRawPostApi ::
  "bool \<Rightarrow> string \<Rightarrow> string \<Rightarrow> service_opt option \<Rightarrow> 'i \<Rightarrow> string \<Rightarrow> ('i, 'pat, 'h) mux \<Rightarrow> http_rule_def \<Rightarrow> ('i, 'pat, 'h) registration" where
  "registerRawPostApi withPackageName packageName serviceName opt i methodName s rule =
     (let name = (if withPackageName then packageName @ ''.'' @ serviceName else serviceName);
          rawPostPath = ''/'' @ name @ ''/'' @ methodName
      in case RegistryWithGrpcPattern (''POST'' @ rawPostPath) of
           Inl e \<Rightarrow> (Some (MuxMatcher e), s, rule)
         | Inr matcherPattern \<Rightarrow>
             (case AddPattern '''' matcherPattern (mux_meta opt i) (mx_rawPostMatcher s) of
                (t, Some e) \<Rightarrow> (Some (MuxMatcher e), s\<lparr>mx_rawPostMatcher := t\<rparr>, rule)
              | (t, None) \<Rightarrow>
                  (None, s\<lparr>mx_rawPostMatcher := t\<rparr>, rule\<lparr>hr_HttpPatterns := hr_HttpPatterns rule @ [matcherPattern]\<rparr>)))"

text \<open>The fields of a path template have to be fields of the request, at any depth.\<close>

fun walk_field :: "('ty \<Rightarrow> string \<Rightarrow> 'ty field_result) \<Rightarrow> string \<Rightarrow> 'ty \<Rightarrow> string list \<Rightarrow> mux_error option" where
  "walk_field field segment typ [] = None"
| "walk_field field segment typ (p # ps) =
     (case field typ p of
        FieldPanics \<Rightarrow> Some MuxPanic
      | NoField \<Rightarrow> Some (MuxNoField segment)
      | Field typInner \<Rightarrow> walk_field field segment typInner ps)"

fun check_fields :: "('ty \<Rightarrow> string \<Rightarrow> 'ty field_result) \<Rightarrow> 'ty \<Rightarrow> string list \<Rightarrow> mux_error option" where
  "check_fields field typ [] = None"
| "check_fields field typ (segment # ss) =
     (case walk_field field segment typ (split_char CHR ''.'' segment) of
        Some e \<Rightarrow> Some e
      | None \<Rightarrow> check_fields field typ ss)"

text \<open>A body or response field: absent, the star, or a field of the message.\<close>

definition check_top :: "('ty \<Rightarrow> string \<Rightarrow> 'ty field_result) \<Rightarrow> 'ty \<Rightarrow> string \<Rightarrow> mux_error option" where
  "check_top field typ f =
     (case field typ f of
        FieldPanics \<Rightarrow> Some MuxPanic
      | NoField \<Rightarrow> if f \<noteq> '''' \<and> f \<noteq> ''*'' then Some (MuxNoField f) else None
      | Field _ \<Rightarrow> None)"

fun first_error :: "mux_error option list \<Rightarrow> mux_error option" where
  "first_error [] = None"
| "first_error (Some e # es) = Some e"
| "first_error (None # es) = first_error es"

definition registerPattern ::
  "('i, 'ty, 'tmpl, 'pat) mux_env \<Rightarrow> service_opt option \<Rightarrow> 'i \<Rightarrow> (string \<times> 'h) list \<Rightarrow> string \<Rightarrow> string \<Rightarrow> string \<Rightarrow> string \<Rightarrow>
     ('i, 'pat, 'h) mux \<Rightarrow> http_rule_def \<Rightarrow> ('i, 'pat, 'h) registration" where
  "registerPattern E opt i handlers httpMethod pathPat bodyField respField s rule =
     (case me_parse E pathPat of
        None \<Rightarrow> (Some MuxTemplate, s, rule)
      | Some tmpl \<Rightarrow>
          (let seqs = (if bodyField \<noteq> '''' then [split_char CHR ''.'' bodyField] else []) @ map (split_char CHR ''.'') (me_fields E tmpl)
           in case me_newPattern E tmpl of
                None \<Rightarrow> (Some MuxTemplate, s, rule)
              | Some pat \<Rightarrow>
                  (case first_error
                     [check_fields (me_field E) (me_request E i) (me_fields E tmpl),
                      if contains_char bodyField CHR ''.'' then Some MuxNested else None,
                      if contains_char respField CHR ''.'' then Some MuxNested else None,
                      check_top (me_field E) (me_request E i) bodyField,
                      check_top (me_field E) (me_response E i) respField] of
                     Some e \<Rightarrow> (Some e, s, rule)
                   | None \<Rightarrow>
                       (case RegistryWithGrpcPattern (httpMethod @ pathPat) of
                          Inl e \<Rightarrow> (Some (MuxMatcher e), s, rule)
                        | Inr matcherPattern \<Rightarrow>
                            (case AddPattern '''' matcherPattern
                               (mux_meta opt \<lparr>rd_method = i, rd_pattern = pat, rd_filter = seqs, rd_bodyField = bodyField,
                                             rd_respField = respField, rd_parameterHandler = handlers\<rparr>) (mx_ruleMatcher s) of
                               (t, Some e) \<Rightarrow> (Some (MuxMatcher e), s\<lparr>mx_ruleMatcher := t\<rparr>, rule)
                             | (t, None) \<Rightarrow>
                                 (None, s\<lparr>mx_ruleMatcher := t\<rparr>,
                                  rule\<lparr>hr_HttpPatterns := hr_HttpPatterns rule @ [matcherPattern]\<rparr>))))))"

definition registerHttpRule where
  "registerHttpRule E opt i handlers ann s rule =
     (let body = trim_space (an_body ann); responseBody = trim_space (an_response_body ann);
          reg = (\<lambda>httpMethod path. registerPattern E opt i handlers httpMethod path body responseBody s rule)
      in case an_pattern ann of
           PatGet p \<Rightarrow> reg ''GET'' p
         | PatPost p \<Rightarrow> reg ''POST'' p
         | PatPut p \<Rightarrow> reg ''PUT'' p
         | PatDelete p \<Rightarrow> reg ''DELETE'' p
         | PatPatch p \<Rightarrow> reg ''PATCH'' p
         | PatCustom kind p \<Rightarrow> reg (to_upper kind) p
         | PatNone \<Rightarrow> (Some MuxBadRule, s, rule))"

text \<open>The rules of a method, one after the other, until one fails.\<close>

fun register_rules where
  "register_rules E opt i handlers [] s rule = (None, s, rule)"
| "register_rules E opt i handlers (ann # anns) s rule =
     (case registerHttpRule E opt i handlers ann s rule of
        (Some e, s', rule') \<Rightarrow> (Some e, s', rule')
      | (None, s', rule') \<Rightarrow> register_rules E opt i handlers anns s' rule')"

definition registerMethod where
  "registerMethod E withPackageName packageName serviceName opt i md handlers s rule =
     (case md_extensions md of
        None \<Rightarrow> (Some MuxExtensions, s, rule)
      | Some exts \<Rightarrow>
          (let anns = concat (map (\<lambda>e. case e of None \<Rightarrow> [] | Some a \<Rightarrow> a # an_additional a) exts);
               noHttpRule = list_all (\<lambda>e. e = None) exts
           in case register_rules E opt i handlers anns s rule of
                (Some e, s', rule') \<Rightarrow> (Some e, s', rule')
              | (None, s', rule') \<Rightarrow>
                  if noHttpRule then registerRawPostApi withPackageName packageName serviceName opt i (md_Name md) s' rule'
                  else (None, s', rule')))"

section \<open>Registering services\<close>

definition find_invoker :: "('i, 'ty, 'tmpl, 'pat) mux_env \<Rightarrow> string \<Rightarrow> method_desc \<Rightarrow> 'i option" where
  "find_invoker E serviceFullName md =
     (let name = ''/'' @ serviceFullName @ ''/'' @ md_Name md
      in if \<not> md_ServerStreaming md then me_unary E serviceFullName name else me_streaming E serviceFullName name)"

text \<open>The loop over the methods: errors are logged, and only a panic ends it.\<close>

fun register_methods where
  "register_methods E withPackageName packageName serviceName full opt handlers [] s rule = (None, s, rule)"
| "register_methods E withPackageName packageName serviceName full opt handlers (md # mds) s rule =
     (if md_ClientStreaming md
      then register_methods E withPackageName packageName serviceName full opt handlers mds s rule
      else (case find_invoker E full md of
              None \<Rightarrow> register_methods E withPackageName packageName serviceName full opt handlers mds s rule
            | Some i \<Rightarrow>
                (case registerMethod E withPackageName packageName serviceName opt i md handlers s rule of
                   (Some MuxPanic, s', rule') \<Rightarrow> (Some MuxPanic, s', rule')
                 | (_, s', rule') \<Rightarrow>
                     register_methods E withPackageName packageName serviceName full opt handlers mds s' rule')))"

definition getd :: "(string \<times> 'a list) list \<Rightarrow> string \<Rightarrow> 'a list" where
  "getd m k = (case mget m k of None \<Rightarrow> [] | Some xs \<Rightarrow> xs)"

text \<open>The aliases of each service; a service without any is known by its own name.\<close>

definition add_alias :: "'h grpc_service \<Rightarrow> (string \<times> string list) list \<Rightarrow> (string \<times> string list) list" where
  "add_alias sd m =
     (let n = gs_ServiceName sd;
          m1 = fold (\<lambda>alias m. AList.update n (getd m n @ [alias]) m) (gs_Alias sd) m
      in if mget m1 n = None then AList.update n [n] m1 else m1)"

definition add_handlers :: "'h grpc_service \<Rightarrow> (string \<times> (string \<times> 'h) list) list \<Rightarrow> (string \<times> (string \<times> 'h) list) list" where
  "add_handlers sd m =
     (if length (gs_HttpParameterHandler sd) \<noteq> 0
      then AList.update (gs_ServiceName sd)
             (fold (\<lambda>(k, v). AList.update k v) (gs_HttpParameterHandler sd) (getd m (gs_ServiceName sd))) m
      else m)"

definition new_rule :: "service_opt option \<Rightarrow> http_rule_def" where
  "new_rule opt =
     \<lparr>hr_HttpPatterns = [], hr_HeaderMap = hm_HeaderMap opt,
      hr_HeaderRegexMap = (case opt of None \<Rightarrow> [] | Some s \<Rightarrow> so_headerRegexStringMap s)\<rparr>"

text \<open>One service of a file descriptor; its rule is announced even when it has no pattern.\<close>

definition register_service where
  "register_service E withPackageName packageName full alias handlers sd s =
     (let opt = serviceOptions alias
      in case register_methods E withPackageName packageName (sd_Name sd) full opt handlers (sd_methods sd) s (new_rule opt) of
           (Some e, s', _) \<Rightarrow> (Some e, s')
         | (None, s', rule) \<Rightarrow> (None, s'\<lparr>mx_httpRules := mx_httpRules s' @ [rule]\<rparr>))"

fun register_file where
  "register_file E withPackageName packageName full alias handlers [] s = (None, s)"
| "register_file E withPackageName packageName full alias handlers (sd # sds) s =
     (if full \<noteq> packageName @ ''.'' @ sd_Name sd
      then register_file E withPackageName packageName full alias handlers sds s
      else (case register_service E withPackageName packageName full alias handlers sd s of
              (Some e, s') \<Rightarrow> (Some e, s')
            | (None, s') \<Rightarrow> register_file E withPackageName packageName full alias handlers sds s'))"

fun register_services where
  "register_services E withPackageName aliases handlers [] s = (None, s)"
| "register_services E withPackageName aliases handlers ((full, fd) # svs) s =
     (case fd of
        None \<Rightarrow> register_services E withPackageName aliases handlers svs s
      | Some f \<Rightarrow>
          (case register_file E withPackageName (fd_Package f) full (getd aliases full) (getd handlers full) (fd_services f) s of
             (Some e, s') \<Rightarrow> (Some e, s')
           | (None, s') \<Rightarrow> register_services E withPackageName aliases handlers svs s'))"

definition registerMethods where
  "registerMethods E withPackageName grpcServiceDesc serviceInfo s =
     (if length serviceInfo = 0 then (None, s)
      else register_services E withPackageName (fold add_alias grpcServiceDesc []) (fold add_handlers grpcServiceDesc []) serviceInfo s)"

definition NewServerMux where
  "NewServerMux E withPackageName grpcServiceDesc serviceInfo =
     registerMethods E withPackageName grpcServiceDesc serviceInfo
       \<lparr>mx_rawPostMatcher = newPathSegment, mx_ruleMatcher = newPathSegment, mx_httpRules = []\<rparr>"

definition mx_HttpRules :: "('i, 'pat, 'h) mux \<Rightarrow> http_rule_def list" where
  "mx_HttpRules s = mx_httpRules s"

section \<open>Requests\<close>

text \<open>
  The header of a request is changed by the estimates (they set \<open>Host\<close>) and is passed along. \<open>ms\<close> and \<open>mr\<close>
  are the two header tests of \<^verbatim>\<open>utils\<close>.
\<close>

record http_request =
  rq_Method :: string
  rq_Path :: string
  rq_Host :: string
  rq_Header :: header

datatype ('i, 'pat, 'h) handler = RawHandler 'i | RuleHandler "('i, 'pat, 'h) rule_desc" smap

datatype ('i, 'pat, 'h) answer = Handled "('i, 'pat, 'h) handler" | NotFound | Internal | InvalidArgument

definition makeRawPostRequest where
  "makeRawPostRequest ms mr r hdr s =
     (if rq_Method r \<noteq> ''POST'' then (Inr None, hdr)
      else (case MatchWithMeta (EstimateHeader ms mr (rq_Host r)) (rq_Method r) (rq_Path r) hdr (mx_rawPostMatcher s) of
              (Inl e, hdr') \<Rightarrow> (Inl e, hdr')
            | (Inr [], hdr') \<Rightarrow> (Inl NoMatch, hdr')
            | (Inr (m # _), hdr') \<Rightarrow> (Inr (Some (mt_value m)), hdr')))"

text \<open>The components of the path as the template patterns see them, in their own case, and the verb.\<close>

definition rule_components :: "string \<Rightarrow> (string list \<times> string) option" where
  "rule_components path =
     (if \<not> has_prefix path ''/'' then None
      else (let cs = split_char CHR ''/'' (tl path)
            in case last_index (last cs) CHR '':'' of
                 None \<Rightarrow> Some (cs, '''')
               | Some idx \<Rightarrow>
                   if idx = 0 then None
                   else Some (butlast cs @ [take idx (last cs)], drop (idx + 1) (last cs))))"

definition CheckPathParam where
  "CheckPathParam E components verb hdr meta count =
     (case me_match E (rd_pattern (mt_value meta)) components verb of
        None \<Rightarrow> (Some Refused, hdr)
      | Some pathParams \<Rightarrow> (None, hdr))"

definition makeHttpRuleRequest where
  "makeHttpRuleRequest E ms mr r hdr s =
     (case rule_components (rq_Path r) of
        None \<Rightarrow> Inl NoMatch
      | Some (components, verb) \<Rightarrow>
          (case fst (MatchWithMeta (EstimateMetaChain [CheckPathParam E components verb, EstimateHeader ms mr (rq_Host r)])
                       (rq_Method r) (rq_Path r) hdr (mx_ruleMatcher s)) of
             Inl e \<Rightarrow> Inl e
           | Inr [] \<Rightarrow> Inl NoMatch
           | Inr (m # _) \<Rightarrow>
               Inr (mt_value m, case me_match E (rd_pattern (mt_value m)) components verb of None \<Rightarrow> [] | Some ps \<Rightarrow> ps)))"

text \<open>A panic is recovered by \<open>ServeHTTP\<close>; every other failure is answered as not found.\<close>

definition makeRequest where
  "makeRequest E ms mr r s =
     (case makeRawPostRequest ms mr r (rq_Header r) s of
        (Inl Panic, _) \<Rightarrow> Internal
      | (Inr (Some i), _) \<Rightarrow> Handled (RawHandler i)
      | (_, hdr) \<Rightarrow>
          (case makeHttpRuleRequest E ms mr r hdr s of
             Inl Panic \<Rightarrow> Internal
           | Inl _ \<Rightarrow> NotFound
           | Inr (d, params) \<Rightarrow> Handled (RuleHandler d params)))"

text \<open>
  \<open>override\<close> and \<open>contentType\<close> are what \<open>r.Header.Get\<close> gives for the two headers, \<open>parse_ok\<close> whether \<open>ParseForm\<close>
  succeeds.
\<close>

definition ServeHTTP where
  "ServeHTTP E ms mr override contentType parse_ok r s =
     (if override \<noteq> '''' \<and> rq_Method r = ''POST'' then
        (if contentType = ''application/x-www-form-urlencoded'' \<and> \<not> parse_ok then InvalidArgument
         else makeRequest E ms mr (r\<lparr>rq_Method := to_upper override\<rparr>) s)
      else makeRequest E ms mr r s)"

section \<open>What is in the matchers and what is announced\<close>

definition has_content :: "('i, 'pat, 'h) mux \<Rightarrow> string list \<Rightarrow> smap list \<times> smap list \<Rightarrow> bool" where
  "has_content s cs h \<longleftrightarrow>
     Some h \<in> mt_header ` set (metas_at (mx_rawPostMatcher s) cs) \<or> Some h \<in> mt_header ` set (metas_at (mx_ruleMatcher s) cs)"

definition announced :: "http_rule_def list \<Rightarrow> string list \<Rightarrow> smap list \<times> smap list \<Rightarrow> bool" where
  "announced rules cs h \<longleftrightarrow>
     (\<exists>r \<in> set rules. h = (hr_HeaderMap r, hr_HeaderRegexMap r) \<and> Inr cs \<in> compile '''' ` set (hr_HttpPatterns r))"

definition header_of :: "service_opt option \<Rightarrow> smap list \<times> smap list" where
  "header_of opt = (hm_HeaderMap opt, hm_HeaderRegexMap opt)"

text \<open>
  A piece of registration adds patterns to the rule and the same patterns to the matchers, each with the
  header rules of the service.
\<close>

definition headers_ok :: "('i, 'pat, 'h) mux \<Rightarrow> bool" where
  "headers_ok s \<longleftrightarrow>
     (\<forall>cs. None \<notin> mt_header ` set (metas_at (mx_rawPostMatcher s) cs) \<and> None \<notin> mt_header ` set (metas_at (mx_ruleMatcher s) cs))"

definition extends_by ::
  "service_opt option \<Rightarrow> ('i, 'pat, 'h) mux \<Rightarrow> http_rule_def \<Rightarrow> ('i, 'pat, 'h) mux \<Rightarrow> http_rule_def \<Rightarrow> bool" where
  "extends_by opt s rule s' rule' \<longleftrightarrow>
     mx_httpRules s' = mx_httpRules s \<and> (headers_ok s \<longrightarrow> headers_ok s') \<and>
     (\<exists>ps. rule' = rule\<lparr>hr_HttpPatterns := hr_HttpPatterns rule @ ps\<rparr> \<and>
        (\<forall>cs h. has_content s' cs h \<longleftrightarrow> has_content s cs h \<or> h = header_of opt \<and> Inr cs \<in> compile '''' ` set ps))"

lemma extends_by_refl [simp]: "extends_by opt s rule s rule"
  unfolding extends_by_def by (intro conjI refl impI exI [of _ "[]"]) simp_all

lemma extends_by_trans:
  assumes "extends_by opt s rule s1 rule1" and "extends_by opt s1 rule1 s2 rule2"
  shows "extends_by opt s rule s2 rule2"
proof -
  obtain ps qs where ps: "rule1 = rule\<lparr>hr_HttpPatterns := hr_HttpPatterns rule @ ps\<rparr>"
      "\<And>cs h. has_content s1 cs h \<longleftrightarrow> has_content s cs h \<or> h = header_of opt \<and> Inr cs \<in> compile '''' ` set ps"
    and qs: "rule2 = rule1\<lparr>hr_HttpPatterns := hr_HttpPatterns rule1 @ qs\<rparr>"
      "\<And>cs h. has_content s2 cs h \<longleftrightarrow> has_content s1 cs h \<or> h = header_of opt \<and> Inr cs \<in> compile '''' ` set qs"
    and "mx_httpRules s2 = mx_httpRules s" and "headers_ok s \<longrightarrow> headers_ok s2"
    using assms unfolding extends_by_def by auto
  then show ?thesis unfolding extends_by_def by (intro conjI exI [of _ "ps @ qs"]) (auto simp: image_Un)
qed

text \<open>Adding one pattern to one of the two matchers, with success or without.\<close>

lemma AddPattern_result:
  "AddPattern meth pat m t = (t', e) \<Longrightarrow>
     metas_at t' cs = metas_at t cs @ (if compile meth pat = Inr cs then [m] else []) \<and>
     (e = None \<longleftrightarrow> (\<exists>cs. compile meth pat = Inr cs))"
  using AddPattern_content [of meth pat m t cs] AddPattern_error [of meth pat m t] by (auto split: sum.splits)

lemma extends_raw:
  assumes "AddPattern '''' pat (mux_meta opt i) (mx_rawPostMatcher s) = (t, e)"
  shows "extends_by opt s rule (s\<lparr>mx_rawPostMatcher := t\<rparr>)
           (if e = None then rule\<lparr>hr_HttpPatterns := hr_HttpPatterns rule @ [pat]\<rparr> else rule)"
  unfolding extends_by_def
  by (intro conjI exI [of _ "if e = None then [pat] else []"])
    (auto simp: has_content_def headers_ok_def header_of_def mux_meta_def AddPattern_result [OF assms] split: if_splits)

lemma extends_rule:
  assumes "AddPattern '''' pat (mux_meta opt d) (mx_ruleMatcher s) = (t, e)"
  shows "extends_by opt s rule (s\<lparr>mx_ruleMatcher := t\<rparr>)
           (if e = None then rule\<lparr>hr_HttpPatterns := hr_HttpPatterns rule @ [pat]\<rparr> else rule)"
  unfolding extends_by_def
  by (intro conjI exI [of _ "if e = None then [pat] else []"])
    (auto simp: has_content_def headers_ok_def header_of_def mux_meta_def AddPattern_result [OF assms] split: if_splits)

lemma registerRawPostApi_extends:
  "registerRawPostApi w pkg sn opt i name s rule = (e, s', rule') \<Longrightarrow> extends_by opt s rule s' rule'"
  using extends_raw [of _ opt i s _ _ rule]
  by (auto simp: registerRawPostApi_def Let_def split: sum.splits prod.splits option.splits) fastforce+

lemma registerPattern_extends:
  "registerPattern E opt i handlers m p b r s rule = (e, s', rule') \<Longrightarrow> extends_by opt s rule s' rule'"
  using extends_rule [of _ opt _ s _ _ rule]
  by (auto simp: registerPattern_def Let_def simp del: first_error.simps split: sum.splits prod.splits option.splits) fastforce+

lemma registerHttpRule_extends:
  "registerHttpRule E opt i handlers ann s rule = (e, s', rule') \<Longrightarrow> extends_by opt s rule s' rule'"
  by (auto simp: registerHttpRule_def Let_def intro: registerPattern_extends split: rule_pattern.splits)

lemma register_rules_extends:
  "register_rules E opt i handlers anns s rule = (e, s', rule') \<Longrightarrow> extends_by opt s rule s' rule'"
proof (induction anns arbitrary: s rule)
  case (Cons ann anns)
  obtain e1 s1 rule1 where r: "registerHttpRule E opt i handlers ann s rule = (e1, s1, rule1)" by (metis surj_pair)
  note x = registerHttpRule_extends [OF r]
  show ?case
  proof (cases e1)
    case None
    then show ?thesis using Cons.IH [of s1 rule1] Cons.prems r extends_by_trans [OF x] by simp
  qed (use Cons.prems r x in simp)
qed simp

lemma registerMethod_extends:
  assumes "registerMethod E w pkg sn opt i md handlers s rule = (e, s', rule')"
  shows "extends_by opt s rule s' rule'"
proof (cases "md_extensions md")
  case (Some exts)
  let ?anns = "concat (map (\<lambda>e. case e of None \<Rightarrow> [] | Some a \<Rightarrow> a # an_additional a) exts)"
  obtain e1 s1 rule1 where r: "register_rules E opt i handlers ?anns s rule = (e1, s1, rule1)" by (metis surj_pair)
  note x = register_rules_extends [OF r]
  show ?thesis
    using assms Some r x extends_by_trans [OF x registerRawPostApi_extends]
    by (auto simp: registerMethod_def Let_def split: option.splits if_splits)
qed (use assms in \<open>simp add: registerMethod_def\<close>)

lemma register_methods_extends:
  "register_methods E w pkg sn full opt handlers mds s rule = (e, s', rule') \<Longrightarrow> extends_by opt s rule s' rule'"
proof (induction mds arbitrary: s rule)
  case (Cons md mds)
  show ?case
  proof (cases "md_ClientStreaming md \<or> find_invoker E full md = None")
    case True
    then show ?thesis using Cons by (auto split: if_splits)
  next
    case False
    then obtain i where i: "find_invoker E full md = Some i" and c: "\<not> md_ClientStreaming md" by auto
    obtain e1 s1 rule1 where r: "registerMethod E w pkg sn opt i md handlers s rule = (e1, s1, rule1)" by (metis surj_pair)
    note x = registerMethod_extends [OF r]
    show ?thesis
    proof (cases "e1 = Some MuxPanic")
      case True
      then show ?thesis using Cons.prems i c r x by simp
    next
      case False
      then have "register_methods E w pkg sn full opt handlers mds s1 rule1 = (e, s', rule')"
        using Cons.prems i c r by (auto split: option.splits mux_error.splits)
      from Cons.IH [OF this] show ?thesis by (rule extends_by_trans [OF x])
    qed
  qed
qed simp

definition consistent :: "('i, 'pat, 'h) mux \<Rightarrow> bool" where
  "consistent s \<longleftrightarrow> headers_ok s \<and> (\<forall>r \<in> set (mx_httpRules s). hr_HeaderRegexMap r = []) \<and> (\<forall>cs h. has_content s cs h \<longleftrightarrow> announced (mx_httpRules s) cs h)"

lemma header_of_new_rule:
  "(hr_HeaderMap (new_rule (serviceOptions alias)), hr_HeaderRegexMap (new_rule (serviceOptions alias))) = header_of (serviceOptions alias)"
  by (simp add: new_rule_def header_of_def serviceOptions_def hm_HeaderRegexMap_def)

lemma register_service_consistent:
  assumes "register_service E w pkg full alias handlers sd s = (None, s')" and "consistent s"
  shows "consistent s'"
proof -
  let ?opt = "serviceOptions alias"
  obtain s1 rule where r: "register_methods E w pkg (sd_Name sd) full ?opt handlers (sd_methods sd) s (new_rule ?opt) = (None, s1, rule)"
    and s': "s' = s1\<lparr>mx_httpRules := mx_httpRules s1 @ [rule]\<rparr>"
    using assms(1) by (auto simp: register_service_def Let_def split: prod.splits option.splits)
  have hs1: "headers_ok s1" using register_methods_extends [OF r] assms(2) by (simp add: extends_by_def consistent_def)
  obtain ps where rule: "rule = (new_rule ?opt)\<lparr>hr_HttpPatterns := ps\<rparr>" and rules: "mx_httpRules s1 = mx_httpRules s"
    and c: "\<And>cs h. has_content s1 cs h \<longleftrightarrow> has_content s cs h \<or> h = header_of ?opt \<and> Inr cs \<in> compile '''' ` set ps"
    using register_methods_extends [OF r] unfolding extends_by_def by (auto simp: new_rule_def)
  have "has_content s' cs h \<longleftrightarrow> has_content s1 cs h" for cs h by (simp add: s' has_content_def)
  moreover have "announced (mx_httpRules s') cs h \<longleftrightarrow> announced (mx_httpRules s) cs h \<or> h = header_of ?opt \<and> Inr cs \<in> compile '''' ` set ps" for cs h
    by (auto simp: s' rules announced_def rule header_of_new_rule)
  moreover have "headers_ok s'" using hs1 by (simp add: s' headers_ok_def)
  moreover have "hr_HeaderRegexMap rule = []" by (simp add: rule new_rule_def serviceOptions_def)
  ultimately show ?thesis using assms(2) c by (simp add: consistent_def s' rules)
qed

lemma register_file_consistent:
  "register_file E w pkg full alias handlers sds s = (None, s') \<Longrightarrow> consistent s \<Longrightarrow> consistent s'"
  by (induction sds arbitrary: s)
    (auto split: if_splits prod.splits option.splits intro: register_service_consistent)

lemma register_services_consistent:
  "register_services E w aliases handlers svs s = (None, s') \<Longrightarrow> consistent s \<Longrightarrow> consistent s'"
proof (induction svs arbitrary: s)
  case (Cons sv svs)
  obtain full fd where sv: "sv = (full, fd)" by (cases sv)
  show ?case
  proof (cases fd)
    case (Some f)
    then obtain s1 where "register_file E w (fd_Package f) full (getd aliases full) (getd handlers full) (fd_services f) s = (None, s1)"
      and "register_services E w aliases handlers svs s1 = (None, s')"
      using Cons.prems(1) by (auto simp: sv split: prod.splits option.splits)
    then show ?thesis using Cons.IH Cons.prems(2) register_file_consistent by blast
  qed (use Cons in \<open>simp add: sv\<close>)
qed simp

lemma NewServerMux_consistent:
  assumes "NewServerMux E w g info = (None, s)"
  shows "consistent s"
proof -
  have "consistent \<lparr>mx_rawPostMatcher = newPathSegment, mx_ruleMatcher = newPathSegment, mx_httpRules = []\<rparr>"
    by (simp add: consistent_def headers_ok_def has_content_def announced_def)
  then show ?thesis
    using assms register_services_consistent by (auto simp: NewServerMux_def registerMethods_def split: if_splits)
qed

lemma match_headers:
  assumes "headers_ok s"
  shows "matchInternal cs (mx_rawPostMatcher s) = Some ms \<Longrightarrow> \<not> list_ex (\<lambda>m. mt_header m = None) ms"
    and "matchInternal cs (mx_ruleMatcher s) = Some ms' \<Longrightarrow> \<not> list_ex (\<lambda>m. mt_header m = None) ms'"
  using assms match_sound [of cs "mx_rawPostMatcher s" ms] match_sound [of cs "mx_ruleMatcher s" ms']
  unfolding headers_ok_def list_ex_iff by (metis image_eqI)+

lemma match_with_meta_no_panic:
  assumes "path \<noteq> []" and "\<And>cs ms. matchInternal cs t = Some ms \<Longrightarrow> \<not> list_ex (\<lambda>m. mt_header m = None) ms"
  shows "fst (MatchWithMeta est method path r t) \<noteq> Inl Panic"
proof -
  have p: "path_components method path \<noteq> Inl Panic"
    using assms(1) by (cases path) (auto simp: path_components_def split_verb_def Let_def split: option.splits if_splits)
  then show ?thesis
    using assms(2)
    by (auto simp: MatchWithMeta_def adjustHeaderRuleCount_result Let_def split: sum.splits option.splits prod.splits if_splits)
qed

definition demo_env :: "(string, unit, string, string) mux_env" where
  "demo_env =
     \<lparr>me_parse = Some, me_fields = (\<lambda>_. []), me_newPattern = Some, me_match = (\<lambda>_ _ _. Some []), me_field = (\<lambda>_ _. Field ()),
      me_request = (\<lambda>_. ()), me_response = (\<lambda>_. ()), me_unary = (\<lambda>_. Some), me_streaming = (\<lambda>_. Some)\<rparr>"

definition demo_services :: "unit grpc_service list" where
  "demo_services = [\<lparr>gs_ServiceName = ''p.S'', gs_Alias = [''s1''], gs_HttpParameterHandler = []\<rparr>]"

definition demo_info :: "(string \<times> file_desc option) list" where
  "demo_info =
     [(''p.S'', Some \<lparr>fd_Package = ''p'', fd_services =
        [\<lparr>sd_Name = ''S'', sd_methods =
           [\<lparr>md_Name = ''Put'', md_ClientStreaming = False, md_ServerStreaming = False, md_extensions = Some []\<rparr>,
            \<lparr>md_Name = ''Get'', md_ClientStreaming = False, md_ServerStreaming = True,
             md_extensions = Some [Some (HttpAnnotation (PatGet ''/v1/{k}'') '''' '''' [])]\<rparr>]\<rparr>]\<rparr>)]"

definition demo_mux :: "(string, string, unit) mux" where
  "demo_mux = snd (NewServerMux demo_env True demo_services demo_info)"

definition demo_request :: "string \<Rightarrow> string \<Rightarrow> http_request" where
  "demo_request m p = \<lparr>rq_Method = m, rq_Path = p, rq_Host = ''h'', rq_Header = []\<rparr>"

lemma demo_mux_started: "NewServerMux demo_env True demo_services demo_info = (None, demo_mux)"
proof -
  have "fst (NewServerMux demo_env True demo_services demo_info) = None" by code_simp
  then show ?thesis by (simp add: demo_mux_def prod_eq_iff)
qed

section \<open>Properties\<close>

text \<open>
  C7 (announced and served patterns agree). After the start of a server, whatever its descriptors and
  whatever fails on the way, a pattern with its header rules is in one of the two matchers exactly if
  the rules announced to the registry contain it.
\<close>

theorem announced_patterns_exact:
  assumes "NewServerMux E w descs info = (None, s)"
  shows "has_content s cs h \<longleftrightarrow> announced (mx_HttpRules s) cs h"
  using NewServerMux_consistent [OF assms] unfolding consistent_def mx_HttpRules_def by blast

theorem announced_patterns_exact_witness:
  "announced (mx_HttpRules demo_mux) [''get'', ''v1'', ''*''] ([[(''X-F-Service'', ''s1'')]], [])"
proof -
  have "has_content demo_mux [''get'', ''v1'', ''*''] ([[(''X-F-Service'', ''s1'')]], [])" by code_simp
  then show ?thesis using announced_patterns_exact [OF demo_mux_started] by blast
qed

text \<open>
  C31 (no panic while serving). A started server answers every request with a non-empty path without a panic
  in the choice of its handler.
\<close>

theorem serve_never_panics:
  fixes r :: http_request
  assumes "NewServerMux E w descs info = (None, s)" and "rq_Path r \<noteq> ''''"
  shows "ServeHTTP E ms mr override contentType parse_ok r s \<noteq> Internal"
proof -
  have h: "headers_ok s" using NewServerMux_consistent [OF assms(1)] by (simp add: consistent_def)
  have "makeRequest E ms mr r' s \<noteq> Internal" if "rq_Path r' \<noteq> ''''" for r' :: http_request
  proof -
    have raw: "fst (makeRawPostRequest ms mr r' hdr s) \<noteq> Inl Panic" for hdr
    proof -
      let ?m = "MatchWithMeta (EstimateHeader ms mr (rq_Host r')) (rq_Method r') (rq_Path r') hdr (mx_rawPostMatcher s)"
      have "fst ?m \<noteq> Inl Panic" by (rule match_with_meta_no_panic [OF that match_headers(1) [OF h]])
      then show ?thesis
        by (cases ?m; cases "fst ?m") (auto simp: makeRawPostRequest_def split: list.splits)
    qed
    have rule: "makeHttpRuleRequest E ms mr r' hdr s \<noteq> Inl Panic" for hdr
    proof (cases "rule_components (rq_Path r')")
      case (Some cv)
      obtain c v where cv: "cv = (c, v)" by (cases cv)
      let ?m = "MatchWithMeta (EstimateMetaChain [CheckPathParam E c v, EstimateHeader ms mr (rq_Host r')])
                  (rq_Method r') (rq_Path r') hdr (mx_ruleMatcher s)"
      have "fst ?m \<noteq> Inl Panic" by (rule match_with_meta_no_panic [OF that match_headers(2) [OF h]])
      then show ?thesis using Some by (cases "fst ?m") (auto simp: cv makeHttpRuleRequest_def split: list.split)
    qed (simp add: makeHttpRuleRequest_def)
    obtain x hdr where x: "makeRawPostRequest ms mr r' (rq_Header r') s = (x, hdr)" by (metis surj_pair)
    then have "x \<noteq> Inl Panic" using raw [of "rq_Header r'"] by auto
    then show ?thesis
      using rule [of hdr] x
      by (auto simp: makeRequest_def split: sum.splits option.splits matcher_error.splits)
  qed
  then show ?thesis using assms(2) by (simp add: ServeHTTP_def)
qed

theorem serve_never_panics_witness:
  "ServeHTTP demo_env (\<lambda>_ _. False) (\<lambda>_ _. False) '''' '''' True (demo_request ''GET'' ''/x'') demo_mux \<noteq> Internal"
  by (rule serve_never_panics [OF demo_mux_started]) (simp add: demo_request_def)

lemma estimate_all_accepted: "m \<in> set (fst (estimate_all est r count ms [])) \<Longrightarrow> m \<in> set ms \<and> (\<exists>r'. fst (est r' m count) = None)"
proof (induction ms arbitrary: r)
  case (Cons a ms)
  obtain e r' where e: "est r a count = (e, r')" by (metis surj_pair)
  then show ?case using Cons.IH [of r'] Cons.prems estimate_all_acc [of est r' count ms "[a]"] by (cases e) (auto intro: exI [of _ r])
qed simp

text \<open>What \<open>MatchWithMeta\<close> answers: metas stored under a pattern that matches, each accepted by the estimate.\<close>

lemma match_with_meta_sound:
  assumes "fst (MatchWithMeta est method path r t) = Inr (m # rest)"
  shows "\<exists>cs p n r'. path_components method path = Inr cs \<and> pmatch p cs \<and> m \<in> set (metas_at t p) \<and> fst (est r' m n) = None"
proof -
  obtain cs where cs: "path_components method path = Inr cs"
    using assms by (cases "path_components method path") (simp_all add: MatchWithMeta_def)
  obtain metas where mi: "matchInternal cs t = Some metas"
    using assms cs by (cases "matchInternal cs t") (simp_all add: MatchWithMeta_def)
  obtain n where "m \<in> set (fst (estimate_all est r n metas []))"
    using assms by (auto simp: MatchWithMeta_def cs mi Let_def case_prod_beta slice_stable_none split: sum.splits if_splits)
      (metis list.set_intros(1) slice_stable_none meta_less_False)+
  then obtain r' where "m \<in> set metas" and "fst (est r' m n) = None" using estimate_all_accepted by metis
  then show ?thesis using match_sound [OF mi] cs by blast
qed

lemma chain_accepts: "fst (EstimateMetaChain (e # es) r m n) = None \<Longrightarrow> fst (e r m n) = None"
  by (auto split: prod.splits option.splits)

text \<open>
  C19 (requests reach a method they match). A request is only handed to a method that was registered
  under a pattern the path of the request matches, method included: a method called by its name only by
  a POST, a method with a rule only if the template of the rule accepts the path, and then with the
  parameters the template extracts.
\<close>

theorem dispatch_sound:
  fixes r :: http_request
  assumes "makeRequest E ms mr r s = Handled x"
  shows "case x of
      RawHandler i \<Rightarrow> rq_Method r = ''POST'' \<and>
        (\<exists>cs p m. path_components ''POST'' (rq_Path r) = Inr cs \<and> pmatch p cs \<and> m \<in> set (metas_at (mx_rawPostMatcher s) p) \<and> mt_value m = i)
    | RuleHandler d params \<Rightarrow>
        (\<exists>cs p m components verb. path_components (rq_Method r) (rq_Path r) = Inr cs \<and> pmatch p cs \<and>
           m \<in> set (metas_at (mx_ruleMatcher s) p) \<and> mt_value m = d \<and>
           rule_components (rq_Path r) = Some (components, verb) \<and> me_match E (rd_pattern d) components verb = Some params)"
proof (cases x)
  case (RawHandler i)
  then obtain hdr where "makeRawPostRequest ms mr r (rq_Header r) s = (Inr (Some i), hdr)"
    using assms by (auto simp: makeRequest_def split: prod.splits sum.splits option.splits matcher_error.splits)
  then have p: "rq_Method r = ''POST''"
    and "\<exists>m rest. fst (MatchWithMeta (EstimateHeader ms mr (rq_Host r)) (rq_Method r) (rq_Path r) (rq_Header r) (mx_rawPostMatcher s)) = Inr (m # rest) \<and> mt_value m = i"
    by (auto simp: makeRawPostRequest_def split: if_splits prod.splits sum.splits list.splits)
  then show ?thesis using match_with_meta_sound RawHandler by (fastforce simp: p)
next
  case (RuleHandler d params)
  then obtain hdr where "makeHttpRuleRequest E ms mr r hdr s = Inr (d, params)"
    using assms by (auto simp: makeRequest_def split: prod.splits sum.splits option.splits matcher_error.splits)
  then obtain c v m rest where cv: "rule_components (rq_Path r) = Some (c, v)"
    and m: "fst (MatchWithMeta (EstimateMetaChain [CheckPathParam E c v, EstimateHeader ms mr (rq_Host r)])
                  (rq_Method r) (rq_Path r) hdr (mx_ruleMatcher s)) = Inr (m # rest)"
    and d: "d = mt_value m" and params: "params = (case me_match E (rd_pattern d) c v of None \<Rightarrow> [] | Some ps \<Rightarrow> ps)"
    by (auto simp: makeHttpRuleRequest_def split: option.splits sum.splits list.splits)
  obtain cs p n r' where x: "path_components (rq_Method r) (rq_Path r) = Inr cs" "pmatch p cs" "m \<in> set (metas_at (mx_ruleMatcher s) p)"
    and e: "fst (EstimateMetaChain [CheckPathParam E c v, EstimateHeader ms mr (rq_Host r)] r' m n) = None"
    using match_with_meta_sound [OF m] by blast
  have "me_match E (rd_pattern d) c v = Some params"
    using chain_accepts [OF e] params by (auto simp: CheckPathParam_def d split: option.splits)
  then show ?thesis using x cv d RuleHandler by auto
qed

theorem dispatch_sound_witness:
  "\<exists>d params. makeRequest demo_env (\<lambda>_ _. False) (\<lambda>_ _. False) (demo_request ''GET'' ''/v1/A'') demo_mux = Handled (RuleHandler d params) \<and>
     me_match demo_env (rd_pattern d) [''v1'', ''A''] '''' = Some params"
proof -
  let ?d = "\<lparr>rd_method = ''/p.S/Get'', rd_pattern = ''/v1/{k}'', rd_filter = [], rd_bodyField = '''', rd_respField = '''', rd_parameterHandler = []\<rparr>"
  have m: "makeRequest demo_env (\<lambda>_ _. False) (\<lambda>_ _. False) (demo_request ''GET'' ''/v1/A'') demo_mux = Handled (RuleHandler ?d [])"
    by code_simp
  have c: "rule_components (rq_Path (demo_request ''GET'' ''/v1/A'')) = Some ([''v1'', ''A''], '''')" by code_simp
  from dispatch_sound [OF m] show ?thesis unfolding c using m by auto
qed

text \<open>
  A method that is alone under its name is called. After the start of a server, a POST to the name of
  a method that no other service registers reaches that method, whatever headers the request has.
\<close>

theorem unique_raw_method_is_called:
  fixes r :: http_request
  assumes "NewServerMux E w descs info = (None, s)" and "rq_Method r = ''POST''"
    and "path_components ''POST'' (rq_Path r) = Inr cs" and "[] \<notin> set cs" and "metas_at (mx_rawPostMatcher s) cs = [m]"
  shows "makeRequest E ms mr r s = Handled (RawHandler (mt_value m))"
proof -
  have "headers_ok s" using NewServerMux_consistent [OF assms(1)] by (simp add: consistent_def)
  then have "None \<notin> mt_header ` set (metas_at (mx_rawPostMatcher s) cs)" unfolding headers_ok_def by blast
  then obtain h where h: "mt_header m = Some h" using assms(5) by (cases "mt_header m") auto
  have "matchInternal cs (mx_rawPostMatcher s) = Some [m]"
    using match_exact [of "mx_rawPostMatcher s" cs] assms(4,5) by simp
  then have "MatchWithMeta (EstimateHeader ms mr (rq_Host r)) ''POST'' (rq_Path r) hdr (mx_rawPostMatcher s) = (Inr [m], hdr)" for hdr
    using assms(3) h by (cases h) (simp add: MatchWithMeta_def EstimateHeader_def slice_stable_none)
  then show ?thesis using assms(2) by (simp add: makeRequest_def makeRawPostRequest_def)
qed

theorem unique_raw_method_is_called_witness:
  "makeRequest demo_env (\<lambda>_ _. False) (\<lambda>_ _. False) (demo_request ''POST'' ''/p.S/Put'') demo_mux = Handled (RawHandler ''/p.S/Put'')"
proof -
  let ?m = "mux_meta (serviceOptions [''s1'']) ''/p.S/Put''"
  have c: "path_components ''POST'' (rq_Path (demo_request ''POST'' ''/p.S/Put'')) = Inr [''post'', ''p.s'', ''put'']" by code_simp
  have m: "metas_at (mx_rawPostMatcher demo_mux) [''post'', ''p.s'', ''put''] = [?m]" by code_simp
  have "mt_value ?m = ''/p.S/Put''" by (simp add: mux_meta_def)
  then show ?thesis
    using unique_raw_method_is_called [OF demo_mux_started _ c _ m, of "\<lambda>_ _. False" "\<lambda>_ _. False"]
    by (simp add: demo_request_def)
qed

end
