(* ===== verification/Server_Announce.thy ===== *)
theory Server_Announce
  imports Http_Mux
begin

text \<open>
  How a server makes itself known: the gRPC services of \<^verbatim>\<open>server/internal/grpc_server/description.go\<close> and
  \<^verbatim>\<open>registry_handler.go\<close>, the HTTP routes of \<^verbatim>\<open>server/internal/http_server/route.go\<close> and \<^verbatim>\<open>description.go\<close>, and
  \<^verbatim>\<open>server/internal/http_server/registry_handler.go\<close>, which registers both under the address of the server. The
  registry is an interface: a record of its operations over a state. \<open>utils.MapFromPairsToString\<close>, which the
  repository does not contain, is the argument \<open>from_pairs\<close>; \<open>log.Fatalf\<close>, which ends the process, is \<open>None\<close>.
\<close>

section \<open>The registry as an interface\<close>

record ('e, 's) registry_ops =
  ro_RegisterService :: "string \<Rightarrow> string \<Rightarrow> meta_value \<Rightarrow> 's \<Rightarrow> 'e option \<times> 's"
  ro_UnregisterService :: "string \<Rightarrow> string \<Rightarrow> 's \<Rightarrow> 's"
  ro_ListAllService :: "'s \<Rightarrow> 'e + (string \<times> meta_value inst list) list"

datatype 'e announce_error = TlsConflict string string bool | RegistryFailed 'e | MarshalFailed

definition IsPipeAddress_unix :: "string \<Rightarrow> bool" where
  "IsPipeAddress_unix addr = False"

definition IsPipeAddress_win :: "string \<Rightarrow> bool" where
  "IsPipeAddress_win addr = has_prefix addr (CHR 0x5C # CHR 0x5C # ''.'' @ CHR 0x5C # CHR 0x5C # ''pipe'' @ [CHR 0x5C])"

section \<open>gRPC services\<close>

text \<open>An instance that is registered for the service with the other transport.\<close>

definition conflicts :: "(string \<Rightarrow> reg_meta option) \<Rightarrow> bool \<Rightarrow> meta_value inst \<Rightarrow> bool" where
  "conflicts unmarshal withTls i =
     (case snd i of
        MetaOther \<Rightarrow> False
      | MetaString json \<Rightarrow>
          (case UnmarshalRegistryMeta unmarshal json of None \<Rightarrow> False | Some m \<Rightarrow> rm_TlsServer m \<noteq> withTls))"

text \<open>The loop over the names of the service; \<open>entries\<close> was listed before it.\<close>

fun register_names ::
  "('e, 's) registry_ops \<Rightarrow> (string \<Rightarrow> reg_meta option) \<Rightarrow> bool \<Rightarrow> string \<Rightarrow> meta_value \<Rightarrow>
     (string \<times> meta_value inst list) list \<Rightarrow> string list \<Rightarrow> 's \<Rightarrow> 'e announce_error option \<times> 's" where
  "register_names R unmarshal withTls addr meta entries [] s = (None, s)"
| "register_names R unmarshal withTls addr meta entries (n # ns) s =
     (case (case mget entries n of None \<Rightarrow> None | Some is \<Rightarrow> find (conflicts unmarshal withTls) is) of
        Some i \<Rightarrow> (Some (TlsConflict n (fst i) (\<not> withTls)), s)
      | None \<Rightarrow>
          (case ro_RegisterService R n addr meta s of
             (Some e, s') \<Rightarrow> (Some (RegistryFailed e), s')
           | (None, s') \<Rightarrow> register_names R unmarshal withTls addr meta entries ns s'))"

definition service_names :: "'h grpc_service \<Rightarrow> string list" where
  "service_names sd = (if length (gs_Alias sd) = 0 then [gs_ServiceName sd] else gs_Alias sd)"

text \<open>\<open>skip\<close>: there is no registry, it is the one that does nothing, or the address is a pipe.\<close>

definition grpc_registerService where
  "grpc_registerService R marshal unmarshal skip addr withTls sd s =
     (if skip then (None, s)
      else (case MarshalRegistryMeta marshal
               \<lparr>rm_TlsServer = withTls, rm_HttpPatterns = [], rm_Version = 0, rm_Type = RegistryType_Grpc, rm_HttpRules = []\<rparr> of
              None \<Rightarrow> (Some MarshalFailed, s)
            | Some metaJson \<Rightarrow>
                (case ro_ListAllService R s of
                   Inl e \<Rightarrow> (Some (RegistryFailed e), s)
                 | Inr entries \<Rightarrow>
                     register_names R unmarshal withTls addr (MetaString metaJson) entries (service_names sd) s)))"

definition grpc_unregisterService where
  "grpc_unregisterService R skip addr sd s =
     (if skip then s else fold (\<lambda>n. ro_UnregisterService R n addr) (service_names sd) s)"

text \<open>\<open>GrpcServiceRegistryHandler.RegisterServices\<close>: the services that are registered at the start, until one fails.\<close>

fun grpc_RegisterServices where
  "grpc_RegisterServices R marshal unmarshal skip addr withTls [] s = (None, s)"
| "grpc_RegisterServices R marshal unmarshal skip addr withTls ((initial, sd) # sds) s =
     (if initial then
        (case grpc_registerService R marshal unmarshal skip addr withTls sd s of
           (Some e, s') \<Rightarrow> (Some e, s')
         | (None, s') \<Rightarrow> grpc_RegisterServices R marshal unmarshal skip addr withTls sds s')
      else grpc_RegisterServices R marshal unmarshal skip addr withTls sds s)"

definition grpc_UnregisterServices where
  "grpc_UnregisterServices R skip addr sds s = fold (\<lambda>(_, sd). grpc_unregisterService R skip addr sd) sds s"

definition grpc_HttpRules :: "'h grpc_service list \<Rightarrow> http_rule_def list" where
  "grpc_HttpRules sds =
     [\<lparr>hr_HttpPatterns = concat (map (\<lambda>sd. concat (map (\<lambda>n. RegistryWithPath [''*''] (''/'' @ n @ ''/*'')) (service_names sd))) sds),
       hr_HeaderMap = [], hr_HeaderRegexMap = []\<rparr>]"

section \<open>HTTP routes\<close>

record 'f route =
  rt_path :: string
  rt_headers :: "string list"
  rt_headersRegexp :: "string list"
  rt_hostTpl :: string
  rt_methods :: "string list"
  rt_pathPrefix :: string
  rt_queries :: "string list"
  rt_schemes :: "string list"
  rt_matcher :: "'f option"

definition NewRouteOpt :: "'f route" where
  "NewRouteOpt =
     \<lparr>rt_path = '''', rt_headers = [], rt_headersRegexp = [], rt_hostTpl = '''', rt_methods = [], rt_pathPrefix = '''',
      rt_queries = [], rt_schemes = [], rt_matcher = None\<rparr>"

text \<open>The setters of a route; the getters are the fields.\<close>

definition set_Path :: "string \<Rightarrow> 'f route \<Rightarrow> 'f route" where
  "set_Path tpl r = r\<lparr>rt_path := tpl\<rparr>"

definition set_Headers :: "string list \<Rightarrow> 'f route \<Rightarrow> 'f route" where
  "set_Headers pairs r = r\<lparr>rt_headers := pairs\<rparr>"

definition set_HeadersRegexp :: "string list \<Rightarrow> 'f route \<Rightarrow> 'f route" where
  "set_HeadersRegexp pairs r = r\<lparr>rt_headersRegexp := pairs\<rparr>"

definition set_Host :: "string \<Rightarrow> 'f route \<Rightarrow> 'f route" where
  "set_Host tpl r = r\<lparr>rt_hostTpl := tpl\<rparr>"

definition set_Methods :: "string list \<Rightarrow> 'f route \<Rightarrow> 'f route" where
  "set_Methods methods r = r\<lparr>rt_methods := methods\<rparr>"

definition set_PathPrefix :: "string \<Rightarrow> 'f route \<Rightarrow> 'f route" where
  "set_PathPrefix tpl r = r\<lparr>rt_pathPrefix := tpl\<rparr>"

definition set_Queries :: "string list \<Rightarrow> 'f route \<Rightarrow> 'f route" where
  "set_Queries pairs r = r\<lparr>rt_queries := pairs\<rparr>"

definition set_Schemes :: "string list \<Rightarrow> 'f route \<Rightarrow> 'f route" where
  "set_Schemes schemes r = r\<lparr>rt_schemes := schemes\<rparr>"

definition set_MatcherFunc :: "'f \<Rightarrow> 'f route \<Rightarrow> 'f route" where
  "set_MatcherFunc f r = r\<lparr>rt_matcher := Some f\<rparr>"

definition route_String :: "'f route \<Rightarrow> string" where
  "route_String r =
     (let methods = (if length (rt_methods r) > 0 then join '','' (rt_methods r) else ''*'');
          path = (if rt_path r = '''' then (if rt_pathPrefix r \<noteq> '''' then rt_pathPrefix r @ ''*'' else ''*'') else rt_path r)
      in methods @ '' Path: '' @ path)"

text \<open>
  \<open>apply\<close> builds a route of the router from the parts that are set, in this order, and stops at the first
  error. A part is a step on the router's route; \<open>None\<close> is its error.
\<close>

datatype 'f route_part =
    RPath string | RHeaders "string list" | RHeadersRegexp "string list" | RHost string | RMethods "string list"
  | RPathPrefix string | RQueries "string list" | RSchemes "string list" | RMatcher 'f

definition route_parts :: "'f route \<Rightarrow> 'f route_part list" where
  "route_parts r =
     (if rt_path r \<noteq> '''' then [RPath (rt_path r)] else []) @
     (if length (rt_headers r) > 0 then [RHeaders (rt_headers r)] else []) @
     (if length (rt_headersRegexp r) > 0 then [RHeadersRegexp (rt_headersRegexp r)] else []) @
     (if rt_hostTpl r \<noteq> '''' then [RHost (rt_hostTpl r)] else []) @
     (if length (rt_methods r) > 0 then [RMethods (rt_methods r)] else []) @
     (if rt_pathPrefix r \<noteq> '''' then [RPathPrefix (rt_pathPrefix r)] else []) @
     (if length (rt_queries r) > 0 then [RQueries (rt_queries r)] else []) @
     (if length (rt_schemes r) > 0 then [RSchemes (rt_schemes r)] else []) @
     (case rt_matcher r of None \<Rightarrow> [] | Some f \<Rightarrow> [RMatcher f])"

fun apply_parts :: "('f route_part \<Rightarrow> 'r \<Rightarrow> 'r option) \<Rightarrow> 'f route_part list \<Rightarrow> 'r \<Rightarrow> 'r option" where
  "apply_parts op [] r = Some r"
| "apply_parts op (p # ps) r = (case op p r of None \<Rightarrow> None | Some r' \<Rightarrow> apply_parts op ps r')"

definition apply_route where
  "apply_route op newRoute setHandler route handler =
     (case apply_parts op (route_parts route) newRoute of None \<Rightarrow> None | Some r \<Rightarrow> Some (setHandler handler r))"

record 'f http_service =
  hs_Route :: "'f route"
  hs_Handler :: bool

definition sd_HttpRule :: "(string list \<Rightarrow> smap option) \<Rightarrow> 'f http_service \<Rightarrow> http_rule_def option option" where
  "sd_HttpRule from_pairs sd =
     (if \<not> hs_Handler sd then Some None
      else (let r = hs_Route sd;
                patterns = (if rt_path r \<noteq> '''' then RegistryWithPath (rt_methods r) (rt_path r) else []);
                host = (if rt_hostTpl r \<noteq> '''' then [[(''Host'', rt_hostTpl r)]] else [])
            in case (if length (rt_headers r) \<noteq> 0 then map_option (\<lambda>m. host @ [m]) (from_pairs (rt_headers r)) else Some host) of
                 None \<Rightarrow> None
               | Some hm \<Rightarrow>
                   (case (if length (rt_headersRegexp r) \<noteq> 0 then map_option (\<lambda>m. [m]) (from_pairs (rt_headersRegexp r)) else Some []) of
                      None \<Rightarrow> None
                    | Some rm \<Rightarrow> Some (Some \<lparr>hr_HttpPatterns = patterns, hr_HeaderMap = hm, hr_HeaderRegexMap = rm\<rparr>))))"

fun http_HttpRules :: "(string list \<Rightarrow> smap option) \<Rightarrow> 'f http_service list \<Rightarrow> http_rule_def list option" where
  "http_HttpRules from_pairs [] = Some []"
| "http_HttpRules from_pairs (sd # sds) =
     (case sd_HttpRule from_pairs sd of
        None \<Rightarrow> None
      | Some rule \<Rightarrow>
          (case http_HttpRules from_pairs sds of
             None \<Rightarrow> None
           | Some rules \<Rightarrow> Some ((case rule of None \<Rightarrow> [] | Some r \<Rightarrow> [r]) @ rules)))"

section \<open>HTTP registration\<close>

record http_options =
  ho_EnableHttp :: bool
  ho_EnableGrpcWeb :: bool
  ho_WithTls :: bool
  ho_LegacyHttpRegistry :: bool

text \<open>What \<open>Prepare\<close> leaves in the two closures: the endpoint names and the metadata.\<close>

datatype prepared = NothingToRegister | Prepared "string list" string

definition http_Prepare where
  "http_Prepare marshal from_pairs skip opts muxRules httpServices grpcServices =
     (case (if ho_EnableHttp opts then map_option (\<lambda>rs. muxRules @ rs) (http_HttpRules from_pairs httpServices) else Some []) of
        None \<Rightarrow> None
      | Some rules1 \<Rightarrow>
          (let rules = rules1 @ (if ho_EnableGrpcWeb opts then grpc_HttpRules grpcServices else [])
           in if length rules = 0 \<or> skip then Some NothingToRegister
              else (case MarshalRegistryMeta marshal
                       \<lparr>rm_TlsServer = ho_WithTls opts,
                        rm_HttpPatterns = (if ho_LegacyHttpRegistry opts then concat (map hr_HttpPatterns rules) else []),
                        rm_Version = 0, rm_Type = RegistryType_Http, rm_HttpRules = map Some rules\<rparr> of
                      None \<Rightarrow> None
                    | Some metaJson \<Rightarrow>
                        Some (Prepared
                          (if ho_EnableGrpcWeb opts
                           then concat (map (\<lambda>sd. map (\<lambda>n. n @ ''.http.endpoint'') (service_names sd)) grpcServices) else [])
                          metaJson))))"

fun register_endpoints where
  "register_endpoints R marshal withTls addr [] s = (None, s)"
| "register_endpoints R marshal withTls addr (e # es) s =
     (case MarshalRegistryMeta marshal
        \<lparr>rm_TlsServer = withTls, rm_HttpPatterns = [], rm_Version = 0, rm_Type = RegistryType_Http_Endpoint, rm_HttpRules = []\<rparr> of
        None \<Rightarrow> (Some MarshalFailed, s)
      | Some json \<Rightarrow>
          (case ro_RegisterService R e addr (MetaString json) s of
             (Some err, s') \<Rightarrow> (Some (RegistryFailed err), s')
           | (None, s') \<Rightarrow> register_endpoints R marshal withTls addr es s'))"

definition http_RegisterServices where
  "http_RegisterServices R marshal withTls addr p s =
     (case p of
        NothingToRegister \<Rightarrow> (None, s)
      | Prepared endpoints metaJson \<Rightarrow>
          (case register_endpoints R marshal withTls addr endpoints s of
             (Some e, s') \<Rightarrow> (Some e, s')
           | (None, s') \<Rightarrow>
               (case ro_RegisterService R RegistryPrefix addr (MetaString metaJson) s' of
                  (Some err, s'') \<Rightarrow> (Some (RegistryFailed err), s'')
                | (None, s'') \<Rightarrow> (None, s''))))"

definition http_UnregisterServices where
  "http_UnregisterServices R addr p s =
     (case p of
        NothingToRegister \<Rightarrow> s
      | Prepared endpoints metaJson \<Rightarrow>
          ro_UnregisterService R RegistryPrefix addr (fold (\<lambda>e. ro_UnregisterService R e addr) endpoints s))"

section \<open>From the rules of a server to the matcher of a gateway\<close>

lemma set_slice_stable [simp]: "set (slice_stable lt xs) = set xs"
proof -
  have i: "set (insert_back lt x ys) = insert x (set ys)" for x ys by (induction ys) auto
  have "set (fold (insert_back lt) xs acc) = set xs \<union> set acc" for acc by (induction xs arbitrary: acc) (auto simp: i)
  then show ?thesis by (simp add: slice_stable_def)
qed

lemma generateKey_plain:
  "hr_HeaderRegexMap r = [] \<Longrightarrow> \<exists>k u. generateKey md5 mkregex r = Some (k, u) \<and> set (hu_patterns u) = set (hr_HttpPatterns r)"
  by (simp add: generateKey_def Let_def sort_strings_def)

text \<open>Rules with the same key have the same patterns: the keys tell the rules of the server apart.\<close>

definition keys_separate :: "(string \<Rightarrow> 'k) \<Rightarrow> (smap \<Rightarrow> smap option) \<Rightarrow> http_rule_def list \<Rightarrow> bool" where
  "keys_separate md5 mkregex rs \<longleftrightarrow>
     (\<forall>r \<in> set rs. \<forall>r' \<in> set rs. map_option fst (generateKey md5 mkregex r) = map_option fst (generateKey md5 mkregex r') \<longrightarrow>
        set (hr_HttpPatterns r) = set (hr_HttpPatterns r'))"

definition rules_of_server :: "(string \<Rightarrow> 'k) \<Rightarrow> (smap \<Rightarrow> smap option) \<Rightarrow> http_rule_def list \<Rightarrow> 'k rule_map \<Rightarrow> bool" where
  "rules_of_server md5 mkregex rs rules \<longleftrightarrow> wf_map rules \<and>
     (\<forall>k u. mget rules k = Some u \<longrightarrow> (\<exists>r \<in> set rs. map_option fst (generateKey md5 mkregex r) = Some k \<and> set (hu_patterns u) = set (hr_HttpPatterns r))) \<and>
     (\<forall>r \<in> set rs. \<exists>k. map_option fst (generateKey md5 mkregex r) = Some k \<and> mget rules k \<noteq> None)"

lemma AddHttpRule_server:
  assumes "rules_of_server md5 mkregex rs rules" and "hr_HeaderRegexMap r = []"
  shows "rules_of_server md5 mkregex (rs @ [r]) (AddHttpRule md5 mkregex (Some r) addr rules)"
proof -
  obtain k u where g: "generateKey md5 mkregex r = Some (k, u)" and u: "set (hu_patterns u) = set (hr_HttpPatterns r)"
    using generateKey_plain [OF assms(2), of md5 mkregex] by blast
  define v where "v = (let w = (case mget rules k of Some old \<Rightarrow> old | None \<Rightarrow> u); addrs = hu_addrs w @ [addr]
      in w\<lparr>hu_addrs := addrs, hu_picker := rr_build None addrs\<rparr>)"
  have add: "AddHttpRule md5 mkregex (Some r) addr rules = AList.update k v rules"
    by (simp add: AddHttpRule_def g v_def Let_def)
  have v: "\<exists>r' \<in> set (rs @ [r]). map_option fst (generateKey md5 mkregex r') = Some k \<and> set (hu_patterns v) = set (hr_HttpPatterns r')"
  proof (cases "mget rules k")
    case None
    then show ?thesis using g u by (intro bexI [of _ r]) (simp_all add: v_def Let_def)
  next
    case (Some old)
    then obtain r' where "r' \<in> set rs" "map_option fst (generateKey md5 mkregex r') = Some k" "set (hu_patterns old) = set (hr_HttpPatterns r')"
      using assms(1) unfolding rules_of_server_def by blast
    then show ?thesis using Some by (intro bexI [of _ r']) (simp_all add: v_def Let_def)
  qed
  show ?thesis
    unfolding rules_of_server_def add
  proof (intro conjI allI impI ballI)
    show "wf_map (AList.update k v rules)" using assms(1) by (simp add: rules_of_server_def)
  next
    fix k' w assume "mget (AList.update k v rules) k' = Some w"
    then consider "k' = k" "w = v" | "mget rules k' = Some w" by (cases "k' = k") simp_all
    then show "\<exists>r' \<in> set (rs @ [r]). map_option fst (generateKey md5 mkregex r') = Some k' \<and> set (hu_patterns w) = set (hr_HttpPatterns r')"
    proof cases
      case 2
      then obtain r' where "r' \<in> set rs" "map_option fst (generateKey md5 mkregex r') = Some k'" "set (hu_patterns w) = set (hr_HttpPatterns r')"
        using assms(1) unfolding rules_of_server_def by blast
      then show ?thesis by (intro bexI [of _ r']) simp_all
    qed (use v in simp)
  next
    fix r' assume "r' \<in> set (rs @ [r])"
    then consider "r' \<in> set rs" | "r' = r" by auto
    then show "\<exists>k'. map_option fst (generateKey md5 mkregex r') = Some k' \<and> mget (AList.update k v rules) k' \<noteq> None"
    proof cases
      case 1
      then obtain k' where "map_option fst (generateKey md5 mkregex r') = Some k'" "mget rules k' \<noteq> None"
        using assms(1) unfolding rules_of_server_def by blast
      then show ?thesis by (intro exI [of _ k']) simp
    qed (use g in simp)
  qed
qed

lemma fold_AddHttpRule_server:
  assumes "\<forall>r \<in> set rs. hr_HeaderRegexMap r = []" and "rules_of_server md5 mkregex done rules"
  shows "rules_of_server md5 mkregex (done @ rs) (fold (\<lambda>rule. AddHttpRule md5 mkregex rule addr) (map Some rs) rules)"
  using assms
proof (induction rs arbitrary: "done" rules)
  case (Cons r rs)
  have "rules_of_server md5 mkregex (done @ [r]) (AddHttpRule md5 mkregex (Some r) addr rules)"
    using AddHttpRule_server Cons.prems by fastforce
  from Cons.IH [OF _ this] Cons.prems(1) show ?case by simp
qed simp

lemma matcher_of_server:
  assumes "rules_of_server md5 mkregex rs rules" and "keys_separate md5 mkregex rs"
  shows "metas_at (matcher_of rules) cs \<noteq> [] \<longleftrightarrow> (\<exists>r \<in> set rs. Inr cs \<in> compile '''' ` set (hr_HttpPatterns r))"
proof -
  have wf: "wf_map rules" using assms(1) by (simp add: rules_of_server_def)
  have "metas_at (matcher_of rules) cs \<noteq> [] \<longleftrightarrow> (\<exists>k u. (k, u) \<in> set rules \<and> Inr cs \<in> compile '''' ` set (hu_patterns u))"
  proof -
    have "metas_for adds cs \<noteq> [] \<longleftrightarrow> (\<exists>mth pat x. (mth, pat, x) \<in> set adds \<and> compile mth pat = Inr cs)"
      for adds :: "(string \<times> string \<times> 'a meta) list"
      by (auto simp: metas_for_def filter_empty_conv)
    then show ?thesis by (simp add: matcher_of_def add_all_content image_iff) (metis case_prod_conv)
  qed
  also have "\<dots> \<longleftrightarrow> (\<exists>k u. mget rules k = Some u \<and> Inr cs \<in> compile '''' ` set (hu_patterns u))"
    using mget_in_set [OF wf] by simp
  also have "\<dots> \<longleftrightarrow> (\<exists>r \<in> set rs. Inr cs \<in> compile '''' ` set (hr_HttpPatterns r))" (is "?l = ?r")
  proof
    assume ?l
    then show ?r using assms(1) unfolding rules_of_server_def by metis
  next
    assume ?r
    then obtain r where r: "r \<in> set rs" "Inr cs \<in> compile '''' ` set (hr_HttpPatterns r)" by blast
    then obtain k u where k: "map_option fst (generateKey md5 mkregex r) = Some k" "mget rules k = Some u"
      using assms(1) unfolding rules_of_server_def by blast
    then obtain r' where "r' \<in> set rs" "map_option fst (generateKey md5 mkregex r') = Some k" "set (hu_patterns u) = set (hr_HttpPatterns r')"
      using assms(1) unfolding rules_of_server_def by blast
    then have "set (hu_patterns u) = set (hr_HttpPatterns r)" using assms(2) r(1) k(1) unfolding keys_separate_def by metis
    then show ?l using k r by metis
  qed
  finally show ?thesis .
qed

text \<open>With regular patterns a path is matched exactly if it matches one of the stored patterns.\<close>

lemma match_iff:
  assumes "\<And>p. metas_at t p \<noteq> [] \<Longrightarrow> regular p"
  shows "matchInternal cs t \<noteq> None \<longleftrightarrow> (\<exists>p. pmatch p cs \<and> metas_at t p \<noteq> [])"
proof
  assume "matchInternal cs t \<noteq> None"
  then obtain ms where m: "matchInternal cs t = Some ms" by blast
  from match_sound [OF m] match_nonempty(1) [OF m] show "\<exists>p. pmatch p cs \<and> metas_at t p \<noteq> []" by blast
next
  assume "\<exists>p. pmatch p cs \<and> metas_at t p \<noteq> []"
  then show "matchInternal cs t \<noteq> None" using match_complete assms by blast
qed

section \<open>One transport per service\<close>

text \<open>
  What the registration relies on: a listing shows the instances, and registering an instance changes at
  most that instance. \<open>look s n a\<close> is the metadata registered for the service \<open>n\<close> at the address \<open>a\<close>.
\<close>

locale service_registry =
  fixes R :: "('e, 's) registry_ops"
    and inv :: "'s \<Rightarrow> bool"
    and look :: "'s \<Rightarrow> string \<Rightarrow> string \<Rightarrow> meta_value option"
  assumes list_look: "inv s \<Longrightarrow> ro_ListAllService R s = Inr es \<Longrightarrow> look s n a = (case mget es n of None \<Rightarrow> None | Some is \<Rightarrow> mget is a)"
    and register_look: "ro_RegisterService R n a m s = (e, s') \<Longrightarrow>
      look s' n' a' = look s n' a' \<or> n' = n \<and> a' = a \<and> look s' n' a' = Some m"
    and register_inv: "inv s \<Longrightarrow> ro_RegisterService R n a m s = (e, s') \<Longrightarrow> inv s'"
    and unregister_inv: "inv s \<Longrightarrow> inv (ro_UnregisterService R n a s)"
    and unregister_look: "look (ro_UnregisterService R n a s) n' a' = look s n' a' \<or> look (ro_UnregisterService R n a s) n' a' = None"
begin

text \<open>All instances of a service whose metadata can be read use the same transport.\<close>

definition uniform :: "(string \<Rightarrow> reg_meta option) \<Rightarrow> 's \<Rightarrow> bool" where
  "uniform unmarshal s \<longleftrightarrow>
     (\<forall>n a b m m'. look s n a = Some m \<longrightarrow> look s n b = Some m' \<longrightarrow>
        (\<exists>t. \<not> conflicts unmarshal t (a, m) \<and> \<not> conflicts unmarshal t (b, m')))"

lemma conflicts_addr: "conflicts unmarshal t (a, m) = conflicts unmarshal t (b, m)"
  by (simp add: conflicts_def)

lemma register_names_inv: "inv s \<Longrightarrow> register_names R unmarshal withTls addr meta es ns s = (e, s') \<Longrightarrow> inv s'"
  by (induction ns arbitrary: s) (auto split: option.splits prod.splits dest: register_inv)

text \<open>During the loop, what differs from the listing are instances of the server itself, under names without a conflict.\<close>

lemma register_names_changes:
  assumes "register_names R unmarshal withTls addr meta es ns s1 = (e, s2)"
    and "\<And>n a m. look s1 n a = Some m \<Longrightarrow>
      look s0 n a = Some m \<or> m = meta \<and> (\<forall>is. mget es n = Some is \<longrightarrow> find (conflicts unmarshal withTls) is = None)"
    and "look s2 n a = Some m"
  shows "look s0 n a = Some m \<or> m = meta \<and> (\<forall>is. mget es n = Some is \<longrightarrow> find (conflicts unmarshal withTls) is = None)"
  using assms
proof (induction ns arbitrary: s1)
  case (Cons x xs)
  show ?case
  proof (cases "(case mget es x of None \<Rightarrow> None | Some is \<Rightarrow> find (conflicts unmarshal withTls) is)")
    case None
    then have ok: "\<forall>is. mget es x = Some is \<longrightarrow> find (conflicts unmarshal withTls) is = None" by (auto split: option.splits)
    obtain e1 s' where r: "ro_RegisterService R x addr meta s1 = (e1, s')" by (metis surj_pair)
    have step: "look s0 n a = Some m \<or> m = meta \<and> (\<forall>is. mget es n = Some is \<longrightarrow> find (conflicts unmarshal withTls) is = None)"
      if "look s' n a = Some m" for n a m
      using register_look [OF r, of n a] Cons.prems(2) that ok by fastforce
    show ?thesis
    proof (cases e1)
      case None
      then have "register_names R unmarshal withTls addr meta es xs s' = (e, s2)"
        using Cons.prems(1) r \<open>(case mget es x of None \<Rightarrow> None | Some is \<Rightarrow> find (conflicts unmarshal withTls) is) = None\<close> by simp
      then show ?thesis using Cons.IH [OF _ step] Cons.prems(3) by blast
    next
      case (Some err)
      then have "s2 = s'"
        using Cons.prems(1) r \<open>(case mget es x of None \<Rightarrow> None | Some is \<Rightarrow> find (conflicts unmarshal withTls) is) = None\<close> by simp
      then show ?thesis using step Cons.prems(3) by blast
    qed
  next
    case (Some i)
    then show ?thesis using Cons.prems by simp
  qed
qed simp

lemma find_conflicts_None: "find (conflicts unmarshal t) is = None \<Longrightarrow> mget is a = Some m \<Longrightarrow> \<not> conflicts unmarshal t (a, m)"
  by (auto simp: find_None_iff dest: map_of_SomeD)

lemma register_uniform:
  assumes "uniform unmarshal s" and "inv s" and "\<And>m j. marshal m = Some j \<Longrightarrow> unmarshal j = Some m"
    and "grpc_registerService R marshal unmarshal skip addr withTls sd s = (e, s')"
  shows "inv s' \<and> uniform unmarshal s'"
proof (cases "skip \<or> s' = s")
  case True
  then show ?thesis using assms by (auto simp: grpc_registerService_def)
next
  case False
  then obtain j es where j: "MarshalRegistryMeta marshal \<lparr>rm_TlsServer = withTls, rm_HttpPatterns = [], rm_Version = 0,
        rm_Type = RegistryType_Grpc, rm_HttpRules = []\<rparr> = Some j"
    and es: "ro_ListAllService R s = Inr es"
    and r: "register_names R unmarshal withTls addr (MetaString j) es (service_names sd) s = (e, s')"
    using assms(4) by (auto simp: grpc_registerService_def split: option.splits sum.splits)
  have own: "\<not> conflicts unmarshal withTls (a, MetaString j)" for a
    using j assms(3) by (auto simp: MarshalRegistryMeta_def UnmarshalRegistryMeta_def conflicts_def CurrentVersion_def)
  have new: "look s n a = Some m \<or> m = MetaString j \<and> (\<forall>is. mget es n = Some is \<longrightarrow> find (conflicts unmarshal withTls) is = None)"
    if "look s' n a = Some m" for n a m
    by (rule register_names_changes [OF r _ that]) blast
  have fine: "\<not> conflicts unmarshal withTls (a, m)"
    if "look s n a = Some m" and "\<forall>is. mget es n = Some is \<longrightarrow> find (conflicts unmarshal withTls) is = None" for n a m
    using that list_look [OF assms(2) es, of n a] find_conflicts_None by (auto split: option.splits)
  have "uniform unmarshal s'"
    unfolding uniform_def
  proof (intro allI impI)
    fix n a b m m' assume l: "look s' n a = Some m" and l': "look s' n b = Some m'"
    show "\<exists>t. \<not> conflicts unmarshal t (a, m) \<and> \<not> conflicts unmarshal t (b, m')"
    proof (cases "\<forall>is. mget es n = Some is \<longrightarrow> find (conflicts unmarshal withTls) is = None")
      case True
      have "\<not> conflicts unmarshal withTls (a, m)" and "\<not> conflicts unmarshal withTls (b, m')"
        using new [OF l] new [OF l'] own fine [OF _ True] by blast+
      then show ?thesis by blast
    next
      case False
      then have "look s n a = Some m" and "look s n b = Some m'" using new [OF l] new [OF l'] by blast+
      then show ?thesis using assms(1) unfolding uniform_def by blast
    qed
  qed
  with register_names_inv [OF assms(2) r] show ?thesis by blast
qed

lemma register_one:
  assumes "register_names R unmarshal withTls addr meta es [n] s = (e, s')"
  shows "s' = s \<or> (\<forall>is. mget es n = Some is \<longrightarrow> find (conflicts unmarshal withTls) is = None) \<and>
    (\<forall>n' a'. look s' n' a' = look s n' a' \<or> n' = n \<and> a' = addr \<and> look s' n' a' = Some meta)"
  using assms register_look [of n addr meta s] by (auto split: option.splits prod.splits)

lemma unregister_subset: "look (grpc_unregisterService R skip addr sd s) n a = Some m \<Longrightarrow> look s n a = Some m"
proof -
  have "look s n a = Some m" if "look (fold (\<lambda>n. ro_UnregisterService R n addr) ns s) n a = Some m" for ns s
    using that
  proof (induction ns arbitrary: s)
    case (Cons x xs)
    then have "look (ro_UnregisterService R x addr s) n a = Some m" by simp
    then show ?case using unregister_look [of x addr s n a] by simp
  qed simp
  then show "look (grpc_unregisterService R skip addr sd s) n a = Some m \<Longrightarrow> look s n a = Some m"
    by (auto simp: grpc_unregisterService_def split: if_splits)
qed

lemma unregister_keeps_inv: "inv s \<Longrightarrow> inv (grpc_unregisterService R skip addr sd s)"
proof -
  have "inv (fold (\<lambda>n. ro_UnregisterService R n addr) ns s)" if "inv s" for ns s
    using that by (induction ns arbitrary: s) (auto intro: unregister_inv)
  then show "inv s \<Longrightarrow> inv (grpc_unregisterService R skip addr sd s)" by (simp add: grpc_unregisterService_def)
qed

lemma unregister_uniform:
  assumes "uniform unmarshal s"
  shows "uniform unmarshal (grpc_unregisterService R skip addr sd s)"
proof -
  have one: "uniform unmarshal (ro_UnregisterService R n addr s)" if "uniform unmarshal s" for n s
    unfolding uniform_def
  proof (intro allI impI)
    fix k a b m m' assume "look (ro_UnregisterService R n addr s) k a = Some m" and "look (ro_UnregisterService R n addr s) k b = Some m'"
    then have "look s k a = Some m" and "look s k b = Some m'"
      using unregister_look [of n addr s k a] unregister_look [of n addr s k b] by auto
    then show "\<exists>t. \<not> conflicts unmarshal t (a, m) \<and> \<not> conflicts unmarshal t (b, m')" using that unfolding uniform_def by blast
  qed
  have "uniform unmarshal (fold (\<lambda>n. ro_UnregisterService R n addr) ns s)" if "uniform unmarshal s" for ns s
    using that by (induction ns arbitrary: s) (auto intro: one)
  then show ?thesis using assms by (simp add: grpc_unregisterService_def)
qed

end

text \<open>The in-memory registry.\<close>

definition memory_ops :: "(unit, (meta_value, 'w) memory_discovery) registry_ops" where
  "memory_ops =
     \<lparr>ro_RegisterService = (\<lambda>n a m d. (None, fst (RegisterService n a m d))),
      ro_UnregisterService = (\<lambda>n a d. fst (UnregisterService n a d)),
      ro_ListAllService = (\<lambda>d. Inr (ListAllService d))\<rparr>"

definition memory_look :: "(meta_value, 'w) memory_discovery \<Rightarrow> string \<Rightarrow> string \<Rightarrow> meta_value option" where
  "memory_look d n a = (case mget (md_entries d) n of None \<Rightarrow> None | Some im \<Rightarrow> mget im a)"

lemma mget_filter_nonempty:
  assumes "wf_map es"
  shows "mget (filter (\<lambda>(s, im). im \<noteq> []) es) n = (case mget es n of None \<Rightarrow> None | Some im \<Rightarrow> if im = [] then None else Some im)"
  using assms
proof (induction es)
  case (Cons e es)
  then have "fst e \<noteq> n \<or> mget es n = None" by (cases e) (auto simp: mget_None_iff)
  then show ?case using Cons by (cases e) (auto split: option.splits)
qed simp

interpretation memory_registry: service_registry memory_ops reg_inv memory_look
proof
  fix d :: "(meta_value, 'w) memory_discovery" and es n a
  assume "reg_inv d" and "ro_ListAllService memory_ops d = Inr es"
  then have "es = filter (\<lambda>(s, im). im \<noteq> []) (md_entries d)" and "wf_map (md_entries d)"
    by (auto simp: memory_ops_def ListAllService_def reg_inv_def entries_ok_def)
  then show "memory_look d n a = (case mget es n of None \<Rightarrow> None | Some is \<Rightarrow> mget is a)"
    by (simp add: mget_filter_nonempty memory_look_def split: option.split)
next
  fix n a m n' a' e and d d' :: "(meta_value, 'w) memory_discovery"
  assume "ro_RegisterService memory_ops n a m d = (e, d')"
  then show "memory_look d' n' a' = memory_look d n' a' \<or> n' = n \<and> a' = a \<and> memory_look d' n' a' = Some m"
    by (cases "n' = n"; cases "mget (md_entries d) n") (auto simp: memory_ops_def RegisterService_def memory_look_def Let_def split: if_splits)
next
  fix n a m e and d d' :: "(meta_value, 'w) memory_discovery"
  assume "reg_inv d" and "ro_RegisterService memory_ops n a m d = (e, d')"
  then show "reg_inv d'" using reg_step_inv [of d "OpRegister n a m"] by (simp add: memory_ops_def)
next
  fix n a and d :: "(meta_value, 'w) memory_discovery"
  assume "reg_inv d"
  then show "reg_inv (ro_UnregisterService memory_ops n a d)" using reg_step_inv [of d "OpUnregister n a"] by (simp add: memory_ops_def)
next
  fix n a n' a' and d :: "(meta_value, 'w) memory_discovery"
  show "memory_look (ro_UnregisterService memory_ops n a d) n' a' = memory_look d n' a' \<or>
    memory_look (ro_UnregisterService memory_ops n a d) n' a' = None"
    by (auto simp: memory_ops_def UnregisterService_def memory_look_def put_service_def Let_def split: option.splits prod.splits)
qed

end
