(* ===== verification/Gateway.thy ===== *)
theory Gateway
  imports Server_Announce
begin

text \<open>
  What a server announces in the registry and what a gateway reads there, put together: the rules that the discovery of
  a gateway (theory Discovery) collects from the in-memory registry are those the server has registered
  (\<^verbatim>\<open>server/internal/http_server\<close>). The theorem on the two is in the root theory; here are its lemmas and an example.
\<close>

section \<open>Rules of a server\<close>

definition regular_rules :: "http_rule_def list \<Rightarrow> bool" where
  "regular_rules rs \<longleftrightarrow>
     list_all (\<lambda>r. list_all (\<lambda>pat. case compile '''' pat of Inr cs \<Rightarrow> regular cs | Inl _ \<Rightarrow> True) (hr_HttpPatterns r)) rs"

lemma regular_rulesD:
  "regular_rules rs \<Longrightarrow> r \<in> set rs \<Longrightarrow> Inr cs \<in> compile '''' ` set (hr_HttpPatterns r) \<Longrightarrow> regular cs"
  by (fastforce simp: regular_rules_def list_all_iff split: sum.splits)

lemma gateway_rules:
  fixes d :: "(meta_value, 'w) memory_discovery"
  assumes json: "\<And>m j. marshal m = Some j \<Longrightarrow> unmarshal j = Some m"
    and prep: "http_Prepare marshal from_pairs False opts rs [] descs = Some p" "ho_EnableHttp opts" "\<not> ho_EnableGrpcWeb opts"
    and reg: "http_RegisterServices memory_ops marshal (ho_WithTls opts) addr p NewMemoryServiceDiscovery = (None, d)"
    and plain: "\<forall>r \<in> set rs. hr_HeaderRegexMap r = []"
  shows "rules_of_server md5 mkregex rs (rules_of unmarshal md5 mkregex (ListAllService d))"
proof (cases "rs = []")
  case True
  then have "d = NewMemoryServiceDiscovery" using prep reg by (simp add: http_Prepare_def http_RegisterServices_def)
  then show ?thesis using True
    by (simp add: ListAllService_def NewMemoryServiceDiscovery_def rules_of_def rules_of_server_def)
next
  case False
  let ?m = "\<lparr>rm_TlsServer = ho_WithTls opts, rm_HttpPatterns = (if ho_LegacyHttpRegistry opts then concat (map hr_HttpPatterns rs) else []),
      rm_Version = CurrentVersion, rm_Type = RegistryType_Http, rm_HttpRules = map Some rs\<rparr>"
  obtain j where j: "marshal ?m = Some j" and p: "p = Prepared [] j"
    using prep False by (auto simp: http_Prepare_def MarshalRegistryMeta_def Let_def split: option.splits)
  have "ListAllService d = [(RegistryPrefix, [(addr, MetaString j)])]"
    using reg by (auto simp: p http_RegisterServices_def memory_ops_def RegisterService_def NewMemoryServiceDiscovery_def ListAllService_def)
  moreover have "instance_rules RegistryPrefix ?m = map Some rs"
    by (simp add: instance_rules_def CurrentVersion_def RegistryType_Http_def RegistryType_Http_Endpoint_def)
  ultimately have "rules_of unmarshal md5 mkregex (ListAllService d) =
      fold (\<lambda>rule. AddHttpRule md5 mkregex rule (addr, ho_WithTls opts)) (map Some rs) []"
    using json [OF j] by (simp add: rules_of_def add_instance_def UnmarshalRegistryMeta_def CurrentVersion_def)
  moreover have "rules_of_server md5 mkregex [] []" by (simp add: rules_of_server_def)
  ultimately show ?thesis using fold_AddHttpRule_server [OF plain, of md5 mkregex "[]" "[]"] by simp
qed

section \<open>An example\<close>

definition gw_options :: http_options where
  "gw_options = \<lparr>ho_EnableHttp = True, ho_EnableGrpcWeb = False, ho_WithTls = False, ho_LegacyHttpRegistry = False\<rparr>"

definition gw_meta :: reg_meta where
  "gw_meta = \<lparr>rm_TlsServer = False, rm_HttpPatterns = [], rm_Version = 3, rm_Type = 2, rm_HttpRules = map Some (mx_HttpRules demo_mux)\<rparr>"

definition gw_marshal :: "reg_meta \<Rightarrow> string option" where
  "gw_marshal m = (if m = gw_meta then Some ''j'' else None)"

definition gw_unmarshal :: "string \<Rightarrow> reg_meta option" where
  "gw_unmarshal j = (if j = ''j'' then Some gw_meta else None)"

definition gw_registry :: "(meta_value, unit) memory_discovery" where
  "gw_registry = snd (http_RegisterServices memory_ops gw_marshal False ''a:80'' (Prepared [] ''j'') NewMemoryServiceDiscovery)"

lemma gw_rules: "mx_HttpRules demo_mux \<noteq> []" by code_simp

lemma gw_prepared:
  "http_Prepare gw_marshal (\<lambda>_. None) False gw_options (mx_HttpRules demo_mux) ([] :: unit http_service list) demo_services =
     Some (Prepared [] ''j'')"
  using gw_rules
  by (simp add: http_Prepare_def gw_options_def gw_marshal_def gw_meta_def MarshalRegistryMeta_def CurrentVersion_def RegistryType_Http_def)

lemma gw_regular: "regular_rules (mx_HttpRules demo_mux)" by code_simp

lemma gw_separate: "keys_separate (\<lambda>t. t) Some (mx_HttpRules demo_mux)" by code_simp

lemma gw_matches: "matchInternal [''get'', ''v1'', ''x''] (mx_ruleMatcher demo_mux) \<noteq> None" by code_simp

end
