(* ===== verification/Announcing.thy ===== *)
theory Announcing
  imports Server_Announce
begin

text \<open>
  Servers that announce their gRPC services at the same time. \<open>registerService\<close>
  (\<^verbatim>\<open>server/internal/grpc_server/description.go\<close>) lists the registry once, without a lock, and then checks and registers
  one name after the other against that listing. Here the listing and every registration is a step of its own, and the
  steps of several servers and withdrawals come in any order. A server without a registry, or with the address of a pipe,
  takes no step at all.
\<close>

section \<open>Steps of several servers\<close>

text \<open>
  A server: its address, transport and metadata, the names it has still to register, the listing it made, and whether
  another server has registered something since. The last is not in the program: it says when registrations overlap.
\<close>

record announcer =
  an_addr :: string
  an_tls :: bool
  an_json :: string
  an_names :: "string list"
  an_entries :: "(string \<times> meta_value inst list) list option"
  an_stale :: bool

record 'w announce_state =
  am_registry :: "(meta_value, 'w) memory_discovery"
  am_servers :: "announcer list"
  am_overlap :: bool

datatype 'h announce_event =
    Start string bool "'h grpc_service"
  | ListAll nat
  | RegisterNext nat
  | Withdraw string "'h grpc_service"

definition announce_start :: "'w announce_state" where
  "announce_start = \<lparr>am_registry = NewMemoryServiceDiscovery, am_servers = [], am_overlap = False\<rparr>"

definition mark_stale :: "nat \<Rightarrow> announcer list \<Rightarrow> announcer list" where
  "mark_stale i ans = map (\<lambda>(j, an). if j = i then an else an\<lparr>an_stale := True\<rparr>) (enumerate 0 ans)"

text \<open>One round of the loop over the names; an error ends it.\<close>

definition register_next :: "(string \<Rightarrow> reg_meta option) \<Rightarrow> nat \<Rightarrow> 'w announce_state \<Rightarrow> 'w announce_state" where
  "register_next unmarshal i st =
     (let an = am_servers st ! i
      in case (an_entries an, an_names an) of
           (Some es, n # ns) \<Rightarrow>
             (case register_names memory_ops unmarshal (an_tls an) (an_addr an) (MetaString (an_json an)) es [n] (am_registry st) of
                (Some e, d) \<Rightarrow> st\<lparr>am_registry := d, am_servers := (am_servers st)[i := an\<lparr>an_names := []\<rparr>]\<rparr>
              | (None, d) \<Rightarrow>
                  st\<lparr>am_registry := d, am_servers := mark_stale i ((am_servers st)[i := an\<lparr>an_names := ns\<rparr>]),
                     am_overlap := am_overlap st \<or> an_stale an\<rparr>)
         | _ \<Rightarrow> st)"

fun announce_step ::
  "(reg_meta \<Rightarrow> string option) \<Rightarrow> (string \<Rightarrow> reg_meta option) \<Rightarrow> 'h announce_event \<Rightarrow> 'w announce_state \<Rightarrow> 'w announce_state" where
  "announce_step marshal unmarshal (Start addr withTls sd) st =
     (case MarshalRegistryMeta marshal
        \<lparr>rm_TlsServer = withTls, rm_HttpPatterns = [], rm_Version = 0, rm_Type = RegistryType_Grpc, rm_HttpRules = []\<rparr> of
        None \<Rightarrow> st
      | Some json \<Rightarrow>
          st\<lparr>am_servers := am_servers st @ [\<lparr>an_addr = addr, an_tls = withTls, an_json = json, an_names = service_names sd,
             an_entries = None, an_stale = False\<rparr>]\<rparr>)"
| "announce_step marshal unmarshal (ListAll i) st =
     (if i < length (am_servers st) \<and> an_entries (am_servers st ! i) = None
      then st\<lparr>am_servers := (am_servers st)[i := (am_servers st ! i)\<lparr>an_entries := Some (ListAllService (am_registry st)), an_stale := False\<rparr>]\<rparr>
      else st)"
| "announce_step marshal unmarshal (RegisterNext i) st = (if i < length (am_servers st) then register_next unmarshal i st else st)"
| "announce_step marshal unmarshal (Withdraw addr sd) st =
     st\<lparr>am_registry := grpc_unregisterService memory_ops False addr sd (am_registry st)\<rparr>"

definition announce_run where
  "announce_run marshal unmarshal evs st = fold (announce_step marshal unmarshal) evs st"

section \<open>What a listing tells\<close>

text \<open>
  As long as no other server has registered since a server listed the registry, everything there is in its listing or
  was registered by itself.
\<close>

definition informed :: "(meta_value, 'w) memory_discovery \<Rightarrow> announcer \<Rightarrow> bool" where
  "informed d an \<longleftrightarrow>
     (\<forall>es. an_entries an = Some es \<longrightarrow> an_stale an \<or>
        (\<forall>n a m. memory_look d n a = Some m \<longrightarrow>
           m = MetaString (an_json an) \<or> (case mget es n of None \<Rightarrow> False | Some is \<Rightarrow> mget is a = Some m)))"

definition own_transport :: "(string \<Rightarrow> reg_meta option) \<Rightarrow> announcer \<Rightarrow> bool" where
  "own_transport unmarshal an \<longleftrightarrow> (\<forall>a. \<not> conflicts unmarshal (an_tls an) (a, MetaString (an_json an)))"

definition announce_inv :: "(string \<Rightarrow> reg_meta option) \<Rightarrow> 'w announce_state \<Rightarrow> bool" where
  "announce_inv unmarshal st \<longleftrightarrow>
     reg_inv (am_registry st) \<and> (am_overlap st \<or> memory_registry.uniform unmarshal (am_registry st)) \<and>
     (\<forall>an \<in> set (am_servers st). own_transport unmarshal an \<and> informed (am_registry st) an)"

lemma set_mark_stale:
  "an \<in> set (mark_stale i ans) \<Longrightarrow>
     (i < length ans \<and> an = ans ! i) \<or> (\<exists>an' \<in> set ans. an = an'\<lparr>an_stale := True\<rparr>)"
proof -
  assume "an \<in> set (mark_stale i ans)"
  then obtain j where j: "j < length ans" and an: "an = (if j = i then ans ! j else (ans ! j)\<lparr>an_stale := True\<rparr>)"
    by (auto simp: mark_stale_def in_set_conv_nth nth_enumerate_eq)
  then show ?thesis by (cases "j = i") auto
qed

lemma informed_stale: "informed d (an\<lparr>an_stale := True\<rparr>)"
  by (simp add: informed_def)

lemma informed_subset:
  assumes "informed d an" and "\<And>n a m. memory_look d' n a = Some m \<Longrightarrow> memory_look d n a = Some m"
  shows "informed d' an"
  using assms unfolding informed_def by blast

lemma informed_register:
  assumes inf: "informed d an"
    and look: "\<forall>n a. memory_look d' n a = memory_look d n a \<or> memory_look d' n a = Some (MetaString (an_json an))"
  shows "informed d' an"
  unfolding informed_def
proof (intro allI impI)
  fix es assume es: "an_entries an = Some es"
  have "m = MetaString (an_json an) \<or> (case mget es n of None \<Rightarrow> False | Some is \<Rightarrow> mget is a = Some m)"
    if "memory_look d' n a = Some m" "\<not> an_stale an" for n a m
  proof (cases "memory_look d' n a = memory_look d n a")
    case True
    then show ?thesis using that inf es unfolding informed_def by simp
  next
    case False
    then have "memory_look d' n a = Some (MetaString (an_json an))" using look by blast
    then show ?thesis using that(1) by simp
  qed
  then show "an_stale an \<or> (\<forall>n a m. memory_look d' n a = Some m \<longrightarrow>
      m = MetaString (an_json an) \<or> (case mget es n of None \<Rightarrow> False | Some is \<Rightarrow> mget is a = Some m))" by blast
qed

lemma register_one_uniform:
  assumes u: "memory_registry.uniform unmarshal d" and own: "own_transport unmarshal an" and inf: "informed d an" "\<not> an_stale an"
    and es: "an_entries an = Some es"
    and ok: "\<forall>is. mget es n = Some is \<longrightarrow> find (conflicts unmarshal (an_tls an)) is = None"
    and look: "\<forall>n' a'. memory_look d' n' a' = memory_look d n' a' \<or>
      n' = n \<and> a' = an_addr an \<and> memory_look d' n' a' = Some (MetaString (an_json an))"
  shows "memory_registry.uniform unmarshal d'"
  unfolding memory_registry.uniform_def
proof (intro allI impI)
  fix k a b m m' assume l: "memory_look d' k a = Some m" and l': "memory_look d' k b = Some m'"
  have fine: "\<not> conflicts unmarshal (an_tls an) (x, v)" if "memory_look d' n x = Some v" for x v
  proof -
    have "v = MetaString (an_json an) \<or> (\<exists>is. mget es n = Some is \<and> mget is x = Some v)"
    proof -
      have "informed d' an" by (rule informed_register [OF inf(1)]) (use look in blast)
      then have "v = MetaString (an_json an) \<or> (case mget es n of None \<Rightarrow> False | Some is \<Rightarrow> mget is x = Some v)"
        using that es inf(2) unfolding informed_def by blast
      then show ?thesis by (auto split: option.splits)
    qed
    then show ?thesis using own ok memory_registry.find_conflicts_None by (auto simp: own_transport_def)
  qed
  show "\<exists>t. \<not> conflicts unmarshal t (a, m) \<and> \<not> conflicts unmarshal t (b, m')"
  proof (cases "k = n")
    case True
    then show ?thesis using fine l l' by blast
  next
    case False
    then have "memory_look d k a = Some m" "memory_look d k b = Some m'" using l l' look by metis+
    then show ?thesis using u unfolding memory_registry.uniform_def by blast
  qed
qed

lemma register_next_inv:
  assumes inv: "announce_inv unmarshal st" and i: "i < length (am_servers st)"
  shows "announce_inv unmarshal (register_next unmarshal i st)"
proof -
  let ?an = "am_servers st ! i" and ?d = "am_registry st"
  have mem: "?an \<in> set (am_servers st)" using i by simp
  then have own: "own_transport unmarshal ?an" and inf: "informed ?d ?an" and rinv: "reg_inv ?d"
    using inv by (auto simp: announce_inv_def)
  show ?thesis
  proof (cases "an_entries ?an = None \<or> an_names ?an = []")
    case True
    then have "register_next unmarshal i st = st" by (auto simp: register_next_def Let_def split: option.splits list.splits)
    then show ?thesis using inv by simp
  next
    case False
    then obtain es n ns where es: "an_entries ?an = Some es" and names: "an_names ?an = n # ns" by (meson list.exhaust not_None_eq)
    obtain e d' where r: "register_names memory_ops unmarshal (an_tls ?an) (an_addr ?an) (MetaString (an_json ?an)) es [n] ?d = (e, d')"
      by fastforce
    have rinv': "reg_inv d'" by (rule memory_registry.register_names_inv [OF rinv r])
    note one = memory_registry.register_one [OF r]
    show ?thesis
    proof (cases e)
      case (Some err)
      have "d' = ?d" using r Some by (auto simp: memory_ops_def split: option.splits)
      moreover have "own_transport unmarshal (?an\<lparr>an_names := []\<rparr>)" "informed ?d (?an\<lparr>an_names := []\<rparr>)"
        using own inf by (simp_all add: own_transport_def informed_def)
      ultimately show ?thesis
        using inv es names r Some
        by (auto simp: register_next_def announce_inv_def Let_def dest!: set_update_subset_insert [THEN subsetD])
    next
      case None
      have new: "d' = ?d \<or> (\<forall>is. mget es n = Some is \<longrightarrow> find (conflicts unmarshal (an_tls ?an)) is = None)"
        and look: "\<forall>n' a'. memory_look d' n' a' = memory_look ?d n' a' \<or>
          n' = n \<and> a' = an_addr ?an \<and> memory_look d' n' a' = Some (MetaString (an_json ?an))"
        using one by auto
      have uni: "memory_registry.uniform unmarshal d'" if "\<not> am_overlap st" "\<not> an_stale ?an"
      proof -
        have "memory_registry.uniform unmarshal ?d" using inv that(1) by (simp add: announce_inv_def)
        then show ?thesis using new register_one_uniform [OF _ own inf that(2) es _ look] by blast
      qed
      let ?an' = "?an\<lparr>an_names := ns\<rparr>"
      have own': "own_transport unmarshal ?an'" using own by (simp add: own_transport_def)
      have "informed d' ?an" by (rule informed_register [OF inf]) (use look in blast)
      then have inf': "informed d' ?an'" by (simp add: informed_def)
      have srv: "own_transport unmarshal x \<and> informed d' x" if "x \<in> set (mark_stale i ((am_servers st)[i := ?an']))" for x
      proof -
        have "x = ?an' \<or> (\<exists>y \<in> set ((am_servers st)[i := ?an']). x = y\<lparr>an_stale := True\<rparr>)"
          using set_mark_stale [OF that] i by auto
        then show ?thesis
        proof
          assume "\<exists>y \<in> set ((am_servers st)[i := ?an']). x = y\<lparr>an_stale := True\<rparr>"
          then obtain y where y: "y \<in> set ((am_servers st)[i := ?an'])" and x: "x = y\<lparr>an_stale := True\<rparr>" ..
          have "own_transport unmarshal y"
            using y own' inv set_update_subset_insert [of "am_servers st" i ?an'] by (auto simp: announce_inv_def)
          then show ?thesis using x informed_stale by (simp add: own_transport_def)
        qed (use own' inf' in simp)
      qed
      have eq: "register_next unmarshal i st =
          st\<lparr>am_registry := d', am_servers := mark_stale i ((am_servers st)[i := ?an']), am_overlap := am_overlap st \<or> an_stale ?an\<rparr>"
        using es names r None by (simp add: register_next_def Let_def)
      show ?thesis unfolding eq announce_inv_def using rinv' uni srv by auto
    qed
  qed
qed

lemma announce_step_inv:
  assumes json: "\<And>m j. marshal m = Some j \<Longrightarrow> unmarshal j = Some m" and inv: "announce_inv unmarshal st"
  shows "announce_inv unmarshal (announce_step marshal unmarshal ev st)"
proof (cases ev)
  case (Start addr withTls sd)
  have "own_transport unmarshal \<lparr>an_addr = addr, an_tls = withTls, an_json = j, an_names = ns, an_entries = None, an_stale = False\<rparr>"
    if "MarshalRegistryMeta marshal \<lparr>rm_TlsServer = withTls, rm_HttpPatterns = [], rm_Version = 0, rm_Type = RegistryType_Grpc, rm_HttpRules = []\<rparr> = Some j"
    for j ns
    using that json by (auto simp: own_transport_def MarshalRegistryMeta_def UnmarshalRegistryMeta_def conflicts_def CurrentVersion_def)
  then show ?thesis using inv Start by (auto simp: announce_inv_def informed_def split: option.split)
next
  case (ListAll i)
  let ?an = "(am_servers st ! i)\<lparr>an_entries := Some (ListAllService (am_registry st)), an_stale := False\<rparr>"
  show ?thesis
  proof (cases "i < length (am_servers st) \<and> an_entries (am_servers st ! i) = None")
    case True
    have r: "reg_inv (am_registry st)" using inv by (simp add: announce_inv_def)
    have "informed (am_registry st) ?an"
      using memory_registry.list_look [OF r, of "ListAllService (am_registry st)"]
      by (auto simp: informed_def memory_ops_def split: option.splits)
    moreover have "own_transport unmarshal ?an" using inv True by (auto simp: announce_inv_def own_transport_def)
    ultimately show ?thesis
      using inv True ListAll by (auto simp: announce_inv_def dest!: set_update_subset_insert [THEN subsetD])
  next
    case False
    then have "announce_step marshal unmarshal ev st = st" using ListAll by auto
    then show ?thesis using inv by simp
  qed
next
  case (RegisterNext i)
  then show ?thesis using inv register_next_inv by auto
next
  case (Withdraw addr sd)
  let ?d = "grpc_unregisterService memory_ops False addr sd (am_registry st)"
  have "informed ?d an" if "informed (am_registry st) an" for an
    using informed_subset [OF that] memory_registry.unregister_subset by blast
  then show ?thesis
    using inv Withdraw
    by (auto simp: announce_inv_def memory_registry.unregister_keeps_inv memory_registry.unregister_uniform)
qed

lemma announce_run_inv:
  assumes "\<And>m j. marshal m = Some j \<Longrightarrow> unmarshal j = Some m"
  shows "announce_inv unmarshal (announce_run marshal unmarshal evs announce_start)"
proof -
  have "announce_inv unmarshal (announce_start :: 'w announce_state)"
    by (simp add: announce_inv_def announce_start_def NewMemoryServiceDiscovery_inv)
      (simp add: memory_registry.uniform_def memory_look_def NewMemoryServiceDiscovery_def)
  moreover have "announce_inv unmarshal st \<Longrightarrow> announce_inv unmarshal (fold (announce_step marshal unmarshal) evs st)" for st :: "'w announce_state"
    by (induction evs arbitrary: st) (auto intro: announce_step_inv [of marshal unmarshal, OF assms])
  ultimately show ?thesis by (simp add: announce_run_def)
qed

section \<open>One transport\<close>

text \<open>
  C17 (one transport per service). Servers register and withdraw their gRPC services in an in-memory registry that was
  empty, in any interleaving of their steps. Unless registrations have overlapped, that is, unless a server has registered
  a name although another one had registered something since it listed the registry, all instances of a service announce
  the same transport: no client finds a service partly with TLS and partly without. \<open>json.Marshal\<close> is assumed to be
  undone by \<open>json.Unmarshal\<close>.
\<close>

theorem one_transport_per_service:
  fixes st :: "'w announce_state"
  assumes "\<And>m j. marshal m = Some j \<Longrightarrow> unmarshal j = Some m"
    and "st = announce_run marshal unmarshal evs announce_start" and "\<not> am_overlap st"
    and "memory_look (am_registry st) n a = Some (MetaString j)" and "memory_look (am_registry st) n b = Some (MetaString j')"
    and "UnmarshalRegistryMeta unmarshal j = Some m" and "UnmarshalRegistryMeta unmarshal j' = Some m'"
  shows "rm_TlsServer m = rm_TlsServer m'"
proof -
  have "memory_registry.uniform unmarshal (am_registry st)"
    using announce_run_inv [of marshal unmarshal evs, OF assms(1)] assms(2,3) by (auto simp: announce_inv_def)
  then obtain t where "\<not> conflicts unmarshal t (a, MetaString j)" and "\<not> conflicts unmarshal t (b, MetaString j')"
    using assms(4,5) unfolding memory_registry.uniform_def by blast
  then show ?thesis using assms(6,7) by (simp add: conflicts_def)
qed

definition demo_marshal :: "reg_meta \<Rightarrow> string option" where
  "demo_marshal m =
     (if m = \<lparr>rm_TlsServer = True, rm_HttpPatterns = [], rm_Version = 3, rm_Type = 1, rm_HttpRules = []\<rparr> then Some ''tls''
      else if m = \<lparr>rm_TlsServer = False, rm_HttpPatterns = [], rm_Version = 3, rm_Type = 1, rm_HttpRules = []\<rparr> then Some ''plain''
      else None)"

definition demo_unmarshal :: "string \<Rightarrow> reg_meta option" where
  "demo_unmarshal j =
     (if j = ''tls'' then Some \<lparr>rm_TlsServer = True, rm_HttpPatterns = [], rm_Version = 3, rm_Type = 1, rm_HttpRules = []\<rparr>
      else if j = ''plain'' then Some \<lparr>rm_TlsServer = False, rm_HttpPatterns = [], rm_Version = 3, rm_Type = 1, rm_HttpRules = []\<rparr>
      else None)"

definition demo_service :: "unit grpc_service" where
  "demo_service = \<lparr>gs_ServiceName = ''s'', gs_Alias = [], gs_HttpParameterHandler = []\<rparr>"

definition demo_events :: "unit announce_event list" where
  "demo_events =
     [Start ''a:1'' True demo_service, Start ''b:1'' False demo_service, Start ''c:1'' True demo_service,
      ListAll 0, RegisterNext 0, ListAll 1, RegisterNext 1, ListAll 2, RegisterNext 2]"

definition demo_state :: "unit announce_state" where
  "demo_state = announce_run demo_marshal demo_unmarshal demo_events announce_start"

theorem one_transport_per_service_witness:
  "memory_look (am_registry demo_state) ''s'' ''b:1'' = None \<and>
   (\<exists>j j' m m'. memory_look (am_registry demo_state) ''s'' ''a:1'' = Some (MetaString j) \<and>
      memory_look (am_registry demo_state) ''s'' ''c:1'' = Some (MetaString j') \<and>
      UnmarshalRegistryMeta demo_unmarshal j = Some m \<and> UnmarshalRegistryMeta demo_unmarshal j' = Some m' \<and> rm_TlsServer m = rm_TlsServer m')"
proof -
  have j: "demo_unmarshal j = Some m" if "demo_marshal m = Some j" for m j
    using that by (auto simp: demo_marshal_def demo_unmarshal_def split: if_splits)
  have o: "\<not> am_overlap demo_state" by code_simp
  have a: "memory_look (am_registry demo_state) ''s'' ''a:1'' = Some (MetaString ''tls'')" by code_simp
  have c: "memory_look (am_registry demo_state) ''s'' ''c:1'' = Some (MetaString ''tls'')" by code_simp
  have b: "memory_look (am_registry demo_state) ''s'' ''b:1'' = None" by code_simp
  have "UnmarshalRegistryMeta demo_unmarshal ''tls'' \<noteq> None" by code_simp
  then obtain m where m: "UnmarshalRegistryMeta demo_unmarshal ''tls'' = Some m" by blast
  from one_transport_per_service [OF j demo_state_def o a c m m] a b c m show ?thesis by blast
qed

text \<open>
  Registrations that overlap: two servers list the empty registry and then both register, one with TLS and one without.
\<close>

theorem overlapping_registrations_conflict:
  "let st = announce_run demo_marshal demo_unmarshal
         [Start ''a:1'' True demo_service, Start ''b:1'' False demo_service, ListAll 0, ListAll 1, RegisterNext 0, RegisterNext 1]
         (announce_start :: unit announce_state)
   in memory_look (am_registry st) ''s'' ''a:1'' = Some (MetaString ''tls'') \<and>
      memory_look (am_registry st) ''s'' ''b:1'' = Some (MetaString ''plain'') \<and> am_overlap st"
  by code_simp

text \<open>A server that runs alone takes the steps that \<open>registerService\<close> takes.\<close>

lemma register_names_stepwise:
  "register_names R unmarshal t addr meta es (n # ns) s =
     (case register_names R unmarshal t addr meta es [n] s of
        (Some e, s') \<Rightarrow> (Some e, s')
      | (None, s') \<Rightarrow> register_names R unmarshal t addr meta es ns s')"
  by (auto split: option.split prod.split)

end
