(* ===== verification/Metadata.thy ===== *)
theory Metadata
  imports Prelude
begin

text \<open>
  The metadata of a call, as the package \<open>google.golang.org/grpc/metadata\<close> provides it: a type and its
  operations, which are arguments of the definitions that use them. \<open>md_laws\<close> is what that package documents:
  keys are compared without regard to case, and setting or appending a key does not touch the others.
\<close>

record 'md md_ops =
  md_New :: 'md
  md_Get :: "'md \<Rightarrow> string \<Rightarrow> string list"
  md_Set :: "string \<Rightarrow> string list \<Rightarrow> 'md \<Rightarrow> 'md"
  md_Append :: "string \<Rightarrow> string list \<Rightarrow> 'md \<Rightarrow> 'md"

definition md_laws :: "'md md_ops \<Rightarrow> bool" where
  "md_laws M \<longleftrightarrow>
     (\<forall>k. md_Get M (md_New M) k = []) \<and>
     (\<forall>m k k' vs. vs \<noteq> [] \<or> to_lower k' \<noteq> to_lower k \<longrightarrow>
        md_Get M (md_Set M k vs m) k' = (if to_lower k' = to_lower k then vs else md_Get M m k')) \<and>
     (\<forall>m k k' vs. md_Get M (md_Append M k vs m) k' = (if to_lower k' = to_lower k then md_Get M m k' @ vs else md_Get M m k'))"

lemma md_Get_Set:
  "md_laws M \<Longrightarrow> vs \<noteq> [] \<Longrightarrow> md_Get M (md_Set M k vs m) k' = (if to_lower k' = to_lower k then vs else md_Get M m k')"
  by (simp add: md_laws_def)

lemma md_Get_Set_other: "md_laws M \<Longrightarrow> to_lower k' \<noteq> to_lower k \<Longrightarrow> md_Get M (md_Set M k vs m) k' = md_Get M m k'"
  by (simp add: md_laws_def)

lemma md_Get_New: "md_laws M \<Longrightarrow> md_Get M (md_New M) k = []"
  by (simp add: md_laws_def)

lemma md_Get_Append:
  "md_laws M \<Longrightarrow> md_Get M (md_Append M k vs m) k' = (if to_lower k' = to_lower k then md_Get M m k' @ vs else md_Get M m k')"
  by (simp add: md_laws_def)

text \<open>An instance on association lists, which shows that the laws can hold.\<close>

definition list_md :: "(string \<times> string list) list md_ops" where
  "list_md =
     \<lparr>md_New = [],
      md_Get = (\<lambda>m k. case map_of m (to_lower k) of None \<Rightarrow> [] | Some vs \<Rightarrow> vs),
      md_Set = (\<lambda>k vs m. if vs = [] then m else AList.update (to_lower k) vs m),
      md_Append = (\<lambda>k vs m. if vs = [] then m
        else AList.update (to_lower k) ((case map_of m (to_lower k) of None \<Rightarrow> [] | Some ws \<Rightarrow> ws) @ vs) m)\<rparr>"

lemma list_md_laws: "md_laws list_md"
  by (simp add: md_laws_def list_md_def)

end
