(* ===== verification/Http_Meta.thy ===== *)
theory Http_Meta
  imports Metadata Interceptor
begin

text \<open>
  Between HTTP and gRPC: the headers of requests and responses, \<^verbatim>\<open>server/internal/http_server/http_header.go\<close>, the
  HTTP status of an error, \<^verbatim>\<open>http_error.go\<close> and \<open>httpErrorHandler\<close> of \<^verbatim>\<open>http_mux.go\<close>, and the invokers that
  answer a request with a unary or streaming method, \<^verbatim>\<open>invoker.go\<close>.

  Headers and metadata are maps, listed in the order in which the code iterates over them. The three
  prefixes of the package \<open>grpc-gateway/runtime\<close> are arguments, as is the encoding of messages. A response
  writer is that of \<open>net/http\<close>: the headers are sent with the status, by \<open>WriteHeader\<close> or by the first \<open>Write\<close>, and
  what is done to them later is not.
\<close>

section \<open>Header names\<close>

text \<open>\<open>textproto.CanonicalMIMEHeaderKey\<close>: a name with a byte that is not allowed is left alone.\<close>

definition token_char :: "char \<Rightarrow> bool" where
  "token_char c \<longleftrightarrow>
     (let n = (of_char c :: nat)
      in 48 \<le> n \<and> n \<le> 57 \<or> 65 \<le> n \<and> n \<le> 90 \<or> 97 \<le> n \<and> n \<le> 122 \<or>
         c \<in> set [CHR ''!'', CHR ''#'', CHR ''$'', CHR ''%'', CHR ''&'', CHR 0x27, CHR ''*'', CHR ''+'', CHR ''-'', CHR ''.'', CHR ''^'',
                  CHR ''_'', CHR 0x60, CHR ''|'', CHR ''~''])"

fun canonical_from :: "bool \<Rightarrow> string \<Rightarrow> string" where
  "canonical_from upper [] = []"
| "canonical_from upper (c # cs) =
     (if upper then upper_char c else lower_char c) # canonical_from (c = CHR ''-'') cs"

definition CanonicalMIMEHeaderKey :: "string \<Rightarrow> string" where
  "CanonicalMIMEHeaderKey k = (if list_all token_char k then canonical_from True k else k)"

definition http2_headers :: "string list" where
  "http2_headers =
     ['':uri'', '':host'', '':authority'', '':path'', ''accept'', ''accept-charset'', ''accept-encoding'', ''accept-language'',
      ''accept-ranges'', ''age'', ''access-control-allow-origin'', ''allow'', ''authorization'', ''cache-control'',
      ''content-disposition'', ''content-encoding'', ''content-language'', ''content-length'', ''content-location'',
      ''content-range'', ''content-type'', ''cookie'', ''date'', ''etag'', ''expect'', ''expires'', ''from'', ''host'', ''if-match'',
      ''if-modified-since'', ''if-none-match'', ''if-unmodified-since'', ''last-modified'', ''link'', ''location'',
      ''max-forwards'', ''proxy-authenticate'', ''proxy-authorization'', ''range'', ''referer'', ''refresh'', ''retry-after'',
      ''server'', ''set-cookie'', ''strict-transport-security'', ''trailer'', ''transfer-encoding'', ''user-agent'', ''vary'',
      ''via'', ''www-authenticate'']"

definition isHttp2Header :: "string \<Rightarrow> bool" where
  "isHttp2Header hdr = (to_lower hdr \<in> set http2_headers)"

definition isPermanentHTTPHeader :: "string \<Rightarrow> bool" where
  "isPermanentHTTPHeader hdr =
     (hdr \<in> set [''Accept'', ''Accept-Charset'', ''Accept-Language'', ''Accept-Ranges'', ''Authorization'', ''Cache-Control'',
        ''Content-Type'', ''Cookie'', ''Date'', ''Expect'', ''From'', ''Host'', ''If-Match'', ''If-Modified-Since'', ''If-None-Match'',
        ''If-Schedule-Tag-Match'', ''If-Unmodified-Since'', ''Max-Forwards'', ''Origin'', ''Pragma'', ''Referer'', ''User-Agent'',
        ''Via'', ''Warning''])"

record gateway_prefixes =
  gp_MetadataPrefix :: string
  gp_MetadataHeaderPrefix :: string
  gp_MetadataTrailerPrefix :: string

definition StandardIncomingHeaderPrefix :: string where
  "StandardIncomingHeaderPrefix = ''x-frame-incoming''"

definition StandardOutgoingHeaderPrefix :: string where
  "StandardOutgoingHeaderPrefix = ''x-frame-outgoing''"

section \<open>Requests\<close>

definition requestHeaderFilter :: "gateway_prefixes \<Rightarrow> string \<Rightarrow> bool \<Rightarrow> string option" where
  "requestHeaderFilter G key0 grpcGatewayCompatible =
     (let key1 = CanonicalMIMEHeaderKey key0
      in case (if \<not> grpcGatewayCompatible then Some key1
               else if isPermanentHTTPHeader key1 then Some (gp_MetadataPrefix G @ key1)
               else if has_prefix key1 (gp_MetadataHeaderPrefix G) then Some (drop (length (gp_MetadataHeaderPrefix G)) key1)
               else None) of
           None \<Rightarrow> None
         | Some key \<Rightarrow> Some (if isHttp2Header key then StandardIncomingHeaderPrefix @ key else key))"

record web_request =
  wq_Path :: string
  wq_Method :: string
  wq_UrlHost :: string
  wq_RequestURI :: string
  wq_Scheme :: string
  wq_TLS :: bool
  wq_Header :: "(string \<times> string list) list"
  wq_RemoteAddr :: string
  wq_Host :: string

definition header_Get :: "(string \<times> string list) list \<Rightarrow> string \<Rightarrow> string" where
  "header_Get h k = (case mget h (CanonicalMIMEHeaderKey k) of Some (v # vs) \<Rightarrow> v | _ \<Rightarrow> '''')"

definition set_header :: "'md md_ops \<Rightarrow> gateway_prefixes \<Rightarrow> bool \<Rightarrow> string \<times> string list \<Rightarrow> 'md \<Rightarrow> 'md" where
  "set_header M G compatible h md =
     (case requestHeaderFilter G (fst h) compatible of None \<Rightarrow> md | Some k \<Rightarrow> md_Set M k (snd h) md)"

text \<open>The metadata of the context for a request; \<open>md0\<close> is what the context had before.\<close>

definition requestCtxWithHeader :: "'md md_ops \<Rightarrow> gateway_prefixes \<Rightarrow> 'md option \<Rightarrow> web_request \<Rightarrow> bool \<Rightarrow> 'md" where
  "requestCtxWithHeader M G md0 r compatible =
     (let md1 = (case md0 of None \<Rightarrow> md_New M | Some md \<Rightarrow> md);
          md2 = md_Set M ''X-FRAME-URI'' [wq_RequestURI r] (md_Set M ''X-FRAME-HOST'' [wq_UrlHost r]
                  (md_Set M ''X-FRAME-METHOD'' [wq_Method r] (md_Set M ''X-FRAME-PATH'' [wq_Path r] md1)));
          md3 = md_Set M ''X-FRAME-SCHEME''
                  [if wq_Scheme r \<noteq> '''' then wq_Scheme r else if \<not> wq_TLS r then ''http://'' else ''https://''] md2;
          md4 = fold (set_header M G compatible) (wq_Header r) md3;
          md5 = (if header_Get (wq_Header r) ''X-Forwarded-For'' = '''' then md_Append M ''X-Forwarded-For'' [wq_RemoteAddr r] md4 else md4)
      in if header_Get (wq_Header r) ''X-Forwarded-Host'' = '''' then md_Append M ''X-Forwarded-Host'' [wq_Host r] md5 else md5)"

section \<open>Responses\<close>

record response_writer =
  rw_header :: "(string \<times> string list) list"
  rw_sent :: "(int \<times> (string \<times> string list) list) option"
  rw_body :: string

definition add_header :: "string \<Rightarrow> string \<Rightarrow> response_writer \<Rightarrow> response_writer" where
  "add_header k v w =
     (let key = CanonicalMIMEHeaderKey k
      in w\<lparr>rw_header := AList.update key ((case mget (rw_header w) key of None \<Rightarrow> [] | Some vs \<Rightarrow> vs) @ [v]) (rw_header w)\<rparr>)"

definition put_header :: "string \<Rightarrow> string \<Rightarrow> response_writer \<Rightarrow> response_writer" where
  "put_header k v w = w\<lparr>rw_header := AList.update (CanonicalMIMEHeaderKey k) [v] (rw_header w)\<rparr>"

definition del_header :: "string \<Rightarrow> response_writer \<Rightarrow> response_writer" where
  "del_header k w = w\<lparr>rw_header := AList.delete (CanonicalMIMEHeaderKey k) (rw_header w)\<rparr>"

definition write_status :: "int \<Rightarrow> response_writer \<Rightarrow> response_writer" where
  "write_status code w = (if rw_sent w = None then w\<lparr>rw_sent := Some (code, rw_header w)\<rparr> else w)"

text \<open>\<open>WriteHeader\<close> panics on a code that does not have three digits; \<open>None\<close> is that panic.\<close>

definition write_code :: "int \<Rightarrow> response_writer \<Rightarrow> response_writer option" where
  "write_code code w = (if rw_sent w = None \<and> (code < 100 \<or> 999 < code) then None else Some (write_status code w))"

definition write_body :: "string \<Rightarrow> response_writer \<Rightarrow> response_writer" where
  "write_body b w = (let w1 = write_status 200 w in w1\<lparr>rw_body := rw_body w1 @ b\<rparr>)"

definition responseHeaderKey :: "gateway_prefixes \<Rightarrow> string \<Rightarrow> bool \<Rightarrow> string" where
  "responseHeaderKey G key compatible = (if compatible then gp_MetadataHeaderPrefix G @ key else key)"

definition write_one_header :: "gateway_prefixes \<Rightarrow> bool \<Rightarrow> string \<times> string list \<Rightarrow> response_writer \<Rightarrow> response_writer" where
  "write_one_header G compatible h w =
     (let k = responseHeaderKey G (fst h) compatible
      in if isHttp2Header k then w
         else fold (add_header (trim_prefix k StandardOutgoingHeaderPrefix)) (snd h) w)"

definition writeResponseHeader :: "gateway_prefixes \<Rightarrow> (string \<times> string list) list \<Rightarrow> bool \<Rightarrow> response_writer \<Rightarrow> response_writer" where
  "writeResponseHeader G header compatible w = fold (write_one_header G compatible) header w"

definition announce_trailer :: "gateway_prefixes \<Rightarrow> string \<times> string list \<Rightarrow> response_writer \<Rightarrow> response_writer" where
  "announce_trailer G h w =
     (let tKey = CanonicalMIMEHeaderKey (gp_MetadataTrailerPrefix G @ fst h)
      in if isHttp2Header tKey then w else add_header ''Trailer'' tKey w)"

definition set_trailer :: "gateway_prefixes \<Rightarrow> string \<times> string list \<Rightarrow> response_writer \<Rightarrow> response_writer" where
  "set_trailer G h w =
     (if isHttp2Header (fst h) then w else fold (add_header (gp_MetadataTrailerPrefix G @ fst h)) (snd h) w)"

definition writeResponseTrailer :: "gateway_prefixes \<Rightarrow> (string \<times> string list) list \<Rightarrow> response_writer \<Rightarrow> response_writer" where
  "writeResponseTrailer G trailer w = fold (set_trailer G) trailer (fold (announce_trailer G) trailer w)"

section \<open>Errors\<close>

definition httpStatusFromCode :: "int \<Rightarrow> int" where
  "httpStatusFromCode code =
     (if code = 0 then 200 else if code = 1 then 408 else if code = 2 then 500 else if code = 3 then 400
      else if code = 4 then 504 else if code = 5 then 404 else if code = 6 then 409 else if code = 7 then 403
      else if code = 16 then 401 else if code = 8 then 429 else if code = 9 then 412 else if code = 10 then 409
      else if code = 11 then 400 else if code = 12 then 501 else if code = 13 then 500 else if code = 14 then 503
      else 500)"

text \<open>\<open>status.FromError\<close>, and what \<open>httpErrorHandler\<close> makes of an error that is no status.\<close>

definition status_of :: "status_error \<Rightarrow> int \<times> string" where
  "status_of e = (case e of Status c m \<Rightarrow> (c, m) | OtherError m \<Rightarrow> (2, m))"

definition httpErrorHandler :: "(int \<times> string \<Rightarrow> string option) \<Rightarrow> int \<Rightarrow> status_error \<Rightarrow> response_writer \<Rightarrow> response_writer option" where
  "httpErrorHandler marshal code err w =
     (let w1 = del_header ''Trailer'' (put_header ''Content-Type'' ''application/json'' w)
      in if code = 0 then
           Some (case marshal (status_of err) of
              None \<Rightarrow>
                write_body ''{\"code\": 13, \"message\": \"failed to marshal error message\"}'' (write_status 500 w1)
            | Some resp \<Rightarrow> write_body resp (write_status (httpStatusFromCode (fst (status_of err))) w1))
         else write_code code w1)"

section \<open>The invokers\<close>

record 'm marshaler =
  ms_ContentType :: string
  ms_Marshal :: "'m \<Rightarrow> string option"
  ms_MarshalStatus :: "int \<times> string \<Rightarrow> string option"
  ms_MarshalErrorChunk :: "int \<times> int \<times> string \<Rightarrow> string option"

text \<open>A status code in the metadata of the response is taken out of it.\<close>

definition custom_code :: "(string \<times> string list) list \<Rightarrow> int \<times> (string \<times> string list) list" where
  "custom_code header =
     (case mget header ''x-http-code'' of
        Some (v # vs) \<Rightarrow> (case parse_int 64 v of Some code \<Rightarrow> (code, AList.delete ''x-http-code'' header) | None \<Rightarrow> (0, header))
      | _ \<Rightarrow> (0, header))"

definition UnaryInvoker_Invoke ::
  "gateway_prefixes \<Rightarrow> 'm marshaler \<Rightarrow> ('r \<Rightarrow> status_error + 'm) \<Rightarrow> bool \<Rightarrow>
     (status_error + 'r) \<Rightarrow> (string \<times> string list) list \<Rightarrow> (string \<times> string list) list \<Rightarrow> response_writer \<Rightarrow> response_writer option" where
  "UnaryInvoker_Invoke G ms respHandler compatible result respHeader respTrailer w =
     (case result of
        Inl err \<Rightarrow> httpErrorHandler (ms_MarshalStatus ms) (fst (custom_code respHeader)) err w
      | Inr resp0 \<Rightarrow>
          (case respHandler resp0 of
             Inl err \<Rightarrow> httpErrorHandler (ms_MarshalStatus ms) (fst (custom_code respHeader)) err w
           | Inr resp \<Rightarrow>
               (let w1 = put_header ''Content-Type'' (ms_ContentType ms) w
                in case ms_Marshal ms resp of
                     None \<Rightarrow>
                       httpErrorHandler (ms_MarshalStatus ms) (fst (custom_code respHeader))
                         (Status codes_Internal ''http unary invoker marshal grpc response failed'') w1
                   | Some httpResp \<Rightarrow>
                       (case custom_code respHeader of
                          (code, header) \<Rightarrow>
                            (case (if code \<noteq> 0 then write_code code w1 else Some w1) of
                               None \<Rightarrow> None
                             | Some w2 \<Rightarrow>
                                 Some (write_body httpResp (writeResponseTrailer G respTrailer (writeResponseHeader G header compatible w2))))))))"

text \<open>The error at the end of a stream: its own code and the HTTP status.\<close>

definition streamError :: "status_error \<Rightarrow> int \<times> int \<times> string" where
  "streamError err = (let (c, m) = status_of err in (c, httpStatusFromCode c, m))"

definition handleStreamErrorResponse :: "bool \<Rightarrow> bool \<Rightarrow> 'm marshaler \<Rightarrow> status_error \<Rightarrow> response_writer \<Rightarrow> response_writer" where
  "handleStreamErrorResponse wroteHeader wroteCustomCode ms err w =
     (let e = streamError err;
          w1 = (if \<not> wroteHeader \<and> \<not> wroteCustomCode then write_status (fst (snd e)) w else w)
      in if \<not> wroteCustomCode
         then (case ms_MarshalErrorChunk ms e of None \<Rightarrow> w1 | Some buf \<Rightarrow> write_body buf w1)
         else w1)"

text \<open>
  The loop of the streaming invoker over what \<open>RecvMsg\<close> answers. The header of the stream is read before each
  message until one was written. The result tells whether the loop has ended; it goes on while nothing more
  has been received.
\<close>

datatype 'r received = EndOfStream | Failed status_error | Message 'r

fun stream_loop ::
  "gateway_prefixes \<Rightarrow> 'm marshaler \<Rightarrow> ('r \<Rightarrow> status_error + 'm) \<Rightarrow> bool \<Rightarrow> (string \<times> string list) list option \<Rightarrow>
     'r received list \<Rightarrow> bool \<Rightarrow> bool \<Rightarrow> response_writer \<Rightarrow> (response_writer \<times> bool) option" where
  "stream_loop G ms respHandler compatible header [] wroteHeader wroteCustomCode w = Some (w, False)"
| "stream_loop G ms respHandler compatible header (EndOfStream # rs) wroteHeader wroteCustomCode w = Some (w, True)"
| "stream_loop G ms respHandler compatible header (r # rs) wroteHeader wroteCustomCode w =
     (case (if wroteHeader then Some (wroteCustomCode, w)
            else (case header of
                    None \<Rightarrow> Some (wroteCustomCode, w)
                  | Some h \<Rightarrow>
                      (case custom_code h of
                         (code, h') \<Rightarrow>
                           (case (if h' \<noteq> h then write_code code w else Some w) of
                              None \<Rightarrow> None
                            | Some w' \<Rightarrow> Some (wroteCustomCode \<or> h' \<noteq> h, writeResponseHeader G h' compatible w'))))) of
        None \<Rightarrow> None
      | Some (custom, w1) \<Rightarrow>
          (case r of
             Failed err \<Rightarrow> Some (handleStreamErrorResponse wroteHeader custom ms err w1, True)
           | Message m \<Rightarrow>
               (case respHandler m of
                  Inl err \<Rightarrow> Some (handleStreamErrorResponse wroteHeader custom ms err w1, True)
                | Inr resp \<Rightarrow>
                    (case ms_Marshal ms resp of
                       None \<Rightarrow>
                         map_option (\<lambda>w2. (w2, True)) (httpErrorHandler (ms_MarshalStatus ms) 0
                           (Status codes_Internal ''http streaming invoker marshal grpc response failed'') w1)
                     | Some httpResp \<Rightarrow>
                         stream_loop G ms respHandler compatible header rs True custom (write_body [CHR 0x0A] (write_body httpResp w1))))
           | EndOfStream \<Rightarrow> Some (w1, True)))"

text \<open>Before the loop: a writer that cannot flush, and the errors of opening the stream and sending the request.\<close>

definition ServerStreamingInvoker_Invoke ::
  "gateway_prefixes \<Rightarrow> 'm marshaler \<Rightarrow> ('r \<Rightarrow> status_error + 'm) \<Rightarrow> bool \<Rightarrow> bool \<Rightarrow> status_error option \<Rightarrow> status_error option \<Rightarrow>
     status_error option \<Rightarrow> (string \<times> string list) list option \<Rightarrow> 'r received list \<Rightarrow> response_writer \<Rightarrow> (response_writer \<times> bool) option" where
  "ServerStreamingInvoker_Invoke G ms respHandler compatible canFlush newStream sendMsg closeSend header rs w =
     (let failed = (\<lambda>e. map_option (\<lambda>w1. (w1, True)) (httpErrorHandler (ms_MarshalStatus ms) 0 e w))
      in if \<not> canFlush then failed (Status codes_Internal ''flush not supported in http response writer'')
         else if newStream \<noteq> None then failed (Status codes_Internal ''http streaming invoker NewStream failed'')
         else (case sendMsg of
                 Some e \<Rightarrow> failed e
               | None \<Rightarrow>
                   if closeSend \<noteq> None then failed (Status codes_Internal ''http streaming invoker CloseSend failed'')
                   else stream_loop G ms respHandler compatible header rs False False
                          (put_header ''Content-Type'' (ms_ContentType ms) (put_header ''Transfer-Encoding'' ''chunked'' w))))"

section \<open>Request headers\<close>

lemma http2_headers_not_x: "h \<in> set http2_headers \<Longrightarrow> \<not> has_prefix h ''x''"
  by (auto simp: http2_headers_def has_prefix_def)

lemma lower_x: "lower_char (CHR ''x'') = CHR ''x''" "lower_char (CHR ''X'') = CHR ''x''"
  by code_simp+

lemma lower_prefix: "has_prefix (to_lower (''x'' @ s)) ''x''" "has_prefix (to_lower (''X'' @ s)) ''x''"
  by (simp_all add: has_prefix_def to_lower_def lower_x)

lemma reserved_not_x: "isHttp2Header k \<Longrightarrow> to_lower k \<noteq> to_lower (''X'' @ s)" "isHttp2Header k \<Longrightarrow> to_lower k \<noteq> to_lower (''x'' @ s)"
  using http2_headers_not_x lower_prefix unfolding isHttp2Header_def by metis+

lemma incoming_not_reserved: "\<not> isHttp2Header (StandardIncomingHeaderPrefix @ k)"
  using reserved_not_x(2) [of "StandardIncomingHeaderPrefix @ k" "''-frame-incoming'' @ k"] by (auto simp: StandardIncomingHeaderPrefix_def)

lemma requestHeaderFilter_not_reserved: "requestHeaderFilter G k c = Some k' \<Longrightarrow> \<not> isHttp2Header k'"
  by (auto simp: requestHeaderFilter_def Let_def incoming_not_reserved split: if_splits)

lemma reserved_congr: "to_lower k = to_lower k' \<Longrightarrow> isHttp2Header k = isHttp2Header k'"
  by (simp add: isHttp2Header_def)

lemma set_header_reserved:
  assumes "md_laws M" and "isHttp2Header k"
  shows "md_Get M (set_header M G c h md) k = md_Get M md k"
proof (cases "requestHeaderFilter G (fst h) c")
  case (Some k')
  then have "to_lower k \<noteq> to_lower k'" using requestHeaderFilter_not_reserved reserved_congr assms(2) by blast
  then show ?thesis using Some by (simp add: set_header_def md_Get_Set_other [OF assms(1)])
qed (simp add: set_header_def)

lemma set_headers_reserved:
  assumes "md_laws M" and "isHttp2Header k"
  shows "md_Get M (fold (set_header M G c) hs md) k = md_Get M md k"
  by (induction hs arbitrary: md) (simp_all add: set_header_reserved [OF assms])

section \<open>Response headers\<close>

text \<open>The values of a name in the header of a response, and the values a call should add to them.\<close>

definition header_values :: "response_writer \<Rightarrow> string \<Rightarrow> string list" where
  "header_values w key = (case mget (rw_header w) key of None \<Rightarrow> [] | Some vs \<Rightarrow> vs)"

definition from_header :: "gateway_prefixes \<Rightarrow> bool \<Rightarrow> (string \<times> string list) list \<Rightarrow> string \<Rightarrow> string list" where
  "from_header G c header key =
     concat (map snd (filter (\<lambda>h. \<not> isHttp2Header (responseHeaderKey G (fst h) c) \<and>
       CanonicalMIMEHeaderKey (trim_prefix (responseHeaderKey G (fst h) c) StandardOutgoingHeaderPrefix) = key) header))"

definition from_trailer :: "gateway_prefixes \<Rightarrow> (string \<times> string list) list \<Rightarrow> string \<Rightarrow> string list" where
  "from_trailer G trailer key =
     concat (map snd (filter (\<lambda>h. \<not> isHttp2Header (fst h) \<and> CanonicalMIMEHeaderKey (gp_MetadataTrailerPrefix G @ fst h) = key) trailer))"

definition trailer_names :: "gateway_prefixes \<Rightarrow> (string \<times> string list) list \<Rightarrow> string list" where
  "trailer_names G trailer = filter (\<lambda>k. \<not> isHttp2Header k) (map (\<lambda>h. CanonicalMIMEHeaderKey (gp_MetadataTrailerPrefix G @ fst h)) trailer)"

lemma add_headers_values:
  "header_values (fold (add_header k) vs w) key = header_values w key @ (if CanonicalMIMEHeaderKey k = key then vs else [])"
  by (induction vs arbitrary: w) (auto simp: header_values_def add_header_def Let_def)

lemma add_header_values:
  "header_values (add_header k v w) key = header_values w key @ (if CanonicalMIMEHeaderKey k = key then [v] else [])"
  using add_headers_values [of k "[v]" w key] by simp

lemma writeResponseHeader_values:
  "header_values (writeResponseHeader G header c w) key = header_values w key @ from_header G c header key"
  unfolding writeResponseHeader_def
  by (induction header arbitrary: w) (simp_all add: from_header_def write_one_header_def Let_def add_headers_values)

lemma announced_values:
  "header_values (fold (announce_trailer G) trailer w) key =
     header_values w key @ (if key = CanonicalMIMEHeaderKey ''Trailer'' then trailer_names G trailer else [])"
  by (induction trailer arbitrary: w) (simp_all add: trailer_names_def announce_trailer_def Let_def add_header_values)

lemma set_trailer_values:
  "header_values (fold (set_trailer G) trailer w) key = header_values w key @ from_trailer G trailer key"
  by (induction trailer arbitrary: w) (simp_all add: from_trailer_def set_trailer_def add_headers_values)

lemma writeResponseTrailer_values:
  "header_values (writeResponseTrailer G trailer w) key =
     header_values w key @ (if key = CanonicalMIMEHeaderKey ''Trailer'' then trailer_names G trailer else []) @ from_trailer G trailer key"
  by (simp add: writeResponseTrailer_def announced_values set_trailer_values)

text \<open>Headers do not send anything.\<close>

lemma add_header_sent [simp]:
  "rw_sent (add_header k v w) = rw_sent w" "rw_body (add_header k v w) = rw_body w"
  "rw_sent (put_header k v w) = rw_sent w" "rw_body (put_header k v w) = rw_body w"
  "rw_sent (del_header k w) = rw_sent w" "rw_body (del_header k w) = rw_body w"
  by (simp_all add: add_header_def put_header_def del_header_def Let_def)

lemma fold_sent:
  assumes "\<And>x w. rw_sent (f x w) = rw_sent w \<and> rw_body (f x w) = rw_body w"
  shows "rw_sent (fold f xs w) = rw_sent w" "rw_body (fold f xs w) = rw_body w"
  using assms by (induction xs arbitrary: w) simp_all

lemma writeResponse_sent [simp]:
  "rw_sent (writeResponseHeader G header c w) = rw_sent w" "rw_body (writeResponseHeader G header c w) = rw_body w"
  "rw_sent (writeResponseTrailer G trailer w) = rw_sent w" "rw_body (writeResponseTrailer G trailer w) = rw_body w"
  by (simp_all add: writeResponseHeader_def writeResponseTrailer_def fold_sent write_one_header_def set_trailer_def
      announce_trailer_def Let_def)

section \<open>Properties\<close>

text \<open>
  C22 (reserved metadata). Whatever headers a request has, in either mode, the metadata of the call has for
  every reserved name, such as authorization or host, exactly what the context had before.
\<close>

theorem reserved_metadata_untouched:
  assumes "md_laws M" and "isHttp2Header k"
  shows "md_Get M (requestCtxWithHeader M G md0 r c) k = (case md0 of None \<Rightarrow> [] | Some md \<Rightarrow> md_Get M md k)"
proof -
  have x: "to_lower k \<noteq> to_lower ''X-FRAME-URI''" "to_lower k \<noteq> to_lower ''X-FRAME-HOST''" "to_lower k \<noteq> to_lower ''X-FRAME-METHOD''"
    "to_lower k \<noteq> to_lower ''X-FRAME-PATH''" "to_lower k \<noteq> to_lower ''X-FRAME-SCHEME''" "to_lower k \<noteq> to_lower ''X-Forwarded-For''"
    "to_lower k \<noteq> to_lower ''X-Forwarded-Host''"
    using reserved_not_x(1) [OF assms(2)] by force+
  show ?thesis
    by (simp add: requestCtxWithHeader_def Let_def set_headers_reserved [OF assms] md_Get_Set_other [OF assms(1)]
        md_Get_Append [OF assms(1)] md_Get_New [OF assms(1)] x split: option.split)
qed

text \<open>
  C24 (the answer of a unary call). If the call and the conversion of its result succeed and the metadata
  asks for no status of its own, the response is sent once, with the status 200, the encoded message as the body, and under every name
  exactly the values of the metadata that are to be written under it, reserved names left out.
\<close>

theorem unary_answer:
  assumes "rw_sent w = None" and "rw_body w = ''''" and "respHandler resp0 = Inr resp" and "ms_Marshal ms resp = Some body"
    and "mget respHeader ''x-http-code'' = None"
  shows "\<exists>w'. UnaryInvoker_Invoke G ms respHandler c (Inr resp0) respHeader respTrailer w = Some w' \<and>
    rw_sent w' = Some (200, rw_header w') \<and> rw_body w' = body \<and>
    (\<forall>key. header_values w' key =
       header_values (put_header ''Content-Type'' (ms_ContentType ms) w) key @ from_header G c respHeader key @
       (if key = CanonicalMIMEHeaderKey ''Trailer'' then trailer_names G respTrailer else []) @ from_trailer G respTrailer key)"
proof -
  let ?w = "writeResponseTrailer G respTrailer (writeResponseHeader G respHeader c (put_header ''Content-Type'' (ms_ContentType ms) w))"
  have "UnaryInvoker_Invoke G ms respHandler c (Inr resp0) respHeader respTrailer w = Some (write_body body ?w)"
    using assms(3,4,5) by (simp add: UnaryInvoker_Invoke_def Let_def custom_code_def)
  moreover have "header_values (write_body body ?w) key = header_values ?w key" for key
    by (simp add: header_values_def write_body_def write_status_def Let_def)
  ultimately show ?thesis
    using assms(1,2)
    by (simp add: write_body_def write_status_def Let_def writeResponseTrailer_values writeResponseHeader_values)
qed

definition demo_prefixes :: gateway_prefixes where
  "demo_prefixes =
     \<lparr>gp_MetadataPrefix = ''grpcgateway-'', gp_MetadataHeaderPrefix = ''Grpc-Metadata-'', gp_MetadataTrailerPrefix = ''Grpc-Trailer-''\<rparr>"

definition demo_web_request :: web_request where
  "demo_web_request =
     \<lparr>wq_Path = ''/a'', wq_Method = ''GET'', wq_UrlHost = '''', wq_RequestURI = ''/a'', wq_Scheme = '''', wq_TLS = False,
      wq_Header = [(''Authorization'', [''forged'']), (''X-A'', [''1''])], wq_RemoteAddr = ''1.2.3.4:5'', wq_Host = ''h''\<rparr>"

theorem reserved_metadata_untouched_witness:
  "md_Get list_md (requestCtxWithHeader list_md demo_prefixes (Some [(''authorization'', [''checked''])]) demo_web_request False) ''authorization'' =
     [''checked'']"
proof -
  have "isHttp2Header ''authorization''" by code_simp
  from reserved_metadata_untouched [OF list_md_laws this, of demo_prefixes "Some [(''authorization'', [''checked''])]" demo_web_request False]
  have "md_Get list_md (requestCtxWithHeader list_md demo_prefixes (Some [(''authorization'', [''checked''])]) demo_web_request False) ''authorization'' =
     md_Get list_md [(''authorization'', [''checked''])] ''authorization''" by simp
  also have "\<dots> = [''checked'']" by code_simp
  finally show ?thesis .
qed

definition demo_marshaler :: "string marshaler" where
  "demo_marshaler =
     \<lparr>ms_ContentType = ''application/json'', ms_Marshal = Some, ms_MarshalStatus = (\<lambda>(c, m). Some m), ms_MarshalErrorChunk = (\<lambda>_. None)\<rparr>"

theorem unary_answer_witness:
  "\<exists>w'. UnaryInvoker_Invoke demo_prefixes demo_marshaler Inr False (Inr ''{}'') [(''x-a'', [''1'']), (''date'', [''now''])] []
           \<lparr>rw_header = [], rw_sent = None, rw_body = ''''\<rparr> = Some w' \<and>
        rw_sent w' = Some (200, rw_header w') \<and> rw_body w' = ''{}'' \<and>
        header_values w' ''X-A'' = [''1''] \<and> header_values w' ''Date'' = []"
proof -
  let ?w = "\<lparr>rw_header = [], rw_sent = None, rw_body = ''''\<rparr>"
  have "header_values (put_header ''Content-Type'' (ms_ContentType demo_marshaler) ?w) key @
          from_header demo_prefixes False [(''x-a'', [''1'']), (''date'', [''now''])] key @
          (if key = CanonicalMIMEHeaderKey ''Trailer'' then trailer_names demo_prefixes [] else []) @ from_trailer demo_prefixes [] key =
        (if key = ''X-A'' then [''1''] else [])" if "key \<in> {''X-A'', ''Date''}" for key
    using that by (elim insertE emptyE) (simp_all only: , code_simp+)
  with unary_answer [of ?w Inr "''{}''" "''{}''" demo_marshaler "''{}''" "[(''x-a'', [''1'']), (''date'', [''now''])]" demo_prefixes False "[]"]
  show ?thesis by (fastforce simp: demo_marshaler_def)
qed

text \<open>With a status of its own in the metadata, the status goes out before the headers of the metadata are added.\<close>

lemma custom_code_drops_headers:
  assumes "rw_sent w = None" and "respHandler resp0 = Inr resp" and "ms_Marshal ms resp = Some body"
    and "custom_code respHeader = (code, header)" and "100 \<le> code" and "code \<le> 999"
  shows "\<exists>w'. UnaryInvoker_Invoke G ms respHandler c (Inr resp0) respHeader respTrailer w = Some w' \<and>
    rw_sent w' = Some (code, rw_header (put_header ''Content-Type'' (ms_ContentType ms) w))"
  using assms by (simp add: UnaryInvoker_Invoke_def Let_def write_code_def write_body_def write_status_def)

end
