(* ===== verification/Grpc_Stream.thy ===== *)
theory Grpc_Stream
  imports Interceptor "HOL-Library.Sublist"
begin

text \<open>
  The stream between a client and a server in one process, \<^verbatim>\<open>stream/grpc_stream.go\<close>: two channels of sixteen
  payloads, one for each direction, a header that is sent once and a trailer.

  The operations are functions of the fields they read. Where a \<open>select\<close> has several cases ready, an argument
  says which one is taken; \<open>None\<close> means that the operation waits. Client, server and the context run
  at the same time: \<open>step\<close> is the relation of single operations, with \<open>WriteStatus\<close> cut into its statements,
  and \<open>run\<close> the traces that are possible from a new stream. A server that waits in \<open>SendMsg\<close> has sent its header
  already: that is the step \<open>server_send_header\<close> with no metadata, before the step \<open>server_send\<close>.
\<close>

section \<open>Channels\<close>

datatype 'd payload = PData 'd | PErr status_error | PEOF

definition queueDepth :: nat where
  "queueDepth = 16"

datatype send_result = SendOk | SendDone | SendEOF

datatype 'd recv_result = RData 'd | RErr status_error | REOF | RCanceled

text \<open>
  \<open>_StreamInternal.Send\<close>: a closed stream refuses, and so does a context that is done, unless it got done only
  after it was asked (\<open>late\<close>). Then the payload goes into the channel if there is room, or the call ends because
  the context is done or the server has closed the stream; \<open>pickSend\<close> says which one where several are possible.
\<close>

definition si_Send ::
  "bool \<Rightarrow> bool \<Rightarrow> bool \<Rightarrow> bool \<Rightarrow> bool \<Rightarrow> 'd payload list \<Rightarrow> 'd payload \<Rightarrow> (send_result \<times> 'd payload list) option" where
  "si_Send late pickSend closed cancelled closeDone ch m =
     (if closed then Some (SendDone, ch)
      else if cancelled \<and> \<not> late then Some (SendDone, ch)
      else if length ch < queueDepth \<and> (pickSend \<or> \<not> cancelled \<and> \<not> closeDone) then Some (SendOk, ch @ [m])
      else if cancelled \<or> closeDone then Some (SendDone, ch)
      else None)"

text \<open>
  \<open>_StreamInternal.Recv\<close>: a payload, the end of a closed channel, or the context is done. In the last case one
  more payload is taken from the channel, and lost unless it marks the end.
\<close>

definition si_Recv :: "bool \<Rightarrow> bool \<Rightarrow> bool \<Rightarrow> 'd payload list \<Rightarrow> ('d recv_result \<times> 'd payload list) option" where
  "si_Recv pickCancel cancelled chClosed ch =
     (if cancelled \<and> (pickCancel \<or> (ch = [] \<and> \<not> chClosed))
      then Some (case ch of
                   [] \<Rightarrow> if chClosed then (REOF, []) else (RCanceled, [])
                 | PEOF # q \<Rightarrow> (REOF, q)
                 | p # q \<Rightarrow> (RCanceled, q))
      else (case ch of
              [] \<Rightarrow> if chClosed then Some (REOF, []) else None
            | PData d # q \<Rightarrow> Some (RData d, q)
            | PErr e # q \<Rightarrow> Some (RErr e, q)
            | PEOF # q \<Rightarrow> Some (REOF, q)))"

section \<open>Header and trailer\<close>

text \<open>A header and a trailer are the lists of the metadata that \<open>metadata.Join\<close> puts together.\<close>

type_synonym md = "(string \<times> string list) list"

record header_wrapper =
  hw_sent :: bool
  hw_md :: "md list"

definition hw_SetHeader :: "md \<Rightarrow> header_wrapper \<Rightarrow> bool \<times> header_wrapper" where
  "hw_SetHeader md h =
     (if hw_sent h then (False, h)
      else if length md = 0 then (True, h)
      else (True, h\<lparr>hw_md := hw_md h @ [md]\<rparr>))"

definition hw_Send :: "header_wrapper \<Rightarrow> header_wrapper" where
  "hw_Send h = (if hw_sent h then h else h\<lparr>hw_sent := True\<rparr>)"

text \<open>The client waits for the header until it is sent.\<close>

definition hw_Header :: "header_wrapper \<Rightarrow> md list option" where
  "hw_Header h = (if hw_sent h then Some (hw_md h) else None)"

definition tw_SetTrailer :: "md \<Rightarrow> md list \<Rightarrow> md list" where
  "tw_SetTrailer md t = (if length md = 0 then t else t @ [md])"

section \<open>The stream\<close>

datatype ws_state = WsIdle | WsSend status_error | WsCloseCtx | WsClose | WsMark | WsDone

record 'd grpc_stream =
  gs_c2s :: "'d payload list"
  gs_s2c :: "'d payload list"
  gs_clientClosed :: bool
  gs_serverClosed :: bool
  gs_cancelled :: bool
  gs_closeCtx :: bool
  gs_srvClosed :: bool
  gs_header :: header_wrapper
  gs_trailer :: "md list"
  gs_ws :: ws_state

definition NewGrpcStream :: "'d grpc_stream" where
  "NewGrpcStream =
     \<lparr>gs_c2s = [], gs_s2c = [], gs_clientClosed = False, gs_serverClosed = False, gs_cancelled = False, gs_closeCtx = False,
      gs_srvClosed = False, gs_header = \<lparr>hw_sent = False, hw_md = []\<rparr>, gs_trailer = [], gs_ws = WsIdle\<rparr>"

text \<open>
  The server reads what the client sends as its incoming metadata, and starts with no outgoing metadata of its own:
  the result is the incoming and the outgoing metadata of its context.
\<close>

definition server_metadata :: "md option \<Rightarrow> md \<times> md option" where
  "server_metadata outgoing = (case outgoing of Some md \<Rightarrow> (md, Some []) | None \<Rightarrow> ([], None))"

definition sv_SetHeader :: "md \<Rightarrow> 'd grpc_stream \<Rightarrow> bool \<times> 'd grpc_stream" where
  "sv_SetHeader md s =
     (if length md = 0 then (True, s)
      else if gs_srvClosed s then (False, s)
      else (case hw_SetHeader md (gs_header s) of (ok, h) \<Rightarrow> (ok, s\<lparr>gs_header := h\<rparr>)))"

definition sv_SendHeader :: "md \<Rightarrow> 'd grpc_stream \<Rightarrow> bool \<times> 'd grpc_stream" where
  "sv_SendHeader md s =
     (if gs_srvClosed s then (False, s)
      else (case hw_SetHeader md (gs_header s) of
              (ok, h) \<Rightarrow> if ok then (True, s\<lparr>gs_header := hw_Send h\<rparr>) else (False, s\<lparr>gs_header := h\<rparr>)))"

definition sv_SetTrailer :: "md \<Rightarrow> 'd grpc_stream \<Rightarrow> 'd grpc_stream" where
  "sv_SetTrailer md s = s\<lparr>gs_trailer := tw_SetTrailer md (gs_trailer s)\<rparr>"

text \<open>\<open>sawClosed\<close> is what the client has read of \<open>srvClosed\<close> before it sends.\<close>

definition cl_SendMsg :: "bool \<Rightarrow> bool \<Rightarrow> bool \<Rightarrow> 'd \<Rightarrow> 'd grpc_stream \<Rightarrow> (send_result \<times> 'd grpc_stream) option" where
  "cl_SendMsg sawClosed late pick m s =
     (if sawClosed then Some (SendEOF, s)
      else map_option (\<lambda>(r, ch). (r, s\<lparr>gs_c2s := ch\<rparr>))
             (si_Send late pick (gs_clientClosed s) (gs_cancelled s) (gs_closeCtx s) (gs_c2s s) (PData m)))"

definition cl_RecvMsg :: "bool \<Rightarrow> 'd grpc_stream \<Rightarrow> ('d recv_result \<times> 'd grpc_stream) option" where
  "cl_RecvMsg pick s =
     map_option (\<lambda>(r, ch). (r, s\<lparr>gs_s2c := ch\<rparr>)) (si_Recv pick (gs_cancelled s) (gs_serverClosed s) (gs_s2c s))"

definition CloseSend :: "'d grpc_stream \<Rightarrow> 'd grpc_stream" where
  "CloseSend s = s\<lparr>gs_clientClosed := True\<rparr>"

definition sv_SendMsg :: "bool \<Rightarrow> bool \<Rightarrow> 'd \<Rightarrow> 'd grpc_stream \<Rightarrow> (send_result \<times> 'd grpc_stream) option" where
  "sv_SendMsg late pick m s0 =
     (let s = snd (sv_SendHeader [] s0)
      in map_option (\<lambda>(r, ch). (r, s\<lparr>gs_s2c := ch\<rparr>))
           (si_Send late pick (gs_serverClosed s) (gs_cancelled s) (gs_closeCtx s) (gs_s2c s) (PData m)))"

definition sv_RecvMsg :: "bool \<Rightarrow> 'd grpc_stream \<Rightarrow> ('d recv_result \<times> 'd grpc_stream) option" where
  "sv_RecvMsg pick s =
     map_option (\<lambda>(r, ch). (r, s\<lparr>gs_c2s := ch\<rparr>)) (si_Recv pick (gs_cancelled s) (gs_clientClosed s) (gs_c2s s))"

text \<open>
  \<open>WriteStatus\<close> in its statements: the header, the error if there is one, the end of the close context, the
  channel, the mark. The send of the error may wait, and its failure is ignored.
\<close>

definition ws_begin :: "status_error option \<Rightarrow> 'd grpc_stream \<Rightarrow> 'd grpc_stream" where
  "ws_begin err s =
     (if gs_srvClosed s then s\<lparr>gs_ws := WsDone\<rparr>
      else (snd (sv_SendHeader [] s))\<lparr>gs_ws := (case err of None \<Rightarrow> WsCloseCtx | Some e \<Rightarrow> WsSend e)\<rparr>)"

definition ws_next :: "bool \<Rightarrow> bool \<Rightarrow> 'd grpc_stream \<Rightarrow> (send_result option \<times> 'd grpc_stream) option" where
  "ws_next late pick s =
     (case gs_ws s of
        WsIdle \<Rightarrow> None
      | WsSend e \<Rightarrow>
          map_option (\<lambda>(r, ch). (Some r, s\<lparr>gs_s2c := ch, gs_ws := WsCloseCtx\<rparr>))
            (si_Send late pick (gs_serverClosed s) (gs_cancelled s) (gs_closeCtx s) (gs_s2c s) (PErr e))
      | WsCloseCtx \<Rightarrow> Some (None, s\<lparr>gs_closeCtx := True, gs_ws := WsClose\<rparr>)
      | WsClose \<Rightarrow> Some (None, s\<lparr>gs_serverClosed := True, gs_ws := WsMark\<rparr>)
      | WsMark \<Rightarrow> Some (None, s\<lparr>gs_srvClosed := True, gs_ws := WsDone\<rparr>)
      | WsDone \<Rightarrow> None)"

section \<open>Runs\<close>

datatype 'd label =
    CSend 'd send_result | CRecv "'d recv_result" | CClose | Cancel
  | SSend 'd send_result | SRecv "'d recv_result" | SHeader md bool | STrailer md
  | WBegin "status_error option" | WError status_error send_result | WStep

inductive step :: "'d grpc_stream \<Rightarrow> 'd label \<Rightarrow> 'd grpc_stream \<Rightarrow> bool" where
  client_send: "cl_SendMsg sawClosed late pick m s = Some (r, s') \<Longrightarrow> (sawClosed \<longrightarrow> gs_srvClosed s) \<Longrightarrow> step s (CSend m r) s'"
| client_recv: "cl_RecvMsg pick s = Some (r, s') \<Longrightarrow> step s (CRecv r) s'"
| client_close: "step s CClose (CloseSend s)"
| cancel: "step s Cancel (s\<lparr>gs_cancelled := True\<rparr>)"
| server_send: "sv_SendMsg late pick m s = Some (r, s') \<Longrightarrow> step s (SSend m r) s'"
| server_recv: "sv_RecvMsg pick s = Some (r, s') \<Longrightarrow> step s (SRecv r) s'"
| server_set_header: "sv_SetHeader md s = (ok, s') \<Longrightarrow> step s (SHeader md ok) s'"
| server_send_header: "sv_SendHeader md s = (ok, s') \<Longrightarrow> step s (SHeader md ok) s'"
| server_trailer: "step s (STrailer md) (sv_SetTrailer md s)"
| write_begin: "gs_ws s = WsIdle \<Longrightarrow> step s (WBegin err) (ws_begin err s)"
| write_error: "ws_next late pick s = Some (Some r, s') \<Longrightarrow> gs_ws s = WsSend e \<Longrightarrow> step s (WError e r) s'"
| write_next: "ws_next late pick s = Some (None, s') \<Longrightarrow> step s WStep s'"

inductive run :: "'d label list \<Rightarrow> 'd grpc_stream \<Rightarrow> bool" where
  run_new: "run [] NewGrpcStream"
| run_step: "run tr s \<Longrightarrow> step s l s' \<Longrightarrow> run (tr @ [l]) s'"

inductive_cases step_cases: "step s l s'"

section \<open>What a channel keeps\<close>

text \<open>The payloads that go into a channel and the ones that come out of it, by label.\<close>

fun server_sent :: "'d label \<Rightarrow> 'd payload list" where
  "server_sent (SSend d SendOk) = [PData d]"
| "server_sent (WError e SendOk) = [PErr e]"
| "server_sent _ = []"

fun client_got :: "'d label \<Rightarrow> 'd payload list" where
  "client_got (CRecv (RData d)) = [PData d]"
| "client_got (CRecv (RErr e)) = [PErr e]"
| "client_got _ = []"

fun client_sent :: "'d label \<Rightarrow> 'd payload list" where
  "client_sent (CSend d SendOk) = [PData d]"
| "client_sent _ = []"

fun server_got :: "'d label \<Rightarrow> 'd payload list" where
  "server_got (SRecv (RData d)) = [PData d]"
| "server_got (SRecv (RErr e)) = [PErr e]"
| "server_got _ = []"

lemma si_Send_cases:
  assumes "si_Send late pick closed cancelled done ch m = Some (r, ch')"
  shows "r = SendOk \<and> ch' = ch @ [m] \<and> \<not> closed \<and> length ch < queueDepth \<or> r = SendDone \<and> ch' = ch"
  using assms by (auto simp: si_Send_def split: if_splits)

text \<open>What a receiver gets and what it leaves is a subsequence of what was there, and all of it without cancellation.\<close>

fun got_of :: "'d recv_result \<Rightarrow> 'd payload list" where
  "got_of (RData d) = [PData d]"
| "got_of (RErr e) = [PErr e]"
| "got_of _ = []"

lemma si_Recv_cases:
  assumes "si_Recv pick cancelled chClosed ch = Some (r, ch')"
  shows "subseq (got_of r @ ch') ch"
    and "\<not> cancelled \<Longrightarrow> PEOF \<notin> set ch \<Longrightarrow> got_of r @ ch' = ch"
    and "r = REOF \<Longrightarrow> PEOF \<notin> set ch \<Longrightarrow> ch = [] \<and> chClosed"
    and "length ch \<le> Suc (length (got_of r @ ch'))"
  using assms by (auto simp: si_Recv_def split: if_splits list.splits payload.splits)

lemma client_got_of [simp]: "client_got (CRecv r) = got_of r"
  by (cases r) simp_all

lemma server_got_of [simp]: "server_got (SRecv r) = got_of r"
  by (cases r) simp_all

lemma sv_SendHeader_fields [simp]:
  "gs_c2s (snd (sv_SendHeader md s)) = gs_c2s s" "gs_s2c (snd (sv_SendHeader md s)) = gs_s2c s"
  "gs_cancelled (snd (sv_SendHeader md s)) = gs_cancelled s" "gs_ws (snd (sv_SendHeader md s)) = gs_ws s"
  "gs_serverClosed (snd (sv_SendHeader md s)) = gs_serverClosed s" "gs_closeCtx (snd (sv_SendHeader md s)) = gs_closeCtx s"
  "gs_srvClosed (snd (sv_SendHeader md s)) = gs_srvClosed s" "gs_clientClosed (snd (sv_SendHeader md s)) = gs_clientClosed s"
  by (auto simp: sv_SendHeader_def split: prod.splits)

lemma sv_SetHeader_fields [simp]:
  "gs_c2s (snd (sv_SetHeader md s)) = gs_c2s s" "gs_s2c (snd (sv_SetHeader md s)) = gs_s2c s"
  "gs_cancelled (snd (sv_SetHeader md s)) = gs_cancelled s" "gs_ws (snd (sv_SetHeader md s)) = gs_ws s"
  "gs_serverClosed (snd (sv_SetHeader md s)) = gs_serverClosed s" "gs_closeCtx (snd (sv_SetHeader md s)) = gs_closeCtx s"
  "gs_srvClosed (snd (sv_SetHeader md s)) = gs_srvClosed s" "gs_clientClosed (snd (sv_SetHeader md s)) = gs_clientClosed s"
  by (auto simp: sv_SetHeader_def split: prod.splits)

lemma ws_begin_fields [simp]:
  "gs_c2s (ws_begin e s) = gs_c2s s" "gs_s2c (ws_begin e s) = gs_s2c s" "gs_cancelled (ws_begin e s) = gs_cancelled s"
  "gs_serverClosed (ws_begin e s) = gs_serverClosed s" "gs_closeCtx (ws_begin e s) = gs_closeCtx s"
  "gs_srvClosed (ws_begin e s) = gs_srvClosed s" "gs_clientClosed (ws_begin e s) = gs_clientClosed s"
  by (auto simp: ws_begin_def)

lemmas stream_ops = cl_SendMsg_def cl_RecvMsg_def CloseSend_def sv_SendMsg_def sv_RecvMsg_def sv_SetTrailer_def ws_next_def

text \<open>A step moves payloads from one end of the channels to the other.\<close>

lemma step_s2c:
  assumes "step s l s'"
  shows "subseq (client_got l @ gs_s2c s') (gs_s2c s @ server_sent l)"
    and "\<not> gs_cancelled s \<Longrightarrow> PEOF \<notin> set (gs_s2c s) \<Longrightarrow> client_got l @ gs_s2c s' = gs_s2c s @ server_sent l"
    and "length (gs_s2c s) \<le> queueDepth \<Longrightarrow> length (gs_s2c s') \<le> queueDepth"
proof -
  have "subseq (client_got l @ gs_s2c s') (gs_s2c s @ server_sent l)
    \<and> (\<not> gs_cancelled s \<longrightarrow> PEOF \<notin> set (gs_s2c s) \<longrightarrow> client_got l @ gs_s2c s' = gs_s2c s @ server_sent l)
    \<and> (length (gs_s2c s) \<le> queueDepth \<longrightarrow> length (gs_s2c s') \<le> queueDepth)"
    using assms
  proof (cases rule: step.cases)
    case (client_recv pick r)
    then obtain ch where "si_Recv pick (gs_cancelled s) (gs_serverClosed s) (gs_s2c s) = Some (r, ch)" "s' = s\<lparr>gs_s2c := ch\<rparr>"
      by (auto simp: cl_RecvMsg_def)
    with si_Recv_cases [OF this(1)] client_recv show ?thesis
      by (auto dest: list_emb_length)
  qed (auto simp: stream_ops dest!: si_Send_cases split: if_splits ws_state.splits
         dest: arg_cong [where f = "\<lambda>p. gs_s2c (snd p)"])
  then show "subseq (client_got l @ gs_s2c s') (gs_s2c s @ server_sent l)"
    and "\<not> gs_cancelled s \<Longrightarrow> PEOF \<notin> set (gs_s2c s) \<Longrightarrow> client_got l @ gs_s2c s' = gs_s2c s @ server_sent l"
    and "length (gs_s2c s) \<le> queueDepth \<Longrightarrow> length (gs_s2c s') \<le> queueDepth"
    by blast+
qed


lemma step_c2s:
  assumes "step s l s'"
  shows "subseq (server_got l @ gs_c2s s') (gs_c2s s @ client_sent l)"
    and "\<not> gs_cancelled s \<Longrightarrow> PEOF \<notin> set (gs_c2s s) \<Longrightarrow> server_got l @ gs_c2s s' = gs_c2s s @ client_sent l"
    and "length (gs_c2s s) \<le> queueDepth \<Longrightarrow> length (gs_c2s s') \<le> queueDepth"
proof -
  have "subseq (server_got l @ gs_c2s s') (gs_c2s s @ client_sent l)
    \<and> (\<not> gs_cancelled s \<longrightarrow> PEOF \<notin> set (gs_c2s s) \<longrightarrow> server_got l @ gs_c2s s' = gs_c2s s @ client_sent l)
    \<and> (length (gs_c2s s) \<le> queueDepth \<longrightarrow> length (gs_c2s s') \<le> queueDepth)"
    using assms
  proof (cases rule: step.cases)
    case (server_recv pick r)
    then obtain ch where "si_Recv pick (gs_cancelled s) (gs_clientClosed s) (gs_c2s s) = Some (r, ch)" "s' = s\<lparr>gs_c2s := ch\<rparr>"
      by (auto simp: sv_RecvMsg_def)
    with si_Recv_cases [OF this(1)] server_recv show ?thesis
      by (auto dest: list_emb_length)
  qed (auto simp: stream_ops dest!: si_Send_cases split: if_splits ws_state.splits
         dest: arg_cong [where f = "\<lambda>p. gs_c2s (snd p)"])
  then show "subseq (server_got l @ gs_c2s s') (gs_c2s s @ client_sent l)"
    and "\<not> gs_cancelled s \<Longrightarrow> PEOF \<notin> set (gs_c2s s) \<Longrightarrow> server_got l @ gs_c2s s' = gs_c2s s @ client_sent l"
    and "length (gs_c2s s) \<le> queueDepth \<Longrightarrow> length (gs_c2s s') \<le> queueDepth"
    by blast+
qed

text \<open>No payload of the kind that marks the end is ever put into a channel.\<close>

lemma no_end_sent: "PEOF \<notin> set (server_sent l)" "PEOF \<notin> set (client_sent l)"
  by (cases l rule: server_sent.cases; simp) (cases l rule: client_sent.cases; simp)

lemma subseq_set: "subseq xs ys \<Longrightarrow> set xs \<subseteq> set ys"
  by (auto dest: list_emb_set)

lemma run_no_end: "run tr s \<Longrightarrow> PEOF \<notin> set (gs_s2c s) \<and> PEOF \<notin> set (gs_c2s s)"
proof (induction rule: run.induct)
  case (run_step tr s l s')
  then show ?case
    using subseq_set [OF step_s2c(1) [OF run_step.hyps(2)]] subseq_set [OF step_c2s(1) [OF run_step.hyps(2)]]
      no_end_sent [of l] by auto
qed (simp add: NewGrpcStream_def)

lemma run_bounded: "run tr s \<Longrightarrow> length (gs_s2c s) \<le> queueDepth \<and> length (gs_c2s s) \<le> queueDepth"
  by (induction rule: run.induct) (auto simp: NewGrpcStream_def dest: step_s2c(3) step_c2s(3))

abbreviation "all_of f tr \<equiv> concat (map f tr)"

lemma subseq_shift:
  assumes "subseq (g @ c) t" "subseq (g' @ c') (c @ t')"
  shows "subseq (g @ g' @ c') (t @ t')"
proof -
  have "subseq (g @ g' @ c') (g @ c @ t')"
    using assms(2) by (simp add: list_emb_append_mono)
  also have "subseq \<dots> (t @ t')"
    using list_emb_append_mono [OF assms(1) subseq_order.refl [of t']] by simp
  finally show ?thesis .
qed

lemma run_subseq:
  "run tr s \<Longrightarrow> subseq (all_of client_got tr @ gs_s2c s) (all_of server_sent tr)
     \<and> subseq (all_of server_got tr @ gs_c2s s) (all_of client_sent tr)"
proof (induction rule: run.induct)
  case (run_step tr s l s')
  then show ?case
    using subseq_shift [OF conjunct1 [OF run_step.IH] step_s2c(1) [OF run_step.hyps(2)]]
      subseq_shift [OF conjunct2 [OF run_step.IH] step_c2s(1) [OF run_step.hyps(2)]] by simp
qed (simp add: NewGrpcStream_def)

lemma step_cancelled: "step s l s' \<Longrightarrow> gs_cancelled s' = (gs_cancelled s \<or> l = Cancel)"
  by (cases rule: step.cases)
    (auto simp: stream_ops split: if_splits ws_state.splits dest: arg_cong [where f = "\<lambda>p. gs_cancelled (snd p)"])

lemma run_cancelled: "run tr s \<Longrightarrow> gs_cancelled s \<longleftrightarrow> Cancel \<in> set tr"
  by (induction rule: run.induct) (auto simp: NewGrpcStream_def step_cancelled)

lemma run_exact:
  "run tr s \<Longrightarrow> Cancel \<notin> set tr \<Longrightarrow> all_of server_sent tr = all_of client_got tr @ gs_s2c s
     \<and> all_of client_sent tr = all_of server_got tr @ gs_c2s s"
proof (induction rule: run.induct)
  case (run_step tr s l s')
  then show ?case
    using step_s2c(2) [OF run_step.hyps(2)] step_c2s(2) [OF run_step.hyps(2)] run_cancelled [OF run_step.hyps(1)]
      run_no_end [OF run_step.hyps(1)] by auto
qed (simp add: NewGrpcStream_def)


section \<open>Closing\<close>

text \<open>The flags that \<open>WriteStatus\<close> sets, by the statement it has reached; the header is sent before anything else.\<close>

definition close_inv :: "'d grpc_stream \<Rightarrow> bool" where
  "close_inv s \<longleftrightarrow>
     (gs_closeCtx s \<longleftrightarrow> gs_ws s \<in> {WsClose, WsMark, WsDone})
   \<and> (gs_serverClosed s \<longleftrightarrow> gs_ws s \<in> {WsMark, WsDone})
   \<and> (gs_srvClosed s \<longleftrightarrow> gs_ws s = WsDone)
   \<and> (gs_ws s = WsIdle \<or> hw_sent (gs_header s))"

lemma header_ops_sent:
  "hw_sent (gs_header s) \<Longrightarrow> gs_header (snd (sv_SetHeader md s)) = gs_header s"
  "hw_sent (gs_header s) \<Longrightarrow> gs_header (snd (sv_SendHeader md s)) = gs_header s"
  by (auto simp: sv_SetHeader_def sv_SendHeader_def hw_SetHeader_def hw_Send_def)

lemma send_empty_header: "\<not> gs_srvClosed s \<Longrightarrow> hw_sent (gs_header (snd (sv_SendHeader [] s)))"
  by (auto simp: sv_SendHeader_def hw_SetHeader_def hw_Send_def)

text \<open>A header that was sent is never changed.\<close>

lemma step_header:
  assumes "step s l s'" "hw_sent (gs_header s)"
  shows "gs_header s' = gs_header s"
  using assms
  by (cases rule: step.cases)
    (auto simp: stream_ops ws_begin_def header_ops_sent split: if_splits ws_state.splits
      dest: arg_cong [where f = "\<lambda>p. gs_header (snd p)"])

abbreviation phase :: "'d grpc_stream \<Rightarrow> ws_state \<times> bool \<times> bool \<times> bool" where
  "phase s \<equiv> (gs_ws s, gs_closeCtx s, gs_serverClosed s, gs_srvClosed s)"

lemma message_phase:
  "cl_SendMsg sawClosed late pick m s = Some (r, s') \<Longrightarrow> phase s' = phase s"
  "cl_RecvMsg pick s = Some (q, s') \<Longrightarrow> phase s' = phase s"
  "sv_SendMsg late pick m s = Some (r, s') \<Longrightarrow> phase s' = phase s"
  "sv_RecvMsg pick s = Some (q, s') \<Longrightarrow> phase s' = phase s"
  by (auto simp: stream_ops split: if_splits)

lemma header_phase:
  "sv_SetHeader md s = (ok, s') \<Longrightarrow> phase s' = phase s" "sv_SendHeader md s = (ok, s') \<Longrightarrow> phase s' = phase s"
  using sv_SetHeader_fields [of md s] sv_SendHeader_fields [of md s] by simp_all

lemma step_phase:
  assumes "step s l s'"
  shows "phase s' = phase s
    \<or> (\<exists>e. gs_ws s = WsIdle \<and> s' = ws_begin e s)
    \<or> (\<exists>e ch. gs_ws s = WsSend e \<and> s' = s\<lparr>gs_s2c := ch, gs_ws := WsCloseCtx\<rparr>)
    \<or> gs_ws s = WsCloseCtx \<and> s' = s\<lparr>gs_closeCtx := True, gs_ws := WsClose\<rparr>
    \<or> gs_ws s = WsClose \<and> s' = s\<lparr>gs_serverClosed := True, gs_ws := WsMark\<rparr>
    \<or> gs_ws s = WsMark \<and> s' = s\<lparr>gs_srvClosed := True, gs_ws := WsDone\<rparr>"
  using assms
proof (cases rule: step.cases)
  case (write_begin err)
  then show ?thesis by blast
next
  case (write_error late pick r e)
  then show ?thesis by (force simp: ws_next_def)
next
  case (write_next late pick)
  then show ?thesis by (cases "gs_ws s") (auto simp: ws_next_def)
qed (drule message_phase header_phase, rule disjI1, assumption | simp add: stream_ops)+

lemma close_inv_step:
  assumes "close_inv s" "step s l s'"
  shows "close_inv s'"
proof -
  have "hw_sent (gs_header s')" if "hw_sent (gs_header s)"
    using step_header [OF assms(2) that] that by simp
  then show ?thesis
    using assms(1) step_phase [OF assms(2)] send_empty_header [of s]
    by (auto simp: close_inv_def ws_begin_def split: option.splits)
qed

lemma run_close_inv: "run tr s \<Longrightarrow> close_inv s"
  by (induction rule: run.induct) (auto simp: close_inv_step, simp add: close_inv_def NewGrpcStream_def)

text \<open>The client reads the end only from a closed and empty channel.\<close>

lemma recv_end:
  assumes "step s (CRecv REOF) s'" "PEOF \<notin> set (gs_s2c s)"
  shows "gs_s2c s = []" "gs_serverClosed s"
  using assms by (auto elim!: step_cases simp: cl_RecvMsg_def dest: si_Recv_cases(3))

text \<open>The statement \<open>WriteStatus\<close> is at can run, except that the error waits for room in the channel.\<close>

lemma write_status_waits:
  assumes "gs_ws s \<notin> {WsIdle, WsDone}" "close_inv s"
  shows "(\<nexists>l s'. step s l s' \<and> gs_ws s' \<noteq> gs_ws s) \<longleftrightarrow>
    (\<exists>e. gs_ws s = WsSend e) \<and> length (gs_s2c s) \<ge> queueDepth \<and> \<not> gs_cancelled s"
proof (cases "\<exists>e. gs_ws s = WsSend e")
  case True
  then obtain e where e: "gs_ws s = WsSend e" by blast
  have "step s (WError e r) (s\<lparr>gs_s2c := ch, gs_ws := WsCloseCtx\<rparr>)"
    if "si_Send late pick (gs_serverClosed s) (gs_cancelled s) (gs_closeCtx s) (gs_s2c s) (PErr e) = Some (r, ch)"
    for late pick r ch
    using that e by (auto intro!: step.write_error simp: ws_next_def)
  then have "length (gs_s2c s) \<ge> queueDepth \<and> \<not> gs_cancelled s" if "\<nexists>l s'. step s l s' \<and> gs_ws s' \<noteq> gs_ws s"
    using that e unfolding si_Send_def by (fastforce split: if_splits)
  moreover have "gs_ws s' = gs_ws s" if "step s l s'" "length (gs_s2c s) \<ge> queueDepth" "\<not> gs_cancelled s" for l s'
    using that e assms(2)
    by (cases rule: step.cases) (auto simp: stream_ops si_Send_def close_inv_def split: if_splits
      dest: arg_cong [where f = "\<lambda>p. gs_ws (snd p)"])
  ultimately show ?thesis using True by blast
next
  case False
  then have "\<exists>s'. ws_next late pick s = Some (None, s') \<and> gs_ws s' \<noteq> gs_ws s" for late pick
    using assms by (auto simp: ws_next_def split: ws_state.splits)
  then show ?thesis using False step.write_next by metis
qed


section \<open>Delivery\<close>

text \<open>
  C11 (streams deliver in order). What the client has received and what still waits in the channel is, in order, a part of what the
  server has sent, the final error included, and the same holds for the other direction; neither channel ever holds
  more than sixteen payloads. As long as the context is not cancelled nothing is lost, repeated or reordered: what
  was sent is what was received followed by what waits.
\<close>

theorem stream_delivers_in_order:
  assumes "run tr s"
  shows "subseq (all_of client_got tr @ gs_s2c s) (all_of server_sent tr)
    \<and> subseq (all_of server_got tr @ gs_c2s s) (all_of client_sent tr)
    \<and> length (gs_s2c s) \<le> 16 \<and> length (gs_c2s s) \<le> 16
    \<and> (Cancel \<in> set tr
       \<or> all_of server_sent tr = all_of client_got tr @ gs_s2c s \<and> all_of client_sent tr = all_of server_got tr @ gs_c2s s)"
  using run_subseq [OF assms] run_bounded [OF assms] run_exact [OF assms] unfolding queueDepth_def by blast

lemma example_run:
  "run [SSend 1 SendOk, WBegin (Some e), WError e SendOk, CRecv (RData (1::nat)), WStep, WStep, CRecv (RErr e), CRecv REOF]
     (NewGrpcStream\<lparr>gs_header := \<lparr>hw_sent = True, hw_md = []\<rparr>, gs_closeCtx := True, gs_serverClosed := True, gs_ws := WsMark\<rparr>)"
  (is "run _ ?end")
proof -
  let ?h = "\<lparr>hw_sent = True, hw_md = []\<rparr>"
  let ?s1 = "NewGrpcStream\<lparr>gs_header := ?h, gs_s2c := [PData (1::nat)]\<rparr>"
  let ?s2 = "NewGrpcStream\<lparr>gs_header := ?h, gs_s2c := [PData (1::nat)], gs_ws := WsSend e\<rparr>"
  let ?s3 = "NewGrpcStream\<lparr>gs_header := ?h, gs_s2c := [PData (1::nat), PErr e], gs_ws := WsCloseCtx\<rparr>"
  let ?s4 = "NewGrpcStream\<lparr>gs_header := ?h, gs_s2c := [PErr e], gs_ws := WsCloseCtx\<rparr>"
  let ?s5 = "NewGrpcStream\<lparr>gs_header := ?h, gs_s2c := [PErr e], gs_closeCtx := True, gs_ws := WsClose\<rparr>"
  let ?s6 = "NewGrpcStream\<lparr>gs_header := ?h, gs_s2c := [PErr e], gs_closeCtx := True, gs_serverClosed := True, gs_ws := WsMark\<rparr>"
  note defs = stream_ops si_Send_def si_Recv_def ws_begin_def sv_SendHeader_def hw_SetHeader_def hw_Send_def
    NewGrpcStream_def queueDepth_def
  have t1: "step NewGrpcStream (SSend 1 SendOk) ?s1"
    by (rule step.server_send [where late = False and pick = True]) (simp add: defs)
  have "ws_begin (Some e) ?s1 = ?s2"
    by (simp add: defs)
  moreover have "gs_ws ?s1 = WsIdle"
    by (simp add: NewGrpcStream_def)
  ultimately have t2: "step ?s1 (WBegin (Some e)) ?s2"
    using step.write_begin [of ?s1 "Some e"] by (simp only:)
  have t3: "step ?s2 (WError e SendOk) ?s3"
    by (rule step.write_error [where late = False and pick = True]) (simp_all add: defs)
  have t4: "step ?s3 (CRecv (RData 1)) ?s4"
    by (rule step.client_recv [where pick = False]) (simp add: defs)
  have t5: "step ?s4 WStep ?s5"
    by (rule step.write_next [where late = False and pick = True]) (simp add: defs)
  have t6: "step ?s5 WStep ?s6"
    by (rule step.write_next [where late = False and pick = True]) (simp add: defs)
  have t7: "step ?s6 (CRecv (RErr e)) ?end"
    by (rule step.client_recv [where pick = False]) (simp add: defs)
  have t8: "step ?end (CRecv REOF) ?end"
    by (rule step.client_recv [where pick = False]) (simp add: defs)
  show ?thesis
    using run_step [OF run_step [OF run_step [OF run_step [OF run_step [OF run_step [OF run_step [OF run_step
      [OF run_new t1] t2] t3] t4] t5] t6] t7] t8] by simp
qed

theorem stream_delivers_in_order_witness:
  "\<exists>s::nat grpc_stream. run [SSend 1 SendOk, WBegin (Some (Status 5 ''lost'')), WError (Status 5 ''lost'') SendOk,
       CRecv (RData 1), WStep, WStep, CRecv (RErr (Status 5 ''lost'')), CRecv REOF] s
     \<and> [PData 1, PErr (Status 5 ''lost'')] = [PData 1, PErr (Status 5 ''lost'')] @ gs_s2c s"
  using stream_delivers_in_order [OF example_run [of "Status 5 ''lost''"]] example_run [of "Status 5 ''lost''"] by auto

text \<open>
  C12 (the end of a stream). A client that reads the end of a stream that was not cancelled has received everything the server
  has sent, the error of \<open>WriteStatus\<close> included, in the order of sending; the header has been sent and will not
  change, whatever happens afterwards.
\<close>

theorem stream_end_is_complete:
  assumes "run (tr @ [CRecv REOF]) s" "Cancel \<notin> set tr"
  shows "all_of client_got tr = all_of server_sent tr \<and> hw_Header (gs_header s) = Some (hw_md (gs_header s))
    \<and> (\<forall>l s'. step s l s' \<longrightarrow> gs_header s' = gs_header s \<and> gs_serverClosed s')"
proof -
  from assms(1) obtain s0 where s0: "run tr s0" "step s0 (CRecv REOF) s"
    by (cases rule: run.cases) auto
  note empty = recv_end [OF s0(2) conjunct1 [OF run_no_end [OF s0(1)]]]
  have "gs_serverClosed s"
    using step_phase [OF s0(2)] empty(2) by auto
  moreover have sent: "hw_sent (gs_header s)"
    using run_close_inv [OF assms(1)] \<open>gs_serverClosed s\<close> by (auto simp: close_inv_def)
  moreover have "gs_serverClosed s'" if "step s l s'" for l s'
    using step_phase [OF that] \<open>gs_serverClosed s\<close> by auto
  ultimately show ?thesis
    using run_exact [OF s0(1) assms(2)] empty(1) step_header by (auto simp: hw_Header_def)
qed

theorem stream_end_is_complete_witness:
  "\<exists>s::nat grpc_stream. run [SSend 1 SendOk, WBegin (Some (Status 5 ''lost'')), WError (Status 5 ''lost'') SendOk,
       CRecv (RData 1), WStep, WStep, CRecv (RErr (Status 5 ''lost'')), CRecv REOF] s
     \<and> hw_Header (gs_header s) = Some (hw_md (gs_header s))"
  using stream_end_is_complete [of "[SSend 1 SendOk, WBegin (Some (Status 5 ''lost'')), WError (Status 5 ''lost'') SendOk,
       CRecv (RData (1::nat)), WStep, WStep, CRecv (RErr (Status 5 ''lost''))]"] example_run [of "Status 5 ''lost''"]
  by fastforce

end
