(* ===== verification/Httprule.thy ===== *)
theory Httprule
  imports Prelude
begin

text \<open>
  The path templates of HTTP rules, \<^verbatim>\<open>3rdparty/grpc-gateway/httprule\<close>: the tokens of a template, the parser,
  the printer of \<^verbatim>\<open>types.go\<close> and the compiler to operations and a constant pool.

  The parser keeps the list of the tokens that are left. It reads \<open>p.tokens[0]\<close> without a check, which panics
  on an empty list: \<open>Panicked\<close> is that outcome. Its recursion is bounded by the tokens; here it counts fuel
  down, and \<open>OutOfFuel\<close> is never the answer of \<open>Parse\<close>, which starts with more fuel than it has tokens.
  A template is read byte by byte; a byte from 128 on belongs to no token that is accepted.
\<close>

section \<open>Templates\<close>

datatype segment_t = Wildcard | DeepWildcard | Literal string | Variable string "segment_t list"

record template =
  tp_segments :: "segment_t list"
  tp_verb :: string
  tp_template :: string

fun segment_String :: "segment_t \<Rightarrow> string" where
  "segment_String Wildcard = ''*''"
| "segment_String DeepWildcard = ''**''"
| "segment_String (Literal l) = l"
| "segment_String (Variable p segs) = ''{'' @ p @ ''='' @ join ''/'' (map segment_String segs) @ ''}''"

definition template_String :: "template \<Rightarrow> string" where
  "template_String t =
     (let str = join ''/'' (map segment_String (tp_segments t))
      in ''/'' @ (if tp_verb t \<noteq> '''' then str @ '':'' @ tp_verb t else str))"

section \<open>Tokens\<close>

datatype tok_state = Init | Field | Nested

fun stops :: "tok_state \<Rightarrow> string" where
  "stops Init = ''/{''"
| "stops Field = ''.=}''"
| "stops Nested = ''/}''"

definition next_state :: "tok_state \<Rightarrow> char \<Rightarrow> tok_state" where
  "next_state st r =
     (if r = CHR ''{'' then Field else if r = CHR ''='' then Nested else if r = CHR ''}'' then Init else st)"

function tok_loop :: "tok_state \<Rightarrow> string \<Rightarrow> string list" where
  "tok_loop st path =
     (case dropWhile (\<lambda>c. c \<notin> set (stops st)) path of
        [] \<Rightarrow> if path = [] then [] else [path]
      | r # rest \<Rightarrow>
          (let w = takeWhile (\<lambda>c. c \<notin> set (stops st)) path
           in (if w = [] then [[r]] else [w, [r]]) @ tok_loop (next_state st r) rest))"
  by pat_completeness auto
termination
proof (relation "measure (\<lambda>(st, path). length path)", goal_cases)
  case (2 st path r rest w)
  then show ?case using length_dropWhile_le [of "\<lambda>c. c \<notin> set (stops st)" path] by simp
qed simp

declare tok_loop.simps [simp del]

definition eof :: string where
  "eof = [CHR 0x00]"

text \<open>The verb is what follows the last colon of the last token.\<close>

definition split_verb :: "string list \<Rightarrow> string list \<times> string" where
  "split_verb tokens =
     (let t = last tokens
      in case last_index t CHR '':'' of
           None \<Rightarrow> (tokens, '''')
         | Some idx \<Rightarrow>
             if idx = 0 then (butlast tokens, drop 1 t)
             else (butlast tokens @ [take idx t], drop (idx + 1) t))"

definition tokenize :: "string \<Rightarrow> string list \<times> string" where
  "tokenize path =
     (if path = '''' then ([eof], '''')
      else case split_verb (tok_loop Init path) of (tokens, verb) \<Rightarrow> (tokens @ [eof], verb))"

section \<open>Characters\<close>

definition in_range :: "char \<Rightarrow> char \<Rightarrow> char \<Rightarrow> bool" where
  "in_range a b r \<longleftrightarrow> (of_char a :: nat) \<le> of_char r \<and> (of_char r :: nat) \<le> of_char b"

definition isHexDigit :: "char \<Rightarrow> bool" where
  "isHexDigit r \<longleftrightarrow> in_range CHR ''0'' CHR ''9'' r \<or> in_range CHR ''A'' CHR ''F'' r \<or> in_range CHR ''a'' CHR ''f'' r"

datatype pct_state = PctInit | Pct1 | Pct2

fun pchars :: "pct_state \<Rightarrow> string \<Rightarrow> bool" where
  "pchars st [] = (st = PctInit)"
| "pchars st (r # rs) =
     (if st \<noteq> PctInit then isHexDigit r \<and> pchars (if st = Pct1 then Pct2 else PctInit) rs
      else if in_range CHR ''A'' CHR ''Z'' r \<or> in_range CHR ''a'' CHR ''z'' r \<or> in_range CHR ''0'' CHR ''9'' r then pchars st rs
      else if r \<in> set ''-._~'' \<or> r \<in> set ''!$&()*+,;='' \<or> r = CHR 0x27 \<or> r \<in> set '':@'' then pchars st rs
      else if r = CHR ''%'' then pchars Pct1 rs
      else False)"

definition expectPChars :: "string \<Rightarrow> bool" where
  "expectPChars t = pchars PctInit t"

definition ident_char :: "nat \<Rightarrow> char \<Rightarrow> bool" where
  "ident_char pos r \<longleftrightarrow>
     in_range CHR ''0'' CHR ''9'' r \<and> pos \<noteq> 0
   \<or> in_range CHR ''A'' CHR ''Z'' r \<or> in_range CHR ''a'' CHR ''z'' r \<or> r = CHR ''_''"

definition expectIdent :: "string \<Rightarrow> bool" where
  "expectIdent ident \<longleftrightarrow> ident \<noteq> '''' \<and> list_all (\<lambda>(pos, r). ident_char pos r) (enumerate 0 ident)"

section \<open>The parser\<close>

datatype term_type = Symbol string | TIdent | TLiteral | TEOF

datatype parse_err =
    ErrExpected string string | ErrEOF string | ErrIdent string | ErrPChars string
  | ErrSegment parse_err | ErrInVariable string parse_err | ErrUnterminated string | ErrFieldPath parse_err
  | ErrUnexpected string | ErrNoSlash

datatype 'a presult = Panicked | OutOfFuel | Err parse_err | Ok 'a "string list"

text \<open>A symbol also accepts the token \<open>/\<close>, whatever symbol it is.\<close>

fun accept :: "term_type \<Rightarrow> string list \<Rightarrow> string presult" where
  "accept _ [] = Panicked"
| "accept (Symbol s) (t # ts) = (if t \<noteq> s \<and> t \<noteq> ''/'' then Err (ErrExpected s t) else Ok t ts)"
| "accept TEOF (t # ts) = (if t \<noteq> eof then Err (ErrEOF t) else Ok t ts)"
| "accept TIdent (t # ts) = (if \<not> expectIdent t then Err (ErrIdent t) else Ok t ts)"
| "accept TLiteral (t # ts) = (if \<not> expectPChars t then Err (ErrPChars t) else Ok t ts)"

text \<open>The two ways on after a call that may return an error; a panic and missing fuel end the parser.\<close>

fun on_result :: "'a presult \<Rightarrow> ('a \<Rightarrow> string list \<Rightarrow> 'b presult) \<Rightarrow> (parse_err \<Rightarrow> 'b presult) \<Rightarrow> 'b presult" where
  "on_result Panicked ok err = Panicked"
| "on_result OutOfFuel ok err = OutOfFuel"
| "on_result (Err e) ok err = err e"
| "on_result (Ok x ts) ok err = ok x ts"

lemma on_result_cong [fundef_cong]:
  assumes "r = r'" "\<And>x ts. r' = Ok x ts \<Longrightarrow> ok x ts = ok' x ts" "\<And>e. r' = Err e \<Longrightarrow> err e = err' e"
  shows "on_result r ok err = on_result r' ok' err'"
  using assms by (cases r') simp_all

text \<open>\<open>fieldPath\<close>, with the components it has so far.\<close>

fun fieldPath_loop :: "nat \<Rightarrow> string list \<Rightarrow> string list \<Rightarrow> string presult" where
  "fieldPath_loop 0 components ts = OutOfFuel"
| "fieldPath_loop (Suc n) components ts =
     on_result (accept (Symbol ''.'') ts)
       (\<lambda>_ ts1. on_result (accept TIdent ts1)
          (\<lambda>c ts2. fieldPath_loop n (components @ [c]) ts2)
          (\<lambda>e. Err (ErrFieldPath e)))
       (\<lambda>_. Ok (join ''.'' components) ts)"

definition fieldPath :: "nat \<Rightarrow> string list \<Rightarrow> string presult" where
  "fieldPath n ts = on_result (accept TIdent ts) (\<lambda>c ts1. fieldPath_loop n [c] ts1) Err"

fun segments :: "nat \<Rightarrow> string list \<Rightarrow> segment_t list presult"
and segments_loop :: "nat \<Rightarrow> segment_t list \<Rightarrow> string list \<Rightarrow> segment_t list presult"
and segment :: "nat \<Rightarrow> string list \<Rightarrow> segment_t presult"
and variable :: "nat \<Rightarrow> string list \<Rightarrow> segment_t presult" where
  "segments 0 ts = OutOfFuel"
| "segments (Suc n) ts = on_result (segment n ts) (\<lambda>s ts1. segments_loop n [s] ts1) Err"
| "segments_loop 0 segs ts = OutOfFuel"
| "segments_loop (Suc n) segs ts =
     on_result (accept (Symbol ''/'') ts)
       (\<lambda>_ ts1. on_result (segment n ts1) (\<lambda>s ts2. segments_loop n (segs @ [s]) ts2) Err)
       (\<lambda>_. Ok segs ts)"
| "segment 0 ts = OutOfFuel"
| "segment (Suc n) ts =
     on_result (accept (Symbol ''*'') ts) (\<lambda>_. Ok Wildcard)
       (\<lambda>_. on_result (accept (Symbol ''**'') ts) (\<lambda>_. Ok DeepWildcard)
         (\<lambda>_. on_result (accept TLiteral ts) (\<lambda>l. Ok (Literal l))
           (\<lambda>_. on_result (variable n ts) Ok (\<lambda>e. Err (ErrSegment e)))))"
| "variable 0 ts = OutOfFuel"
| "variable (Suc n) ts =
     on_result (accept (Symbol ''{'') ts)
       (\<lambda>_ ts1. on_result (fieldPath n ts1)
         (\<lambda>path ts2.
           on_result
             (on_result (accept (Symbol ''='') ts2)
               (\<lambda>_ ts3. on_result (segments n ts3) Ok (\<lambda>e. Err (ErrInVariable path e)))
               (\<lambda>_. Ok [Wildcard] ts2))
             (\<lambda>segs ts4. on_result (accept (Symbol ''}'') ts4)
               (\<lambda>_ ts5. Ok (Variable path segs) ts5)
               (\<lambda>_. Err (ErrUnterminated path)))
             Err)
         Err)
       Err"

definition topLevelSegments :: "nat \<Rightarrow> string list \<Rightarrow> segment_t list presult" where
  "topLevelSegments n ts =
     on_result (segments n ts)
       (\<lambda>segs ts1. on_result (accept TEOF ts1) (\<lambda>_ ts2. Ok segs ts2) (\<lambda>_. Err (ErrUnexpected (hd ts1))))
       Err"

datatype parsed = ParsePanic | ParseFuel | ParseError parse_err | Parsed template

definition Parse :: "string \<Rightarrow> parsed" where
  "Parse tmpl =
     (if \<not> has_prefix tmpl ''/'' then ParseError ErrNoSlash
      else case tokenize (drop 1 tmpl) of
        (tokens, verb) \<Rightarrow>
          (case topLevelSegments (length tokens + 3) tokens of
             Panicked \<Rightarrow> ParsePanic
           | OutOfFuel \<Rightarrow> ParseFuel
           | Err e \<Rightarrow> ParseError e
           | Ok segs _ \<Rightarrow> Parsed \<lparr>tp_segments = segs, tp_verb = verb, tp_template = tmpl\<rparr>))"

section \<open>The parser returns\<close>

text \<open>The tokens of a template end with \<open>eof\<close>, and every outcome of the parser keeps it so.\<close>

definition good :: "string list \<Rightarrow> bool" where
  "good ts \<longleftrightarrow> ts \<noteq> [] \<and> last ts = eof"

fun fine :: "nat \<Rightarrow> 'a presult \<Rightarrow> bool" where
  "fine k Panicked = False"
| "fine k OutOfFuel = False"
| "fine k (Err e) = True"
| "fine k (Ok x ts) = (good ts \<and> length ts < k)"

lemma eof_no_token [simp]: "\<not> expectIdent eof" "\<not> expectPChars eof"
  by code_simp+

lemma symbol_not_eof [simp]: "''/'' \<noteq> eof" "''*'' \<noteq> eof" "''**'' \<noteq> eof" "''.'' \<noteq> eof" "''='' \<noteq> eof" "''{'' \<noteq> eof" "''}'' \<noteq> eof"
  by (simp_all add: eof_def)

lemma accept_fine:
  assumes "good ts" "tt \<noteq> TEOF" "tt \<noteq> Symbol eof" "length ts \<le> k"
  shows "fine k (accept tt ts)"
proof -
  obtain t us where ts: "ts = t # us" using assms(1) by (cases ts) (auto simp: good_def)
  have "good us \<and> length us < k" if "t \<noteq> eof"
    using assms(1,4) that by (cases us) (auto simp: good_def ts)
  then show ?thesis using assms(2,3) ts
    by (cases tt; cases "t = eof") (auto simp: symbol_not_eof(1) [symmetric])
qed

lemma fine_mono: "fine k r \<Longrightarrow> k \<le> k' \<Longrightarrow> fine k' r"
  by (cases r) auto

lemma fine_on_result:
  assumes "fine k r" "\<And>x ts. r = Ok x ts \<Longrightarrow> good ts \<Longrightarrow> length ts < k \<Longrightarrow> fine k' (ok x ts)" "\<And>e. r = Err e \<Longrightarrow> fine k' (err e)"
  shows "fine k' (on_result r ok err)"
  using assms by (cases r) simp_all

lemma fieldPath_loop_fine:
  "good ts \<Longrightarrow> length ts < n \<Longrightarrow> length ts < k \<Longrightarrow> fine k (fieldPath_loop n cs ts)"
proof (induction n cs ts rule: fieldPath_loop.induct)
  case (2 n cs ts)
  show ?case unfolding fieldPath_loop.simps
  proof (intro fine_on_result [where k = "length ts"] accept_fine)
    fix x ts1 c ts2
    assume "accept (Symbol ''.'') ts = Ok x ts1" "accept TIdent ts1 = Ok c ts2" "good ts2" "length ts2 < length ts"
    then show "fine k (fieldPath_loop n (cs @ [c]) ts2)" using 2 by simp
  qed (use 2 in auto)
qed simp

lemma fieldPath_fine:
  assumes "good ts" "length ts \<le> n" "length ts \<le> k"
  shows "fine k (fieldPath n ts)"
  unfolding fieldPath_def using assms
  by (intro fine_on_result [where k = "length ts"] accept_fine) (auto intro!: fieldPath_loop_fine)

lemma parser_fine:
  "good ts \<Longrightarrow> length ts + 3 \<le> n \<Longrightarrow> fine (length ts) (segments n ts)"
  "good ts \<Longrightarrow> length ts + 2 \<le> n \<Longrightarrow> fine (Suc (length ts)) (segments_loop n segs ts)"
  "good ts \<Longrightarrow> length ts + 2 \<le> n \<Longrightarrow> fine (length ts) (segment n ts)"
  "good ts \<Longrightarrow> length ts + 1 \<le> n \<Longrightarrow> fine (length ts) (variable n ts)"
proof (induction n ts and n segs ts and n ts and n ts rule: segments_segments_loop_segment_variable.induct)
  case (2 n ts)
  then show ?case unfolding segments.simps
    by (intro fine_on_result [where k = "length ts"]) (auto intro: fine_mono)
next
  case (4 n segs ts)
  show ?case unfolding segments_loop.simps
  proof (intro fine_on_result [where k = "length ts"] accept_fine)
    fix x ts1 assume 1: "accept (Symbol ''/'') ts = Ok x ts1" "good ts1" "length ts1 < length ts"
    show "fine (length ts) (segment n ts1)" using 4(1) [OF 1(1)] 4 1 by (auto intro: fine_mono)
    fix s ts2 assume 2: "segment n ts1 = Ok s ts2" "good ts2" "length ts2 < length ts"
    show "fine (Suc (length ts)) (segments_loop n (segs @ [s]) ts2)"
      using 4(2) [OF 1(1) 2(1)] 4 2 by (auto intro: fine_mono)
  qed (use 4 in auto)
next
  case (6 n ts)
  then show ?case unfolding segment.simps
    by (intro fine_on_result [where k = "length ts"] accept_fine) auto
next
  case (8 n ts)
  show ?case unfolding variable.simps
  proof (intro fine_on_result [where k = "length ts"] accept_fine fieldPath_fine)
    fix x1 ts1 path ts2 x3 ts3
    assume a: "accept (Symbol ''{'') ts = Ok x1 ts1" "fieldPath n ts1 = Ok path ts2"
      "accept (Symbol ''='') ts2 = Ok x3 ts3" "good ts1" "length ts1 < length ts" "good ts2" "good ts3"
    have "length ts2 < length ts1" "length ts3 < length ts2"
      using fieldPath_fine [of ts1 n "length ts1"] accept_fine [of ts2 "Symbol ''=''" "length ts2"] a 8 by simp_all
    with a 8 have "length ts3 + 3 \<le> n" "length ts3 \<le> length ts" by simp_all
    then show "fine (length ts) (segments n ts3)"
      using 8(1) [OF a(1,2,3)] a by (auto intro: fine_mono)
  qed (use 8 in auto)
qed simp_all


lemma tokenize_good: "good (fst (tokenize path))"
  by (auto simp: tokenize_def good_def split: prod.splits)

lemma topLevelSegments_returns:
  assumes "good ts" "length ts + 3 \<le> n"
  shows "topLevelSegments n ts \<noteq> Panicked \<and> topLevelSegments n ts \<noteq> OutOfFuel"
proof (cases "segments n ts")
  case (Ok segs us)
  then have "good us" using parser_fine(1) [OF assms] by simp
  then have "us = hd us # tl us" by (simp add: good_def)
  then have "accept TEOF us = (if hd us \<noteq> eof then Err (ErrEOF (hd us)) else Ok (hd us) (tl us))"
    by (metis accept.simps(3))
  then show ?thesis using Ok by (simp add: topLevelSegments_def)
qed (use parser_fine(1) [OF assms] in \<open>simp_all add: topLevelSegments_def\<close>)

lemma parse_returns: "Parse tmpl \<noteq> ParsePanic \<and> Parse tmpl \<noteq> ParseFuel"
  using tokenize_good [of "drop 1 tmpl"] topLevelSegments_returns [of "fst (tokenize (drop 1 tmpl))", OF _ order.refl]
  by (auto simp: Parse_def split: prod.splits presult.splits)

section \<open>Printing and parsing\<close>

text \<open>
  A template that can be written down: literals and names of the grammar, at least one segment everywhere, no
  variable inside a variable, and a verb that is told apart from the last segment.
\<close>

fun wf_plain :: "segment_t \<Rightarrow> bool" where
  "wf_plain Wildcard = True"
| "wf_plain DeepWildcard = True"
| "wf_plain (Literal l) = (l \<noteq> '''' \<and> l \<noteq> ''*'' \<and> l \<noteq> ''**'' \<and> expectPChars l)"
| "wf_plain (Variable p segs) = False"

fun wf_segment :: "segment_t \<Rightarrow> bool" where
  "wf_segment (Variable p segs) = (list_all expectIdent (split_char CHR ''.'' p) \<and> segs \<noteq> [] \<and> list_all wf_plain segs)"
| "wf_segment s = wf_plain s"

fun wf_end :: "segment_t \<Rightarrow> bool" where
  "wf_end (Literal l) = (CHR '':'' \<notin> set l)"
| "wf_end s = True"

definition wf_template :: "template \<Rightarrow> bool" where
  "wf_template t \<longleftrightarrow>
     tp_segments t \<noteq> [] \<and> list_all wf_segment (tp_segments t)
   \<and> set (tp_verb t) \<inter> set '':/{'' = {} \<and> (tp_verb t \<noteq> '''' \<or> wf_end (last (tp_segments t)))"

text \<open>The tokens of a printed segment.\<close>

fun sep :: "string \<Rightarrow> string list list \<Rightarrow> string list" where
  "sep c [] = []"
| "sep c (w # ws) = w @ concat (map (\<lambda>v. c # v) ws)"

fun seg_tokens :: "segment_t \<Rightarrow> string list" where
  "seg_tokens (Variable p segs) =
     ''{'' # sep ''.'' (map (\<lambda>i. [i]) (split_char CHR ''.'' p)) @ ''='' # sep ''/'' (map (\<lambda>s. [segment_String s]) segs) @ [''}'']"
| "seg_tokens s = [segment_String s]"

lemma pchars_hd: "pchars PctInit (r # rs) \<Longrightarrow> r \<noteq> CHR ''/'' \<and> r \<noteq> CHR ''{'' \<and> r \<noteq> CHR ''}'' \<and> r \<noteq> CHR 0x00"
  by (auto simp: in_range_def)

lemma hex_plain: "isHexDigit r \<Longrightarrow> r \<noteq> CHR ''/'' \<and> r \<noteq> CHR ''{'' \<and> r \<noteq> CHR ''}''"
  by (auto simp: isHexDigit_def in_range_def)

lemma pchars_plain: "pchars st l \<Longrightarrow> set l \<inter> set ''/{}'' = {}"
proof (induction st l rule: pchars.induct)
  case (2 st r rs)
  then show ?case using hex_plain [of r] pchars_hd [of r rs]
    by (cases st) (auto split: if_splits)
qed simp

lemma list_all_enumerate: "list_all (\<lambda>(pos, r). P pos r) (enumerate n xs) \<Longrightarrow> c \<in> set xs \<Longrightarrow> \<exists>pos. P pos c"
  by (induction xs arbitrary: n) auto

lemma ident_plain:
  assumes "expectIdent i"
  shows "i \<noteq> ''''" "set i \<inter> set ''.=}/'' = {}"
proof -
  have "\<exists>pos. ident_char pos c" if "c \<in> set i" for c
    using assms that list_all_enumerate [of ident_char 0 i c] unfolding expectIdent_def by blast
  moreover have "\<not> ident_char pos c" if "c \<in> set ''.=}/''" for pos c
    using that by (auto simp: ident_char_def in_range_def)
  ultimately show "set i \<inter> set ''.=}/'' = {}" by blast
qed (use assms in \<open>simp add: expectIdent_def\<close>)

text \<open>What the tokenizer makes of printed text.\<close>

lemma tok_loop_stop:
  assumes "set w \<inter> set (stops st) = {}" "r \<in> set (stops st)"
  shows "tok_loop st (w @ r # rest) = (if w = [] then [[r]] else [w, [r]]) @ tok_loop (next_state st r) rest"
proof -
  have "\<forall>c \<in> set w. c \<notin> set (stops st)" using assms(1) by blast
  then have "dropWhile (\<lambda>c. c \<notin> set (stops st)) (w @ r # rest) = r # rest"
    "takeWhile (\<lambda>c. c \<notin> set (stops st)) (w @ r # rest) = w"
    using assms(2) by (simp_all add: dropWhile_append3 takeWhile_append dropWhile_append)
  then show ?thesis by (subst tok_loop.simps) (simp add: Let_def)
qed

lemma tok_loop_rest:
  assumes "set w \<inter> set (stops st) = {}"
  shows "tok_loop st w = (if w = [] then [] else [w])"
proof -
  have "dropWhile (\<lambda>c. c \<notin> set (stops st)) w = []" using assms by auto
  then show ?thesis by (subst tok_loop.simps) (simp only: list.case)
qed

lemma plain_String:
  assumes "wf_plain s"
  shows "segment_String s \<noteq> ''''" "set (segment_String s) \<inter> set ''/{}'' = {}"
  using assms pchars_plain by (cases s; auto simp: expectPChars_def)+

lemma tok_names:
  assumes "list_all expectIdent ids" "ids \<noteq> []"
  shows "tok_loop Field (join ''.'' ids @ ''='' @ rest) = sep ''.'' (map (\<lambda>i. [i]) ids) @ [''=''] @ tok_loop Nested rest"
  using assms
proof (induction ids rule: induct_list012)
  case (2 i)
  then show ?case using ident_plain [of i] tok_loop_stop [of i Field "CHR ''=''" rest] by (auto simp: next_state_def)
next
  case (3 i j ids)
  then show ?case using ident_plain [of i] tok_loop_stop [of i Field "CHR ''.''" "join ''.'' (j # ids) @ ''='' @ rest"]
    by (auto simp: next_state_def)
qed simp

lemma tok_nested:
  assumes "list_all wf_plain segs" "segs \<noteq> []"
  shows "tok_loop Nested (join ''/'' (map segment_String segs) @ ''}'' @ rest)
    = sep ''/'' (map (\<lambda>s. [segment_String s]) segs) @ [''}''] @ tok_loop Init rest"
  using assms
proof (induction segs rule: induct_list012)
  case (2 s)
  then show ?case using plain_String [of s] tok_loop_stop [of "segment_String s" Nested "CHR ''}''" rest]
    by (auto simp: next_state_def)
next
  case (3 s s' segs)
  then show ?case using plain_String [of s]
      tok_loop_stop [of "segment_String s" Nested "CHR ''/''" "join ''/'' (map segment_String (s' # segs)) @ ''}'' @ rest"]
    by (auto simp: next_state_def)
qed simp

lemma tok_variable:
  assumes "wf_segment (Variable p segs)"
  shows "tok_loop Init (segment_String (Variable p segs) @ rest) = seg_tokens (Variable p segs) @ tok_loop Init rest"
  using assms tok_names [of "split_char CHR ''.'' p" "join ''/'' (map segment_String segs) @ ''}'' @ rest"]
    tok_nested [of segs rest] tok_loop_stop [of "[]" Init "CHR ''{''"]
  by (simp add: next_state_def)

lemma tok_segment:
  assumes "wf_segment s"
  shows "tok_loop Init (segment_String s @ ''/'' @ rest) = seg_tokens s @ [''/''] @ tok_loop Init rest"
proof (cases "\<exists>p segs. s = Variable p segs")
  case True
  then show ?thesis using assms tok_variable tok_loop_stop [of "[]" Init "CHR ''/''" rest] by (auto simp: next_state_def)
next
  case False
  then have "wf_plain s" "seg_tokens s = [segment_String s]" using assms by (cases s; simp)+
  then show ?thesis using plain_String [of s] tok_loop_stop [of "segment_String s" Init "CHR ''/''" rest]
    by (auto simp: next_state_def)
qed


lemma last_index_none: "c \<notin> set s \<Longrightarrow> last_index s c = None"
  by (induction s) auto

lemma last_index_last: "c \<notin> set v \<Longrightarrow> last_index (x @ c # v) c = Some (length x)"
  by (induction x) (auto simp: last_index_none)

lemma split_verb_append: "ys \<noteq> [] \<Longrightarrow> split_verb (xs @ ys) = (xs @ fst (split_verb ys), snd (split_verb ys))"
  by (auto simp: split_verb_def Let_def butlast_append split: option.splits)

lemma tok_loop_nonempty: "s \<noteq> [] \<Longrightarrow> tok_loop st s \<noteq> []"
  by (subst tok_loop.simps) (auto simp: Let_def split: list.splits)

lemma segment_String_nonempty: "wf_segment s \<Longrightarrow> segment_String s \<noteq> ''''"
  by (cases s) auto

definition verb_suffix :: "string \<Rightarrow> string" where
  "verb_suffix verb = (if verb = '''' then '''' else '':'' @ verb)"

lemma split_verb_last:
  assumes "wf_segment s" "set verb \<inter> set '':/{'' = {}" "verb \<noteq> '''' \<or> wf_end s"
  shows "split_verb (tok_loop Init (segment_String s @ verb_suffix verb)) = (seg_tokens s, verb)"
proof (cases "\<exists>p segs. s = Variable p segs")
  case True
  then obtain p segs where s: "s = Variable p segs" by blast
  have "tok_loop Init (verb_suffix verb) = (if verb = '''' then [] else ['':'' @ verb])"
    using assms(2) by (subst tok_loop_rest) (auto simp: verb_suffix_def)
  then show ?thesis using tok_variable [of p segs "verb_suffix verb"] assms s last_index_last [of "CHR '':''" verb "[]"]
    by (auto simp: split_verb_def Let_def butlast_append)
next
  case False
  then have s: "wf_plain s" "seg_tokens s = [segment_String s]" using assms(1) by (cases s; simp)+
  then have "tok_loop Init (segment_String s @ verb_suffix verb) = [segment_String s @ verb_suffix verb]"
    using plain_String [of s] assms(2) by (subst tok_loop_rest) (auto simp: verb_suffix_def)
  moreover have "CHR '':'' \<notin> set (segment_String s)" if "verb = ''''" using assms(3) that False by (cases s) auto
  ultimately show ?thesis using s plain_String(1) [of s] assms(2)
    by (auto simp: split_verb_def Let_def verb_suffix_def last_index_none last_index_last)
qed

lemma split_verb_template:
  assumes "segs \<noteq> []" "list_all wf_segment segs" "set verb \<inter> set '':/{'' = {}" "verb \<noteq> '''' \<or> wf_end (last segs)"
  shows "split_verb (tok_loop Init (join ''/'' (map segment_String segs) @ verb_suffix verb)) = (sep ''/'' (map seg_tokens segs), verb)"
  using assms
proof (induction segs rule: induct_list012)
  case (3 s s' segs)
  let ?rest = "join ''/'' (map segment_String (s' # segs)) @ verb_suffix verb"
  have "?rest \<noteq> []" using 3 segment_String_nonempty [of s'] by (cases segs) auto
  then have "tok_loop Init ?rest \<noteq> []" by (rule tok_loop_nonempty)
  then show ?case using 3 tok_segment [of s ?rest] split_verb_append [of "tok_loop Init ?rest" "seg_tokens s @ [''/'']"]
    by simp
qed (simp_all add: split_verb_last)

text \<open>What the parser makes of these tokens.\<close>

lemma parse_plain: "wf_plain s \<Longrightarrow> 1 \<le> n \<Longrightarrow> segment n (segment_String s # ts) = Ok s ts"
  using pchars_plain [of PctInit "''/''"] by (cases n; cases s) (auto simp: expectPChars_def)

lemma parse_names_loop:
  "list_all expectIdent ids \<Longrightarrow> cs \<noteq> [] \<Longrightarrow> length ids < n
    \<Longrightarrow> fieldPath_loop n cs (concat (map (\<lambda>i. [''.'', i]) ids) @ ''='' # ts) = Ok (join ''.'' (cs @ ids)) (''='' # ts)"
  by (induction ids arbitrary: n cs) (case_tac [!] n, auto)

lemma parse_names:
  "list_all expectIdent ids \<Longrightarrow> ids \<noteq> [] \<Longrightarrow> length ids \<le> n
    \<Longrightarrow> fieldPath n (sep ''.'' (map (\<lambda>i. [i]) ids) @ ''='' # ts) = Ok (join ''.'' ids) (''='' # ts)"
  using parse_names_loop [of "tl ids" "[hd ids]" n ts] by (cases ids) (auto simp: fieldPath_def comp_def)

lemma parse_loop:
  assumes "\<And>s m us. s \<in> set segs \<Longrightarrow> length (f s) \<le> m \<Longrightarrow> segment m (f s @ us) = Ok s us"
    and "length (concat (map (\<lambda>s. ''/'' # f s) segs)) < n" "t \<noteq> ''/''"
  shows "segments_loop n acc (concat (map (\<lambda>s. ''/'' # f s) segs) @ t # ts) = Ok (acc @ segs) (t # ts)"
  using assms
proof (induction segs arbitrary: n acc)
  case Nil
  then show ?case by (cases n) auto
next
  case (Cons s segs)
  then obtain m where n: "n = Suc m" by (cases n) auto
  then have "segment m (f s @ concat (map (\<lambda>s. ''/'' # f s) segs) @ t # ts) = Ok s (concat (map (\<lambda>s. ''/'' # f s) segs) @ t # ts)"
    using Cons.prems by simp
  then show ?case using Cons n by simp
qed

lemma parse_segments:
  assumes "\<And>s m us. s \<in> set segs \<Longrightarrow> length (f s) \<le> m \<Longrightarrow> segment m (f s @ us) = Ok s us"
    and "length (sep ''/'' (map f segs)) + 2 \<le> n" "t \<noteq> ''/''" "segs \<noteq> []"
  shows "segments n (sep ''/'' (map f segs) @ t # ts) = Ok segs (t # ts)"
proof -
  obtain s segs' where segs: "segs = s # segs'" using assms(4) by (cases segs) auto
  obtain m where n: "n = Suc m" using assms(2) by (cases n) auto
  have "segments_loop m [s] (concat (map (\<lambda>s. ''/'' # f s) segs') @ t # ts) = Ok ([s] @ segs') (t # ts)"
    using assms segs n by (intro parse_loop) (auto simp: comp_def)
  then show ?thesis using assms(1) [of s m] assms(2) segs n by (simp add: comp_def)
qed


lemma length_sep: "length (sep c ws) = (\<Sum>w\<leftarrow>ws. length w) + (length ws - 1)"
proof (cases ws)
  case (Cons w vs)
  have "length (concat (map ((#) c) vs)) = (\<Sum>w\<leftarrow>vs. length w) + length vs" by (induction vs) auto
  then show ?thesis using Cons by simp
qed simp

lemma parse_segment:
  assumes "wf_segment s" "length (seg_tokens s) \<le> n"
  shows "segment n (seg_tokens s @ us) = Ok s us"
proof (cases "\<exists>p segs. s = Variable p segs")
  case True
  then obtain p segs where s: "s = Variable p segs" by blast
  let ?ids = "split_char CHR ''.'' p" let ?inner = "sep ''/'' (map (\<lambda>s. [segment_String s]) segs)"
  have wf: "list_all expectIdent ?ids" "segs \<noteq> []" "list_all wf_plain segs" using assms(1) s by simp_all
  have len: "length (seg_tokens s) = length (sep ''.'' (map (\<lambda>i. [i]) ?ids)) + length ?inner + 3"
    "length ?ids \<le> length (sep ''.'' (map (\<lambda>i. [i]) ?ids))" using s by (simp_all add: length_sep comp_def sum_list_triv)
  then have "2 \<le> n" using assms(2) by linarith
  then obtain k where n: "n = Suc (Suc k)" by (metis add_2_eq_Suc le_Suc_ex)
  have "0 < length ?ids" by simp
  then have "length ?ids \<le> k" "length ?inner + 2 \<le> k" using assms(2) len n by linarith+
  then have "fieldPath k (sep ''.'' (map (\<lambda>i. [i]) ?ids) @ ''='' # ?inner @ ''}'' # us) = Ok p (''='' # ?inner @ ''}'' # us)"
    and "segments k (?inner @ ''}'' # us) = Ok segs (''}'' # us)"
    using wf parse_names [of ?ids k] parse_segments [of segs "\<lambda>s. [segment_String s]" k "''}''" us] parse_plain
    by (auto simp: list_all_iff)
  moreover have "\<not> expectPChars ''{''" by code_simp
  ultimately show ?thesis using s n by simp
next
  case False
  then have "wf_plain s" "seg_tokens s = [segment_String s]" using assms(1) by (cases s; simp)+
  then show ?thesis using assms(2) parse_plain [of s n us] by simp
qed

text \<open>
  C13 (templates are read back). A well-formed template is parsed from its printed form: the same segments and the
  same verb.
\<close>

theorem parse_template_String:
  assumes "wf_template t"
  shows "Parse (template_String t) = Parsed (t\<lparr>tp_template := template_String t\<rparr>)"
proof -
  let ?segs = "tp_segments t" let ?s = "join ''/'' (map segment_String ?segs) @ verb_suffix (tp_verb t)"
  let ?ts = "sep ''/'' (map seg_tokens ?segs)"
  have str: "template_String t = ''/'' @ ?s" by (simp add: template_String_def verb_suffix_def)
  have ne: "?segs \<noteq> []" and wf: "list_all wf_segment ?segs" using assms by (simp_all add: wf_template_def)
  then have "?s \<noteq> []" using segment_String_nonempty by (cases "(''/'', map segment_String ?segs)" rule: join.cases) auto
  moreover have "split_verb (tok_loop Init ?s) = (?ts, tp_verb t)"
    using assms by (intro split_verb_template) (auto simp: wf_template_def)
  ultimately have "tokenize ?s = (?ts @ [eof], tp_verb t)" by (auto simp: tokenize_def)
  moreover have "segments (length (?ts @ [eof]) + 3) (?ts @ eof # []) = Ok ?segs [eof]"
    using ne wf parse_segment by (intro parse_segments) (auto simp: list_all_iff symbol_not_eof(1) [symmetric])
  ultimately show ?thesis by (simp add: Parse_def str has_prefix_def topLevelSegments_def)
qed


theorem parse_template_String_witness:
  "Parse ''/v1/{name.id=shelves/*}/a:b:get'' = Parsed
     \<lparr>tp_segments = [Literal ''v1'', Variable ''name.id'' [Literal ''shelves'', Wildcard], Literal ''a:b''], tp_verb = ''get'',
      tp_template = ''/v1/{name.id=shelves/*}/a:b:get''\<rparr>"
proof -
  let ?t = "\<lparr>tp_segments = [Literal ''v1'', Variable ''name.id'' [Literal ''shelves'', Wildcard], Literal ''a:b''], tp_verb = ''get'',
    tp_template = ''''\<rparr>"
  have "wf_template ?t" by code_simp
  moreover have "template_String ?t = ''/v1/{name.id=shelves/*}/a:b:get''" by code_simp
  ultimately show ?thesis using parse_template_String [of ?t] by simp
qed

text \<open>A slash where a segment is expected is read as a wildcard, so that three slashes are read like \<open>/*/\<close>.\<close>

lemma slash_is_wildcard:
  "case (Parse ''/a///b'', Parse ''/a/*/b'') of (Parsed t, Parsed u) \<Rightarrow> tp_segments t = tp_segments u | _ \<Rightarrow> False"
  by code_simp

text \<open>A NUL byte after a variable ends the template: what follows is not read.\<close>

lemma nul_ends_template:
  "case Parse (''/{a}'' @ eof @ ''/not read}'') of Parsed t \<Rightarrow> tp_segments t = [Variable ''a'' [Wildcard]] | _ \<Rightarrow> False"
  by code_simp

section \<open>Compiled templates\<close>

text \<open>
  The operation codes are constants of \<^verbatim>\<open>grpc-gateway/utilities\<close>; \<open>code\<close> gives their numbers. An operand is a
  place in the pool if the operation has a text, and its number otherwise.
\<close>

datatype op_code = OpPush | OpPushM | OpLitPush | OpConcatN | OpCapture

record op =
  op_code :: op_code
  op_str :: string
  op_num :: nat

fun seg_compile :: "segment_t \<Rightarrow> op list" where
  "seg_compile Wildcard = [\<lparr>op_code = OpPush, op_str = '''', op_num = 0\<rparr>]"
| "seg_compile DeepWildcard = [\<lparr>op_code = OpPushM, op_str = '''', op_num = 0\<rparr>]"
| "seg_compile (Literal l) = [\<lparr>op_code = OpLitPush, op_str = l, op_num = 0\<rparr>]"
| "seg_compile (Variable p segs) =
     concat (map seg_compile segs)
     @ [\<lparr>op_code = OpConcatN, op_str = '''', op_num = length segs\<rparr>, \<lparr>op_code = OpCapture, op_str = p, op_num = 0\<rparr>]"

record compiled =
  ct_OpCodes :: "int list"
  ct_Pool :: "string list"
  ct_Verb :: string
  ct_Fields :: "string list"
  ct_Template :: string

definition compile_op ::
  "(op_code \<Rightarrow> int) \<Rightarrow> op \<Rightarrow> int list \<times> string list \<times> string list \<times> (string \<times> nat) list
     \<Rightarrow> int list \<times> string list \<times> string list \<times> (string \<times> nat) list" where
  "compile_op code x acc = (case acc of (ops, pool, flds, cmap) \<Rightarrow>
     let (operand, pool', cmap') =
       (if op_str x = '''' then (int (op_num x), pool, cmap)
        else (case map_of cmap (op_str x) of
                None \<Rightarrow> (int (length pool), pool @ [op_str x], (op_str x, length pool) # cmap)
              | Some k \<Rightarrow> (int k, pool, cmap)))
     in (ops @ [code (op_code x), operand], pool', if op_code x = OpCapture then flds @ [op_str x] else flds, cmap'))"

definition raw_ops :: "template \<Rightarrow> op list" where
  "raw_ops t = concat (map seg_compile (tp_segments t))"

definition Compile :: "(op_code \<Rightarrow> int) \<Rightarrow> template \<Rightarrow> compiled" where
  "Compile code t =
     (case fold (compile_op code) (raw_ops t) ([], [], [], []) of (ops, pool, flds, cmap) \<Rightarrow>
        \<lparr>ct_OpCodes = ops, ct_Pool = pool, ct_Verb = tp_verb t, ct_Fields = flds, ct_Template = tp_template t\<rparr>)"

text \<open>What \<open>runtime.NewPattern\<close> is given: each code with its operand, read through the pool where it takes a text.\<close>

fun read_ops :: "(op_code \<Rightarrow> int) \<Rightarrow> string list \<Rightarrow> int list \<Rightarrow> (int \<times> string \<times> nat) list option" where
  "read_ops code pool [] = Some []"
| "read_ops code pool [x] = None"
| "read_ops code pool (c # k # ops) =
     (case read_ops code pool ops of
        None \<Rightarrow> None
      | Some rest \<Rightarrow>
          if c = code OpLitPush \<or> c = code OpCapture
          then (if 0 \<le> k \<and> nat k < length pool then Some ((c, pool ! nat k, 0) # rest) else None)
          else Some ((c, '''', nat k) # rest))"


text \<open>An operation has a text exactly if its code takes one.\<close>

definition op_ok :: "op \<Rightarrow> bool" where
  "op_ok x \<longleftrightarrow> (if op_code x \<in> {OpLitPush, OpCapture} then op_str x \<noteq> '''' \<and> op_num x = 0 else op_str x = '''')"

definition pool_inv :: "string list \<times> (string \<times> nat) list \<Rightarrow> bool" where
  "pool_inv st \<longleftrightarrow> (case st of (pool, cmap) \<Rightarrow>
     distinct pool \<and> (\<forall>s k. map_of cmap s = Some k \<longleftrightarrow> k < length pool \<and> pool ! k = s))"

lemma pool_inv_grow:
  assumes "pool_inv (pool, cmap)" "map_of cmap s = None"
  shows "pool_inv (pool @ [s], (s, length pool) # cmap)"
proof -
  have cm: "map_of cmap x = Some k \<longleftrightarrow> k < length pool \<and> pool ! k = x" for x k
    using assms(1) by (simp add: pool_inv_def)
  have "s \<notin> set pool"
  proof
    assume "s \<in> set pool"
    then obtain k where "k < length pool" "pool ! k = s" by (auto simp: in_set_conv_nth)
    then show False using cm [of s k] assms(2) by simp
  qed
  then show ?thesis using assms by (auto simp: pool_inv_def nth_append less_Suc_eq)
qed

lemma read_ops_append:
  "read_ops code pool xs = Some r \<Longrightarrow> read_ops code pool (xs @ ys) = map_option (\<lambda>rest. r @ rest) (read_ops code pool ys)"
proof (induction code pool xs arbitrary: r rule: read_ops.induct)
  case (1 code pool)
  then show ?case by (cases "read_ops code pool ys") auto
qed (auto simp: option.map_comp comp_def split: option.splits if_splits)

lemma read_ops_pool: "read_ops code pool xs = Some r \<Longrightarrow> read_ops code (pool @ extra) xs = Some r"
  by (induction code pool xs arbitrary: r rule: read_ops.induct) (auto simp: nth_append split: option.splits if_splits)

abbreviation shown :: "(op_code \<Rightarrow> int) \<Rightarrow> op \<Rightarrow> int \<times> string \<times> nat" where
  "shown code x \<equiv> (code (op_code x), op_str x, op_num x)"

abbreviation captures :: "op list \<Rightarrow> string list" where
  "captures xs \<equiv> map op_str (filter (\<lambda>x. op_code x = OpCapture) xs)"

lemma compile_ops:
  assumes "inj code" "list_all op_ok xs" "pool_inv (pool, cmap)" "read_ops code pool ops = Some r"
    "fold (compile_op code) xs (ops, pool, flds, cmap) = (ops', pool', flds', cmap')"
  shows "read_ops code pool' ops' = Some (r @ map (shown code) xs) \<and> pool_inv (pool', cmap') \<and> flds' = flds @ captures xs"
  using assms(2-5)
proof (induction xs arbitrary: ops pool flds cmap r)
  case (Cons x xs)
  have inj: "code a = code b \<longleftrightarrow> a = b" for a b using assms(1) by (auto dest: injD)
  let ?fl = "if op_code x = OpCapture then flds @ [op_str x] else flds"
  consider (num) "op_str x = ''''" "op_code x \<notin> {OpLitPush, OpCapture}"
    | (new) "op_str x \<noteq> ''''" "op_code x \<in> {OpLitPush, OpCapture}" "op_num x = 0" "map_of cmap (op_str x) = None"
    | (old) k where "op_str x \<noteq> ''''" "op_code x \<in> {OpLitPush, OpCapture}" "op_num x = 0" "map_of cmap (op_str x) = Some k"
    using Cons.prems(1) by (cases "map_of cmap (op_str x)") (auto simp: op_ok_def split: if_splits)
  then show ?case
  proof cases
    case num
    then have "compile_op code x (ops, pool, flds, cmap) = (ops @ [code (op_code x), int (op_num x)], pool, ?fl, cmap)"
      by (simp add: compile_op_def)
    moreover have "read_ops code pool (ops @ [code (op_code x), int (op_num x)]) = Some (r @ [shown code x])"
      using num Cons.prems(3) by (simp add: read_ops_append inj)
    ultimately show ?thesis using Cons.IH [of pool cmap _ "r @ [shown code x]" ?fl] Cons.prems num by auto
  next
    case new
    then have "compile_op code x (ops, pool, flds, cmap)
        = (ops @ [code (op_code x), int (length pool)], pool @ [op_str x], ?fl, (op_str x, length pool) # cmap)"
      by (simp add: compile_op_def)
    moreover have "read_ops code (pool @ [op_str x]) (ops @ [code (op_code x), int (length pool)]) = Some (r @ [shown code x])"
      using new read_ops_pool [OF Cons.prems(3), of "[op_str x]"] by (auto simp: read_ops_append inj)
    ultimately show ?thesis
      using Cons.IH [OF _ pool_inv_grow [OF Cons.prems(2) new(4)], of _ "r @ [shown code x]" ?fl] Cons.prems by auto
  next
    case old
    then have "compile_op code x (ops, pool, flds, cmap) = (ops @ [code (op_code x), int k], pool, ?fl, cmap)"
      by (simp add: compile_op_def)
    moreover have "k < length pool" "pool ! k = op_str x" using old(4) Cons.prems(2) by (auto simp: pool_inv_def)
    then have "read_ops code pool (ops @ [code (op_code x), int k]) = Some (r @ [shown code x])"
      using old Cons.prems(3) by (auto simp: read_ops_append inj)
    ultimately show ?thesis using Cons.IH [of pool cmap _ "r @ [shown code x]" ?fl] Cons.prems by auto
  qed
qed auto


text \<open>Every template that \<open>Parse\<close> accepts has literals and names of the grammar.\<close>

fun wf_any :: "segment_t \<Rightarrow> bool" where
  "wf_any (Variable p segs) = (list_all expectIdent (split_char CHR ''.'' p) \<and> segs \<noteq> [] \<and> list_all wf_any segs)"
| "wf_any s = wf_plain s"

fun holds :: "('a \<Rightarrow> bool) \<Rightarrow> 'a presult \<Rightarrow> bool" where
  "holds P (Ok x ts) = (P x \<and> [] \<notin> set ts)"
| "holds P r = True"

lemma holds_on_result:
  assumes "holds P r" "\<And>x ts. r = Ok x ts \<Longrightarrow> P x \<Longrightarrow> [] \<notin> set ts \<Longrightarrow> holds Q (ok x ts)" "\<And>e. r = Err e \<Longrightarrow> holds Q (err e)"
  shows "holds Q (on_result r ok err)"
  using assms by (cases r) simp_all

lemma accept_holds:
  "[] \<notin> set ts \<Longrightarrow> holds (\<lambda>t. t \<noteq> [] \<and> (tt = TIdent \<longrightarrow> expectIdent t) \<and> (tt = TLiteral \<longrightarrow> expectPChars t)) (accept tt ts)"
  by (cases "(tt, ts)" rule: accept.cases) auto

lemma fieldPath_loop_holds:
  "[] \<notin> set ts \<Longrightarrow> cs \<noteq> [] \<Longrightarrow> list_all expectIdent cs
    \<Longrightarrow> holds (\<lambda>p. list_all expectIdent (split_char CHR ''.'' p)) (fieldPath_loop n cs ts)"
proof (induction n cs ts rule: fieldPath_loop.induct)
  case (2 n cs ts)
  have "split_char CHR ''.'' (join ''.'' cs) = cs"
    using 2 ident_plain(2) by (intro split_char_join) (auto simp: list_all_iff)
  then show ?case unfolding fieldPath_loop.simps using 2
    by (intro holds_on_result [OF accept_holds]) auto
qed simp

lemma fieldPath_holds: "[] \<notin> set ts \<Longrightarrow> holds (\<lambda>p. list_all expectIdent (split_char CHR ''.'' p)) (fieldPath n ts)"
  unfolding fieldPath_def by (intro holds_on_result [OF accept_holds] fieldPath_loop_holds) auto

lemma accept_literal:
  assumes "accept TLiteral ts = Ok l us" "accept (Symbol s) ts = Err e"
  shows "l \<noteq> s"
  using assms by (cases ts) (auto split: if_splits)

lemma parser_holds:
  "[] \<notin> set ts \<Longrightarrow> holds (\<lambda>segs. segs \<noteq> [] \<and> list_all wf_any segs) (segments n ts)"
  "[] \<notin> set ts \<Longrightarrow> list_all wf_any segs \<Longrightarrow> segs \<noteq> [] \<Longrightarrow> holds (\<lambda>segs. segs \<noteq> [] \<and> list_all wf_any segs) (segments_loop n segs ts)"
  "[] \<notin> set ts \<Longrightarrow> holds wf_any (segment n ts)"
  "[] \<notin> set ts \<Longrightarrow> holds wf_any (variable n ts)"
proof (induction n ts and n segs ts and n ts and n ts rule: segments_segments_loop_segment_variable.induct)
  case (2 n ts)
  then show ?case unfolding segments.simps by (intro holds_on_result [where P = wf_any]) auto
next
  case (4 n segs ts)
  show ?case unfolding segments_loop.simps
    by (rule holds_on_result [OF accept_holds]) (use 4 in \<open>auto intro!: holds_on_result [where P = wf_any]\<close>)
next
  case (6 n ts)
  note lit = accept_literal [where ts = ts]
  show ?case unfolding segment.simps
    by (intro holds_on_result [OF accept_holds] holds_on_result [where P = wf_any and r = "variable n ts"])
      (use 6 in \<open>auto dest: lit\<close>)
next
  case (8 n ts)
  show ?case unfolding variable.simps
    by (intro holds_on_result [OF accept_holds] holds_on_result [OF fieldPath_holds]
        holds_on_result [where P = "\<lambda>segs. segs \<noteq> [] \<and> list_all wf_any segs"])
      (use 8 in auto)
qed simp_all


lemma compile_any_ok: "wf_any s \<Longrightarrow> list_all op_ok (seg_compile s)"
proof (induction s)
  case (Variable p segs)
  have "p \<noteq> ''''" using Variable.prems by (auto simp: expectIdent_def)
  then show ?case using Variable by (auto simp: list_all_iff op_ok_def)
qed (auto simp: op_ok_def)

lemma tok_loop_tokens: "[] \<notin> set (tok_loop st path)"
proof (induction st path rule: tok_loop.induct)
  case (1 st path)
  then show ?case by (subst tok_loop.simps) (auto simp: Let_def split: list.splits)
qed

lemma last_index_less: "last_index s c = Some i \<Longrightarrow> i < length s"
  by (induction s arbitrary: i) (auto split: option.splits if_splits)

lemma tokenize_tokens: "[] \<notin> set (fst (tokenize path))"
proof (cases "path = []")
  case False
  then have ne: "tok_loop Init path \<noteq> []" by (rule tok_loop_nonempty)
  have "[] \<notin> set (fst (split_verb (tok_loop Init path)))"
    using tok_loop_tokens [of Init path] last_index_less [of "last (tok_loop Init path)" "CHR '':''"]
    by (auto simp: split_verb_def Let_def dest: in_set_butlastD split: option.splits)
  then show ?thesis using False by (auto simp: tokenize_def eof_def split: prod.splits)
qed (simp add: tokenize_def eof_def)

lemma parsed_wf:
  assumes "Parse tmpl = Parsed t"
  shows "list_all wf_any (tp_segments t)" "tp_segments t \<noteq> []" "tp_template t = tmpl"
proof -
  let ?ts = "fst (tokenize (drop 1 tmpl))"
  have "holds (\<lambda>segs. segs \<noteq> [] \<and> list_all wf_any segs) (topLevelSegments (length ?ts + 3) ?ts)"
    unfolding topLevelSegments_def
    by (rule holds_on_result [OF parser_holds(1) [OF tokenize_tokens]]) (auto intro!: holds_on_result [OF accept_holds])
  then show "list_all wf_any (tp_segments t)" "tp_segments t \<noteq> []" "tp_template t = tmpl"
    using assms by (auto simp: Parse_def split: if_splits prod.splits presult.splits)
qed

lemma compile_reads_back:
  assumes "list_all wf_any (tp_segments t)" "inj code"
  shows "read_ops code (ct_Pool (Compile code t)) (ct_OpCodes (Compile code t)) = Some (map (shown code) (raw_ops t))"
    and "distinct (ct_Pool (Compile code t))" "ct_Fields (Compile code t) = captures (raw_ops t)"
proof -
  obtain ops pool flds cm where f: "fold (compile_op code) (raw_ops t) ([], [], [], []) = (ops, pool, flds, cm)"
    by (metis prod_cases4)
  have "list_all op_ok (raw_ops t)"
    using assms(1) compile_any_ok by (fastforce simp: raw_ops_def list_all_iff)
  then show "read_ops code (ct_Pool (Compile code t)) (ct_OpCodes (Compile code t)) = Some (map (shown code) (raw_ops t))"
    and "distinct (ct_Pool (Compile code t))" "ct_Fields (Compile code t) = captures (raw_ops t)"
    using compile_ops [OF assms(2) _ _ _ f, of "[]"] f by (auto simp: Compile_def pool_inv_def)
qed

text \<open>
  C14 (templates compile). \<open>Parse\<close> always returns, with an error or with a template, and the operations of the
  template are read back from its compiled form, every operand that names a text from its place in the pool;
  the pool has no text twice, and the fields are the captured paths in their order. The numbers of the operation
  codes are assumed to differ.
\<close>

theorem parsed_template_compiles:
  assumes "inj code"
  shows "(\<exists>e. Parse tmpl = ParseError e)
    \<or> (\<exists>t. Parse tmpl = Parsed t \<and> tp_template t = tmpl \<and> tp_segments t \<noteq> []
        \<and> read_ops code (ct_Pool (Compile code t)) (ct_OpCodes (Compile code t)) = Some (map (shown code) (raw_ops t))
        \<and> distinct (ct_Pool (Compile code t)) \<and> ct_Fields (Compile code t) = captures (raw_ops t))"
proof (cases "Parse tmpl")
  case (Parsed t)
  then show ?thesis using parsed_wf [OF Parsed] compile_reads_back [OF _ assms] by blast
qed (use parse_returns [of tmpl] in auto)

theorem parsed_template_compiles_witness:
  "\<exists>t. Parse ''/a/{b=a/*}:v'' = Parsed t
     \<and> read_ops (case_op_code 1 3 2 4 5) (ct_Pool (Compile (case_op_code 1 3 2 4 5) t)) (ct_OpCodes (Compile (case_op_code 1 3 2 4 5) t))
       = Some [(2, ''a'', 0), (2, ''a'', 0), (1, '''', 0), (4, '''', 2), (5, ''b'', 0)]"
proof -
  let ?c = "case_op_code 1 3 2 4 5 :: op_code \<Rightarrow> int"
  let ?t = "\<lparr>tp_segments = [Literal ''a'', Variable ''b'' [Literal ''a'', Wildcard]], tp_verb = ''v'', tp_template = ''/a/{b=a/*}:v''\<rparr>"
  have p: "Parse ''/a/{b=a/*}:v'' = Parsed ?t" by code_simp
  have "inj ?c" by (rule injI) (auto split: op_code.splits)
  then show ?thesis using parsed_template_compiles [of ?c "''/a/{b=a/*}:v''"] p by (simp add: raw_ops_def)
qed

end
