(* ===== verification/Config_Plugins.thy ===== *)
theory Config_Plugins
  imports Config_Impl
begin

text \<open>
  The sources of the configuration, \<^verbatim>\<open>config_plugins\<close>: nested values and their flat form (\<^verbatim>\<open>internal/walker.go\<close>), the
  sources in memory, of the command line and its defaults, of the environment and of files, with the flags they
  read (\<^verbatim>\<open>internal/declare/config.go\<close>), and the order in which \<^verbatim>\<open>internal/config/config.go\<close> puts them together.

  The texts of numbers that are not integers and of durations are those of the standard library: such a value is
  represented by its text. The contents of a file are the values its parser returns, an argument.
\<close>

section \<open>Values\<close>

datatype cvalue =
    CStr string | CBool bool | CInt int | CNumber string | CDuration string
  | CMap "(string \<times> cvalue) list" | CList "cvalue list" | COther

definition Stringify :: "cvalue \<Rightarrow> string" where
  "Stringify v =
     (case v of
        CStr s \<Rightarrow> s
      | CBool b \<Rightarrow> if b then ''true'' else ''false''
      | CInt i \<Rightarrow> format_int i
      | CNumber t \<Rightarrow> t
      | CDuration t \<Rightarrow> t
      | _ \<Rightarrow> '''')"

definition withSlice :: "cvalue list \<Rightarrow> string option" where
  "withSlice slice = (if slice = [] then None else Some (join '','' (map Stringify slice)))"

definition walk_prefix :: "string \<Rightarrow> string \<Rightarrow> string" where
  "walk_prefix prefix k = (if prefix = '''' then k else prefix @ ''.'' @ k)"

text \<open>\<open>Walk\<close>: the result is a map that is written in the order of the iteration.\<close>

fun Walk :: "string \<Rightarrow> (string \<times> cvalue) list \<Rightarrow> smap \<Rightarrow> smap"
and walk_value :: "string \<Rightarrow> cvalue \<Rightarrow> smap \<Rightarrow> smap" where
  "Walk prefix [] config = config"
| "Walk prefix ((k, v) # rest) config = Walk prefix rest (walk_value (walk_prefix prefix k) v config)"
| "walk_value key (CMap m) config = Walk key m config"
| "walk_value key (CList vs) config = (case withSlice vs of Some s \<Rightarrow> AList.update key s config | None \<Rightarrow> config)"
| "walk_value key COther config = config"
| "walk_value key v config = AList.update key (Stringify v) config"

section \<open>The source in memory\<close>

text \<open>Its operations return the event that its notifier hands to the watchers.\<close>

type_synonym memory_source = "(string \<times> cvalue) list"

definition ms_Sync :: "memory_source \<Rightarrow> smap" where
  "ms_Sync val = Walk '''' val []"

definition ms_Get :: "memory_source \<Rightarrow> string \<Rightarrow> cvalue option" where
  "ms_Get val k = mget val (to_lower k)"

definition ms_Put :: "string \<Rightarrow> cvalue \<Rightarrow> memory_source \<Rightarrow> memory_source \<times> source_event" where
  "ms_Put k v val = (AList.update (to_lower k) v val, EvUpdate (Walk '''' [(to_lower k, v)] []))"

definition ms_Del :: "string \<Rightarrow> memory_source \<Rightarrow> memory_source \<times> source_event" where
  "ms_Del k val = (AList.delete (to_lower k) val, EvDelete [to_lower k])"

definition ms_Replace :: "(string \<times> cvalue) list \<Rightarrow> memory_source \<Rightarrow> memory_source \<times> source_event" where
  "ms_Replace new val = (new, EvSync (Walk '''' new []))"

section \<open>Flags\<close>

record flag =
  fl_Name :: string
  fl_DefaultValue :: cvalue
  fl_Env :: string
  fl_Sensitive :: bool

definition flagName :: "string \<Rightarrow> string \<Rightarrow> string" where
  "flagName ns name = to_lower (if ns \<noteq> '''' \<and> \<not> has_prefix name (ns @ ''.'') then ns @ ''.'' @ name else name)"

definition env_char :: "char \<Rightarrow> bool" where
  "env_char c \<longleftrightarrow> c = CHR ''_'' \<or> 65 \<le> (of_char c :: nat) \<and> (of_char c :: nat) \<le> 90 \<or> is_digit c"

definition env_name :: "string \<Rightarrow> string" where
  "env_name s = filter env_char (map (\<lambda>c. if c = CHR ''.'' then CHR ''_'' else c) (to_upper s))"

definition envVarName :: "string \<Rightarrow> string \<Rightarrow> string" where
  "envVarName name env = (if name = ''verbose'' then '''' else if env \<noteq> '''' then env_name env else env_name name)"

definition Flags :: "string \<Rightarrow> flag list \<Rightarrow> (string \<times> flag list) list \<Rightarrow> (string \<times> flag list) list" where
  "Flags ns flags all = AList.update ns ((case mget all ns of Some fs \<Rightarrow> fs | None \<Rightarrow> []) @ flags) all"

definition declare_flag :: "string \<Rightarrow> flag \<Rightarrow> (string \<times> flag) list \<Rightarrow> (string \<times> flag) list" where
  "declare_flag ns f all =
     (let name = flagName ns (fl_Name f)
      in AList.update name (f\<lparr>fl_Name := name, fl_Env := envVarName name (fl_Env f)\<rparr>) all)"

definition AllFlags :: "(string \<times> flag list) list \<Rightarrow> (string \<times> flag) list" where
  "AllFlags all = fold (\<lambda>(ns, flags). fold (declare_flag ns) flags) all []"

text \<open>\<open>setDefaultValue\<close> for a source that can be written.\<close>

definition setDefaultValue :: "string \<Rightarrow> cvalue \<Rightarrow> memory_source \<Rightarrow> memory_source" where
  "setDefaultValue name v val =
     (case ms_Get val name of Some _ \<Rightarrow> val | None \<Rightarrow> fst (ms_Put name (CStr (Stringify v)) val))"

definition IsSensitive :: "(string \<times> flag) list \<Rightarrow> string \<Rightarrow> bool" where
  "IsSensitive flags name = list_ex (\<lambda>(_, f). fl_Sensitive f \<and> fl_Name f = name) flags"

definition MapFlags_Set :: "string \<Rightarrow> smap \<Rightarrow> smap option" where
  "MapFlags_Set value s =
     (case split_char CHR ''='' value of
        [k, v] \<Rightarrow> if k = '''' then None else Some (AList.update k v s)
      | _ \<Rightarrow> None)"

text \<open>
  A flag of the flag set: its default as a text, and what was set on the command line, as a text or as the
  pairs of \<^verbatim>\<open>--config.set\<close>. The flags are kept in the order of their names, in which the package visits them.
\<close>

datatype flag_value = FvText string | FvMap smap

record set_flag =
  sf_Name :: string
  sf_DefValue :: string
  sf_Set :: "flag_value option"

definition FlagOverwrite :: string where
  "FlagOverwrite = ''config.set''"

definition cmd_Sync :: "set_flag list \<Rightarrow> smap" where
  "cmd_Sync flags = fold (\<lambda>f val.
     (case sf_Set f of
        None \<Rightarrow> val
      | Some v \<Rightarrow>
          if sf_Name f = FlagOverwrite then (case v of FvMap m \<Rightarrow> store_all m val | FvText _ \<Rightarrow> val)
          else AList.update (sf_Name f) (case v of FvText t \<Rightarrow> t | FvMap _ \<Rightarrow> '''') val)) flags []"

definition cmd_default_Sync :: "set_flag list \<Rightarrow> smap" where
  "cmd_default_Sync flags = fold (\<lambda>f. AList.update (sf_Name f) (sf_DefValue f)) flags []"

definition env_Sync :: "(string \<Rightarrow> string) \<Rightarrow> (string \<times> flag) list \<Rightarrow> smap" where
  "env_Sync getenv flags = fold (\<lambda>(k, f) val.
     (if fl_Env f = '''' then val
      else if getenv (fl_Env f) = '''' then val
      else AList.update k (getenv (fl_Env f)) val)) flags []"

section \<open>Files\<close>

text \<open>\<open>filepath.Ext\<close> and the choice of the reader.\<close>

definition file_ext :: "string \<Rightarrow> string" where
  "file_ext path =
     (let base = last (split_char CHR ''/'' path)
      in case last_index base CHR ''.'' of None \<Rightarrow> '''' | Some i \<Rightarrow> drop i base)"

definition createReader :: "string \<Rightarrow> string \<Rightarrow> string option" where
  "createReader filePath fileType =
     (let ext = file_ext filePath;
          typ = (if fileType = ''auto'' then (if ext \<noteq> '''' \<and> ext ! 0 = CHR ''.'' then drop 1 ext else ext) else fileType)
      in if typ \<in> {''ini'', ''yaml'', ''json'', ''toml'', ''hocon'', ''conf''} then Some typ else None)"

definition NewFileConfigSource :: "string \<Rightarrow> string \<Rightarrow> string option" where
  "NewFileConfigSource path typ = createReader path (if typ = '''' then ''auto'' else typ)"

definition ini_Read :: "(string \<times> smap) list \<Rightarrow> smap" where
  "ini_Read sections = fold (\<lambda>(name, entries) config.
     (let prefix = (if name = ''DEFAULT'' then '''' else name @ ''.'')
      in fold (\<lambda>(k, v). AList.update (prefix @ k) v) entries config)) sections []"

definition map_Read :: "(config_error + (string \<times> cvalue) list) \<Rightarrow> config_error + smap" where
  "map_Read content = (case content of Inl e \<Rightarrow> Inl e | Inr m \<Rightarrow> Inr (Walk '''' m []))"

text \<open>
  The reader of HOCON files sends the files that a file includes into a channel without a buffer: without a
  receiver it waits for ever, \<open>None\<close>. So does closing it.
\<close>

definition hocon_text :: "cvalue \<Rightarrow> string option" where
  "hocon_text v = (case v of CMap _ \<Rightarrow> None | CList _ \<Rightarrow> None | CDuration _ \<Rightarrow> None | COther \<Rightarrow> None | _ \<Rightarrow> Some (Stringify v))"

definition hocon_Read :: "bool \<Rightarrow> (config_error + (string \<times> cvalue) list \<times> string list) \<Rightarrow> (config_error + smap) option" where
  "hocon_Read receiver parsed =
     (case parsed of
        Inl e \<Rightarrow> Some (Inl e)
      | Inr (values, includes) \<Rightarrow>
          if includes = [] \<or> receiver
          then Some (Inr (store_all (List.map_filter (\<lambda>(k, v). map_option (Pair k) (hocon_text v)) values) []))
          else None)"

definition hocon_Close :: "bool \<Rightarrow> unit option" where
  "hocon_Close receiver = (if receiver then Some () else None)"

text \<open>
  The watch on a file: without \<open>reload\<close> there is none, and nobody receives from the channel above. An event reads the file again if it is
  a write or a rename; a renamed file that cannot be watched again ends the watch.
\<close>

definition file_Watch :: "bool \<Rightarrow> bool" where
  "file_Watch reload = reload"

definition file_event :: "bool \<Rightarrow> bool \<Rightarrow> bool \<Rightarrow> bool \<times> bool" where
  "file_event writes renames added = (if renames \<and> \<not> added then (False, False) else (writes \<or> renames, True))"

section \<open>Putting the sources together\<close>

text \<open>The layers of \<open>PrepareConfigs\<close> and of \<open>UriConfig\<close>, from the lowest to the highest.\<close>

definition prepared_sources :: "smap \<Rightarrow> smap list \<Rightarrow> smap \<Rightarrow> smap \<Rightarrow> smap list" where
  "prepared_sources cmdDefault sourcePlugins env cmd = [cmdDefault] @ sourcePlugins @ [env] @ [cmd]"

definition uri_params :: "string \<Rightarrow> smap \<Rightarrow> memory_source" where
  "uri_params pluginType p = AList.update pluginType (CStr '''') (map (\<lambda>(k, v). (k, CStr v)) p)"

definition uri_sources :: "smap \<Rightarrow> smap \<Rightarrow> smap \<Rightarrow> string \<Rightarrow> smap \<Rightarrow> smap list" where
  "uri_sources cmdDefault env cmd pluginType p = [cmdDefault, env, cmd, ms_Sync (uri_params pluginType p)]"

section \<open>Flat and nested values\<close>

text \<open>The value at a path, and its text.\<close>

fun value_path :: "cvalue \<Rightarrow> string list \<Rightarrow> cvalue option" where
  "value_path v [] = Some v"
| "value_path (CMap m) (k # ks) = (case mget m k of None \<Rightarrow> None | Some v \<Rightarrow> value_path v ks)"
| "value_path v (k # ks) = None"

fun text_of :: "cvalue \<Rightarrow> string option" where
  "text_of (CMap m) = None"
| "text_of (CList vs) = withSlice vs"
| "text_of COther = None"
| "text_of v = Some (Stringify v)"

definition text_path :: "cvalue \<Rightarrow> string list \<Rightarrow> string option" where
  "text_path v ks = (case value_path v ks of None \<Rightarrow> None | Some w \<Rightarrow> text_of w)"

definition plain_key :: "string \<Rightarrow> bool" where
  "plain_key k \<longleftrightarrow> k \<noteq> '''' \<and> CHR ''.'' \<notin> set k"

fun wf_value :: "cvalue \<Rightarrow> bool" where
  "wf_value (CMap m) = (wf_map m \<and> list_all (\<lambda>(k, v). plain_key k \<and> wf_value v) m)"
| "wf_value v = True"

definition found :: "string list \<Rightarrow> cvalue \<Rightarrow> string list \<Rightarrow> string option" where
  "found P v ks = (if take (length P) ks = P then text_path v (drop (length P) ks) else None)"

lemma join_plain_inject:
  assumes "ks \<noteq> []" "P \<noteq> []" "list_all plain_key ks" "list_all plain_key P"
  shows "join ''.'' ks = join ''.'' P \<longleftrightarrow> ks = P"
proof -
  have "split_char CHR ''.'' (join ''.'' ks) = ks" "split_char CHR ''.'' (join ''.'' P) = P"
    using assms by (auto intro!: split_char_join simp: list_all_iff plain_key_def)
  then show ?thesis by metis
qed

lemma join_plain_Nil: "list_all plain_key P \<Longrightarrow> join ''.'' P = '''' \<longleftrightarrow> P = []"
  by (cases "(''.'', P)" rule: join.cases) (auto simp: plain_key_def)

lemma walk_prefix_join: "list_all plain_key P \<Longrightarrow> walk_prefix (join ''.'' P) k = join ''.'' (P @ [k])"
  by (cases "P = []") (auto simp: walk_prefix_def join_plain_Nil join_append)

lemma found_scalar:
  assumes "text_of v = Some s" "ks \<noteq> []" "P \<noteq> []" "list_all plain_key ks" "list_all plain_key P"
  shows "found P v ks = (if join ''.'' ks = join ''.'' P then Some s else None)"
proof (cases "ks = P")
  case False
  have none: "text_path v xs = None" if "xs \<noteq> []" for xs
    using assms(1) that by (cases v; cases xs) (auto simp: text_path_def)
  have "drop (length P) ks \<noteq> []" if "take (length P) ks = P"
    using that False by (metis append_take_drop_id append_Nil2)
  then have "found P v ks = None" using none by (simp add: found_def)
  then show ?thesis using False assms by (simp add: join_plain_inject)
qed (use assms in \<open>simp add: found_def text_path_def\<close>)

lemma found_none: "text_of v = None \<Longrightarrow> (\<And>m. v \<noteq> CMap m) \<Longrightarrow> found P v ks = None"
  by (cases "drop (length P) ks"; cases v) (auto simp: found_def text_path_def)

lemma found_Cons:
  assumes "k \<notin> fst ` set m"
  shows "found P (CMap ((k, v) # m)) ks = (case found P (CMap m) ks of Some s \<Rightarrow> Some s | None \<Rightarrow> found (P @ [k]) v ks)"
proof (cases "take (length P) ks = P")
  case True
  then obtain rest where ks: "ks = P @ rest" by (metis append_take_drop_id)
  have "mget m k = None" using assms by (simp add: mget_None_iff)
  then show ?thesis by (cases rest) (auto simp: ks found_def text_path_def split: option.splits)
next
  case False
  then have "take (length (P @ [k])) ks \<noteq> P @ [k]" by (metis append_eq_conv_conj append_take_drop_id take_take min.absorb2 length_append le_add1)
  then show ?thesis using False by (simp add: found_def)
qed

lemma mget_walk:
  "prefix = join ''.'' P \<Longrightarrow> list_all plain_key P \<Longrightarrow> wf_value (CMap m) \<Longrightarrow> ks \<noteq> [] \<Longrightarrow> list_all plain_key ks \<Longrightarrow>
     mget (Walk prefix m config) (join ''.'' ks) = (case found P (CMap m) ks of Some s \<Rightarrow> Some s | None \<Rightarrow> mget config (join ''.'' ks))"
  "key = join ''.'' P \<Longrightarrow> P \<noteq> [] \<Longrightarrow> list_all plain_key P \<Longrightarrow> wf_value v \<Longrightarrow> ks \<noteq> [] \<Longrightarrow> list_all plain_key ks \<Longrightarrow>
     mget (walk_value key v config) (join ''.'' ks) = (case found P v ks of Some s \<Rightarrow> Some s | None \<Rightarrow> mget config (join ''.'' ks))"
proof (induction prefix m config and key v config arbitrary: P and P rule: Walk_walk_value.induct)
  case (1 prefix config)
  then show ?case by (cases "drop (length P) ks") (auto simp: found_def text_path_def)
next
  case (2 prefix k v rest config)
  then show ?case using "2.IH"(1) [of "P @ [k]"] "2.IH"(2) [of P]
    by (auto simp: walk_prefix_join found_Cons split: option.split)
next
  case (4 key vs config)
  then show ?case using found_scalar [of "CList vs" _ ks P] found_none [of "CList vs" P ks] by (auto split: option.splits)
next
  case (5 key config)
  then show ?case by (simp add: found_none)
qed (auto simp: found_scalar split: if_splits)


text \<open>
  Flat values. Reading a nested value gives, for every path of keys, the text of the value at that path, and
  nothing where there is none; lists are joined by commas. The keys are assumed to be non-empty and without dots.
\<close>

theorem walk_flattens:
  assumes "wf_value (CMap m)" "ks \<noteq> []" "list_all plain_key ks"
  shows "mget (ms_Sync m) (join ''.'' ks) = text_path (CMap m) ks"
  using mget_walk(1) [of "''''" "[]" m ks "[]"] assms by (simp add: ms_Sync_def found_def split: option.splits)

theorem walk_flattens_witness:
  "mget (ms_Sync [(''a'', CMap [(''b'', CInt (-12)), (''c'', CList [CBool True, CStr ''x''])]), (''d'', COther)]) ''a.b'' = Some ''-12''"
proof -
  let ?m = "[(''a'', CMap [(''b'', CInt (-12)), (''c'', CList [CBool True, CStr ''x''])]), (''d'', COther)]"
  have "text_path (CMap ?m) [''a'', ''b''] = Some ''-12''" by code_simp
  then show ?thesis using walk_flattens [of ?m "[''a'', ''b'']"] by (simp add: plain_key_def)
qed

section \<open>Layers\<close>

text \<open>The value of a key in a list of layers, the last one first.\<close>

fun layer_lookup :: "smap list \<Rightarrow> string \<Rightarrow> string option" where
  "layer_lookup [] k = None"
| "layer_lookup (val # vals) k =
     (case layer_lookup vals k of Some v \<Rightarrow> Some v | None \<Rightarrow> mget (store_lower val []) k)"

lemma layer_lookup_append:
  "layer_lookup (xs @ ys) k = (case layer_lookup ys k of Some v \<Rightarrow> Some v | None \<Rightarrow> layer_lookup xs k)"
  by (induction xs) (auto split: option.splits)

lemma fall_back_lookup:
  "n \<le> length vals \<Longrightarrow> (\<And>j. j < n \<Longrightarrow> sw_Get (ss ! j) k = mget (store_lower (vals ! j) []) k)
    \<Longrightarrow> map_option snd (fall_back ss n k) = layer_lookup (take n vals) k"
  by (induction n) (auto simp: take_Suc_conv_app_nth layer_lookup_append split: option.splits)

lemma ci_sync_sources:
  assumes "\<forall>j. level \<le> j \<and> j < length (ci_source c) \<longrightarrow> unsynced (ci_source c ! j)"
    and "level + length vals = length (ci_source c)"
  shows "\<exists>c' calls. ci_sync level (map Inr vals) c = (None, c', calls) \<and> length (ci_source c') = length (ci_source c)
    \<and> (\<forall>j < length (ci_source c). sw_cache (ci_source c' ! j)
        = (if j < level then sw_cache (ci_source c ! j) else store_lower (vals ! (j - level)) []))"
  using assms
proof (induction vals arbitrary: level c)
  case (Cons val vals)
  let ?V = "store_lower val []" let ?s = "(ci_source c ! level)\<lparr>sw_cache := ?V\<rparr>"
  have l: "level < length (ci_source c)" using Cons.prems(2) by simp
  then have un: "unsynced (ci_source c ! level)" using Cons.prems(1) by simp
  obtain t n where t: "sync_entries level ?V (ci_cache c) [] = (t, n)" by (metis surj_pair)
  let ?c1 = "c\<lparr>ci_source := (ci_source c)[level := ?s], ci_cache := t\<rparr>"
  have "\<forall>j. Suc level \<le> j \<and> j < length (ci_source ?c1) \<longrightarrow> unsynced (ci_source ?c1 ! j)"
    "Suc level + length vals = length (ci_source ?c1)" using Cons.prems by simp_all
  then obtain c' calls where rec: "ci_sync (Suc level) (map Inr vals) ?c1 = (None, c', calls)"
    "length (ci_source c') = length (ci_source c)"
    "\<forall>j < length (ci_source c). sw_cache (ci_source c' ! j)
        = (if j < Suc level then sw_cache (ci_source ?c1 ! j) else store_lower (vals ! (j - Suc level)) [])"
    using Cons.IH [of "Suc level" ?c1] by auto
  have "ci_sync level (map Inr (val # vals)) c = (None, c', nt_OnUpdate (ci_notifier c) n @ calls)"
    using un t rec(1) by (simp add: sw_Sync_def unsynced_def)
  moreover have "sw_cache (ci_source c' ! j) = (if j < level then sw_cache (ci_source c ! j) else store_lower ((val # vals) ! (j - level)) [])"
    if "j < length (ci_source c)" for j
    using rec(3) that l by (auto simp: nth_Cons' less_Suc_eq)
  ultimately show ?case using rec(2) by blast
qed auto

lemma layered_get:
  assumes "NewPrefixTree ''.'' = Some t" "length ig = length vals" "config_key (withPrefix (to_lower key) prefix)"
  shows "\<exists>(c :: 'w config_impl) calls. ci_sync 0 (map Inr vals) (NewConfig ig t) = (None, c, calls)
    \<and> fst (ci_Get c key prefix False) = (case layer_lookup vals (withPrefix (to_lower key) prefix) of Some v \<Rightarrow> v | None \<Rightarrow> '''')"
proof -
  let ?c0 = "NewConfig ig t :: 'w config_impl" let ?k = "withPrefix (to_lower key) prefix"
  have "\<forall>j. 0 \<le> j \<and> j < length (ci_source ?c0) \<longrightarrow> unsynced (ci_source ?c0 ! j)" "0 + length vals = length (ci_source ?c0)"
    using assms(2) by (simp_all add: NewConfig_def unsynced_def NewSourceWrapper_def)
  from ci_sync_sources [OF this] obtain c calls where c: "ci_sync 0 (map Inr vals) ?c0 = (None, c, calls)"
    "length (ci_source c) = length vals" "\<forall>j < length vals. sw_cache (ci_source c ! j) = store_lower (vals ! j) []"
    using assms(2) by (auto simp: NewConfig_def)
  have "ci_inv c" using NewConfig_synced [OF assms(1) _ c(1)] assms(2) by simp
  then have "pt_Get (ci_cache c) ?k = map_option node (overlay (ci_source c) ?k)"
    using agreesD(2) assms(3) unfolding ci_inv_def by metis
  moreover have "map_option snd (overlay (ci_source c) ?k) = layer_lookup vals ?k"
    using fall_back_lookup [of "length vals" vals "ci_source c" ?k] c(2,3) by (simp add: overlay_def sw_Get_def)
  ultimately have "fst (ci_Get c key prefix False) = (case layer_lookup vals ?k of Some v \<Rightarrow> v | None \<Rightarrow> '''')"
    by (auto simp: ci_Get_def node_def split: option.splits)
  then show ?thesis using c(1) by blast
qed





section \<open>The source in memory and its layer\<close>

datatype ms_op = MPut string cvalue | MDel string

fun ms_step :: "ms_op \<Rightarrow> memory_source \<Rightarrow> memory_source \<times> source_event" where
  "ms_step (MPut k v) val = ms_Put k v val"
| "ms_step (MDel k) val = ms_Del k val"

fun ms_run :: "ms_op list \<Rightarrow> memory_source \<Rightarrow> memory_source \<times> source_event list" where
  "ms_run [] val = (val, [])"
| "ms_run (op # ops) val = (case ms_step op val of (val1, ev) \<Rightarrow> case ms_run ops val1 of (val2, evs) \<Rightarrow> (val2, ev # evs))"

fun scalar :: "cvalue \<Rightarrow> bool" where
  "scalar (CMap m) = False"
| "scalar (CList vs) = False"
| "scalar COther = False"
| "scalar v = True"

fun scalar_op :: "ms_op \<Rightarrow> bool" where
  "scalar_op (MPut k v) = scalar v"
| "scalar_op (MDel k) = True"

definition flat :: "memory_source \<Rightarrow> bool" where
  "flat val \<longleftrightarrow> wf_map val \<and> (\<forall>k v. mget val k = Some v \<longrightarrow> lower k \<and> scalar v)"

lemma walk_scalar: "scalar v \<Longrightarrow> walk_value key v config = AList.update key (Stringify v) config"
  by (cases v) auto

lemma mget_walk_flat:
  "wf_map val \<Longrightarrow> (\<And>k v. mget val k = Some v \<Longrightarrow> scalar v) \<Longrightarrow>
     mget (Walk '''' val config) k = (case mget val k of Some v \<Rightarrow> Some (Stringify v) | None \<Rightarrow> mget config k)"
proof (induction val arbitrary: config)
  case (Cons p val)
  obtain k0 v0 where p: "p = (k0, v0)" by (cases p)
  have "mget val k0 = None" using Cons.prems(1) p by (simp add: mget_None_iff)
  then have "mget val k = Some v \<Longrightarrow> scalar v" for k v using Cons.prems(2) [of k v] p by (cases "k = k0") auto
  moreover have "scalar v0" using Cons.prems(2) [of k0 v0] p by simp
  ultimately show ?case using Cons.IH Cons.prems(1) p \<open>mget val k0 = None\<close>
    by (auto simp: walk_prefix_def walk_scalar split: option.splits)
qed simp

lemma ms_Sync_flat: "flat val \<Longrightarrow> mget (ms_Sync val) k = map_option Stringify (mget val k)"
  using mget_walk_flat [of val "[]" k] by (auto simp: ms_Sync_def flat_def split: option.splits)

lemma to_lower_lower [simp]: "lower (to_lower k)"
  by (simp add: lower_def to_lower_idem)

lemma flat_put: "flat val \<Longrightarrow> scalar v \<Longrightarrow> flat (AList.update (to_lower k) v val)"
  by (auto simp: flat_def)

lemma flat_del: "flat val \<Longrightarrow> flat (AList.delete k val)"
  by (auto simp: flat_def)

lemma ms_step_layer:
  assumes "flat val" "scalar_op op" "ms_step op val = (val', ev)" "ci_inv c" "level < length (ci_source c)"
    "\<forall>k. sw_Get (ci_source c ! level) k = mget (ms_Sync val) k"
  shows "flat val' \<and> ci_inv (fst (ci_event c level ev)) \<and> length (ci_source (fst (ci_event c level ev))) = length (ci_source c)
    \<and> (\<forall>k. sw_Get (ci_source (fst (ci_event c level ev)) ! level) k = mget (ms_Sync val') k)"
proof -
  have f: "flat val'" using assms(1-3) by (cases op) (auto simp: ms_Put_def ms_Del_def flat_put flat_del)
  have ok: "ok_event (length (ci_source c)) (level, ev)"
    using assms(2,3,5) by (cases op) (auto simp: ms_Put_def ms_Del_def walk_scalar walk_prefix_def)
  have "sw_Get (ci_source (fst (ci_event c level ev)) ! level) k = mget (ms_Sync val') k" for k
    using assms f ms_Sync_flat [OF f] ms_Sync_flat [OF assms(1)]
    by (cases op) (auto simp: ms_Put_def ms_Del_def ci_event_def sw_OnUpdate_def sw_OnDelete_def with_source_def closure_call_def
        sw_Get_def walk_scalar walk_prefix_def store_all_def)
  then show ?thesis using f ci_event_inv [OF assms(4) ok] by blast
qed


lemma ms_run_layer:
  assumes "flat val" "list_all scalar_op ops" "ms_run ops val = (val', evs)" "ci_inv c" "level < length (ci_source c)"
    "\<forall>k. sw_Get (ci_source c ! level) k = mget (ms_Sync val) k"
  shows "flat val' \<and> ci_inv (ci_run c (map (Pair level) evs)) \<and> length (ci_source (ci_run c (map (Pair level) evs))) = length (ci_source c)
    \<and> (\<forall>k. sw_Get (ci_source (ci_run c (map (Pair level) evs)) ! level) k = mget (ms_Sync val') k)"
  using assms
proof (induction ops arbitrary: val c val' evs)
  case (Cons op ops)
  obtain val1 ev evs' where s: "ms_step op val = (val1, ev)" "ms_run ops val1 = (val', evs')" "evs = ev # evs'"
    using Cons.prems(3) by (auto split: prod.splits)
  let ?c1 = "fst (ci_event c level ev)"
  have "flat val1" "ci_inv ?c1" "length (ci_source ?c1) = length (ci_source c)" "\<forall>k. sw_Get (ci_source ?c1 ! level) k = mget (ms_Sync val1) k"
    using ms_step_layer [OF Cons.prems(1) _ s(1) Cons.prems(4,5,6)] Cons.prems(2) by auto
  then show ?case using Cons.IH [of val1 val' evs' ?c1] Cons.prems s(2,3) by (simp add: ci_run_def)
qed (auto simp: ci_run_def)

text \<open>
  A source in memory feeds its layer. A source in memory that is the highest layer of a configuration and holds
  plain values is read back through it: after any puts and deletes the configuration answers a key with the text
  of the value the source has for it, and with the lower layers where it has none.
\<close>

theorem memory_source_is_read:
  assumes "flat val" "list_all scalar_op ops" "ms_run ops val = (val', evs)" "ci_inv c" "ci_source c = lower_layers @ [s]"
    "\<forall>k. sw_Get s k = mget (ms_Sync val) k" "config_key (to_lower key)"
  shows "fst (ci_Get (ci_run c (map (Pair (length lower_layers)) evs)) key '''' False) =
    (case ms_Get val' key of
       Some v \<Rightarrow> Stringify v
     | None \<Rightarrow> (case fall_back (ci_source (ci_run c (map (Pair (length lower_layers)) evs))) (length lower_layers) (to_lower key) of
                 Some (l, v) \<Rightarrow> v | None \<Rightarrow> ''''))"
proof -
  let ?l = "length lower_layers" let ?c = "ci_run c (map (Pair (length lower_layers)) evs)"
  have r: "flat val'" "ci_inv ?c" "length (ci_source ?c) = Suc ?l" "sw_Get (ci_source ?c ! ?l) k = mget (ms_Sync val') k" for k
    using ms_run_layer [OF assms(1-4), of ?l] assms(5,6) by auto
  have "pt_Get (ci_cache ?c) (to_lower key) = map_option node (overlay (ci_source ?c) (to_lower key))"
    using r(2) agreesD(2) assms(7) unfolding ci_inv_def by metis
  then show ?thesis
    by (auto simp: ci_Get_def withPrefix_def overlay_def r(3,4) ms_Sync_flat [OF r(1)] ms_Get_def node_def split: option.splits)
qed

theorem memory_source_is_read_witness:
  "fst (ci_Get (ci_run demo_config (map (Pair 1) (snd (ms_run [MPut ''C'' (CInt 42), MDel ''a.b''] [(''a.b'', CInt 2), (''c'', CStr ''3'')]))))
     ''c'' '''' False) = ''42''"
proof -
  let ?v = "[(''a.b'', CInt 2), (''c'', CStr ''3'')]" let ?ops = "[MPut ''C'' (CInt 42), MDel ''a.b'']"
  have f: "flat ?v" by (auto simp: flat_def lower_def to_lower_def lower_char_def)
  have "ci_source demo_config = [ci_source demo_config ! 0] @ [ci_source demo_config ! 1]" by code_simp
  moreover have "sw_Get (ci_source demo_config ! 1) k = mget (ms_Sync ?v) k" for k
  proof -
    have "sw_cache (ci_source demo_config ! 1) = ms_Sync ?v" by code_simp
    then show ?thesis by (simp add: sw_Get_def)
  qed
  moreover have "list_all scalar_op ?ops" "config_key (to_lower ''c'')" by code_simp+
  moreover have "ms_Get (fst (ms_run ?ops ?v)) ''c'' = Some (CInt 42)" "Stringify (CInt 42) = ''42''" by code_simp+
  ultimately show ?thesis
    using memory_source_is_read [OF f _ _ demo_config_inv, of ?ops "fst (ms_run ?ops ?v)" "snd (ms_run ?ops ?v)"
      "[ci_source demo_config ! 0]" "ci_source demo_config ! 1" "''c''"] by simp
qed

text \<open>
  With nested values the watchers are left behind: a map that replaces another only adds its keys, and deleting
  a map deletes no key below it.
\<close>

lemma nested_put_leaves_keys:
  "ms_run [MPut ''a'' (CMap [(''b'', CInt 1)]), MPut ''a'' (CMap [(''c'', CInt 2)]), MDel ''a''] [] =
     ([], [EvUpdate [(''a.b'', ''1'')], EvUpdate [(''a.c'', ''2'')], EvDelete [''a'']])"
  by code_simp

text \<open>Whether \<^verbatim>\<open>--config.set\<close> or a flag of its own wins depends on the name of the flag.\<close>

lemma config_set_depends_on_order:
  "mget (cmd_Sync [\<lparr>sf_Name = ''a.x'', sf_DefValue = '''', sf_Set = Some (FvText ''flag'')\<rparr>,
     \<lparr>sf_Name = ''config.set'', sf_DefValue = '''', sf_Set = Some (FvMap [(''a.x'', ''set''), (''d.x'', ''set'')])\<rparr>,
     \<lparr>sf_Name = ''d.x'', sf_DefValue = '''', sf_Set = Some (FvText ''flag'')\<rparr>]) ''a.x'' = Some ''set''"
  "mget (cmd_Sync [\<lparr>sf_Name = ''a.x'', sf_DefValue = '''', sf_Set = Some (FvText ''flag'')\<rparr>,
     \<lparr>sf_Name = ''config.set'', sf_DefValue = '''', sf_Set = Some (FvMap [(''a.x'', ''set''), (''d.x'', ''set'')])\<rparr>,
     \<lparr>sf_Name = ''d.x'', sf_DefValue = '''', sf_Set = Some (FvText ''flag'')\<rparr>]) ''d.x'' = Some ''flag''"
  by code_simp+

text \<open>A pair is set exactly if its key is not empty and it has one equals sign.\<close>

lemma MapFlags_Set_iff:
  "MapFlags_Set pair s \<noteq> None \<longleftrightarrow> (\<exists>k v. pair = k @ ''='' @ v \<and> k \<noteq> '''' \<and> CHR ''='' \<notin> set k \<and> CHR ''='' \<notin> set v)"
proof
  assume "MapFlags_Set pair s \<noteq> None"
  then obtain k v where kv: "split_char CHR ''='' pair = [k, v]" "k \<noteq> ''''"
    by (auto simp: MapFlags_Set_def split: list.splits if_splits)
  then have "pair = k @ ''='' @ v" using join_split_char [of "CHR ''=''" pair] by simp
  then show "\<exists>k v. pair = k @ ''='' @ v \<and> k \<noteq> '''' \<and> CHR ''='' \<notin> set k \<and> CHR ''='' \<notin> set v"
    using kv split_char_no_sep [of _ "CHR ''=''" pair] by auto
qed (auto simp: MapFlags_Set_def split_char_append_sep split_char_word)

text \<open>Without a watch a HOCON file with includes is never read, and its source is never closed.\<close>

lemma hocon_waits_for_ever: "includes \<noteq> [] \<Longrightarrow> hocon_Read (file_Watch False) (Inr (vals, includes)) = None" "hocon_Close (file_Watch False) = None"
  by (simp_all add: hocon_Read_def hocon_Close_def file_Watch_def)

end
