(* ===== verification/Injector.thy ===== *)
theory Injector
  imports Prelude
begin

text \<open>
  The injector of dependencies, \<^verbatim>\<open>di/di.go\<close>. What \<open>reflect\<close> tells about a type is a datatype: pointers, interfaces
  with whether they have the method of an error, functions with their parameters and results, and the rest by name.
\<close>

datatype go_type =
    PtrType go_type
  | InterfaceType string bool
  | FuncType "go_type list" "go_type list"
  | OtherType string bool

fun implements_error :: "go_type \<Rightarrow> bool" where
  "implements_error (InterfaceType n e) = e"
| "implements_error (OtherType n e) = e"
| "implements_error t = False"

fun is_interface :: "go_type \<Rightarrow> bool" where
  "is_interface (InterfaceType n e) = True"
| "is_interface t = False"

record 'f di_provider =
  dp_invoker :: 'f
  dp_provideType :: go_type
  dp_withError :: bool
  dp_singleton :: bool

type_synonym 'f injector = "'f di_provider list"

text \<open>\<open>Create\<close> and \<open>Invoke\<close> build and call nothing; the type of a nil interface is nil.\<close>

definition Create :: "go_type option \<Rightarrow> string option" where
  "Create ptr =
     (case ptr of
        None \<Rightarrow> Some ''cannot detect type of the object-ptr, make sure your are passing reference of the object''
      | Some (PtrType t) \<Rightarrow> Some ''cannot detect type of the object-ptr, make sure your are passing reference of the object''
      | Some t \<Rightarrow> None)"

text \<open>The function given to \<open>Invoke\<close> is not called, whatever it is: a definition may recur inside it.\<close>

definition Invoke :: "(unit \<Rightarrow> 'e option) \<Rightarrow> 'e option" where
  "Invoke invoker = None"

lemma Invoke_cong [fundef_cong]: "Invoke f = Invoke g"
  by (simp add: Invoke_def)

fun duplicate_type :: "go_type list \<Rightarrow> go_type list \<Rightarrow> bool" where
  "duplicate_type [] typeSet = False"
| "duplicate_type (t # ts) typeSet = (if t \<in> set typeSet then True else duplicate_type ts (t # typeSet))"

definition bad_results :: "go_type list \<Rightarrow> bool" where
  "bad_results outs =
     (case outs of
        [t] \<Rightarrow> False
      | [t, e] \<Rightarrow> \<not> is_interface t \<or> implements_error e
      | _ \<Rightarrow> True)"

definition checkProvider :: "go_type option \<Rightarrow> string + go_type" where
  "checkProvider providerType =
     (case providerType of
        Some (FuncType ins outs) \<Rightarrow>
          if bad_results outs then Inl ''the provider must returns an instance or instance with an error''
          else if duplicate_type ins [] then Inl ''the parameters of provider can not have duplicate type''
          else Inr (hd outs)
      | _ \<Rightarrow> Inl ''the provider must be a function object'')"

definition num_out :: "go_type option \<Rightarrow> nat" where
  "num_out t = (case t of Some (FuncType ins outs) \<Rightarrow> length outs | _ \<Rightarrow> 0)"

definition Provide :: "'f \<Rightarrow> go_type option \<Rightarrow> bool \<Rightarrow> 'f injector \<Rightarrow> string option \<times> 'f injector" where
  "Provide provider provideType singleton d =
     (case checkProvider provideType of
        Inl e \<Rightarrow> (Some e, d)
      | Inr provideOut \<Rightarrow>
          (None, d @ [\<lparr>dp_invoker = provider, dp_provideType = provideOut, dp_withError = (num_out provideType = 2), dp_singleton = singleton\<rparr>]))"

definition Clear :: "'f injector \<Rightarrow> 'f injector" where
  "Clear d = []"

section \<open>What holds\<close>

lemma duplicate_type_iff: "duplicate_type ts seen \<longleftrightarrow> \<not> distinct ts \<or> set ts \<inter> set seen \<noteq> {}"
  by (induction ts seen rule: duplicate_type.induct) auto

text \<open>
  What is accepted: a function with distinct parameters and one result, or with an interface and a second result that
  is \<open>not\<close> an error. The text of the error says the opposite of the last.
\<close>

theorem provider_accepted:
  "fst (Provide provider t singleton d) = None \<longleftrightarrow>
     (\<exists>ins outs. t = Some (FuncType ins outs) \<and> distinct ins \<and>
        ((\<exists>a. outs = [a]) \<or> (\<exists>a b. outs = [a, b] \<and> is_interface a \<and> \<not> implements_error b)))"
  by (auto simp: Provide_def checkProvider_def bad_results_def duplicate_type_iff split: option.splits go_type.splits list.splits)

lemma with_error_refused: "fst (Provide provider (Some (FuncType ins [t, InterfaceType ''error'' True])) singleton d) \<noteq> None"
  by (simp add: Provide_def checkProvider_def bad_results_def)

lemma reference_refused: "Create (Some (PtrType t)) \<noteq> None"
  by (simp add: Create_def)

end
