(* ===== verification/Uri_Plugin.thy ===== *)
theory Uri_Plugin
  imports Config_Plugins Config_Filter Injector
begin

text \<open>
  Plugins and the URIs that select them: the parsers of \<^verbatim>\<open>uri/uri.go\<close>, the declaration of plugins
  (\<^verbatim>\<open>internal/declare/plugin.go\<close>) and their creation (\<^verbatim>\<open>plugin/plugin.go\<close>).

  The split of a URI into its parts is \<open>url.ParseRequestURI\<close>, an argument. The configuration a URI makes has the parts of
  the URI as its highest layer (\<open>uri_sources\<close>) and is read through the filter of its view, like every configuration. The
  functions that create plugins hand their work to the injector of \<^verbatim>\<open>di/di.go\<close>, which does not run it.
\<close>

section \<open>URIs\<close>

datatype uri_field_type = UriFieldNone | UriFieldScheme | UriFieldUsername | UriFieldPassword | UriFieldHost
  | UriFieldHostname | UriFieldPort | UriFieldPath | UriFieldQuery

record url =
  url_Scheme :: string
  url_User :: "(string \<times> string option) option"
  url_Host :: string
  url_Hostname :: string
  url_Port :: string
  url_Path :: string
  url_Query :: "(string \<times> string list) list"

record simple_parser =
  sp_key :: string
  sp_selector :: string
  sp_schemes :: "string list"
  sp_mapping :: "(string \<times> (uri_field_type \<times> string \<times> (string \<Rightarrow> string)) list) list"
  sp_query :: "(string \<times> string list) list"

definition NewSimpleUriParser :: "string \<Rightarrow> string \<Rightarrow> simple_parser" where
  "NewSimpleUriParser key selector = \<lparr>sp_key = key, sp_selector = selector, sp_schemes = [], sp_mapping = [], sp_query = []\<rparr>"

definition WithScheme :: "string \<Rightarrow> simple_parser \<Rightarrow> simple_parser" where
  "WithScheme scheme s = s\<lparr>sp_schemes := List.insert scheme (sp_schemes s)\<rparr>"

definition FilePathHandler :: "string \<Rightarrow> string" where
  "FilePathHandler path = (case path of [] \<Rightarrow> [] | c # cs \<Rightarrow> if c = CHR ''/'' then cs else path)"

definition field_map :: "simple_parser \<Rightarrow> string \<Rightarrow> (uri_field_type \<times> string \<times> (string \<Rightarrow> string)) list" where
  "field_map s scheme = (case mget (sp_mapping s) scheme of Some m \<Rightarrow> m | None \<Rightarrow> [])"

definition WithField :: "string \<Rightarrow> uri_field_type \<Rightarrow> string \<Rightarrow> (string \<Rightarrow> string) option \<Rightarrow> simple_parser \<Rightarrow> simple_parser" where
  "WithField scheme typ to valueHandler s =
     (let h = (case valueHandler of Some h \<Rightarrow> h | None \<Rightarrow> if typ = UriFieldPath then FilePathHandler else (\<lambda>v. v))
      in s\<lparr>sp_mapping := AList.update scheme (AList.update typ (to, h) (field_map s scheme)) (sp_mapping s)\<rparr>)"

definition WithQuery :: "string \<Rightarrow> string \<Rightarrow> simple_parser \<Rightarrow> simple_parser" where
  "WithQuery scheme name s =
     s\<lparr>sp_query := AList.update scheme (List.insert name (case mget (sp_query s) scheme of Some q \<Rightarrow> q | None \<Rightarrow> [])) (sp_query s)\<rparr>"

datatype uri_error = NoParser string | BadUri string | NoScheme string

definition selector_key :: "simple_parser \<Rightarrow> string" where
  "selector_key s = sp_key s @ ''.'' @ sp_selector s"

definition param_key :: "simple_parser \<Rightarrow> string \<Rightarrow> string \<Rightarrow> string" where
  "param_key s scheme name = sp_key s @ ''.'' @ scheme @ ''.'' @ name"

definition ParseField ::
  "simple_parser \<Rightarrow> uri_field_type \<times> string \<times> (string \<times> string list) list \<Rightarrow> smap \<Rightarrow> uri_error + smap" where
  "ParseField s field result = (case field of (typ, v, q) \<Rightarrow>
     if typ = UriFieldScheme then
       (if v \<in> set (sp_schemes s) then Inr (AList.update (selector_key s) v result) else Inl (NoScheme v))
     else
       (let scheme = (case mget result (selector_key s) of Some x \<Rightarrow> x | None \<Rightarrow> '''')
        in if typ \<noteq> UriFieldQuery then
             (case mget (field_map s scheme) typ of
                Some (name, h) \<Rightarrow> Inr (AList.update (param_key s scheme name) (h v) result)
              | None \<Rightarrow> Inr result)
           else Inr (fold (\<lambda>(k, vs). AList.update (param_key s scheme (to_lower k)) (join '','' vs)) q result)))"

fun parse_fields :: "simple_parser \<Rightarrow> (uri_field_type \<times> string \<times> (string \<times> string list) list) list \<Rightarrow> smap \<Rightarrow> uri_error + smap" where
  "parse_fields s [] result = Inr result"
| "parse_fields s (f # fs) result = (case ParseField s f result of Inl e \<Rightarrow> Inl e | Inr result' \<Rightarrow> parse_fields s fs result')"

text \<open>The parts of a URI in the order in which they are parsed, without those that are not there.\<close>

definition present :: "uri_field_type \<Rightarrow> string \<Rightarrow> (uri_field_type \<times> string \<times> (string \<times> string list) list) list" where
  "present typ v = (if v \<noteq> '''' then [(typ, v, [])] else [])"

definition plain_fields :: "url \<Rightarrow> (uri_field_type \<times> string \<times> (string \<times> string list) list) list" where
  "plain_fields u =
     (case url_User u of
        None \<Rightarrow> []
      | Some (name, password) \<Rightarrow>
          (UriFieldUsername, name, []) # (case password of Some pw \<Rightarrow> [(UriFieldPassword, pw, [])] | None \<Rightarrow> []))
     @ present UriFieldHost (url_Host u) @ present UriFieldHostname (url_Hostname u) @ present UriFieldPort (url_Port u)
     @ present UriFieldPath (url_Path u)"

definition uri_fields :: "url \<Rightarrow> (uri_field_type \<times> string \<times> (string \<times> string list) list) list" where
  "uri_fields u =
     (UriFieldScheme, url_Scheme u, []) # plain_fields u @ (if url_Query u \<noteq> [] then [(UriFieldQuery, '''', url_Query u)] else [])"

type_synonym uri_registry = "(string \<times> simple_parser) list"

definition RegisterUri :: "simple_parser \<Rightarrow> uri_registry \<Rightarrow> uri_registry option" where
  "RegisterUri parser reg = (if mget reg (sp_key parser) \<noteq> None then None else Some (AList.update (sp_key parser) parser reg))"

definition IsUriRegistered :: "uri_registry \<Rightarrow> string \<Rightarrow> bool" where
  "IsUriRegistered reg k \<longleftrightarrow> mget reg k \<noteq> None"

definition ParseUri :: "(string \<Rightarrow> url option) \<Rightarrow> uri_registry \<Rightarrow> string \<Rightarrow> string \<Rightarrow> uri_error + smap" where
  "ParseUri parse reg k v =
     (case mget reg k of
        None \<Rightarrow> Inl (NoParser k)
      | Some parser \<Rightarrow>
          (let v' = (if CHR '':'' \<in> set v then v else v @ '':'')
           in case parse v' of
                None \<Rightarrow> Inl (BadUri v')
              | Some u \<Rightarrow> parse_fields parser (uri_fields u) []))"

section \<open>Declared plugins\<close>

record plugin_info =
  pi_Name :: string
  pi_Deprecated :: bool
  pi_ForceEnableUri :: bool

record plugin_flag =
  pf_Name :: string
  pf_UriField :: uri_field_type
  pf_UriFieldHandler :: "(string \<Rightarrow> string) option"

record plugin_type_info =
  pt_uriParser :: "simple_parser option"
  pt_pluginInfos :: "plugin_info list"

definition uri_parser_of :: "string \<Rightarrow> plugin_type_info \<Rightarrow> simple_parser" where
  "uri_parser_of typ info = (case pt_uriParser info of Some p \<Rightarrow> p | None \<Rightarrow> NewSimpleUriParser typ ''type'')"

definition flag_uri :: "string \<Rightarrow> plugin_flag \<Rightarrow> simple_parser \<Rightarrow> simple_parser" where
  "flag_uri plugin f p =
     (if pf_UriField f \<noteq> UriFieldNone \<and> pf_UriField f \<noteq> UriFieldQuery
      then WithField plugin (pf_UriField f) (pf_Name f) (pf_UriFieldHandler f) (WithScheme plugin p)
      else WithQuery plugin (pf_Name f) (WithScheme plugin p))"

definition Plugin :: "string \<Rightarrow> plugin_info \<Rightarrow> plugin_flag list \<Rightarrow> plugin_type_info \<Rightarrow> plugin_type_info" where
  "Plugin typ plugin flags info =
     (let info1 = info\<lparr>pt_pluginInfos := pt_pluginInfos info @ [plugin]\<rparr>
      in if flags = [] then
           (if pi_ForceEnableUri plugin
            then info1\<lparr>pt_uriParser := Some (WithScheme (pi_Name plugin) (uri_parser_of typ info1))\<rparr>
            else info1)
         else if list_ex (\<lambda>f. pf_UriField f \<noteq> UriFieldNone) flags
         then info1\<lparr>pt_uriParser := Some (fold (flag_uri (pi_Name plugin)) flags (uri_parser_of typ info1))\<rparr>
         else info1)"

definition PluginTypeFlag :: "string \<Rightarrow> string" where
  "PluginTypeFlag typ = typ @ ''.type''"

text \<open>The default of the flag that selects a plugin: the declared one if such a plugin is there and not deprecated.\<close>

definition default_plugin :: "string \<Rightarrow> plugin_info list \<Rightarrow> string" where
  "default_plugin dflt infos = (if list_ex (\<lambda>p. \<not> pi_Deprecated p \<and> pi_Name p = dflt) infos then dflt else '''')"

section \<open>The configuration of a URI\<close>

text \<open>
  \<open>UriConfig\<close>: the defaults, the environment and the command line ignore name spaces, the source in memory does not. The
  new configuration is read through a view with no prefix, the empty name space and no passwords.
\<close>

definition UriConfig ::
  "value_node prefix_tree \<Rightarrow> smap \<Rightarrow> smap \<Rightarrow> smap \<Rightarrow> string \<Rightarrow> smap \<Rightarrow> config_error option \<times> 'w config_impl \<times> 'w calls" where
  "UriConfig t dflt env cmd ty p = ci_sync 0 (map Inr (uri_sources dflt env cmd ty p)) (NewConfig [True, True, True, False] t)"

definition view_String :: "('p \<Rightarrow> string \<Rightarrow> string option) \<Rightarrow> 'p \<Rightarrow> 'w config_impl \<Rightarrow> string \<Rightarrow> string" where
  "view_String dec builtin c k = fst (fst (fl_Get dec builtin (ci_Get c) (NewFilter '''' [''''] []) k))"

text \<open>\<open>plain dec builtin v\<close>: the value as the view gives it, decrypted if it is encrypted.\<close>

definition plain :: "('p \<Rightarrow> string \<Rightarrow> string option) \<Rightarrow> 'p \<Rightarrow> string \<Rightarrow> string" where
  "plain dec builtin v = fst (fl_decrypt dec builtin (NewFilter '''' [''''] []) v)"

lemma ci_sync_ignores:
  "ci_sync level rs c = (e, c', calls) \<Longrightarrow> map sw_ignore_ns (ci_source c') = map sw_ignore_ns (ci_source c)"
proof (induction rs arbitrary: level c e c' calls)
  case (Cons r' rs)
  obtain res s where sy: "sw_Sync (ci_source c ! level) r' = (res, s)" by fastforce
  have ig: "sw_ignore_ns s = sw_ignore_ns (ci_source c ! level)"
    using sy by (auto simp: sw_Sync_def split: if_splits sum.splits)
  show ?case
  proof (cases res)
    case (Inl err)
    then show ?thesis using Cons.prems sy by auto
  next
    case (Inr val)
    obtain t notify where t: "sync_entries level val (ci_cache c) [] = (t, notify)" by fastforce
    let ?c1 = "c\<lparr>ci_source := (ci_source c)[level := s], ci_cache := t\<rparr>"
    obtain e1 c1 calls1 where rec: "ci_sync (Suc level) rs ?c1 = (e1, c1, calls1)" using prod_cases3 by blast
    have "c' = c1" using Cons.prems sy Inr t rec by simp
    moreover note Cons.IH [OF rec]
    moreover have "map sw_ignore_ns ((ci_source c)[level := s]) = map sw_ignore_ns (ci_source c)"
      unfolding map_update ig by (simp only: map_update [symmetric] list_update_id)
    ultimately show ?thesis by simp
  qed
qed simp

lemma view_reads:
  fixes c :: "'w config_impl"
  assumes tree: "NewPrefixTree ''.'' = Some t" and len: "Suc (length ig) = length vals"
    and sync: "ci_sync 0 (map Inr vals) (NewConfig (True # ig) t) = (None, c, calls)" and key: "config_key (to_lower k)"
  shows "view_String dec builtin c k = plain dec builtin (case layer_lookup vals (to_lower k) of Some v \<Rightarrow> v | None \<Rightarrow> '''')"
proof -
  let ?F = "NewFilter '''' [''''] [] :: 'p filter_state"
  have F: "namespace ?F = ['''']" "getPrefix ?F '''' = ''''"
    by (simp_all add: NewFilter_def namespace_def getPrefix_def ns_prefix_def Let_def)
  have "map sw_ignore_ns (ci_source c) = True # ig"
    using ci_sync_ignores [OF sync] by (simp add: NewConfig_def NewSourceWrapper_def comp_def)
  then have zero: "level_ignores c 0" by (cases "ci_source c") (auto simp: level_ignores_def)
  have "fst (ci_Get c k '''' False) = (case layer_lookup vals (to_lower k) of Some v \<Rightarrow> v | None \<Rightarrow> '''')"
    using layered_get [OF tree, of "True # ig" vals k "''''", where 'w = 'w] len sync key by (simp add: withPrefix_def)
  moreover have "view_String dec builtin c k = plain dec builtin (fst (ci_Get c k '''' False))"
  proof (cases "pt_Get (ci_cache c) (to_lower k)")
    case None
    then show ?thesis by (simp add: view_String_def plain_def fl_Get_def F ci_Get_def withPrefix_def Let_def case_prod_beta)
  next
    case (Some n)
    have "level_ignores c (vn_level n) \<or> vn_level n \<ge> 1" using zero by (cases "vn_level n") auto
    then show ?thesis
      using Some by (auto simp: view_String_def plain_def fl_Get_def F ci_Get_def withPrefix_def Let_def case_prod_beta)
  qed
  ultimately show ?thesis by simp
qed

section \<open>What a URI configures\<close>

definition field_pairs :: "simple_parser \<Rightarrow> string \<Rightarrow> (uri_field_type \<times> string \<times> (string \<times> string list) list) list \<Rightarrow> smap" where
  "field_pairs s scheme fs =
     List.map_filter (\<lambda>(typ, v, q). map_option (\<lambda>(name, h). (param_key s scheme name, h v)) (mget (field_map s scheme) typ)) fs"

definition query_pairs :: "simple_parser \<Rightarrow> string \<Rightarrow> (string \<times> string list) list \<Rightarrow> smap" where
  "query_pairs s scheme q = map (\<lambda>(k, vs). (param_key s scheme (to_lower k), join '','' vs)) q"

definition uri_pairs :: "simple_parser \<Rightarrow> url \<Rightarrow> smap" where
  "uri_pairs s u =
     (selector_key s, url_Scheme u) # field_pairs s (url_Scheme u) (plain_fields u) @ query_pairs s (url_Scheme u) (url_Query u)"

lemma store_all_append: "store_all (xs @ ys) acc = store_all ys (store_all xs acc)"
  by (simp add: store_all_def)

lemma param_not_selector:
  assumes "CHR ''.'' \<notin> set (sp_selector s)"
  shows "param_key s scheme name \<noteq> selector_key s"
proof
  assume "param_key s scheme name = selector_key s"
  then have "scheme @ ''.'' @ name = sp_selector s" by (simp add: param_key_def selector_key_def)
  then show False using assms by (metis in_set_conv_decomp append_Cons)
qed

lemma mget_store_other: "k \<notin> fst ` set xs \<Longrightarrow> mget (store_all xs acc) k = mget acc k"
  using mget_None_iff [of "rev xs" k] by (simp add: mget_store_all)

lemma parse_plain_fields:
  assumes "list_all (\<lambda>f. fst f \<noteq> UriFieldScheme \<and> fst f \<noteq> UriFieldQuery) fs" "mget result (selector_key s) = Some scheme"
    "CHR ''.'' \<notin> set (sp_selector s)"
  shows "parse_fields s (fs @ rest) result = parse_fields s rest (store_all (field_pairs s scheme fs) result)
    \<and> mget (store_all (field_pairs s scheme fs) result) (selector_key s) = Some scheme"
  using assms
proof (induction fs arbitrary: result)
  case (Cons f fs)
  obtain ty v q where f: "f = (ty, v, q)" by (cases f)
  have ne: "selector_key s \<noteq> param_key s scheme n" for n using param_not_selector [OF Cons.prems(3)] by metis
  show ?case
  proof (cases "mget (field_map s scheme) ty")
    case None
    then show ?thesis using Cons f by (simp add: ParseField_def Let_def field_pairs_def map_filter_simps)
  next
    case (Some nh)
    obtain name h where nh: "nh = (name, h)" by (cases nh)
    then show ?thesis using Cons.IH [of "AList.update (param_key s scheme name) (h v) result"] Cons.prems Some f ne
      by (simp add: ParseField_def Let_def field_pairs_def map_filter_simps store_all_def)
  qed
qed (auto simp: field_pairs_def map_filter_simps store_all_def)

lemma plain_fields_plain: "list_all (\<lambda>f. fst f \<noteq> UriFieldScheme \<and> fst f \<noteq> UriFieldQuery) (plain_fields u)"
  by (auto simp: plain_fields_def present_def split: option.split)

lemma parse_uri_fields:
  assumes "url_Scheme u \<in> set (sp_schemes s)" "CHR ''.'' \<notin> set (sp_selector s)"
  shows "parse_fields s (uri_fields u) [] = Inr (store_all (uri_pairs s u) [])"
proof -
  let ?r = "AList.update (selector_key s) (url_Scheme u) []"
  let ?r1 = "store_all (field_pairs s (url_Scheme u) (plain_fields u)) ?r"
  have sel: "mget ?r (selector_key s) = Some (url_Scheme u)" by simp
  have "parse_fields s (uri_fields u) [] = parse_fields s (if url_Query u \<noteq> [] then [(UriFieldQuery, '''', url_Query u)] else []) ?r1"
    using parse_plain_fields [OF plain_fields_plain sel assms(2)] assms(1) by (simp add: uri_fields_def ParseField_def)
  moreover have "mget ?r1 (selector_key s) = Some (url_Scheme u)"
    using parse_plain_fields [OF plain_fields_plain sel assms(2)] by blast
  moreover have "fold (\<lambda>(k, vs). AList.update (param_key s sch (to_lower k)) (join '','' vs)) q acc = store_all (query_pairs s sch q) acc" for sch q acc
    by (simp add: store_all_def query_pairs_def fold_map comp_def case_prod_unfold)
  ultimately show ?thesis
    by (auto simp: ParseField_def uri_pairs_def store_all_append) (simp_all add: store_all_def query_pairs_def)
qed


lemma wf_walk: "wf_map config \<Longrightarrow> wf_map (Walk prefix m config)" "wf_map config \<Longrightarrow> wf_map (walk_value key v config)"
  by (induction prefix m config and key v config rule: Walk_walk_value.induct) (auto split: option.splits)

lemma store_lower_flat:
  assumes "wf_map val" "\<And>k v. mget val k = Some v \<Longrightarrow> lower k"
  shows "mget (store_lower val []) k = mget val k"
proof -
  have "lower (fst x)" if "x \<in> set val" for x
    using assms that mget_in_set [OF assms(1)] by (metis prod.collapse)
  then have "map (\<lambda>(k, v). (to_lower k, v)) val = val" by (intro map_idI) (auto simp: lower_def)
  then show ?thesis using assms(1) by (simp add: store_lower_eq mget_store_all mget_rev split: option.split)
qed

lemma uri_params_flat:
  assumes "wf_map p" "\<And>k v. mget p k = Some v \<Longrightarrow> lower k" "lower ty"
  shows "flat (uri_params ty p)"
    and "mget (uri_params ty p) k = (if k = ty then Some (CStr '''') else map_option CStr (mget p k))"
proof -
  have "mget (map (\<lambda>(k, v). (k, CStr v)) p) k = map_option CStr (mget p k)" for k
    by (induction p) auto
  moreover have "wf_map (map (\<lambda>(k, v). (k, CStr v)) p)"
    using assms(1) by (simp add: wf_map_def comp_def case_prod_unfold)
  ultimately show "flat (uri_params ty p)" "mget (uri_params ty p) k = (if k = ty then Some (CStr '''') else map_option CStr (mget p k))"
    using assms(2,3) by (auto simp: uri_params_def flat_def)
qed

lemma uri_layers:
  assumes "wf_map p" "\<And>k v. mget p k = Some v \<Longrightarrow> lower k" "lower ty"
  shows "(case layer_lookup (uri_sources dflt env cmd ty p) k of Some v \<Rightarrow> v | None \<Rightarrow> '''') =
    (if k = ty then '''' else case mget p k of Some v \<Rightarrow> v | None \<Rightarrow> (case layer_lookup [dflt, env, cmd] k of Some v \<Rightarrow> v | None \<Rightarrow> ''''))"
proof -
  note fl = uri_params_flat [OF assms(1-3)]
  have sync: "mget (ms_Sync (uri_params ty p)) x = (if x = ty then Some '''' else mget p x)" for x
    by (auto simp: ms_Sync_flat [OF fl(1)] fl(2) Stringify_def option.map_comp comp_def option.map_ident)
  have "mget (store_lower (ms_Sync (uri_params ty p)) []) k = (if k = ty then Some '''' else mget p k)"
    using assms(2,3) wf_walk(1) [of "[]" "''''" "uri_params ty p"]
    by (subst store_lower_flat) (auto simp: sync ms_Sync_def [symmetric] split: if_splits)
  then show ?thesis by (simp add: uri_sources_def split: option.split)
qed

lemma mget_uri_pairs_selector:
  assumes "CHR ''.'' \<notin> set (sp_selector s)"
  shows "mget (rev (uri_pairs s u)) (selector_key s) = Some (url_Scheme u)"
proof -
  have "selector_key s \<notin> fst ` set (rev (query_pairs s sch q))" "selector_key s \<notin> fst ` set (rev (field_pairs s sch fs))" for sch q fs
    by (auto simp: query_pairs_def field_pairs_def map_filter_def param_not_selector [OF assms, THEN not_sym])
  then have "mget (rev (query_pairs s sch q)) (selector_key s) = None" "mget (rev (field_pairs s sch fs)) (selector_key s) = None" for sch q fs
    by (simp_all add: mget_None_iff)
  then show ?thesis by (simp add: uri_pairs_def map_add_def)
qed

text \<open>
  C6 (the configuration of a plugin URI). A URI of a registered scheme is parsed, and a configuration is made of it, in which
  the flag of the type of plugins names the scheme and the key of the URI itself is empty. Every other key reads as the
  part of the URI or the query parameter that is mapped to it, the last one where several are, and otherwise as the
  command line, the environment or the default has it, decrypted if it is encrypted. The names are assumed to be in lower
  case.
\<close>

theorem plugin_uri_configuration:
  assumes reg: "mget reg ty = Some s" "sp_key s = ty" "sp_selector s = ''type''"
    and uri: "parse (if CHR '':'' \<in> set uri then uri else uri @ '':'') = Some u"
    and scheme: "url_Scheme u \<in> set (sp_schemes s)"
    and names: "lower ty" "list_all lower (map fst (uri_pairs s u))"
    and tree: "NewPrefixTree ''.'' = Some t"
  shows "\<exists>p (c :: 'w config_impl) calls. ParseUri parse reg ty uri = Inr p \<and> UriConfig t dflt env cmd ty p = (None, c, calls) \<and>
    (\<forall>k. lower k \<and> config_key k \<longrightarrow>
       view_String dec builtin c k = plain dec builtin
         (if k = ty then '''' else if k = PluginTypeFlag ty then url_Scheme u
          else case mget (rev (uri_pairs s u)) k of Some v \<Rightarrow> v | None \<Rightarrow>
            (case layer_lookup [dflt, env, cmd] k of Some v \<Rightarrow> v | None \<Rightarrow> '''')))"
proof -
  let ?p = "store_all (uri_pairs s u) []" let ?vals = "uri_sources dflt env cmd ty ?p"
  have dot: "CHR ''.'' \<notin> set (sp_selector s)" by (simp add: reg(3))
  have p: "mget ?p k = mget (rev (uri_pairs s u)) k" for k by (simp add: mget_store_all split: option.split)
  have low: "lower k" if "mget ?p k = Some v" for k v
  proof -
    have "k \<in> fst ` set (uri_pairs s u)" using that mget_key [of "rev (uri_pairs s u)" k v] by (simp add: p)
    then show ?thesis using names(2) by (auto simp: list_all_iff)
  qed
  have sel: "selector_key s = PluginTypeFlag ty" by (simp add: selector_key_def PluginTypeFlag_def reg)
  have layers: "(case layer_lookup ?vals k of Some v \<Rightarrow> v | None \<Rightarrow> '''') =
      (if k = ty then '''' else if k = PluginTypeFlag ty then url_Scheme u
       else case mget (rev (uri_pairs s u)) k of Some v \<Rightarrow> v | None \<Rightarrow> (case layer_lookup [dflt, env, cmd] k of Some v \<Rightarrow> v | None \<Rightarrow> ''''))" for k
    using uri_layers [of ?p ty dflt env cmd k] low names(1) mget_uri_pairs_selector [OF dot, of u] sel by (simp add: p)
  have len4: "length [True, True, True, False] = length ?vals" by (simp add: uri_sources_def)
  have a: "config_key (to_lower ''a'')" by code_simp
  have "ParseUri parse reg ty uri = Inr ?p"
    using uri reg(1) parse_uri_fields [OF scheme dot] by (simp add: ParseUri_def Let_def)
  moreover obtain c :: "'w config_impl" and calls where c: "UriConfig t dflt env cmd ty ?p = (None, c, calls)"
    using layered_get [OF tree, of "[True, True, True, False]" ?vals "''a''" "''''", where 'w = 'w] len4 a
    unfolding UriConfig_def withPrefix_def by (auto simp del: ci_sync.simps)
  moreover have "view_String dec builtin c k = plain dec builtin
         (if k = ty then '''' else if k = PluginTypeFlag ty then url_Scheme u
          else case mget (rev (uri_pairs s u)) k of Some v \<Rightarrow> v | None \<Rightarrow>
            (case layer_lookup [dflt, env, cmd] k of Some v \<Rightarrow> v | None \<Rightarrow> ''''))" if "lower k" "config_key k" for k
  proof -
    have k: "to_lower k = k" using that(1) by (simp add: lower_def)
    show ?thesis
      using view_reads [OF tree, of "[True, True, False]" ?vals c calls k dec builtin] c that(2)
      unfolding k layers by (simp add: UriConfig_def uri_sources_def)
  qed
  ultimately show ?thesis by blast
qed

definition demo_parser :: simple_parser where
  "demo_parser =
     the (pt_uriParser (Plugin ''registry'' \<lparr>pi_Name = ''etcd'', pi_Deprecated = False, pi_ForceEnableUri = False\<rparr>
       [\<lparr>pf_Name = ''addr'', pf_UriField = UriFieldHost, pf_UriFieldHandler = None\<rparr>,
        \<lparr>pf_Name = ''root'', pf_UriField = UriFieldPath, pf_UriFieldHandler = None\<rparr>,
        \<lparr>pf_Name = ''ttl'', pf_UriField = UriFieldNone, pf_UriFieldHandler = None\<rparr>]
       \<lparr>pt_uriParser = None, pt_pluginInfos = []\<rparr>))"

definition demo_url :: url where
  "demo_url = \<lparr>url_Scheme = ''etcd'', url_User = None, url_Host = ''h:1'', url_Hostname = ''h'', url_Port = ''1'', url_Path = ''/x'',
     url_Query = [(''TTL'', [''5''])]\<rparr>"

theorem plugin_uri_configuration_witness:
  "\<exists>p (c :: unit config_impl) calls.
     ParseUri (\<lambda>v. if v = ''etcd://h:1/x?TTL=5'' then Some demo_url else None) [(''registry'', demo_parser)] ''registry'' ''etcd://h:1/x?TTL=5'' = Inr p \<and>
     UriConfig demo_tree [(''registry.etcd.ttl'', ''9'')] [] [] ''registry'' p = (None, c, calls) \<and>
     view_String (\<lambda>_ _. None) () c ''registry.etcd.ttl'' = ''5'' \<and> view_String (\<lambda>_ _. None) () c ''registry.type'' = ''etcd''"
proof -
  let ?parse = "\<lambda>v. if v = ''etcd://h:1/x?TTL=5'' then Some demo_url else None" and ?uri = "''etcd://h:1/x?TTL=5''"
  have p: "sp_key demo_parser = ''registry''" "sp_selector demo_parser = ''type''" "url_Scheme demo_url \<in> set (sp_schemes demo_parser)"
    by code_simp+
  have l: "lower ''registry''" "list_all lower (map fst (uri_pairs demo_parser demo_url))" by code_simp+
  have k: "lower ''registry.etcd.ttl''" "config_key ''registry.etcd.ttl''" "lower ''registry.type''" "config_key ''registry.type''" by code_simp+
  have v: "mget (rev (uri_pairs demo_parser demo_url)) ''registry.etcd.ttl'' = Some ''5''" "url_Scheme demo_url = ''etcd''"
    "PluginTypeFlag ''registry'' = ''registry.type''" by code_simp+
  have d: "plain (\<lambda>_ _. None) () ''5'' = ''5''" "plain (\<lambda>_ _. None) () ''etcd'' = ''etcd''" by code_simp+
  have t: "NewPrefixTree ''.'' = Some demo_tree" by (simp add: NewPrefixTree_def demo_tree_def)
  have r: "mget [(''registry'', demo_parser)] ''registry'' = Some demo_parser" by simp
  have u: "?parse (if CHR '':'' \<in> set ?uri then ?uri else ?uri @ '':'') = Some demo_url" by simp
  from plugin_uri_configuration [where parse = ?parse and uri = ?uri and u = demo_url and s = demo_parser and reg = "[(''registry'', demo_parser)]"
      and ty = "''registry''" and t = demo_tree and dflt = "[(''registry.etcd.ttl'', ''9'')]" and env = "[]" and cmd = "[]"
      and dec = "\<lambda>_ _. None" and builtin = "()" and 'w = unit, OF r p(1,2) u p(3) l t]
  show ?thesis using k v d by fastforce
qed

text \<open>A query parameter that no flag declares is taken all the same, and replaces a part of the URI with its name.\<close>

lemma query_replaces_field:
  "mget (rev (uri_pairs demo_parser (demo_url\<lparr>url_Query := [(''addr'', [''evil:2''])]\<rparr>))) ''registry.etcd.addr'' = Some ''evil:2''"
  by code_simp

text \<open>The scheme of a URI is in lower case, so that a plugin whose name has a capital letter is never selected by a URI.\<close>

lemma capital_plugin_not_selected:
  assumes "lower (url_Scheme u)" "list_all (\<lambda>n. \<not> lower n) (sp_schemes s)"
  shows "parse_fields s (uri_fields u) [] = Inl (NoScheme (url_Scheme u))"
  using assms by (auto simp: uri_fields_def ParseField_def list_all_iff)

text \<open>A URI is registered once for each type, and lookups of the others are not touched.\<close>

lemma RegisterUri_once:
  "RegisterUri p reg = Some reg' \<Longrightarrow> RegisterUri q reg' = None \<or> sp_key q \<noteq> sp_key p"
  "RegisterUri p reg = Some reg' \<Longrightarrow> mget reg' k = (if k = sp_key p then Some p else mget reg k)"
  by (auto simp: RegisterUri_def split: if_splits)

section \<open>Masked URIs\<close>

text \<open>\<open>strings.Replace(s, old, stars, -1)\<close> with as many stars as \<open>old\<close> is long.\<close>

function mask :: "string \<Rightarrow> string \<Rightarrow> string" where
  "mask old s =
     (if old = [] \<or> s = [] then s
      else if has_prefix s old then replicate (length old) CHR ''*'' @ mask old (drop (length old) s)
      else hd s # mask old (tl s))"
  by pat_completeness auto
termination by (relation "measure (\<lambda>(old, s). length s)") auto

declare mask.simps [simp del]

definition stars :: "string \<Rightarrow> string" where
  "stars v = replicate (length v) CHR ''*''"

definition mask_args :: "string \<Rightarrow> smap \<Rightarrow> smap" where
  "mask_args secret args = map (\<lambda>(k, v). (k, if v = secret then stars secret else v)) args"

definition desensitization :: "(string \<Rightarrow> bool) \<Rightarrow> (string \<times> string option) option \<Rightarrow> string \<Rightarrow> smap \<Rightarrow> string \<times> smap" where
  "desensitization sensitive user uri args =
     (let (uri1, args1) =
        (case user of
           None \<Rightarrow> (uri, args)
         | Some (name, None) \<Rightarrow> (mask name uri, mask_args name args)
         | Some (name, Some pw) \<Rightarrow> (mask pw (mask name uri), mask_args pw (mask_args name args)))
      in (fold (\<lambda>(k, v) r. if sensitive k then mask v r else r) args1 uri1,
          map (\<lambda>(k, v). (k, if sensitive k then stars v else v)) args1))"

text \<open>A password that contains the name of the user is not masked as a whole.\<close>

lemma password_partly_shown:
  "fst (desensitization (\<lambda>_. False) (Some (''a'', Some ''abc'')) ''x://a:abc@h'' []) = ''x://*:*bc@h''"
  by code_simp

text \<open>The arguments never show a value that is the password, or that belongs to a sensitive flag.\<close>

lemma arguments_masked:
  assumes "mget args k = Some v" "sensitive k \<or> (\<exists>name. user = Some (name, Some v) \<and> name \<noteq> v)"
  shows "mget (snd (desensitization sensitive user uri args)) k \<in> {Some (stars v)}"
proof -
  have m: "mget (map (\<lambda>(k, v). (k, f k v)) xs) x = map_option (f x) (mget xs x)" for f and xs :: smap and x
    by (induction xs) auto
  show ?thesis using assms
    by (auto simp: desensitization_def mask_args_def m [of "\<lambda>k v. if sensitive k then stars v else v"]
        m [of "\<lambda>k v. if v = _ then _ else v"] stars_def split: option.split prod.split
        simp del: map_map)
qed


section \<open>Several URIs\<close>

datatype plugin_error = UriError uri_error | PluginNotFound string | InjectorError string

text \<open>
  \<open>parsePluginUris\<close>: the URIs are handled in order until one fails. The result says whether there was a URI of a
  registered type, the error, and the parameters that were handed to the callback.
\<close>

fun parsePluginUris ::
  "(string \<Rightarrow> url option) \<Rightarrow> uri_registry \<Rightarrow> (smap \<Rightarrow> plugin_error option) \<Rightarrow> string \<Rightarrow> string list \<Rightarrow> bool \<Rightarrow> smap list
     \<Rightarrow> bool \<times> plugin_error option \<times> smap list" where
  "parsePluginUris parse reg uriCallback ty [] hasUri done = (hasUri, None, done)"
| "parsePluginUris parse reg uriCallback ty (u # us) hasUri done =
     (if u \<noteq> '''' \<and> IsUriRegistered reg ty then
        (case ParseUri parse reg ty u of
           Inl e \<Rightarrow> (True, Some (UriError e), done)
         | Inr p \<Rightarrow>
             (case uriCallback p of
                Some e \<Rightarrow> (True, Some e, done @ [p])
              | None \<Rightarrow> parsePluginUris parse reg uriCallback ty us True (done @ [p])))
      else parsePluginUris parse reg uriCallback ty us hasUri done)"

definition enumUriPluginConfig ::
  "(string \<Rightarrow> url option) \<Rightarrow> uri_registry \<Rightarrow> (smap \<Rightarrow> plugin_error option) \<Rightarrow> string \<Rightarrow> (string \<Rightarrow> string) \<Rightarrow> bool \<Rightarrow> bool \<times> plugin_error option \<times> smap list" where
  "enumUriPluginConfig parse reg uriCallback ty c multipleUri =
     parsePluginUris parse reg uriCallback ty (if multipleUri then split_char CHR '';'' (c ty) else [c ty]) False []"

lemma parsePluginUris_all:
  assumes "IsUriRegistered reg ty" "\<And>p. uriCallback p = None" "list_all (\<lambda>u. u = '''' \<or> (\<exists>p. ParseUri parse reg ty u = Inr p)) us"
  shows "parsePluginUris parse reg uriCallback ty us hasUri done =
    (hasUri \<or> (\<exists>u \<in> set us. u \<noteq> ''''), None, done @ map (\<lambda>u. projr (ParseUri parse reg ty u)) (filter (\<lambda>u. u \<noteq> '''') us))"
  using assms(3) by (induction us arbitrary: hasUri "done") (auto simp: assms(1,2))

section \<open>Creating plugins\<close>

text \<open>
  What \<open>String\<close> of a configuration answers is all that is read here. The bodies are closures that are handed to \<open>Invoke\<close>;
  the creator of a plugin is an injector of its own, and is asked to \<open>Create\<close> the object behind a pointer of type \<open>ptr\<close>.
\<close>

type_synonym cfg = "string \<Rightarrow> string"

definition CreatePluginWithName :: "string list \<Rightarrow> go_type \<Rightarrow> string \<Rightarrow> plugin_error option" where
  "CreatePluginWithName creators ptr name =
     Invoke (\<lambda>_. if name \<in> set creators then map_option InjectorError (Create (Some (PtrType ptr))) else Some (PluginNotFound name))"

fun CreatePlugin ::
  "(string \<Rightarrow> url option) \<Rightarrow> uri_registry \<Rightarrow> (smap \<Rightarrow> cfg) \<Rightarrow> string list \<Rightarrow> go_type \<Rightarrow> string \<Rightarrow> cfg \<Rightarrow> plugin_error option" where
  "CreatePlugin parse reg uriConfig creators ptr ty c =
     Invoke (\<lambda>_.
       (let (hasUriPlugin, err, ps) =
          enumUriPluginConfig parse reg (\<lambda>p. CreatePlugin parse reg uriConfig creators ptr ty (uriConfig p)) ty c False
        in if hasUriPlugin then err
           else if c (PluginTypeFlag ty) = '''' then None
           else CreatePluginWithName creators ptr (c (PluginTypeFlag ty))))"

definition CreatePluginWithUri ::
  "(string \<Rightarrow> url option) \<Rightarrow> uri_registry \<Rightarrow> (smap \<Rightarrow> cfg) \<Rightarrow> string list \<Rightarrow> go_type \<Rightarrow> string \<Rightarrow> string \<Rightarrow> plugin_error option" where
  "CreatePluginWithUri parse reg uriConfig creators ptr ty uri =
     (case parsePluginUris parse reg (\<lambda>p. CreatePlugin parse reg uriConfig creators ptr ty (uriConfig p)) ty [uri] False [] of
        (hasUri, Some e, ps) \<Rightarrow> Some e
      | (hasUri, None, ps) \<Rightarrow> if hasUri then None else Some (PluginNotFound uri))"

definition InvokePluginWithName :: "string list \<Rightarrow> string \<Rightarrow> plugin_error option" where
  "InvokePluginWithName creators name =
     Invoke (\<lambda>_. if name \<in> set creators then Invoke (\<lambda>_. None) else Some (PluginNotFound name))"

fun InvokePlugin ::
  "(string \<Rightarrow> url option) \<Rightarrow> uri_registry \<Rightarrow> (smap \<Rightarrow> cfg) \<Rightarrow> string list \<Rightarrow> string \<Rightarrow> cfg \<Rightarrow> plugin_error option" where
  "InvokePlugin parse reg uriConfig creators ty c =
     Invoke (\<lambda>_.
       (let (hasUriPlugin, err, ps) =
          enumUriPluginConfig parse reg (\<lambda>p. InvokePlugin parse reg uriConfig creators ty (uriConfig p)) ty c True
        in if hasUriPlugin then err
           else if c (PluginTypeFlag ty) = '''' then None
           else InvokePluginWithName creators (c (PluginTypeFlag ty))))"

declare CreatePlugin.simps [simp del] InvokePlugin.simps [simp del]

text \<open>
  No plugin is created, and no mistake in its configuration is reported: not a missing plugin, and not a URI that cannot be
  parsed, unless the URI is given to \<open>CreatePluginWithUri\<close> itself.
\<close>

theorem plugins_never_created:
  "CreatePlugin parse reg uriConfig creators ptr ty c = None" "InvokePlugin parse reg uriConfig creators ty c = None"
  "CreatePluginWithName creators ptr name = None"
  "IsUriRegistered reg ty \<Longrightarrow> uri \<noteq> '''' \<Longrightarrow>
     CreatePluginWithUri parse reg uriConfig creators ptr ty uri = (case ParseUri parse reg ty uri of Inl e \<Rightarrow> Some (UriError e) | Inr p \<Rightarrow> None)"
proof -
  show create: "CreatePlugin parse reg uriConfig creators ptr ty c = None" for c
    by (subst CreatePlugin.simps) (simp only: Invoke_def)
  show "InvokePlugin parse reg uriConfig creators ty c = None"
    by (subst InvokePlugin.simps) (simp only: Invoke_def)
  show "CreatePluginWithName creators ptr name = None"
    by (simp only: CreatePluginWithName_def Invoke_def)
  show "IsUriRegistered reg ty \<Longrightarrow> uri \<noteq> '''' \<Longrightarrow>
     CreatePluginWithUri parse reg uriConfig creators ptr ty uri = (case ParseUri parse reg ty uri of Inl e \<Rightarrow> Some (UriError e) | Inr p \<Rightarrow> None)"
    by (simp add: CreatePluginWithUri_def create split: sum.split)
qed

end
