(* ===== verification/Credentials.thy ===== *)
theory Credentials
  imports Metadata Encrypt
begin

text \<open>
  Transport security, \<^verbatim>\<open>credentials/credentials.go\<close>, \<^verbatim>\<open>credentials/option.go\<close> and
  \<^verbatim>\<open>credentials/utils.go\<close>: the options of clients and servers, the TLS configuration made from them, the
  verification of the certificates of a peer, and the TLS information that is handed on in the metadata of a call.

  The packages \<open>crypto/tls\<close> and \<open>crypto/x509\<close> appear as the arguments of \<open>x509_env\<close>; \<open>client_handshake\<close> and
  \<open>server_handshake\<close> say when a handshake calls them. The state of the world that a function reads when it is called
  (files, flags, the clock) is its argument \<open>w\<close>.
\<close>

section \<open>Certificates\<close>

record 'ip certificate =
  ce_Version :: int
  ce_Issuer :: string
  ce_CommonName :: string
  ce_Subject :: string
  ce_NotBefore :: int
  ce_NotAfter :: int
  ce_KeyUsage :: int
  ce_DNSNames :: "string list"
  ce_EmailAddresses :: "string list"
  ce_IPAddresses :: "'ip list"
  ce_URIs :: "string list"
  ce_Extensions :: "(int list \<times> string) list"
  ce_ExtraExtensions :: "(int list \<times> string) list"
  ce_SerialNumber :: int
  ce_Raw :: string

record 'ip verify_opts =
  vo_CurrentTime :: int
  vo_DNSName :: string
  vo_Intermediates :: "'ip certificate list"
  vo_Roots :: "'ip certificate list option"
  vo_KeyUsages :: "nat list"

type_synonym 'ip chains = "'ip certificate list list"

record ('w, 'ip) x509_env =
  xe_ParseIP :: "string \<Rightarrow> 'ip option"
  xe_IpEqual :: "'ip \<Rightarrow> 'ip \<Rightarrow> bool"
  xe_ParseCertificate :: "string \<Rightarrow> string + 'ip certificate"
  xe_CertsFromPEM :: "string \<Rightarrow> 'ip certificate list"
  xe_Verify :: "'ip verify_opts \<Rightarrow> 'ip certificate \<Rightarrow> string + 'ip chains"
  xe_Now :: "'w \<Rightarrow> int"
  xe_Later :: "'w \<Rightarrow> int"

section \<open>Host names\<close>

text \<open>
  \<open>toLowerCaseASCII\<close> copies the string only when it has a capital letter or bytes beyond ASCII that may decode to
  \<open>RuneError\<close>; the copy then changes no byte but the capital letters.
\<close>

definition is_upper :: "char \<Rightarrow> bool" where
  "is_upper c \<longleftrightarrow> 65 \<le> (of_char c :: nat) \<and> (of_char c :: nat) \<le> 90"

definition toLowerCaseASCII :: "string \<Rightarrow> string" where
  "toLowerCaseASCII s =
     (if list_all (\<lambda>c. (of_char c :: nat) < 128 \<and> \<not> is_upper c) s then s
      else map (\<lambda>c. if is_upper c then char_of (of_char c + 32 :: nat) else c) s)"

definition host_char :: "nat \<Rightarrow> char \<Rightarrow> bool" where
  "host_char j c \<longleftrightarrow>
     (let n = of_char c :: nat
      in 97 \<le> n \<and> n \<le> 122 \<or> 48 \<le> n \<and> n \<le> 57 \<or> 65 \<le> n \<and> n \<le> 90 \<or> c = CHR ''-'' \<and> j \<noteq> 0 \<or> c = CHR ''_'')"

definition host_part :: "bool \<Rightarrow> nat \<Rightarrow> string \<Rightarrow> bool" where
  "host_part isPattern i part \<longleftrightarrow>
     part \<noteq> [] \<and> (isPattern \<and> i = 0 \<and> part = ''*'' \<or> list_all (\<lambda>(j, c). host_char j c) (enumerate 0 part))"

definition validHostname :: "string \<Rightarrow> bool \<Rightarrow> bool" where
  "validHostname host isPattern \<longleftrightarrow>
     (let host = (if isPattern then host else trim_suffix host ''.'')
      in host \<noteq> [] \<and> list_all (\<lambda>(i, part). host_part isPattern i part) (enumerate 0 (split_char (CHR ''.'') host)))"

definition validHostnamePattern :: "string \<Rightarrow> bool" where
  "validHostnamePattern host = validHostname host True"

definition validHostnameInput :: "string \<Rightarrow> bool" where
  "validHostnameInput host = validHostname host False"

definition matchExactly :: "string \<Rightarrow> string \<Rightarrow> bool" where
  "matchExactly hostA hostB \<longleftrightarrow>
     \<not> (hostA = '''' \<or> hostA = ''.'' \<or> hostB = '''' \<or> hostB = ''.'') \<and> toLowerCaseASCII hostA = toLowerCaseASCII hostB"

definition match_part :: "nat \<Rightarrow> string \<Rightarrow> string \<Rightarrow> bool" where
  "match_part i patternPart hostPart \<longleftrightarrow> i = 0 \<and> patternPart = ''*'' \<or> patternPart = hostPart"

definition matchHostnames :: "string \<Rightarrow> string \<Rightarrow> bool" where
  "matchHostnames pattern host \<longleftrightarrow>
     (let pattern = toLowerCaseASCII pattern; host = toLowerCaseASCII (trim_suffix host ''.'')
      in pattern \<noteq> [] \<and> host \<noteq> [] \<and>
         (let patternParts = split_char (CHR ''.'') pattern; hostParts = split_char (CHR ''.'') host
          in length patternParts = length hostParts \<and>
             list_all (\<lambda>(i, p). match_part i p (hostParts ! i)) (enumerate 0 patternParts)))"

definition oidInExtensions :: "int list \<Rightarrow> (int list \<times> string) list \<Rightarrow> bool" where
  "oidInExtensions oid extensions \<longleftrightarrow> list_ex (\<lambda>e. fst e = oid) extensions"

definition oidExtensionSubjectAltName :: "int list" where
  "oidExtensionSubjectAltName = [2, 5, 29, 17]"

definition hasSANExtension :: "'ip certificate \<Rightarrow> bool" where
  "hasSANExtension c = oidInExtensions oidExtensionSubjectAltName (ce_Extensions c)"

definition commonNameAsHostname :: "'ip certificate \<Rightarrow> bool" where
  "commonNameAsHostname c \<longleftrightarrow> \<not> hasSANExtension c \<and> validHostnamePattern (ce_CommonName c)"

definition cert_names :: "'ip certificate \<Rightarrow> string list" where
  "cert_names c = (if commonNameAsHostname c then [ce_CommonName c] else ce_DNSNames c)"

definition name_match :: "string \<Rightarrow> string \<Rightarrow> bool" where
  "name_match candidateName m =
     (if validHostnameInput candidateName \<and> validHostnamePattern m then matchHostnames m candidateName
      else matchExactly m candidateName)"

text \<open>\<open>VerifyHostname\<close>: \<open>None\<close> is the nil error, \<open>Some\<close> the host of the \<open>HostnameError\<close>.\<close>

definition VerifyHostname :: "('w, 'ip) x509_env \<Rightarrow> 'ip certificate \<Rightarrow> string \<Rightarrow> string option" where
  "VerifyHostname E c h =
     (let candidateIP = (if 3 \<le> length h \<and> hd h = CHR ''['' \<and> last h = CHR '']'' then butlast (tl h) else h)
      in case xe_ParseIP E candidateIP of
           Some ip \<Rightarrow> if list_ex (xe_IpEqual E ip) (ce_IPAddresses c) then None else Some candidateIP
         | None \<Rightarrow> if list_ex (name_match (toLowerCaseASCII h)) (cert_names c) then None else Some h)"

section \<open>Options of a client\<close>

text \<open>
  A function that fetches certificates or verifies them is an argument of its option. A slice of verifiers is nil
  when it is empty, since it only grows by \<open>append\<close>.
\<close>

type_synonym ('w, 'ip) verifier = "'w \<Rightarrow> string list \<Rightarrow> bool \<Rightarrow> string + 'ip chains"
type_synonym ('w, 'ip) custom_check = "'w \<Rightarrow> string list \<Rightarrow> 'ip chains option \<Rightarrow> string option"

record ('w, 'ip, 'c, 'p) client_options =
  co_rootCAs :: "('w \<Rightarrow> string + string list) option"
  co_certificate :: "('w \<Rightarrow> string + 'c) option"
  co_serverName :: string
  co_insecure :: bool
  co_insecureSkipVerify :: bool
  co_certificateVerifier :: "('w, 'ip) verifier list"
  co_verifyCertificate :: "('w, 'ip) custom_check option"
  co_ignoreExpiresCheck :: bool
  co_perRPCCredentials :: "'p option"

type_synonym ('w, 'ip, 'c, 'p) client_option =
  "('w, 'ip, 'c, 'p) client_options \<Rightarrow> string + ('w, 'ip, 'c, 'p) client_options"

definition new_client_options :: "('w, 'ip, 'c, 'p) client_options" where
  "new_client_options =
     \<lparr>co_rootCAs = None, co_certificate = None, co_serverName = '''', co_insecure = False, co_insecureSkipVerify = False,
      co_certificateVerifier = [], co_verifyCertificate = None, co_ignoreExpiresCheck = False, co_perRPCCredentials = None\<rparr>"

definition WithPerRPCCredentials :: "'p option \<Rightarrow> ('w, 'ip, 'c, 'p) client_option" where
  "WithPerRPCCredentials cred opts = Inr (opts\<lparr>co_perRPCCredentials := cred\<rparr>)"

definition WithRootCACert :: "('w \<Rightarrow> string + string list) option \<Rightarrow> ('w, 'ip, 'c, 'p) client_option" where
  "WithRootCACert caCertFunc opts = Inr (opts\<lparr>co_rootCAs := caCertFunc\<rparr>)"

text \<open>The files are read when the option is applied.\<close>

fun read_files :: "(string \<Rightarrow> string + string) \<Rightarrow> string list \<Rightarrow> string + string list" where
  "read_files ReadFile [] = Inr []"
| "read_files ReadFile (f # fs) =
     (case ReadFile f of
        Inl e \<Rightarrow> Inl e
      | Inr t \<Rightarrow> (case read_files ReadFile fs of Inl e \<Rightarrow> Inl e | Inr ts \<Rightarrow> Inr (t # ts)))"

definition WithRootCACertFile :: "(string \<Rightarrow> string + string) \<Rightarrow> string list \<Rightarrow> ('w, 'ip, 'c, 'p) client_option" where
  "WithRootCACertFile ReadFile caCertFiles opts =
     (case read_files ReadFile caCertFiles of
        Inl e \<Rightarrow> Inl e
      | Inr caCerts \<Rightarrow> WithRootCACert (Some (\<lambda>w. Inr caCerts)) opts)"

definition WithInsecureDial :: "bool \<Rightarrow> ('w, 'ip, 'c, 'p) client_option" where
  "WithInsecureDial insecure opts = Inr (opts\<lparr>co_insecure := insecure\<rparr>)"

definition WithClientCertificate :: "('w \<Rightarrow> string + 'c) option \<Rightarrow> ('w, 'ip, 'c, 'p) client_option" where
  "WithClientCertificate getter opts =
     (case WithInsecureDial False opts of Inl e \<Rightarrow> Inl e | Inr opts \<Rightarrow> Inr (opts\<lparr>co_certificate := getter\<rparr>))"

definition key_pair_files ::
  "(string \<Rightarrow> string + string) \<Rightarrow> (string \<Rightarrow> string \<Rightarrow> string + 'c) \<Rightarrow> string \<Rightarrow> string \<Rightarrow> string + 'c" where
  "key_pair_files ReadFile X509KeyPair certFile keyFile =
     (case ReadFile certFile of
        Inl e \<Rightarrow> Inl e
      | Inr cert \<Rightarrow> (case ReadFile keyFile of Inl e \<Rightarrow> Inl e | Inr key \<Rightarrow> X509KeyPair cert key))"

definition WithClientCertificateFile ::
  "(string \<Rightarrow> string + string) \<Rightarrow> (string \<Rightarrow> string \<Rightarrow> string + 'c) \<Rightarrow> string \<Rightarrow> string \<Rightarrow> ('w, 'ip, 'c, 'p) client_option" where
  "WithClientCertificateFile ReadFile X509KeyPair certFile keyFile opts =
     (case key_pair_files ReadFile X509KeyPair certFile keyFile of
        Inl e \<Rightarrow> Inl e
      | Inr c \<Rightarrow> WithClientCertificate (Some (\<lambda>w. Inr c)) opts)"

definition WithServerNameOverride :: "string \<Rightarrow> ('w, 'ip, 'c, 'p) client_option" where
  "WithServerNameOverride serverNameOverride opts = Inr (opts\<lparr>co_serverName := serverNameOverride\<rparr>)"

definition WithInsecureSkipVerify :: "bool \<Rightarrow> ('w, 'ip, 'c, 'p) client_option" where
  "WithInsecureSkipVerify insecureSkipVerify opts = Inr (opts\<lparr>co_insecureSkipVerify := insecureSkipVerify\<rparr>)"

definition WithVerifyServerCertificate :: "('w, 'ip) custom_check option \<Rightarrow> ('w, 'ip, 'c, 'p) client_option" where
  "WithVerifyServerCertificate check opts = Inr (opts\<lparr>co_verifyCertificate := check\<rparr>)"

definition WithIgnoreServerCertExpiresCheck :: "bool \<Rightarrow> ('w, 'ip, 'c, 'p) client_option" where
  "WithIgnoreServerCertExpiresCheck ignoreExpiresCheck opts = Inr (opts\<lparr>co_ignoreExpiresCheck := ignoreExpiresCheck\<rparr>)"

fun apply_cred_options :: "('o \<Rightarrow> string + 'o) list \<Rightarrow> 'o \<Rightarrow> string + 'o" where
  "apply_cred_options [] opts = Inr opts"
| "apply_cred_options (f # fs) opts =
     (case f opts of Inl e \<Rightarrow> Inl (''config credentials failed, err = '' @ e) | Inr opts' \<Rightarrow> apply_cred_options fs opts')"

definition ParseClientOptions :: "('w, 'ip, 'c, 'p) client_option list \<Rightarrow> string + ('w, 'ip, 'c, 'p) client_options" where
  "ParseClientOptions opt = apply_cred_options opt new_client_options"

section \<open>Verification of a chain\<close>

text \<open>
  \<open>IntermediateAuthorityChecker\<close>: the certificate at the given level must be good for one of the authorities, all
  others are not looked at. The error is a message; the text of the single errors is left out of it here.
\<close>

type_synonym ('w, 'ip) authority_checker = "'w \<Rightarrow> nat \<Rightarrow> nat \<Rightarrow> 'ip certificate \<Rightarrow> string option"

definition IntermediateAuthorityChecker ::
  "('w, 'ip) x509_env \<Rightarrow> nat \<Rightarrow> ('w \<Rightarrow> string list) option \<Rightarrow> ('w, 'ip) authority_checker" where
  "IntermediateAuthorityChecker E level authorities w len current certificate =
     (case authorities of
        None \<Rightarrow> Some ''authority getter function is nil''
      | Some auths \<Rightarrow>
          if len \<le> level then Some ''no certificate of this level found''
          else if current = level
          then (if list_ex (\<lambda>authority. authority = ''*'' \<or> VerifyHostname E certificate authority = None) (auths w) then None
                else Some ''Verify certificate authorities failed'')
          else None)"

definition LeafAuthorityChecker :: "('w, 'ip) x509_env \<Rightarrow> ('w \<Rightarrow> string list) option \<Rightarrow> ('w, 'ip) authority_checker" where
  "LeafAuthorityChecker E authorities = IntermediateAuthorityChecker E 0 authorities"

fun parse_certs :: "('w, 'ip) x509_env \<Rightarrow> string list \<Rightarrow> string + 'ip certificate list" where
  "parse_certs E [] = Inr []"
| "parse_certs E (asn1Data # rest) =
     (case xe_ParseCertificate E asn1Data of
        Inl e \<Rightarrow> Inl (''tls: failed to parse certificate from server: '' @ e)
      | Inr cert \<Rightarrow> (case parse_certs E rest of Inl e \<Rightarrow> Inl e | Inr certs \<Rightarrow> Inr (cert # certs)))"

text \<open>The pool of the certificates in the PEM texts; a text without a certificate is an error.\<close>

fun cert_pool :: "('w, 'ip) x509_env \<Rightarrow> string list \<Rightarrow> string + 'ip certificate list" where
  "cert_pool E [] = Inr []"
| "cert_pool E (caCert # rest) =
     (case xe_CertsFromPEM E caCert of
        [] \<Rightarrow> Inl (''AppendCACerts failed, cacert = '' @ caCert)
      | cs \<Rightarrow> (case cert_pool E rest of Inl e \<Rightarrow> Inl e | Inr pool \<Rightarrow> Inr (cs @ pool)))"

fun check_authorities :: "(nat \<Rightarrow> 'ip certificate \<Rightarrow> string option) \<Rightarrow> nat \<Rightarrow> 'ip certificate list \<Rightarrow> string option" where
  "check_authorities check idx [] = None"
| "check_authorities check idx (cert # certs) =
     (case check idx cert of Some e \<Rightarrow> Some e | None \<Rightarrow> check_authorities check (Suc idx) certs)"

definition not_before :: "int \<Rightarrow> 'ip certificate list \<Rightarrow> int" where
  "not_before now certs = fold (\<lambda>cert t. if t < ce_NotBefore cert then ce_NotBefore cert else t) certs now"

definition time_Second :: int where
  "time_Second = 1000000000"

text \<open>The options of the verification of the leaf; \<open>now\<close> is read first and \<open>later\<close> after the certificates.\<close>

definition chain_opts ::
  "int \<Rightarrow> int \<Rightarrow> bool \<Rightarrow> nat list \<Rightarrow> 'ip certificate list \<Rightarrow> 'ip certificate list \<Rightarrow> 'ip verify_opts" where
  "chain_opts now later ignoreExpiresCheck extKeyUsage certPool certs =
     \<lparr>vo_CurrentTime = (if ignoreExpiresCheck then not_before now certs + time_Second else later), vo_DNSName = '''',
      vo_Intermediates = tl certs, vo_Roots = Some certPool, vo_KeyUsages = extKeyUsage\<rparr>"

definition certificateChainVerifier ::
  "('w, 'ip) x509_env \<Rightarrow> ('w \<Rightarrow> string + string list) option \<Rightarrow> ('w, 'ip) authority_checker \<Rightarrow> nat list \<Rightarrow> ('w, 'ip) verifier" where
  "certificateChainVerifier E rootCAs authorityChecker extKeyUsage w rawCerts ignoreExpiresCheck =
     (case rootCAs of
        None \<Rightarrow> Inl ''tls: verify peer certificate without root ca set''
      | Some cas \<Rightarrow>
          if rawCerts = [] then Inl ''tls: no certificates specified for certificate verification''
          else (case parse_certs E rawCerts of
            Inl e \<Rightarrow> Inl e
          | Inr certs \<Rightarrow>
              (case cas w of
                 Inl e \<Rightarrow> Inl e
               | Inr caCerts \<Rightarrow>
                   (case cert_pool E caCerts of
                      Inl e \<Rightarrow> Inl e
                    | Inr certPool \<Rightarrow>
                        (case xe_Verify E (chain_opts (xe_Now E w) (xe_Later E w) ignoreExpiresCheck extKeyUsage certPool certs) (hd certs) of
                           Inl e \<Rightarrow> Inl e
                         | Inr verifiedChains \<Rightarrow>
                             (case check_authorities (authorityChecker w (length certs)) 0 certs of
                                Some e \<Rightarrow> Inl e
                              | None \<Rightarrow> Inr verifiedChains))))))"

definition WithVerifyServerAuthority ::
  "('w, 'ip) x509_env \<Rightarrow> ('w \<Rightarrow> string + string list) option \<Rightarrow> ('w, 'ip) authority_checker \<Rightarrow> ('w, 'ip, 'c, 'p) client_option" where
  "WithVerifyServerAuthority E rootCAs authorityChecker opts =
     Inr (opts\<lparr>co_certificateVerifier := co_certificateVerifier opts @ [certificateChainVerifier E rootCAs authorityChecker []]\<rparr>)"

section \<open>Options of a server\<close>

record ('w, 'ip, 'c) server_options =
  so_clientCAs :: "('w \<Rightarrow> string + string list) option"
  so_certificate :: "('w \<Rightarrow> string + 'c) option"
  so_insecure :: bool
  so_clientAuthType :: nat
  so_certificateChainVerifier :: "('w, 'ip) verifier list"
  so_verifyCertificate :: "('w, 'ip) custom_check option"
  so_ignoreExpiresCheck :: bool

type_synonym ('w, 'ip, 'c) server_option = "('w, 'ip, 'c) server_options \<Rightarrow> string + ('w, 'ip, 'c) server_options"

definition new_server_options :: "('w, 'ip, 'c) server_options" where
  "new_server_options =
     \<lparr>so_clientCAs = None, so_certificate = None, so_insecure = False, so_clientAuthType = 0,
      so_certificateChainVerifier = [], so_verifyCertificate = None, so_ignoreExpiresCheck = False\<rparr>"

definition WithClientCACert :: "('w \<Rightarrow> string + string list) option \<Rightarrow> ('w, 'ip, 'c) server_option" where
  "WithClientCACert caCertFunc opts = Inr (opts\<lparr>so_clientCAs := caCertFunc\<rparr>)"

definition WithClientCACertFile :: "(string \<Rightarrow> string + string) \<Rightarrow> string list \<Rightarrow> ('w, 'ip, 'c) server_option" where
  "WithClientCACertFile ReadFile caCertFiles opts =
     (case read_files ReadFile caCertFiles of
        Inl e \<Rightarrow> Inl e
      | Inr caCerts \<Rightarrow> WithClientCACert (Some (\<lambda>w. Inr caCerts)) opts)"

definition WithInsecureListen :: "bool \<Rightarrow> ('w, 'ip, 'c) server_option" where
  "WithInsecureListen insecure opts = Inr (opts\<lparr>so_insecure := insecure\<rparr>)"

definition WithServerCertificate :: "('w \<Rightarrow> string + 'c) option \<Rightarrow> ('w, 'ip, 'c) server_option" where
  "WithServerCertificate getter opts =
     (case WithInsecureListen False opts of Inl e \<Rightarrow> Inl e | Inr opts \<Rightarrow> Inr (opts\<lparr>so_certificate := getter\<rparr>))"

definition WithServerCertificateFile ::
  "(string \<Rightarrow> string + string) \<Rightarrow> (string \<Rightarrow> string \<Rightarrow> string + 'c) \<Rightarrow> string \<Rightarrow> string \<Rightarrow> ('w, 'ip, 'c) server_option" where
  "WithServerCertificateFile ReadFile X509KeyPair certFile keyFile opts =
     (case key_pair_files ReadFile X509KeyPair certFile keyFile of
        Inl e \<Rightarrow> Inl e
      | Inr c \<Rightarrow> WithServerCertificate (Some (\<lambda>w. Inr c)) opts)"

definition WithClientAuthType :: "nat \<Rightarrow> ('w, 'ip, 'c) server_option" where
  "WithClientAuthType clientAuthType opts = Inr (opts\<lparr>so_clientAuthType := clientAuthType\<rparr>)"

definition ExtKeyUsageClientAuth :: nat where
  "ExtKeyUsageClientAuth = 2"

definition WithVerifyClientAuthority ::
  "('w, 'ip) x509_env \<Rightarrow> ('w \<Rightarrow> string + string list) option \<Rightarrow> ('w, 'ip) authority_checker \<Rightarrow> ('w, 'ip, 'c) server_option" where
  "WithVerifyClientAuthority E clientCAs authorityChecker opts =
     Inr (opts\<lparr>so_certificateChainVerifier :=
                so_certificateChainVerifier opts @ [certificateChainVerifier E clientCAs authorityChecker [ExtKeyUsageClientAuth]]\<rparr>)"

definition WithVerifyClientCertificate :: "('w, 'ip) custom_check option \<Rightarrow> ('w, 'ip, 'c) server_option" where
  "WithVerifyClientCertificate check opts = Inr (opts\<lparr>so_verifyCertificate := check\<rparr>)"

definition WithIgnoreClientCertExpiresCheck :: "bool \<Rightarrow> ('w, 'ip, 'c) server_option" where
  "WithIgnoreClientCertExpiresCheck ignoreExpiresCheck opts = Inr (opts\<lparr>so_ignoreExpiresCheck := ignoreExpiresCheck\<rparr>)"

definition ParseServerOptions :: "('w, 'ip, 'c) server_option list \<Rightarrow> string + ('w, 'ip, 'c) server_options" where
  "ParseServerOptions opt = apply_cred_options opt new_server_options"

section \<open>TLS configurations\<close>

record ('w, 'ip, 'c) tls_config =
  tc_ServerName :: string
  tc_InsecureSkipVerify :: bool
  tc_GetCertificate :: "('w \<Rightarrow> string + 'c) option"
  tc_ClientAuth :: nat
  tc_MinVersion :: nat
  tc_CipherSuites :: "nat list"
  tc_NextProtos :: "string list"
  tc_CAs :: "'ip certificate list option"
  tc_VerifyPeerCertificate :: "('w, 'ip) custom_check option"

abbreviation (input) NoClientCert :: nat where "NoClientCert \<equiv> 0"
abbreviation (input) RequestClientCert :: nat where "RequestClientCert \<equiv> 1"
abbreviation (input) RequireAnyClientCert :: nat where "RequireAnyClientCert \<equiv> 2"
abbreviation (input) VerifyClientCertIfGiven :: nat where "VerifyClientCertIfGiven \<equiv> 3"
abbreviation (input) RequireAndVerifyClientCert :: nat where "RequireAndVerifyClientCert \<equiv> 4"

definition MinTLSVersion :: nat where
  "MinTLSVersion = 770"

text \<open>The cipher suites: those with AES-GCM go first when the processor supports them.\<close>

definition gcm_suites :: "nat list" where
  "gcm_suites = [49199, 49200, 49195, 49196]"

definition chacha_suites :: "nat list" where
  "chacha_suites = [52392, 52393]"

definition otherCipherSuites :: "nat list" where
  "otherCipherSuites = [49171, 49161, 49172, 49162, 156, 157, 47, 53]"

definition initDefaultCipherSuites :: "bool \<Rightarrow> nat list" where
  "initDefaultCipherSuites hasGCMAsm =
     (if hasGCMAsm then gcm_suites @ chacha_suites else chacha_suites @ gcm_suites) @ otherCipherSuites"

text \<open>
  \<open>verifyCertificate\<close>: every verifier must accept; the chains of the first are handed to the function of the user
  when the handshake found none.
\<close>

fun run_verifiers :: "(string list \<Rightarrow> bool \<Rightarrow> string + 'ip chains) list \<Rightarrow> string list \<Rightarrow> bool \<Rightarrow> 'ip chains option \<Rightarrow> string + 'ip chains option" where
  "run_verifiers [] rawCerts ignoreExpiresCheck verifiedChains = Inr verifiedChains"
| "run_verifiers (verifier # vs) rawCerts ignoreExpiresCheck verifiedChains =
     (case verifier rawCerts ignoreExpiresCheck of
        Inl e \<Rightarrow> Inl e
      | Inr chs \<Rightarrow>
          run_verifiers vs rawCerts ignoreExpiresCheck (case verifiedChains of None \<Rightarrow> Some chs | Some c \<Rightarrow> Some c))"

definition verifyCertificate ::
  "('w, 'ip) verifier list \<Rightarrow> ('w, 'ip) custom_check option \<Rightarrow> bool \<Rightarrow> ('w, 'ip) custom_check" where
  "verifyCertificate verifiers check ignoreExpiresCheck w rawCerts verifiedChains =
     (case run_verifiers (map (\<lambda>v. v w) verifiers) rawCerts ignoreExpiresCheck verifiedChains of
        Inl e \<Rightarrow> Some e
      | Inr chs \<Rightarrow> (case check of None \<Rightarrow> None | Some f \<Rightarrow> f w rawCerts chs))"

definition ca_pool ::
  "('w, 'ip) x509_env \<Rightarrow> 'w \<Rightarrow> ('w \<Rightarrow> string + string list) option \<Rightarrow> string + 'ip certificate list option" where
  "ca_pool E w cas =
     (case cas of
        None \<Rightarrow> Inr None
      | Some f \<Rightarrow>
          (case f w of
             Inl e \<Rightarrow> Inl e
           | Inr caCerts \<Rightarrow> (case cert_pool E caCerts of Inl e \<Rightarrow> Inl e | Inr pool \<Rightarrow> Inr (Some pool))))"

definition configClientTLS ::
  "('w, 'ip) x509_env \<Rightarrow> 'w \<Rightarrow> ('w, 'ip, 'c, 'p) client_options \<Rightarrow> string + ('w, 'ip, 'c) tls_config" where
  "configClientTLS E w opts =
     (let tlsConfig =
        \<lparr>tc_ServerName = co_serverName opts,
         tc_InsecureSkipVerify = (co_insecureSkipVerify opts \<or> co_certificateVerifier opts \<noteq> [] \<or> co_verifyCertificate opts \<noteq> None),
         tc_GetCertificate = co_certificate opts, tc_ClientAuth = NoClientCert, tc_MinVersion = MinTLSVersion,
         tc_CipherSuites = [], tc_NextProtos = [], tc_CAs = None,
         tc_VerifyPeerCertificate =
           Some (verifyCertificate (co_certificateVerifier opts) (co_verifyCertificate opts) (co_ignoreExpiresCheck opts))\<rparr>
      in case ca_pool E w (co_rootCAs opts) of
           Inl e \<Rightarrow> Inl e
         | Inr None \<Rightarrow> Inr tlsConfig
         | Inr (Some certPool) \<Rightarrow> Inr (tlsConfig\<lparr>tc_CAs := Some certPool\<rparr>))"

definition verify_client ::
  "nat \<Rightarrow> ('w, 'ip, 'c) server_options \<Rightarrow> ('w, 'ip) custom_check" where
  "verify_client clientAuth opts w rawCerts verifiedChains =
     (if clientAuth = RequestClientCert \<and> rawCerts = [] then None
      else verifyCertificate (so_certificateChainVerifier opts) (so_verifyCertificate opts) (so_ignoreExpiresCheck opts)
             w rawCerts verifiedChains)"

definition configServerTLS ::
  "('w, 'ip) x509_env \<Rightarrow> nat list \<Rightarrow> 'w \<Rightarrow> ('w, 'ip, 'c) server_options \<Rightarrow> string + ('w, 'ip, 'c) tls_config" where
  "configServerTLS E AllowedCipherSuites w opts =
     (case ca_pool E w (so_clientCAs opts) of
        Inl e \<Rightarrow> Inl e
      | Inr cas \<Rightarrow>
          (let tlsConfig =
             \<lparr>tc_ServerName = '''', tc_InsecureSkipVerify = False, tc_GetCertificate = so_certificate opts,
              tc_ClientAuth = so_clientAuthType opts, tc_MinVersion = MinTLSVersion, tc_CipherSuites = AllowedCipherSuites,
              tc_NextProtos = [], tc_CAs = cas, tc_VerifyPeerCertificate = None\<rparr>
           in if tc_ClientAuth tlsConfig < VerifyClientCertIfGiven then Inr tlsConfig
              else if so_certificateChainVerifier opts \<noteq> [] \<or> so_verifyCertificate opts \<noteq> None
              then (let auth = (if tc_ClientAuth tlsConfig = VerifyClientCertIfGiven then RequestClientCert
                                else if tc_ClientAuth tlsConfig = RequireAndVerifyClientCert then RequireAnyClientCert
                                else tc_ClientAuth tlsConfig)
                    in Inr (tlsConfig\<lparr>tc_ClientAuth := auth, tc_VerifyPeerCertificate := Some (verify_client auth opts)\<rparr>))
              else Inr (tlsConfig\<lparr>tc_VerifyPeerCertificate := Some (\<lambda>w rawCerts verifiedChains. None)\<rparr>)))"

datatype ('w, 'ip, 'c, 'p) dial_credentials =
    InsecureDial
  | BundledInsecure 'p
  | CredentialsBundle "('w, 'ip, 'c) tls_config" 'p
  | TransportCredentials "('w, 'ip, 'c) tls_config"

definition DialOptionWithOpts ::
  "('w, 'ip) x509_env \<Rightarrow> 'w \<Rightarrow> ('w, 'ip, 'c, 'p) client_options \<Rightarrow> string + ('w, 'ip, 'c, 'p) dial_credentials" where
  "DialOptionWithOpts E w opts =
     (if co_insecure opts
      then (case co_perRPCCredentials opts of None \<Rightarrow> Inr InsecureDial | Some p \<Rightarrow> Inr (BundledInsecure p))
      else (case configClientTLS E w opts of
        Inl e \<Rightarrow> Inl e
      | Inr tlsConfig \<Rightarrow>
          (case co_perRPCCredentials opts of
             Some p \<Rightarrow> Inr (CredentialsBundle tlsConfig p)
           | None \<Rightarrow> Inr (TransportCredentials tlsConfig))))"

definition DialOption ::
  "('w, 'ip) x509_env \<Rightarrow> 'w \<Rightarrow> ('w, 'ip, 'c, 'p) client_option list \<Rightarrow> string + ('w, 'ip, 'c, 'p) dial_credentials" where
  "DialOption E w opt = (case ParseClientOptions opt of Inl e \<Rightarrow> Inl e | Inr opts \<Rightarrow> DialOptionWithOpts E w opts)"

text \<open>\<open>None\<close> is the nil option of an insecure server; \<open>tlsConfig.Certificates\<close> is never set.\<close>

definition ServerOptionWithOpts ::
  "('w, 'ip) x509_env \<Rightarrow> nat list \<Rightarrow> 'w \<Rightarrow> ('w, 'ip, 'c) server_options \<Rightarrow> string + ('w, 'ip, 'c) tls_config option" where
  "ServerOptionWithOpts E suites w opts =
     (if so_insecure opts then Inr None
      else (case configServerTLS E suites w opts of
        Inl e \<Rightarrow> Inl e
      | Inr tlsConfig \<Rightarrow>
          if tc_GetCertificate tlsConfig = None then Inl ''no certificate specified for server'' else Inr (Some tlsConfig)))"

definition ServerOption ::
  "('w, 'ip) x509_env \<Rightarrow> nat list \<Rightarrow> 'w \<Rightarrow> ('w, 'ip, 'c) server_option list \<Rightarrow> string + ('w, 'ip, 'c) tls_config option" where
  "ServerOption E suites w opt =
     (case ParseServerOptions opt of Inl e \<Rightarrow> Inl e | Inr opts \<Rightarrow> ServerOptionWithOpts E suites w opts)"

definition ServerTlsConfig ::
  "('w, 'ip) x509_env \<Rightarrow> nat list \<Rightarrow> 'w \<Rightarrow> ('w, 'ip, 'c) server_option list \<Rightarrow> string + ('w, 'ip, 'c) tls_config" where
  "ServerTlsConfig E suites w opt =
     (case ParseServerOptions opt of Inl e \<Rightarrow> Inl e | Inr opts \<Rightarrow> configServerTLS E suites w opts)"

definition ClientTlsConfig ::
  "('w, 'ip) x509_env \<Rightarrow> 'w \<Rightarrow> ('w, 'ip, 'c, 'p) client_option list \<Rightarrow> string + ('w, 'ip, 'c) tls_config" where
  "ClientTlsConfig E w opt = (case ParseClientOptions opt of Inl e \<Rightarrow> Inl e | Inr opts \<Rightarrow> configClientTLS E w opts)"

definition HttpServerTlsConfig ::
  "('w, 'ip) x509_env \<Rightarrow> nat list \<Rightarrow> 'w \<Rightarrow> ('w, 'ip, 'c) server_option list \<Rightarrow> string + ('w, 'ip, 'c) tls_config option" where
  "HttpServerTlsConfig E suites w opt =
     (case ParseServerOptions opt of
        Inl e \<Rightarrow> Inl e
      | Inr opts \<Rightarrow>
          if so_insecure opts then Inr None
          else (case configServerTLS E suites w opts of
            Inl e \<Rightarrow> Inl e
          | Inr tlsConfig \<Rightarrow> Inr (Some (tlsConfig\<lparr>tc_NextProtos := [''h2'']\<rparr>))))"

section \<open>Handshakes\<close>

text \<open>
  What \<open>crypto/tls\<close> does with the certificates of the peer: all must parse; a client verifies the chain and the name of the
  server unless \<open>InsecureSkipVerify\<close> is set; a server verifies the chain of a client that sent one from
  \<open>VerifyClientCertIfGiven\<close> on. Then \<open>VerifyPeerCertificate\<close> is called, with the chains or nil.
\<close>

definition peer_check :: "('w, 'ip, 'c) tls_config \<Rightarrow> 'w \<Rightarrow> string list \<Rightarrow> 'ip chains option \<Rightarrow> bool" where
  "peer_check cfg w rawCerts verifiedChains \<longleftrightarrow>
     (case tc_VerifyPeerCertificate cfg of None \<Rightarrow> True | Some f \<Rightarrow> f w rawCerts verifiedChains = None)"

definition std_opts :: "('w, 'ip) x509_env \<Rightarrow> 'w \<Rightarrow> ('w, 'ip, 'c) tls_config \<Rightarrow> nat list \<Rightarrow> 'ip certificate list \<Rightarrow> 'ip verify_opts" where
  "std_opts E w cfg usages certs =
     \<lparr>vo_CurrentTime = xe_Now E w, vo_DNSName = tc_ServerName cfg, vo_Intermediates = tl certs, vo_Roots = tc_CAs cfg,
      vo_KeyUsages = usages\<rparr>"

definition client_handshake :: "('w, 'ip) x509_env \<Rightarrow> ('w, 'ip, 'c) tls_config \<Rightarrow> 'w \<Rightarrow> string list \<Rightarrow> bool" where
  "client_handshake E cfg w rawCerts \<longleftrightarrow>
     rawCerts \<noteq> [] \<and>
     (case parse_certs E rawCerts of
        Inl _ \<Rightarrow> False
      | Inr certs \<Rightarrow>
          if tc_InsecureSkipVerify cfg then peer_check cfg w rawCerts None
          else (case xe_Verify E (std_opts E w cfg [] certs) (hd certs) of
                  Inl _ \<Rightarrow> False
                | Inr chs \<Rightarrow> peer_check cfg w rawCerts (Some chs)))"

definition server_handshake :: "('w, 'ip) x509_env \<Rightarrow> ('w, 'ip, 'c) tls_config \<Rightarrow> 'w \<Rightarrow> string list \<Rightarrow> bool" where
  "server_handshake E cfg w rawCerts \<longleftrightarrow>
     (if tc_ClientAuth cfg = NoClientCert then rawCerts = []
      else (case parse_certs E rawCerts of
        Inl _ \<Rightarrow> False
      | Inr certs \<Rightarrow>
          if rawCerts = [] \<and> tc_ClientAuth cfg \<in> {RequireAnyClientCert, RequireAndVerifyClientCert} then False
          else if VerifyClientCertIfGiven \<le> tc_ClientAuth cfg \<and> rawCerts \<noteq> []
          then (case xe_Verify E (std_opts E w cfg [ExtKeyUsageClientAuth] certs) (hd certs) of
                  Inl _ \<Rightarrow> False
                | Inr chs \<Rightarrow> peer_check cfg w rawCerts (Some chs))
          else peer_check cfg w rawCerts None))"

text \<open>
  The configuration leaves session tickets on: a client that was let in may come back with its session. Then the
  certificates of the session are taken over and not verified again, whatever the time is.
\<close>

inductive server_admits :: "('w, 'ip) x509_env \<Rightarrow> ('w, 'ip, 'c) tls_config \<Rightarrow> 'w \<Rightarrow> string list \<Rightarrow> bool" for E cfg where
  full: "server_handshake E cfg w rawCerts \<Longrightarrow> server_admits E cfg w rawCerts"
| resumed: "server_admits E cfg w0 rawCerts \<Longrightarrow> server_admits E cfg w rawCerts"

lemma server_admits_once: "server_admits E cfg w rawCerts \<Longrightarrow> \<exists>w0. server_handshake E cfg w0 rawCerts"
  by (induction rule: server_admits.induct) auto

section \<open>TLS information in the metadata of a call\<close>

record 'ip tls_state =
  ts_ServerName :: string
  ts_CipherSuite :: nat
  ts_Version :: nat
  ts_HandshakeComplete :: bool
  ts_PeerCertificates :: "'ip certificate option list"
  ts_VerifiedChains :: "'ip certificate option list list"

text \<open>The encodings of the standard library: \<open>gob\<close>, \<open>gzip\<close>, SHA-256 and RSA signatures.\<close>

record ('ip, 'priv, 'pub) info_codec =
  ic_gobEncode :: "'ip tls_state \<Rightarrow> string option"
  ic_gobDecode :: "string \<Rightarrow> 'ip tls_state option"
  ic_gzip :: "string \<Rightarrow> string option"
  ic_gunzip :: "string \<Rightarrow> string option"
  ic_sha256 :: "string \<Rightarrow> string"
  ic_sign :: "'priv \<Rightarrow> string \<Rightarrow> string option"
  ic_verify :: "'pub \<Rightarrow> string \<Rightarrow> string \<Rightarrow> bool"

definition TlsInfoSign :: string where
  "TlsInfoSign = ''x-frame-tls-info''"

definition zero_certificate :: "'ip certificate" where
  "zero_certificate =
     \<lparr>ce_Version = 0, ce_Issuer = '''', ce_CommonName = '''', ce_Subject = '''', ce_NotBefore = 0, ce_NotAfter = 0, ce_KeyUsage = 0,
      ce_DNSNames = [], ce_EmailAddresses = [], ce_IPAddresses = [], ce_URIs = [], ce_Extensions = [], ce_ExtraExtensions = [],
      ce_SerialNumber = 0, ce_Raw = ''''\<rparr>"

definition copyCertificateInfo :: "'ip certificate \<Rightarrow> 'ip certificate \<Rightarrow> 'ip certificate" where
  "copyCertificateInfo src dest =
     dest\<lparr>ce_Version := ce_Version src, ce_Issuer := ce_Issuer src, ce_CommonName := ce_CommonName src, ce_Subject := ce_Subject src,
          ce_NotBefore := ce_NotBefore src, ce_NotAfter := ce_NotAfter src, ce_KeyUsage := ce_KeyUsage src,
          ce_DNSNames := ce_DNSNames src, ce_EmailAddresses := ce_EmailAddresses src, ce_IPAddresses := ce_IPAddresses src,
          ce_URIs := ce_URIs src, ce_Extensions := ce_Extensions src, ce_ExtraExtensions := ce_ExtraExtensions src\<rparr>"

text \<open>Copying a nil certificate panics, which is \<open>None\<close>.\<close>

fun copy_certs :: "'ip certificate option list \<Rightarrow> 'ip certificate option list option" where
  "copy_certs [] = Some []"
| "copy_certs (None # cs) = None"
| "copy_certs (Some c # cs) =
     (case copy_certs cs of None \<Rightarrow> None | Some ds \<Rightarrow> Some (Some (copyCertificateInfo c zero_certificate) # ds))"

fun copy_chains :: "'ip certificate option list list \<Rightarrow> 'ip certificate option list list option" where
  "copy_chains [] = Some []"
| "copy_chains (cs # css) =
     (case copy_certs cs of
        None \<Rightarrow> None
      | Some ds \<Rightarrow> (case copy_chains css of None \<Rightarrow> None | Some dss \<Rightarrow> Some (ds # dss)))"

definition tls_info_forward :: "'ip tls_state \<Rightarrow> 'ip tls_state option" where
  "tls_info_forward t =
     (case copy_certs (ts_PeerCertificates t) of
        None \<Rightarrow> None
      | Some peers \<Rightarrow>
          (case copy_chains (ts_VerifiedChains t) of
             None \<Rightarrow> None
           | Some verified \<Rightarrow>
               Some \<lparr>ts_ServerName = ts_ServerName t, ts_CipherSuite = ts_CipherSuite t, ts_Version = ts_Version t,
                     ts_HandshakeComplete = ts_HandshakeComplete t, ts_PeerCertificates = peers, ts_VerifiedChains = verified\<rparr>))"

definition tlsInfoKey :: "'ip tls_state \<Rightarrow> string" where
  "tlsInfoKey t =
     concat (map (\<lambda>c. case c of None \<Rightarrow> '''' | Some cert \<Rightarrow> format_int (ce_SerialNumber cert)) (ts_PeerCertificates t))"

definition SetTlsInfoHeader :: "'md md_ops \<Rightarrow> string \<Rightarrow> 'md option \<Rightarrow> 'md" where
  "SetTlsInfoHeader M tlsInfoHeader outgoing =
     md_Set M TlsInfoSign [tlsInfoHeader] (case outgoing of None \<Rightarrow> md_New M | Some md \<Rightarrow> md)"

text \<open>The text of the header: the zipped information and its signature.\<close>

definition tls_info_header :: "('ip, 'priv, 'pub) info_codec \<Rightarrow> 'priv \<Rightarrow> 'ip tls_state \<Rightarrow> string + string" where
  "tls_info_header C key tlsInfoForward =
     (case ic_gobEncode C tlsInfoForward of
        None \<Rightarrow> Inl ''TlsInfoToMeta, gob encode tls info failed''
      | Some gob \<Rightarrow>
          (case ic_gzip C gob of
             None \<Rightarrow> Inl ''TlsInfoToMeta, gzip encode tls info failed''
           | Some compressed \<Rightarrow>
               (case ic_sign C key (ic_sha256 C compressed) of
                  None \<Rightarrow> Inl ''TlsInfoToMeta, create rsa-sha256 signature failed''
                | Some signature \<Rightarrow> Inr (b64_encode (compressed @ signature)))))"

datatype 'md to_meta = ToMetaPanic | ToMeta "string option" "'md option" "(string \<times> string) list"

definition PeerTlsInfoToMeta ::
  "'md md_ops \<Rightarrow> ('ip, 'priv, 'pub) info_codec \<Rightarrow> 'ip tls_state option \<Rightarrow> 'priv option \<Rightarrow> 'md option \<Rightarrow> (string \<times> string) list \<Rightarrow> 'md to_meta" where
  "PeerTlsInfoToMeta M C tlsInfo key outgoing toMetaMap =
     (case tlsInfo of
        None \<Rightarrow> ToMeta None outgoing toMetaMap
      | Some t \<Rightarrow>
          (case key of
             None \<Rightarrow> ToMeta (Some ''TlsInfoToMeta, rsaPrivateKey is nil'') outgoing toMetaMap
           | Some k \<Rightarrow>
               if tlsInfoKey t = '''' then ToMeta None outgoing toMetaMap
               else (case mget toMetaMap (tlsInfoKey t) of
                 Some h \<Rightarrow> ToMeta None (Some (SetTlsInfoHeader M h outgoing)) toMetaMap
               | None \<Rightarrow>
                   (case tls_info_forward t of
                      None \<Rightarrow> ToMetaPanic
                    | Some fwd \<Rightarrow>
                        (case tls_info_header C k fwd of
                           Inl e \<Rightarrow> ToMeta (Some e) outgoing toMetaMap
                         | Inr h \<Rightarrow>
                             ToMeta None (Some (SetTlsInfoHeader M h outgoing)) (AList.update (tlsInfoKey t) h toMetaMap))))))"

definition open_tls_info :: "('ip, 'priv, 'pub) info_codec \<Rightarrow> 'pub \<Rightarrow> string \<Rightarrow> string + 'ip tls_state" where
  "open_tls_info C publicKey header =
     (case b64_decode header of
        None \<Rightarrow> Inl ''TlsInfoFromMeta, base64 decode tls info failed''
      | Some bytes \<Rightarrow>
          if length bytes < 256 then Inl ''TlsInfoFromMeta, invalid tls info header, length too small''
          else (let compressed = take (length bytes - 256) bytes; signature = drop (length bytes - 256) bytes
                in if \<not> ic_verify C publicKey (ic_sha256 C compressed) signature
                   then Inl ''TlsInfoFromMeta, verify tls info rsa-sha256 signature failed''
                   else (case ic_gunzip C compressed of
                     None \<Rightarrow> Inl ''TlsInfoFromMeta, gzip decode failed''
                   | Some gob \<Rightarrow> (case ic_gobDecode C gob of None \<Rightarrow> Inl ''gob decode failed'' | Some t \<Rightarrow> Inr t))))"

definition peerTlsInfoFromMeta ::
  "'md md_ops \<Rightarrow> ('ip, 'priv, 'pub) info_codec \<Rightarrow> 'pub option \<Rightarrow> 'pub option \<Rightarrow> 'md option \<Rightarrow> (string \<times> 'ip tls_state) list \<Rightarrow>
   (string + 'ip tls_state) \<times> (string \<times> 'ip tls_state) list" where
  "peerTlsInfoFromMeta M C defaultPubkey publicKey incoming fromMetaMap =
     (case (case publicKey of None \<Rightarrow> defaultPubkey | Some k \<Rightarrow> Some k) of
        None \<Rightarrow> (Inl ''TlsInfoFromMeta, no pubkey set for tls info verifiy'', fromMetaMap)
      | Some k \<Rightarrow>
          (case incoming of
             None \<Rightarrow> (Inl ''TlsInfoFromMeta, no incoming md found'', fromMetaMap)
           | Some md \<Rightarrow>
               (case md_Get M md TlsInfoSign of
                  [] \<Rightarrow> (Inl (''TlsInfoFromMeta, no '' @ TlsInfoSign @ '' found in incoming md''), fromMetaMap)
                | h # _ \<Rightarrow>
                    (case mget fromMetaMap h of
                       Some t \<Rightarrow> (Inr t, fromMetaMap)
                     | None \<Rightarrow>
                         (case open_tls_info C k h of
                            Inl e \<Rightarrow> (Inl e, fromMetaMap)
                          | Inr t \<Rightarrow> (Inr t, AList.update h t fromMetaMap))))))"

text \<open>The TLS information of the connection itself; the type of the authentication and whether it is that of TLS.\<close>

definition peerTlsInfoFromPeer :: "(string \<times> 'ip tls_state option) option option \<Rightarrow> string + 'ip tls_state" where
  "peerTlsInfoFromPeer peerInfo =
     (case peerInfo of
        None \<Rightarrow> Inl ''TlsInfoFromPeer, retrive peerInfo from context failed''
      | Some None \<Rightarrow> Inl ''TlsInfoFromPeer, no authInfo found''
      | Some (Some (authType, tlsInfo)) \<Rightarrow>
          if authType \<noteq> ''tls'' then Inl ''TlsInfoFromPeer, authType of peerInfo is not tls''
          else (case tlsInfo of None \<Rightarrow> Inl ''TlsInfoFromPeer, type switch of peerInfo failed'' | Some t \<Rightarrow> Inr t))"

definition PeerTlsInfo ::
  "'md md_ops \<Rightarrow> ('ip, 'priv, 'pub) info_codec \<Rightarrow> 'pub option \<Rightarrow> 'md option \<Rightarrow> (string \<times> 'ip tls_state option) option option \<Rightarrow>
   (string \<times> 'ip tls_state) list \<Rightarrow> (string + 'ip tls_state) \<times> (string \<times> 'ip tls_state) list" where
  "PeerTlsInfo M C defaultPubkey incoming peerInfo fromMetaMap =
     (case peerTlsInfoFromMeta M C defaultPubkey None incoming fromMetaMap of
        (Inr t, cache) \<Rightarrow> (Inr t, cache)
      | (Inl _, cache) \<Rightarrow> (peerTlsInfoFromPeer peerInfo, cache))"

text \<open>A negative position and a nil certificate panic.\<close>

datatype name_result = NamePanic | NameError string | Name string

definition PeerTlsCommonName :: "(string + 'ip tls_state) \<Rightarrow> int \<Rightarrow> name_result" where
  "PeerTlsCommonName tlsInfo position =
     (case tlsInfo of
        Inl e \<Rightarrow> NameError e
      | Inr t \<Rightarrow>
          if \<not> ts_HandshakeComplete t then NameError ''PeerTlsCommonName, tls handshake incomplete''
          else if int (length (ts_PeerCertificates t)) \<le> position
          then NameError ''TlsAuthSubject, tlsInfo.State.PeerCertificates is empty''
          else if position < 0 then NamePanic
          else (case ts_PeerCertificates t ! nat position of None \<Rightarrow> NamePanic | Some c \<Rightarrow> Name (ce_CommonName c)))"

definition TlsAuthSubject :: "(string + 'ip tls_state) \<Rightarrow> name_result" where
  "TlsAuthSubject tlsInfo = PeerTlsCommonName tlsInfo 0"

definition TlsAuthServerName :: "(string + 'ip tls_state) \<Rightarrow> string + string" where
  "TlsAuthServerName tlsInfo = (case tlsInfo of Inl e \<Rightarrow> Inl e | Inr t \<Rightarrow> Inr (ts_ServerName t))"

section \<open>Host names: lemmas\<close>

lemma apply_cred_append:
  "apply_cred_options (fs @ gs) o1 = (case apply_cred_options fs o1 of Inl e \<Rightarrow> Inl e | Inr o2 \<Rightarrow> apply_cred_options gs o2)"
  by (induction fs arbitrary: o1) (auto split: sum.splits)

lemma toLowerCaseASCII_eq: "toLowerCaseASCII s = to_lower s"
proof -
  have "list_all (\<lambda>c. (of_char c :: nat) < 128 \<and> \<not> is_upper c) s \<Longrightarrow> map lower_char s = s"
    by (rule map_idI) (auto simp: list_all_iff is_upper_def lower_char_def)
  then show ?thesis
    by (auto simp: toLowerCaseASCII_def to_lower_def lower_char_def is_upper_def Let_def)
qed

text \<open>A pattern covers a host when it is the host, or when its first label is a star for the first label of the host.\<close>

definition covers :: "string \<Rightarrow> string \<Rightarrow> bool" where
  "covers p h \<longleftrightarrow>
     p = h \<or> p = ''*'' \<and> CHR ''.'' \<notin> set h \<or>
     (\<exists>rest l. p = ''*.'' @ rest \<and> h = l @ ''.'' @ rest \<and> CHR ''.'' \<notin> set l)"

lemma split_dot:
  "split_char (CHR ''.'') (l @ CHR ''.'' # rest) = l # split_char (CHR ''.'') rest" if "CHR ''.'' \<notin> set l"
  using that by (rule split_char_append_sep)

lemma split_cases:
  obtains "CHR ''.'' \<notin> set s" "split_char (CHR ''.'') s = [s]"
    | l rest where "s = l @ CHR ''.'' # rest" "CHR ''.'' \<notin> set l" "split_char (CHR ''.'') s = l # split_char (CHR ''.'') rest"
proof (cases "CHR ''.'' \<in> set s")
  case True
  then obtain l rest where "s = l @ CHR ''.'' # rest" "CHR ''.'' \<notin> set l" using split_list_first by metis
  then show ?thesis using that(2) split_dot by blast
next
  case False
  then show ?thesis using that(1) split_char_word by blast
qed

lemma list_all_from_one:
  "length ps = length hs \<Longrightarrow> list_all (\<lambda>(i, p). match_part i p ((h # hs) ! i)) (enumerate (Suc 0) ps) \<longleftrightarrow> ps = hs"
proof -
  assume l: "length ps = length hs"
  have "list_all (\<lambda>(i, p). match_part i p ((h # hs) ! i)) (enumerate (Suc 0) ps)
      \<longleftrightarrow> (\<forall>i < length ps. ps ! i = hs ! i)"
    by (auto simp: list_all_length nth_enumerate_eq match_part_def)
  also have "\<dots> \<longleftrightarrow> ps = hs" using l by (metis nth_equalityI)
  finally show ?thesis .
qed

lemma match_parts_iff:
  "length ps = length hs \<and> list_all (\<lambda>(i, p). match_part i p (hs ! i)) (enumerate 0 ps) \<longleftrightarrow>
     ps = hs \<or> ps \<noteq> [] \<and> hs \<noteq> [] \<and> hd ps = ''*'' \<and> tl ps = tl hs"
proof (cases ps; cases hs)
  fix p ps' h hs' assume c: "ps = p # ps'" "hs = h # hs'"
  have "length ps' = length hs' \<and> list_all (\<lambda>(i, p). match_part i p (hs ! i)) (enumerate (Suc 0) ps') \<longleftrightarrow> ps' = hs'"
    using list_all_from_one [of ps' hs' h] c by auto
  then show ?thesis using c by (auto simp: match_part_def)
qed auto

lemma split_tl_covers:
  "split_char (CHR ''.'') p = split_char (CHR ''.'') h \<or>
   hd (split_char (CHR ''.'') p) = ''*'' \<and> tl (split_char (CHR ''.'') p) = tl (split_char (CHR ''.'') h) \<longleftrightarrow> covers p h"
proof (cases rule: split_cases [of p])
  case p: 1
  show ?thesis
    by (cases rule: split_cases [of h]) (use p in \<open>auto simp: covers_def split_char_inject Cons_eq_append_conv split_char_nonempty [THEN not_sym]\<close>)
next
  case p: (2 pl prest)
  show ?thesis
  proof (cases rule: split_cases [of h])
    case h: 1
    then show ?thesis using p by (auto simp: covers_def split_char_inject)
  next
    case h: (2 hl hrest)
    have "covers p h \<longleftrightarrow> p = h \<or> pl = ''*'' \<and> prest = hrest"
    proof -
      have "p = ''*.'' @ r \<longleftrightarrow> pl = ''*'' \<and> prest = r" for r
        using p(1,2) by (cases pl) (auto simp: append_eq_Cons_conv Cons_eq_append_conv)
      moreover have "h = l @ ''.'' @ r \<longleftrightarrow> hl = l \<and> hrest = r" if "CHR ''.'' \<notin> set l" for l r
        using h that split_char_inject [of "CHR ''.''" h "l @ CHR ''.'' # r"] by (auto simp: split_dot split_char_inject)
      ultimately show ?thesis using p h by (auto simp: covers_def)
    qed
    then show ?thesis using p h split_char_inject [of "CHR ''.''" p h] by (auto simp: split_char_inject)
  qed
qed

lemma matchHostnames_iff:
  "matchHostnames pattern host \<longleftrightarrow>
     pattern \<noteq> [] \<and> trim_suffix host ''.'' \<noteq> [] \<and> covers (to_lower pattern) (to_lower (trim_suffix host ''.''))"
  unfolding matchHostnames_def Let_def toLowerCaseASCII_eq
  using match_parts_iff split_tl_covers by simp

section \<open>Handshakes: lemmas\<close>

text \<open>The chains that reach the function of the user, and when a list of verifiers accepts.\<close>

definition chains_found :: "(string list \<Rightarrow> bool \<Rightarrow> string + 'ip chains) list \<Rightarrow> string list \<Rightarrow> bool \<Rightarrow> 'ip chains option \<Rightarrow> 'ip chains option" where
  "chains_found vs rawCerts ign chs =
     (case chs of Some c \<Rightarrow> Some c | None \<Rightarrow> (case vs of [] \<Rightarrow> None | v # _ \<Rightarrow> Some (projr (v rawCerts ign))))"

definition all_accept :: "('w, 'ip) verifier list \<Rightarrow> 'w \<Rightarrow> string list \<Rightarrow> bool \<Rightarrow> bool" where
  "all_accept vs w rawCerts ign \<longleftrightarrow> (\<forall>v \<in> set vs. \<not> isl (v w rawCerts ign))"

lemma run_verifiers_iff:
  "run_verifiers vs rawCerts ign chs = Inr r \<longleftrightarrow> (\<forall>v \<in> set vs. \<not> isl (v rawCerts ign)) \<and> r = chains_found vs rawCerts ign chs"
proof (induction vs arbitrary: chs)
  case Nil
  then show ?case by (auto simp: chains_found_def split: option.splits)
next
  case (Cons v vs)
  then show ?case
    by (cases "v rawCerts ign") (auto simp: chains_found_def split: option.splits list.splits)
qed

lemma verifyCertificate_iff:
  "verifyCertificate vs check ign w rawCerts chs = None \<longleftrightarrow>
     all_accept vs w rawCerts ign \<and>
     (case check of None \<Rightarrow> True | Some f \<Rightarrow> f w rawCerts (chains_found (map (\<lambda>v. v w) vs) rawCerts ign chs) = None)"
proof (cases "run_verifiers (map (\<lambda>v. v w) vs) rawCerts ign chs")
  case (Inl e)
  then have "\<not> all_accept vs w rawCerts ign"
    using run_verifiers_iff [of "map (\<lambda>v. v w) vs" rawCerts ign chs] by (auto simp: all_accept_def)
  then show ?thesis using Inl by (simp add: verifyCertificate_def)
next
  case (Inr r)
  then have "all_accept vs w rawCerts ign" "r = chains_found (map (\<lambda>v. v w) vs) rawCerts ign chs"
    using run_verifiers_iff [of "map (\<lambda>v. v w) vs" rawCerts ign chs r] by (auto simp: all_accept_def)
  then show ?thesis using Inr by (auto simp: verifyCertificate_def split: option.splits)
qed

lemma configClientTLS_fields:
  assumes "configClientTLS E w opts = Inr cfg"
  shows "tc_InsecureSkipVerify cfg = (co_insecureSkipVerify opts \<or> co_certificateVerifier opts \<noteq> [] \<or> co_verifyCertificate opts \<noteq> None)"
    and "tc_VerifyPeerCertificate cfg =
           Some (verifyCertificate (co_certificateVerifier opts) (co_verifyCertificate opts) (co_ignoreExpiresCheck opts))"
    and "tc_ServerName cfg = co_serverName opts"
  using assms by (auto simp: configClientTLS_def Let_def split: sum.splits option.splits)

lemma configServerTLS_fields:
  assumes "configServerTLS E suites w opts = Inr cfg" and "VerifyClientCertIfGiven \<le> so_clientAuthType opts"
    and "so_certificateChainVerifier opts \<noteq> [] \<or> so_verifyCertificate opts \<noteq> None"
  shows "tc_ClientAuth cfg = (if so_clientAuthType opts = VerifyClientCertIfGiven then RequestClientCert
           else if so_clientAuthType opts = RequireAndVerifyClientCert then RequireAnyClientCert else so_clientAuthType opts)"
    and "tc_VerifyPeerCertificate cfg = Some (verify_client (tc_ClientAuth cfg) opts)"
proof -
  from assms have "tc_ClientAuth cfg = (if so_clientAuthType opts = VerifyClientCertIfGiven then RequestClientCert
           else if so_clientAuthType opts = RequireAndVerifyClientCert then RequireAnyClientCert else so_clientAuthType opts) \<and>
     tc_VerifyPeerCertificate cfg = Some (verify_client (tc_ClientAuth cfg) opts)"
    by (auto simp: configServerTLS_def Let_def split: sum.splits if_splits)
  then show "tc_ClientAuth cfg = (if so_clientAuthType opts = VerifyClientCertIfGiven then RequestClientCert
           else if so_clientAuthType opts = RequireAndVerifyClientCert then RequireAnyClientCert else so_clientAuthType opts)"
    and "tc_VerifyPeerCertificate cfg = Some (verify_client (tc_ClientAuth cfg) opts)" by auto
qed

text \<open>What a chain verifier has established when it accepts.\<close>

lemma check_authorities_None:
  "check_authorities check i certs = None \<longleftrightarrow> (\<forall>j < length certs. check (i + j) (certs ! j) = None)"
proof (induction certs arbitrary: i)
  case (Cons c cs)
  have "(\<forall>j < length (c # cs). check (i + j) ((c # cs) ! j) = None) \<longleftrightarrow>
      check i c = None \<and> (\<forall>j < length cs. check (Suc i + j) (cs ! j) = None)"
    by (auto simp: less_Suc_eq_0_disj)
  then show ?case using Cons [of "Suc i"] by (auto split: option.splits)
qed simp

lemma parse_certs_length: "parse_certs E rawCerts = Inr certs \<Longrightarrow> length certs = length rawCerts"
  by (induction rawCerts arbitrary: certs) (auto split: sum.splits)

definition leaf_verified ::
  "('w, 'ip) x509_env \<Rightarrow> ('w \<Rightarrow> string + string list) \<Rightarrow> ('w \<Rightarrow> string list) \<Rightarrow> nat list \<Rightarrow> bool \<Rightarrow> 'w \<Rightarrow> string list \<Rightarrow> bool" where
  "leaf_verified E cas auths usages ign w rawCerts \<longleftrightarrow>
     (\<exists>leaf rest cs pool chs.
        parse_certs E rawCerts = Inr (leaf # rest) \<and> cas w = Inr cs \<and> cert_pool E cs = Inr pool \<and>
        xe_Verify E (chain_opts (xe_Now E w) (xe_Later E w) ign usages pool (leaf # rest)) leaf = Inr chs \<and>
        (\<exists>a \<in> set (auths w). a = ''*'' \<or> VerifyHostname E leaf a = None))"

lemma leaf_checker_all:
  "(\<forall>j < length certs. LeafAuthorityChecker E (Some auths) w (length certs) j (certs ! j) = None) \<longleftrightarrow>
   certs = [] \<or> (\<exists>a \<in> set (auths w). a = ''*'' \<or> VerifyHostname E (hd certs) a = None)"
  by (cases certs) (auto simp: LeafAuthorityChecker_def IntermediateAuthorityChecker_def list_ex_iff nth_Cons' split: if_splits)

lemma chain_verifier_iff:
  "\<not> isl (certificateChainVerifier E (Some cas) (LeafAuthorityChecker E (Some auths)) usages w rawCerts ign) \<longleftrightarrow>
     leaf_verified E cas auths usages ign w rawCerts"
proof (cases "parse_certs E rawCerts")
  case (Inl e)
  then show ?thesis by (simp add: certificateChainVerifier_def leaf_verified_def)
next
  case (Inr certs)
  show ?thesis
  proof (cases certs)
    case Nil
    then have "rawCerts = []" using parse_certs_length [OF Inr] by simp
    then show ?thesis by (simp add: certificateChainVerifier_def leaf_verified_def)
  next
    case (Cons leaf rest)
    then have "rawCerts \<noteq> []" using parse_certs_length [OF Inr] by auto
    moreover have "check_authorities (LeafAuthorityChecker E (Some auths) w (length certs)) 0 certs = None \<longleftrightarrow>
        (\<exists>a \<in> set (auths w). a = ''*'' \<or> VerifyHostname E leaf a = None)"
      unfolding check_authorities_None using leaf_checker_all [of certs E auths w] Cons by simp
    ultimately show ?thesis using Inr Cons
      by (auto simp: certificateChainVerifier_def leaf_verified_def split: sum.splits option.splits)
  qed
qed

section \<open>Who is let in\<close>

lemma leaf_verified_parses: "leaf_verified E cas auths usages ign w rawCerts \<Longrightarrow> rawCerts \<noteq> [] \<and> \<not> isl (parse_certs E rawCerts)"
  by (auto simp: leaf_verified_def)

lemma server_accepts_iff:
  assumes "configServerTLS E suites w0 opts = Inr cfg" and "so_clientAuthType opts \<in> {VerifyClientCertIfGiven, RequireAndVerifyClientCert}"
    and "so_certificateChainVerifier opts \<noteq> [] \<or> so_verifyCertificate opts \<noteq> None"
  shows "server_handshake E cfg w rawCerts \<longleftrightarrow>
     (if rawCerts = [] then so_clientAuthType opts = VerifyClientCertIfGiven
      else \<not> isl (parse_certs E rawCerts) \<and>
           verifyCertificate (so_certificateChainVerifier opts) (so_verifyCertificate opts) (so_ignoreExpiresCheck opts) w rawCerts None = None)"
proof -
  note f = configServerTLS_fields [OF assms(1) _ assms(3)]
  show ?thesis using assms(2) f
    by (auto simp: server_handshake_def peer_check_def verify_client_def split: sum.splits)
qed

text \<open>
  A server that asks for client certificates to be verified and has the check of \<open>WithVerifyClientAuthority\<close> lets in exactly the
  clients whose chain leads to one of its authorities and whose own certificate is good for one of the accepted names,
  and, when a certificate is only verified if it is given, the clients without one.
\<close>

lemma server_accepts_verified:
  assumes "configServerTLS E suites w0 opts = Inr cfg"
    and "so_clientAuthType opts = VerifyClientCertIfGiven \<or> so_clientAuthType opts = RequireAndVerifyClientCert"
    and "so_certificateChainVerifier opts =
           [certificateChainVerifier E (Some cas) (LeafAuthorityChecker E (Some auths)) [ExtKeyUsageClientAuth]]"
    and "so_verifyCertificate opts = None"
  shows "server_handshake E cfg w rawCerts \<longleftrightarrow>
     rawCerts = [] \<and> so_clientAuthType opts = VerifyClientCertIfGiven \<or>
     leaf_verified E cas auths [ExtKeyUsageClientAuth] (so_ignoreExpiresCheck opts) w rawCerts"
proof -
  have "all_accept (so_certificateChainVerifier opts) w rawCerts (so_ignoreExpiresCheck opts) \<longleftrightarrow>
      leaf_verified E cas auths [ExtKeyUsageClientAuth] (so_ignoreExpiresCheck opts) w rawCerts"
    by (simp add: all_accept_def assms(3) chain_verifier_iff)
  then show ?thesis
    using server_accepts_iff [of E suites w0 opts cfg w rawCerts] assms leaf_verified_parses [of E cas auths _ _ w rawCerts]
    by (auto simp: verifyCertificate_iff)
qed

lemma client_accepts_iff:
  assumes "configClientTLS E w0 opts = Inr cfg" and "co_certificateVerifier opts \<noteq> [] \<or> co_verifyCertificate opts \<noteq> None"
  shows "client_handshake E cfg w rawCerts \<longleftrightarrow>
     rawCerts \<noteq> [] \<and> \<not> isl (parse_certs E rawCerts) \<and>
     verifyCertificate (co_certificateVerifier opts) (co_verifyCertificate opts) (co_ignoreExpiresCheck opts) w rawCerts None = None"
  using assms(2) configClientTLS_fields [OF assms(1)]
  by (auto simp: client_handshake_def peer_check_def split: sum.splits)

text \<open>
  A function given to \<open>WithVerifyServerCertificate\<close> alone replaces the verification of the chain and of the name: it is
  called with the certificates as they were sent and nil chains, and its answer decides.
\<close>

lemma custom_check_replaces_verification:
  assumes "configClientTLS E w0 opts = Inr cfg" and "co_certificateVerifier opts = []" and "co_verifyCertificate opts = Some f"
  shows "client_handshake E cfg w rawCerts \<longleftrightarrow> rawCerts \<noteq> [] \<and> \<not> isl (parse_certs E rawCerts) \<and> f w rawCerts None = None"
  using client_accepts_iff [OF assms(1), of w rawCerts] assms(2,3) by (simp add: verifyCertificate_iff all_accept_def chains_found_def)

text \<open>The same holds of a server that is told to require and verify client certificates.\<close>

lemma custom_check_replaces_client_verification:
  assumes "configServerTLS E suites w0 opts = Inr cfg" and "so_clientAuthType opts = RequireAndVerifyClientCert"
    and "so_certificateChainVerifier opts = []" and "so_verifyCertificate opts = Some f"
  shows "server_handshake E cfg w rawCerts \<longleftrightarrow> rawCerts \<noteq> [] \<and> \<not> isl (parse_certs E rawCerts) \<and> f w rawCerts None = None"
  using server_accepts_iff [OF assms(1), of w rawCerts] assms(2-4)
  by (simp add: verifyCertificate_iff all_accept_def chains_found_def)

text \<open>Below \<open>VerifyClientCertIfGiven\<close> the verifiers are not even entered in the configuration.\<close>

lemma weak_auth_ignores_verifiers:
  assumes "configServerTLS E suites w0 opts = Inr cfg" and "so_clientAuthType opts = RequireAnyClientCert"
  shows "server_handshake E cfg w rawCerts \<longleftrightarrow> rawCerts \<noteq> [] \<and> \<not> isl (parse_certs E rawCerts)"
  using assms
  by (auto simp: configServerTLS_def Let_def server_handshake_def peer_check_def split: sum.splits if_splits)

section \<open>Forwarded TLS information\<close>

text \<open>
  What the encodings promise for a pair of keys whose modulus has \<open>keySize\<close> bytes: each one is undone, a signature is as long
  as the modulus and verifies, and \<open>rsa.VerifyPKCS1v15\<close> refuses what has another length.
\<close>

definition codec_laws :: "('ip, 'priv, 'pub) info_codec \<Rightarrow> 'priv \<Rightarrow> 'pub \<Rightarrow> nat \<Rightarrow> bool" where
  "codec_laws C priv pub keySize \<longleftrightarrow>
     (\<forall>t g. ic_gobEncode C t = Some g \<longrightarrow> ic_gobDecode C g = Some t) \<and>
     (\<forall>s z. ic_gzip C s = Some z \<longrightarrow> ic_gunzip C z = Some s) \<and>
     (\<forall>h sg. ic_sign C priv h = Some sg \<longrightarrow> length sg = keySize \<and> ic_verify C pub h sg) \<and>
     (\<forall>h sg. ic_verify C pub h sg \<longrightarrow> length sg = keySize)"

lemma open_header:
  "codec_laws C priv pub 256 \<Longrightarrow> tls_info_header C priv t = Inr h \<Longrightarrow> open_tls_info C pub h = Inr t"
  by (auto simp: tls_info_header_def open_tls_info_def codec_laws_def Let_def split: option.splits)

text \<open>The reader cuts off 256 bytes whatever the key is, so that it opens no header at all with a key of another size.\<close>

lemma open_other_key:
  assumes "codec_laws C priv pub keySize" and "keySize \<noteq> 256"
  shows "\<exists>e. open_tls_info C pub h = Inl e"
proof (cases "open_tls_info C pub h")
  case (Inr t)
  then obtain body sg where "ic_verify C pub (ic_sha256 C body) sg" "length sg = 256"
    by (auto simp: open_tls_info_def Let_def split: option.splits if_splits)
  then show ?thesis using assms by (auto simp: codec_laws_def)
qed simp

text \<open>The headers that were opened before were opened with this key.\<close>

definition opened_with :: "('ip, 'priv, 'pub) info_codec \<Rightarrow> 'pub \<Rightarrow> (string \<times> 'ip tls_state) list \<Rightarrow> bool" where
  "opened_with C pub cache \<longleftrightarrow> (\<forall>h t. mget cache h = Some t \<longrightarrow> open_tls_info C pub h = Inr t)"

lemma from_meta_result:
  assumes "md_laws M" and "opened_with C pub cache"
    and "md_Get M md TlsInfoSign = h # hs" and "open_tls_info C pub h = Inr t"
  shows "fst (peerTlsInfoFromMeta M C (Some pub) None (Some md) cache) = Inr t"
  using assms by (auto simp: peerTlsInfoFromMeta_def opened_with_def split: option.splits)

lemma from_meta_refused:
  assumes "opened_with C pub cache" and "md_Get M md TlsInfoSign = h # hs" and "open_tls_info C pub h = Inl e"
  shows "\<exists>e. fst (peerTlsInfoFromMeta M C (Some pub) None (Some md) cache) = Inl e"
proof -
  have "mget cache h = None" using assms(1,3) by (cases "mget cache h") (auto simp: opened_with_def)
  then show ?thesis using assms(2,3) by (simp add: peerTlsInfoFromMeta_def)
qed

lemma opened_with_kept:
  "opened_with C pub cache \<Longrightarrow> opened_with C pub (snd (peerTlsInfoFromMeta M C (Some pub) None incoming cache))"
  by (auto simp: opened_with_def peerTlsInfoFromMeta_def split: option.splits list.splits sum.splits)

text \<open>
  C32 (forwarded TLS information). TLS information that is put in the metadata of a call for the first time is read
  at the other end as it was handed on, with every certificate reduced to the copied fields, whatever was read before, if
  the keys have 2048 bits, that is, if a signature has 256 bytes. With keys of any other size the reader refuses it.
\<close>

theorem forwarded_info_roundtrip:
  assumes "md_laws M" and "codec_laws C priv pub keySize" and "opened_with C pub cache"
    and "PeerTlsInfoToMeta M C (Some t) (Some priv) outgoing toMeta = ToMeta None (Some md) toMeta'"
    and "mget toMeta (tlsInfoKey t) = None" and "tlsInfoKey t \<noteq> ''''"
  shows "\<exists>fwd. tls_info_forward t = Some fwd \<and>
    (if keySize = 256 then fst (peerTlsInfoFromMeta M C (Some pub) None (Some md) cache) = Inr fwd
     else \<exists>e. fst (peerTlsInfoFromMeta M C (Some pub) None (Some md) cache) = Inl e)"
proof -
  obtain fwd h where f: "tls_info_forward t = Some fwd" "tls_info_header C priv fwd = Inr h"
    and md: "md = SetTlsInfoHeader M h outgoing"
    using assms(4-6) by (auto simp: PeerTlsInfoToMeta_def split: option.splits sum.splits)
  have g: "md_Get M md TlsInfoSign = [h]"
    using assms(1) by (simp add: md SetTlsInfoHeader_def md_Get_Set)
  show ?thesis
  proof (cases "keySize = 256")
    case True
    then show ?thesis using from_meta_result [OF assms(1,3) g] open_header [OF _ f(2)] assms(2) f(1) by auto
  next
    case False
    then show ?thesis using from_meta_refused [OF assms(3) g] open_other_key [OF assms(2) False, of h] f(1) by auto
  qed
qed

text \<open>Whatever is read was signed with the private key of the public key.\<close>

lemma read_info_is_signed:
  assumes "opened_with C pub cache" and "fst (peerTlsInfoFromMeta M C (Some pub) None (Some md) cache) = Inr t"
  shows "\<exists>h hs body sg. md_Get M md TlsInfoSign = h # hs \<and> b64_decode h = Some (body @ sg) \<and> length sg = 256 \<and>
           ic_verify C pub (ic_sha256 C body) sg"
proof -
  obtain h hs where h: "md_Get M md TlsInfoSign = h # hs" and o: "open_tls_info C pub h = Inr t"
    using assms by (auto simp: peerTlsInfoFromMeta_def opened_with_def split: option.splits list.splits sum.splits)
  obtain bytes where b: "b64_decode h = Some bytes" "256 \<le> length bytes"
    and v: "ic_verify C pub (ic_sha256 C (take (length bytes - 256) bytes)) (drop (length bytes - 256) bytes)"
    using o by (auto simp: open_tls_info_def Let_def split: option.splits if_splits)
  show ?thesis using h b v
    by (intro exI [of _ h] exI [of _ hs] exI [of _ "take (length bytes - 256) bytes"] exI [of _ "drop (length bytes - 256) bytes"]) simp
qed

text \<open>
  A header that was opened before is accepted with any other key: the map of opened headers does not know the key.
\<close>

lemma cached_info_any_key:
  "mget cache h = Some t \<Longrightarrow> md_Get M md TlsInfoSign = h # hs \<Longrightarrow>
   fst (peerTlsInfoFromMeta M C def (Some other) (Some md) cache) = Inr t"
  by (simp add: peerTlsInfoFromMeta_def)

text \<open>
  The map of made headers has the serial numbers of the certificates, one after the other, as its key: a peer with
  the certificates 1 and 23 is handed on as the peer with the certificates 12 and 3 that came before it, and so is a peer with
  the serial numbers of another authority's certificates.
\<close>

definition peer_of :: "(string \<times> int) list \<Rightarrow> 'ip tls_state" where
  "peer_of certs =
     \<lparr>ts_ServerName = '''', ts_CipherSuite = 0, ts_Version = 0, ts_HandshakeComplete = True,
      ts_PeerCertificates = map (\<lambda>(n, i). Some (zero_certificate\<lparr>ce_CommonName := n, ce_SerialNumber := i\<rparr>)) certs, ts_VerifiedChains = []\<rparr>"

lemma made_header_is_reused:
  "mget toMeta (tlsInfoKey t) = Some h \<Longrightarrow> tlsInfoKey t \<noteq> '''' \<Longrightarrow>
   PeerTlsInfoToMeta M C (Some t) (Some k) outgoing toMeta = ToMeta None (Some (SetTlsInfoHeader M h outgoing)) toMeta"
  by (simp add: PeerTlsInfoToMeta_def)

lemma serial_numbers_collide:
  "tlsInfoKey (peer_of [(''mallory'', 1), (''ca1'', 23)]) = tlsInfoKey (peer_of [(''alice'', 12), (''ca2'', 3)])"
  by code_simp

text \<open>A nil certificate beside another one is skipped for the key and then copied, which panics.\<close>

lemma nil_certificate_panics:
  assumes "ts_PeerCertificates t = [Some c, None]" and "mget toMeta (tlsInfoKey t) = None"
  shows "PeerTlsInfoToMeta M C (Some t) (Some k) outgoing toMeta = ToMetaPanic"
proof -
  have "format_nat n \<noteq> ''''" for n by (subst format_nat.simps) simp
  then have "tlsInfoKey t \<noteq> ''''" using assms(1) by (simp add: tlsInfoKey_def format_int_def)
  then show ?thesis using assms by (simp add: PeerTlsInfoToMeta_def tls_info_forward_def)
qed

lemma suites_do_not_depend_on_hardware:
  "set (initDefaultCipherSuites True) = set (initDefaultCipherSuites False)"
  "distinct (initDefaultCipherSuites hasGCMAsm)"
  by (auto simp: initDefaultCipherSuites_def gcm_suites_def chacha_suites_def otherCipherSuites_def)

section \<open>An example\<close>

definition example_env :: "(unit, nat) x509_env" where
  "example_env =
     \<lparr>xe_ParseIP = (\<lambda>s. None), xe_IpEqual = (=),
      xe_ParseCertificate = (\<lambda>s. Inr (zero_certificate\<lparr>ce_CommonName := s\<rparr>)),
      xe_CertsFromPEM = (\<lambda>s. [zero_certificate]),
      xe_Verify = (\<lambda>opts c. Inr [[c]]), xe_Now = (\<lambda>w. 0), xe_Later = (\<lambda>w. 0)\<rparr>"

definition example_auths :: "unit \<Rightarrow> string list" where
  "example_auths w = [''client.example.com'']"

definition example_server :: "(unit, nat, unit) server_options" where
  "example_server =
     new_server_options\<lparr>so_clientAuthType := RequireAndVerifyClientCert,
       so_certificateChainVerifier :=
         [certificateChainVerifier example_env (Some (\<lambda>w. Inr [''ca''])) (LeafAuthorityChecker example_env (Some example_auths)) [ExtKeyUsageClientAuth]]\<rparr>"

definition example_config :: "(unit, nat, unit) tls_config" where
  "example_config = projr (configServerTLS example_env [] () example_server)"

lemma example_server_fields:
  "so_clientAuthType example_server = RequireAndVerifyClientCert" "so_verifyCertificate example_server = None"
  "so_certificateChainVerifier example_server =
     [certificateChainVerifier example_env (Some (\<lambda>w. Inr [''ca''])) (LeafAuthorityChecker example_env (Some example_auths)) [ExtKeyUsageClientAuth]]"
  "so_clientCAs example_server = None"
  by (simp_all add: example_server_def new_server_options_def)

lemma example_configured: "configServerTLS example_env [] () example_server = Inr example_config"
  by (simp add: example_config_def configServerTLS_def ca_pool_def example_server_fields Let_def)

lemma example_leaf:
  "leaf_verified example_env (\<lambda>w. Inr [''ca'']) example_auths usages ign () [name] \<longleftrightarrow>
     VerifyHostname example_env (zero_certificate\<lparr>ce_CommonName := name\<rparr>) ''client.example.com'' = None"
  by (simp add: leaf_verified_def example_env_def example_auths_def)

lemma example_handshake:
  "server_handshake example_env example_config () [''*.example.com''] \<and> \<not> server_handshake example_env example_config () [''example.com'']"
proof -
  have a: "VerifyHostname example_env (zero_certificate\<lparr>ce_CommonName := ''*.example.com''\<rparr>) ''client.example.com'' = None"
    and b: "VerifyHostname example_env (zero_certificate\<lparr>ce_CommonName := ''example.com''\<rparr>) ''client.example.com'' \<noteq> None"
    by code_simp+
  show ?thesis
    using server_accepts_verified [OF example_configured _ example_server_fields(3,2), of "()"] a b
    by (simp add: example_server_fields example_leaf)
qed

definition example_codec :: "(nat, unit, unit) info_codec" where
  "example_codec =
     \<lparr>ic_gobEncode = (\<lambda>t. if t = the (tls_info_forward (peer_of [(''alice'', 12)])) then Some ''alice'' else None),
      ic_gobDecode = (\<lambda>s. Some (the (tls_info_forward (peer_of [(''alice'', 12)])))),
      ic_gzip = Some, ic_gunzip = Some, ic_sha256 = (\<lambda>s. s),
      ic_sign = (\<lambda>k s. Some (replicate 256 (CHR ''x''))), ic_verify = (\<lambda>k h s. length s = 256)\<rparr>"

lemma example_codec_laws: "codec_laws example_codec () () 256"
  by (simp add: codec_laws_def example_codec_def)

theorem forwarded_info_roundtrip_witness:
  "\<exists>md toMeta'. PeerTlsInfoToMeta list_md example_codec (Some (peer_of [(''alice'', 12)])) (Some ()) None [] = ToMeta None (Some md) toMeta' \<and>
     fst (peerTlsInfoFromMeta list_md example_codec (Some ()) None (Some md) []) = Inr (the (tls_info_forward (peer_of [(''alice'', 12)])))"
proof -
  have k: "tlsInfoKey (peer_of [(''alice'', 12)] :: nat tls_state) = ''12''" by code_simp
  obtain fwd where f: "tls_info_forward (peer_of [(''alice'', 12)] :: nat tls_state) = Some fwd"
    by (simp add: tls_info_forward_def peer_of_def)
  obtain md toMeta' where p:
    "PeerTlsInfoToMeta list_md example_codec (Some (peer_of [(''alice'', 12)])) (Some ()) None [] = ToMeta None (Some md) toMeta'"
    using k f by (simp add: PeerTlsInfoToMeta_def tls_info_header_def example_codec_def)
  show ?thesis
    using forwarded_info_roundtrip [OF list_md_laws example_codec_laws _ p, of "[]"] p k f by (auto simp: opened_with_def)
qed

end
