(* ===== verification/Tracing.thy ===== *)
theory Tracing
  imports Metadata Interceptor
begin

text \<open>
  Request ids, \<^verbatim>\<open>tracing/reqid.go\<close>: the tracing information of a call, how it travels in the metadata,
  and the interceptors of clients and servers.

  The context of a call is the record of what the code puts into it and reads from it: the metadata that
  came in and the metadata that goes out, the tracing information, the time and the method. The ids come
  from a random source and are arguments; so is the encoding of the call stack of another system as JSON.
\<close>

record TracingInfo =
  ti_rid :: string
  ti_cid :: string
  ti_pid :: string
  ti_rpc :: string
  ti_prpc :: string

definition no_tracing :: TracingInfo where
  "no_tracing = \<lparr>ti_rid = '''', ti_cid = '''', ti_pid = '''', ti_rpc = '''', ti_prpc = ''''\<rparr>"

record LanxinCallStack =
  lc_ReqId :: string
  lc_PRPC :: string
  lc_PID :: string
  lc_ID :: string
  lc_RPC :: string
  lc_Cid :: int
  lc_Rid :: int
  lc_CallTime :: int
  lc_Begin :: int
  lc_End :: int

record 'md call_context =
  cx_incoming :: "'md option"
  cx_outgoing :: "'md option"
  cx_tracingInfo :: "TracingInfo option"
  cx_timestamp :: "int option"
  cx_method :: "string option"

record callstack_json =
  cj_marshal :: "LanxinCallStack \<Rightarrow> string option"
  cj_unmarshal :: "string \<Rightarrow> LanxinCallStack option"

definition ContextWithReqId :: "'md call_context \<Rightarrow> string \<Rightarrow> string \<Rightarrow> string \<Rightarrow> string \<Rightarrow> string \<Rightarrow> 'md call_context" where
  "ContextWithReqId ctx reqId pid cid rpc prpc =
     ctx\<lparr>cx_tracingInfo := Some \<lparr>ti_rid = reqId, ti_cid = cid, ti_pid = pid, ti_rpc = rpc, ti_prpc = prpc\<rparr>\<rparr>"

section \<open>Tracing information in the metadata\<close>

definition getMdItem :: "'md md_ops \<Rightarrow> 'md \<Rightarrow> string \<Rightarrow> string" where
  "getMdItem M md item = (let val = md_Get M md item in if length val = 0 then '''' else last val)"

definition tracingInfoFromMetadata :: "'md md_ops \<Rightarrow> 'md \<Rightarrow> TracingInfo option" where
  "tracingInfoFromMetadata M md =
     (if getMdItem M md ''rid'' = '''' then None
      else Some \<lparr>ti_rid = getMdItem M md ''rid'', ti_cid = getMdItem M md ''cid'', ti_pid = getMdItem M md ''pid'',
                 ti_rpc = getMdItem M md ''rpc'', ti_prpc = getMdItem M md ''prpc''\<rparr>)"

definition tracingInfoToMetadata :: "'md md_ops \<Rightarrow> string \<Rightarrow> TracingInfo \<Rightarrow> 'md \<Rightarrow> 'md" where
  "tracingInfoToMetadata M now tracingInfo md =
     md_Set M ''reqst'' [now] (md_Set M ''prpc'' [ti_prpc tracingInfo] (md_Set M ''rpc'' [ti_rpc tracingInfo]
       (md_Set M ''pid'' [ti_pid tracingInfo] (md_Set M ''cid'' [ti_cid tracingInfo] (md_Set M ''rid'' [ti_rid tracingInfo] md)))))"

definition tracingInfoFromLanxinMetadata :: "'md md_ops \<Rightarrow> 'md \<Rightarrow> TracingInfo option" where
  "tracingInfoFromLanxinMetadata M md =
     (if getMdItem M md ''reqid'' = '''' then None
      else Some \<lparr>ti_rid = getMdItem M md ''reqid'', ti_cid = getMdItem M md ''cid'', ti_pid = getMdItem M md ''pid'',
                 ti_rpc = getMdItem M md ''rpc'', ti_prpc = getMdItem M md ''prpc''\<rparr>)"

definition tracingInfoFromLanxinCallstack2 :: "'md md_ops \<Rightarrow> callstack_json \<Rightarrow> 'md \<Rightarrow> TracingInfo option" where
  "tracingInfoFromLanxinCallstack2 M J md =
     (let cs2 = getMdItem M md ''callstack2''
      in if cs2 = '''' then None
         else (case cj_unmarshal J cs2 of
                 None \<Rightarrow> None
               | Some c \<Rightarrow> Some \<lparr>ti_rid = lc_ReqId c, ti_cid = lc_ID c, ti_pid = lc_PID c, ti_rpc = lc_RPC c, ti_prpc = lc_PRPC c\<rparr>))"

text \<open>
  The writer of the call stack gets the outgoing metadata, but a declaration of the same name hides it: what
  it writes to is the incoming metadata of the context.
\<close>

definition tracingInfoToLanxinCallstack2 :: "'md md_ops \<Rightarrow> callstack_json \<Rightarrow> TracingInfo \<Rightarrow> int \<Rightarrow> 'md call_context \<Rightarrow> 'md call_context" where
  "tracingInfoToLanxinCallstack2 M J tracingInfo ts ctx =
     (case cx_incoming ctx of
        None \<Rightarrow> ctx
      | Some md \<Rightarrow>
          if getMdItem M md ''callstack2'' = '''' then ctx
          else (case cj_marshal J
                       \<lparr>lc_ReqId = ti_rid tracingInfo, lc_PRPC = ti_prpc tracingInfo, lc_PID = ti_pid tracingInfo,
                        lc_ID = ti_cid tracingInfo, lc_RPC = ti_rpc tracingInfo, lc_Cid = 0, lc_Rid = 0,
                        lc_CallTime = ts, lc_Begin = ts, lc_End = ts\<rparr> of
                  None \<Rightarrow> ctx
                | Some cs2 \<Rightarrow> ctx\<lparr>cx_incoming := Some (md_Set M ''callstack2'' [cs2] md)\<rparr>))"

text \<open>The readers are tried in order; the incoming metadata is preferred to the outgoing one.\<close>

definition read_metadata :: "'md md_ops \<Rightarrow> callstack_json \<Rightarrow> 'md \<Rightarrow> TracingInfo option" where
  "read_metadata M J md =
     (case tracingInfoFromMetadata M md of
        Some t \<Rightarrow> Some t
      | None \<Rightarrow>
          (case tracingInfoFromLanxinMetadata M md of
             Some t \<Rightarrow> Some t
           | None \<Rightarrow> tracingInfoFromLanxinCallstack2 M J md))"

definition TracingInfoFromMetadata :: "'md md_ops \<Rightarrow> callstack_json \<Rightarrow> 'md call_context \<Rightarrow> TracingInfo \<times> bool" where
  "TracingInfoFromMetadata M J ctx =
     (case (case cx_incoming ctx of None \<Rightarrow> cx_outgoing ctx | Some md \<Rightarrow> Some md) of
        None \<Rightarrow> (no_tracing, False)
      | Some md \<Rightarrow> (case read_metadata M J md of None \<Rightarrow> (no_tracing, False) | Some t \<Rightarrow> (t, True)))"

definition TracingInfoToMetadata ::
  "'md md_ops \<Rightarrow> callstack_json \<Rightarrow> string \<Rightarrow> TracingInfo \<Rightarrow> int \<Rightarrow> 'md call_context \<Rightarrow> 'md call_context" where
  "TracingInfoToMetadata M J now tracingInfo ts ctx =
     (let md = (case cx_outgoing ctx of None \<Rightarrow> md_New M | Some md \<Rightarrow> md)
      in (tracingInfoToLanxinCallstack2 M J tracingInfo ts ctx)\<lparr>cx_outgoing := Some (tracingInfoToMetadata M now tracingInfo md)\<rparr>)"

section \<open>Calls\<close>

text \<open>\<open>newId\<close> is the id made from a fresh UUID, or \<open>None\<close> if there is none.\<close>

definition ChildTracingInfo :: "string option \<Rightarrow> string \<Rightarrow> TracingInfo \<Rightarrow> TracingInfo" where
  "ChildTracingInfo newId meth tracingInfo =
     (let cid = (case newId of None \<Rightarrow> '''' | Some i \<Rightarrow> i)
      in \<lparr>ti_rid = (if length (ti_rid tracingInfo) = 0 then cid else ti_rid tracingInfo), ti_cid = cid,
          ti_pid = (if length (ti_cid tracingInfo) \<noteq> 0 then ti_cid tracingInfo else ''''), ti_rpc = meth,
          ti_prpc = (if length (ti_rpc tracingInfo) \<noteq> 0 then ti_rpc tracingInfo else '''')\<rparr>)"

datatype 'o call_opt = ReqIdCallOpt string | OtherOpt 'o

fun tracing_from_opts :: "'o call_opt list \<Rightarrow> TracingInfo option \<Rightarrow> TracingInfo option" where
  "tracing_from_opts [] t = t"
| "tracing_from_opts (ReqIdCallOpt reqId # os) t =
     tracing_from_opts os (Some \<lparr>ti_rid = reqId, ti_cid = reqId, ti_pid = '''', ti_rpc = '''', ti_prpc = ''''\<rparr>)"
| "tracing_from_opts (OtherOpt x # os) t = tracing_from_opts os t"

definition caller_tracing :: "'md call_context \<Rightarrow> 'o call_opt list \<Rightarrow> TracingInfo" where
  "caller_tracing ctx opts =
     (case cx_tracingInfo ctx of
        Some t \<Rightarrow> t
      | None \<Rightarrow> (case tracing_from_opts opts None of Some t \<Rightarrow> t | None \<Rightarrow> no_tracing))"

text \<open>The interceptors of a client call the invoker with a context that carries the child's information.\<close>

definition RequestIdTracingUnaryClientInterceptor ::
  "'md md_ops \<Rightarrow> callstack_json \<Rightarrow> string option \<Rightarrow> string \<Rightarrow> int \<Rightarrow> ('md call_context, 'q, 'p, 'k, 'o call_opt, 'r) unary_client_int" where
  "RequestIdTracingUnaryClientInterceptor M J newId now enterTime ctx meth req reply cc invoker opts =
     invoker (TracingInfoToMetadata M J now (ChildTracingInfo newId meth (caller_tracing ctx opts)) enterTime ctx) meth req reply cc opts"

definition RequestIdTracingStreamingClientInterceptor ::
  "'md md_ops \<Rightarrow> callstack_json \<Rightarrow> string option \<Rightarrow> string \<Rightarrow> int \<Rightarrow> ('md call_context, 'd, 'k, 'o call_opt, 'r) stream_client_int" where
  "RequestIdTracingStreamingClientInterceptor M J newId now enterTime ctx desc cc meth streamer opts =
     streamer (TracingInfoToMetadata M J now (ChildTracingInfo newId meth (caller_tracing ctx opts)) enterTime ctx) desc cc meth opts"

text \<open>The interceptors of a server keep information that is there already, for instance from an HTTP request.\<close>

definition server_context :: "'md md_ops \<Rightarrow> callstack_json \<Rightarrow> int \<Rightarrow> string \<Rightarrow> 'md call_context \<Rightarrow> 'md call_context" where
  "server_context M J enterTime fullMethod ctx =
     (let ctx1 = ctx\<lparr>cx_timestamp := Some enterTime, cx_method := Some fullMethod\<rparr>
      in ctx1\<lparr>cx_tracingInfo := Some (case cx_tracingInfo ctx1 of Some t \<Rightarrow> t | None \<Rightarrow> fst (TracingInfoFromMetadata M J ctx1))\<rparr>)"

definition RequestIdTracingUnaryServerInterceptor ::
  "'md md_ops \<Rightarrow> callstack_json \<Rightarrow> int \<Rightarrow> ('md call_context, 'q, string, 'r) unary_server_int" where
  "RequestIdTracingUnaryServerInterceptor M J enterTime ctx req fullMethod handler =
     handler (server_context M J enterTime fullMethod ctx) req"

definition RequestIdTracingStreamingServerInterceptor ::
  "'md md_ops \<Rightarrow> callstack_json \<Rightarrow> int \<Rightarrow> ('v, 'md call_context, string, 'r) stream_server_int" where
  "RequestIdTracingStreamingServerInterceptor M J enterTime srv ss fullMethod handler =
     handler srv (server_context M J enterTime fullMethod ss)"

text \<open>An HTTP request: its header, method and path are what the handler reads.\<close>

definition header_item :: "(string \<times> string list) list \<Rightarrow> string \<Rightarrow> string" where
  "header_item h k = (case mget h k of Some (v # vs) \<Rightarrow> v | _ \<Rightarrow> '''')"

definition HttpServerReqIdHandler ::
  "int \<Rightarrow> (string \<times> string list) list \<Rightarrow> string \<Rightarrow> string \<Rightarrow> 'md call_context \<Rightarrow> 'md call_context" where
  "HttpServerReqIdHandler enterTime hdr meth path ctx =
     (if header_item hdr ''X-Request-Id'' = '''' then ctx
      else (let reqId = header_item hdr ''X-Request-Id'';
                callId = (if header_item hdr ''X-Call-Id'' \<noteq> '''' then header_item hdr ''X-Call-Id'' else reqId);
                rpc = (if header_item hdr ''X-Rpc'' \<noteq> '''' then header_item hdr ''X-Rpc'' else ''/'' @ meth @ path)
            in ctx\<lparr>cx_timestamp := Some enterTime,
                   cx_tracingInfo := Some \<lparr>ti_rid = reqId, ti_cid = callId, ti_pid = '''', ti_rpc = rpc, ti_prpc = ''''\<rparr>\<rparr>))"

text \<open>The fields of a log line; the time that has passed is formatted by \<open>passed\<close>.\<close>

definition dash :: "string \<Rightarrow> string" where
  "dash s = (if length s = 0 then ''-'' else s)"

definition tracingInfoFields :: "(int \<Rightarrow> string) \<Rightarrow> TracingInfo \<Rightarrow> int \<Rightarrow> (string \<times> string) list" where
  "tracingInfoFields passed tracingInfo timestamp =
     (if ti_rid tracingInfo = '''' then []
      else [(''reqid'', dash (ti_rid tracingInfo)), (''cid'', dash (ti_cid tracingInfo)), (''pid'', dash (ti_pid tracingInfo)),
            (''rpc'', dash (ti_rpc tracingInfo)), (''prpc'', dash (ti_prpc tracingInfo)), (''tc'', passed timestamp)])"

definition genContextFields :: "(int \<Rightarrow> string) \<Rightarrow> 'md call_context \<Rightarrow> (string \<times> string) list" where
  "genContextFields passed ctx =
     (case cx_tracingInfo ctx of
        None \<Rightarrow> []
      | Some t \<Rightarrow> tracingInfoFields passed t (case cx_timestamp ctx of None \<Rightarrow> 0 | Some n \<Rightarrow> n))"

section \<open>What arrives at the server\<close>

lemma to_lower_tags [simp]:
  "to_lower ''rid'' = ''rid''" "to_lower ''cid'' = ''cid''" "to_lower ''pid'' = ''pid''" "to_lower ''rpc'' = ''rpc''"
  "to_lower ''prpc'' = ''prpc''" "to_lower ''reqst'' = ''reqst''"
  by code_simp+

lemma read_what_was_written:
  assumes "md_laws M" and "ti_rid t \<noteq> ''''"
  shows "read_metadata M J (tracingInfoToMetadata M now t md) = Some t"
  using assms(2)
  by (simp add: read_metadata_def tracingInfoFromMetadata_def tracingInfoToMetadata_def getMdItem_def Let_def md_Get_Set [OF assms(1)])

text \<open>
  A remote call: the client's interceptor, the transport, which delivers the outgoing metadata as the
  incoming one of a new context, and the server's interceptor. The result is the context of the handler.
\<close>

definition deliver :: "'md call_context \<Rightarrow> 'md call_context" where
  "deliver ctx =
     \<lparr>cx_incoming = cx_outgoing ctx, cx_outgoing = None, cx_tracingInfo = None, cx_timestamp = None, cx_method = None\<rparr>"

record hop =
  hp_newId :: string
  hp_now :: string
  hp_time :: int
  hp_method :: string

definition remote_call :: "'md md_ops \<Rightarrow> callstack_json \<Rightarrow> hop \<Rightarrow> 'o call_opt list \<Rightarrow> 'md call_context \<Rightarrow> 'md call_context" where
  "remote_call M J h opts ctx =
     RequestIdTracingUnaryClientInterceptor M J (Some (hp_newId h)) (hp_now h) (hp_time h) ctx (hp_method h) () () ()
       (\<lambda>ctx1 meth req reply cc opts.
          RequestIdTracingUnaryServerInterceptor M J (hp_time h) (deliver ctx1) req meth (\<lambda>ctx2 req. ctx2)) opts"

lemma remote_call_tracing:
  assumes "md_laws M" and "hp_newId h \<noteq> ''''"
  shows "cx_tracingInfo (remote_call M J h opts ctx) = Some (ChildTracingInfo (Some (hp_newId h)) (hp_method h) (caller_tracing ctx opts))"
proof -
  let ?t = "ChildTracingInfo (Some (hp_newId h)) (hp_method h) (caller_tracing ctx opts)"
  have "ti_rid ?t \<noteq> ''''" using assms(2) by (simp add: ChildTracingInfo_def Let_def)
  from read_what_was_written [OF assms(1) this] show ?thesis
    by (simp add: remote_call_def RequestIdTracingUnaryClientInterceptor_def RequestIdTracingUnaryServerInterceptor_def
        server_context_def Let_def deliver_def TracingInfoToMetadata_def TracingInfoFromMetadata_def)
qed

text \<open>A chain of calls: the handler of each call makes the next one. The informations of the handlers, in order.\<close>

fun call_chain :: "'md md_ops \<Rightarrow> callstack_json \<Rightarrow> 'o call_opt list \<Rightarrow> hop list \<Rightarrow> 'md call_context \<Rightarrow> TracingInfo option list" where
  "call_chain M J opts [] ctx = []"
| "call_chain M J opts (h # hs) ctx =
     (let ctx' = remote_call M J h opts ctx in cx_tracingInfo ctx' # call_chain M J opts hs ctx')"

text \<open>What the chain should be: the request id of the first caller, or the first id, and each call pointing to the one before.\<close>

fun expected_chain :: "string \<Rightarrow> string \<Rightarrow> string \<Rightarrow> hop list \<Rightarrow> TracingInfo option list" where
  "expected_chain rid cid rpc [] = []"
| "expected_chain rid cid rpc (h # hs) =
     Some \<lparr>ti_rid = rid, ti_cid = hp_newId h, ti_pid = cid, ti_rpc = hp_method h, ti_prpc = rpc\<rparr>
       # expected_chain rid (hp_newId h) (hp_method h) hs"

lemma call_chain_inside:
  assumes "md_laws M"
  shows "\<forall>h \<in> set hs. hp_newId h \<noteq> '''' \<Longrightarrow> cx_tracingInfo ctx = Some t \<Longrightarrow> ti_rid t \<noteq> '''' \<Longrightarrow>
    call_chain M J opts hs ctx = expected_chain (ti_rid t) (ti_cid t) (ti_rpc t) hs"
proof (induction hs arbitrary: ctx t)
  case (Cons h hs)
  let ?t = "ChildTracingInfo (Some (hp_newId h)) (hp_method h) t"
  have r: "cx_tracingInfo (remote_call M J h opts ctx) = Some ?t"
    using remote_call_tracing [OF assms, of h J opts ctx] Cons.prems by (simp add: caller_tracing_def)
  moreover have "ti_rid ?t = ti_rid t" "ti_cid ?t = hp_newId h" "ti_rpc ?t = hp_method h" "ti_pid ?t = ti_cid t" "ti_prpc ?t = ti_rpc t"
    using Cons.prems(3) by (simp_all add: ChildTracingInfo_def Let_def)
  ultimately show ?case using Cons.IH [OF _ r] Cons.prems by (simp add: Let_def)
qed simp

section \<open>Properties\<close>

text \<open>
  C21 (a request keeps its id). In a chain of remote calls, each made by the handler of the one before, every
  handler sees the request id of the first caller, or the id of the first call if the caller had none; the id
  of its own call; and as its parent the call and the method of its caller.
\<close>

theorem request_id_is_kept:
  assumes "md_laws M" and "\<forall>h \<in> set hs. hp_newId h \<noteq> ''''"
  shows "call_chain M J opts hs ctx =
    expected_chain (if ti_rid (caller_tracing ctx opts) = '''' then (case hs of [] \<Rightarrow> '''' | h # _ \<Rightarrow> hp_newId h) else ti_rid (caller_tracing ctx opts))
      (ti_cid (caller_tracing ctx opts)) (ti_rpc (caller_tracing ctx opts)) hs"
proof (cases hs)
  case (Cons h hs')
  let ?t = "ChildTracingInfo (Some (hp_newId h)) (hp_method h) (caller_tracing ctx opts)"
  have h: "hp_newId h \<noteq> ''''" "\<forall>h \<in> set hs'. hp_newId h \<noteq> ''''" using assms(2) Cons by simp_all
  have r: "cx_tracingInfo (remote_call M J h opts ctx) = Some ?t" by (rule remote_call_tracing [OF assms(1) h(1)])
  have "ti_rid ?t \<noteq> ''''" using h(1) by (simp add: ChildTracingInfo_def Let_def)
  from call_chain_inside [OF assms(1) h(2) r this, of J opts] r show ?thesis
    by (simp add: Cons Let_def ChildTracingInfo_def)
qed simp

definition demo_hop :: "string \<Rightarrow> string \<Rightarrow> hop" where
  "demo_hop i meth = \<lparr>hp_newId = i, hp_now = ''0'', hp_time = 0, hp_method = meth\<rparr>"

theorem request_id_is_kept_witness:
  "call_chain list_md \<lparr>cj_marshal = (\<lambda>_. None), cj_unmarshal = (\<lambda>_. None)\<rparr> [ReqIdCallOpt ''r'' :: unit call_opt]
     [demo_hop ''1'' ''/a'', demo_hop ''2'' ''/b'']
     \<lparr>cx_incoming = None, cx_outgoing = None, cx_tracingInfo = None, cx_timestamp = None, cx_method = None\<rparr> =
   [Some \<lparr>ti_rid = ''r'', ti_cid = ''1'', ti_pid = ''r'', ti_rpc = ''/a'', ti_prpc = ''''\<rparr>,
    Some \<lparr>ti_rid = ''r'', ti_cid = ''2'', ti_pid = ''1'', ti_rpc = ''/b'', ti_prpc = ''/a''\<rparr>]"
proof -
  have "\<forall>h \<in> set [demo_hop ''1'' ''/a'', demo_hop ''2'' ''/b'']. hp_newId h \<noteq> ''''" by (simp add: demo_hop_def)
  from request_id_is_kept [OF list_md_laws this, of "\<lparr>cj_marshal = (\<lambda>_. None), cj_unmarshal = (\<lambda>_. None)\<rparr>" "[ReqIdCallOpt ''r'' :: unit call_opt]"
      "\<lparr>cx_incoming = None, cx_outgoing = None, cx_tracingInfo = None, cx_timestamp = None, cx_method = None\<rparr>"]
  show ?thesis by (simp only:) (simp add: demo_hop_def caller_tracing_def)
qed

end
