(* ===== verification/Call_Options.thy ===== *)
theory Call_Options
  imports Credentials Control_Policy Discovery Tracing
begin

text \<open>
  The options of a call and of the connection it needs: \<^verbatim>\<open>dialer/option.go\<close>, \<^verbatim>\<open>dialer/internal/option/option.go\<close>
  and \<^verbatim>\<open>utils.go\<close>, the asynchronous calls of \<^verbatim>\<open>async\<close>, and \<open>Dial\<close> of \<^verbatim>\<open>dialer/internal/dialer/dialer.go\<close>, which
  turns the options of a connection into those of the package \<open>grpc\<close>.

  Values the code only passes on, tracers, interceptors of the user, codecs and the like, have one type,
  \<open>'x\<close>, and the options of \<open>grpc\<close> the type \<open>'o\<close>. An option of the framework is a pointer: its address is what
  the code compares. The target transformer is shared through a pointer too, so it is a cell of the state.
\<close>

section \<open>Asynchronous calls\<close>

record async_retry_policy =
  ap_maxRetries :: int
  ap_retryInterval :: int
  ap_maxInterval :: int
  ap_intervalProgressive :: bool

record async_options =
  ao_retryMode :: int
  ao_customCodes :: bool
  ao_retryCodes :: "int list"
  ao_retryPolicy :: async_retry_policy
  ao_requestTimeout :: int
  ao_shardingKey :: string
  ao_cluster :: string

abbreviation (input) CustomizedRetry :: int where "CustomizedRetry \<equiv> 3"

definition new_async_options :: async_options where
  "new_async_options =
     \<lparr>ao_retryMode = 0, ao_customCodes = False, ao_retryCodes = [],
      ao_retryPolicy = \<lparr>ap_maxRetries = 0, ap_retryInterval = 0, ap_maxInterval = 0, ap_intervalProgressive = False\<rparr>,
      ao_requestTimeout = 0, ao_shardingKey = '''', ao_cluster = ''''\<rparr>"

type_synonym async_option = "async_options \<Rightarrow> async_options"

definition WithRetryMode :: "int \<Rightarrow> async_option" where
  "WithRetryMode retryMode opts = opts\<lparr>ao_retryMode := retryMode\<rparr>"

definition WithRequestTimeout :: "int \<Rightarrow> async_option" where
  "WithRequestTimeout tc opts = opts\<lparr>ao_requestTimeout := tc\<rparr>"

definition WithShardingkey :: "string \<Rightarrow> async_option" where
  "WithShardingkey key opts = opts\<lparr>ao_shardingKey := key\<rparr>"

definition WithCluster :: "string \<Rightarrow> async_option" where
  "WithCluster clusterName opts = opts\<lparr>ao_cluster := clusterName\<rparr>"

definition WithCustomRetryCode :: "int list \<Rightarrow> async_option" where
  "WithCustomRetryCode retryCodes opts = opts\<lparr>ao_retryCodes := retryCodes, ao_customCodes := True\<rparr>"

definition WithCustomRetryPolicy :: "int \<Rightarrow> int \<Rightarrow> int \<Rightarrow> bool \<Rightarrow> async_option" where
  "WithCustomRetryPolicy maxRetries retryInterval maxInterval intervalProgressive opts =
     opts\<lparr>ao_retryPolicy := \<lparr>ap_maxRetries = maxRetries, ap_retryInterval = retryInterval, ap_maxInterval = maxInterval,
                             ap_intervalProgressive = intervalProgressive\<rparr>\<rparr>"

definition defaultRetryCodes :: "int list" where
  "defaultRetryCodes = [4, 14]"

definition policy_applyToMetadata :: "'md md_ops \<Rightarrow> async_retry_policy \<Rightarrow> 'md \<Rightarrow> 'md" where
  "policy_applyToMetadata M p md =
     (let md1 = md_Set M ''x-async-retry-max-retries'' [format_int (ap_maxRetries p)] md;
          md2 = md_Set M ''x-async-retry-interval'' [format_int (ap_retryInterval p)] md1;
          md3 = md_Set M ''x-async-retry-max-interval'' [format_int (ap_maxInterval p)] md2
      in md_Set M ''x-async-retry-interval-progressive'' [if ap_intervalProgressive p then ''true'' else ''false''] md3)"

definition retry_codes :: "async_options \<Rightarrow> string list" where
  "retry_codes opts = map format_int (if ao_customCodes opts then ao_retryCodes opts else defaultRetryCodes)"

definition applyToMetadata :: "'md md_ops \<Rightarrow> async_options \<Rightarrow> 'md \<Rightarrow> 'md" where
  "applyToMetadata M opts md =
     (let md1 = md_Set M ''x-async-retry-mode'' [format_int (ao_retryMode opts)] md;
          md2 = md_Set M ''x-async-retry-codes'' (retry_codes opts) md1;
          md3 = md_Set M ''x-async-sharding-key'' [ao_shardingKey opts] md2;
          md4 = md_Set M ''x-async-cluster'' [ao_cluster opts] md3;
          md5 = (if ao_retryMode opts = CustomizedRetry then policy_applyToMetadata M (ao_retryPolicy opts) md4 else md4)
      in if ao_requestTimeout opts > 0 then md_Set M ''x-async-timeout'' [format_int (ao_requestTimeout opts)] md5 else md5)"

definition AsyncUnaryClientInterceptor ::
  "'md md_ops \<Rightarrow> string \<Rightarrow> async_options \<Rightarrow> ('md call_context, 'q, 'p, 'k, 'o, 'r) unary_client_int" where
  "AsyncUnaryClientInterceptor M target asyncOpts ctx meth req reply cc invoker opts =
     (let md = (case cx_outgoing ctx of None \<Rightarrow> md_New M | Some md \<Rightarrow> md);
          md = applyToMetadata M asyncOpts (md_Set M ''x-async-target'' [target] md)
      in invoker (ctx\<lparr>cx_outgoing := Some md\<rparr>) meth req reply cc opts)"

definition AsyncAddr :: string where
  "AsyncAddr = ''async.grpc.proxy''"

section \<open>Options of a call\<close>

datatype 'x fw_opt =
    DialOptTagOpt string
  | DialOptTagAsPoolIdOpt bool
  | UseInProcDialOpt bool
  | TargetCallOpt string
  | TracerCallOpt "'x option"
  | UnaryInterceptorCallOpt 'x
  | StreamInterceptorCallOpt 'x
  | AsyncCallOpt async_options
  | IgnoreInternalInterceptorsCallOpt bool

datatype ('x, 'o) grpc_opt = NilOpt | FwOpt nat "'x fw_opt" | GrpcOpt 'o

definition WithAsync :: "async_option list \<Rightarrow> 'x fw_opt" where
  "WithAsync opts = AsyncCallOpt (fold (\<lambda>f. f) opts new_async_options)"

text \<open>The interceptors of a call; those for retries and time-outs carry the target transformer they were made with.\<close>

type_synonym transformer = "string \<Rightarrow> string option"

datatype 'x client_int =
    UserInt 'x
  | AsyncInt string async_options
  | OpenTracingInt 'x
  | PrometheusInt
  | RequestIdInt
  | RetryInt transformer
  | TimeoutInt transformer

record ('x, 'o) call_options =
  cl_DialOptTag :: "string list"
  cl_UseInProcDial :: bool
  cl_Target :: string
  cl_ServiceName :: string
  cl_Tracer :: "'x option"
  cl_UnaryInt :: "'x client_int list"
  cl_StreamInt :: "'x client_int list"
  cl_TargetTransformer :: nat
  cl_IgnoreInternalInterceptors :: bool
  cl_AsyncOpt :: "async_options option"
  cl_DialOptTagAsPoolId :: bool
  cl_CallOpt :: "('x, 'o) grpc_opt list"
  cl_CallOptFromCtx :: "('x, 'o) grpc_opt list"
  cl_provider :: "string \<Rightarrow> string"

text \<open>
  The identity of the pool is computed when it is asked for; a provider is given the identity it replaces, so what
  the providers do is one function of the identity of the options.
\<close>

definition base_identity :: "('x, 'o) call_options \<Rightarrow> string" where
  "base_identity opts =
     (if cl_DialOptTagAsPoolId opts then join '':'' (cl_DialOptTag opts)
      else cl_Target opts @ '':'' @ join '':'' (cl_DialOptTag opts))"

definition PoolIdentity :: "('x, 'o) call_options \<Rightarrow> string" where
  "PoolIdentity opts = cl_provider opts (base_identity opts)"

definition SetPoolIdentityProvider :: "(string \<Rightarrow> string) \<Rightarrow> ('x, 'o) call_options \<Rightarrow> ('x, 'o) call_options" where
  "SetPoolIdentityProvider provider opts = opts\<lparr>cl_provider := provider \<circ> cl_provider opts\<rparr>"

fun set_call_opt :: "('x, 'o) grpc_opt \<Rightarrow> ('x, 'o) call_options \<Rightarrow> ('x, 'o) call_options" where
  "set_call_opt (FwOpt a (DialOptTagOpt t)) opts =
     (if t \<in> set (cl_DialOptTag opts) then opts else opts\<lparr>cl_DialOptTag := cl_DialOptTag opts @ [t]\<rparr>)"
| "set_call_opt (FwOpt a (UseInProcDialOpt b)) opts = opts\<lparr>cl_UseInProcDial := b\<rparr>"
| "set_call_opt (FwOpt a (TargetCallOpt t)) opts = opts\<lparr>cl_Target := t\<rparr>"
| "set_call_opt (FwOpt a (TracerCallOpt t)) opts = opts\<lparr>cl_Tracer := t\<rparr>"
| "set_call_opt (FwOpt a (AsyncCallOpt as)) opts = opts\<lparr>cl_AsyncOpt := Some as\<rparr>"
| "set_call_opt (FwOpt a (UnaryInterceptorCallOpt i)) opts = opts\<lparr>cl_UnaryInt := cl_UnaryInt opts @ [UserInt i]\<rparr>"
| "set_call_opt (FwOpt a (StreamInterceptorCallOpt i)) opts = opts\<lparr>cl_StreamInt := cl_StreamInt opts @ [UserInt i]\<rparr>"
| "set_call_opt (FwOpt a (IgnoreInternalInterceptorsCallOpt b)) opts = opts\<lparr>cl_IgnoreInternalInterceptors := b\<rparr>"
| "set_call_opt (FwOpt a (DialOptTagAsPoolIdOpt b)) opts = opts\<lparr>cl_DialOptTagAsPoolId := b\<rparr>"
| "set_call_opt (GrpcOpt g) opts = opts"
| "set_call_opt NilOpt opts = opts"

text \<open>The state of the package: the flags, read once, the service names of the methods, and the transformers.\<close>

record client_state =
  ct_flags :: "(bool \<times> bool) option"
  ct_methodMap :: "(string \<times> string) list"
  ct_cells :: "transformer list"

definition service_of :: "string \<Rightarrow> client_state \<Rightarrow> (status_error + string) \<times> client_state" where
  "service_of meth st =
     (case map_of (ct_methodMap st) meth of
        Some s \<Rightarrow> (Inr s, st)
      | None \<Rightarrow>
          (let path = split_char (CHR ''/'') meth
           in if length path \<noteq> 3 then (Inl (Status 3 ''Invoke grpc method without target specified''), st)
              else (Inr (path ! 1), st\<lparr>ct_methodMap := AList.update meth (path ! 1) (ct_methodMap st)\<rparr>)))"

definition parseCallOpt ::
  "string \<Rightarrow> ('x, 'o) grpc_opt list \<Rightarrow> ('x, 'o) call_options \<Rightarrow> client_state \<Rightarrow> (status_error + ('x, 'o) call_options) \<times> client_state" where
  "parseCallOpt meth callOpt opts st =
     (let opts1 = (fold set_call_opt callOpt opts)\<lparr>cl_provider := (\<lambda>s. s)\<rparr>
      in case service_of meth st of
           (Inl e, st') \<Rightarrow> (Inl e, st')
         | (Inr s, st') \<Rightarrow>
             (Inr (opts1\<lparr>cl_ServiceName := s, cl_Target := (if cl_Target opts1 = '''' then s else cl_Target opts1)\<rparr>), st'))"

type_synonym ('x, 'o) call_hook =
  "('x, 'o) grpc_opt list \<Rightarrow> ('x, 'o) call_options \<Rightarrow> ('x, 'o) grpc_opt list \<times> ('x, 'o) call_options"

definition read_flags :: "(string \<Rightarrow> bool) \<Rightarrow> client_state \<Rightarrow> client_state" where
  "read_flags flag st =
     (case ct_flags st of
        None \<Rightarrow> st\<lparr>ct_flags := Some (flag ''dialer.in_memory'', flag ''dialer.no_internal_interceptors'')\<rparr>
      | Some _ \<Rightarrow> st)"

definition new_call_options :: "'x option \<Rightarrow> ('x, 'o) grpc_opt list \<Rightarrow> client_state \<Rightarrow> ('x, 'o) call_options" where
  "new_call_options tracer callOpt st =
     (let (dialInMemory, ignoreInternal) = the (ct_flags st)
      in \<lparr>cl_DialOptTag = [], cl_UseInProcDial = dialInMemory, cl_Target = '''', cl_ServiceName = '''', cl_Tracer = tracer,
          cl_UnaryInt = [], cl_StreamInt = [], cl_TargetTransformer = length (ct_cells st),
          cl_IgnoreInternalInterceptors = ignoreInternal, cl_AsyncOpt = None, cl_DialOptTagAsPoolId = False, cl_CallOpt = callOpt,
          cl_CallOptFromCtx = [], cl_provider = (\<lambda>s. s)\<rparr>)"

definition make_async :: "('x, 'o) call_options \<Rightarrow> ('x, 'o) call_options" where
  "make_async opts =
     (case cl_AsyncOpt opts of
        None \<Rightarrow> opts
      | Some as \<Rightarrow> opts\<lparr>cl_UnaryInt := cl_UnaryInt opts @ [AsyncInt (cl_Target opts) as], cl_Target := AsyncAddr\<rparr>)"

definition PrepareCallOptions ::
  "(string \<Rightarrow> bool) \<Rightarrow> 'x option \<Rightarrow> string \<Rightarrow> ('x, 'o) grpc_opt list \<Rightarrow> ('x, 'o) call_hook option \<Rightarrow> client_state \<Rightarrow>
   (status_error + ('x, 'o) grpc_opt list \<times> ('x, 'o) call_options) \<times> client_state" where
  "PrepareCallOptions flag tracer meth callOpt hook st =
     (let st1 = read_flags flag st;
          opts = new_call_options tracer callOpt st1;
          st2 = st1\<lparr>ct_cells := ct_cells st1 @ [Some]\<rparr>
      in case parseCallOpt meth callOpt opts st2 of
           (Inl e, st3) \<Rightarrow> (Inl e, st3)
         | (Inr opts, st3) \<Rightarrow>
             (case hook of
                None \<Rightarrow> (Inr (callOpt, make_async opts), st3)
              | Some h \<Rightarrow>
                  (case h callOpt opts of (callOpt, opts) \<Rightarrow>
                     (case parseCallOpt meth callOpt opts st3 of
                        (Inl e, st4) \<Rightarrow> (Inl e, st4)
                      | (Inr opts, st4) \<Rightarrow> (Inr (callOpt, make_async opts), st4)))))"

section \<open>Options of a connection\<close>

text \<open>
  A registry, as the options see it: whether it is the one that does nothing, what it lists, its name spaces and its
  resolver. A builder of balancers makes that of \<open>grpc\<close> or one with the pickers of a provider, which may be nil.
\<close>

record 'x reg_obj =
  ro_Noop :: bool
  ro_ListAllService :: "string + (string \<times> meta_value inst list) list"
  ro_Namespace :: "((string \<Rightarrow> string) \<times> (string \<Rightarrow> string)) option"
  ro_Resolver :: "'x option"

definition ServicePath :: "'x reg_obj \<Rightarrow> string \<Rightarrow> string" where
  "ServicePath r target = (case ro_Namespace r of None \<Rightarrow> target | Some (withNs, withoutNs) \<Rightarrow> withNs target)"

text \<open>\<open>Target\<close> of a nil registry is the path itself.\<close>

definition registry_Target :: "'x reg_obj option \<Rightarrow> string \<Rightarrow> string" where
  "registry_Target r servicePath =
     (case r of
        None \<Rightarrow> servicePath
      | Some r \<Rightarrow> (case ro_Namespace r of None \<Rightarrow> servicePath | Some (withNs, withoutNs) \<Rightarrow> withoutNs servicePath))"

definition noop_registry :: "'x reg_obj" where
  "noop_registry = \<lparr>ro_Noop = True, ro_ListAllService = Inr [], ro_Namespace = None, ro_Resolver = None\<rparr>"

datatype 'x builder = GrpcRoundRobin | WithProvider "'x option"

text \<open>
  The defaults are made once from their plugins; \<open>Inl\<close> is the error of the plugin, which ends the program: \<open>None\<close>.
\<close>

definition DefaultRegistry :: "(string + 'x reg_obj option) \<Rightarrow> 'x reg_obj option \<Rightarrow> 'x reg_obj option" where
  "DefaultRegistry created dflt =
     (case dflt of
        Some r \<Rightarrow> Some r
      | None \<Rightarrow> (case created of Inl e \<Rightarrow> None | Inr None \<Rightarrow> Some noop_registry | Inr (Some r) \<Rightarrow> Some r))"

definition BuilderWithProvider :: "'x option \<Rightarrow> string + 'x builder" where
  "BuilderWithProvider provider = Inr (WithProvider provider)"

definition DefaultBalancerBuilder :: "(string + 'x option) \<Rightarrow> 'x builder option \<Rightarrow> 'x builder option" where
  "DefaultBalancerBuilder created dflt =
     (case dflt of
        Some b \<Rightarrow> Some b
      | None \<Rightarrow>
          (case created of
             Inl e \<Rightarrow> None
           | Inr None \<Rightarrow> Some GrpcRoundRobin
           | Inr (Some p) \<Rightarrow> (case BuilderWithProvider (Some p) of Inl e \<Rightarrow> None | Inr b \<Rightarrow> Some b)))"

definition BuilderWithName :: "(string + 'x option) \<Rightarrow> string + 'x builder" where
  "BuilderWithName created =
     (case created of
        Inl e \<Rightarrow> Inl (''create balancer plugin failed, err = '' @ e)
      | Inr provider \<Rightarrow> BuilderWithProvider provider)"

record ('w, 'ip, 'c, 'p, 'x) dial_options =
  do_Codec :: "'x option"
  do_BalancerBuilder :: "'x builder option"
  do_Registry :: "'x reg_obj option"
  do_DialTimeout :: int
  do_CredentialOpts :: "('w, 'ip, 'c, 'p) client_option list"
  do_PoolSize :: int
  do_DialFunc :: "'x option"
  do_CredentialFromRegistry :: bool
  do_ReadBufferSize :: int
  do_WriteBufferSize :: int
  do_KeepAliveParameters :: "'x option"

type_synonym ('w, 'ip, 'c, 'p, 'x) dial_option =
  "('w, 'ip, 'c, 'p, 'x) dial_options \<Rightarrow> string + ('w, 'ip, 'c, 'p, 'x) dial_options"

definition DialWithCodec :: "'x option \<Rightarrow> ('w, 'ip, 'c, 'p, 'x) dial_option" where
  "DialWithCodec codec opts = Inr (opts\<lparr>do_Codec := codec\<rparr>)"

definition DialWithBalancer :: "'x builder option \<Rightarrow> 'x option \<Rightarrow> ('w, 'ip, 'c, 'p, 'x) dial_option" where
  "DialWithBalancer dflt provider opts =
     (case provider of
        None \<Rightarrow> Inr (opts\<lparr>do_BalancerBuilder := dflt\<rparr>)
      | Some p \<Rightarrow> (case BuilderWithProvider (Some p) of Inl e \<Rightarrow> Inl e | Inr b \<Rightarrow> Inr (opts\<lparr>do_BalancerBuilder := Some b\<rparr>)))"

definition DialWithRegistry :: "'x reg_obj option \<Rightarrow> ('w, 'ip, 'c, 'p, 'x) dial_option" where
  "DialWithRegistry registry opts = Inr (opts\<lparr>do_Registry := registry\<rparr>)"

definition DialWithTimeout :: "int \<Rightarrow> ('w, 'ip, 'c, 'p, 'x) dial_option" where
  "DialWithTimeout timeout opts = Inr (opts\<lparr>do_DialTimeout := timeout\<rparr>)"

definition DialWithCredentialsOption :: "('w, 'ip, 'c, 'p) client_option list \<Rightarrow> ('w, 'ip, 'c, 'p, 'x) dial_option" where
  "DialWithCredentialsOption opt opts = Inr (opts\<lparr>do_CredentialOpts := do_CredentialOpts opts @ opt\<rparr>)"

definition DialWithPoolSize :: "int \<Rightarrow> ('w, 'ip, 'c, 'p, 'x) dial_option" where
  "DialWithPoolSize n opts = (if n < 1 then Inl ''pool size must larger than 0'' else Inr (opts\<lparr>do_PoolSize := n\<rparr>))"

definition DialWithCustomDialer :: "'x option \<Rightarrow> ('w, 'ip, 'c, 'p, 'x) dial_option" where
  "DialWithCustomDialer dialFunc opts = Inr (opts\<lparr>do_DialFunc := dialFunc\<rparr>)"

definition DialWithCredentialsFromRegistry :: "bool \<Rightarrow> ('w, 'ip, 'c, 'p, 'x) dial_option" where
  "DialWithCredentialsFromRegistry enable opts = Inr (opts\<lparr>do_CredentialFromRegistry := enable\<rparr>)"

definition DialWithReadBufferSize :: "int \<Rightarrow> ('w, 'ip, 'c, 'p, 'x) dial_option" where
  "DialWithReadBufferSize s opts = Inr (opts\<lparr>do_ReadBufferSize := s\<rparr>)"

definition DialWithWriteBufferSize :: "int \<Rightarrow> ('w, 'ip, 'c, 'p, 'x) dial_option" where
  "DialWithWriteBufferSize s opts = Inr (opts\<lparr>do_WriteBufferSize := s\<rparr>)"

definition DialWithKeepAliveParams :: "'x \<Rightarrow> ('w, 'ip, 'c, 'p, 'x) dial_option" where
  "DialWithKeepAliveParams kp opts = Inr (opts\<lparr>do_KeepAliveParameters := Some kp\<rparr>)"

text \<open>Options are registered under a tag, once; a query gives a copy.\<close>

type_synonym ('w, 'ip, 'c, 'p, 'x) dial_registry = "(string \<times> ('w, 'ip, 'c, 'p, 'x) dial_option list) list"

definition RegisterDialOption ::
  "string \<Rightarrow> ('w, 'ip, 'c, 'p, 'x) dial_option list \<Rightarrow> ('w, 'ip, 'c, 'p, 'x) dial_registry \<Rightarrow>
   string option \<times> ('w, 'ip, 'c, 'p, 'x) dial_registry" where
  "RegisterDialOption tag opt reg =
     (case map_of reg tag of
        Some _ \<Rightarrow> (Some (''dialer::RegisterDialOption: found duplicate options for '' @ tag), reg)
      | None \<Rightarrow> (None, AList.update tag opt reg))"

definition IsDialOptionRegistered :: "string \<Rightarrow> ('w, 'ip, 'c, 'p, 'x) dial_registry \<Rightarrow> bool" where
  "IsDialOptionRegistered tag reg \<longleftrightarrow> map_of reg tag \<noteq> None"

definition QueryDialOption :: "string \<Rightarrow> ('w, 'ip, 'c, 'p, 'x) dial_registry \<Rightarrow> ('w, 'ip, 'c, 'p, 'x) dial_option list option" where
  "QueryDialOption tag reg = map_of reg tag"

text \<open>
  What the defaults are read from: the registry and the builder of the program, the time-out policy of the control
  plane for a target (\<open>None\<close>: there is no control plane), the flags, the files and the parser of key pairs.
\<close>

record ('c, 'x) client_env =
  en_Registry :: "'x reg_obj option"
  en_Builder :: "'x builder option"
  en_TimeoutPolicy :: "string \<Rightarrow> client_timeout_policy option option"
  en_Bool :: "string \<Rightarrow> bool"
  en_String :: "string \<Rightarrow> string"
  en_StringList :: "string \<Rightarrow> string list"
  en_Duration :: "string \<Rightarrow> int"
  en_ReadFile :: "string \<Rightarrow> string + string"
  en_X509KeyPair :: "string \<Rightarrow> string \<Rightarrow> string + 'c"
  en_Unmarshal :: "string \<Rightarrow> reg_meta option"

definition pemPrefix :: string where
  "pemPrefix = ''-----BEGIN''"

definition dial_timeout :: "('c, 'x) client_env \<Rightarrow> string \<Rightarrow> int" where
  "dial_timeout En target =
     (case en_TimeoutPolicy En target of
        None \<Rightarrow> en_Duration En ''dialer.timeout''
      | Some None \<Rightarrow> en_Duration En ''dialer.timeout''
      | Some (Some policy) \<Rightarrow>
          if \<not> po_Enabled policy \<or> tp_ConnTimeout policy = 0 then en_Duration En ''dialer.timeout'' else tp_ConnTimeout policy)"

definition client_cert_files :: "('c, 'x) client_env \<Rightarrow> string \<times> string" where
  "client_cert_files En =
     (let certFile = en_String En ''dialer.tls.cert''; keyFile = en_String En ''dialer.tls.key''
      in if certFile = '''' \<and> keyFile = '''' \<and> en_Bool En ''dialer.tls.use_server_cert''
         then (en_String En ''server.tls.cert'', en_String En ''server.tls.key'') else (certFile, keyFile))"

definition client_cert_options :: "('c, 'x) client_env \<Rightarrow> ('w, 'ip, 'c, 'p) client_option list" where
  "client_cert_options En =
     (let (certFile, keyFile) = client_cert_files En
      in if certFile \<noteq> '''' \<and> keyFile \<noteq> ''''
         then [if has_prefix certFile pemPrefix \<and> has_prefix keyFile pemPrefix
               then WithClientCertificate (Some (\<lambda>w. en_X509KeyPair En certFile keyFile))
               else WithClientCertificateFile (en_ReadFile En) (en_X509KeyPair En) certFile keyFile]
         else [])"

text \<open>The authorities are read when they are needed.\<close>

definition ca_cert :: "('c, 'x) client_env \<Rightarrow> string \<Rightarrow> string + string" where
  "ca_cert En f = (if has_prefix f pemPrefix then Inr f else en_ReadFile En f)"

definition root_ca_options :: "('c, 'x) client_env \<Rightarrow> ('w, 'ip, 'c, 'p) client_option list" where
  "root_ca_options En =
     (let caFiles = en_StringList En ''dialer.tls.cacert''
      in if caFiles = [] then [] else [WithRootCACert (Some (\<lambda>w. read_files (ca_cert En) caFiles))])"

definition DefaultDialOption :: "('c, 'x) client_env \<Rightarrow> string \<Rightarrow> ('w, 'ip, 'c, 'p, 'x) dial_options" where
  "DefaultDialOption En target =
     \<lparr>do_Codec = None, do_BalancerBuilder = en_Builder En, do_Registry = en_Registry En, do_DialTimeout = dial_timeout En target,
      do_CredentialOpts = client_cert_options En @ root_ca_options En @
        [WithInsecureSkipVerify (en_Bool En ''dialer.tls.insecure_skip_verify''), WithInsecureDial (en_Bool En ''dialer.insecure'')],
      do_PoolSize = 1, do_DialFunc = None, do_CredentialFromRegistry = False, do_ReadBufferSize = 0, do_WriteBufferSize = 0,
      do_KeepAliveParameters = None\<rparr>"

fun find_entry :: "string \<Rightarrow> (string \<times> meta_value inst list) list \<Rightarrow> meta_value inst list option" where
  "find_entry target [] = None"
| "find_entry target ((serviceName, instances) # es) = (if serviceName \<noteq> target then find_entry target es else Some instances)"

definition credentials_of_meta :: "(string \<Rightarrow> reg_meta option) \<Rightarrow> meta_value \<Rightarrow> ('w, 'ip, 'c, 'p) client_option list" where
  "credentials_of_meta unmarshal m =
     (case m of
        MetaOther \<Rightarrow> [WithInsecureDial True]
      | MetaString jsonMeta \<Rightarrow>
          (case UnmarshalRegistryMeta unmarshal jsonMeta of
             None \<Rightarrow> [WithInsecureDial True]
           | Some meta \<Rightarrow> if rm_TlsServer meta then [WithInsecureSkipVerify True, WithInsecureDial False] else [WithInsecureDial True]))"

definition credentialOptsFromRegistry ::
  "(string \<Rightarrow> reg_meta option) \<Rightarrow> string \<Rightarrow> 'x reg_obj option \<Rightarrow> string + ('w, 'ip, 'c, 'p) client_option list" where
  "credentialOptsFromRegistry unmarshal target registry =
     (case registry of
        None \<Rightarrow> Inl ''CredentialOptsFromRegistry: no registry instance found''
      | Some r \<Rightarrow>
          if ro_Noop r then Inl ''CredentialOptsFromRegistry: no registry instance found''
          else (case ro_ListAllService r of
             Inl e \<Rightarrow> Inl (''CredentialOptsFromRegistry: try to get service info failed, err = '' @ e)
           | Inr entries \<Rightarrow>
               (case find_entry target entries of
                  None \<Rightarrow> Inl (''CredentialOptsFromRegistry: no entry found of '' @ target)
                | Some [] \<Rightarrow> Inl (''CredentialOptsFromRegistry: no service instance found for '' @ target)
                | Some (i # is) \<Rightarrow> Inr (credentials_of_meta unmarshal (snd i)))))"

fun apply_dial_options :: "('d \<Rightarrow> string + 'd) list \<Rightarrow> 'd \<Rightarrow> string + 'd" where
  "apply_dial_options [] d = Inr d"
| "apply_dial_options (f # fs) d = (case f d of Inl e \<Rightarrow> Inl e | Inr d' \<Rightarrow> apply_dial_options fs d')"

fun apply_tags ::
  "('w, 'ip, 'c, 'p, 'x) dial_registry \<Rightarrow> string list \<Rightarrow> ('w, 'ip, 'c, 'p, 'x) dial_options \<Rightarrow> string + ('w, 'ip, 'c, 'p, 'x) dial_options" where
  "apply_tags reg [] d = Inr d"
| "apply_tags reg (t # ts) d =
     (case QueryDialOption t reg of
        None \<Rightarrow> Inl ''dialer::PrepareDialOption: dialOpt tag not found in registry''
      | Some opt \<Rightarrow> (case apply_dial_options opt d of Inl e \<Rightarrow> Inl e | Inr d' \<Rightarrow> apply_tags reg ts d'))"

definition PrepareDialOption ::
  "('c, 'x) client_env \<Rightarrow> ('w, 'ip, 'c, 'p, 'x) dial_registry \<Rightarrow> ('x, 'o) call_options \<Rightarrow> string + ('w, 'ip, 'c, 'p, 'x) dial_options" where
  "PrepareDialOption En reg callOpts =
     (let dflt = DefaultDialOption En (cl_Target callOpts)
      in case (if cl_DialOptTag callOpts \<noteq> [] then apply_tags reg (cl_DialOptTag callOpts) dflt
               else (case QueryDialOption (cl_Target callOpts) reg of
                       None \<Rightarrow> Inr dflt
                     | Some opt \<Rightarrow> apply_dial_options opt dflt)) of
           Inl e \<Rightarrow> Inl e
         | Inr d \<Rightarrow>
             if do_CredentialFromRegistry d
             then (case credentialOptsFromRegistry (en_Unmarshal En) (cl_Target callOpts) (do_Registry d) of
                     Inl e \<Rightarrow> Inl e
                   | Inr cred \<Rightarrow> Inr (d\<lparr>do_CredentialOpts := cred\<rparr>))
             else Inr d)"

section \<open>Dialling\<close>

datatype ('w, 'ip, 'c, 'p, 'x) grpc_dial_opt =
    DisableRetry
  | DialCredentials "('w, 'ip, 'c, 'p) dial_credentials"
  | DialBalancer "'x builder" 'x
  | DialCodec 'x
  | ContextDialer 'x
  | ReadBufferSize int
  | WriteBufferSize int
  | KeepaliveParams 'x

definition opt_list :: "('a \<Rightarrow> 'b) \<Rightarrow> 'a option \<Rightarrow> 'b list" where
  "opt_list f a = (case a of None \<Rightarrow> [] | Some x \<Rightarrow> [f x])"

definition registry_resolver :: "('w, 'ip, 'c, 'p, 'x) dial_options \<Rightarrow> ('x builder \<times> 'x reg_obj \<times> 'x) option" where
  "registry_resolver d =
     (case do_BalancerBuilder d of
        None \<Rightarrow> None
      | Some b \<Rightarrow> (case do_Registry d of None \<Rightarrow> None | Some r \<Rightarrow> (case ro_Resolver r of None \<Rightarrow> None | Some rs \<Rightarrow> Some (b, r, rs))))"

text \<open>
  The resolver, when it takes options, is told to give only the addresses whose metadata agrees on TLS with the
  credentials: \<open>with_option\<close> is \<open>None\<close> for a resolver that takes none. Building a balancer with a nil provider panics.
  The result is what \<open>grpc.DialContext\<close> is called with.
\<close>

definition dialer_Dial ::
  "('w, 'ip) x509_env \<Rightarrow> 'w \<Rightarrow> ('x \<Rightarrow> (meta_value inst \<Rightarrow> bool) \<Rightarrow> (string + 'x) option) \<Rightarrow> (string \<Rightarrow> reg_meta option) \<Rightarrow>
   string \<Rightarrow> ('w, 'ip, 'c, 'p, 'x) dial_options \<Rightarrow> (string + string \<times> ('w, 'ip, 'c, 'p, 'x) grpc_dial_opt list) outcome" where
  "dialer_Dial E w with_option unmarshal target d =
     (case ParseClientOptions ([WithServerNameOverride target, WithIgnoreServerCertExpiresCheck True] @ do_CredentialOpts d) of
        Inl e \<Rightarrow> Returned (Inl e)
      | Inr co \<Rightarrow>
          (case DialOptionWithOpts E w co of
             Inl e \<Rightarrow> Returned (Inl e)
           | Inr cred \<Rightarrow>
               (let dialOpt = [DisableRetry, DialCredentials cred];
                    others = opt_list DialCodec (do_Codec d) @ opt_list ContextDialer (do_DialFunc d) @
                      (if do_ReadBufferSize d \<noteq> 0 then [ReadBufferSize (do_ReadBufferSize d)] else []) @
                      (if do_WriteBufferSize d \<noteq> 0 then [WriteBufferSize (do_WriteBufferSize d)] else []) @
                      opt_list KeepaliveParams (do_KeepAliveParameters d)
                in case registry_resolver d of
                     None \<Rightarrow> Returned (Inr (target, dialOpt @ others))
                   | Some (b, r, rs) \<Rightarrow>
                       (case with_option rs (ResolveWithTls unmarshal (\<not> co_insecure co)) of
                          Some (Inl e) \<Rightarrow> Returned (Inl e)
                        | filtered \<Rightarrow>
                            (let rs = (case filtered of Some (Inr rs') \<Rightarrow> rs' | _ \<Rightarrow> rs)
                             in if b = WithProvider None then Panicked (Some ''invalid memory address or nil pointer dereference'')
                                else Returned (Inr (ServicePath r target, dialOpt @ [DialBalancer b rs] @ others)))))))"

section \<open>Interceptors of a call\<close>

definition internal_ints :: "client_state \<Rightarrow> ('x, 'o) call_options \<Rightarrow> bool \<Rightarrow> 'x client_int list" where
  "internal_ints st callOpts ignoreInternal =
     (if ignoreInternal then []
      else (let t = ct_cells st ! cl_TargetTransformer callOpts in [RequestIdInt, RetryInt t, TimeoutInt t]))"

definition PrepareUnaryInterceptor :: "bool \<Rightarrow> client_state \<Rightarrow> ('x, 'o) call_options \<Rightarrow> bool \<Rightarrow> 'x client_int list" where
  "PrepareUnaryInterceptor metrics st callOpts ignoreInternal =
     cl_UnaryInt callOpts @ opt_list OpenTracingInt (cl_Tracer callOpts) @ (if metrics then [PrometheusInt] else []) @
     internal_ints st callOpts ignoreInternal"

definition PrepareStreamInterceptor :: "bool \<Rightarrow> client_state \<Rightarrow> ('x, 'o) call_options \<Rightarrow> bool \<Rightarrow> 'x client_int list" where
  "PrepareStreamInterceptor metrics st callOpts ignoreInternal =
     cl_StreamInt callOpts @ opt_list OpenTracingInt (cl_Tracer callOpts) @ (if metrics then [PrometheusInt] else []) @
     internal_ints st callOpts ignoreInternal"

section \<open>Options that are joined\<close>

definition joinTwoCallOpts :: "'a list \<Rightarrow> 'a list \<Rightarrow> 'a list" where
  "joinTwoCallOpts lhs rhs = fold (\<lambda>r lhs. if r \<in> set lhs then lhs else lhs @ [r]) rhs lhs"

definition joinCallOpts :: "'a list list \<Rightarrow> 'a list" where
  "joinCallOpts callOpts = fold (\<lambda>os result. joinTwoCallOpts result os) callOpts []"

section \<open>What joining gives\<close>

lemma joinTwo_Nil: "joinTwoCallOpts l [] = l"
  by (simp add: joinTwoCallOpts_def)

lemma joinTwo_Cons: "joinTwoCallOpts l (x # r) = joinTwoCallOpts (if x \<in> set l then l else l @ [x]) r"
  by (simp add: joinTwoCallOpts_def)

lemmas joinTwo_simps [simp] = joinTwo_Nil joinTwo_Cons

lemma joinTwo_append: "joinTwoCallOpts l (r @ s) = joinTwoCallOpts (joinTwoCallOpts l r) s"
  by (simp add: joinTwoCallOpts_def)

lemma joinTwo_set: "set (joinTwoCallOpts l r) = set l \<union> set r"
  by (induction r arbitrary: l) auto

lemma joinTwo_absorb: "set r \<subseteq> set l \<Longrightarrow> joinTwoCallOpts l r = l"
  by (induction r arbitrary: l) auto

lemma joinTwo_idem: "joinTwoCallOpts (joinTwoCallOpts l r) r = joinTwoCallOpts l r"
  by (simp add: joinTwo_absorb joinTwo_set)

lemma joinTwo_remdups: "joinTwoCallOpts [] r = rev (remdups (rev r))"
  by (induction r rule: rev_induct) (auto simp: joinTwo_append joinTwo_set)

text \<open>Joining keeps the first occurrence of every option, in the order in which they are given.\<close>

lemma joinCallOpts_first: "joinCallOpts oss = rev (remdups (rev (concat oss)))"
proof -
  have "fold (\<lambda>os result. joinTwoCallOpts result os) oss l = joinTwoCallOpts l (concat oss)" for l
    by (induction oss arbitrary: l) (simp_all add: joinTwo_append)
  then show ?thesis by (simp add: joinCallOpts_def joinTwo_remdups)
qed

section \<open>What preparing gives\<close>

fun tag_of :: "('x, 'o) grpc_opt \<Rightarrow> string list" where
  "tag_of (FwOpt a (DialOptTagOpt t)) = [t]"
| "tag_of other = []"

fun unary_of :: "('x, 'o) grpc_opt \<Rightarrow> 'x client_int list" where
  "unary_of (FwOpt a (UnaryInterceptorCallOpt i)) = [UserInt i]"
| "unary_of other = []"

fun stream_of :: "('x, 'o) grpc_opt \<Rightarrow> 'x client_int list" where
  "stream_of (FwOpt a (StreamInterceptorCallOpt i)) = [UserInt i]"
| "stream_of other = []"

fun target_of :: "('x, 'o) grpc_opt \<Rightarrow> string \<Rightarrow> string" where
  "target_of (FwOpt a (TargetCallOpt t)) s = t"
| "target_of other s = s"

fun async_of :: "('x, 'o) grpc_opt \<Rightarrow> async_options option \<Rightarrow> async_options option" where
  "async_of (FwOpt a (AsyncCallOpt as)) s = Some as"
| "async_of other s = s"

lemma set_call_opt_fields:
  "cl_DialOptTag (set_call_opt g opts) = joinTwoCallOpts (cl_DialOptTag opts) (tag_of g)"
  "cl_UnaryInt (set_call_opt g opts) = cl_UnaryInt opts @ unary_of g"
  "cl_StreamInt (set_call_opt g opts) = cl_StreamInt opts @ stream_of g"
  "cl_Target (set_call_opt g opts) = target_of g (cl_Target opts)"
  "cl_AsyncOpt (set_call_opt g opts) = async_of g (cl_AsyncOpt opts)"
  "cl_TargetTransformer (set_call_opt g opts) = cl_TargetTransformer opts"
  "cl_CallOpt (set_call_opt g opts) = cl_CallOpt opts"
  by (cases "(g, opts)" rule: set_call_opt.cases; simp)+

lemma set_call_opts_fields:
  "cl_DialOptTag (fold set_call_opt os opts) = joinTwoCallOpts (cl_DialOptTag opts) (concat (map tag_of os))"
  "cl_UnaryInt (fold set_call_opt os opts) = cl_UnaryInt opts @ concat (map unary_of os)"
  "cl_StreamInt (fold set_call_opt os opts) = cl_StreamInt opts @ concat (map stream_of os)"
  "cl_Target (fold set_call_opt os opts) = fold target_of os (cl_Target opts)"
  "cl_AsyncOpt (fold set_call_opt os opts) = fold async_of os (cl_AsyncOpt opts)"
  "cl_TargetTransformer (fold set_call_opt os opts) = cl_TargetTransformer opts"
  "cl_CallOpt (fold set_call_opt os opts) = cl_CallOpt opts"
  by (induction os arbitrary: opts) (simp_all add: set_call_opt_fields joinTwo_append)

definition methods_ok :: "client_state \<Rightarrow> bool" where
  "methods_ok st \<longleftrightarrow> (\<forall>m s. map_of (ct_methodMap st) m = Some s \<longrightarrow> (\<exists>a c. split_char (CHR ''/'') m = [a, s, c]))"

definition service_name :: "string \<Rightarrow> string option" where
  "service_name meth = (case split_char (CHR ''/'') meth of [a, s, c] \<Rightarrow> Some s | _ \<Rightarrow> None)"

lemma service_name_Some: "service_name meth = Some s \<longleftrightarrow> (\<exists>a c. split_char (CHR ''/'') meth = [a, s, c])"
  by (auto simp: service_name_def split: list.splits)

lemma service_name_None: "service_name meth = None \<longleftrightarrow> length (split_char (CHR ''/'') meth) \<noteq> 3"
  by (auto simp: service_name_def split: list.splits)

lemma service_of_spec:
  assumes "methods_ok st"
  shows "case service_of meth st of
    (r, st') \<Rightarrow> methods_ok st' \<and> ct_cells st' = ct_cells st \<and> ct_flags st' = ct_flags st \<and>
      (case r of Inl e \<Rightarrow> service_name meth = None | Inr s \<Rightarrow> service_name meth = Some s)"
proof (cases "map_of (ct_methodMap st) meth")
  case (Some s)
  then show ?thesis using assms by (simp add: service_of_def methods_ok_def service_name_Some)
next
  case None
  show ?thesis
  proof (cases "service_name meth")
    case None
    then show ?thesis using assms \<open>map_of (ct_methodMap st) meth = None\<close> by (simp add: service_of_def service_name_None Let_def)
  next
    case (Some s)
    then obtain a c where "split_char (CHR ''/'') meth = [a, s, c]" by (auto simp: service_name_Some)
    then show ?thesis using assms Some \<open>map_of (ct_methodMap st) meth = None\<close>
      by (simp add: service_of_def methods_ok_def Let_def update_conv')
  qed
qed

text \<open>Preparing with the hook of a connection made without one: the options are parsed twice.\<close>

abbreviation (input) no_hook :: "('x, 'o) call_hook" where
  "no_hook \<equiv> (\<lambda>callOpt opts. (callOpt, opts))"

lemma parseCallOpt_spec:
  assumes "methods_ok st" "parseCallOpt meth os opts st = (Inr opts', st')"
  shows "methods_ok st'" "ct_cells st' = ct_cells st" "service_name meth = Some (cl_ServiceName opts')"
    "cl_DialOptTag opts' = joinTwoCallOpts (cl_DialOptTag opts) (concat (map tag_of os))"
    "cl_UnaryInt opts' = cl_UnaryInt opts @ concat (map unary_of os)"
    "cl_StreamInt opts' = cl_StreamInt opts @ concat (map stream_of os)"
    "cl_Target opts' = (let t = fold target_of os (cl_Target opts) in if t = '''' then cl_ServiceName opts' else t)"
    "cl_AsyncOpt opts' = fold async_of os (cl_AsyncOpt opts)"
    "cl_TargetTransformer opts' = cl_TargetTransformer opts" "cl_provider opts' = (\<lambda>s. s)"
  using assms service_of_spec[OF assms(1), of meth]
  by (auto simp: parseCallOpt_def Let_def set_call_opts_fields split: prod.splits sum.splits)

lemma parseCallOpt_state:
  assumes "methods_ok st" "parseCallOpt meth os opts st = (r, st')"
  shows "methods_ok st' \<and> ct_cells st' = ct_cells st"
  using assms service_of_spec[OF assms(1), of meth] by (auto simp: parseCallOpt_def Let_def split: prod.splits sum.splits)

lemma prepare_state:
  assumes "methods_ok st" "PrepareCallOptions flag tracer meth os hook st = (r, st')"
  shows "methods_ok st' \<and> ct_cells st' = ct_cells st @ [Some]"
proof -
  let ?st = "(read_flags flag st)\<lparr>ct_cells := ct_cells (read_flags flag st) @ [Some]\<rparr>"
  have ok: "methods_ok ?st" "ct_cells ?st = ct_cells st @ [Some]"
    using assms(1) by (simp_all add: read_flags_def methods_ok_def split: option.split)
  obtain r1 st1 where p1: "parseCallOpt meth os (new_call_options tracer os (read_flags flag st)) ?st = (r1, st1)" by fastforce
  note s1 = parseCallOpt_state[OF ok(1) p1]
  show ?thesis using assms(2) p1 s1 ok(2)
    by (auto simp: PrepareCallOptions_def Let_def split: sum.splits option.splits prod.splits dest: parseCallOpt_state)
qed

lemma fold_last_option:
  fixes f :: "'a \<Rightarrow> 'b \<Rightarrow> 'b"
  assumes "\<And>g. (\<forall>s. f g s = s) \<or> (\<exists>t. \<forall>s. f g s = t)"
  shows "(\<forall>s. fold f os s = s) \<or> (\<exists>t. \<forall>s. fold f os s = t)"
proof (induction os)
  case (Cons g os)
  then show ?case using assms[of g] by auto
qed simp

lemma target_of_const: "(\<forall>s. target_of g s = s) \<or> (\<exists>t. \<forall>s. target_of g s = t)"
  by (cases "(g, '''' :: string)" rule: target_of.cases) auto

lemma async_of_const: "(\<forall>s. async_of g s = s) \<or> (\<exists>t. \<forall>s. async_of g s = t)"
  by (cases "(g, None :: async_options option)" rule: async_of.cases) auto

definition named_target :: "string \<Rightarrow> ('x, 'o) grpc_opt list \<Rightarrow> string" where
  "named_target service os = (let t = fold target_of os '''' in if t = '''' then service else t)"

lemma named_target_again: "named_target s os = (let t = fold target_of os (named_target s os) in if t = '''' then s else t)"
  using fold_last_option[of target_of os, OF target_of_const] by (auto simp: named_target_def Let_def)

lemma named_async_again: "fold async_of os (fold async_of os None) = fold async_of os None"
  using fold_last_option[of async_of os, OF async_of_const] by auto

lemma prepared_spec:
  assumes ok: "methods_ok st" and prep: "PrepareCallOptions flag tracer meth os (Some no_hook) st = (Inr (os', opts), st')"
  obtains s where "os' = os" "methods_ok st'" "ct_cells st' = ct_cells st @ [Some]" "service_name meth = Some s" "cl_ServiceName opts = s"
    "cl_DialOptTag opts = rev (remdups (rev (concat (map tag_of os))))"
    "cl_StreamInt opts = concat (map stream_of os) @ concat (map stream_of os)"
    "cl_UnaryInt opts = concat (map unary_of os) @ concat (map unary_of os) @
       opt_list (AsyncInt (named_target s os)) (fold async_of os None)"
    "cl_Target opts = (if fold async_of os None = None then named_target s os else AsyncAddr)"
    "cl_TargetTransformer opts = length (ct_cells st)" "cl_provider opts = (\<lambda>s. s)"
proof -
  let ?st1 = "read_flags flag st"
  let ?new = "new_call_options tracer os ?st1"
  let ?st2 = "?st1\<lparr>ct_cells := ct_cells ?st1 @ [Some]\<rparr>"
  have flags: "ct_cells ?st1 = ct_cells st" "methods_ok ?st2"
    using ok by (simp_all add: read_flags_def methods_ok_def split: option.split)
  have new: "cl_DialOptTag ?new = []" "cl_UnaryInt ?new = []" "cl_StreamInt ?new = []" "cl_Target ?new = ''''" "cl_AsyncOpt ?new = None"
      "cl_TargetTransformer ?new = length (ct_cells st)"
    using flags by (simp_all add: new_call_options_def Let_def split: prod.split)
  obtain o1 st3 where p1: "parseCallOpt meth os ?new ?st2 = (Inr o1, st3)"
    using prep by (auto simp: PrepareCallOptions_def Let_def split: prod.splits sum.splits)
  note s1 = parseCallOpt_spec[OF flags(2) p1, unfolded new]
  obtain o2 where p2: "parseCallOpt meth os o1 st3 = (Inr o2, st')" and o: "opts = make_async o2" "os' = os"
    using prep p1 by (auto simp: PrepareCallOptions_def Let_def split: prod.splits sum.splits)
  note s2 = parseCallOpt_spec[OF s1(1) p2]
  have sn: "cl_ServiceName o1 = cl_ServiceName o2" using s1(3) s2(3) by simp
  have t1: "cl_Target o1 = named_target (cl_ServiceName o2) os" using s1(7) sn by (simp add: named_target_def Let_def)
  have tgt: "cl_Target o2 = named_target (cl_ServiceName o2) os"
    by (subst named_target_again) (rule s2(7)[unfolded t1])
  have as: "cl_AsyncOpt o2 = fold async_of os None" using s1(8) s2(8) named_async_again[of os] by simp
  have tags: "cl_DialOptTag o2 = rev (remdups (rev (concat (map tag_of os))))"
    using s1(4) s2(4) by (simp add: joinTwo_idem flip: joinTwo_remdups)
  show ?thesis
  proof (rule that[of "cl_ServiceName o2"])
    show "cl_UnaryInt opts = concat (map unary_of os) @ concat (map unary_of os) @
       opt_list (AsyncInt (named_target (cl_ServiceName o2) os)) (fold async_of os None)"
      using s1(5) s2(5) tgt as by (simp add: o make_async_def opt_list_def split: option.split)
    show "cl_Target opts = (if fold async_of os None = None then named_target (cl_ServiceName o2) os else AsyncAddr)"
      using tgt as by (simp add: o make_async_def split: option.split)
  qed (use s1 s2 sn tags o flags in \<open>simp_all add: make_async_def split: option.split\<close>)
qed

section \<open>Calls that share a pool\<close>

definition plain_name :: "string \<Rightarrow> bool" where
  "plain_name s \<longleftrightarrow> s \<noteq> '''' \<and> CHR '':'' \<notin> set s"

lemma join_colon_inj:
  assumes "list_all plain_name ts" "list_all plain_name us" "join '':'' ts = join '':'' us"
  shows "ts = us"
proof -
  have e: "(join '':'' vs = []) = (vs = [])" if "list_all plain_name vs" for vs
    by (rule join_eq_Nil) (use that in \<open>auto simp: plain_name_def list_all_iff\<close>)
  have s: "split_char (CHR '':'') (join '':'' vs) = vs" if "list_all plain_name vs" "vs \<noteq> []" for vs
    by (rule split_char_join) (use that in \<open>auto simp: plain_name_def list_all_iff\<close>)
  show ?thesis
  proof (cases "ts = [] \<or> us = []")
    case True
    then show ?thesis using e[OF assms(1)] e[OF assms(2)] assms(3) by metis
  next
    case False
    then have "ts \<noteq> []" "us \<noteq> []" by simp_all
    with s[OF assms(1)] s[OF assms(2)] assms(3) show ?thesis by metis
  qed
qed

lemma base_identity_inj:
  assumes "\<not> cl_DialOptTagAsPoolId a" "\<not> cl_DialOptTagAsPoolId b" "CHR '':'' \<notin> set (cl_Target a)" "CHR '':'' \<notin> set (cl_Target b)"
    "list_all plain_name (cl_DialOptTag a)" "list_all plain_name (cl_DialOptTag b)" "base_identity a = base_identity b"
  shows "cl_Target a = cl_Target b \<and> cl_DialOptTag a = cl_DialOptTag b"
proof -
  have eq: "cl_Target a @ '':'' @ join '':'' (cl_DialOptTag a) = cl_Target b @ '':'' @ join '':'' (cl_DialOptTag b)"
    using assms by (simp add: base_identity_def)
  have t: "takeWhile (\<lambda>c. c \<noteq> CHR '':'') (u @ CHR '':'' # v) = u" if "CHR '':'' \<notin> set u" for u v
    using that by (induction u) auto
  have "cl_Target a = cl_Target b"
    using t[OF assms(3), of "join '':'' (cl_DialOptTag a)"] t[OF assms(4), of "join '':'' (cl_DialOptTag b)"] eq by simp
  moreover have "join '':'' (cl_DialOptTag a) = join '':'' (cl_DialOptTag b)" using eq calculation by simp
  ultimately show ?thesis using join_colon_inj assms(5,6) by blast
qed

text \<open>
  Colons in the names defeat the separation: a target with a port and one tag, and the target without the port and two
  tags, have one pool.
\<close>

lemma base_identity_ambiguous:
  "base_identity (a\<lparr>cl_DialOptTagAsPoolId := False, cl_Target := ''10.0.0.1:80'', cl_DialOptTag := [''x'']\<rparr>) =
   base_identity (a\<lparr>cl_DialOptTagAsPoolId := False, cl_Target := ''10.0.0.1'', cl_DialOptTag := [''80'', ''x'']\<rparr>)"
  by (simp add: base_identity_def)

section \<open>Security of a connection\<close>

text \<open>The options the flags lead to keep the server name, whatever they are.\<close>

lemma cert_options_keep:
  assumes "apply_cred_options (client_cert_options En @ root_ca_options En) c = Inr c'"
  shows "co_serverName c' = co_serverName c \<and> co_ignoreExpiresCheck c' = co_ignoreExpiresCheck c \<and>
    co_certificateVerifier c' = co_certificateVerifier c \<and> co_verifyCertificate c' = co_verifyCertificate c"
  using assms
  by (auto simp: client_cert_options_def root_ca_options_def apply_cred_append Let_def WithClientCertificate_def WithInsecureDial_def
        WithClientCertificateFile_def WithRootCACert_def split: prod.splits if_splits sum.splits)

definition serves_tls :: "(string \<Rightarrow> reg_meta option) \<Rightarrow> meta_value \<Rightarrow> bool" where
  "serves_tls unmarshal m \<longleftrightarrow>
     (case m of
        MetaOther \<Rightarrow> False
      | MetaString json \<Rightarrow> (case UnmarshalRegistryMeta unmarshal json of None \<Rightarrow> False | Some meta \<Rightarrow> rm_TlsServer meta))"

lemma registry_credentials:
  "ParseClientOptions ([WithServerNameOverride t, WithIgnoreServerCertExpiresCheck True] @ credentials_of_meta unmarshal m) =
     Inr (new_client_options\<lparr>co_serverName := t, co_ignoreExpiresCheck := True,
            co_insecure := \<not> serves_tls unmarshal m, co_insecureSkipVerify := serves_tls unmarshal m\<rparr>)"
  by (simp add: ParseClientOptions_def credentials_of_meta_def WithServerNameOverride_def WithIgnoreServerCertExpiresCheck_def
        WithInsecureDial_def WithInsecureSkipVerify_def new_client_options_def serves_tls_def split: meta_value.split option.split)

lemma filter_accepts: "ResolveWithTls unmarshal (serves_tls unmarshal (snd i)) i"
  by (simp add: ResolveWithTls_def serves_tls_def split: meta_value.split option.split)

text \<open>What a connection is made with: the credentials of the parsed options, and a balancer on the filtered resolver.\<close>

lemma dialer_Dial_spec:
  assumes "dialer_Dial E w with_option unmarshal target d = Returned (Inr (t, os))"
  obtains co cred others where
    "ParseClientOptions ([WithServerNameOverride target, WithIgnoreServerCertExpiresCheck True] @ do_CredentialOpts d) = Inr co"
    "DialOptionWithOpts E w co = Inr cred"
    "os = [DisableRetry, DialCredentials cred] @
       (case registry_resolver d of
          None \<Rightarrow> []
        | Some (b, r, rs) \<Rightarrow>
            [DialBalancer b (case with_option rs (ResolveWithTls unmarshal (\<not> co_insecure co)) of Some (Inr rs') \<Rightarrow> rs' | _ \<Rightarrow> rs)]) @ others"
    "\<forall>c. DialCredentials c \<notin> set others"
proof -
  let ?others = "opt_list DialCodec (do_Codec d) @ opt_list ContextDialer (do_DialFunc d) @
     (if do_ReadBufferSize d \<noteq> 0 then [ReadBufferSize (do_ReadBufferSize d)] else []) @
     (if do_WriteBufferSize d \<noteq> 0 then [WriteBufferSize (do_WriteBufferSize d)] else []) @
     opt_list KeepaliveParams (do_KeepAliveParameters d)"
  have o: "\<forall>c. DialCredentials c \<notin> set ?others" by (auto simp: opt_list_def split: option.splits)
  show ?thesis using assms
    by (auto simp: dialer_Dial_def Let_def split: sum.splits option.splits if_splits prod.splits intro!: that[OF _ _ _ o])
qed

section \<open>The theorems\<close>

text \<open>
  C39 (Calls that share a pool). Two calls through connections without a hook of the user get the same pool exactly when
  they have the same target and the same dial options, as long as neither uses its tags as the identity, no target has a
  colon, and no tag is empty or has a colon.
\<close>

theorem calls_share_pool:
  assumes "methods_ok st1" "PrepareCallOptions flag tracer1 meth1 os1 (Some no_hook) st1 = (Inr (os1', a), st1')"
    and "methods_ok st2" "PrepareCallOptions flag tracer2 meth2 os2 (Some no_hook) st2 = (Inr (os2', b), st2')"
    and "\<not> cl_DialOptTagAsPoolId a" "\<not> cl_DialOptTagAsPoolId b"
    and "CHR '':'' \<notin> set (cl_Target a)" "CHR '':'' \<notin> set (cl_Target b)"
    and "list_all plain_name (cl_DialOptTag a)" "list_all plain_name (cl_DialOptTag b)"
  shows "PoolIdentity a = PoolIdentity b \<longleftrightarrow> cl_Target a = cl_Target b \<and> cl_DialOptTag a = cl_DialOptTag b"
proof -
  have p: "cl_provider a = (\<lambda>s. s)" "cl_provider b = (\<lambda>s. s)"
    using prepared_spec[OF assms(1,2)] prepared_spec[OF assms(3,4)] by metis+
  show ?thesis
  proof
    assume "PoolIdentity a = PoolIdentity b"
    then show "cl_Target a = cl_Target b \<and> cl_DialOptTag a = cl_DialOptTag b"
      by (intro base_identity_inj assms(5-10)) (simp add: PoolIdentity_def p)
  qed (simp add: PoolIdentity_def p base_identity_def assms(5,6))
qed

text \<open>
  C38 (Credentials from the flags). A call for which no dial options are registered is dialled without TLS exactly when
  the flag says so, even with a certificate; otherwise the server must prove the name of the target, unless the
  verification is switched off by its flag.
\<close>

theorem default_connection_security:
  assumes "cl_DialOptTag callOpts = []" "QueryDialOption (cl_Target callOpts) reg = None" "PrepareDialOption En reg callOpts = Inr d"
    and "dialer_Dial E w with_option unmarshal (cl_Target callOpts) d = Returned (Inr (t, os))" "DialCredentials cred \<in> set os"
  shows "if en_Bool En ''dialer.insecure'' then cred = InsecureDial
    else (\<exists>tls. cred = TransportCredentials tls \<and> tc_ServerName tls = cl_Target callOpts \<and>
            tc_InsecureSkipVerify tls = en_Bool En ''dialer.tls.insecure_skip_verify'')"
proof -
  have d: "d = DefaultDialOption En (cl_Target callOpts)"
    using assms(1-3) by (auto simp: PrepareDialOption_def Let_def DefaultDialOption_def)
  obtain co where parse: "ParseClientOptions ([WithServerNameOverride (cl_Target callOpts), WithIgnoreServerCertExpiresCheck True] @
      do_CredentialOpts d) = Inr co" and cred: "DialOptionWithOpts E w co = Inr cred"
    by (rule dialer_Dial_spec[OF assms(4)]) (use assms(5) in \<open>auto split: option.splits\<close>)
  let ?c0 = "new_client_options\<lparr>co_serverName := cl_Target callOpts, co_ignoreExpiresCheck := True\<rparr>"
  obtain c1 where c1: "apply_cred_options (client_cert_options En @ root_ca_options En) ?c0 = Inr c1"
      and co: "co = c1\<lparr>co_insecureSkipVerify := en_Bool En ''dialer.tls.insecure_skip_verify'', co_insecure := en_Bool En ''dialer.insecure''\<rparr>"
    using parse by (auto simp: d ParseClientOptions_def DefaultDialOption_def WithServerNameOverride_def WithIgnoreServerCertExpiresCheck_def
        apply_cred_append WithInsecureSkipVerify_def WithInsecureDial_def split: sum.splits)
  have "co_perRPCCredentials c1 = None"
    using c1 by (auto simp: client_cert_options_def root_ca_options_def apply_cred_append Let_def WithClientCertificate_def WithInsecureDial_def
        WithClientCertificateFile_def WithRootCACert_def new_client_options_def split: prod.splits if_splits sum.splits)
  then show ?thesis using cred cert_options_keep[OF c1] unfolding co
    by (auto simp: DialOptionWithOpts_def configClientTLS_def Let_def new_client_options_def split: sum.splits option.splits)
qed

text \<open>
  C37 (Credentials from the registry). A connection that takes its credentials from the registry uses TLS exactly when the
  first instance of the target does, and the resolver it balances over is asked for a set of addresses that contains
  that instance.
\<close>

theorem registry_credentials_fit:
  assumes "PrepareDialOption En reg callOpts = Inr d" "do_CredentialFromRegistry d" "registry_resolver d = Some (b, r, rs)"
    and "dialer_Dial E w with_option (en_Unmarshal En) (cl_Target callOpts) d = Returned (Inr (t, os))"
  shows "\<exists>es i is accept. ro_ListAllService r = Inr es \<and> find_entry (cl_Target callOpts) es = Some (i # is) \<and> accept i \<and>
    DialBalancer b (case with_option rs accept of Some (Inr rs') \<Rightarrow> rs' | _ \<Rightarrow> rs) \<in> set os \<and>
    (DialCredentials InsecureDial \<in> set os \<longleftrightarrow> \<not> serves_tls (en_Unmarshal En) (snd i))"
proof -
  have r: "do_Registry d = Some r" using assms(3) by (auto simp: registry_resolver_def split: option.splits)
  obtain es i "is" where es: "ro_ListAllService r = Inr es" "find_entry (cl_Target callOpts) es = Some (i # is)"
      and d: "do_CredentialOpts d = credentials_of_meta (en_Unmarshal En) (snd i)"
    using assms(1,2) r
    by (auto simp: PrepareDialOption_def Let_def credentialOptsFromRegistry_def split: sum.splits option.splits if_splits list.splits)
  let ?co = "new_client_options\<lparr>co_serverName := cl_Target callOpts, co_ignoreExpiresCheck := True,
      co_insecure := \<not> serves_tls (en_Unmarshal En) (snd i), co_insecureSkipVerify := serves_tls (en_Unmarshal En) (snd i)\<rparr>"
  let ?accept = "ResolveWithTls (en_Unmarshal En) (serves_tls (en_Unmarshal En) (snd i))"
  obtain cred others where cred: "DialOptionWithOpts E w ?co = Inr cred"
      and os: "os = [DisableRetry, DialCredentials cred] @
        [DialBalancer b (case with_option rs ?accept of Some (Inr rs') \<Rightarrow> rs' | _ \<Rightarrow> rs)] @ others" "\<forall>c. DialCredentials c \<notin> set others"
    by (rule dialer_Dial_spec[OF assms(4)]) (auto simp: d registry_credentials[simplified] assms(3))
  have "cred = InsecureDial \<longleftrightarrow> \<not> serves_tls (en_Unmarshal En) (snd i)"
    using cred by (auto simp: DialOptionWithOpts_def new_client_options_def split: sum.splits)
  then show ?thesis using es os filter_accepts[of "en_Unmarshal En" i]
    by (intro exI[of _ es] exI[of _ i] exI[of _ "is"] exI[of _ ?accept]) auto
qed

section \<open>Examples\<close>

definition demo_reg_obj :: "nat reg_obj" where
  "demo_reg_obj =
     \<lparr>ro_Noop = False, ro_ListAllService = Inr [(''svc'', [(''h1'', MetaString ''{}''), (''h2'', MetaOther)])], ro_Namespace = None,
      ro_Resolver = Some 7\<rparr>"

definition demo_client_env :: "bool \<Rightarrow> (unit, nat) client_env" where
  "demo_client_env insecure =
     \<lparr>en_Registry = Some demo_reg_obj, en_Builder = Some GrpcRoundRobin, en_TimeoutPolicy = (\<lambda>_. None), en_Bool = (\<lambda>k. insecure \<and> k = ''dialer.insecure''),
      en_String = (\<lambda>_. ''-----BEGIN''), en_StringList = (\<lambda>_. []), en_Duration = (\<lambda>_. 1), en_ReadFile = (\<lambda>_. Inl ''no file''),
      en_X509KeyPair = (\<lambda>_ _. Inr ()),
      en_Unmarshal = (\<lambda>_. Some \<lparr>rm_TlsServer = True, rm_HttpPatterns = [], rm_Version = 3, rm_Type = 1, rm_HttpRules = []\<rparr>)\<rparr>"

definition demo_client_state :: client_state where
  "demo_client_state = \<lparr>ct_flags = None, ct_methodMap = [], ct_cells = []\<rparr>"

definition demo_call_options :: "string list \<Rightarrow> (nat, unit) call_options" where
  "demo_call_options tags =
     \<lparr>cl_DialOptTag = tags, cl_UseInProcDial = True, cl_Target = ''svc'', cl_ServiceName = ''svc'', cl_Tracer = None, cl_UnaryInt = [],
      cl_StreamInt = [], cl_TargetTransformer = 0, cl_IgnoreInternalInterceptors = False, cl_AsyncOpt = None, cl_DialOptTagAsPoolId = False,
      cl_CallOpt = [], cl_CallOptFromCtx = [], cl_provider = (\<lambda>s. s)\<rparr>"

lemmas demo_call_defs = demo_reg_obj_def demo_client_env_def demo_call_options_def PrepareDialOption_def DefaultDialOption_def dialer_Dial_def
  registry_resolver_def credentialOptsFromRegistry_def client_cert_options_def client_cert_files_def root_ca_options_def dial_timeout_def
  QueryDialOption_def DialWithCredentialsFromRegistry_def credentials_of_meta_def UnmarshalRegistryMeta_def pemPrefix_def has_prefix_def
  ParseClientOptions_def WithServerNameOverride_def WithIgnoreServerCertExpiresCheck_def WithInsecureDial_def WithInsecureSkipVerify_def
  WithClientCertificate_def WithClientCertificateFile_def DialOptionWithOpts_def configClientTLS_def ca_pool_def new_client_options_def
  opt_list_def Let_def

definition demo_call :: "string \<Rightarrow> (status_error + (nat, unit) grpc_opt list \<times> (nat, unit) call_options) \<times> client_state" where
  "demo_call tag = PrepareCallOptions (\<lambda>_. True) None ''/pkg.Svc/Get'' [FwOpt 1 (DialOptTagOpt tag), FwOpt 2 (DialOptTagOpt tag)] (Some no_hook)
     demo_client_state"

lemma demo_prepared:
  "\<exists>opts st'. demo_call tag = (Inr ([FwOpt 1 (DialOptTagOpt tag), FwOpt 2 (DialOptTagOpt tag)], opts), st') \<and>
     cl_Target opts = ''pkg.Svc'' \<and> cl_DialOptTag opts = [tag] \<and> \<not> cl_DialOptTagAsPoolId opts"
  by (simp add: demo_call_def PrepareCallOptions_def read_flags_def demo_client_state_def new_call_options_def parseCallOpt_def service_of_def
        make_async_def Let_def)

theorem calls_share_pool_witness:
  "\<exists>os1 a st1 os2 b st2. demo_call ''a'' = (Inr (os1, a), st1) \<and> demo_call ''b'' = (Inr (os2, b), st2) \<and> PoolIdentity a \<noteq> PoolIdentity b"
proof -
  obtain os1 a st1 where a: "demo_call ''a'' = (Inr (os1, a), st1)" "cl_Target a = ''pkg.Svc''" "cl_DialOptTag a = [''a'']" "\<not> cl_DialOptTagAsPoolId a"
    using demo_prepared[of "''a''"] by blast
  obtain os2 b st2 where b: "demo_call ''b'' = (Inr (os2, b), st2)" "cl_Target b = ''pkg.Svc''" "cl_DialOptTag b = [''b'']" "\<not> cl_DialOptTagAsPoolId b"
    using demo_prepared[of "''b''"] by blast
  have ok: "methods_ok demo_client_state" by (simp add: methods_ok_def demo_client_state_def)
  show ?thesis
    using calls_share_pool[OF ok a(1)[unfolded demo_call_def] ok b(1)[unfolded demo_call_def] a(4) b(4)] a b by (auto simp: plain_name_def)
qed

theorem default_connection_security_witness:
  "\<exists>d t os. PrepareDialOption (demo_client_env True) ([] :: (unit, nat, unit, unit, nat) dial_registry) (demo_call_options []) = Inr d \<and>
     dialer_Dial example_env () (\<lambda>_ _. None) (\<lambda>_. None) ''svc'' d = Returned (Inr (t, os)) \<and> DialCredentials InsecureDial \<in> set os"
proof -
  obtain d t os where d: "PrepareDialOption (demo_client_env True) ([] :: (unit, nat, unit, unit, nat) dial_registry) (demo_call_options []) = Inr d"
      and os: "dialer_Dial example_env () (\<lambda>_ _. None) (\<lambda>_. None) ''svc'' d = Returned (Inr (t, os))"
    by (fastforce simp: demo_call_defs)
  obtain cred where "DialCredentials cred \<in> set os" using dialer_Dial_spec[OF os] by fastforce
  moreover have "cred = InsecureDial"
    using default_connection_security[of "demo_call_options []" "[]" "demo_client_env True" d example_env "()" "\<lambda>_ _. None" "\<lambda>_. None" t os cred]
      d os calculation by (simp add: demo_call_options_def QueryDialOption_def demo_client_env_def)
  ultimately show ?thesis using d os by blast
qed

theorem registry_credentials_fit_witness:
  "\<exists>d t os. PrepareDialOption (demo_client_env True) [(''reg'', [DialWithCredentialsFromRegistry True :: (unit, nat, unit, unit, nat) dial_option])]
       (demo_call_options [''reg'']) = Inr d \<and>
     dialer_Dial example_env () (\<lambda>_ _. None) (en_Unmarshal (demo_client_env True)) ''svc'' d = Returned (Inr (t, os)) \<and>
     DialCredentials InsecureDial \<notin> set os"
proof -
  let ?E = "demo_client_env True" and ?r = "[(''reg'', [DialWithCredentialsFromRegistry True :: (unit, nat, unit, unit, nat) dial_option])]"
  obtain d where d: "PrepareDialOption ?E ?r (demo_call_options [''reg'']) = Inr d" "do_CredentialFromRegistry d"
      "registry_resolver d = Some (GrpcRoundRobin, demo_reg_obj, 7)" "do_CredentialOpts d = credentials_of_meta (en_Unmarshal ?E) (MetaString ''{}'')"
    by (fastforce simp: demo_call_defs)
  obtain t os where os: "dialer_Dial example_env () (\<lambda>_ _. None) (en_Unmarshal ?E) ''svc'' d = Returned (Inr (t, os))"
    using d by (fastforce simp: demo_call_defs)
  have "DialCredentials InsecureDial \<notin> set os"
    using registry_credentials_fit[of ?E ?r "demo_call_options [''reg'']" d GrpcRoundRobin demo_reg_obj 7 example_env "()" "\<lambda>_ _. None" t os] d os
    by (auto simp: demo_reg_obj_def demo_call_options_def serves_tls_def demo_client_env_def UnmarshalRegistryMeta_def)
  then show ?thesis using d os by blast
qed

end
