(* ===== verification/Dialer_Pool.thy ===== *)
theory Dialer_Pool
  imports Interceptor "HOL-Library.Multiset"
begin

text \<open>
  The pool of client connections, \<^verbatim>\<open>dialer/internal/pool/pool.go\<close>: a number of slots that are used in turn,
  each with at most one connection. A connection that is not ready is waited for, and one that stays
  unusable is closed and dialled anew.

  Connections belong to the package \<open>grpc\<close>; what a call sees of one is an argument: the states it
  reads and whether waiting for a change succeeded. A call in one slot runs inside a \<open>singleflight\<close> group, so
  the calls of one slot that find no ready connection are one call, and each call is one step here.
\<close>

section \<open>The state of a connection\<close>

datatype connectivity = Ready | Idle | TransientFailure | Connecting | Shutdown | InvalidState

definition codes_Unavailable :: int where
  "codes_Unavailable = 14"

text \<open>
  The loop of \<open>checkConnState\<close> over the states it reads, each with the answer of \<open>WaitForStateChange\<close>, which is
  false when the context is done. \<open>None\<close>: it is still waiting.
\<close>

fun checkConnState :: "(connectivity \<times> bool) list \<Rightarrow> status_error option option" where
  "checkConnState [] = None"
| "checkConnState ((state, changed) # obs) =
     (case state of
        Ready \<Rightarrow> Some None
      | Shutdown \<Rightarrow> Some (Some (Status codes_Unavailable ''checkConnState: cc.State == connectivity.Shutdown''))
      | InvalidState \<Rightarrow> Some (Some (Status codes_Internal ''checkConnState: invalid cc.State''))
      | _ \<Rightarrow> if changed then checkConnState obs else Some (Some (Status 4 ''conn-stat'')))"

section \<open>The pool\<close>

record 'cc cc_pool =
  cp_capacity :: nat
  cp_idx :: nat
  cp_ccs :: "'cc option list"
  cp_lastFail :: "int option list"

text \<open>A pool is made with \<open>PoolSize\<close> empty slots; a negative size panics.\<close>

definition new_pool :: "int \<Rightarrow> 'cc cc_pool option" where
  "new_pool poolSize =
     (if poolSize < 0 then None
      else Some \<lparr>cp_capacity = nat (poolSize mod 2 ^ 32), cp_idx = 0, cp_ccs = replicate (nat poolSize) None,
                 cp_lastFail = replicate (nat poolSize) None\<rparr>)"

text \<open>What a call finds: the states of a connection, the answer of the dialer, and the times it reads.\<close>

record 'cc dial_env =
  de_ready :: "'cc \<Rightarrow> bool"
  de_observe :: "'cc \<Rightarrow> (connectivity \<times> bool) list"
  de_dial :: "status_error + 'cc option"
  de_now :: int
  de_failTime :: int

datatype 'cc pool_event = Dialled 'cc | Closed 'cc

datatype 'cc dial_result = DialPanic | DialError status_error | Conn 'cc | Waiting

definition redialInterval :: int where
  "redialInterval = 5 * 60 * 1000000000"

text \<open>The time of the first failure is noted, if there is none yet; the zero time is \<open>None\<close>.\<close>

definition note_failure :: "int \<Rightarrow> nat \<Rightarrow> 'cc cc_pool \<Rightarrow> 'cc cc_pool" where
  "note_failure t i s = (if cp_lastFail s ! i = None then s\<lparr>cp_lastFail := (cp_lastFail s)[i := Some t]\<rparr> else s)"

definition may_redial :: "int \<Rightarrow> int option \<Rightarrow> bool" where
  "may_redial now lastFail = (case lastFail of None \<Rightarrow> True | Some t \<Rightarrow> t + redialInterval < now)"

text \<open>The end of the function in the group: a new connection for an empty slot.\<close>

definition dial_slot :: "'cc dial_env \<Rightarrow> nat \<Rightarrow> 'cc cc_pool \<Rightarrow> 'cc dial_result \<times> 'cc pool_event list \<times> 'cc cc_pool" where
  "dial_slot E i s =
     (let s1 = s\<lparr>cp_lastFail := (cp_lastFail s)[i := None]\<rparr>
      in case de_dial E of
           Inl e \<Rightarrow> (DialError e, [], note_failure (de_failTime E) i s1)
         | Inr None \<Rightarrow> (DialError (Status codes_Internal ''Dial returns nil cc.''), [], note_failure (de_failTime E) i s1)
         | Inr (Some newCC) \<Rightarrow>
             (let s2 = s1\<lparr>cp_ccs := (cp_ccs s1)[i := Some newCC]\<rparr>
              in case checkConnState (de_observe E newCC) of
                   None \<Rightarrow> (Waiting, [Dialled newCC], s2)
                 | Some None \<Rightarrow> (Conn newCC, [Dialled newCC], s2)
                 | Some (Some e) \<Rightarrow> (DialError e, [Dialled newCC], note_failure (de_failTime E) i s2)))"

definition group_slot :: "'cc dial_env \<Rightarrow> nat \<Rightarrow> 'cc cc_pool \<Rightarrow> 'cc dial_result \<times> 'cc pool_event list \<times> 'cc cc_pool" where
  "group_slot E i s =
     (case cp_ccs s ! i of
        None \<Rightarrow> dial_slot E i s
      | Some cc \<Rightarrow>
          (case checkConnState (de_observe E cc) of
             None \<Rightarrow> (Waiting, [], s)
           | Some None \<Rightarrow> (Conn cc, [], s)
           | Some (Some e) \<Rightarrow>
               if may_redial (de_now E) (cp_lastFail s ! i)
               then (case dial_slot E i (s\<lparr>cp_ccs := (cp_ccs s)[i := None]\<rparr>) of (r, ev, s') \<Rightarrow> (r, Closed cc # ev, s'))
               else (DialError e, [], note_failure (de_failTime E) i s)))"

definition Dial :: "'cc dial_env \<Rightarrow> 'cc cc_pool \<Rightarrow> 'cc dial_result \<times> 'cc pool_event list \<times> 'cc cc_pool" where
  "Dial E s =
     (let idx = (cp_idx s + 1) mod 2 ^ 32; s1 = s\<lparr>cp_idx := idx\<rparr>
      in if cp_capacity s = 0 then (DialPanic, [], s1)
         else (let i = idx mod cp_capacity s
               in case cp_ccs s ! i of
                    Some cc \<Rightarrow> if de_ready E cc then (Conn cc, [], s1) else group_slot E i s1
                  | None \<Rightarrow> group_slot E i s1))"

text \<open>\<open>Clear\<close> of one pool closes its connections and leaves them in their slots.\<close>

definition pool_Clear :: "'cc cc_pool \<Rightarrow> 'cc pool_event list" where
  "pool_Clear s = concat (map (\<lambda>c. case c of None \<Rightarrow> [] | Some cc \<Rightarrow> [Closed cc]) (cp_ccs s))"

section \<open>All pools\<close>

text \<open>
  \<open>WithPool\<close>: the pool of an identity, made when it is first asked for from the prepared options, of which only the
  size matters here. \<open>Clear\<close> closes all and forgets them.
\<close>

datatype 'cc with_pool = PoolError status_error | PoolPanic | GotPool "'cc cc_pool"

definition WithPool :: "(status_error + int) \<Rightarrow> string \<Rightarrow> (string \<times> 'cc cc_pool) list \<Rightarrow> 'cc with_pool \<times> (string \<times> 'cc cc_pool) list" where
  "WithPool prepared poolId pools =
     (case mget pools poolId of
        Some p \<Rightarrow> (GotPool p, pools)
      | None \<Rightarrow>
          (case prepared of
             Inl e \<Rightarrow> (PoolError e, pools)
           | Inr poolSize \<Rightarrow>
               (case new_pool poolSize of
                  None \<Rightarrow> (PoolPanic, pools)
                | Some p \<Rightarrow> (GotPool p, AList.update poolId p pools))))"

definition Clear_pools :: "(string \<times> 'cc cc_pool) list \<Rightarrow> 'cc pool_event list \<times> (string \<times> 'cc cc_pool) list" where
  "Clear_pools pools = (concat (map (\<lambda>p. pool_Clear (snd p)) pools), [])"

section \<open>Connections are neither lost nor closed twice\<close>

text \<open>The connections in the slots, and those a list of events dials and closes.\<close>

definition slot :: "'cc option \<Rightarrow> 'cc multiset" where
  "slot c = (case c of None \<Rightarrow> {#} | Some cc \<Rightarrow> {#cc#})"

definition live :: "'cc cc_pool \<Rightarrow> 'cc multiset" where
  "live s = sum_list (map slot (cp_ccs s))"

fun dialled :: "'cc pool_event \<Rightarrow> 'cc multiset" where
  "dialled (Dialled cc) = {#cc#}"
| "dialled (Closed cc) = {#}"

fun closed :: "'cc pool_event \<Rightarrow> 'cc multiset" where
  "closed (Dialled cc) = {#}"
| "closed (Closed cc) = {#cc#}"

definition all_dialled :: "'cc pool_event list \<Rightarrow> 'cc multiset" where
  "all_dialled ev = sum_list (map dialled ev)"

definition all_closed :: "'cc pool_event list \<Rightarrow> 'cc multiset" where
  "all_closed ev = sum_list (map closed ev)"

lemma slot_simps [simp]: "slot None = {#}" "slot (Some cc) = {#cc#}"
  by (simp_all add: slot_def)

lemma all_simps [simp]:
  "all_dialled [] = {#}" "all_dialled (e # ev) = dialled e + all_dialled ev" "all_dialled (ev @ ev') = all_dialled ev + all_dialled ev'"
  "all_closed [] = {#}" "all_closed (e # ev) = closed e + all_closed ev" "all_closed (ev @ ev') = all_closed ev + all_closed ev'"
  by (simp_all add: all_dialled_def all_closed_def)

lemma sum_slots_update:
  "i < length xs \<Longrightarrow> sum_list (map slot (xs[i := x])) + slot (xs ! i) = sum_list (map slot xs) + slot x"
proof (induction xs arbitrary: i)
  case (Cons y ys)
  then show ?case by (cases i) (simp_all add: ac_simps)
qed simp

lemma sum_slots_fill: "i < length xs \<Longrightarrow> xs ! i = None \<Longrightarrow> sum_list (map slot (xs[i := Some cc])) = sum_list (map slot xs) + {#cc#}"
  using sum_slots_update [of i xs "Some cc"] by simp

lemma sum_slots_clear: "i < length xs \<Longrightarrow> xs ! i = Some cc \<Longrightarrow> sum_list (map slot (xs[i := None])) + {#cc#} = sum_list (map slot xs)"
  using sum_slots_update [of i xs None] by simp

definition pool_ok :: "'cc cc_pool \<Rightarrow> bool" where
  "pool_ok s \<longleftrightarrow> 0 < cp_capacity s \<and> length (cp_ccs s) = cp_capacity s \<and> length (cp_lastFail s) = cp_capacity s"

text \<open>What one call keeps: the slots, the balance of connections, and that its result is a connection of a slot.\<close>

definition call_ok :: "'cc cc_pool \<Rightarrow> 'cc dial_result \<times> 'cc pool_event list \<times> 'cc cc_pool \<Rightarrow> bool" where
  "call_ok s o1 = (case o1 of (r, ev, s') \<Rightarrow>
     pool_ok s' \<and> cp_capacity s' = cp_capacity s \<and> all_dialled ev + live s = all_closed ev + live s' \<and> r \<noteq> DialPanic \<and>
     (\<forall>cc. r = Conn cc \<longrightarrow> Some cc \<in> set (cp_ccs s')))"

lemma note_failure_same [simp]:
  "cp_ccs (note_failure t i s) = cp_ccs s" "cp_capacity (note_failure t i s) = cp_capacity s"
  "length (cp_lastFail (note_failure t i s)) = length (cp_lastFail s)"
  by (simp_all add: note_failure_def)

lemma dial_slot_ok:
  assumes "pool_ok s" and "i < cp_capacity s" and "cp_ccs s ! i = None"
  shows "call_ok s (dial_slot E i s)"
proof -
  have i: "i < length (cp_ccs s)" using assms by (simp add: pool_ok_def)
  show ?thesis
    using assms sum_slots_fill [OF i assms(3)] i
    by (simp add: dial_slot_def Let_def call_ok_def pool_ok_def live_def set_update_memI ac_simps
        split: sum.split option.split)
qed

lemma group_slot_ok:
  assumes "pool_ok s" and "i < cp_capacity s"
  shows "call_ok s (group_slot E i s)"
proof (cases "cp_ccs s ! i")
  case None
  then show ?thesis using dial_slot_ok [OF assms] by (simp add: group_slot_def)
next
  case (Some cc)
  have i: "i < length (cp_ccs s)" using assms by (simp add: pool_ok_def)
  let ?s = "s\<lparr>cp_ccs := (cp_ccs s)[i := None]\<rparr>"
  have "call_ok ?s (dial_slot E i ?s)" using dial_slot_ok [of ?s i E] assms i by (simp add: pool_ok_def)
  moreover have "live s = live ?s + {#cc#}" using sum_slots_clear [OF i Some] by (simp add: live_def)
  moreover have "Some cc \<in> set (cp_ccs s)" using Some i nth_mem by metis
  ultimately show ?thesis
    using assms Some
    by (auto simp: group_slot_def call_ok_def pool_ok_def live_def ac_simps split: option.split prod.split)
qed

lemma Dial_ok:
  assumes "pool_ok s"
  shows "call_ok s (Dial E s)"
proof -
  let ?s = "s\<lparr>cp_idx := (cp_idx s + 1) mod 2 ^ 32\<rparr>"
  let ?i = "(cp_idx s + 1) mod 2 ^ 32 mod cp_capacity s"
  have s: "pool_ok ?s" "?i < cp_capacity ?s" using assms by (simp_all add: pool_ok_def)
  have "call_ok s (group_slot E ?i ?s)" using group_slot_ok [OF s] by (simp add: call_ok_def live_def)
  moreover have "Some cc \<in> set (cp_ccs s)" if "cp_ccs s ! ?i = Some cc" for cc
    using that s nth_mem [of ?i "cp_ccs s"] by (simp add: pool_ok_def)
  ultimately show ?thesis
    using assms by (auto simp: Dial_def Let_def call_ok_def pool_ok_def live_def split: option.split)
qed

fun dial_all :: "'cc dial_env list \<Rightarrow> 'cc cc_pool \<Rightarrow> 'cc pool_event list \<times> 'cc cc_pool" where
  "dial_all [] s = ([], s)"
| "dial_all (E # Es) s = (case Dial E s of (r, ev, s1) \<Rightarrow> (case dial_all Es s1 of (evs, s2) \<Rightarrow> (ev @ evs, s2)))"

lemma dial_all_ok:
  "pool_ok s \<Longrightarrow> dial_all Es s = (evs, s') \<Longrightarrow>
     pool_ok s' \<and> cp_capacity s' = cp_capacity s \<and> all_dialled evs + live s = all_closed evs + live s'"
proof (induction Es arbitrary: s evs)
  case (Cons E Es)
  obtain r ev s1 where d: "Dial E s = (r, ev, s1)" by (cases "Dial E s")
  obtain evs1 where a: "dial_all Es s1 = (evs1, s')" "evs = ev @ evs1" using Cons.prems(2) d by (cases "dial_all Es s1") auto
  have c: "pool_ok s1" "cp_capacity s1 = cp_capacity s" "all_dialled ev + live s = all_closed ev + live s1"
    using Dial_ok [OF Cons.prems(1), of E] d by (simp_all add: call_ok_def)
  have i: "pool_ok s'" "cp_capacity s' = cp_capacity s1" "all_dialled evs1 + live s1 = all_closed evs1 + live s'"
    using Cons.IH [OF c(1) a(1)] by simp_all
  have "all_dialled evs + live s = all_dialled evs1 + (all_dialled ev + live s)" by (simp add: a(2) ac_simps)
  also have "\<dots> = all_closed ev + (all_dialled evs1 + live s1)" by (simp add: c(3) ac_simps)
  also have "\<dots> = all_closed evs + live s'" by (simp add: i(3) a(2) ac_simps)
  finally show ?case using c i by simp
qed simp

lemma new_pool_ok:
  assumes "new_pool n = Some s" and "0 < n" and "n < 2 ^ 32"
  shows "pool_ok s \<and> cp_capacity s = nat n \<and> live s = {#}"
proof -
  have "n mod 2 ^ 32 = n" using assms by (intro mod_pos_pos_trivial) simp_all
  moreover have "sum_list (replicate k {#}) = {#}" for k by (induction k) simp_all
  ultimately show ?thesis using assms by (auto simp: new_pool_def pool_ok_def live_def)
qed

section \<open>Properties\<close>

text \<open>
  C10 (connections of a pool). A pool of \<open>n > 0\<close> slots keeps \<open>n\<close> slots and never panics, whatever calls are
  made and however the connections behave. At every moment each connection that was dialled is either in
  exactly one slot or has been closed exactly once, so none is lost; and a call that succeeds answers with a
  connection that is in a slot.
\<close>

theorem pool_keeps_connections:
  assumes "new_pool n = Some s0" and "0 < n" and "n < 2 ^ 32" and "dial_all Es s0 = (evs, s)" and "Dial E s = (r, ev, s')"
  shows "all_dialled (evs @ ev) = all_closed (evs @ ev) + live s' \<and> length (cp_ccs s') = nat n \<and> r \<noteq> DialPanic \<and>
    (\<forall>cc. r = Conn cc \<longrightarrow> Some cc \<in> set (cp_ccs s'))"
proof -
  have s0: "pool_ok s0" "cp_capacity s0 = nat n" "live s0 = {#}" using new_pool_ok [OF assms(1,2,3)] by simp_all
  have s: "pool_ok s" "cp_capacity s = nat n" "all_dialled evs = all_closed evs + live s"
    using dial_all_ok [OF s0(1) assms(4)] s0 by simp_all
  have c: "pool_ok s'" "cp_capacity s' = nat n" "all_dialled ev + live s = all_closed ev + live s'" "r \<noteq> DialPanic"
    "\<forall>cc. r = Conn cc \<longrightarrow> Some cc \<in> set (cp_ccs s')"
    using Dial_ok [OF s(1), of E] assms(5) s(2) by (simp_all add: call_ok_def)
  have "all_dialled (evs @ ev) = all_closed evs + (all_dialled ev + live s)" by (simp add: s(3) ac_simps)
  also have "\<dots> = all_closed (evs @ ev) + live s'" by (simp add: c(3) ac_simps)
  finally show ?thesis using c by (simp add: pool_ok_def)
qed

definition demo_dial_env :: "nat \<Rightarrow> bool \<Rightarrow> nat dial_env" where
  "demo_dial_env cc up =
     \<lparr>de_ready = (\<lambda>_. False), de_observe = (\<lambda>c. if c = cc \<and> up then [(Connecting, True), (Ready, True)] else [(Shutdown, False)]),
      de_dial = Inr (Some cc), de_now = 0, de_failTime = 0\<rparr>"

theorem pool_keeps_connections_witness:
  "case new_pool 1 of
     None \<Rightarrow> False
   | Some s0 \<Rightarrow>
       (case dial_all [demo_dial_env 7 True] s0 of
          (evs, s) \<Rightarrow>
            (case Dial (demo_dial_env 8 True) s of
               (r, ev, s') \<Rightarrow> r = Conn 8 \<and> ev = [Closed 7, Dialled 8] \<and> all_dialled (evs @ ev) = all_closed (evs @ ev) + live s'))"
proof -
  define s0 :: "nat cc_pool" where "s0 = \<lparr>cp_capacity = 1, cp_idx = 0, cp_ccs = [None], cp_lastFail = [None]\<rparr>"
  have n: "new_pool 1 = Some s0" by (simp add: new_pool_def s0_def)
  obtain evs s where a: "dial_all [demo_dial_env 7 True] s0 = (evs, s)" by (cases "dial_all [demo_dial_env 7 True] s0")
  obtain r ev s' where d: "Dial (demo_dial_env 8 True) s = (r, ev, s')" by (cases "Dial (demo_dial_env 8 True) s") auto
  have s: "s = \<lparr>cp_capacity = 1, cp_idx = 1, cp_ccs = [Some 7], cp_lastFail = [None]\<rparr>"
    using a by (auto simp: s0_def demo_dial_env_def Dial_def group_slot_def dial_slot_def Let_def)
  have "r = Conn 8 \<and> ev = [Closed 7, Dialled 8]"
    using d by (auto simp: s demo_dial_env_def Dial_def group_slot_def dial_slot_def may_redial_def Let_def)
  with pool_keeps_connections [OF n _ _ a d] show ?thesis by (simp only: n a d prod.case option.case) simp
qed

end
