(* ===== verification/Local_Registry.thy ===== *)
theory Local_Registry
  imports Interceptor
begin

text \<open>
  Calls between services of one process, \<^verbatim>\<open>memory_registry\<close>: the services that are registered with their wrapped
  methods, the checks on the type of a handler (\<^verbatim>\<open>internal/unary_wrapper.go\<close>, \<^verbatim>\<open>internal/streaming_wrapper.go\<close>),
  a call through a wrapper, the dialer that makes connections to the registry, and the conversion of errors
  (\<^verbatim>\<open>internal/utils.go\<close>).

  A wrapper is reached by the name of its service and by its aliases, which share it: the registry maps names to
  places in a heap. It is filled after the names are entered, so that a registration that fails is seen half done.
\<close>

section \<open>Errors of calls\<close>

datatype go_error = ErrEOF | ErrUnexpectedEOF | StatusErr int string | CtxDeadline | CtxCanceled | PlainErr string

fun Error :: "go_error \<Rightarrow> string" where
  "Error ErrEOF = ''EOF''"
| "Error ErrUnexpectedEOF = ''unexpected EOF''"
| "Error (StatusErr c m) = m"
| "Error CtxDeadline = ''context deadline exceeded''"
| "Error CtxCanceled = ''context canceled''"
| "Error (PlainErr m) = m"

definition codes_NotFound :: int where "codes_NotFound = 5"
definition codes_Canceled :: int where "codes_Canceled = 1"
definition codes_Unknown :: int where "codes_Unknown = 2"
definition codes_DeadlineExceeded :: int where "codes_DeadlineExceeded = 4"

definition ToRPCErr :: "go_error option \<Rightarrow> go_error option" where
  "ToRPCErr err =
     (case err of
        None \<Rightarrow> None
      | Some ErrEOF \<Rightarrow> Some ErrEOF
      | Some ErrUnexpectedEOF \<Rightarrow> Some (StatusErr codes_Internal (Error ErrUnexpectedEOF))
      | Some (StatusErr c m) \<Rightarrow> Some (StatusErr c m)
      | Some CtxDeadline \<Rightarrow> Some (StatusErr codes_DeadlineExceeded (Error CtxDeadline))
      | Some CtxCanceled \<Rightarrow> Some (StatusErr codes_Canceled (Error CtxCanceled))
      | Some (PlainErr m) \<Rightarrow> Some (StatusErr codes_Unknown m))"

section \<open>Types of handlers\<close>

text \<open>What the wrappers ask of a type: whether it is a pointer, whether it is a server stream, and its methods with
  the types of their arguments and results. The methods of the handler count their receiver.\<close>

datatype gtype = GType (g_ptr: bool) (g_stream: bool) (g_methods: "(string \<times> gtype list \<times> gtype list) list")

definition not_found :: go_error where
  "not_found = StatusErr codes_NotFound ''Not Found''"

definition CreateUnaryWrapper ::
  "(string \<times> gtype list \<times> gtype list) list \<Rightarrow> string \<Rightarrow> go_error + gtype \<times> gtype" where
  "CreateUnaryWrapper handlerType methodName =
     (case map_of handlerType methodName of
        None \<Rightarrow> Inl not_found
      | Some (ins, outs) \<Rightarrow>
          if length ins \<noteq> 3 \<or> length outs \<noteq> 2 then Inl not_found
          else if \<not> g_ptr (ins ! 2) then Inl not_found
          else if \<not> g_ptr (outs ! 0) then Inl not_found
          else Inr (ins ! 2, outs ! 0))"

text \<open>
  The types of a streaming method. The first argument of a method of the stream, or its first result, is read
  without a check: a method that has none panics. The check of the response looks at the request once more.
\<close>

definition first_of :: "gtype list \<Rightarrow> gtype outcome" where
  "first_of ts = (case ts of [] \<Rightarrow> Panicked (Some ''reflect: Func index out of bounds'') | t # _ \<Rightarrow> Returned t)"

definition stream_resp :: "gtype \<Rightarrow> string \<Rightarrow> gtype \<Rightarrow> (go_error + gtype option \<times> gtype option) outcome" where
  "stream_resp streamer send req =
     (case map_of (g_methods streamer) send of
        None \<Rightarrow> Returned (Inl not_found)
      | Some (sins, _) \<Rightarrow>
          (case first_of sins of
             Panicked v \<Rightarrow> Panicked v
           | Returned resp \<Rightarrow> Returned (if \<not> g_ptr req then Inl not_found else Inr (Some req, Some resp))))"

definition stream_req_resp :: "gtype \<Rightarrow> string \<Rightarrow> (go_error + gtype option \<times> gtype option) outcome" where
  "stream_req_resp streamer send =
     (if \<not> g_stream streamer then Returned (Inl not_found)
      else case map_of (g_methods streamer) ''Recv'' of
        None \<Rightarrow> Returned (Inl not_found)
      | Some (_, routs) \<Rightarrow>
          (case first_of routs of
             Panicked v \<Rightarrow> Panicked v
           | Returned req \<Rightarrow> if \<not> g_ptr req then Returned (Inl not_found) else stream_resp streamer send req))"

definition CreateStreamingWrapper ::
  "(string \<times> gtype list \<times> gtype list) list \<Rightarrow> string \<Rightarrow> bool \<Rightarrow> bool \<Rightarrow> (go_error + gtype option \<times> gtype option) outcome" where
  "CreateStreamingWrapper handlerType streamName serverStreams clientStreams =
     (case map_of handlerType streamName of
        None \<Rightarrow> Returned (Inl not_found)
      | Some (ins, outs) \<Rightarrow>
          if serverStreams \<and> \<not> clientStreams then
            (if length ins \<noteq> 3 \<or> length outs \<noteq> 1 then Returned (Inl not_found)
             else if \<not> g_ptr (ins ! 1) then Returned (Inl not_found)
             else if \<not> g_stream (ins ! 2) then Returned (Inl not_found)
             else stream_resp (ins ! 2) ''Send'' (ins ! 1))
          else if clientStreams \<and> \<not> serverStreams then
            (if length ins \<noteq> 2 \<or> length outs \<noteq> 1 then Returned (Inl not_found)
             else stream_req_resp (ins ! 1) ''SendAndClose'')
          else if serverStreams \<and> clientStreams then
            (if length ins \<noteq> 2 \<or> length outs \<noteq> 1 then Returned (Inl not_found)
             else stream_req_resp (ins ! 1) ''Send'')
          else Returned (Inr (None, None)))"

section \<open>Services\<close>

record 'u unary_wrapper =
  uw_method :: string
  uw_md :: 'u
  uw_types :: "gtype \<times> gtype"
  uw_recovery :: bool

record 't streaming_wrapper =
  sw_method :: string
  sw_sd :: 't
  sw_types :: "gtype option \<times> gtype option"
  sw_recovery :: bool

record ('u, 't) service_wrapper =
  sv_serviceName :: string
  sv_unary :: "(string \<times> 'u unary_wrapper) list"
  sv_streaming :: "(string \<times> 't streaming_wrapper) list"

record ('u, 't) service_info =
  si_ServiceName :: string
  si_HandlerType :: "(string \<times> gtype list \<times> gtype list) list"
  si_Methods :: "(string \<times> string \<times> 'u) list"
  si_Streams :: "(string \<times> string \<times> bool \<times> bool \<times> 't) list"

record reg_options =
  ro_aliasNames :: "string list"
  ro_aliasOnly :: bool

definition WithAliasNames :: "string list \<Rightarrow> reg_options \<Rightarrow> reg_options" where
  "WithAliasNames names opts = opts\<lparr>ro_aliasNames := names\<rparr>"

definition WithAliasOnly :: "bool \<Rightarrow> reg_options \<Rightarrow> reg_options" where
  "WithAliasOnly only opts = opts\<lparr>ro_aliasOnly := only\<rparr>"

record ('u, 't) local_registry =
  lr_srv :: "(string \<times> nat) list"
  lr_heap :: "('u, 't) service_wrapper list"

definition NewMemoryRegistry :: "('u, 't) local_registry" where
  "NewMemoryRegistry = \<lparr>lr_srv = [], lr_heap = []\<rparr>"

datatype reg_error = Duplicate string | MethodError go_error

fun add_aliases :: "string \<Rightarrow> nat \<Rightarrow> string list \<Rightarrow> (string \<times> nat) list \<Rightarrow> reg_error option \<times> (string \<times> nat) list" where
  "add_aliases name w [] srv = (None, srv)"
| "add_aliases name w (alias # rest) srv =
     (if trim_space alias = name then add_aliases name w rest srv
      else if map_of srv alias \<noteq> None then (Some (Duplicate alias), srv)
      else add_aliases name w rest (AList.update alias w srv))"

definition full_method :: "string \<Rightarrow> string \<Rightarrow> string" where
  "full_method serviceName name = ''/'' @ serviceName @ ''/'' @ name"

fun add_methods ::
  "bool \<Rightarrow> ('u, 't) service_info \<Rightarrow> (string \<times> string \<times> 'u) list \<Rightarrow> ('u, 't) service_wrapper
     \<Rightarrow> reg_error option \<times> ('u, 't) service_wrapper" where
  "add_methods recovery info [] w = (None, w)"
| "add_methods recovery info ((name, methodName, md) # rest) w =
     (let meth = full_method (si_ServiceName info) name
      in case CreateUnaryWrapper (si_HandlerType info) methodName of
           Inl e \<Rightarrow> (Some (MethodError e), w)
         | Inr types \<Rightarrow>
             add_methods recovery info rest
               (w\<lparr>sv_unary := AList.update meth \<lparr>uw_method = meth, uw_md = md, uw_types = types, uw_recovery = recovery\<rparr> (sv_unary w)\<rparr>))"

fun add_streams ::
  "bool \<Rightarrow> ('u, 't) service_info \<Rightarrow> (string \<times> string \<times> bool \<times> bool \<times> 't) list \<Rightarrow> ('u, 't) service_wrapper
     \<Rightarrow> reg_error option outcome \<times> ('u, 't) service_wrapper" where
  "add_streams recovery info [] w = (Returned None, w)"
| "add_streams recovery info ((name, streamName, ss, cs, sd) # rest) w =
     (let meth = full_method (si_ServiceName info) name
      in case CreateStreamingWrapper (si_HandlerType info) streamName ss cs of
           Panicked v \<Rightarrow> (Panicked v, w)
         | Returned (Inl e) \<Rightarrow> (Returned (Some (MethodError e)), w)
         | Returned (Inr types) \<Rightarrow>
             add_streams recovery info rest
               (w\<lparr>sv_streaming := AList.update meth \<lparr>sw_method = meth, sw_sd = sd, sw_types = types, sw_recovery = recovery\<rparr> (sv_streaming w)\<rparr>))"

text \<open>The names of a service: its own unless only the aliases are wanted, and the aliases.\<close>

definition enter_names :: "reg_options \<Rightarrow> string \<Rightarrow> nat \<Rightarrow> (string \<times> nat) list \<Rightarrow> reg_error option \<times> (string \<times> nat) list" where
  "enter_names opts name w srv =
     (if \<not> ro_aliasOnly opts then
        (if map_of srv name \<noteq> None then (Some (Duplicate name), srv)
         else add_aliases name w (ro_aliasNames opts) (AList.update name w srv))
      else add_aliases name w (ro_aliasNames opts) srv)"

definition fill_wrapper ::
  "bool \<Rightarrow> ('u, 't) service_info \<Rightarrow> ('u, 't) service_wrapper \<Rightarrow> reg_error option outcome \<times> ('u, 't) service_wrapper" where
  "fill_wrapper recovery info w =
     (case add_methods recovery info (si_Methods info) w of
        (Some e, w') \<Rightarrow> (Returned (Some e), w')
      | (None, w') \<Rightarrow> add_streams recovery info (si_Streams info) w')"

definition RegisterWithServiceInfo ::
  "bool \<Rightarrow> ('u, 't) service_info \<Rightarrow> (reg_options \<Rightarrow> reg_options) list \<Rightarrow> ('u, 't) local_registry
     \<Rightarrow> reg_error option outcome \<times> ('u, 't) local_registry" where
  "RegisterWithServiceInfo recovery info opt s =
     (let opts = fold (\<lambda>f x. f x) opt \<lparr>ro_aliasNames = [], ro_aliasOnly = False\<rparr>;
          w = length (lr_heap s);
          wrapper = \<lparr>sv_serviceName = si_ServiceName info, sv_unary = [], sv_streaming = []\<rparr>
      in case enter_names opts (si_ServiceName info) w (lr_srv s) of
           (Some e, srv) \<Rightarrow> (Returned (Some e), \<lparr>lr_srv = srv, lr_heap = lr_heap s @ [wrapper]\<rparr>)
         | (None, srv) \<Rightarrow>
             (case fill_wrapper recovery info wrapper of
                (r, wrapper') \<Rightarrow> (r, \<lparr>lr_srv = srv, lr_heap = lr_heap s @ [wrapper']\<rparr>)))"

definition UnregisterWithServiceInfo :: "('u, 't) service_info \<Rightarrow> string list \<Rightarrow> ('u, 't) local_registry \<Rightarrow> ('u, 't) local_registry" where
  "UnregisterWithServiceInfo info alias s =
     s\<lparr>lr_srv := fold AList.delete alias (AList.delete (si_ServiceName info) (lr_srv s))\<rparr>"

definition QueryServiceInfo :: "('u, 't) local_registry \<Rightarrow> string \<Rightarrow> ('u, 't) service_wrapper option" where
  "QueryServiceInfo s name = map_option (\<lambda>i. lr_heap s ! i) (map_of (lr_srv s) name)"

definition QueryUnary :: "('u, 't) local_registry \<Rightarrow> string \<Rightarrow> string \<Rightarrow> go_error + 'u unary_wrapper" where
  "QueryUnary s srvName meth =
     (case QueryServiceInfo s srvName of
        None \<Rightarrow> Inl (StatusErr codes_NotFound (''service '' @ srvName))
      | Some srv \<Rightarrow>
          (case map_of (sv_unary srv) meth of
             None \<Rightarrow> Inl (StatusErr codes_NotFound (''method '' @ meth))
           | Some m \<Rightarrow> Inr m))"

definition QueryStreaming :: "('u, 't) local_registry \<Rightarrow> string \<Rightarrow> string \<Rightarrow> go_error + 't streaming_wrapper" where
  "QueryStreaming s srvName meth =
     (case QueryServiceInfo s srvName of
        None \<Rightarrow> Inl (StatusErr codes_NotFound (''service '' @ srvName))
      | Some srv \<Rightarrow>
          (case map_of (sv_streaming srv) meth of
             None \<Rightarrow> Inl (StatusErr codes_NotFound (''method '' @ meth))
           | Some m \<Rightarrow> Inr m))"

section \<open>Calls\<close>

type_synonym local_md = "(string \<times> string list) list"

text \<open>
  The transport stream of a unary call: headers and trailers are kept as the lists of what was joined, or nowhere
  (\<open>None\<close>) if the caller does not ask for them.
\<close>

record mock_ts =
  ts_header :: "local_md list"
  ts_trailer :: "local_md list"
  ts_hdrSent :: bool

definition ts_SetHeader :: "local_md \<Rightarrow> mock_ts option \<Rightarrow> bool \<times> mock_ts option" where
  "ts_SetHeader md ts =
     (case ts of
        None \<Rightarrow> (True, None)
      | Some t \<Rightarrow> if ts_hdrSent t then (False, ts) else (True, Some (t\<lparr>ts_header := ts_header t @ [md]\<rparr>)))"

definition ts_SendHeader :: "local_md \<Rightarrow> mock_ts option \<Rightarrow> bool \<times> mock_ts option" where
  "ts_SendHeader md ts =
     (case ts of
        None \<Rightarrow> (True, None)
      | Some t \<Rightarrow> if ts_hdrSent t then (False, ts) else (True, Some (t\<lparr>ts_header := ts_header t @ [md], ts_hdrSent := True\<rparr>)))"

definition ts_SetTrailer :: "local_md \<Rightarrow> mock_ts option \<Rightarrow> mock_ts option" where
  "ts_SetTrailer md ts = map_option (\<lambda>t. t\<lparr>ts_trailer := ts_trailer t @ [md]\<rparr>) ts"

record call_ctx =
  cx_peer :: string
  cx_incoming :: "local_md option"
  cx_outgoing :: "local_md option"

datatype local_opt = OverridePeer "call_ctx \<Rightarrow> call_ctx" | HeaderOpt nat | TrailerOpt nat | PeerOpt nat | OtherOpt

definition GO_FRAMEWORK_TAG :: string where
  "GO_FRAMEWORK_TAG = ''go-framework-in-process''"

fun override_peer :: "local_opt list \<Rightarrow> bool \<times> call_ctx \<Rightarrow> bool \<times> call_ctx" where
  "override_peer [] s = s"
| "override_peer (OverridePeer f # rest) (_, ctx) = override_peer rest (True, f ctx)"
| "override_peer (_ # rest) s = override_peer rest s"

definition peer_ctx :: "local_opt list \<Rightarrow> call_ctx \<Rightarrow> call_ctx" where
  "peer_ctx opts ctx =
     (case override_peer opts (False, ctx) of (overridden, ctx') \<Rightarrow> if overridden then ctx' else ctx'\<lparr>cx_peer := GO_FRAMEWORK_TAG\<rparr>)"

text \<open>What the caller sends becomes what the handler receives, and is not sent on.\<close>

definition pass_metadata :: "call_ctx \<Rightarrow> call_ctx" where
  "pass_metadata ctx =
     (case cx_outgoing ctx of Some md \<Rightarrow> ctx\<lparr>cx_incoming := Some md, cx_outgoing := Some []\<rparr> | None \<Rightarrow> ctx)"

definition wants_header :: "local_opt list \<Rightarrow> bool" where
  "wants_header opts = list_ex (\<lambda>opt. case opt of HeaderOpt _ \<Rightarrow> True | TrailerOpt _ \<Rightarrow> True | _ \<Rightarrow> False) opts"

datatype out_value = OutHeader "local_md list" | OutTrailer "local_md list" | OutPeer string

fun out_values :: "mock_ts option \<Rightarrow> local_opt list \<Rightarrow> (nat \<times> out_value) list" where
  "out_values ts [] = []"
| "out_values ts (HeaderOpt a # rest) = (case ts of Some t \<Rightarrow> [(a, OutHeader (ts_header t))] | None \<Rightarrow> []) @ out_values ts rest"
| "out_values ts (TrailerOpt a # rest) = (case ts of Some t \<Rightarrow> [(a, OutTrailer (ts_trailer t))] | None \<Rightarrow> []) @ out_values ts rest"
| "out_values ts (PeerOpt a # rest) = (a, OutPeer GO_FRAMEWORK_TAG) # out_values ts rest"
| "out_values ts (_ # rest) = out_values ts rest"

text \<open>
  A handler reads its context and the request and works on the transport stream and a state of its own; the
  interceptor of the server is part of it. \<open>Invoke\<close> returns the response, the error and what it wrote to the
  addresses of the call options.
\<close>

type_synonym ('q, 'r, 's) unary_handler =
  "call_ctx \<Rightarrow> 'q \<Rightarrow> mock_ts option \<Rightarrow> 's \<Rightarrow> ('r option \<times> go_error option) outcome \<times> mock_ts option \<times> 's"

definition Invoke ::
  "bool \<Rightarrow> ('q, 'r, 's) unary_handler \<Rightarrow> call_ctx \<Rightarrow> 'q \<Rightarrow> local_opt list \<Rightarrow> 's
     \<Rightarrow> ('r option \<times> go_error option \<times> (nat \<times> out_value) list) outcome \<times> 's" where
  "Invoke recovery handler ctx req callOpts s =
     (let ctx1 = pass_metadata (peer_ctx callOpts ctx);
          ts = (if wants_header callOpts then Some \<lparr>ts_header = [], ts_trailer = [], ts_hdrSent = False\<rparr> else None)
      in case handler ctx1 req ts s of
           (Returned (resp, err), ts', s') \<Rightarrow> (Returned (resp, ToRPCErr err, out_values ts' callOpts), s')
         | (Panicked v, _, s') \<Rightarrow>
             if recovery then
               (Returned (None, (case v of Some m \<Rightarrow> Some (StatusErr codes_Internal (panic_message m)) | None \<Rightarrow> None), []), s')
             else (Panicked v, s'))"

definition UnaryInvoke ::
  "('u \<Rightarrow> ('q, 'r, 's) unary_handler) \<Rightarrow> ('u, 't) local_registry \<Rightarrow> string \<Rightarrow> string \<Rightarrow> call_ctx \<Rightarrow> 'q \<Rightarrow> local_opt list \<Rightarrow> 's
     \<Rightarrow> ('r option \<times> go_error option \<times> (nat \<times> out_value) list) outcome \<times> 's" where
  "UnaryInvoke handler_of r srvName meth ctx req callOpts s =
     (case QueryUnary r srvName meth of
        Inl e \<Rightarrow> (Returned (None, Some e, []), s)
      | Inr m \<Rightarrow> Invoke (uw_recovery m) (handler_of (uw_md m)) ctx req callOpts s)"

text \<open>
  What the goroutine of a stream does after its handler: the status, the values of the call options, and the end of
  the client's side. A panic that is recovered writes its status only; one that is not ends the process.
\<close>

datatype stream_action = DoWriteStatus "go_error option" | DoHeaderOut nat | DoTrailerOut nat | DoPeerOut nat | DoCloseSend | DoCrash

fun stream_outs :: "local_opt list \<Rightarrow> stream_action list" where
  "stream_outs [] = []"
| "stream_outs (HeaderOpt a # rest) = DoHeaderOut a # stream_outs rest"
| "stream_outs (TrailerOpt a # rest) = DoTrailerOut a # stream_outs rest"
| "stream_outs (PeerOpt a # rest) = DoPeerOut a # stream_outs rest"
| "stream_outs (_ # rest) = stream_outs rest"

definition stream_goroutine_end :: "bool \<Rightarrow> local_opt list \<Rightarrow> go_error option outcome \<Rightarrow> stream_action list" where
  "stream_goroutine_end recovery callOpts r =
     (case r of
        Returned err \<Rightarrow> [DoWriteStatus (ToRPCErr err)] @ stream_outs callOpts @ [DoCloseSend]
      | Panicked v \<Rightarrow>
          if recovery then
            (case v of
               Some m \<Rightarrow> [DoWriteStatus (ToRPCErr (Some (StatusErr codes_Internal (panic_message m))))]
             | None \<Rightarrow> [])
          else [DoCrash])"

section \<open>Connections\<close>

text \<open>
  A connection to the registry is made once for each target and kept; \<open>mk\<close> is \<open>hooks.MakeConnection\<close>, which
  builds it with reflection.
\<close>

record 'cc memory_dialer =
  mdl_ccs :: "(string \<times> 'cc) list"

datatype dial_error = ErrNotFound string | DialError string

definition makeConnection :: "(string \<Rightarrow> string + 'cc) \<Rightarrow> ('u, 't) local_registry \<Rightarrow> string \<Rightarrow> (string + 'cc) option" where
  "makeConnection mk r target = (case QueryServiceInfo r target of None \<Rightarrow> None | Some _ \<Rightarrow> Some (mk target))"

definition local_Dial :: "(string \<Rightarrow> string + 'cc) \<Rightarrow> ('u, 't) local_registry \<Rightarrow> string \<Rightarrow> 'cc memory_dialer \<Rightarrow> (dial_error + 'cc) \<times> 'cc memory_dialer" where
  "local_Dial mk r target s =
     (case map_of (mdl_ccs s) target of
        Some cc \<Rightarrow> (Inr cc, s)
      | None \<Rightarrow>
          (case makeConnection mk r target of
             None \<Rightarrow> (Inl (ErrNotFound target), s)
           | Some (Inl e) \<Rightarrow> (Inl (DialError e), s)
           | Some (Inr cc) \<Rightarrow> (Inr cc, s\<lparr>mdl_ccs := AList.update target cc (mdl_ccs s)\<rparr>)))"

text \<open>
  A unary call over such a connection runs in a goroutine and is left when the context is done: the call
  answers with what comes first.
\<close>

definition local_unary_call :: "ctx_err option \<Rightarrow> bool \<Rightarrow> ('r option \<times> go_error option) option \<Rightarrow> ('r option \<times> go_error option) option" where
  "local_unary_call ctxErr pickDone answer =
     (case (ctxErr, answer) of
        (None, None) \<Rightarrow> None
      | (None, Some (resp, None)) \<Rightarrow> Some (resp, None)
      | (None, Some (resp, Some e)) \<Rightarrow> Some (None, Some e)
      | (Some e, None) \<Rightarrow> Some (None, Some (case e of Canceled \<Rightarrow> CtxCanceled | DeadlineExceeded \<Rightarrow> CtxDeadline | OtherCtxError m \<Rightarrow> PlainErr m))
      | (Some e, Some (resp, err)) \<Rightarrow>
          if pickDone then Some (None, Some (case e of Canceled \<Rightarrow> CtxCanceled | DeadlineExceeded \<Rightarrow> CtxDeadline | OtherCtxError m \<Rightarrow> PlainErr m))
          else if err = None then Some (resp, None) else Some (None, err))"

section \<open>Registration and lookup\<close>

definition bounded_by :: "nat \<Rightarrow> (string \<times> nat) list \<Rightarrow> bool" where
  "bounded_by L srv \<longleftrightarrow> (\<forall>n i. map_of srv n = Some i \<longrightarrow> i < L)"

definition reg_inv :: "('u, 't) local_registry \<Rightarrow> bool" where
  "reg_inv s \<longleftrightarrow> bounded_by (length (lr_heap s)) (lr_srv s)"

text \<open>The names under which a registration enters its wrapper.\<close>

definition names_of :: "reg_options \<Rightarrow> string \<Rightarrow> string set" where
  "names_of opts name = {a \<in> set (ro_aliasNames opts). trim_space a \<noteq> name} \<union> (if ro_aliasOnly opts then {} else {name})"

lemma add_aliases_ok:
  "add_aliases name w as srv = (None, srv') \<Longrightarrow>
     map_of srv' = (\<lambda>n. if n \<in> set as \<and> trim_space n \<noteq> name then Some w else map_of srv n)
     \<and> (\<forall>n \<in> set as. trim_space n \<noteq> name \<longrightarrow> map_of srv n = None)"
proof (induction name w as srv rule: add_aliases.induct)
  case (2 name w a rest srv)
  then show ?case by (auto simp: update_conv' fun_eq_iff split: if_splits)
qed auto

lemma enter_names_ok:
  assumes "enter_names opts name w srv = (None, srv')"
  shows "map_of srv' = (\<lambda>n. if n \<in> names_of opts name then Some w else map_of srv n)"
    and "\<forall>n \<in> names_of opts name. map_of srv n = None"
  using assms add_aliases_ok [of name w "ro_aliasNames opts" srv srv']
    add_aliases_ok [of name w "ro_aliasNames opts" "AList.update name w srv" srv']
  by (auto simp: enter_names_def names_of_def update_conv' fun_eq_iff split: if_splits)

lemma full_method_inject [simp]: "full_method svc a = full_method svc b \<longleftrightarrow> a = b"
  by (simp add: full_method_def)

lemma add_methods_ok:
  assumes "add_methods recovery info ms w = (None, w')" "distinct (map fst ms)"
  shows "sv_streaming w' = sv_streaming w"
    and "(name, mn, md) \<in> set ms \<Longrightarrow>
      \<exists>types. CreateUnaryWrapper (si_HandlerType info) mn = Inr types
        \<and> map_of (sv_unary w') (full_method (si_ServiceName info) name)
          = Some \<lparr>uw_method = full_method (si_ServiceName info) name, uw_md = md, uw_types = types, uw_recovery = recovery\<rparr>"
    and "name \<notin> fst ` set ms \<Longrightarrow> map_of (sv_unary w') (full_method (si_ServiceName info) name)
        = map_of (sv_unary w) (full_method (si_ServiceName info) name)"
  using assms
proof (induction recovery info ms w arbitrary: name mn md rule: add_methods.induct)
  case (2 recovery info n0 mn0 md0 rest w)
  {
    case 1
    with 2 show ?case by (auto simp: Let_def split: sum.splits)
  next
    case 2
    with "2.IH" show ?case by (force simp: Let_def update_conv' split: sum.splits)
  next
    case 3
    with "2.IH" show ?case by (auto simp: Let_def update_conv' split: sum.splits)
  }
qed auto

lemma add_streams_ok:
  assumes "add_streams recovery info ss w = (Returned None, w')" "distinct (map fst ss)"
  shows "sv_unary w' = sv_unary w"
    and "(name, sn, a, b, sd) \<in> set ss \<Longrightarrow>
      \<exists>types. CreateStreamingWrapper (si_HandlerType info) sn a b = Returned (Inr types)
        \<and> map_of (sv_streaming w') (full_method (si_ServiceName info) name)
          = Some \<lparr>sw_method = full_method (si_ServiceName info) name, sw_sd = sd, sw_types = types, sw_recovery = recovery\<rparr>"
    and "name \<notin> fst ` set ss \<Longrightarrow> map_of (sv_streaming w') (full_method (si_ServiceName info) name)
        = map_of (sv_streaming w) (full_method (si_ServiceName info) name)"
  using assms
proof (induction recovery info ss w arbitrary: name sn a b sd rule: add_streams.induct)
  case (2 recovery info n0 sn0 a0 b0 sd0 rest w)
  {
    case 1
    with 2 show ?case by (auto simp: Let_def split: sum.splits outcome.splits)
  next
    case 2
    with "2.IH" show ?case by (force simp: Let_def update_conv' split: sum.splits outcome.splits)
  next
    case 3
    with "2.IH" show ?case by (auto simp: Let_def update_conv' split: sum.splits outcome.splits)
  }
qed auto

definition reg_opts :: "(reg_options \<Rightarrow> reg_options) list \<Rightarrow> reg_options" where
  "reg_opts opt = fold (\<lambda>f x. f x) opt \<lparr>ro_aliasNames = [], ro_aliasOnly = False\<rparr>"

lemma RegisterWithServiceInfo_ok:
  assumes "RegisterWithServiceInfo recovery info opt r = (Returned None, r')"
  obtains w' where "fill_wrapper recovery info \<lparr>sv_serviceName = si_ServiceName info, sv_unary = [], sv_streaming = []\<rparr> = (Returned None, w')"
    "lr_heap r' = lr_heap r @ [w']"
    "map_of (lr_srv r') = (\<lambda>n. if n \<in> names_of (reg_opts opt) (si_ServiceName info) then Some (length (lr_heap r)) else map_of (lr_srv r) n)"
    "\<forall>n \<in> names_of (reg_opts opt) (si_ServiceName info). map_of (lr_srv r) n = None"
  using assms enter_names_ok [of "reg_opts opt" "si_ServiceName info" "length (lr_heap r)" "lr_srv r"]
  by (fastforce simp: RegisterWithServiceInfo_def Let_def reg_opts_def [symmetric] split: prod.splits option.splits)

lemma fill_wrapper_ok:
  assumes "fill_wrapper recovery info w = (Returned None, w')" "distinct (map fst (si_Methods info))" "(name, mn, md) \<in> set (si_Methods info)"
    "distinct (map fst (si_Streams info))"
  shows "\<exists>types. map_of (sv_unary w') (full_method (si_ServiceName info) name)
          = Some \<lparr>uw_method = full_method (si_ServiceName info) name, uw_md = md, uw_types = types, uw_recovery = recovery\<rparr>"
proof -
  obtain w1 where w1: "add_methods recovery info (si_Methods info) w = (None, w1)"
    "add_streams recovery info (si_Streams info) w1 = (Returned None, w')"
    using assms(1) by (auto simp: fill_wrapper_def split: prod.splits option.splits)
  then show ?thesis using add_methods_ok(2) [OF w1(1) assms(2,3)] add_streams_ok(1) [OF w1(2) assms(4)] by auto
qed

lemma map_of_fold_delete: "map_of (fold AList.delete ks al) n = (if n \<in> set ks then None else map_of al n)"
  by (induction ks arbitrary: al) (auto simp: delete_conv')

lemma QueryServiceInfo_registered:
  assumes "RegisterWithServiceInfo recovery info opt r = (Returned None, r')" "reg_inv r"
  obtains w' where "fill_wrapper recovery info \<lparr>sv_serviceName = si_ServiceName info, sv_unary = [], sv_streaming = []\<rparr> = (Returned None, w')"
    "QueryServiceInfo r' = (\<lambda>n. if n \<in> names_of (reg_opts opt) (si_ServiceName info) then Some w' else QueryServiceInfo r n)"
    "\<forall>n \<in> names_of (reg_opts opt) (si_ServiceName info). QueryServiceInfo r n = None"
proof -
  obtain w' where w: "fill_wrapper recovery info \<lparr>sv_serviceName = si_ServiceName info, sv_unary = [], sv_streaming = []\<rparr> = (Returned None, w')"
    "lr_heap r' = lr_heap r @ [w']"
    "map_of (lr_srv r') = (\<lambda>n. if n \<in> names_of (reg_opts opt) (si_ServiceName info) then Some (length (lr_heap r)) else map_of (lr_srv r) n)"
    "\<forall>n \<in> names_of (reg_opts opt) (si_ServiceName info). map_of (lr_srv r) n = None"
    by (rule RegisterWithServiceInfo_ok [OF assms(1)])
  have "i < length (lr_heap r)" if "map_of (lr_srv r) n = Some i" for n i
    using assms(2) that by (auto simp: reg_inv_def bounded_by_def)
  then have "QueryServiceInfo r' = (\<lambda>n. if n \<in> names_of (reg_opts opt) (si_ServiceName info) then Some w' else QueryServiceInfo r n)"
    using w(2,3) by (intro ext) (auto simp: QueryServiceInfo_def nth_append map_option_case split: option.split)
  then show thesis using that w by (simp add: QueryServiceInfo_def)
qed

text \<open>The registry stays well formed, whether a registration succeeds or not.\<close>

lemma bounded_update: "bounded_by L srv \<Longrightarrow> w < L \<Longrightarrow> bounded_by L (AList.update a w srv)"
  by (auto simp: bounded_by_def update_conv')

lemma add_aliases_bounded: "bounded_by L srv \<Longrightarrow> w < L \<Longrightarrow> bounded_by L (snd (add_aliases name w as srv))"
  by (induction name w as srv rule: add_aliases.induct) (auto simp: bounded_update)

lemma reg_inv_register:
  assumes "reg_inv r"
  shows "reg_inv (snd (RegisterWithServiceInfo recovery info opt r))"
proof -
  have "bounded_by (Suc (length (lr_heap r))) (lr_srv r)"
    using assms by (auto simp: reg_inv_def bounded_by_def less_Suc_eq)
  then have "bounded_by (Suc (length (lr_heap r))) (snd (enter_names opts name (length (lr_heap r)) (lr_srv r)))" for opts name
    by (auto simp: enter_names_def add_aliases_bounded bounded_update)
  from this [of "reg_opts opt" "si_ServiceName info"] show ?thesis
    unfolding reg_inv_def RegisterWithServiceInfo_def Let_def reg_opts_def
    by (auto split: prod.splits option.splits)
qed

lemma reg_inv_unregister: "reg_inv r \<Longrightarrow> reg_inv (UnregisterWithServiceInfo info as r)"
  by (auto simp: reg_inv_def bounded_by_def UnregisterWithServiceInfo_def map_of_fold_delete delete_conv' split: if_splits)

lemma reg_inv_new: "reg_inv NewMemoryRegistry"
  by (simp add: reg_inv_def bounded_by_def NewMemoryRegistry_def)

text \<open>
  C15 (a local call reaches its handler). After a registration that succeeded, a unary call of one of its methods,
  by the name of the service or an alias, runs the handler of that method on the context of the caller with the
  metadata passed on, and answers with its response, its error as a status and the headers and trailers the caller
  asked for. The other names are as before, and unregistering the service and its aliases undoes the registration.
\<close>

theorem local_call_reaches_handler:
  assumes reg: "RegisterWithServiceInfo recovery info opt r = (Returned None, r')" "reg_inv r"
    and names: "distinct (map fst (si_Methods info))" "distinct (map fst (si_Streams info))"
    and meth: "(name, mn, md) \<in> set (si_Methods info)" "n \<in> names_of (reg_opts opt) (si_ServiceName info)"
    and run: "handler_of md (pass_metadata (peer_ctx callOpts ctx)) req
      (if wants_header callOpts then Some \<lparr>ts_header = [], ts_trailer = [], ts_hdrSent = False\<rparr> else None) s
      = (Returned (resp, err), ts', s')"
  shows "UnaryInvoke handler_of r' n (full_method (si_ServiceName info) name) ctx req callOpts s
      = (Returned (resp, ToRPCErr err, out_values ts' callOpts), s')
    \<and> (\<forall>m. m \<in> names_of (reg_opts opt) (si_ServiceName info) \<or> QueryServiceInfo r' m = QueryServiceInfo r m)
    \<and> (\<forall>m. m \<in> names_of (reg_opts opt) (si_ServiceName info) \<or> m \<notin> insert (si_ServiceName info) (set (ro_aliasNames (reg_opts opt)))
        \<longrightarrow> QueryServiceInfo (UnregisterWithServiceInfo info (ro_aliasNames (reg_opts opt)) r') m = QueryServiceInfo r m)"
proof -
  obtain w' where w: "fill_wrapper recovery info \<lparr>sv_serviceName = si_ServiceName info, sv_unary = [], sv_streaming = []\<rparr> = (Returned None, w')"
    "QueryServiceInfo r' = (\<lambda>n. if n \<in> names_of (reg_opts opt) (si_ServiceName info) then Some w' else QueryServiceInfo r n)"
    "\<forall>n \<in> names_of (reg_opts opt) (si_ServiceName info). QueryServiceInfo r n = None"
    by (rule QueryServiceInfo_registered [OF reg])
  obtain types where "map_of (sv_unary w') (full_method (si_ServiceName info) name)
      = Some \<lparr>uw_method = full_method (si_ServiceName info) name, uw_md = md, uw_types = types, uw_recovery = recovery\<rparr>"
    using fill_wrapper_ok [OF w(1) names(1) meth(1) names(2)] by blast
  then have "UnaryInvoke handler_of r' n (full_method (si_ServiceName info) name) ctx req callOpts s
      = (Returned (resp, ToRPCErr err, out_values ts' callOpts), s')"
    using meth(2) w(2) run by (simp add: UnaryInvoke_def QueryUnary_def Invoke_def)
  moreover have un: "QueryServiceInfo (UnregisterWithServiceInfo info (ro_aliasNames (reg_opts opt)) r') m =
      (if m \<in> set (ro_aliasNames (reg_opts opt)) \<or> m = si_ServiceName info then None else QueryServiceInfo r' m)" for m
    by (simp add: QueryServiceInfo_def UnregisterWithServiceInfo_def map_of_fold_delete delete_conv')
  moreover have "names_of (reg_opts opt) (si_ServiceName info) \<subseteq> insert (si_ServiceName info) (set (ro_aliasNames (reg_opts opt)))"
    by (auto simp: names_of_def)
  ultimately show ?thesis using w(2,3) by auto
qed

definition demo_service_info :: "(nat, nat) service_info" where
  "demo_service_info =
     \<lparr>si_ServiceName = ''svc'',
      si_HandlerType = [(''Get'', [GType True False [], GType False False [], GType True False []], [GType True False [], GType False False []])],
      si_Methods = [(''Get'', ''Get'', 7)], si_Streams = []\<rparr>"

definition demo_handler :: "nat \<Rightarrow> (nat, nat, nat) unary_handler" where
  "demo_handler k = (\<lambda>ctx req ts s.
     (Returned (Some (k + req), Some (PlainErr ''late'')), snd (ts_SendHeader [(''seen'', [cx_peer ctx])] ts), Suc s))"

theorem local_call_reaches_handler_witness:
  "UnaryInvoke demo_handler (snd (RegisterWithServiceInfo True demo_service_info [WithAliasNames [''other'']] NewMemoryRegistry)) ''other'' ''/svc/Get''
     \<lparr>cx_peer = '''', cx_incoming = None, cx_outgoing = None\<rparr> 5 [HeaderOpt 3] 0
   = (Returned (Some 12, Some (StatusErr 2 ''late''), [(3, OutHeader [[(''seen'', [GO_FRAMEWORK_TAG])]])]), 1)"
proof -
  let ?r = "RegisterWithServiceInfo True demo_service_info [WithAliasNames [''other'']] NewMemoryRegistry"
  have reg: "?r = (Returned None, snd ?r)" by code_simp
  have "''other'' \<in> names_of (reg_opts [WithAliasNames [''other'']]) (si_ServiceName demo_service_info)" by code_simp
  moreover have "full_method (si_ServiceName demo_service_info) ''Get'' = ''/svc/Get''" by code_simp
  ultimately show ?thesis
    using local_call_reaches_handler [OF reg reg_inv_new, of "''Get''" "''Get''" 7 "''other''" demo_handler "[HeaderOpt 3]"
      "\<lparr>cx_peer = '''', cx_incoming = None, cx_outgoing = None\<rparr>" 5 0]
    by (simp add: demo_service_info_def demo_handler_def wants_header_def ts_SendHeader_def peer_ctx_def pass_metadata_def ToRPCErr_def
      codes_Unknown_def)
qed

text \<open>Every error of a call is a status or the end of a stream, and a status is not converted again.\<close>

lemma ToRPCErr_form: "ToRPCErr err = None \<or> ToRPCErr err = Some ErrEOF \<or> (\<exists>c m. ToRPCErr err = Some (StatusErr c m))"
  by (auto simp: ToRPCErr_def split: option.splits go_error.splits)

lemma ToRPCErr_idem: "ToRPCErr (ToRPCErr err) = ToRPCErr err"
  by (auto simp: ToRPCErr_def split: option.splits go_error.splits)

text \<open>A registration that finds an alias taken leaves the name of its service entered, without a method.\<close>

lemma failed_registration_stays:
  assumes "enter_names (reg_opts opt) (si_ServiceName info) (length (lr_heap r)) (lr_srv r) = (Some e, srv)"
    "map_of srv (si_ServiceName info) = Some (length (lr_heap r))"
    "RegisterWithServiceInfo recovery info opt r = (res, r')"
  shows "res = Returned (Some e) \<and> (\<exists>m. QueryUnary r' (si_ServiceName info) meth = Inl (StatusErr codes_NotFound (''method '' @ m)))
    \<and> fst (RegisterWithServiceInfo recovery info [] r') = Returned (Some (Duplicate (si_ServiceName info)))"
proof -
  let ?w = "\<lparr>sv_serviceName = si_ServiceName info, sv_unary = [], sv_streaming = []\<rparr>"
  have "res = Returned (Some e)" and r': "r' = \<lparr>lr_srv = srv, lr_heap = lr_heap r @ [?w]\<rparr>"
    using assms(1,3) by (simp_all add: RegisterWithServiceInfo_def Let_def reg_opts_def)
  moreover have "QueryUnary r' (si_ServiceName info) meth = Inl (StatusErr codes_NotFound (''method '' @ meth))"
    using assms(2) by (simp add: r' QueryUnary_def QueryServiceInfo_def)
  moreover have "fst (RegisterWithServiceInfo recovery info [] r') = Returned (Some (Duplicate (si_ServiceName info)))"
    using assms(2) by (simp add: r' RegisterWithServiceInfo_def enter_names_def Let_def)
  ultimately show ?thesis by blast
qed

text \<open>Unregistering a service that was registered under its aliases only deletes the entry of its name as well.\<close>

lemma alias_only_unregister_deletes: "QueryServiceInfo (UnregisterWithServiceInfo info as r) (si_ServiceName info) = None"
  by (simp add: QueryServiceInfo_def UnregisterWithServiceInfo_def map_of_fold_delete delete_conv')

text \<open>A connection that was made is answered for ever, also after its service has gone.\<close>

lemma dial_keeps_connection:
  "fst (local_Dial mk r target s) = Inr cc \<Longrightarrow> local_Dial mk r' target (snd (local_Dial mk r target s)) = (Inr cc, snd (local_Dial mk r target s))"
  by (auto simp: local_Dial_def update_conv' split: option.splits sum.splits)

text \<open>
  The goroutine of a stream writes one status, unless its handler panics with nil or the process ends; the client's
  side is not closed after a panic, and the values of the call options are not set then.
\<close>

lemma stream_goroutine_status:
  "length (filter (\<lambda>a. \<exists>e. a = DoWriteStatus e) (stream_goroutine_end recovery callOpts r))
     = (case r of Returned _ \<Rightarrow> 1 | Panicked v \<Rightarrow> if recovery \<and> v \<noteq> None then 1 else 0)"
proof -
  have "filter (\<lambda>a. \<exists>e. a = DoWriteStatus e) (stream_outs callOpts) = []" by (induction callOpts rule: stream_outs.induct) auto
  then show ?thesis by (auto simp: stream_goroutine_end_def split: outcome.splits option.splits)
qed

end
