(* ===== verification/Lifecycle.thy ===== *)
theory Lifecycle
  imports Prelude "HOL-Library.Multiset"
begin

text \<open>
  The life cycle of the program, \<^verbatim>\<open>lifecycle/lifecycle.go\<close> and \<^verbatim>\<open>lifecycle/option.go\<close>, and the start of the
  framework, \<^verbatim>\<open>framework.go\<close> and \<^verbatim>\<open>option.go\<close>. Hooks run in groups of one priority, the highest first. The hooks
  of a group run side by side, so a group is a list whose order only says which timeout limits the group.

  A hook is the function it was given, of type \<open>'f\<close>, or something that is no function.
\<close>

section \<open>Hooks\<close>

record hook_options =
  hk_name :: string
  hk_priority :: int
  hk_timeout :: int

type_synonym hook_option = "hook_options \<Rightarrow> hook_options"

definition WithName :: "string \<Rightarrow> hook_option" where
  "WithName name opts = opts\<lparr>hk_name := name\<rparr>"

definition generateOptions :: "hook_option list \<Rightarrow> hook_options" where
  "generateOptions opt = fold (\<lambda>o1. o1) opt \<lparr>hk_name = '''', hk_priority = 0, hk_timeout = 10 * 1000000000\<rparr>"

record 'f hook_func = hook_options +
  hk_fn :: "'f option"

definition new_hook :: "'f \<Rightarrow> hook_option list \<Rightarrow> 'f hook_func" where
  "new_hook hook opt = hook_options.extend (generateOptions opt) \<lparr>hk_fn = Some hook\<rparr>"

text \<open>
  What a hook does when it runs in time: it checks that it is a function, and logs when it is not. The list is that of
  the functions it calls.
\<close>

datatype 'f hook_effect = HookInvalid | HookReturned "'f list"

definition hook_run :: "'f hook_func \<Rightarrow> 'f hook_effect" where
  "hook_run h = (case hk_fn h of None \<Rightarrow> HookInvalid | Some f \<Rightarrow> HookReturned [])"

text \<open>
  \<open>runHooks\<close>: the hooks are ordered by their time-outs in milliseconds, grouped by their priorities, and the groups
  ordered by these. Hooks with equal time-outs keep their order here; the package \<open>go-linq\<close> may exchange them.
\<close>

definition timeout_ms :: "'f hook_func \<Rightarrow> int" where
  "timeout_ms h = hk_timeout h div 1000000"

definition by_timeout :: "'f hook_func list \<Rightarrow> 'f hook_func list" where
  "by_timeout hooks = sort_key (\<lambda>h. - timeout_ms h) hooks"

definition group_hooks :: "'f hook_func list \<Rightarrow> (int \<times> 'f hook_func list) list" where
  "group_hooks hooks = map (\<lambda>p. (p, filter (\<lambda>h. hk_priority h = p) hooks)) (remdups (map hk_priority hooks))"

definition hook_groups :: "'f hook_func list \<Rightarrow> (int \<times> 'f hook_func list) list" where
  "hook_groups hooks = sort_key (\<lambda>g. - fst g) (group_hooks (by_timeout hooks))"

definition runHooks :: "'f hook_func list \<Rightarrow> 'f hook_effect list list" where
  "runHooks hooks = map (\<lambda>g. map hook_run (snd g)) (hook_groups hooks)"

text \<open>The time a group is given: that of its first hook, and no more than is left of the whole.\<close>

definition group_timeout :: "int \<Rightarrow> int \<times> 'f hook_func list \<Rightarrow> int" where
  "group_timeout left g = min left (hk_timeout (hd (snd g)))"

section \<open>The life cycle\<close>

record 'f life_cycle =
  lf_onceInitialize :: bool
  lf_onceFinalize :: bool
  lf_initializeHooks :: "'f hook_func list"
  lf_finalizeHooks :: "'f hook_func list"
  lf_initialized :: nat
  lf_hooksTimeout :: int
  lf_finalizing :: bool

definition new_life_cycle :: "'f life_cycle" where
  "new_life_cycle =
     \<lparr>lf_onceInitialize = False, lf_onceFinalize = False, lf_initializeHooks = [], lf_finalizeHooks = [], lf_initialized = 0,
      lf_hooksTimeout = 30 * 1000000000, lf_finalizing = False\<rparr>"

definition IsInitialized :: "'f life_cycle \<Rightarrow> bool" where
  "IsInitialized l \<longleftrightarrow> lf_initialized l = 1"

definition Initialize :: "int \<Rightarrow> 'f life_cycle \<Rightarrow> 'f hook_effect list list \<times> 'f life_cycle" where
  "Initialize timeout l =
     (if lf_onceInitialize l then ([], l)
      else (runHooks (lf_initializeHooks l),
            l\<lparr>lf_onceInitialize := True, lf_hooksTimeout := (if timeout \<noteq> 0 then timeout else lf_hooksTimeout l)\<rparr>))"

definition Finalize :: "'f life_cycle \<Rightarrow> 'f hook_effect list list \<times> 'f life_cycle" where
  "Finalize l =
     (if lf_onceFinalize l then ([], l)
      else (runHooks (lf_finalizeHooks l), l\<lparr>lf_onceFinalize := True, lf_finalizing := True\<rparr>))"

definition HookFinalize :: "'f \<Rightarrow> hook_option list \<Rightarrow> 'f life_cycle \<Rightarrow> 'f life_cycle" where
  "HookFinalize hook opt l = l\<lparr>lf_finalizeHooks := lf_finalizeHooks l @ [new_hook hook opt]\<rparr>"

section \<open>The framework\<close>

text \<open>
  \<open>Init\<close>, once: the options, the configuration, which \<open>prepare\<close> stands for, and the hooks. \<open>None\<close> is the end of the
  program after an option that failed. The goroutine that waits for a signal finalizes as \<open>Finalize\<close> does, and the one
  that frees memory changes no state.
\<close>

record 'o init_state =
  is_once :: bool
  is_initialized :: bool
  is_options :: 'o

fun apply_init_options :: "('o \<Rightarrow> 'o option) list \<Rightarrow> 'o \<Rightarrow> 'o option" where
  "apply_init_options [] opts = Some opts"
| "apply_init_options (f # fs) opts = (case f opts of None \<Rightarrow> None | Some opts' \<Rightarrow> apply_init_options fs opts')"

definition Init ::
  "('o \<Rightarrow> 'o option) list \<Rightarrow> ('o \<Rightarrow> 'o option) list \<Rightarrow> 'o \<Rightarrow> ('o \<Rightarrow> int) \<Rightarrow> 'o init_state \<Rightarrow> 'f life_cycle \<Rightarrow>
   ('f hook_effect list list \<times> 'o init_state \<times> 'f life_cycle) option" where
  "Init presetOpt opt zero timeout s l =
     (if is_once s then Some ([], s, l)
      else (case apply_init_options (presetOpt @ opt) zero of
        None \<Rightarrow> None
      | Some opts \<Rightarrow>
          (case Initialize (timeout opts) l of (effects, l') \<Rightarrow>
             Some (effects, s\<lparr>is_once := True, is_initialized := True, is_options := opts\<rparr>, l'))))"

section \<open>Every hook runs once, by priority\<close>

datatype 'f life_op = OpInitialize int | OpFinalize | OpHookFinalize 'f "hook_option list"

fun life_step :: "'f life_op \<Rightarrow> 'f life_cycle \<Rightarrow> 'f life_cycle" where
  "life_step (OpInitialize t) l = snd (Initialize t l)"
| "life_step OpFinalize l = snd (Finalize l)"
| "life_step (OpHookFinalize f opt) l = HookFinalize f opt l"

lemma hooks_grouped: "mset (concat (map snd (group_hooks hooks))) = mset hooks"
proof -
  have "mset (concat (map (\<lambda>p. filter (\<lambda>h. hk_priority h = p) hooks) ps)) = filter_mset (\<lambda>h. hk_priority h \<in> set ps) (mset hooks)"
    if "distinct ps" for ps
    using that
  proof (induction ps)
    case (Cons p ps)
    then have "filter_mset (\<lambda>h. hk_priority h = p) (mset hooks) + filter_mset (\<lambda>h. hk_priority h \<in> set ps) (mset hooks) =
        filter_mset (\<lambda>h. hk_priority h \<in> set (p # ps)) (mset hooks)"
      by (intro multiset_eqI) auto
    then show ?case using Cons by simp
  qed simp
  from this[of "remdups (map hk_priority hooks)"]
  have "mset (concat (map snd (group_hooks hooks))) = filter_mset (\<lambda>h. hk_priority h \<in> hk_priority ` set hooks) (mset hooks)"
    by (simp add: group_hooks_def comp_def)
  also have "\<dots> = mset hooks" by (rule filter_mset_eq_conv[THEN iffD2]) auto
  finally show ?thesis .
qed

lemma mset_concat_snd: "mset gs = mset gs' \<Longrightarrow> mset (concat (map snd gs)) = mset (concat (map snd gs'))"
proof -
  assume "mset gs = mset gs'"
  then have "sum_mset (image_mset (\<lambda>g. mset (snd g)) (mset gs)) = sum_mset (image_mset (\<lambda>g. mset (snd g)) (mset gs'))" by simp
  then show ?thesis by (simp add: mset_concat comp_def flip: sum_mset_sum_list)
qed

lemma groups_one_priority: "(p, hs) \<in> set (group_hooks hooks) \<Longrightarrow> h \<in> set hs \<Longrightarrow> hk_priority h = p"
  by (auto simp: group_hooks_def)

lemma group_keys_distinct: "distinct (map fst (group_hooks hooks))"
  by (simp add: group_hooks_def comp_def)

lemma strictly_down:
  fixes ps :: "int list"
  shows "distinct ps \<Longrightarrow> sorted_wrt (\<lambda>p q. q \<le> p) ps \<Longrightarrow> sorted_wrt (\<lambda>p q. q < p) ps"
  by (induction ps) (auto simp: order_less_le)

text \<open>
  Hooks run once, by priority. The groups that run contain every hook exactly once; a group has one priority, and
  every group has a higher one than those that run after it.
\<close>

theorem hooks_run_by_priority:
  "mset (concat (map snd (hook_groups hooks))) = mset hooks \<and>
   list_all (\<lambda>(p, hs). list_all (\<lambda>h. hk_priority h = p) hs) (hook_groups hooks) \<and>
   sorted_wrt (\<lambda>p q. q < p) (map fst (hook_groups hooks))"
proof (intro conjI)
  have m: "mset (hook_groups hooks) = mset (group_hooks (by_timeout hooks))" by (simp add: hook_groups_def)
  show "mset (concat (map snd (hook_groups hooks))) = mset hooks"
    using mset_concat_snd[OF m] hooks_grouped[of "by_timeout hooks"] by (simp add: by_timeout_def)
  have "set (hook_groups hooks) = set (group_hooks (by_timeout hooks))" using m by (rule mset_eq_setD)
  then show "list_all (\<lambda>(p, hs). list_all (\<lambda>h. hk_priority h = p) hs) (hook_groups hooks)"
    using groups_one_priority[of _ _ "by_timeout hooks"] by (auto simp: list_all_iff)
  have "mset (map fst (hook_groups hooks)) = mset (map fst (group_hooks (by_timeout hooks)))" using m by simp
  then have "distinct (map fst (hook_groups hooks))"
    using group_keys_distinct[of "by_timeout hooks"] by (metis mset_eq_imp_distinct_iff)
  moreover have "sorted (map (\<lambda>g. - fst g) (hook_groups hooks))" by (simp add: hook_groups_def)
  then have "sorted_wrt (\<lambda>p q. q \<le> p) (map fst (hook_groups hooks))" by (simp add: sorted_wrt_map)
  ultimately show "sorted_wrt (\<lambda>p q. q < p) (map fst (hook_groups hooks))"
    by (rule strictly_down)
qed

text \<open>Running a hook calls none of the functions it was made of, and nothing ever marks the life cycle as initialized.\<close>

lemma hooks_never_called: "HookReturned fs \<in> set (concat (runHooks hooks)) \<Longrightarrow> fs = []"
  by (auto simp: runHooks_def hook_run_def split: option.splits)

lemma life_step_initialized: "lf_initialized (life_step a l) = lf_initialized l"
  by (cases a) (simp_all add: Initialize_def Finalize_def HookFinalize_def)

lemma never_initialized: "\<not> IsInitialized (fold life_step ops new_life_cycle)"
proof -
  have "lf_initialized (fold life_step ops l) = lf_initialized l" for l :: "'a life_cycle"
    by (induction ops arbitrary: l) (simp_all add: life_step_initialized)
  then show ?thesis by (simp add: IsInitialized_def new_life_cycle_def)
qed

end
