(* ===== verification/Client_Call.thy ===== *)
theory Client_Call
  imports Call_Options Dialer_Pool Local_Registry Lifecycle
begin

text \<open>
  A call of a client, \<^verbatim>\<open>dialer/dialer.go\<close> and \<^verbatim>\<open>dialer/internal/memory_dialer/memory_dialer.go\<close>: the options of the
  call are prepared, a connection to a service of the same process is tried, and otherwise one from the pool; then the
  call runs through its interceptors. The connections are those of the packages \<open>grpc\<close> and \<open>hooks\<close>, of type \<open>'cc\<close>.
\<close>

section \<open>Dialling\<close>

text \<open>
  What the world of a call gives: the defaults and the registered dial options, the services of the process with the
  maker of their connections, certificates, resolvers, \<open>grpc.DialContext\<close>, and what the pool sees of connections.
\<close>

record ('w, 'ip, 'c, 'p, 'x, 'u, 't, 'cc) call_env =
  ve_env :: "('c, 'x) client_env"
  ve_dialOptions :: "('w, 'ip, 'c, 'p, 'x) dial_registry"
  ve_local :: "('u, 't) local_registry"
  ve_mk :: "string \<Rightarrow> string + 'cc"
  ve_x509 :: "('w, 'ip) x509_env"
  ve_now :: 'w
  ve_with_option :: "'x \<Rightarrow> (meta_value inst \<Rightarrow> bool) \<Rightarrow> (string + 'x) option"
  ve_dial :: "string \<Rightarrow> ('w, 'ip, 'c, 'p, 'x) grpc_dial_opt list \<Rightarrow> status_error + 'cc option"
  ve_pool :: "'cc dial_env"
  ve_memory :: "'cc \<Rightarrow> bool"
  ve_tracer :: "'x option"
  ve_metrics :: bool

text \<open>The state: that of the options, the connections to local services, and the pools with the options they were made of.\<close>

record ('w, 'ip, 'c, 'p, 'x, 'cc) call_world =
  cw_client :: client_state
  cw_memory :: "'cc memory_dialer"
  cw_pools :: "(string \<times> 'cc cc_pool) list"
  cw_info :: "(string \<times> string \<times> ('w, 'ip, 'c, 'p, 'x) dial_options) list"

definition memory_dialer_Dial ::
  "('w, 'ip, 'c, 'p, 'x, 'u, 't, 'cc) call_env \<Rightarrow> ('x, 'o) call_options \<Rightarrow> 'cc memory_dialer \<Rightarrow> (dial_error + 'cc option) \<times> 'cc memory_dialer" where
  "memory_dialer_Dial V callOpts s =
     (if \<not> cl_UseInProcDial callOpts then (Inr None, s)
      else (case local_Dial (ve_mk V) (ve_local V) (cl_Target callOpts) s of
        (Inl e, s') \<Rightarrow> (Inl e, s')
      | (Inr cc, s') \<Rightarrow> (Inr (Some cc), s')))"

text \<open>
  \<open>WithPool\<close> leaves a transformer in the cell of the options: the one of the registry of the pool, or one that panics
  when there is no pool.
\<close>

definition set_transformer :: "nat \<Rightarrow> transformer \<Rightarrow> client_state \<Rightarrow> client_state" where
  "set_transformer i f st = st\<lparr>ct_cells := (ct_cells st)[i := f]\<rparr>"

definition call_WithPool ::
  "('w, 'ip, 'c, 'p, 'x, 'u, 't, 'cc) call_env \<Rightarrow> ('x, 'o) call_options \<Rightarrow> ('w, 'ip, 'c, 'p, 'x, 'cc) call_world \<Rightarrow>
   'cc with_pool \<times> ('w, 'ip, 'c, 'p, 'x, 'cc) call_world" where
  "call_WithPool V callOpts s =
     (let poolId = PoolIdentity callOpts;
          prepared = PrepareDialOption (ve_env V) (ve_dialOptions V) callOpts;
          i = cl_TargetTransformer callOpts
      in case WithPool (map_sum OtherError do_PoolSize prepared) poolId (cw_pools s) of
           (GotPool p, pools) \<Rightarrow>
             (let info = (if mget (cw_pools s) poolId = None
                          then (case prepared of Inr d \<Rightarrow> AList.update poolId (cl_Target callOpts, d) (cw_info s) | Inl e \<Rightarrow> cw_info s)
                          else cw_info s)
              in (GotPool p,
                  s\<lparr>cw_pools := pools, cw_info := info,
                    cw_client := set_transformer i
                      (\<lambda>target. case map_of info poolId of None \<Rightarrow> None | Some (t, d) \<Rightarrow> Some (registry_Target (do_Registry d) target)) (cw_client s)\<rparr>))
         | (r, pools) \<Rightarrow> (r, s\<lparr>cw_pools := pools, cw_client := set_transformer i (\<lambda>target. None) (cw_client s)\<rparr>))"

datatype 'cc conn_result = ConnPanic | ConnError go_error | GotConn 'cc | ConnWaiting

definition go_error_of :: "status_error \<Rightarrow> go_error" where
  "go_error_of e = (case e of Status c m \<Rightarrow> StatusErr c m | OtherError m \<Rightarrow> PlainErr m)"

text \<open>
  The pool dials with the target and the options it was made of. A balancer that cannot be built panics in the
  goroutine of the dialler, which ends the program.
\<close>

definition nil_provider :: status_error where
  "nil_provider = OtherError ''invalid memory address or nil pointer dereference''"

definition pool_dialer ::
  "('w, 'ip, 'c, 'p, 'x, 'u, 't, 'cc) call_env \<Rightarrow> string \<times> ('w, 'ip, 'c, 'p, 'x) dial_options \<Rightarrow> status_error + 'cc option" where
  "pool_dialer V i =
     (case dialer_Dial (ve_x509 V) (ve_now V) (ve_with_option V) (en_Unmarshal (ve_env V)) (fst i) (snd i) of
        Panicked m \<Rightarrow> Inl nil_provider
      | Returned (Inl e) \<Rightarrow> Inl (OtherError e)
      | Returned (Inr (target, opts)) \<Rightarrow> ve_dial V target opts)"

definition dial_pool ::
  "('w, 'ip, 'c, 'p, 'x, 'u, 't, 'cc) call_env \<Rightarrow> string \<Rightarrow> 'cc cc_pool \<Rightarrow> ('w, 'ip, 'c, 'p, 'x, 'cc) call_world \<Rightarrow>
   'cc conn_result \<times> ('w, 'ip, 'c, 'p, 'x, 'cc) call_world" where
  "dial_pool V poolId p s =
     (case map_of (cw_info s) poolId of
        None \<Rightarrow> (ConnPanic, s)
      | Some i \<Rightarrow>
          (case Dialer_Pool.Dial ((ve_pool V)\<lparr>de_dial := pool_dialer V i\<rparr>) p of
             (r, ev, p') \<Rightarrow>
               (case r of
                  DialPanic \<Rightarrow> ConnPanic
                | Dialer_Pool.DialError e \<Rightarrow> if e = nil_provider then ConnPanic else ConnError (go_error_of e)
                | Conn cc \<Rightarrow> GotConn cc
                | Waiting \<Rightarrow> ConnWaiting,
                s\<lparr>cw_pools := AList.update poolId p' (cw_pools s)\<rparr>)))"

text \<open>
  \<open>dial\<close> prepares the options anew when it leaves the process, with those of the context before those of the call:
  \<open>handler\<close> is the function the wrapper stores in the options.
\<close>

type_synonym ('x, 'o) opts_handler =
  "('x, 'o) grpc_opt list \<Rightarrow> client_state \<Rightarrow> (status_error + ('x, 'o) grpc_opt list \<times> ('x, 'o) call_options) \<times> client_state"

definition remote_dial ::
  "('w, 'ip, 'c, 'p, 'x, 'u, 't, 'cc) call_env \<Rightarrow> ('x, 'o) call_options \<Rightarrow> ('w, 'ip, 'c, 'p, 'x, 'cc) call_world \<Rightarrow>
   'cc conn_result \<times> ('w, 'ip, 'c, 'p, 'x, 'cc) call_world" where
  "remote_dial V callOpts s =
     (case call_WithPool V callOpts s of
        (PoolError e, s') \<Rightarrow> (ConnError (go_error_of e), s')
      | (PoolPanic, s') \<Rightarrow> (ConnPanic, s')
      | (GotPool p, s') \<Rightarrow> dial_pool V (PoolIdentity callOpts) p s')"

definition dial ::
  "('w, 'ip, 'c, 'p, 'x, 'u, 't, 'cc) call_env \<Rightarrow> ('x, 'o) opts_handler option \<Rightarrow> ('x, 'o) call_options \<Rightarrow>
   ('w, 'ip, 'c, 'p, 'x, 'cc) call_world \<Rightarrow> 'cc conn_result \<times> ('w, 'ip, 'c, 'p, 'x, 'cc) call_world" where
  "dial V handler callOpts s =
     (case memory_dialer_Dial V callOpts (cw_memory s) of
        (Inr (Some cc), m) \<Rightarrow> (GotConn cc, s\<lparr>cw_memory := m\<rparr>)
      | (other, m) \<Rightarrow>
          (let s = s\<lparr>cw_memory := m\<rparr>
           in case handler of
                None \<Rightarrow> remote_dial V callOpts s
              | Some h \<Rightarrow>
                  (case h (cl_CallOptFromCtx callOpts @ cl_CallOpt callOpts) (cw_client s) of
                     (Inl e, st) \<Rightarrow> (ConnError (go_error_of e), s\<lparr>cw_client := st\<rparr>)
                   | (Inr (os, callOpts), st) \<Rightarrow> remote_dial V callOpts (s\<lparr>cw_client := st\<rparr>))))"

definition ClearPool :: "('w, 'ip, 'c, 'p, 'x, 'cc) call_world \<Rightarrow> 'cc pool_event list \<times> ('w, 'ip, 'c, 'p, 'x, 'cc) call_world" where
  "ClearPool s = (case Clear_pools (cw_pools s) of (ev, pools) \<Rightarrow> (ev, s\<lparr>cw_pools := pools, cw_info := []\<rparr>))"

section \<open>A unary call\<close>

text \<open>
  The context of a call carries the options of the calls it is part of. The metadata that options set is listed in some
  order by \<open>md_pairs\<close>.
\<close>

record ('md, 'x, 'o) dial_ctx = "'md call_context" +
  dc_callOpts :: "('x, 'o) grpc_opt list option"

definition CallOptionFromContext :: "('md, 'x, 'o) dial_ctx \<Rightarrow> ('x, 'o) grpc_opt list" where
  "CallOptionFromContext ctx = (case dc_callOpts ctx of None \<Rightarrow> [] | Some os \<Rightarrow> os)"

definition AppendToOutgoingContext :: "'md md_ops \<Rightarrow> string \<Rightarrow> string \<Rightarrow> ('md, 'x, 'o) dial_ctx \<Rightarrow> ('md, 'x, 'o) dial_ctx" where
  "AppendToOutgoingContext M k v ctx =
     ctx\<lparr>call_context.cx_outgoing := Some (md_Append M k [v] (case call_context.cx_outgoing ctx of None \<Rightarrow> md_New M | Some md \<Rightarrow> md))\<rparr>"

definition targetMeta :: string where
  "targetMeta = ''x-grpc-target''"

definition callOptsToOutgoingContext ::
  "'md md_ops \<Rightarrow> ('md \<Rightarrow> (string \<times> string) list) \<Rightarrow> (('x, 'o) grpc_opt \<Rightarrow> ('md \<Rightarrow> 'md) option) \<Rightarrow> string \<Rightarrow> ('x, 'o) grpc_opt list \<Rightarrow>
   ('md, 'x, 'o) dial_ctx \<Rightarrow> ('md, 'x, 'o) dial_ctx" where
  "callOptsToOutgoingContext M md_pairs setMetadata target opts ctx =
     (let md = fold (\<lambda>o1 md. case setMetadata o1 of None \<Rightarrow> md | Some f \<Rightarrow> f md) opts (md_New M);
          ctx = fold (\<lambda>(k, v). AppendToOutgoingContext M k v) (md_pairs md) ctx
      in AppendToOutgoingContext M targetMeta target ctx)"

text \<open>
  \<open>joinUnaryCallOpts\<close> remembers the options in the context; a call without options gives a nil slice and leaves the
  context as it is.
\<close>

definition joinUnaryCallOpts ::
  "('x, 'o) grpc_opt list \<Rightarrow> (('md, 'x, 'o) dial_ctx, 'q, 'y, 'k, ('x, 'o) grpc_opt, 'r) unary_client_int" where
  "joinUnaryCallOpts presetCallOpt ctx meth req reply cc invoker callOpt =
     (let ctx = (if callOpt \<noteq> [] then ctx\<lparr>dc_callOpts := Some (joinTwoCallOpts (CallOptionFromContext ctx) callOpt)\<rparr> else ctx)
      in invoker ctx meth req reply cc (joinCallOpts [presetCallOpt, callOpt]))"

definition joinStreamCallOpts ::
  "('x, 'o) grpc_opt list \<Rightarrow> (('md, 'x, 'o) dial_ctx, 'd, 'k, ('x, 'o) grpc_opt, 'r) stream_client_int" where
  "joinStreamCallOpts presetCallOpt ctx desc cc meth streamer callOpt =
     (let ctx = (if callOpt \<noteq> [] then ctx\<lparr>dc_callOpts := Some (joinTwoCallOpts (CallOptionFromContext ctx) callOpt)\<rparr> else ctx)
      in streamer ctx desc cc meth (joinCallOpts [presetCallOpt, callOpt]))"

text \<open>
  What the wrappers need to run the call: the functions of the interceptors, and \<open>Invoke\<close> and \<open>NewStream\<close> of a connection.
  A wrapper waits for the dialler or for the end of the context; \<open>gone\<close> is the error of the context when its end is
  seen first, and then the dialler still finishes.
\<close>

record ('md, 'x, 'o, 'q, 'y, 'cc, 'd, 'z) runtime =
  rt_md :: "'md md_ops"
  rt_pairs :: "'md \<Rightarrow> (string \<times> string) list"
  rt_setMetadata :: "('x, 'o) grpc_opt \<Rightarrow> ('md \<Rightarrow> 'md) option"
  rt_sem :: "'x client_int \<Rightarrow> (('md, 'x, 'o) dial_ctx, 'q, 'y, 'cc, ('x, 'o) grpc_opt, go_error option) unary_client_int"
  rt_stream_sem :: "'x client_int \<Rightarrow> (('md, 'x, 'o) dial_ctx, 'd, 'cc, ('x, 'o) grpc_opt, go_error + 'z) stream_client_int"
  rt_invoke :: "('md, 'x, 'o) dial_ctx \<Rightarrow> string \<Rightarrow> 'q \<Rightarrow> 'y \<Rightarrow> 'cc \<Rightarrow> ('x, 'o) grpc_opt list \<Rightarrow> go_error option"
  rt_newStream :: "('md, 'x, 'o) dial_ctx \<Rightarrow> 'd \<Rightarrow> 'cc \<Rightarrow> string \<Rightarrow> ('x, 'o) grpc_opt list \<Rightarrow> go_error + 'z"

definition sent_opts :: "('x, 'o) grpc_opt list \<Rightarrow> ('x, 'o) grpc_opt list" where
  "sent_opts callOpt = filter (\<lambda>o1. o1 \<noteq> NilOpt) callOpt"

definition sent_ctx ::
  "('md, 'x, 'o, 'q, 'y, 'cc, 'd, 'z) runtime \<Rightarrow> bool \<Rightarrow> string \<Rightarrow> ('x, 'o) grpc_opt list \<Rightarrow> ('md, 'x, 'o) dial_ctx \<Rightarrow> ('md, 'x, 'o) dial_ctx" where
  "sent_ctx R memory target co ctx =
     (if memory then ctx else callOptsToOutgoingContext (rt_md R) (rt_pairs R) (rt_setMetadata R) target co ctx)"

definition run_unary ::
  "('md, 'x, 'o, 'q, 'y, 'cc, 'd, 'z) runtime \<Rightarrow> bool \<Rightarrow> 'x client_int list \<Rightarrow> string \<Rightarrow> ('x, 'o) grpc_opt list \<Rightarrow> 'cc \<Rightarrow>
   ('md, 'x, 'o) dial_ctx \<Rightarrow> string \<Rightarrow> 'q \<Rightarrow> 'y \<Rightarrow> go_error option" where
  "run_unary R memory ints target callOpt cc ctx meth req reply =
     ChainUnaryClient (map (rt_sem R) ints) ctx meth req reply cc
       (\<lambda>ctx meth req reply cc _. rt_invoke R (sent_ctx R memory target (sent_opts callOpt) ctx) meth req reply cc (sent_opts callOpt))
       callOpt"

definition run_stream ::
  "('md, 'x, 'o, 'q, 'y, 'cc, 'd, 'z) runtime \<Rightarrow> bool \<Rightarrow> 'x client_int list \<Rightarrow> string \<Rightarrow> ('x, 'o) grpc_opt list \<Rightarrow> 'cc \<Rightarrow>
   ('md, 'x, 'o) dial_ctx \<Rightarrow> 'd \<Rightarrow> string \<Rightarrow> go_error + 'z" where
  "run_stream R memory ints target callOpt cc ctx desc meth =
     ChainStreamClient (map (rt_stream_sem R) ints) ctx desc cc meth
       (\<lambda>ctx desc cc meth _. rt_newStream R (sent_ctx R memory target (sent_opts callOpt) ctx) desc cc meth (sent_opts callOpt))
       callOpt"

definition call_handler ::
  "('w, 'ip, 'c, 'p, 'x, 'u, 't, 'cc) call_env \<Rightarrow> string \<Rightarrow> ('x, 'o) call_hook option \<Rightarrow> ('x, 'o) opts_handler" where
  "call_handler V meth callOptHook os st =
     PrepareCallOptions (en_Bool (ve_env V)) (ve_tracer V) meth os
       (Some (\<lambda>callOpt callOpts. case callOptHook of None \<Rightarrow> (callOpt, callOpts) | Some h \<Rightarrow> h callOpt callOpts)) st"

text \<open>
  What both wrappers do: the options are prepared, and the connection dialled. The options the interceptors are made of
  are those prepared first, not those \<open>dial\<close> prepares.
\<close>

definition connect_call ::
  "('w, 'ip, 'c, 'p, 'x, 'u, 't, 'cc) call_env \<Rightarrow> ('x, 'o) call_hook option \<Rightarrow> ('md, 'x, 'o) dial_ctx \<Rightarrow> string \<Rightarrow> ('x, 'o) grpc_opt list \<Rightarrow>
   ('w, 'ip, 'c, 'p, 'x, 'cc) call_world \<Rightarrow>
   (go_error + ('x, 'o) grpc_opt list \<times> ('x, 'o) call_options \<times> 'cc conn_result) \<times> ('w, 'ip, 'c, 'p, 'x, 'cc) call_world" where
  "connect_call V callOptHook ctx meth callOpt s =
     (let handler = call_handler V meth callOptHook
      in case handler callOpt (cw_client s) of
           (Inl e, st) \<Rightarrow> (Inl (go_error_of e), s\<lparr>cw_client := st\<rparr>)
         | (Inr (callOpt, callOpts), st) \<Rightarrow>
             (case dial V (Some handler) (callOpts\<lparr>cl_CallOptFromCtx := CallOptionFromContext ctx\<rparr>) (s\<lparr>cw_client := st\<rparr>) of
                (r, s') \<Rightarrow> (Inr (callOpt, callOpts, r), s')))"

datatype 'a call_result = CallPanic | CallWaits | CallDone 'a

definition after_dial :: "go_error option \<Rightarrow> (go_error \<Rightarrow> 'a) \<Rightarrow> ('cc \<Rightarrow> 'a) \<Rightarrow> 'cc conn_result \<Rightarrow> 'a call_result" where
  "after_dial gone fail on_conn r =
     (case gone of
        Some e \<Rightarrow> CallDone (fail e)
      | None \<Rightarrow>
          (case r of
             ConnPanic \<Rightarrow> CallPanic
           | ConnWaiting \<Rightarrow> CallWaits
           | ConnError e \<Rightarrow> CallDone (fail e)
           | GotConn cc \<Rightarrow> CallDone (on_conn cc)))"

text \<open>The errors of a unary call become those of an RPC, but for the first check; those of a stream stay as they are.\<close>

definition unaryConnectionWrapper ::
  "('w, 'ip, 'c, 'p, 'x, 'u, 't, 'cc) call_env \<Rightarrow> ('md, 'x, 'o, 'q, 'y, 'cc, 'd, 'z) runtime \<Rightarrow> bool \<Rightarrow> go_error option \<Rightarrow> ('x, 'o) call_hook option \<Rightarrow>
   ('md, 'x, 'o) dial_ctx \<Rightarrow> string \<Rightarrow> 'q \<Rightarrow> 'y \<Rightarrow> ('x, 'o) grpc_opt list \<Rightarrow> ('w, 'ip, 'c, 'p, 'x, 'cc) call_world \<Rightarrow>
   go_error option call_result \<times> ('w, 'ip, 'c, 'p, 'x, 'cc) call_world" where
  "unaryConnectionWrapper V R initialized gone callOptHook ctx meth req reply callOpt s =
     (if \<not> initialized then (CallDone (Some (PlainErr ''framework not initialized'')), s)
      else (case connect_call V callOptHook ctx meth callOpt s of
        (Inl e, s') \<Rightarrow> (CallDone (ToRPCErr (Some e)), s')
      | (Inr (callOpt, callOpts, r), s') \<Rightarrow>
          (after_dial gone (\<lambda>e. ToRPCErr (Some e))
             (\<lambda>cc. ToRPCErr (run_unary R (ve_memory V cc)
                (PrepareUnaryInterceptor (ve_metrics V) (cw_client s') callOpts (cl_IgnoreInternalInterceptors callOpts \<or> ve_memory V cc))
                (cl_Target callOpts) callOpt cc ctx meth req reply)) r, s')))"

definition streamConnectionWrapper ::
  "('w, 'ip, 'c, 'p, 'x, 'u, 't, 'cc) call_env \<Rightarrow> ('md, 'x, 'o, 'q, 'y, 'cc, 'd, 'z) runtime \<Rightarrow> bool \<Rightarrow> go_error option \<Rightarrow> ('x, 'o) call_hook option \<Rightarrow>
   ('md, 'x, 'o) dial_ctx \<Rightarrow> 'd \<Rightarrow> string \<Rightarrow> ('x, 'o) grpc_opt list \<Rightarrow> ('w, 'ip, 'c, 'p, 'x, 'cc) call_world \<Rightarrow>
   (go_error + 'z) call_result \<times> ('w, 'ip, 'c, 'p, 'x, 'cc) call_world" where
  "streamConnectionWrapper V R initialized gone callOptHook ctx desc meth callOpt s =
     (if \<not> initialized then (CallDone (Inl (PlainErr ''framework not initialized'')), s)
      else (case connect_call V callOptHook ctx meth callOpt s of
        (Inl e, s') \<Rightarrow> (CallDone (Inl e), s')
      | (Inr (callOpt, callOpts, r), s') \<Rightarrow>
          (after_dial gone Inl
             (\<lambda>cc. run_stream R (ve_memory V cc)
                (PrepareStreamInterceptor (ve_metrics V) (cw_client s') callOpts (cl_IgnoreInternalInterceptors callOpts \<or> ve_memory V cc))
                (cl_Target callOpts) callOpt cc ctx desc meth) r, s')))"

text \<open>The interceptors of the connection that is handed out; it is never used as a connection itself.\<close>

definition CreateClientConnectionWithCallOptHook ::
  "('w, 'ip, 'c, 'p, 'x, 'u, 't, 'cc) call_env \<Rightarrow> ('md, 'x, 'o, 'q, 'y, 'cc, 'd, 'z) runtime \<Rightarrow> bool \<Rightarrow> go_error option \<Rightarrow> ('x, 'o) call_hook option \<Rightarrow>
   ('x, 'o) grpc_opt list \<Rightarrow>
   (('md, 'x, 'o) dial_ctx, 'q, 'y, 'k, ('x, 'o) grpc_opt,
    ('w, 'ip, 'c, 'p, 'x, 'cc) call_world \<Rightarrow> go_error option call_result \<times> ('w, 'ip, 'c, 'p, 'x, 'cc) call_world) unary_client_int" where
  "CreateClientConnectionWithCallOptHook V R initialized gone callOptHook presetCallOpt =
     ChainUnaryClient [joinUnaryCallOpts presetCallOpt,
       \<lambda>ctx meth req reply cc invoker callOpt. unaryConnectionWrapper V R initialized gone callOptHook ctx meth req reply callOpt]"

definition CreateStreamConnectionWithCallOptHook ::
  "('w, 'ip, 'c, 'p, 'x, 'u, 't, 'cc) call_env \<Rightarrow> ('md, 'x, 'o, 'q, 'y, 'cc, 'd, 'z) runtime \<Rightarrow> bool \<Rightarrow> go_error option \<Rightarrow> ('x, 'o) call_hook option \<Rightarrow>
   ('x, 'o) grpc_opt list \<Rightarrow>
   (('md, 'x, 'o) dial_ctx, 'd, 'k, ('x, 'o) grpc_opt,
    ('w, 'ip, 'c, 'p, 'x, 'cc) call_world \<Rightarrow> (go_error + 'z) call_result \<times> ('w, 'ip, 'c, 'p, 'x, 'cc) call_world) stream_client_int" where
  "CreateStreamConnectionWithCallOptHook V R initialized gone callOptHook presetCallOpt =
     ChainStreamClient [joinStreamCallOpts presetCallOpt,
       \<lambda>ctx desc cc meth streamer callOpt. streamConnectionWrapper V R initialized gone callOptHook ctx desc meth callOpt]"

section \<open>Where a call goes\<close>

definition world_ok :: "('w, 'ip, 'c, 'p, 'x, 'u, 't, 'cc) call_env \<Rightarrow> ('w, 'ip, 'c, 'p, 'x, 'cc) call_world \<Rightarrow> bool" where
  "world_ok V s \<longleftrightarrow> methods_ok (cw_client s) \<and> list_all (ve_memory V) (map snd (mdl_ccs (cw_memory s)))"

text \<open>The maker of local connections marks them, as \<open>hooks.MakeConnection\<close> does.\<close>

definition marks_connections :: "('w, 'ip, 'c, 'p, 'x, 'u, 't, 'cc) call_env \<Rightarrow> bool" where
  "marks_connections V \<longleftrightarrow> (\<forall>t cc. ve_mk V t = Inr cc \<longrightarrow> ve_memory V cc)"

lemma local_Dial_marked:
  assumes "marks_connections V" "list_all (ve_memory V) (map snd (mdl_ccs m))" "local_Dial (ve_mk V) r target m = (Inr cc, m')"
  shows "ve_memory V cc \<and> list_all (ve_memory V) (map snd (mdl_ccs m'))"
proof -
  have u: "list_all P (map snd (AList.update k v xs))" if "P v" "list_all P (map snd xs)" for P k v and xs :: "('k \<times> 'v) list"
    using that by (induction xs) auto
  have look: "ve_memory V v" if "map_of (mdl_ccs m) target = Some v" for v
    using assms(2) map_of_SomeD[OF that] by (auto simp: list_all_iff)
  show ?thesis using assms look
    by (auto simp: local_Dial_def makeConnection_def marks_connections_def split: option.splits sum.splits intro!: u)
qed

lemma local_Dial_found:
  assumes "QueryServiceInfo r target \<noteq> None" "mk target = Inr c"
  shows "\<exists>cc m'. local_Dial mk r target m = (Inr cc, m')"
  using assms by (auto simp: local_Dial_def makeConnection_def split: option.splits)

lemma call_handler_no_hook: "call_handler V meth None = (\<lambda>os. PrepareCallOptions (en_Bool (ve_env V)) (ve_tracer V) meth os (Some no_hook))"
  by (simp add: fun_eq_iff call_handler_def)

lemma cl_ctx_update: "cl_UseInProcDial (opts\<lparr>cl_CallOptFromCtx := c\<rparr>) = cl_UseInProcDial opts"
  "cl_Target (opts\<lparr>cl_CallOptFromCtx := c\<rparr>) = cl_Target opts"
  by simp_all

lemma connect_local:
  assumes "world_ok V s" "marks_connections V"
    and prep: "PrepareCallOptions (en_Bool (ve_env V)) (ve_tracer V) meth callOpt (Some no_hook) (cw_client s) = (Inr (os, opts), st)"
    and "cl_UseInProcDial opts" "QueryServiceInfo (ve_local V) (cl_Target opts) \<noteq> None" "ve_mk V (cl_Target opts) = Inr c"
  obtains cc m where "connect_call V None ctx meth callOpt s = (Inr (os, opts, GotConn cc), s\<lparr>cw_client := st, cw_memory := m\<rparr>)" "ve_memory V cc"
    "list_all (ve_memory V) (map snd (mdl_ccs m))"
proof -
  obtain cc m where l: "local_Dial (ve_mk V) (ve_local V) (cl_Target opts) (cw_memory s) = (Inr cc, m)"
    using local_Dial_found assms(5,6) by metis
  show ?thesis
  proof (rule that)
    show "connect_call V None ctx meth callOpt s = (Inr (os, opts, GotConn cc), s\<lparr>cw_client := st, cw_memory := m\<rparr>)"
      using prep assms(4) l by (simp add: connect_call_def call_handler_no_hook dial_def memory_dialer_Dial_def Let_def)
  qed (use local_Dial_marked[OF assms(2) _ l] assms(1) in \<open>auto simp: world_ok_def\<close>)
qed

text \<open>
  Local calls. A call to a service of the process that passes the check of the life cycle runs on a connection inside the
  process: only the interceptors of the call, the tracer and the metrics see it, its context goes out unchanged, and no
  pool is touched. In the repository no call passes that check, see \<open>calls_refused\<close> below.
\<close>

theorem local_call_stays_local:
  assumes "world_ok V s" "marks_connections V"
    and "PrepareCallOptions (en_Bool (ve_env V)) (ve_tracer V) meth callOpt (Some no_hook) (cw_client s) = (Inr (os, opts), st)"
    and "cl_UseInProcDial opts" "QueryServiceInfo (ve_local V) (cl_Target opts) \<noteq> None" "ve_mk V (cl_Target opts) = Inr c"
  shows "\<exists>cc s'. ve_memory V cc \<and> world_ok V s' \<and> cw_pools s' = cw_pools s \<and> cw_info s' = cw_info s \<and>
    unaryConnectionWrapper V R True None None ctx meth req reply callOpt s =
      (CallDone (ToRPCErr (ChainUnaryClient
          (map (rt_sem R) (cl_UnaryInt opts @ opt_list OpenTracingInt (cl_Tracer opts) @ (if ve_metrics V then [PrometheusInt] else [])))
          ctx meth req reply cc (\<lambda>ctx meth req reply cc _. rt_invoke R ctx meth req reply cc (sent_opts os)) os)), s')"
proof -
  obtain cc m where c: "connect_call V None ctx meth callOpt s = (Inr (os, opts, GotConn cc), s\<lparr>cw_client := st, cw_memory := m\<rparr>)" "ve_memory V cc"
      "list_all (ve_memory V) (map snd (mdl_ccs m))"
    by (rule connect_local[OF assms])
  have "methods_ok st" using prepared_spec[OF _ assms(3)] assms(1) by (auto simp: world_ok_def)
  then have "world_ok V (s\<lparr>cw_client := st, cw_memory := m\<rparr>)" using c(3) by (simp add: world_ok_def)
  then show ?thesis using c(1,2)
    by (intro exI[of _ cc] exI[of _ "s\<lparr>cw_client := st, cw_memory := m\<rparr>"])
       (simp add: unaryConnectionWrapper_def after_dial_def run_unary_def sent_ctx_def PrepareUnaryInterceptor_def internal_ints_def)
qed

section \<open>What a remote call sends\<close>

lemma outgoing_append:
  "md_laws M \<Longrightarrow> case call_context.cx_outgoing (AppendToOutgoingContext M k v ctx) of None \<Rightarrow> False | Some md \<Rightarrow> md_Get M md k \<noteq> [] \<and> last (md_Get M md k) = v"
  by (simp add: AppendToOutgoingContext_def md_Get_Append)

definition names_target :: "'md md_ops \<Rightarrow> string \<Rightarrow> ('md, 'x, 'o) dial_ctx \<Rightarrow> bool" where
  "names_target M target ctx \<longleftrightarrow>
     (case call_context.cx_outgoing ctx of None \<Rightarrow> False | Some md \<Rightarrow> md_Get M md targetMeta \<noteq> [] \<and> last (md_Get M md targetMeta) = target)"

lemma callOpts_name_target: "md_laws M \<Longrightarrow> names_target M target (callOptsToOutgoingContext M pairs sm target co ctx)"
  using outgoing_append[of M targetMeta] by (simp add: names_target_def callOptsToOutgoingContext_def Let_def)

text \<open>
  Remote calls name their target. What a call over a connection that leaves the process does depends on \<open>Invoke\<close>
  only for contexts whose outgoing metadata ends with the target of the call, whatever the interceptors do: replacing
  \<open>Invoke\<close> by a function that agrees with it there changes nothing.
\<close>

theorem remote_call_names_target:
  assumes "md_laws (rt_md R)" "\<forall>cc. \<not> ve_memory V cc"
    and "call_handler V meth hook callOpt (cw_client s) = (Inr (os, opts), st)"
    and "\<forall>ctx meth req reply cc co. names_target (rt_md R) (cl_Target opts) ctx \<longrightarrow> rt_invoke R ctx meth req reply cc co = invoke ctx meth req reply cc co"
  shows "unaryConnectionWrapper V R initialized gone hook ctx meth req reply callOpt s =
    unaryConnectionWrapper V (R\<lparr>rt_invoke := invoke\<rparr>) initialized gone hook ctx meth req reply callOpt s"
proof -
  have inv: "rt_invoke R (callOptsToOutgoingContext (rt_md R) pairs sm (cl_Target opts) co0 ctx) = invoke (callOptsToOutgoingContext (rt_md R) pairs sm (cl_Target opts) co0 ctx)"
    for pairs sm co0 ctx
    by (intro ext) (simp add: assms(4) callOpts_name_target[OF assms(1)])
  have run: "run_unary R False ints (cl_Target opts) os cc ctx meth req reply =
      run_unary (R\<lparr>rt_invoke := invoke\<rparr>) False ints (cl_Target opts) os cc ctx meth req reply" for ints cc ctx meth req reply
    by (simp add: run_unary_def sent_ctx_def inv)
  obtain r s' where "dial V (Some (call_handler V meth hook)) (opts\<lparr>cl_CallOptFromCtx := CallOptionFromContext ctx\<rparr>) (s\<lparr>cw_client := st\<rparr>) = (r, s')"
    by fastforce
  then have c: "connect_call V hook ctx meth callOpt s = (Inr (os, opts, r), s')" by (simp add: connect_call_def assms(3))
  show ?thesis using assms(2) by (simp add: unaryConnectionWrapper_def c run after_dial_def split: option.split conn_result.split)
qed

section \<open>The transformer of the target\<close>

text \<open>
  The pool's transformer is written to the options \<open>dial\<close> prepared, while the interceptors read the cell of the options
  prepared before: they transform nothing, and look up their policies under the name space of the registry.
\<close>

lemma remote_dial_cells:
  assumes "remote_dial V opts s = (r, s')" "j \<noteq> cl_TargetTransformer opts"
  shows "ct_cells (cw_client s') ! j = ct_cells (cw_client s) ! j"
proof -
  have w: "ct_cells (cw_client s1) ! j = ct_cells (cw_client s) ! j" if "call_WithPool V opts s = (p, s1)" for p s1
    using that assms(2) by (auto simp: call_WithPool_def set_transformer_def Let_def split: prod.splits with_pool.splits)
  have d: "cw_client s2 = cw_client s1" if "dial_pool V i p s1 = (r, s2)" for i p s1 s2 r
    using that by (auto simp: dial_pool_def split: option.splits prod.splits)
  show ?thesis using assms(1) w d by (auto simp: remote_dial_def split: prod.splits with_pool.splits)
qed

lemma dial_cells:
  assumes "methods_ok (cw_client s)" "dial V (Some (call_handler V meth None)) opts s = (r, s')" "j < length (ct_cells (cw_client s))"
  shows "ct_cells (cw_client s') ! j = ct_cells (cw_client s) ! j"
proof -
  obtain x m where m: "memory_dialer_Dial V opts (cw_memory s) = (x, m)" by fastforce
  obtain y st where p: "call_handler V meth None (cl_CallOptFromCtx opts @ cl_CallOpt opts) (cw_client s) = (y, st)" by fastforce
  have st: "ct_cells st = ct_cells (cw_client s) @ [Some]"
    using prepare_state[OF assms(1)] p by (fastforce simp: call_handler_no_hook)
  have i: "j \<noteq> cl_TargetTransformer o2" if "y = Inr (os2, o2)" for os2 o2
    using p that assms(3) prepared_spec[OF assms(1)] by (fastforce simp: call_handler_no_hook)
  show ?thesis
  proof (cases "\<exists>cc. x = Inr (Some cc)")
    case True
    then show ?thesis using assms(2) m by (auto simp: dial_def)
  next
    case False
    then have "(case y of Inl e \<Rightarrow> (ConnError (go_error_of e), s\<lparr>cw_memory := m, cw_client := st\<rparr>)
        | Inr (os, o2) \<Rightarrow> remote_dial V o2 (s\<lparr>cw_memory := m, cw_client := st\<rparr>)) = (r, s')"
      using assms(2) m p by (auto simp: dial_def Let_def split: sum.splits option.splits)
    then show ?thesis using st assms(3) i remote_dial_cells[of V _ "s\<lparr>cw_memory := m, cw_client := st\<rparr>" r s' j]
      by (auto simp: nth_append split: sum.splits prod.splits)
  qed
qed

lemma connect_keeps_identity:
  assumes ok: "methods_ok (cw_client s)" and c: "connect_call V None ctx meth callOpt s = (Inr (os, opts, r), s')"
  shows "ct_cells (cw_client s') ! cl_TargetTransformer opts = Some"
proof -
  obtain st where p: "PrepareCallOptions (en_Bool (ve_env V)) (ve_tracer V) meth callOpt (Some no_hook) (cw_client s) = (Inr (os, opts), st)"
      and d: "dial V (Some (call_handler V meth None)) (opts\<lparr>cl_CallOptFromCtx := CallOptionFromContext ctx\<rparr>) (s\<lparr>cw_client := st\<rparr>) = (r, s')"
    using c by (auto simp: connect_call_def call_handler_no_hook Let_def split: prod.splits sum.splits)
  have cells: "methods_ok st" "ct_cells st = ct_cells (cw_client s) @ [Some]" "cl_TargetTransformer opts = length (ct_cells (cw_client s))"
    by (rule prepared_spec[OF ok p]; blast)+
  show ?thesis using dial_cells[OF _ d, of "cl_TargetTransformer opts"] cells by (simp add: nth_append)
qed

text \<open>
  Calls are refused. No state the life cycle reaches is initialized, so every call is refused before it changes
  anything.
\<close>

theorem calls_refused:
  "unaryConnectionWrapper V R (IsInitialized (fold life_step ops new_life_cycle)) gone hook ctx meth req reply callOpt s =
     (CallDone (Some (PlainErr ''framework not initialized'')), s)"
  by (simp add: unaryConnectionWrapper_def never_initialized)

section \<open>Examples\<close>

type_synonym demo_env = "(unit, nat, unit, unit, nat, nat, nat, nat) call_env"
type_synonym demo_runtime = "((string \<times> string list) list, nat, unit, nat, nat, nat, unit, unit) runtime"

definition demo_call_env :: "bool \<Rightarrow> demo_env" where
  "demo_call_env memory =
     \<lparr>ve_env = demo_client_env True\<lparr>en_Bool := (\<lambda>_. True)\<rparr>, ve_dialOptions = [],
      ve_local = \<lparr>lr_srv = [(''pkg.Svc'', 0)], lr_heap = [\<lparr>sv_serviceName = ''pkg.Svc'', sv_unary = [], sv_streaming = []\<rparr>]\<rparr>,
      ve_mk = (\<lambda>_. Inr 5), ve_x509 = example_env, ve_now = (), ve_with_option = (\<lambda>_ _. None), ve_dial = (\<lambda>_ _. Inr (Some 9)),
      ve_pool = \<lparr>de_ready = (\<lambda>_. True), de_observe = (\<lambda>_. [(Ready, True)]), de_dial = Inr None, de_now = 0, de_failTime = 0\<rparr>,
      ve_memory = (\<lambda>_. memory), ve_tracer = None, ve_metrics = False\<rparr>"

text \<open>Invoking fails when no target is named.\<close>

definition demo_runtime :: demo_runtime where
  "demo_runtime =
     \<lparr>rt_md = list_md, rt_pairs = (\<lambda>_. []), rt_setMetadata = (\<lambda>_. None), rt_sem = (\<lambda>_ ctx m q y cc invoker os. invoker ctx m q y cc os),
      rt_stream_sem = (\<lambda>_ ctx d cc m streamer os. streamer ctx d cc m os),
      rt_invoke = (\<lambda>ctx m q y cc os. if names_target list_md ''pkg.Svc'' ctx then None else Some (PlainErr ''no target'')),
      rt_newStream = (\<lambda>ctx d cc m os. Inr ())\<rparr>"

definition demo_ctx :: "((string \<times> string list) list, nat, unit) dial_ctx" where
  "demo_ctx = \<lparr>call_context.cx_incoming = None, call_context.cx_outgoing = None, cx_tracingInfo = None, cx_timestamp = None, cx_method = None, dc_callOpts = None\<rparr>"

definition demo_world :: "(unit, nat, unit, unit, nat, nat) call_world" where
  "demo_world = \<lparr>cw_client = demo_client_state, cw_memory = \<lparr>mdl_ccs = []\<rparr>, cw_pools = [], cw_info = []\<rparr>"

lemma demo_handler:
  "\<exists>opts st. PrepareCallOptions (en_Bool (ve_env (demo_call_env b))) None ''/pkg.Svc/Get'' [] (Some no_hook) (cw_client demo_world) =
     (Inr ([] :: (nat, unit) grpc_opt list, opts), st) \<and> cl_UseInProcDial opts \<and> cl_Target opts = ''pkg.Svc'' \<and> cl_UnaryInt opts = [] \<and> cl_Tracer opts = None"
  by (simp add: demo_world_def demo_call_env_def PrepareCallOptions_def read_flags_def demo_client_state_def new_call_options_def parseCallOpt_def
        service_of_def make_async_def Let_def)

theorem local_call_stays_local_witness:
  "\<exists>s'. unaryConnectionWrapper (demo_call_env True) demo_runtime True None None demo_ctx ''/pkg.Svc/Get'' 1 2 [] demo_world =
     (CallDone (Some (StatusErr codes_Unknown ''no target'')), s') \<and> cw_pools s' = []"
proof -
  obtain opts :: "(nat, unit) call_options" and st where
    p: "PrepareCallOptions (en_Bool (ve_env (demo_call_env True))) (ve_tracer (demo_call_env True)) ''/pkg.Svc/Get'' [] (Some no_hook) (cw_client demo_world) = (Inr ([], opts), st)"
    and o: "cl_UseInProcDial opts" "cl_Target opts = ''pkg.Svc''" "cl_UnaryInt opts = []" "cl_Tracer opts = None"
    using demo_handler[of True] by (auto simp: demo_call_env_def)
  have w: "world_ok (demo_call_env True) demo_world" "marks_connections (demo_call_env True)"
    by (simp_all add: world_ok_def marks_connections_def demo_call_env_def demo_world_def methods_ok_def demo_client_state_def)
  have q: "QueryServiceInfo (ve_local (demo_call_env True)) (cl_Target opts) \<noteq> None" "ve_mk (demo_call_env True) (cl_Target opts) = Inr 5"
    using o by (simp_all add: QueryServiceInfo_def demo_call_env_def)
  from local_call_stays_local[OF w p o(1) q, of demo_runtime demo_ctx 1 2] o show ?thesis
    by (auto simp: demo_call_env_def demo_runtime_def demo_world_def demo_ctx_def opt_list_def ChainUnaryClient_def ToRPCErr_def names_target_def)
qed

theorem remote_call_names_target_witness:
  "unaryConnectionWrapper (demo_call_env False) demo_runtime True None None demo_ctx ''/pkg.Svc/Get'' 1 2 [] demo_world =
   unaryConnectionWrapper (demo_call_env False) (demo_runtime\<lparr>rt_invoke := (\<lambda>ctx m q y cc os. None)\<rparr>) True None None demo_ctx ''/pkg.Svc/Get'' 1 2 [] demo_world"
proof -
  obtain opts :: "(nat, unit) call_options" and st where
    p: "call_handler (demo_call_env False) ''/pkg.Svc/Get'' None [] (cw_client demo_world) = (Inr ([], opts), st)" and o: "cl_Target opts = ''pkg.Svc''"
    using demo_handler[of False] by (auto simp: call_handler_no_hook demo_call_env_def)
  show ?thesis
    by (rule remote_call_names_target[OF _ _ p]) (simp_all add: demo_runtime_def demo_call_env_def list_md_laws o)
qed

end
