(* ===== verification/Spans.thy ===== *)
theory Spans
  imports Tracing Local_Registry
begin

text \<open>
  Spans and metrics of calls: \<^verbatim>\<open>tracing/tracer.go\<close>, the interceptors of \<^verbatim>\<open>3rdparty/grpc-opentracing/go/otgrpc\<close>
  and those of \<^verbatim>\<open>prometheus/prometheus.go\<close>.

  A tracer belongs to the package \<open>opentracing\<close>. What the code does to a span is kept in a record: the span it is a
  child of, its tags and logs, and how often it was finished. Starting a span gives it the next number. How a tracer
  writes the context of a span into headers and reads it from them are arguments, \<open>inject\<close> and \<open>extract\<close>. The tags of
  a context are a shared map, so the context holds its place in a heap.
\<close>

section \<open>Spans\<close>

datatype tag_value = TagBool bool | TagString string | TagCode int

datatype 'c parent = NoParent | LocalParent nat | RemoteParent 'c

datatype log_entry = LogPayload | LogError string | LogInjectFailed

record 'c span =
  sp_name :: string
  sp_parent :: "'c parent"
  sp_tags :: "(string \<times> tag_value) list"
  sp_logs :: "log_entry list"
  sp_finished :: nat

record 'c trace_world =
  tw_spans :: "'c span list"
  tw_tags :: "(string \<times> tag_value) list list"

definition on_span :: "nat \<Rightarrow> ('c span \<Rightarrow> 'c span) \<Rightarrow> 'c trace_world \<Rightarrow> 'c trace_world" where
  "on_span i f w = (if i < length (tw_spans w) then w\<lparr>tw_spans := (tw_spans w)[i := f (tw_spans w ! i)]\<rparr> else w)"

definition SetTag :: "string \<Rightarrow> tag_value \<Rightarrow> 'c span \<Rightarrow> 'c span" where
  "SetTag k v sp = sp\<lparr>sp_tags := AList.update k v (sp_tags sp)\<rparr>"

definition LogFields :: "log_entry \<Rightarrow> 'c span \<Rightarrow> 'c span" where
  "LogFields l sp = sp\<lparr>sp_logs := sp_logs sp @ [l]\<rparr>"

definition Finish :: "'c span \<Rightarrow> 'c span" where
  "Finish sp = sp\<lparr>sp_finished := sp_finished sp + 1\<rparr>"

definition StartSpan :: "string \<Rightarrow> 'c parent \<Rightarrow> (string \<times> tag_value) list \<Rightarrow> 'c trace_world \<Rightarrow> nat \<times> 'c trace_world" where
  "StartSpan name parent tags w =
     (length (tw_spans w),
      w\<lparr>tw_spans := tw_spans w @ [\<lparr>sp_name = name, sp_parent = parent, sp_tags = tags, sp_logs = [], sp_finished = 0\<rparr>]\<rparr>)"

section \<open>Classes of errors\<close>

datatype error_class = UnknownClass | Success | ClientError | ServerError

text \<open>\<open>status.FromError\<close>: nil is the status OK, an error that is no status has none.\<close>

definition from_error :: "go_error option \<Rightarrow> int option" where
  "from_error err = (case err of None \<Rightarrow> Some 0 | Some (StatusErr c m) \<Rightarrow> Some c | Some e \<Rightarrow> None)"

definition ErrorClass :: "go_error option \<Rightarrow> error_class" where
  "ErrorClass err =
     (case from_error err of
        None \<Rightarrow> UnknownClass
      | Some c \<Rightarrow>
          if c \<in> set [0, 1] then Success
          else if c \<in> set [3, 5, 6, 7, 16, 9, 11] then ClientError
          else if c \<in> set [4, 8, 10, 12, 13, 14, 15] then ServerError
          else UnknownClass)"

definition class_text :: "error_class \<Rightarrow> string" where
  "class_text c = (case c of UnknownClass \<Rightarrow> ''0xx'' | Success \<Rightarrow> ''2xx'' | ClientError \<Rightarrow> ''4xx'' | ServerError \<Rightarrow> ''5xx'')"

definition SetSpanTags :: "go_error option \<Rightarrow> bool \<Rightarrow> 'c span \<Rightarrow> 'c span" where
  "SetSpanTags err client sp =
     (let c = ErrorClass err;
          sp1 = SetTag ''response_code'' (TagCode (case from_error err of None \<Rightarrow> 2 | Some code \<Rightarrow> code)) sp;
          sp2 = SetTag ''response_class'' (TagString (class_text c)) sp1
      in if err = None then sp2 else if client \<or> c = ServerError then SetTag ''error'' (TagBool True) sp2 else sp2)"

section \<open>The context of a call\<close>

record 'md span_ctx = "'md call_context" +
  sx_span :: "nat option"
  sx_tags :: "nat option"

definition targetMeta :: string where
  "targetMeta = ''x-grpc-target''"

definition serviceAliasName :: "'md md_ops \<Rightarrow> 'md option \<Rightarrow> string \<Rightarrow> string" where
  "serviceAliasName M incoming fullMethod =
     (case incoming of
        None \<Rightarrow> fullMethod
      | Some md \<Rightarrow>
          (let targetMd = md_Get M md targetMeta; path = split_char (CHR ''/'') fullMethod
           in if targetMd = [] then fullMethod
              else if length path \<noteq> 3 then fullMethod
              else ''/'' @ last targetMd @ ''/'' @ path ! 2))"

definition tracerTagContext :: "'md span_ctx \<Rightarrow> 'c trace_world \<Rightarrow> 'md span_ctx \<times> 'c trace_world" where
  "tracerTagContext ctx w =
     (case sx_tags ctx of
        Some i \<Rightarrow> (ctx, w)
      | None \<Rightarrow> (ctx\<lparr>sx_tags := Some (length (tw_tags w))\<rparr>, w\<lparr>tw_tags := tw_tags w @ [[]]\<rparr>))"

definition SetSpanTag :: "'md span_ctx \<Rightarrow> string \<Rightarrow> tag_value \<Rightarrow> 'c trace_world \<Rightarrow> 'c trace_world" where
  "SetSpanTag ctx k v w =
     (case sx_tags ctx of
        None \<Rightarrow> w
      | Some i \<Rightarrow> w\<lparr>tw_tags := (tw_tags w)[i := AList.update k v (tw_tags w ! i)]\<rparr>)"

definition setAdditionalUnarySpanTag :: "'md md_ops \<Rightarrow> 'md span_ctx \<Rightarrow> string \<Rightarrow> bool \<Rightarrow> 'c trace_world \<Rightarrow> 'c trace_world" where
  "setAdditionalUnarySpanTag M ctx methodName inMemory w =
     (let w = (if inMemory then SetSpanTag ctx ''in_memory_invoke'' (TagBool True) w else w);
          w = SetSpanTag ctx ''type'' (TagString ''unary'') w
      in SetSpanTag ctx ''alias'' (TagString (serviceAliasName M (call_context.cx_incoming ctx) methodName)) w)"

definition stream_type :: "bool \<Rightarrow> bool \<Rightarrow> string" where
  "stream_type serverStream clientStream =
     (if serverStream \<and> clientStream then ''bidi_stream'' else if serverStream then ''server_stream'' else ''client_stream'')"

definition setAdditionalStreamSpanTag ::
  "'md md_ops \<Rightarrow> 'md span_ctx \<Rightarrow> string \<Rightarrow> bool \<Rightarrow> bool \<Rightarrow> bool \<Rightarrow> 'c trace_world \<Rightarrow> 'c trace_world" where
  "setAdditionalStreamSpanTag M ctx methodName serverStream clientStream inMemory w =
     (let w = (if inMemory then SetSpanTag ctx ''in_memory_invoke'' (TagBool True) w else w);
          w = SetSpanTag ctx ''type'' (TagString (stream_type serverStream clientStream)) w
      in SetSpanTag ctx ''alias'' (TagString (serviceAliasName M (call_context.cx_incoming ctx) methodName)) w)"

text \<open>The decorator copies the tags of the context to the span.\<close>

definition spanTagDecorator :: "'md span_ctx \<Rightarrow> nat \<Rightarrow> 'c trace_world \<Rightarrow> 'c trace_world" where
  "spanTagDecorator ctx i w =
     (case sx_tags ctx of
        None \<Rightarrow> w
      | Some t \<Rightarrow> on_span i (fold (\<lambda>(k, v). SetTag k v) (tw_tags w ! t)) w)"

section \<open>Interceptors\<close>

record ('md, 'c) tracer =
  tc_inject :: "nat \<Rightarrow> (string \<times> string) list option"
  tc_extract :: "'md \<Rightarrow> 'c option"

record ('md, 'c) ot_options =
  oo_logPayloads :: bool
  oo_decorator :: "('md span_ctx \<Rightarrow> nat \<Rightarrow> 'c trace_world \<Rightarrow> 'c trace_world) option"
  oo_inclusion :: "('c parent \<Rightarrow> string \<Rightarrow> bool) option"

definition newOptions :: "('md, 'c) ot_options" where
  "newOptions = \<lparr>oo_logPayloads = False, oo_decorator = None, oo_inclusion = None\<rparr>"

definition LogPayloads :: "('md, 'c) ot_options \<Rightarrow> ('md, 'c) ot_options" where
  "LogPayloads opts = opts\<lparr>oo_logPayloads := True\<rparr>"

definition IncludingSpans :: "('c parent \<Rightarrow> string \<Rightarrow> bool) \<Rightarrow> ('md, 'c) ot_options \<Rightarrow> ('md, 'c) ot_options" where
  "IncludingSpans f opts = opts\<lparr>oo_inclusion := Some f\<rparr>"

definition SpanDecorator :: "('md span_ctx \<Rightarrow> nat \<Rightarrow> 'c trace_world \<Rightarrow> 'c trace_world) \<Rightarrow> ('md, 'c) ot_options \<Rightarrow> ('md, 'c) ot_options" where
  "SpanDecorator f opts = opts\<lparr>oo_decorator := Some f\<rparr>"

definition apply_ot_options :: "(('md, 'c) ot_options \<Rightarrow> ('md, 'c) ot_options) list \<Rightarrow> ('md, 'c) ot_options" where
  "apply_ot_options optFuncs = fold (\<lambda>f. f) optFuncs newOptions"

text \<open>The writer of headers lowers the key and appends the value.\<close>

definition writer_Set :: "'md md_ops \<Rightarrow> string \<times> string \<Rightarrow> 'md \<Rightarrow> 'md" where
  "writer_Set M kv md = md_Append M (to_lower (fst kv)) [snd kv] md"

definition injectSpanContext ::
  "'md md_ops \<Rightarrow> ('md, 'c) tracer \<Rightarrow> nat \<Rightarrow> 'md span_ctx \<Rightarrow> 'c trace_world \<Rightarrow> 'md span_ctx \<times> 'c trace_world" where
  "injectSpanContext M T i ctx w =
     (let md = (case call_context.cx_outgoing ctx of None \<Rightarrow> md_New M | Some md \<Rightarrow> md)
      in case tc_inject T i of
           None \<Rightarrow> (ctx\<lparr>call_context.cx_outgoing := Some md\<rparr>, on_span i (LogFields LogInjectFailed) w)
         | Some kvs \<Rightarrow> (ctx\<lparr>call_context.cx_outgoing := Some (fold (writer_Set M) kvs md)\<rparr>, w))"

definition extractSpanContext :: "'md md_ops \<Rightarrow> ('md, 'c) tracer \<Rightarrow> 'md span_ctx \<Rightarrow> 'c parent" where
  "extractSpanContext M T ctx =
     (case tc_extract T (case call_context.cx_incoming ctx of None \<Rightarrow> md_New M | Some md \<Rightarrow> md) of
        None \<Rightarrow> NoParent
      | Some c \<Rightarrow> RemoteParent c)"

definition span_parent :: "'md span_ctx \<Rightarrow> 'c parent" where
  "span_parent ctx = (case sx_span ctx of None \<Rightarrow> NoParent | Some i \<Rightarrow> LocalParent i)"

definition included :: "('md, 'c) ot_options \<Rightarrow> 'c parent \<Rightarrow> string \<Rightarrow> bool" where
  "included opts parent meth = (case oo_inclusion opts of None \<Rightarrow> True | Some f \<Rightarrow> f parent meth)"

definition log_payload :: "('md, 'c) ot_options \<Rightarrow> nat \<Rightarrow> 'c trace_world \<Rightarrow> 'c trace_world" where
  "log_payload opts i w = (if oo_logPayloads opts then on_span i (LogFields LogPayload) w else w)"

definition decorate :: "('md, 'c) ot_options \<Rightarrow> 'md span_ctx \<Rightarrow> nat \<Rightarrow> 'c trace_world \<Rightarrow> 'c trace_world" where
  "decorate opts ctx i w = (case oo_decorator opts of None \<Rightarrow> w | Some f \<Rightarrow> f ctx i w)"

definition note_error :: "bool \<Rightarrow> go_error \<Rightarrow> 'c span \<Rightarrow> 'c span" where
  "note_error client e sp = LogFields (LogError (Error e)) (SetSpanTags (Some e) client sp)"

definition client_tags :: "(string \<times> tag_value) list" where
  "client_tags = [(''span.kind'', TagString ''client''), (''component'', TagString ''gRPC'')]"

definition server_tags :: "(string \<times> tag_value) list" where
  "server_tags = [(''span.kind'', TagString ''server''), (''component'', TagString ''gRPC'')]"

type_synonym ('md, 'c, 'r) traced = "'md span_ctx \<Rightarrow> 'c trace_world \<Rightarrow> 'r \<times> 'c trace_world"

definition OpenTracingClientInterceptor ::
  "'md md_ops \<Rightarrow> ('md, 'c) tracer \<Rightarrow> ('md, 'c) ot_options \<Rightarrow> string \<Rightarrow> ('md, 'c, go_error option) traced \<Rightarrow> ('md, 'c, go_error option) traced" where
  "OpenTracingClientInterceptor M T opts meth invoker ctx w =
     (if \<not> included opts (span_parent ctx) meth then invoker ctx w
      else (let (i, w1) = StartSpan meth (span_parent ctx) client_tags w;
                (ctx1, w2) = injectSpanContext M T i ctx w1;
                (err, w3) = invoker ctx1 (log_payload opts i w2);
                w4 = (case err of None \<Rightarrow> log_payload opts i w3 | Some e \<Rightarrow> on_span i (note_error True e) w3)
            in (err, on_span i Finish (decorate opts ctx1 i w4))))"

definition OpenTracingServerInterceptor ::
  "'md md_ops \<Rightarrow> ('md, 'c) tracer \<Rightarrow> ('md, 'c) ot_options \<Rightarrow> string \<Rightarrow> ('md, 'c, go_error + 'r) traced \<Rightarrow> ('md, 'c, go_error + 'r) traced" where
  "OpenTracingServerInterceptor M T opts fullMethod handler ctx w =
     (let parent = extractSpanContext M T ctx
      in if \<not> included opts parent fullMethod then handler ctx w
         else (let (i, w1) = StartSpan fullMethod parent server_tags w;
                   ctx1 = ctx\<lparr>sx_span := Some i\<rparr>;
                   (res, w3) = handler ctx1 (log_payload opts i w1);
                   w4 = (case res of Inr r \<Rightarrow> log_payload opts i w3 | Inl e \<Rightarrow> on_span i (note_error False e) w3)
               in (res, on_span i Finish (decorate opts ctx1 i w4))))"

definition OpenTracingStreamServerInterceptor ::
  "'md md_ops \<Rightarrow> ('md, 'c) tracer \<Rightarrow> ('md, 'c) ot_options \<Rightarrow> string \<Rightarrow> ('md, 'c, go_error option) traced \<Rightarrow> ('md, 'c, go_error option) traced" where
  "OpenTracingStreamServerInterceptor M T opts fullMethod handler ctx w =
     (let parent = extractSpanContext M T ctx
      in if \<not> included opts parent fullMethod then handler ctx w
         else (let (i, w1) = StartSpan fullMethod parent server_tags w;
                   ctx1 = ctx\<lparr>sx_span := Some i\<rparr>;
                   (err, w3) = handler ctx1 w1;
                   w4 = (case err of None \<Rightarrow> w3 | Some e \<Rightarrow> on_span i (note_error False e) w3)
               in (err, on_span i Finish (decorate opts ctx1 i w4))))"

section \<open>The span of a client stream\<close>

text \<open>
  The span of a stream is open when the interceptor returns, and is finished by what happens to the stream: an error of
  an operation, the end of the messages, the only answer of a call that is not a server stream, the end of the
  context, or the collection of the stream.
\<close>

record ('md, 'c) client_stream =
  ot_ctx :: "'md span_ctx"
  ot_span :: nat
  ot_serverStreams :: bool
  ot_opts :: "('md, 'c) ot_options"
  ot_isFinished :: bool

definition newOpenTracingClientStream :: "('md, 'c) ot_options \<Rightarrow> bool \<Rightarrow> nat \<Rightarrow> 'md span_ctx \<Rightarrow> ('md, 'c) client_stream" where
  "newOpenTracingClientStream opts serverStreams i ctx =
     \<lparr>ot_ctx = ctx, ot_span = i, ot_serverStreams = serverStreams, ot_opts = opts, ot_isFinished = False\<rparr>"

text \<open>The context of the stream the streamer returns is the one it was given.\<close>

definition OpenTracingStreamClientInterceptor ::
  "'md md_ops \<Rightarrow> ('md, 'c) tracer \<Rightarrow> ('md, 'c) ot_options \<Rightarrow> bool \<Rightarrow> string \<Rightarrow> ('md, 'c, go_error option) traced \<Rightarrow>
   ('md, 'c, go_error + ('md, 'c) client_stream option) traced" where
  "OpenTracingStreamClientInterceptor M T opts serverStreams meth streamer ctx w =
     (if \<not> included opts (span_parent ctx) meth
      then (case streamer ctx w of (err, w') \<Rightarrow> (case err of None \<Rightarrow> Inr None | Some e \<Rightarrow> Inl e, w'))
      else (let (i, w1) = StartSpan meth (span_parent ctx) client_tags w;
                (ctx1, w2) = injectSpanContext M T i ctx w1
            in case streamer ctx1 w2 of
                 (Some e, w3) \<Rightarrow> (Inl e, on_span i Finish (on_span i (note_error True e) w3))
               | (None, w3) \<Rightarrow> (Inr (Some (newOpenTracingClientStream opts serverStreams i ctx1)), w3)))"

definition finishFunc ::
  "go_error option \<Rightarrow> ('md, 'c) client_stream \<times> 'c trace_world \<Rightarrow> ('md, 'c) client_stream \<times> 'c trace_world" where
  "finishFunc err = (\<lambda>(s, w).
     if ot_isFinished s then (s, w)
     else (let w1 = (case err of None \<Rightarrow> w | Some e \<Rightarrow> on_span (ot_span s) (note_error True e) w)
           in (s\<lparr>ot_isFinished := True\<rparr>, on_span (ot_span s) Finish (decorate (ot_opts s) (ot_ctx s) (ot_span s) w1))))"

datatype stream_op =
    StreamHeader "go_error option"
  | StreamSend "go_error option"
  | StreamRecv "go_error option"
  | StreamCloseSend "go_error option"
  | ContextDone go_error
  | Collected

text \<open>Each operation passes the result of the stream on; the argument is that result.\<close>

fun stream_op_step ::
  "stream_op \<Rightarrow> ('md, 'c) client_stream \<times> 'c trace_world \<Rightarrow> ('md, 'c) client_stream \<times> 'c trace_world" where
  "stream_op_step (StreamHeader err) s = (if err \<noteq> None then finishFunc err s else s)"
| "stream_op_step (StreamSend err) s = (if err \<noteq> None then finishFunc err s else s)"
| "stream_op_step (StreamCloseSend err) s = (if err \<noteq> None then finishFunc err s else s)"
| "stream_op_step (StreamRecv err) s =
     (if err = Some ErrEOF then finishFunc None s
      else if err \<noteq> None then finishFunc err s
      else if \<not> ot_serverStreams (fst s) then finishFunc None s else s)"
| "stream_op_step (ContextDone e) s = (if ot_isFinished (fst s) then s else finishFunc (Some e) s)"
| "stream_op_step Collected s = finishFunc None s"

fun ends_stream :: "bool \<Rightarrow> stream_op \<Rightarrow> bool" where
  "ends_stream ss (StreamHeader err) = (err \<noteq> None)"
| "ends_stream ss (StreamSend err) = (err \<noteq> None)"
| "ends_stream ss (StreamCloseSend err) = (err \<noteq> None)"
| "ends_stream ss (StreamRecv err) = (err \<noteq> None \<or> \<not> ss)"
| "ends_stream ss (ContextDone e) = True"
| "ends_stream ss Collected = True"

text \<open>How often the code finishes a span does not depend on its tags and logs.\<close>

definition finished_at :: "nat \<Rightarrow> 'c trace_world \<Rightarrow> nat" where
  "finished_at i w = sp_finished (tw_spans w ! i)"

definition keeps_finished :: "('c trace_world \<Rightarrow> 'c trace_world) \<Rightarrow> bool" where
  "keeps_finished f \<longleftrightarrow> (\<forall>w. map sp_finished (tw_spans (f w)) = map sp_finished (tw_spans w))"

lemma keeps_finished_on_span: "(\<And>sp. sp_finished (g sp) = sp_finished sp) \<Longrightarrow> keeps_finished (on_span i g)"
  by (auto simp: keeps_finished_def on_span_def intro!: nth_equalityI simp: nth_list_update)

lemma keeps_finished_nth:
  "keeps_finished f \<Longrightarrow> length (tw_spans (f w)) = length (tw_spans w) \<and> (i < length (tw_spans w) \<longrightarrow> finished_at i (f w) = finished_at i w)"
  unfolding keeps_finished_def finished_at_def by (metis length_map nth_map)

lemma finished_tag: "sp_finished (SetTag k v sp) = sp_finished sp" "sp_finished (LogFields l sp) = sp_finished sp"
  by (simp_all add: SetTag_def LogFields_def)

lemma finished_note: "sp_finished (note_error client e sp) = sp_finished sp"
  by (simp add: note_error_def SetSpanTags_def finished_tag Let_def)

lemma finished_fold_tags: "sp_finished (fold (\<lambda>(k, v). SetTag k v) kvs sp) = sp_finished sp"
  by (induction kvs arbitrary: sp) (auto simp: finished_tag)

lemma keeps_note: "keeps_finished (on_span i (note_error client e))"
  by (rule keeps_finished_on_span) (rule finished_note)

lemma keeps_tags: "keeps_finished (on_span i (fold (\<lambda>(k, v). SetTag k v) kvs))"
  by (rule keeps_finished_on_span) (rule finished_fold_tags)

lemma keeps_decorator: "keeps_finished (spanTagDecorator ctx i)"
proof -
  have "map sp_finished (tw_spans (spanTagDecorator ctx i w)) = map sp_finished (tw_spans w)" for w :: "'a trace_world"
  proof (cases "sx_tags ctx")
    case (Some t)
    then show ?thesis
      by (simp add: spanTagDecorator_def keeps_tags[unfolded keeps_finished_def, rule_format])
  qed (simp add: spanTagDecorator_def)
  then show ?thesis by (simp add: keeps_finished_def)
qed

lemma finish_on_span:
  "i < length (tw_spans w) \<Longrightarrow> finished_at i (on_span i Finish w) = finished_at i w + 1"
  by (simp add: finished_at_def on_span_def Finish_def)

lemma length_on_span: "length (tw_spans (on_span i f w)) = length (tw_spans w)"
  by (simp add: on_span_def)

definition good_stream :: "('md, 'c) client_stream \<times> 'c trace_world \<Rightarrow> bool" where
  "good_stream sw \<longleftrightarrow> (case sw of (s, w) \<Rightarrow>
     ot_span s < length (tw_spans w) \<and> keeps_finished (decorate (ot_opts s) (ot_ctx s) (ot_span s)) \<and>
     finished_at (ot_span s) w = (if ot_isFinished s then 1 else 0))"

lemma finishFunc_good:
  assumes "good_stream (s, w)"
  shows "good_stream (finishFunc err (s, w)) \<and> ot_isFinished (fst (finishFunc err (s, w))) \<and>
    ot_span (fst (finishFunc err (s, w))) = ot_span s \<and> ot_serverStreams (fst (finishFunc err (s, w))) = ot_serverStreams s"
proof (cases "ot_isFinished s")
  case True
  then show ?thesis using assms by (simp add: finishFunc_def)
next
  case False
  let ?w1 = "case err of None \<Rightarrow> w | Some e \<Rightarrow> on_span (ot_span s) (note_error True e) w"
  let ?w2 = "decorate (ot_opts s) (ot_ctx s) (ot_span s) ?w1"
  have k1: "length (tw_spans ?w1) = length (tw_spans w)" "finished_at (ot_span s) ?w1 = finished_at (ot_span s) w"
    using keeps_finished_nth[OF keeps_note, of "ot_span s" True _ w "ot_span s"] assms
    by (auto simp: good_stream_def split: option.split)
  have k2: "length (tw_spans ?w2) = length (tw_spans w)" "finished_at (ot_span s) ?w2 = 0"
    using keeps_finished_nth[of "decorate (ot_opts s) (ot_ctx s) (ot_span s)" ?w1 "ot_span s"] assms k1 False
    by (auto simp: good_stream_def)
  have "finished_at (ot_span s) (on_span (ot_span s) Finish ?w2) = 1"
    using finish_on_span[of "ot_span s" ?w2] k2 assms by (simp add: good_stream_def)
  then show ?thesis using False assms k2 by (simp add: finishFunc_def good_stream_def length_on_span Let_def)
qed

lemma finishFunc_step:
  assumes "good_stream (s, w)" "finishFunc err (s, w) = (s', w')"
  shows "good_stream (s', w')" "ot_isFinished s'" "ot_span s' = ot_span s" "ot_serverStreams s' = ot_serverStreams s"
  using finishFunc_good[OF assms(1), of err] assms(2) by auto

lemma stream_step_good:
  assumes "good_stream (s, w)" "stream_op_step a (s, w) = (s', w')"
  shows "good_stream (s', w') \<and> ot_span s' = ot_span s \<and> ot_serverStreams s' = ot_serverStreams s \<and>
    (ot_isFinished s' \<longleftrightarrow> ot_isFinished s \<or> ends_stream (ot_serverStreams s) a)"
  using assms finishFunc_step[OF assms(1)] by (cases a) (auto split: if_splits)

lemma stream_run_good:
  assumes "good_stream (s, w)" "fold stream_op_step ops (s, w) = (s', w')"
  shows "good_stream (s', w') \<and> ot_span s' = ot_span s \<and> ot_serverStreams s' = ot_serverStreams s \<and>
    (ot_isFinished s' \<longleftrightarrow> ot_isFinished s \<or> list_ex (ends_stream (ot_serverStreams s)) ops)"
  using assms
proof (induction ops arbitrary: s w)
  case (Cons a ops)
  obtain s1 w1 where s1: "stream_op_step a (s, w) = (s1, w1)" by fastforce
  from stream_step_good[OF Cons.prems(1) s1] Cons.IH[of s1 w1] Cons.prems(2) s1 show ?case by auto
qed simp

text \<open>
  C40 (The span of a stream is finished once). Whatever happens to a stream the interceptor has returned, in any order,
  its span is finished at most once, and it is finished exactly if something has ended the stream.
\<close>

theorem stream_span_finished_once:
  assumes "OpenTracingStreamClientInterceptor M T opts serverStreams meth streamer ctx w = (Inr (Some s), w0)"
    and "\<forall>ctx w. length (tw_spans w) \<le> length (tw_spans (snd (streamer ctx w))) \<and>
      (\<forall>i < length (tw_spans w). finished_at i (snd (streamer ctx w)) = finished_at i w)"
    and "\<forall>ctx i. keeps_finished (decorate opts ctx i)"
    and "fold stream_op_step ops (s, w0) = (s', w')"
  shows "finished_at (ot_span s) w' = (if list_ex (ends_stream serverStreams) ops then 1 else 0)"
proof -
  let ?i = "length (tw_spans w)" and ?w1 = "snd (StartSpan meth (span_parent ctx) client_tags w)"
  obtain ctx1 w2 where inj: "injectSpanContext M T ?i ctx ?w1 = (ctx1, w2)" by fastforce
  have w1: "finished_at ?i ?w1 = 0" "length (tw_spans ?w1) = Suc ?i" by (simp_all add: StartSpan_def finished_at_def)
  have kl: "keeps_finished (on_span ?i (LogFields LogInjectFailed))" by (rule keeps_finished_on_span) (simp add: finished_tag)
  have w2: "finished_at ?i w2 = 0" "length (tw_spans w2) = Suc ?i"
    using inj w1 keeps_finished_nth[OF kl, of ?w1 ?i] by (auto simp: injectSpanContext_def Let_def split: option.splits)
  have s: "s = newOpenTracingClientStream opts serverStreams ?i ctx1" and w0: "w0 = snd (streamer ctx1 w2)"
    using assms(1) inj by (auto simp: OpenTracingStreamClientInterceptor_def StartSpan_def split: if_splits prod.splits option.splits)
  have len: "Suc ?i \<le> length (tw_spans w0)" and fin: "finished_at ?i w0 = 0"
    using assms(2)[rule_format, of w2 ctx1] w2 w0 by auto
  have "good_stream (s, w0)"
    using len fin assms(3) s by (simp add: good_stream_def newOpenTracingClientStream_def)
  from stream_run_good[OF this assms(4)] show ?thesis
    by (auto simp: good_stream_def s newOpenTracingClientStream_def split: if_splits)
qed

definition demo_stream :: "((string \<times> string list) list, unit) client_stream \<times> unit trace_world" where
  "demo_stream =
     (case OpenTracingStreamClientInterceptor list_md \<lparr>tc_inject = (\<lambda>_. Some [(''Trace'', ''1'')]), tc_extract = (\<lambda>_. None)\<rparr> newOptions True ''/s/m''
         (\<lambda>ctx w. (None, w))
         \<lparr>call_context.cx_incoming = None, call_context.cx_outgoing = None, cx_tracingInfo = None, cx_timestamp = None, cx_method = None, sx_span = None,
          sx_tags = None\<rparr> \<lparr>tw_spans = [], tw_tags = []\<rparr> of
        (Inr (Some s), w) \<Rightarrow> (s, w))"

theorem stream_span_finished_once_witness:
  "finished_at 0 (snd (fold stream_op_step [StreamSend None, StreamRecv (Some ErrEOF), ContextDone CtxCanceled, Collected] demo_stream)) = 1"
proof -
  let ?T = "\<lparr>tc_inject = (\<lambda>_. Some [(''Trace'', ''1'')]), tc_extract = (\<lambda>_. None)\<rparr> :: ((string \<times> string list) list, unit) tracer"
  let ?ctx = "\<lparr>call_context.cx_incoming = None, call_context.cx_outgoing = None, cx_tracingInfo = None, cx_timestamp = None, cx_method = None,
      sx_span = None, sx_tags = None\<rparr> :: (string \<times> string list) list span_ctx"
  obtain s w0 where i: "OpenTracingStreamClientInterceptor list_md ?T newOptions True ''/s/m'' (\<lambda>ctx w. (None, w)) ?ctx \<lparr>tw_spans = [], tw_tags = []\<rparr> =
      (Inr (Some s), w0)" and s: "ot_span s = 0" and d: "demo_stream = (s, w0)"
    by (simp add: OpenTracingStreamClientInterceptor_def included_def newOptions_def StartSpan_def injectSpanContext_def span_parent_def
          newOpenTracingClientStream_def demo_stream_def)
  obtain s' w' where f: "fold stream_op_step [StreamSend None, StreamRecv (Some ErrEOF), ContextDone CtxCanceled, Collected] (s, w0) = (s', w')"
    by fastforce
  have "finished_at (ot_span s) w' = 1"
    using stream_span_finished_once[OF i _ _ f] by (simp add: decorate_def newOptions_def keeps_finished_def)
  then show ?thesis unfolding d f by (simp add: s)
qed

section \<open>The interceptors of the framework\<close>

definition framework_options :: "('md, 'c) ot_options" where
  "framework_options = apply_ot_options [SpanDecorator spanTagDecorator]"

definition traced_unary_client ::
  "'md md_ops \<Rightarrow> ('md, 'c) tracer \<Rightarrow> bool \<Rightarrow> string \<Rightarrow> ('md, 'c, go_error option) traced \<Rightarrow> ('md, 'c, go_error option) traced" where
  "traced_unary_client M T inMemory meth invoker ctx w =
     (let (ctx, w) = tracerTagContext ctx w; w = setAdditionalUnarySpanTag M ctx meth inMemory w
      in OpenTracingClientInterceptor M T framework_options meth invoker ctx w)"

definition traced_stream_client ::
  "'md md_ops \<Rightarrow> ('md, 'c) tracer \<Rightarrow> bool \<Rightarrow> bool \<Rightarrow> bool \<Rightarrow> string \<Rightarrow> ('md, 'c, go_error option) traced \<Rightarrow>
   ('md, 'c, go_error + ('md, 'c) client_stream option) traced" where
  "traced_stream_client M T inMemory serverStreams clientStreams meth streamer ctx w =
     (let (ctx, w) = tracerTagContext ctx w; w = setAdditionalStreamSpanTag M ctx meth serverStreams clientStreams inMemory w
      in OpenTracingStreamClientInterceptor M T framework_options serverStreams meth streamer ctx w)"

definition traced_unary_server ::
  "'md md_ops \<Rightarrow> ('md, 'c) tracer \<Rightarrow> string \<Rightarrow> ('md, 'c, go_error + 'r) traced \<Rightarrow> ('md, 'c, go_error + 'r) traced" where
  "traced_unary_server M T fullMethod handler ctx w =
     (let (ctx, w) = tracerTagContext ctx w; w = setAdditionalUnarySpanTag M ctx fullMethod False w
      in OpenTracingServerInterceptor M T framework_options fullMethod handler ctx w)"

definition traced_stream_server ::
  "'md md_ops \<Rightarrow> ('md, 'c) tracer \<Rightarrow> bool \<Rightarrow> bool \<Rightarrow> string \<Rightarrow> ('md, 'c, go_error option) traced \<Rightarrow> ('md, 'c, go_error option) traced" where
  "traced_stream_server M T isServerStream isClientStream fullMethod handler ctx w =
     (let (ctx, w) = tracerTagContext ctx w; w = setAdditionalStreamSpanTag M ctx fullMethod isServerStream isClientStream False w
      in OpenTracingStreamServerInterceptor M T framework_options fullMethod handler ctx w)"

text \<open>The framework's decorator finishes nothing, so the theorem on streams applies to its interceptors.\<close>

lemma framework_decorator: "keeps_finished (decorate framework_options ctx i)"
  using keeps_decorator[of ctx i] by (simp add: decorate_def framework_options_def apply_ot_options_def SpanDecorator_def keeps_finished_def)

lemma SetTag_lookup: "map_of (sp_tags (SetTag k' v sp)) k = (if k = k' then Some v else map_of (sp_tags sp) k)"
  by (simp add: SetTag_def update_conv')

lemma fold_tags_lookup:
  "distinct (map fst kvs) \<Longrightarrow>
   map_of (sp_tags (fold (\<lambda>(k, v). SetTag k v) kvs sp)) k = (case map_of kvs k of None \<Rightarrow> map_of (sp_tags sp) k | Some v \<Rightarrow> Some v)"
proof (induction kvs arbitrary: sp)
  case (Cons kv kvs)
  obtain a b where kv: "kv = (a, b)" by fastforce
  then have "map_of kvs a = None" using Cons.prems by (simp add: map_of_eq_None_iff)
  then show ?case using Cons kv by (auto simp: SetTag_lookup split: option.split)
qed simp

lemma decorator_tags:
  assumes "sx_tags ctx = Some t" "i < length (tw_spans w)" "distinct (map fst (tw_tags w ! t))" "map_of (tw_tags w ! t) k = Some v"
  shows "map_of (sp_tags (tw_spans (spanTagDecorator ctx i w) ! i)) k = Some v"
  unfolding spanTagDecorator_def on_span_def
  using assms(1,2) fold_tags_lookup[OF assms(3), of "tw_spans w ! i" k, unfolded assms(4)] by simp

section \<open>Metrics\<close>

definition contains_str :: "string \<Rightarrow> string \<Rightarrow> bool" where
  "contains_str s sub \<longleftrightarrow> list_ex (\<lambda>i. has_prefix (drop i s) sub) [0..<Suc (length s)]"

text \<open>The entries are lowered up to the first star.\<close>

fun lower_list :: "string list \<Rightarrow> bool \<times> string list" where
  "lower_list [] = (False, [])"
| "lower_list (s # ss) =
     (if to_lower s = ''*'' then (True, to_lower s # ss)
      else (case lower_list ss of (allowAll, ss') \<Rightarrow> (allowAll, to_lower s # ss')))"

definition serviceListChecker :: "string list \<Rightarrow> string \<Rightarrow> bool" where
  "serviceListChecker cfg serviceName =
     (let (allowAll, serviceList) = lower_list cfg
      in allowAll \<or> list_ex (\<lambda>service. service \<noteq> '''' \<and> contains_str (to_lower serviceName) service) serviceList)"

definition replaceServiceName :: "'md md_ops \<Rightarrow> 'md option \<Rightarrow> string \<Rightarrow> string" where
  "replaceServiceName M incoming fullMethod =
     (case incoming of
        None \<Rightarrow> fullMethod
      | Some md \<Rightarrow>
          (let targetMd = md_Get M md ''x-grpc-target''
           in if length targetMd = 0 then fullMethod
              else (let target = targetMd ! (length targetMd - 1); path = split_char (CHR ''/'') fullMethod
                    in if length path \<noteq> 3 then fullMethod else ''/'' @ target @ ''/'' @ path ! 2)))"

text \<open>The interceptors, \<open>None\<close> when metrics are off; \<open>monitor\<close> is that of the package \<open>grpc_prometheus\<close>.\<close>

definition prometheus_UnaryServerInterceptor ::
  "'md md_ops \<Rightarrow> bool \<Rightarrow> string list \<Rightarrow> (string \<Rightarrow> 'r \<Rightarrow> 'r) \<Rightarrow> ('md option \<Rightarrow> string \<Rightarrow> (string \<Rightarrow> 'r) \<Rightarrow> 'r) option" where
  "prometheus_UnaryServerInterceptor M enabled cfg monitor =
     (if \<not> enabled then None
      else Some (\<lambda>incoming fullMethod handler.
        (let fullMethod = replaceServiceName M incoming fullMethod
         in if serviceListChecker cfg fullMethod then monitor fullMethod (handler fullMethod) else handler fullMethod)))"

definition prometheus_UnaryClientInterceptor ::
  "bool \<Rightarrow> bool \<Rightarrow> string list \<Rightarrow> (string \<Rightarrow> 'r \<Rightarrow> 'r) \<Rightarrow> (string \<Rightarrow> 'r \<Rightarrow> 'r) option" where
  "prometheus_UnaryClientInterceptor enabled clientMetrics cfg monitor =
     (if \<not> enabled \<or> \<not> clientMetrics then None
      else Some (\<lambda>meth result. if serviceListChecker cfg meth then monitor meth result else result))"

definition prometheus_StreamServerInterceptor ::
  "'md md_ops \<Rightarrow> bool \<Rightarrow> string list \<Rightarrow> (string \<Rightarrow> 'r \<Rightarrow> 'r) \<Rightarrow> ('md option \<Rightarrow> string \<Rightarrow> (string \<Rightarrow> 'r) \<Rightarrow> 'r) option" where
  "prometheus_StreamServerInterceptor M enabled cfg monitor =
     (if \<not> enabled then None
      else Some (\<lambda>incoming fullMethod handler.
        (let fullMethod = replaceServiceName M incoming fullMethod
         in if serviceListChecker cfg fullMethod then monitor fullMethod (handler fullMethod) else handler fullMethod)))"

definition prometheus_StreamClientInterceptor ::
  "bool \<Rightarrow> bool \<Rightarrow> string list \<Rightarrow> (string \<Rightarrow> 'r \<Rightarrow> 'r) \<Rightarrow> (string \<Rightarrow> 'r \<Rightarrow> 'r) option" where
  "prometheus_StreamClientInterceptor enabled clientMetrics cfg monitor =
     (if \<not> enabled \<or> \<not> clientMetrics then None
      else Some (\<lambda>meth result. if serviceListChecker cfg meth then monitor meth result else result))"

definition typeFromMethodInfo :: "bool \<Rightarrow> bool \<Rightarrow> string" where
  "typeFromMethodInfo isClientStream isServerStream =
     (if \<not> isClientStream \<and> \<not> isServerStream then ''unary''
      else if isClientStream \<and> \<not> isServerStream then ''client_stream''
      else if \<not> isClientStream \<and> isServerStream then ''server_stream''
      else ''bidi_stream'')"

definition metrics_addr :: "(string \<Rightarrow> string option) \<Rightarrow> string option \<Rightarrow> string \<Rightarrow> string \<Rightarrow> string" where
  "metrics_addr splitHost hostIp flagAddr serverAddrFlag =
     (if trim_space flagAddr \<noteq> '''' then flagAddr
      else (let host = (if serverAddrFlag = '''' then ''''
                        else (let a = (if has_prefix serverAddrFlag ''[::]:''
                                       then (case last_index serverAddrFlag (CHR '':'') of None \<Rightarrow> serverAddrFlag | Some i \<Rightarrow> drop i serverAddrFlag)
                                       else serverAddrFlag)
                              in if hd a = CHR '':'' then '''' else (case splitHost a of None \<Rightarrow> '''' | Some h \<Rightarrow> h)))
            in if host = '''' then (case hostIp of None \<Rightarrow> '''' | Some ip \<Rightarrow> ip) else host))"

lemma replaceServiceName_alias: "replaceServiceName = serviceAliasName"
  by (auto simp: fun_eq_iff replaceServiceName_def serviceAliasName_def targetMeta_def last_conv_nth Let_def split: option.splits)

text \<open>The two packages name the kind of a stream alike.\<close>

lemma stream_types_agree: "c \<or> s \<Longrightarrow> typeFromMethodInfo c s = stream_type s c"
  by (auto simp: typeFromMethodInfo_def stream_type_def)

lemma lower_list_spec: "lower_list cfg = (''*'' \<in> set (map to_lower cfg), ss) \<Longrightarrow> fst (lower_list cfg) \<or> ss = map to_lower cfg"
  by (induction cfg arbitrary: ss) (auto split: prod.splits if_splits)

lemma lower_list_star: "fst (lower_list cfg) \<longleftrightarrow> ''*'' \<in> set (map to_lower cfg)"
  by (induction cfg) (auto split: prod.splits)

text \<open>A method is measured if a star is in the list, or a non-empty entry occurs in its name without regard to case.\<close>

lemma serviceListChecker_iff:
  "serviceListChecker cfg name \<longleftrightarrow>
     ''*'' \<in> set (map to_lower cfg) \<or> (\<exists>s \<in> set cfg. s \<noteq> '''' \<and> contains_str (to_lower name) (to_lower s))"
proof (cases "fst (lower_list cfg)")
  case True
  then show ?thesis using lower_list_star[of cfg] by (simp add: serviceListChecker_def case_prod_beta)
next
  case False
  obtain b ss where l: "lower_list cfg = (b, ss)" by fastforce
  then have "ss = map to_lower cfg" using lower_list_spec[of cfg ss] False lower_list_star[of cfg] by auto
  then show ?thesis using False l lower_list_star[of cfg] by (auto simp: serviceListChecker_def list_ex_iff)
qed

end
