(* ===== verification/Logging.thy ===== *)
theory Logging
  imports Lifecycle
begin

text \<open>
  The logger, \<^verbatim>\<open>log\<close>: levels, entries and what they derive, the text encoder, and the search for the caller. The
  frames of the stack, the time and the printing of values are arguments; a line that is written is an event.
\<close>

section \<open>Levels\<close>

abbreviation (input) TraceLevel :: nat where "TraceLevel \<equiv> 0"
abbreviation (input) DebugLevel :: nat where "DebugLevel \<equiv> 1"
abbreviation (input) InfoLevel :: nat where "InfoLevel \<equiv> 2"
abbreviation (input) WarnLevel :: nat where "WarnLevel \<equiv> 3"
abbreviation (input) ErrorLevel :: nat where "ErrorLevel \<equiv> 4"
abbreviation (input) FatalLevel :: nat where "FatalLevel \<equiv> 5"
abbreviation (input) NoneLevel :: nat where "NoneLevel \<equiv> 6"

definition level_String :: "nat \<Rightarrow> string" where
  "level_String l =
     (if l = DebugLevel then ''DEBUG'' else if l = InfoLevel then ''INFO'' else if l = WarnLevel then ''WARN''
      else if l = ErrorLevel then ''ERROR'' else if l = FatalLevel then ''FATAL'' else if l = TraceLevel then ''TRACE''
      else if l = NoneLevel then ''NONE'' else ''UNKNOWN'')"

definition ParseLevel :: "string \<Rightarrow> string + nat" where
  "ParseLevel level =
     (let s = to_lower level
      in if s = ''info'' then Inr InfoLevel else if s = ''warn'' then Inr WarnLevel else if s = ''error'' then Inr ErrorLevel
         else if s = ''trace'' then Inr TraceLevel else if s = ''none'' then Inr NoneLevel else if s = ''debug'' then Inr DebugLevel
         else Inl (''unknown error level '' @ level))"

section \<open>Callers\<close>

text \<open>\<open>strings.LastIndex\<close> is \<open>-1\<close> when there is none.\<close>

definition LastIndex :: "string \<Rightarrow> char \<Rightarrow> int" where
  "LastIndex s c = (case last_index s c of None \<Rightarrow> -1 | Some i \<Rightarrow> int i)"

lemma last_index_bound: "last_index s c = Some i \<Longrightarrow> i < length s"
  by (induction s arbitrary: i) (auto split: option.splits if_splits)

function GetPackageName :: "string \<Rightarrow> string" where
  "GetPackageName p =
     (let lastPeriod = LastIndex p (CHR ''.''); lastSlash = LastIndex p (CHR ''/'')
      in if lastPeriod > lastSlash then GetPackageName (take (nat lastPeriod) p) else p)"
  by pat_completeness auto
termination
  by (relation "measure length") (auto simp: LastIndex_def split: option.splits dest: last_index_bound)

definition compactFunctionName :: "string \<Rightarrow> string" where
  "compactFunctionName funcName =
     (let lastPeriod = LastIndex funcName (CHR ''.'')
      in if lastPeriod = -1 then funcName
         else if lastPeriod + 1 \<ge> int (length funcName) then funcName
         else drop (nat (lastPeriod + 1)) funcName)"

definition funcSkips :: "string list" where
  "funcSkips = [''Trace'', ''Debug'', ''Info'', ''Warn'', ''Error'', ''Fatal'', ''Tracef'', ''Debugf'', ''Infof'', ''Warnf'', ''Errorf'', ''Fatalf'',
     ''Infoln'', ''Warningln'', ''Warningf'', ''Errorln'', ''Fatalln'']"

text \<open>
  The values of the map are empty structs in an interface, which are not nil: a function is skipped when its name is a
  key. The loop stops before it looks at the last frame, when \<open>Next\<close> says that no more will follow.
\<close>

record frame =
  fr_Function :: string
  fr_File :: string
  fr_Line :: int

definition GetCaller :: "string \<Rightarrow> bool \<Rightarrow> frame list \<Rightarrow> frame option" where
  "GetCaller packageName skipLogFunc frames =
     find (\<lambda>f. GetPackageName (fr_Function f) \<noteq> packageName \<and> (\<not> skipLogFunc \<or> compactFunctionName (fr_Function f) \<notin> set funcSkips))
       (butlast frames)"

section \<open>Entries\<close>

type_synonym 'v fields = "(string \<times> 'v) list"

record 'v log_entry =
  le_Fields :: "'v fields"
  le_Time :: string
  le_Level :: nat
  le_Caller :: "frame option"
  le_Msg :: string

text \<open>The minimal level and the interval are pointers that derived entries share; nothing writes through them.\<close>

record ('v, 'x) entry =
  en_ctx :: "'x option"
  en_minLevel :: nat
  en_interval :: int
  en_Fields :: "'v fields"

definition newEntry :: "('v, 'x) entry" where
  "newEntry = \<lparr>en_ctx = None, en_minLevel = TraceLevel, en_interval = 0, en_Fields = []\<rparr>"

definition isLevelEnabled :: "('v, 'x) entry \<Rightarrow> nat \<Rightarrow> bool" where
  "isLevelEnabled s l \<longleftrightarrow> l = FatalLevel \<or> l \<ge> en_minLevel s"

text \<open>\<open>WithConfig\<close> answers nil for a configuration that is not.\<close>

definition WithConfig :: "'g option \<Rightarrow> ('v, 'x) entry \<Rightarrow> ('v, 'x) entry option" where
  "WithConfig config s = (case config of None \<Rightarrow> Some s | Some _ \<Rightarrow> None)"

definition WithRateLimit :: "int \<Rightarrow> ('v, 'x) entry \<Rightarrow> ('v, 'x) entry" where
  "WithRateLimit interval s = newEntry\<lparr>en_Fields := en_Fields s, en_minLevel := en_minLevel s, en_interval := interval, en_ctx := en_ctx s\<rparr>"

definition isRateLimited :: "('v, 'x) entry \<Rightarrow> bool" where
  "isRateLimited s = (if en_interval s = 0 then False else False)"

definition WithLevel :: "nat \<Rightarrow> ('v, 'x) entry \<Rightarrow> ('v, 'x) entry" where
  "WithLevel level s = newEntry\<lparr>en_Fields := en_Fields s, en_minLevel := level, en_interval := en_interval s, en_ctx := en_ctx s\<rparr>"

definition WithFields :: "'v fields \<Rightarrow> ('v, 'x) entry \<Rightarrow> ('v, 'x) entry" where
  "WithFields fs s = newEntry\<lparr>en_Fields := en_Fields s @ fs, en_minLevel := en_minLevel s, en_interval := en_interval s, en_ctx := en_ctx s\<rparr>"

definition WithField :: "string \<Rightarrow> 'v \<Rightarrow> ('v, 'x) entry \<Rightarrow> ('v, 'x) entry" where
  "WithField key v s = WithFields [(key, v)] s"

definition WithContext :: "'x \<Rightarrow> ('v, 'x) entry \<Rightarrow> ('v, 'x) entry" where
  "WithContext ctx s = newEntry\<lparr>en_Fields := en_Fields s, en_minLevel := en_minLevel s, en_interval := en_interval s, en_ctx := Some ctx\<rparr>"

definition LogLevel :: "('v, 'x) entry \<Rightarrow> nat" where
  "LogLevel s = en_minLevel s"

section \<open>Writing\<close>

text \<open>
  What the logger is made of: the providers of fields for a context, the encoder, and the text of values. \<open>None\<close> is a
  panic: the encoder follows the pointer to the caller, which is nil when no frame fits.
\<close>

definition base_name :: "string \<Rightarrow> string" where
  "base_name file = last (split_char (CHR ''/'') file)"

definition fixed_parts :: "'v log_entry \<Rightarrow> string list option" where
  "fixed_parts e =
     (case le_Caller e of
        None \<Rightarrow> None
      | Some f \<Rightarrow>
          Some [le_Time e, ''['' @ level_String (le_Level e) @ '']'', ''<'' @ base_name (fr_File f) @ '':'' @ format_int (fr_Line f) @ ''>''])"

definition Encode :: "('v \<Rightarrow> string) \<Rightarrow> string \<Rightarrow> bool \<Rightarrow> 'v log_entry \<Rightarrow> string option" where
  "Encode show_value sep withFixedParts e =
     (case (if withFixedParts then fixed_parts e else Some []) of
        None \<Rightarrow> None
      | Some fixed \<Rightarrow>
          Some (join sep (fixed @ map (\<lambda>(k, v). k @ '':'' @ show_value v) (le_Fields e) @ [''msg:'' @ le_Msg e])))"

record ('v, 'x) log_env =
  lv_providers :: "('x \<Rightarrow> 'v fields) list"
  lv_encode :: "'v log_entry \<Rightarrow> string option"
  lv_now :: string
  lv_caller :: "frame option"

definition log_line :: "('v, 'x) log_env \<Rightarrow> nat \<Rightarrow> string \<Rightarrow> ('v, 'x) entry \<Rightarrow> string list option" where
  "log_line L level msg s =
     (if isRateLimited s then Some []
      else (let fs = (case en_ctx s of None \<Rightarrow> en_Fields s | Some ctx \<Rightarrow> en_Fields s @ concat (map (\<lambda>p. p ctx) (lv_providers L)))
            in case lv_encode L \<lparr>le_Fields = fs, le_Time = lv_now L, le_Level = level, le_Caller = lv_caller L, le_Msg = msg\<rparr> of
                 None \<Rightarrow> None
               | Some line \<Rightarrow> Some (if line = '''' then [] else [line])))"

datatype log_effect = Continue "string list" | ExitAfter "string list" | LogPanic

definition of_lines :: "(string list \<Rightarrow> log_effect) \<Rightarrow> string list option \<Rightarrow> log_effect" where
  "of_lines f ls = (case ls of None \<Rightarrow> LogPanic | Some l \<Rightarrow> f l)"

definition log_at :: "('v, 'x) log_env \<Rightarrow> nat \<Rightarrow> string \<Rightarrow> ('v, 'x) entry \<Rightarrow> log_effect" where
  "log_at L level msg s = (if \<not> isLevelEnabled s level then Continue [] else of_lines Continue (log_line L level msg s))"

text \<open>\<open>Fatal\<close> ends the program whether it logs or not.\<close>

definition Fatal :: "('v, 'x) log_env \<Rightarrow> string \<Rightarrow> ('v, 'x) entry \<Rightarrow> log_effect" where
  "Fatal L msg s = (if isLevelEnabled s FatalLevel then of_lines ExitAfter (log_line L FatalLevel msg s) else ExitAfter [])"

section \<open>Loggers\<close>

record ('e, 'w, 'v, 'x) logger_opts =
  lo_encoder :: "'e option"
  lo_writer :: "'w option"
  lo_minLevelOp :: "(('v, 'x) entry \<Rightarrow> ('v, 'x) entry) option"

definition WithEncoder :: "'e option \<Rightarrow> ('e, 'w, 'v, 'x) logger_opts \<Rightarrow> ('e, 'w, 'v, 'x) logger_opts" where
  "WithEncoder encoder opts = opts\<lparr>lo_encoder := encoder\<rparr>"

definition WithWriter :: "'w option \<Rightarrow> ('e, 'w, 'v, 'x) logger_opts \<Rightarrow> ('e, 'w, 'v, 'x) logger_opts" where
  "WithWriter writer opts = opts\<lparr>lo_writer := writer\<rparr>"

definition WithMinLevel :: "nat \<Rightarrow> ('e, 'w, 'v, 'x) logger_opts \<Rightarrow> ('e, 'w, 'v, 'x) logger_opts" where
  "WithMinLevel minLevel opts = opts\<lparr>lo_minLevelOp := Some (WithLevel minLevel)\<rparr>"

datatype ('v, 'x) new_logger = LoggerError string | LoggerPanic | NewLogger "('v, 'x) entry option"

text \<open>The operation for the minimal level is applied to whatever \<open>WithConfig\<close> answered; on nil it panics.\<close>

definition make_logger ::
  "'g option \<Rightarrow> (('e, 'w, 'v, 'x) logger_opts \<Rightarrow> ('e, 'w, 'v, 'x) logger_opts) list \<Rightarrow> ('v, 'x) new_logger" where
  "make_logger config opts =
     (let lo = fold (\<lambda>f. f) opts \<lparr>lo_encoder = None, lo_writer = None, lo_minLevelOp = None\<rparr>
      in if lo_encoder lo = None then LoggerError ''no log encoder available''
         else if lo_writer lo = None then LoggerError ''no log writer available''
         else (case lo_minLevelOp lo of
                 None \<Rightarrow> NewLogger (WithConfig config newEntry)
               | Some op \<Rightarrow> (case WithConfig config newEntry of None \<Rightarrow> LoggerPanic | Some e \<Rightarrow> NewLogger (Some (op e)))))"

definition DefaultLogger :: "bool \<Rightarrow> ('v, 'x) new_logger \<Rightarrow> ('v, 'x) entry option" where
  "DefaultLogger initialized console = (if \<not> initialized then (case console of NewLogger l \<Rightarrow> l | _ \<Rightarrow> None) else None)"

section \<open>What holds\<close>

declare GetPackageName.simps [simp del]

lemma level_roundtrip: "l \<le> 6 \<Longrightarrow> l \<noteq> FatalLevel \<Longrightarrow> ParseLevel (level_String l) = Inr l"
proof -
  assume l: "l \<le> 6" "l \<noteq> 5"
  have "list_all (\<lambda>l. l = 5 \<or> ParseLevel (level_String l) = Inr l) [0, 1, 2, 3, 4, 5, 6]" by code_simp
  moreover have "l \<in> set [0, 1, 2, 3, 4, 5, 6]" using l by (simp, linarith)
  ultimately show ?thesis using l by (auto simp: list_all_iff)
qed

text \<open>The level of fatal errors has a name that is not parsed.\<close>

lemma fatal_not_parsed: "ParseLevel (level_String FatalLevel) = Inl ''unknown error level FATAL''"
  by code_simp

lemma last_index_append: "last_index (s @ t) c = (case last_index t c of Some i \<Rightarrow> Some (length s + i) | None \<Rightarrow> last_index s c)"
  by (induction s) (auto split: option.splits)

lemma last_index_None: "last_index s c = None \<longleftrightarrow> c \<notin> set s"
  by (induction s) (auto split: option.splits)

lemma last_index_nth: "last_index s c = Some i \<Longrightarrow> s ! i = c"
  by (induction s arbitrary: i) (auto split: option.splits if_splits)

text \<open>The directory of a path with its slash, and the rest.\<close>

definition split_path :: "string \<Rightarrow> string \<times> string" where
  "split_path p = (case last_index p (CHR ''/'') of None \<Rightarrow> ('''', p) | Some i \<Rightarrow> (take (Suc i) p, drop (Suc i) p))"

lemma takeWhile_take_dot: "b ! k = c \<Longrightarrow> k < length b \<Longrightarrow> takeWhile (\<lambda>x. x \<noteq> c) (take k b) = takeWhile (\<lambda>x. x \<noteq> c) b"
  by (induction b arbitrary: k) (auto simp: nth_Cons split: nat.splits)

lemma GetPackageName_parts:
  assumes "CHR ''/'' \<notin> set b" "d = '''' \<or> (\<exists>d'. d = d' @ ''/'')"
  shows "GetPackageName (d @ b) = d @ takeWhile (\<lambda>c. c \<noteq> CHR ''.'') b"
  using assms(1)
proof (induction "length b" arbitrary: b rule: less_induct)
  case less
  have slash: "LastIndex (d @ b) (CHR ''/'') = int (length d) - 1"
    using less.prems assms(2) last_index_None[of b "CHR ''/''"] by (auto simp: LastIndex_def last_index_append split: option.splits)
  show ?case
  proof (cases "last_index b (CHR ''.'')")
    case None
    then have dot: "CHR ''.'' \<notin> set b" by (simp add: last_index_None)
    have "LastIndex (d @ b) (CHR ''.'') \<le> int (length d) - 1"
      using None by (auto simp: LastIndex_def last_index_append split: option.split dest: last_index_bound)
    then have "GetPackageName (d @ b) = d @ b" by (subst GetPackageName.simps) (simp add: slash Let_def)
    moreover have "takeWhile (\<lambda>c. c \<noteq> CHR ''.'') b = b" using dot by (auto simp: takeWhile_eq_all_conv)
    ultimately show ?thesis by metis
  next
    case (Some k)
    have k: "k < length b" "b ! k = CHR ''.''" using last_index_bound[OF Some] last_index_nth[OF Some] by auto
    have li: "LastIndex (d @ b) (CHR ''.'') = int (length d + k)" using Some by (simp add: LastIndex_def last_index_append)
    have "GetPackageName (d @ b) = GetPackageName (d @ take k b)"
      by (subst GetPackageName.simps) (simp add: slash li Let_def nat_int_add)
    also have "\<dots> = d @ takeWhile (\<lambda>c. c \<noteq> CHR ''.'') (take k b)"
      by (rule less.hyps) (use k less.prems in \<open>auto dest: in_set_takeD\<close>)
    also have "\<dots> = d @ takeWhile (\<lambda>c. c \<noteq> CHR ''.'') b" using takeWhile_take_dot[OF k(2,1)] by simp
    finally show ?thesis .
  qed
qed

text \<open>The package of a function is its path up to the first dot after the last slash.\<close>

theorem package_of_function:
  "GetPackageName p = fst (split_path p) @ takeWhile (\<lambda>c. c \<noteq> CHR ''.'') (snd (split_path p))"
proof (cases "last_index p (CHR ''/'')")
  case None
  then have "split_path p = ('''', p)" "CHR ''/'' \<notin> set p" by (simp_all add: split_path_def last_index_None[symmetric])
  then show ?thesis using GetPackageName_parts[of p "''''"] by simp
next
  case (Some i)
  have i: "i < length p" "p ! i = CHR ''/''" using last_index_bound[OF Some] last_index_nth[OF Some] by auto
  have t: "take (Suc i) p = take i p @ ''/''" using i by (simp add: take_Suc_conv_app_nth)
  have n: "CHR ''/'' \<notin> set (drop (Suc i) p)"
  proof
    assume "CHR ''/'' \<in> set (drop (Suc i) p)"
    then obtain j where "last_index (drop (Suc i) p) (CHR ''/'') = Some j" using last_index_None by (metis not_None_eq)
    then have "last_index (take (Suc i) p @ drop (Suc i) p) (CHR ''/'') = Some (Suc i + j)"
      using i by (simp add: last_index_append del: append_take_drop_id)
    then show False using Some by simp
  qed
  have "GetPackageName (take (Suc i) p @ drop (Suc i) p) = take (Suc i) p @ takeWhile (\<lambda>c. c \<noteq> CHR ''.'') (drop (Suc i) p)"
    by (rule GetPackageName_parts[OF n]) (use t in blast)
  then show ?thesis using Some by (simp add: split_path_def)
qed

text \<open>A line is written exactly if its level is at least the minimal one, and never without its fields.\<close>

lemma log_at_levels:
  assumes "lv_encode L = Encode sv sep False"
  shows "\<exists>ls. log_at L level msg s = Continue ls \<and> (ls = [] \<longleftrightarrow> level < en_minLevel s \<and> level \<noteq> FatalLevel)"
proof -
  have "join sep (xs @ [''msg:'' @ msg]) \<noteq> ''''" for xs by (induction xs rule: induct_list012) auto
  then show ?thesis using assms
    by (auto simp: log_at_def log_line_def Encode_def isRateLimited_def isLevelEnabled_def of_lines_def Let_def)
qed

lemma derived_entries:
  "en_minLevel (WithFields fs s) = en_minLevel s" "en_Fields (WithFields fs (WithFields gs s)) = en_Fields s @ gs @ fs"
  "en_ctx (WithLevel l (WithContext c s)) = Some c" "LogLevel (WithContext c (WithLevel l s)) = l"
  "en_Fields (WithContext c (WithLevel l s)) = en_Fields s"
  by (simp_all add: WithFields_def WithLevel_def WithContext_def LogLevel_def newEntry_def)

text \<open>With a configuration a logger is nil, so the functions of the package, which call it, panic.\<close>

lemma configured_logger_nil:
  "make_logger (Some g) [WithEncoder (Some e), WithWriter (Some w)] = NewLogger None"
  "DefaultLogger initialized (make_logger (Some g) [WithEncoder (Some e), WithWriter (Some w)]) = None"
  by (simp_all add: make_logger_def WithEncoder_def WithWriter_def WithConfig_def DefaultLogger_def)

lemma configured_level_panics:
  "make_logger (Some g) [WithEncoder (Some e), WithWriter (Some w), WithMinLevel l] = LoggerPanic"
  by (simp add: make_logger_def WithEncoder_def WithWriter_def WithMinLevel_def WithConfig_def)

end
