(* ===== verification/Certificate.thy ===== *)
theory Certificate
  imports Credentials
begin

text \<open>
  Certificates made by the program, \<^verbatim>\<open>certificate/\<close>: requests, issuers, the store and the factory that renews what is about to
  expire, and the self-signed certificate of a server (\<^verbatim>\<open>credentials/option.go\<close>, \<^verbatim>\<open>credentials/issuer.go\<close>).

  A TLS certificate is of any type \<open>'c\<close>; \<open>parse\<close> gives the dates of its first part, as \<open>x509.ParseCertificate\<close> does. The
  functions of \<^verbatim>\<open>pkix/\<close>, which call \<open>crypto/x509\<close>, are the arguments of \<open>pkix_env\<close>. Times are nanoseconds.
\<close>

section \<open>Requests and the store\<close>

record cert_request =
  rq_commonName :: string
  rq_ips :: "string list"
  rq_domains :: "string list"
  rq_certChain :: bool

definition NewCertRequest :: "string \<Rightarrow> string list \<Rightarrow> string list \<Rightarrow> bool \<Rightarrow> cert_request" where
  "NewCertRequest commonName ips domains certChain =
     \<lparr>rq_commonName = commonName, rq_ips = ips, rq_domains = domains, rq_certChain = certChain\<rparr>"

definition rq_Id :: "cert_request \<Rightarrow> string" where
  "rq_Id s = rq_commonName s"

definition rq_PubkeyBits :: "cert_request \<Rightarrow> int" where
  "rq_PubkeyBits s = 2048"

record cert_info =
  in_NotBefore :: int
  in_NotAfter :: int

record 'c certificate_val =
  cv_request :: cert_request
  cv_cert :: "'c option"
  cv_info :: "cert_info option"

type_synonym ('i, 'c) cert_store = "('i \<times> (string \<times> 'c certificate_val) list) list"

definition NewDefaultStore :: "('i, 'c) cert_store" where
  "NewDefaultStore = []"

text \<open>The map of an issuer is entered before the certificate is parsed.\<close>

definition store_Store ::
  "('c \<Rightarrow> string + cert_info) \<Rightarrow> 'i \<Rightarrow> cert_request \<Rightarrow> 'c \<Rightarrow> ('i, 'c) cert_store \<Rightarrow> string option \<times> ('i, 'c) cert_store" where
  "store_Store parse issuer request cert s =
     (let idMap = (case mget s issuer of None \<Rightarrow> [] | Some m \<Rightarrow> m);
          s = (case mget s issuer of None \<Rightarrow> AList.update issuer [] s | Some _ \<Rightarrow> s)
      in case parse cert of
           Inl e \<Rightarrow> (Some e, s)
         | Inr info \<Rightarrow>
             (None, AList.update issuer
                (AList.update (rq_Id request) \<lparr>cv_request = request, cv_cert = Some cert, cv_info = Some info\<rparr> idMap) s))"

definition store_Get :: "'i \<Rightarrow> cert_request \<Rightarrow> ('i, 'c) cert_store \<Rightarrow> string + 'c \<times> cert_info" where
  "store_Get issuer request s =
     (case mget s issuer of
        None \<Rightarrow> Inl ''specified issuer found in certificate store''
      | Some idMap \<Rightarrow>
          (case mget idMap (rq_Id request) of
             None \<Rightarrow> Inl ''no certificate found in certificate store''
           | Some v \<Rightarrow>
               (case (cv_cert v, cv_info v) of
                  (Some c, Some info) \<Rightarrow> Inr (c, info)
                | _ \<Rightarrow> Inl ''certificate is nil in certificate store'')))"

section \<open>Renewal\<close>

datatype renewal_action = RenewalNow | RenewalAsync | NoRenewal

abbreviation time_Minute :: int where "time_Minute \<equiv> 60 * time_Second"

definition DefaultRenewalPolicy :: "int \<Rightarrow> int \<Rightarrow> string + 'c \<times> cert_info \<Rightarrow> renewal_action" where
  "DefaultRenewalPolicy renewalBefore now got =
     (case got of
        Inl _ \<Rightarrow> RenewalNow
      | Inr (cert, info) \<Rightarrow>
          (let delta = in_NotAfter info - now
           in if delta > renewalBefore then NoRenewal else if delta \<ge> time_Minute then RenewalAsync else RenewalNow))"

definition NoRenewalPolicy :: "string + 'c \<times> cert_info \<Rightarrow> renewal_action" where
  "NoRenewalPolicy got = (case got of Inl _ \<Rightarrow> RenewalNow | Inr _ \<Rightarrow> NoRenewal)"

definition defaultRenewalHook :: "int \<Rightarrow> string + 'c \<times> cert_info \<Rightarrow> renewal_action" where
  "defaultRenewalHook = DefaultRenewalPolicy (3 * 24 * 3600 * time_Second)"

text \<open>\<open>Produce\<close>: what the issuer made is stored, and all consumers are told of the request and the error.\<close>

definition Produce ::
  "('c \<Rightarrow> string + cert_info) \<Rightarrow> ('i \<Rightarrow> cert_request \<Rightarrow> string + 'c) \<Rightarrow> 'i \<Rightarrow> cert_request \<Rightarrow> ('i, 'c) cert_store \<Rightarrow> string option \<times> ('i, 'c) cert_store" where
  "Produce parse Issue issuer request s =
     (case Issue issuer request of
        Inl e \<Rightarrow> (Some e, s)
      | Inr cert \<Rightarrow> store_Store parse issuer request cert s)"

text \<open>
  A renewal runs \<open>Produce\<close> in a goroutine and waits for the first error that its consumer is told, for ten seconds. The
  consumer hears of every \<open>Produce\<close> of the factory: its own, or another one that ends before.
\<close>

datatype wait_result = OwnResult | OtherResult "string option" | TimedOut

definition renewal ::
  "('c \<Rightarrow> string + cert_info) \<Rightarrow> ('i \<Rightarrow> cert_request \<Rightarrow> string + 'c) \<Rightarrow> wait_result \<Rightarrow> 'i \<Rightarrow> cert_request \<Rightarrow> ('i, 'c) cert_store \<Rightarrow>
   string option \<times> ('i, 'c) cert_store" where
  "renewal parse Issue waited issuer request s =
     (case waited of
        OwnResult \<Rightarrow> Produce parse Issue issuer request s
      | OtherResult e \<Rightarrow> (e, s)
      | TimedOut \<Rightarrow> (Some ''context deadline exceeded'', s))"

text \<open>
  \<open>Fetch\<close> with the answer of the renewal hook for what was found. Of an asynchronous renewal, \<open>early\<close> tells whether it has
  ended when the store is read again; \<open>s\<close> is the store at that time if it has not.
\<close>

definition Fetch ::
  "('c \<Rightarrow> string + cert_info) \<Rightarrow> ('i \<Rightarrow> cert_request \<Rightarrow> string + 'c) \<Rightarrow> (string + 'c \<times> cert_info \<Rightarrow> renewal_action) \<Rightarrow> wait_result \<Rightarrow> bool \<Rightarrow>
   'i \<Rightarrow> cert_request \<Rightarrow> ('i, 'c) cert_store \<Rightarrow> (string + 'c) \<times> ('i, 'c) cert_store" where
  "Fetch parse Issue renewalHook waited early issuer request s =
     (let got = store_Get issuer request s
      in case renewalHook got of
           NoRenewal \<Rightarrow> (map_sum id fst got, s)
         | RenewalNow \<Rightarrow>
             (case renewal parse Issue waited issuer request s of
                (Some e, s') \<Rightarrow> (Inl e, s')
              | (None, s') \<Rightarrow> (map_sum id fst (store_Get issuer request s'), s'))
         | RenewalAsync \<Rightarrow>
             (let s' = (if early then snd (renewal parse Issue waited issuer request s) else s)
              in (map_sum id fst (store_Get issuer request s'), s')))"

section \<open>Consumers\<close>

definition RegisterConsumer :: "'n \<Rightarrow> 'n list \<Rightarrow> 'n list" where
  "RegisterConsumer consumer consumers = consumers @ [consumer]"

definition cancel_consumer :: "'n \<Rightarrow> 'n list \<Rightarrow> 'n list" where
  "cancel_consumer consumer consumers = filter (\<lambda>w. w \<noteq> consumer) consumers"

definition Consume :: "'n list \<Rightarrow> cert_request \<Rightarrow> string option \<Rightarrow> ('n \<times> cert_request \<times> string option) list" where
  "Consume consumers request err = map (\<lambda>c. (c, request, err)) consumers"

section \<open>Issuers\<close>

type_synonym ca_provider = "string + string \<times> string \<times> string"

record issuer_opts =
  io_caProvider :: "ca_provider option"
  io_validDuration :: int

definition two_years :: int where
  "two_years = 2 * 365 * 24 * 3600 * time_Second"

definition IssuerWithCAProvider :: "ca_provider option \<Rightarrow> issuer_opts \<Rightarrow> string + issuer_opts" where
  "IssuerWithCAProvider caProvider opts =
     (case caProvider of None \<Rightarrow> Inl ''ca provider is nil'' | Some p \<Rightarrow> Inr (opts\<lparr>io_caProvider := Some p\<rparr>))"

definition IssuerWithValidDuration :: "int \<Rightarrow> issuer_opts \<Rightarrow> string + issuer_opts" where
  "IssuerWithValidDuration validDuration opts =
     (if validDuration \<le> 0 then Inl ''valid duration of certificate must larger than 0''
      else if validDuration > two_years then Inl ''valid duration of certificate too long, 2 years allowed at max''
      else Inr (opts\<lparr>io_validDuration := validDuration\<rparr>))"

fun apply_opts :: "('o \<Rightarrow> string + 'o) list \<Rightarrow> 'o \<Rightarrow> string + 'o" where
  "apply_opts [] opts = Inr opts"
| "apply_opts (f # fs) opts = (case f opts of Inl e \<Rightarrow> Inl e | Inr opts' \<Rightarrow> apply_opts fs opts')"

definition NewIssuer :: "(issuer_opts \<Rightarrow> string + issuer_opts) list \<Rightarrow> string + issuer_opts" where
  "NewIssuer opt = apply_opts opt \<lparr>io_caProvider = None, io_validDuration = two_years\<rparr>"

record create_opts =
  cr_caProvider :: "ca_provider option"
  cr_domainList :: "string list"
  cr_ipList :: "string list"
  cr_validDuration :: int
  cr_bits :: int
  cr_certChain :: bool
  cr_commonName :: string

record ('k, 'q, 'x, 'ip) pkix_env =
  pk_ParseIP :: "string \<Rightarrow> 'ip option"
  pk_CreateRSAKey :: "int \<Rightarrow> string + 'k"
  pk_CreateRequest :: "'k \<Rightarrow> 'ip list \<Rightarrow> string list \<Rightarrow> string \<Rightarrow> string + 'q"
  pk_FromPEM :: "string \<Rightarrow> string + 'x"
  pk_IsCA :: "'x \<Rightarrow> string + bool"
  pk_KeyFromPEM :: "string \<Rightarrow> string + 'k"
  pk_KeyFromEncryptedPEM :: "string \<Rightarrow> string \<Rightarrow> string + 'k"
  pk_CreateHost :: "'x \<Rightarrow> 'k \<Rightarrow> 'q \<Rightarrow> int \<Rightarrow> string + 'x"
  pk_Export :: "'x \<Rightarrow> string + string"
  pk_ExportPrivate :: "'k \<Rightarrow> string + string"

definition or_fail :: "string \<Rightarrow> string + 'a \<Rightarrow> ('a \<Rightarrow> string + 'b) \<Rightarrow> string + 'b" where
  "or_fail what r f = (case r of Inl e \<Rightarrow> Inl (''Credentials::CreateCert, '' @ what @ '', err = '' @ e) | Inr v \<Rightarrow> f v)"

definition make_cert :: "('k, 'q, 'x, 'ip) pkix_env \<Rightarrow> int \<Rightarrow> create_opts \<Rightarrow> string + string \<times> string" where
  "make_cert P now opts =
     (case cr_caProvider opts of
        None \<Rightarrow> Inl ''Credentials::CreateCert, no CA provider found''
      | Some provider \<Rightarrow>
          or_fail ''intermediate CA provider returns error'' provider (\<lambda>(cert, key, passphrase).
          if cert = [] then Inl ''Credentials::CreateCert, intermediate CA certificate is nil''
          else if key = [] then Inl ''Credentials::CreateCert, intermediate CA key is nil''
          else or_fail ''create RSA key failed'' (pk_CreateRSAKey P (cr_bits opts)) (\<lambda>rsaKey.
          or_fail ''create RSA certificate signing request failed''
            (pk_CreateRequest P rsaKey (List.map_filter (pk_ParseIP P) (cr_ipList opts)) (cr_domainList opts) (cr_commonName opts)) (\<lambda>csr.
          or_fail ''create CertificateFromPEM failed'' (pk_FromPEM P cert) (\<lambda>caCert.
          or_fail ''get Raw certificate failed'' (pk_IsCA P caCert) (\<lambda>isCA.
          if \<not> isCA then Inl ''Credentials::CreateCert, selected CA certificate is not allowed to sign certificates''
          else or_fail ''get CA key failed'' (if passphrase = [] then pk_KeyFromPEM P key else pk_KeyFromEncryptedPEM P key passphrase) (\<lambda>caKey.
          or_fail ''create Certificate host failed'' (pk_CreateHost P caCert caKey csr (now + cr_validDuration opts)) (\<lambda>crt.
          or_fail ''export certificate failed'' (pk_Export P crt) (\<lambda>crtExport.
          or_fail ''export key failed'' (pk_ExportPrivate P rsaKey) (\<lambda>keyExport.
          Inr (if cr_certChain opts then crtExport @ cert else crtExport, keyExport)))))))))))"

type_synonym create_opt = "create_opts \<Rightarrow> string + create_opts"

definition CreateCertWithDomainList :: "string list \<Rightarrow> create_opt" where
  "CreateCertWithDomainList domainList opts = Inr (opts\<lparr>cr_domainList := domainList\<rparr>)"

definition CreateCertWithIpList :: "string list \<Rightarrow> create_opt" where
  "CreateCertWithIpList ipList opts = Inr (opts\<lparr>cr_ipList := ipList\<rparr>)"

definition CreateCertWithCAProvider :: "ca_provider option \<Rightarrow> create_opt" where
  "CreateCertWithCAProvider provider opts = Inr (opts\<lparr>cr_caProvider := provider\<rparr>)"

definition CreateCertWithValidDuration :: "int \<Rightarrow> create_opt" where
  "CreateCertWithValidDuration validDuration opts = Inr (opts\<lparr>cr_validDuration := validDuration\<rparr>)"

definition CreateCertWithPubKeyBits :: "int \<Rightarrow> create_opt" where
  "CreateCertWithPubKeyBits bits opts = Inr (opts\<lparr>cr_bits := bits\<rparr>)"

definition CreateCertWithCertChain :: "bool \<Rightarrow> create_opt" where
  "CreateCertWithCertChain certChain opts = Inr (opts\<lparr>cr_certChain := certChain\<rparr>)"

definition CreateCertWithCommonName :: "string \<Rightarrow> create_opt" where
  "CreateCertWithCommonName commonName opts = Inr (opts\<lparr>cr_commonName := commonName\<rparr>)"

definition new_create_opts :: create_opts where
  "new_create_opts =
     \<lparr>cr_caProvider = None, cr_domainList = [], cr_ipList = [], cr_validDuration = two_years, cr_bits = 2048,
      cr_certChain = False, cr_commonName = ''''\<rparr>"

definition CreateCertPEM :: "('k, 'q, 'x, 'ip) pkix_env \<Rightarrow> int \<Rightarrow> create_opt list \<Rightarrow> string + string \<times> string" where
  "CreateCertPEM P now opt = or_fail ''apply options failed'' (apply_opts opt new_create_opts) (make_cert P now)"

definition CreateCert ::
  "(string \<Rightarrow> string \<Rightarrow> string + 'c) \<Rightarrow> ('k, 'q, 'x, 'ip) pkix_env \<Rightarrow> int \<Rightarrow> create_opt list \<Rightarrow> string + 'c" where
  "CreateCert X509KeyPair P now opt =
     (case CreateCertPEM P now opt of Inl e \<Rightarrow> Inl e | Inr (cert, key) \<Rightarrow> X509KeyPair cert key)"

definition issuer_Issue ::
  "(string \<Rightarrow> string \<Rightarrow> string + 'c) \<Rightarrow> ('k, 'q, 'x, 'ip) pkix_env \<Rightarrow> int \<Rightarrow> issuer_opts \<Rightarrow> cert_request \<Rightarrow> string + 'c" where
  "issuer_Issue X509KeyPair P now s request =
     CreateCert X509KeyPair P now
       [CreateCertWithCAProvider (io_caProvider s), CreateCertWithValidDuration (io_validDuration s),
        CreateCertWithCommonName (rq_commonName request), CreateCertWithDomainList (rq_domains request),
        CreateCertWithIpList (rq_ips request), CreateCertWithCertChain (rq_certChain request),
        CreateCertWithPubKeyBits (rq_PubkeyBits request)]"

section \<open>Self-signed certificates of a server\<close>

text \<open>The pool of issuers; nil byte slices are \<open>None\<close>.\<close>

definition bytes_of :: "string option \<Rightarrow> string" where
  "bytes_of b = (case b of None \<Rightarrow> '''' | Some t \<Rightarrow> t)"

definition pool_id :: "string option \<Rightarrow> string option \<Rightarrow> string option \<Rightarrow> string" where
  "pool_id cert key passphrase = bytes_of cert @ ''|'' @ bytes_of key @ ''|'' @ bytes_of passphrase"

definition pool_Put ::
  "string option \<Rightarrow> string option \<Rightarrow> string option \<Rightarrow> issuer_opts \<Rightarrow> (string \<times> issuer_opts) list \<Rightarrow> (string \<times> issuer_opts) list" where
  "pool_Put cert key passphrase issuer pool = AList.update (pool_id cert key passphrase) issuer pool"

definition pool_Get ::
  "string option \<Rightarrow> string option \<Rightarrow> string option \<Rightarrow> (string \<times> issuer_opts) list \<Rightarrow> issuer_opts option \<times> (string \<times> issuer_opts) list" where
  "pool_Get cert key passphrase pool =
     (let pid = pool_id cert key passphrase
      in case mget pool pid of
           Some issuer \<Rightarrow> (Some issuer, pool)
         | None \<Rightarrow>
             (case (cert, key) of
                (Some c, Some k) \<Rightarrow>
                  (case NewIssuer [IssuerWithCAProvider (Some (Inr (c, k, bytes_of passphrase)))] of
                     Inl e \<Rightarrow> (None, pool)
                   | Inr issuer \<Rightarrow> (Some issuer, AList.update pid issuer pool))
              | _ \<Rightarrow> (None, pool)))"

text \<open>\<open>GenerateSAN\<close> remembers the addresses of the host once it has asked for them.\<close>

definition GenerateSAN :: "string option \<Rightarrow> string list \<Rightarrow> string list \<Rightarrow> string list \<times> string list" where
  "GenerateSAN host SAN hostIp =
     (if SAN \<noteq> [] then (SAN, hostIp)
      else if hostIp = []
      then (let hostIp = (case host of Some ip \<Rightarrow> [ip, ''127.0.0.1''] | None \<Rightarrow> [''127.0.0.1'']) in (hostIp, hostIp))
      else (hostIp, hostIp))"

definition self_signed_request :: "string list \<Rightarrow> cert_request" where
  "self_signed_request SAN = NewCertRequest (hd SAN) SAN SAN True"

text \<open>
  Applying \<open>WithSelfSignedCertificateWithCACert\<close>: the first certificate is fetched at once with the default hook, and the
  getter fetches it again for every handshake with the policy of the option.
\<close>

definition WithServerCertificateFactory ::
  "('w \<Rightarrow> (string + 'c \<times> cert_info \<Rightarrow> renewal_action) \<Rightarrow> string + 'c) \<Rightarrow> ('w \<Rightarrow> int) \<Rightarrow> bool \<Rightarrow> ('w, 'ip, 'c) server_option" where
  "WithServerCertificateFactory fetch now autoRenewal =
     WithServerCertificate (Some (\<lambda>w.
       fetch w (if autoRenewal then DefaultRenewalPolicy (72 * 3600 * time_Second) (now w) else NoRenewalPolicy)))"

definition WithSelfSignedCertificateWithCACert ::
  "('w \<Rightarrow> (string + 'c \<times> cert_info \<Rightarrow> renewal_action) \<Rightarrow> string + 'c) \<Rightarrow> ('w \<Rightarrow> int) \<Rightarrow> issuer_opts option \<Rightarrow> (issuer_opts \<Rightarrow> string + 'c) \<Rightarrow> bool \<Rightarrow>
   ('w, 'ip, 'c) server_option" where
  "WithSelfSignedCertificateWithCACert fetch now issuer first autoRenewal opts =
     (case issuer of
        None \<Rightarrow> Inl ''issuer for self signed certificate not found''
      | Some i \<Rightarrow> (case first i of Inl e \<Rightarrow> Inl e | Inr _ \<Rightarrow> WithServerCertificateFactory fetch now autoRenewal opts))"

section \<open>What is fetched\<close>

text \<open>Every stored certificate is under the name of its request and has its own dates.\<close>

definition store_ok :: "('c \<Rightarrow> string + cert_info) \<Rightarrow> ('i, 'c) cert_store \<Rightarrow> bool" where
  "store_ok parse s \<longleftrightarrow>
     (\<forall>issuer m name v. mget s issuer = Some m \<longrightarrow> mget m name = Some v \<longrightarrow>
        (\<exists>c info. cv_cert v = Some c \<and> cv_info v = Some info \<and> parse c = Inr info \<and> rq_Id (cv_request v) = name))"

lemma store_ok_new: "store_ok parse NewDefaultStore"
  by (simp add: store_ok_def NewDefaultStore_def)

lemma store_ok_enter: "store_ok parse s \<Longrightarrow> store_ok parse (case mget s issuer of None \<Rightarrow> AList.update issuer [] s | Some _ \<Rightarrow> s)"
  by (auto simp: store_ok_def split: option.splits if_splits)

lemma store_ok_Store:
  assumes "store_ok parse s" shows "store_ok parse (snd (store_Store parse issuer request cert s))"
proof (cases "parse cert")
  case (Inl e)
  then show ?thesis using store_ok_enter [OF assms] by (simp add: store_Store_def Let_def)
next
  case (Inr info)
  have "store_ok parse (AList.update issuer (AList.update (rq_Id request)
      \<lparr>cv_request = request, cv_cert = Some cert, cv_info = Some info\<rparr> (case mget s issuer of None \<Rightarrow> [] | Some m \<Rightarrow> m))
      (case mget s issuer of None \<Rightarrow> AList.update issuer [] s | Some _ \<Rightarrow> s))"
    using store_ok_enter [OF assms, of issuer] Inr assms
    by (auto simp: store_ok_def split: option.splits if_splits)
  then show ?thesis using Inr by (simp add: store_Store_def Let_def)
qed

lemma Get_Store:
  "parse cert = Inr info \<Longrightarrow> store_Get issuer request (snd (store_Store parse issuer request cert s)) = Inr (cert, info)"
  by (simp add: store_Store_def store_Get_def Let_def split: option.splits)

lemma Get_ok: "store_ok parse s \<Longrightarrow> store_Get issuer request s = Inr (c, info) \<Longrightarrow> parse c = Inr info"
  by (fastforce simp: store_Get_def store_ok_def split: option.splits prod.splits)

lemma store_ok_renewal: "store_ok parse s \<Longrightarrow> store_ok parse (snd (renewal parse Issue waited issuer request s))"
  by (auto simp: renewal_def Produce_def store_ok_Store split: wait_result.splits sum.splits)

lemma store_ok_Fetch: "store_ok parse s \<Longrightarrow> store_ok parse (snd (Fetch parse Issue hook waited early issuer request s))"
  using store_ok_renewal [of parse s Issue waited issuer request]
  by (auto simp: Fetch_def Let_def split: renewal_action.splits prod.splits option.splits)

lemma renewal_own:
  assumes "Issue issuer request = Inr c" and "parse c = Inr info"
  shows "fst (renewal parse Issue OwnResult issuer request s) = None"
    and "store_Get issuer request (snd (renewal parse Issue OwnResult issuer request s)) = Inr (c, info)"
  using assms Get_Store [of parse c info issuer request s] by (simp_all add: renewal_def Produce_def store_Store_def Let_def)

text \<open>
  C33 (renewal of certificates). While the issuer hands out certificates that last, and a renewal hears of its own
  result, the factory always returns a certificate that is valid for at least another minute, whether it was
  stored, renewed before or is renewed at the same time, and the store stays consistent.
\<close>

theorem fetched_certificate_lasts:
  assumes "store_ok parse s" and "time_Minute \<le> renewalBefore"
    and "Issue issuer request = Inr c" and "parse c = Inr info" and "now + time_Minute \<le> in_NotAfter info"
  shows "\<exists>c' info'. fst (Fetch parse Issue (DefaultRenewalPolicy renewalBefore now) OwnResult early issuer request s) = Inr c' \<and>
           parse c' = Inr info' \<and> now + time_Minute \<le> in_NotAfter info' \<and>
           store_ok parse (snd (Fetch parse Issue (DefaultRenewalPolicy renewalBefore now) OwnResult early issuer request s))"
proof -
  note new = renewal_own [of Issue issuer request c parse info s, OF assms(3,4)]
  have ok: "store_ok parse (snd (Fetch parse Issue (DefaultRenewalPolicy renewalBefore now) OwnResult early issuer request s))"
    using store_ok_Fetch [OF assms(1)] .
  show ?thesis
  proof (cases "DefaultRenewalPolicy renewalBefore now (store_Get issuer request s)")
    case RenewalNow
    then show ?thesis using new assms(4,5) ok by (auto simp: Fetch_def Let_def split: prod.splits)
  next
    case NoRenewal
    then obtain c0 i0 where "store_Get issuer request s = Inr (c0, i0)" and "renewalBefore < in_NotAfter i0 - now"
      by (auto simp: DefaultRenewalPolicy_def Let_def split: sum.splits if_splits)
    then show ?thesis using NoRenewal assms(2) ok Get_ok [OF assms(1)] by (auto simp: Fetch_def Let_def)
  next
    case RenewalAsync
    then obtain c0 i0 where "store_Get issuer request s = Inr (c0, i0)" and "time_Minute \<le> in_NotAfter i0 - now"
      by (auto simp: DefaultRenewalPolicy_def Let_def split: sum.splits if_splits)
    then show ?thesis using RenewalAsync ok Get_ok [OF assms(1)] new(2) assms(4,5)
      by (cases early) (auto simp: Fetch_def Let_def)
  qed
qed

definition example_parse :: "int \<Rightarrow> string + cert_info" where
  "example_parse c = Inr \<lparr>in_NotBefore = 0, in_NotAfter = c\<rparr>"

theorem fetched_certificate_lasts_witness:
  "\<exists>c' info'. fst (Fetch example_parse (\<lambda>i r. Inr two_years) (DefaultRenewalPolicy (3 * 24 * 3600 * time_Second) 0) OwnResult False (0 :: nat)
                (self_signed_request [''10.0.0.1'']) NewDefaultStore) = Inr c' \<and>
     example_parse c' = Inr info' \<and> time_Minute \<le> in_NotAfter info'"
proof -
  have "(0 :: int) + time_Minute \<le> in_NotAfter \<lparr>in_NotBefore = 0, in_NotAfter = two_years\<rparr>"
    "time_Minute \<le> 3 * 24 * 3600 * time_Second"
    by (simp_all add: two_years_def time_Second_def)
  then show ?thesis
    using fetched_certificate_lasts [OF store_ok_new, of "3 * 24 * 3600 * time_Second" "\<lambda>i r. Inr two_years" "0 :: nat"
        "self_signed_request [''10.0.0.1'']" two_years example_parse "\<lparr>in_NotBefore = 0, in_NotAfter = two_years\<rparr>" 0 False]
    by (auto simp: example_parse_def)
qed

text \<open>
  The store knows a request by its common name only: a request for other hosts with the same first name is answered with the
  certificate that is there.
\<close>

lemma same_name_same_certificate:
  assumes "rq_commonName r = rq_commonName r'" and "parse c = Inr info"
  shows "fst (Fetch parse Issue NoRenewalPolicy waited early issuer r' (snd (store_Store parse issuer r c s))) = Inr c"
proof -
  have "store_Get issuer r' s' = store_Get issuer r s'" for s' :: "('b, 'a) cert_store"
    unfolding store_Get_def rq_Id_def assms(1) ..
  then show ?thesis using Get_Store [of parse c info issuer r s] assms(2)
    by (simp add: Fetch_def Let_def NoRenewalPolicy_def)
qed

text \<open>
  A renewal that hears of another request's result first reads the store too early, and fails although nothing went wrong.
\<close>

lemma other_result_ends_wait:
  "\<exists>e. fst (Fetch parse Issue (DefaultRenewalPolicy renewalBefore now) (OtherResult None) early issuer request NewDefaultStore) = Inl e"
  by (simp add: Fetch_def Let_def DefaultRenewalPolicy_def store_Get_def NewDefaultStore_def renewal_def)

lemma valid_duration_bounded:
  "IssuerWithValidDuration d opts = Inr opts' \<Longrightarrow> 0 < io_validDuration opts' \<and> io_validDuration opts' \<le> two_years"
  by (auto simp: IssuerWithValidDuration_def split: if_splits)

text \<open>An issuer signs for the names of the request, with its own certificate authority, until its duration has passed.\<close>

lemma Issue_signs_request:
  assumes "issuer_Issue X509KeyPair P now s request = Inr c"
  shows "\<exists>cert k pass caCert caKey rsaKey csr crt.
     io_caProvider s = Some (Inr (cert, k, pass)) \<and> pk_FromPEM P cert = Inr caCert \<and> pk_IsCA P caCert = Inr True \<and>
     pk_CreateRequest P rsaKey (List.map_filter (pk_ParseIP P) (rq_ips request)) (rq_domains request) (rq_commonName request) = Inr csr \<and>
     pk_CreateHost P caCert caKey csr (now + io_validDuration s) = Inr crt"
proof -
  define opts where "opts = \<lparr>cr_caProvider = io_caProvider s, cr_domainList = rq_domains request, cr_ipList = rq_ips request,
    cr_validDuration = io_validDuration s, cr_bits = rq_PubkeyBits request, cr_certChain = rq_certChain request,
    cr_commonName = rq_commonName request\<rparr>"
  have "issuer_Issue X509KeyPair P now s request =
      (case make_cert P now opts of Inl e \<Rightarrow> Inl e | Inr (cert, key) \<Rightarrow> X509KeyPair cert key)"
    by (simp add: issuer_Issue_def CreateCert_def CreateCertPEM_def or_fail_def CreateCertWithCAProvider_def
      CreateCertWithValidDuration_def CreateCertWithCommonName_def CreateCertWithDomainList_def CreateCertWithIpList_def
      CreateCertWithCertChain_def CreateCertWithPubKeyBits_def new_create_opts_def opts_def)
  then obtain r where "make_cert P now opts = Inr r" using assms by (auto split: sum.splits)
  then show ?thesis
    by (auto simp: make_cert_def or_fail_def opts_def split: option.splits sum.splits if_splits prod.splits)
qed

end
