(* ===== verification/Server_Options.thy ===== *)
theory Server_Options
  imports Certificate Interceptor "HOL-Library.Word"
begin

text \<open>
  The options of a server, \<^verbatim>\<open>server/internal/option/option.go\<close> and \<^verbatim>\<open>utils.go\<close>, the interceptors and options of its
  gRPC server (\<^verbatim>\<open>grpc_server/option.go\<close>), the address it listens on (\<^verbatim>\<open>server/internal/server/server.go\<close>) and the check
  of the reflection service.

  Objects of other packages (registries, tracers, interceptors, hooks and the like) are values of a type \<open>'x\<close>. The
  configuration is read through \<open>config_reader\<close>; the state of the world \<open>w\<close> is that of \<open>Credentials\<close>.
\<close>

section \<open>Options\<close>

datatype 'x reflection_auth = TokenAuth string | CustomAuth 'x

record ('w, 'ip, 'c, 'x) server_opts =
  sv_Addr :: string
  sv_HttpAddr :: string
  sv_MultiplexAddr :: bool
  sv_Registry :: "'x option"
  sv_Tracer :: "'x option"
  sv_UnaryInterceptors :: "'x list"
  sv_StreamInterceptors :: "'x list"
  sv_UnaryHookInterceptors :: "'x list"
  sv_StreamHookInterceptors :: "'x list"
  sv_CredentialOpts :: "('w, 'ip, 'c) server_option list"
  sv_AuthProvider :: "'x option"
  sv_Recovery :: bool
  sv_EnableHttp :: bool
  sv_EnableHttpGzip :: bool
  sv_OrigName :: bool
  sv_EnumAsInts :: bool
  sv_EmitDefaults :: bool
  sv_HttpReadTimeout :: int
  sv_HttpWriteTimeout :: int
  sv_HttpIdleTimeout :: int
  sv_HttpKeepAlive :: bool
  sv_GrpcGatewayCompatible :: bool
  sv_WithPackageName :: bool
  sv_EnableGrpcWeb :: bool
  sv_EnableGrpcWebWithWs :: bool
  sv_AllowedOrigins :: "string list"
  sv_AllowedRequestHeaders :: "string list"
  sv_AllowedMethods :: "string list"
  sv_EnableCorsLog :: bool
  sv_MaxConcurrentStreams :: int
  sv_IgnoreInternalInterceptors :: bool
  sv_MaxRecvMsgSize :: int
  sv_MaxSendMsgSize :: int
  sv_WithTls :: bool
  sv_MaxHttpConcurrentConnection :: int
  sv_KeepAliveParams :: "'x option"
  sv_KeepAliveEnforcementPolicy :: "'x option"
  sv_HealthService :: "'x option"
  sv_OptionsHook :: "'x option"
  sv_MinPort :: int
  sv_MaxPort :: int
  sv_LegacyHttpRegistry :: bool
  sv_GrpcServerReflection :: bool
  sv_GrpcServerReflectionAuth :: "'x reflection_auth list"

type_synonym ('w, 'ip, 'c, 'x) opt = "('w, 'ip, 'c, 'x) server_opts \<Rightarrow> string + ('w, 'ip, 'c, 'x) server_opts"

definition WithAddr :: "string \<Rightarrow> ('w, 'ip, 'c, 'x) opt" where
  "WithAddr addr opts = Inr (opts\<lparr>sv_Addr := addr\<rparr>)"

definition WithHttpAddr :: "string \<Rightarrow> ('w, 'ip, 'c, 'x) opt" where
  "WithHttpAddr addr opts = Inr (opts\<lparr>sv_HttpAddr := addr\<rparr>)"

definition WithRegistry :: "'x option \<Rightarrow> ('w, 'ip, 'c, 'x) opt" where
  "WithRegistry reg opts = Inr (opts\<lparr>sv_Registry := reg\<rparr>)"

definition WithTracer :: "'x option \<Rightarrow> ('w, 'ip, 'c, 'x) opt" where
  "WithTracer tracer opts = Inr (opts\<lparr>sv_Tracer := tracer\<rparr>)"

definition WithUnaryInterceptor :: "'x option \<Rightarrow> ('w, 'ip, 'c, 'x) opt" where
  "WithUnaryInterceptor interceptor opts =
     (case interceptor of
        None \<Rightarrow> Inl ''interceptor is nil''
      | Some i \<Rightarrow> Inr (opts\<lparr>sv_UnaryInterceptors := sv_UnaryInterceptors opts @ [i]\<rparr>))"

definition WithStreamInterceptor :: "'x option \<Rightarrow> ('w, 'ip, 'c, 'x) opt" where
  "WithStreamInterceptor interceptor opts =
     (case interceptor of
        None \<Rightarrow> Inl ''interceptor is nil''
      | Some i \<Rightarrow> Inr (opts\<lparr>sv_StreamInterceptors := sv_StreamInterceptors opts @ [i]\<rparr>))"

text \<open>A variadic argument without values is nil.\<close>

definition WithUnaryHookInterceptor :: "'x list \<Rightarrow> ('w, 'ip, 'c, 'x) opt" where
  "WithUnaryHookInterceptor interceptor opts =
     (if interceptor = [] then Inl ''interceptor is nil''
      else Inr (opts\<lparr>sv_UnaryHookInterceptors := sv_UnaryHookInterceptors opts @ interceptor\<rparr>))"

definition WithStreamHookInterceptor :: "'x list \<Rightarrow> ('w, 'ip, 'c, 'x) opt" where
  "WithStreamHookInterceptor interceptor opts =
     (if interceptor = [] then Inl ''interceptor is nil''
      else Inr (opts\<lparr>sv_StreamHookInterceptors := sv_StreamHookInterceptors opts @ interceptor\<rparr>))"

definition WithRecovery :: "bool \<Rightarrow> ('w, 'ip, 'c, 'x) opt" where
  "WithRecovery enable opts = Inr (opts\<lparr>sv_Recovery := enable\<rparr>)"

definition WithAuthentication :: "'x option \<Rightarrow> ('w, 'ip, 'c, 'x) opt" where
  "WithAuthentication authProvider opts = Inr (opts\<lparr>sv_AuthProvider := authProvider\<rparr>)"

definition WithEnableHttpServer :: "bool \<Rightarrow> ('w, 'ip, 'c, 'x) opt" where
  "WithEnableHttpServer enable opts = Inr (opts\<lparr>sv_EnableHttp := enable\<rparr>)"

definition WithEnableHttpGzip :: "bool \<Rightarrow> ('w, 'ip, 'c, 'x) opt" where
  "WithEnableHttpGzip enable opts = Inr (opts\<lparr>sv_EnableHttpGzip := enable\<rparr>)"

definition WithHttpMaxConcurrentConnection :: "int \<Rightarrow> ('w, 'ip, 'c, 'x) opt" where
  "WithHttpMaxConcurrentConnection maxConn opts =
     (if maxConn \<noteq> -1 \<and> maxConn \<le> 0 then Inl ''invalid max concurrent connections''
      else Inr (opts\<lparr>sv_MaxHttpConcurrentConnection := maxConn\<rparr>))"

definition WithEnableGrpcWeb :: "bool \<Rightarrow> ('w, 'ip, 'c, 'x) opt" where
  "WithEnableGrpcWeb enable opts = Inr (opts\<lparr>sv_EnableGrpcWeb := enable\<rparr>)"

definition WithEnableGrpcWebWithWs :: "bool \<Rightarrow> ('w, 'ip, 'c, 'x) opt" where
  "WithEnableGrpcWebWithWs enable opts = Inr (opts\<lparr>sv_EnableGrpcWebWithWs := enable\<rparr>)"

definition WithCredentialsOption :: "('w, 'ip, 'c) server_option list \<Rightarrow> ('w, 'ip, 'c, 'x) opt" where
  "WithCredentialsOption opt opts = Inr (opts\<lparr>sv_CredentialOpts := sv_CredentialOpts opts @ opt\<rparr>)"

definition WithJsonOrigNameOption :: "bool \<Rightarrow> ('w, 'ip, 'c, 'x) opt" where
  "WithJsonOrigNameOption origName opts = Inr (opts\<lparr>sv_OrigName := origName\<rparr>)"

definition WithJsonEnumAsIntsOption :: "bool \<Rightarrow> ('w, 'ip, 'c, 'x) opt" where
  "WithJsonEnumAsIntsOption enumAsInts opts = Inr (opts\<lparr>sv_EnumAsInts := enumAsInts\<rparr>)"

definition WithJsonEmitDefaultsOption :: "bool \<Rightarrow> ('w, 'ip, 'c, 'x) opt" where
  "WithJsonEmitDefaultsOption emitDefaults opts = Inr (opts\<lparr>sv_EmitDefaults := emitDefaults\<rparr>)"

definition WithHttpReadTimeout :: "int \<Rightarrow> ('w, 'ip, 'c, 'x) opt" where
  "WithHttpReadTimeout tmo opts = Inr (opts\<lparr>sv_HttpReadTimeout := tmo\<rparr>)"

definition WithHttpWriteTimeout :: "int \<Rightarrow> ('w, 'ip, 'c, 'x) opt" where
  "WithHttpWriteTimeout tmo opts = Inr (opts\<lparr>sv_HttpWriteTimeout := tmo\<rparr>)"

definition WithHttpIdleTimeout :: "int \<Rightarrow> ('w, 'ip, 'c, 'x) opt" where
  "WithHttpIdleTimeout tmo opts = Inr (opts\<lparr>sv_HttpIdleTimeout := tmo\<rparr>)"

definition WithHttpKeepAlive :: "bool \<Rightarrow> ('w, 'ip, 'c, 'x) opt" where
  "WithHttpKeepAlive keepAlive opts = Inr (opts\<lparr>sv_HttpKeepAlive := keepAlive\<rparr>)"

definition WithPackageName :: "bool \<Rightarrow> ('w, 'ip, 'c, 'x) opt" where
  "WithPackageName enable opts = Inr (opts\<lparr>sv_WithPackageName := enable\<rparr>)"

definition WithGrpcGatewayCompatible :: "bool \<Rightarrow> ('w, 'ip, 'c, 'x) opt" where
  "WithGrpcGatewayCompatible enable opts = Inr (opts\<lparr>sv_GrpcGatewayCompatible := enable\<rparr>)"

definition WithAllowedOrigins :: "string list \<Rightarrow> ('w, 'ip, 'c, 'x) opt" where
  "WithAllowedOrigins allowedOrigins opts = Inr (opts\<lparr>sv_AllowedOrigins := allowedOrigins\<rparr>)"

definition WithAllowedRequestHeaders :: "string list \<Rightarrow> ('w, 'ip, 'c, 'x) opt" where
  "WithAllowedRequestHeaders allowedRequestHeaders opts = Inr (opts\<lparr>sv_AllowedRequestHeaders := allowedRequestHeaders\<rparr>)"

definition WithAllowedMethods :: "string list \<Rightarrow> ('w, 'ip, 'c, 'x) opt" where
  "WithAllowedMethods allowedMethods opts = Inr (opts\<lparr>sv_AllowedMethods := allowedMethods\<rparr>)"

definition WithCorsLogger :: "bool \<Rightarrow> ('w, 'ip, 'c, 'x) opt" where
  "WithCorsLogger enable opts = Inr (opts\<lparr>sv_EnableCorsLog := enable\<rparr>)"

definition WithMaxConcurrentStreams :: "int \<Rightarrow> ('w, 'ip, 'c, 'x) opt" where
  "WithMaxConcurrentStreams maxConcurrentStreams opts = Inr (opts\<lparr>sv_MaxConcurrentStreams := maxConcurrentStreams\<rparr>)"

definition WithIgnoreInternalInterceptors :: "bool \<Rightarrow> ('w, 'ip, 'c, 'x) opt" where
  "WithIgnoreInternalInterceptors ignore opts = Inr (opts\<lparr>sv_IgnoreInternalInterceptors := ignore\<rparr>)"

definition WithMaxRecvMsgSize :: "int \<Rightarrow> ('w, 'ip, 'c, 'x) opt" where
  "WithMaxRecvMsgSize maxRecvMsgSize opts = Inr (opts\<lparr>sv_MaxRecvMsgSize := maxRecvMsgSize\<rparr>)"

definition WithMaxSendMsgSize :: "int \<Rightarrow> ('w, 'ip, 'c, 'x) opt" where
  "WithMaxSendMsgSize maxSendMsgSize opts = Inr (opts\<lparr>sv_MaxSendMsgSize := maxSendMsgSize\<rparr>)"

definition WithKeepAliveParams :: "'x \<Rightarrow> ('w, 'ip, 'c, 'x) opt" where
  "WithKeepAliveParams params opts = Inr (opts\<lparr>sv_KeepAliveParams := Some params\<rparr>)"

definition WithKeepAliveEnforcementPolicy :: "'x \<Rightarrow> ('w, 'ip, 'c, 'x) opt" where
  "WithKeepAliveEnforcementPolicy policy opts = Inr (opts\<lparr>sv_KeepAliveEnforcementPolicy := Some policy\<rparr>)"

definition WithHealthService :: "'x option \<Rightarrow> ('w, 'ip, 'c, 'x) opt" where
  "WithHealthService healthService opts = Inr (opts\<lparr>sv_HealthService := healthService\<rparr>)"

definition WithOptionsHook :: "'x option \<Rightarrow> ('w, 'ip, 'c, 'x) opt" where
  "WithOptionsHook hook opts = Inr (opts\<lparr>sv_OptionsHook := hook\<rparr>)"

text \<open>\<open>strconv.Atoi\<close> reads a 64-bit number.\<close>

definition atoi :: "string \<Rightarrow> int option" where
  "atoi s = parse_int 64 s"

definition WithPortRange :: "string \<Rightarrow> ('w, 'ip, 'c, 'x) opt" where
  "WithPortRange portRange opts =
     (let portRanges = split_char (CHR ''-'') portRange
      in case atoi (portRanges ! 0) of
           None \<Rightarrow> Inl ''port range invalid''
         | Some minPort \<Rightarrow>
             (let maxPort = (if length portRanges = 2 then (case atoi (portRanges ! 1) of Some p \<Rightarrow> p | None \<Rightarrow> -1) else -1)
              in Inr (opts\<lparr>sv_MinPort := minPort, sv_MaxPort := maxPort\<rparr>)))"

definition WithLegacyHttpRegistry :: "bool \<Rightarrow> ('w, 'ip, 'c, 'x) opt" where
  "WithLegacyHttpRegistry legacyHttpRegistry opts = Inr (opts\<lparr>sv_LegacyHttpRegistry := legacyHttpRegistry\<rparr>)"

definition WithGrpcServerReflection :: "bool \<Rightarrow> ('w, 'ip, 'c, 'x) opt" where
  "WithGrpcServerReflection enable opts = Inr (opts\<lparr>sv_GrpcServerReflection := enable\<rparr>)"

definition WithGrpcServerReflectionAuth :: "'x reflection_auth option \<Rightarrow> ('w, 'ip, 'c, 'x) opt" where
  "WithGrpcServerReflectionAuth authHandler opts =
     (case authHandler of
        None \<Rightarrow> Inr opts
      | Some h \<Rightarrow> Inr (opts\<lparr>sv_GrpcServerReflectionAuth := sv_GrpcServerReflectionAuth opts @ [h]\<rparr>))"

section \<open>Options from the flags\<close>

record config_reader =
  cf_String :: "string \<Rightarrow> string"
  cf_Bool :: "string \<Rightarrow> bool"
  cf_Int :: "string \<Rightarrow> int"
  cf_StringList :: "string \<Rightarrow> string list"
  cf_Duration :: "string \<Rightarrow> int"

text \<open>
  What \<open>ParseOptions\<close> takes from other packages: the default objects, the file system, \<open>tls.X509KeyPair\<close> and the option of a
  self-signed certificate for the given names.
\<close>

record ('w, 'ip, 'c, 'x) parse_env =
  pe_x509 :: "('w, 'ip) x509_env"
  pe_config :: "'w \<Rightarrow> config_reader"
  pe_ReadFile :: "string \<Rightarrow> string + string"
  pe_X509KeyPair :: "string \<Rightarrow> string \<Rightarrow> string + 'c"
  pe_SelfSigned :: "string list \<Rightarrow> ('w, 'ip, 'c) server_option"
  pe_Registry :: "'x option"
  pe_Tracer :: "'x option"
  pe_AuthProvider :: "'x option"
  pe_HealthService :: 'x

definition pemPrefix :: string where
  "pemPrefix = ''-----BEGIN''"

definition AutoSelectAddr :: string where "AutoSelectAddr = ''auto''"
definition MultiplexServerAddr :: string where "MultiplexServerAddr = ''mux''"

definition flag_options :: "('w, 'ip, 'c, 'x) parse_env \<Rightarrow> config_reader \<Rightarrow> ('w, 'ip, 'c, 'x) opt list" where
  "flag_options E cf =
     [WithAddr (cf_String cf ''server.addr''), WithHttpAddr (cf_String cf ''server.http.addr''), WithRegistry (pe_Registry E),
      WithTracer (pe_Tracer E), WithRecovery (cf_Bool cf ''server.recovery''), WithEnableHttpServer (cf_Bool cf ''server.http.enable''),
      WithEnableHttpGzip (cf_Bool cf ''server.http.gzip''), WithJsonOrigNameOption (cf_Bool cf ''server.http.json.orig_name''),
      WithJsonEnumAsIntsOption (cf_Bool cf ''server.http.json.enum_as_ints''),
      WithJsonEmitDefaultsOption (cf_Bool cf ''server.http.json.emit_defaults''),
      WithPackageName (cf_Bool cf ''server.http.with_package_name''), WithEnableGrpcWeb (cf_Bool cf ''server.grpcweb.enable''),
      WithEnableGrpcWebWithWs (cf_Bool cf ''server.grpcweb.ws.enable''),
      WithGrpcGatewayCompatible (cf_Bool cf ''server.http.grpc_gateway_compatible''),
      WithAllowedOrigins (cf_StringList cf ''server.cors.allowed_origins''),
      WithAllowedRequestHeaders (cf_StringList cf ''server.cors.allowed_request_headers''),
      WithAllowedMethods (cf_StringList cf ''server.cors.allowed_methods''), WithAuthentication (pe_AuthProvider E),
      WithIgnoreInternalInterceptors (cf_Bool cf ''server.no_internal_interceptors''),
      WithHttpMaxConcurrentConnection (cf_Int cf ''server.http.max_concurrent_conns''),
      WithHttpReadTimeout (cf_Duration cf ''server.http.timeout.read''), WithHttpWriteTimeout (cf_Duration cf ''server.http.timeout.write''),
      WithHttpIdleTimeout (cf_Duration cf ''server.http.timeout.idle''), WithHttpKeepAlive (cf_Bool cf ''server.http.keep_alive''),
      WithPortRange (cf_String cf ''server.addr.port_range''), WithLegacyHttpRegistry (cf_Bool cf ''server.http.legacy_http_registry''),
      WithCorsLogger (cf_Bool cf ''server.cors.log.enable''), WithGrpcServerReflection (cf_Bool cf ''server.grpc_reflection.enable'')]
     @ (if cf_String cf ''server.grpc_reflection.token'' \<noteq> ''''
        then [WithGrpcServerReflectionAuth (Some (TokenAuth (cf_String cf ''server.grpc_reflection.token'')))] else [])
     @ (if cf_Bool cf ''server.healthy'' then [WithHealthService (Some (pe_HealthService E))] else [])"

text \<open>The certificate of the server: the names of a self-signed one go before the files, which may hold the PEM texts themselves.\<close>

definition has_cert :: "config_reader \<Rightarrow> bool" where
  "has_cert cf \<longleftrightarrow> cf_StringList cf ''server.tls.self_cert.san'' \<noteq> [] \<or>
     cf_String cf ''server.tls.cert'' \<noteq> '''' \<and> cf_String cf ''server.tls.key'' \<noteq> ''''"

definition cert_options :: "('w, 'ip, 'c, 'x) parse_env \<Rightarrow> config_reader \<Rightarrow> ('w, 'ip, 'c) server_option list" where
  "cert_options E cf =
     (let san = cf_StringList cf ''server.tls.self_cert.san''; certFile = cf_String cf ''server.tls.cert''; keyFile = cf_String cf ''server.tls.key''
      in if san \<noteq> [] then [pe_SelfSigned E san]
         else if certFile \<noteq> '''' \<and> keyFile \<noteq> ''''
         then (if has_prefix certFile pemPrefix \<and> has_prefix keyFile pemPrefix
               then [WithServerCertificate (Some (\<lambda>w. pe_X509KeyPair E certFile keyFile))]
               else [WithServerCertificateFile (pe_ReadFile E) (pe_X509KeyPair E) certFile keyFile])
         else [])"

fun read_ca_certs :: "(string \<Rightarrow> string + string) \<Rightarrow> string list \<Rightarrow> string + string list" where
  "read_ca_certs ReadFile [] = Inr []"
| "read_ca_certs ReadFile (f # fs) =
     (case (if has_prefix f pemPrefix then Inr f else ReadFile f) of
        Inl e \<Rightarrow> Inl (''Read CA certificate failed, err = '' @ e)
      | Inr c \<Rightarrow> (case read_ca_certs ReadFile fs of Inl e \<Rightarrow> Inl e | Inr cs \<Rightarrow> Inr (c # cs)))"

definition client_ca_options :: "('w, 'ip, 'c, 'x) parse_env \<Rightarrow> config_reader \<Rightarrow> string + ('w, 'ip, 'c) server_option list" where
  "client_ca_options E cf =
     (let caFiles = cf_StringList cf ''server.tls.cacert''; clientAuthType = cf_Int cf ''server.tls.client_auth_type''
      in if caFiles = [] then Inr []
         else (case read_ca_certs (pe_ReadFile E) caFiles of
           Inl e \<Rightarrow> Inl e
         | Inr caCerts \<Rightarrow>
             if clientAuthType < 0 \<or> clientAuthType > int RequireAndVerifyClientCert then Inl ''Invalid client auth type.''
             else Inr [WithClientCACert (Some (\<lambda>w. Inr caCerts)), WithClientAuthType (nat clientAuthType),
                       WithVerifyClientAuthority (pe_x509 E) (Some (\<lambda>w. Inr caCerts))
                         (LeafAuthorityChecker (pe_x509 E) (Some (\<lambda>w. cf_StringList (pe_config E w) ''server.tls.client_authorities'')))]))"

definition credential_options :: "('w, 'ip, 'c, 'x) parse_env \<Rightarrow> config_reader \<Rightarrow> string + ('w, 'ip, 'c) server_option list" where
  "credential_options E cf =
     (let insecure = cf_Bool cf ''server.insecure''
      in case client_ca_options E cf of
           Inl e \<Rightarrow> Inl e
         | Inr ca \<Rightarrow>
             Inr ([WithInsecureListen insecure, WithIgnoreClientCertExpiresCheck (\<not> cf_Bool cf ''server.tls.check_client_cert_expiration'')]
                  @ cert_options E cf @ ca
                  @ (if \<not> insecure \<and> \<not> has_cert cf then [pe_SelfSigned E []] else [])))"

definition new_server_opts :: "('w, 'ip, 'c, 'x) server_opts" where
  "new_server_opts =
     \<lparr>sv_Addr = '''', sv_HttpAddr = '''', sv_MultiplexAddr = False, sv_Registry = None, sv_Tracer = None, sv_UnaryInterceptors = [],
      sv_StreamInterceptors = [], sv_UnaryHookInterceptors = [], sv_StreamHookInterceptors = [], sv_CredentialOpts = [],
      sv_AuthProvider = None, sv_Recovery = False, sv_EnableHttp = False, sv_EnableHttpGzip = False, sv_OrigName = False,
      sv_EnumAsInts = False, sv_EmitDefaults = False, sv_HttpReadTimeout = 30 * time_Second, sv_HttpWriteTimeout = 30 * time_Second,
      sv_HttpIdleTimeout = 90 * time_Second, sv_HttpKeepAlive = True, sv_GrpcGatewayCompatible = False, sv_WithPackageName = False,
      sv_EnableGrpcWeb = False, sv_EnableGrpcWebWithWs = False, sv_AllowedOrigins = [], sv_AllowedRequestHeaders = [],
      sv_AllowedMethods = [], sv_EnableCorsLog = False, sv_MaxConcurrentStreams = 0, sv_IgnoreInternalInterceptors = False,
      sv_MaxRecvMsgSize = 0, sv_MaxSendMsgSize = 0, sv_WithTls = False, sv_MaxHttpConcurrentConnection = 0, sv_KeepAliveParams = None,
      sv_KeepAliveEnforcementPolicy = None, sv_HealthService = None, sv_OptionsHook = None, sv_MinPort = 0, sv_MaxPort = 0,
      sv_LegacyHttpRegistry = False, sv_GrpcServerReflection = False, sv_GrpcServerReflectionAuth = []\<rparr>"

text \<open>\<open>net.SplitHostPort\<close>: the host may be in brackets; colons and brackets elsewhere are errors.\<close>

fun index_of :: "string \<Rightarrow> char \<Rightarrow> nat option" where
  "index_of [] c = None"
| "index_of (x # xs) c = (if x = c then Some 0 else map_option Suc (index_of xs c))"

definition SplitHostPort :: "string \<Rightarrow> (string \<times> string) option" where
  "SplitHostPort hostport =
     (case last_index hostport (CHR '':'') of
        None \<Rightarrow> None
      | Some i \<Rightarrow>
          if hd hostport = CHR ''[''
          then (case index_of hostport (CHR '']'') of
                  None \<Rightarrow> None
                | Some endi \<Rightarrow>
                    if endi + 1 \<noteq> i then None
                    else if CHR ''['' \<in> set (drop 1 hostport) \<or> CHR '']'' \<in> set (drop (endi + 1) hostport) then None
                    else Some (drop 1 (take endi hostport), drop (i + 1) hostport))
          else if CHR '':'' \<in> set (take i hostport) then None
          else if CHR ''['' \<in> set hostport \<or> CHR '']'' \<in> set hostport then None
          else Some (take i hostport, drop (i + 1) hostport))"

definition IsAutoPort :: "string \<Rightarrow> bool" where
  "IsAutoPort addr \<longleftrightarrow>
     trim_space (to_lower addr) = AutoSelectAddr \<or> \<not> contains_char addr (CHR '':'') \<or>
     (case SplitHostPort addr of None \<Rightarrow> False | Some (_, port) \<Rightarrow> port = ''0'')"

text \<open>\<open>ParseOptions\<close>; the program ends with the message on an error.\<close>

definition ParseOptions ::
  "('w, 'ip, 'c, 'x) parse_env \<Rightarrow> 'w \<Rightarrow> ('w, 'ip, 'c, 'x) opt list \<Rightarrow> string + ('w, 'ip, 'c, 'x) server_opts" where
  "ParseOptions E w opts =
     (let cf = pe_config E w
      in case credential_options E cf of
           Inl e \<Rightarrow> Inl e
         | Inr creds \<Rightarrow>
             (case apply_opts (flag_options E cf @ map (\<lambda>c. WithCredentialsOption [c]) creds @ opts) new_server_opts of
                Inl e \<Rightarrow> Inl e
              | Inr result \<Rightarrow>
                  Inr (result\<lparr>sv_MultiplexAddr :=
                    (sv_Addr result = sv_HttpAddr result \<and> \<not> IsAutoPort (sv_HttpAddr result)
                     \<or> sv_HttpAddr result = MultiplexServerAddr)\<rparr>)))"

section \<open>Interceptors and options of the gRPC server\<close>

datatype 'x server_int =
    UserInt 'x | TracingInt 'x | RecoveryInt | AuthInt 'x | PrometheusInt | DeadlineInt | RequestIdInt
  | ReflectionAuthInt "'x reflection_auth list"

text \<open>
  The interceptors, outermost first. An authentication provider may have none, and there is one of Prometheus only when it is
  enabled. Without any, the interceptor is nil.
\<close>

definition unary_ints ::
  "('x \<Rightarrow> 'x option) \<Rightarrow> bool \<Rightarrow> ('w, 'ip, 'c, 'x) server_opts \<Rightarrow> bool \<Rightarrow> 'x server_int list" where
  "unary_ints authInt prom options ignoreInternalInterceptors =
     map UserInt (sv_UnaryInterceptors options)
     @ (case sv_Tracer options of None \<Rightarrow> [] | Some t \<Rightarrow> [TracingInt t])
     @ (if sv_Recovery options then [RecoveryInt] else [])
     @ (case sv_AuthProvider options of None \<Rightarrow> [] | Some p \<Rightarrow> (case authInt p of None \<Rightarrow> [] | Some i \<Rightarrow> [AuthInt i]))
     @ (if prom then [PrometheusInt] else [])
     @ (if \<not> ignoreInternalInterceptors then [DeadlineInt, RequestIdInt] else [])"

definition stream_ints ::
  "('x \<Rightarrow> 'x option) \<Rightarrow> bool \<Rightarrow> ('w, 'ip, 'c, 'x) server_opts \<Rightarrow> bool \<Rightarrow> 'x server_int list" where
  "stream_ints authInt prom options ignoreInternalInterceptors =
     map UserInt (sv_StreamInterceptors options)
     @ (case sv_Tracer options of None \<Rightarrow> [] | Some t \<Rightarrow> [TracingInt t])
     @ (if sv_Recovery options then [RecoveryInt] else [])
     @ (case sv_AuthProvider options of None \<Rightarrow> [] | Some p \<Rightarrow> (case authInt p of None \<Rightarrow> [] | Some i \<Rightarrow> [AuthInt i]))
     @ (if sv_GrpcServerReflection options \<and> sv_GrpcServerReflectionAuth options \<noteq> []
        then [ReflectionAuthInt (sv_GrpcServerReflectionAuth options)] else [])
     @ (if prom then [PrometheusInt] else [])
     @ (if \<not> ignoreInternalInterceptors then [RequestIdInt] else [])"

definition chained :: "'x server_int list \<Rightarrow> 'x server_int list option" where
  "chained result = (if result \<noteq> [] then Some result else None)"

definition PrepareUnaryInterceptors ::
  "('x \<Rightarrow> 'x option) \<Rightarrow> bool \<Rightarrow> ('w, 'ip, 'c, 'x) server_opts \<Rightarrow> bool \<Rightarrow> 'x server_int list option" where
  "PrepareUnaryInterceptors authInt prom options ignore = chained (unary_ints authInt prom options ignore)"

definition PrepareStreamInterceptors ::
  "('x \<Rightarrow> 'x option) \<Rightarrow> bool \<Rightarrow> ('w, 'ip, 'c, 'x) server_opts \<Rightarrow> bool \<Rightarrow> 'x server_int list option" where
  "PrepareStreamInterceptors authInt prom options ignore = chained (stream_ints authInt prom options ignore)"

datatype ('w, 'ip, 'c, 'x) grpc_opt =
    UnaryChain "'x server_int list option" | StreamChain "'x server_int list option" | Creds "('w, 'ip, 'c) tls_config"
  | MaxConcurrentStreams int | MaxRecvMsgSize int | MaxSendMsgSize int | KeepaliveParams 'x | KeepaliveEnforcementPolicy 'x

definition PrepareGrpcOptions ::
  "('w, 'ip) x509_env \<Rightarrow> nat list \<Rightarrow> 'w \<Rightarrow> ('x \<Rightarrow> 'x option) \<Rightarrow> ('x \<Rightarrow> 'x option) \<Rightarrow> bool \<Rightarrow> ('w, 'ip, 'c, 'x) server_opts \<Rightarrow>
   string + ('w, 'ip, 'c, 'x) grpc_opt list \<times> ('w, 'ip, 'c, 'x) server_opts" where
  "PrepareGrpcOptions E suites w authUnary authStream prom opts =
     (case ServerOption E suites w (sv_CredentialOpts opts) of
        Inl e \<Rightarrow> Inl e
      | Inr cred \<Rightarrow>
          Inr ([UnaryChain (PrepareUnaryInterceptors authUnary prom opts (sv_IgnoreInternalInterceptors opts)),
                StreamChain (PrepareStreamInterceptors authStream prom opts (sv_IgnoreInternalInterceptors opts))]
               @ (case cred of None \<Rightarrow> [] | Some c \<Rightarrow> [Creds c])
               @ (if sv_MaxConcurrentStreams opts \<noteq> 0 then [MaxConcurrentStreams (sv_MaxConcurrentStreams opts)] else [])
               @ (if sv_MaxRecvMsgSize opts \<noteq> 0 then [MaxRecvMsgSize (sv_MaxRecvMsgSize opts)] else [])
               @ (if sv_MaxSendMsgSize opts \<noteq> 0 then [MaxSendMsgSize (sv_MaxSendMsgSize opts)] else [])
               @ (case sv_KeepAliveParams opts of None \<Rightarrow> [] | Some p \<Rightarrow> [KeepaliveParams p])
               @ (case sv_KeepAliveEnforcementPolicy opts of None \<Rightarrow> [] | Some p \<Rightarrow> [KeepaliveEnforcementPolicy p]),
               opts\<lparr>sv_WithTls := (cred \<noteq> None)\<rparr>))"

section \<open>Reflection\<close>

text \<open>
  One accepting handler lets a call of the reflection service through; otherwise the error of the last one is returned. A list of
  nil handlers only answers with no error and no call; \<open>mkerr\<close> makes the answer.
\<close>

fun first_accepting :: "('k \<Rightarrow> 'e option) option list \<Rightarrow> 'k \<Rightarrow> 'e option \<Rightarrow> bool \<times> 'e option" where
  "first_accepting [] ctx err = (False, err)"
| "first_accepting (None # hs) ctx err = first_accepting hs ctx err"
| "first_accepting (Some auth # hs) ctx err = (case auth ctx of None \<Rightarrow> (True, None) | Some e \<Rightarrow> first_accepting hs ctx (Some e))"

definition reflectionMethod :: string where
  "reflectionMethod = ''/grpc.reflection.v1alpha.ServerReflection/ServerReflectionInfo''"

definition GrpcReflectionAuthInterceptor ::
  "('e option \<Rightarrow> 'r) \<Rightarrow> ('k \<Rightarrow> 'e option) option list \<Rightarrow> 'v \<Rightarrow> 'k \<Rightarrow> string \<Rightarrow> ('v \<Rightarrow> 'k \<Rightarrow> 'r) \<Rightarrow> 'r" where
  "GrpcReflectionAuthInterceptor mkerr authHandler srv ctx fullMethod handler =
     (if fullMethod = reflectionMethod \<and> authHandler \<noteq> []
      then (case first_accepting authHandler ctx None of (True, _) \<Rightarrow> handler srv ctx | (False, err) \<Rightarrow> mkerr err)
      else handler srv ctx)"

definition codes_Unauthenticated :: int where
  "codes_Unauthenticated = 16"

definition GrpcReflectionTokenAuth :: "'md md_ops \<Rightarrow> string \<Rightarrow> 'md option \<Rightarrow> status_error option" where
  "GrpcReflectionTokenAuth M token incoming =
     (case incoming of
        None \<Rightarrow> Some (Status codes_Unauthenticated ''no authorization header'')
      | Some md \<Rightarrow>
          (case md_Get M md ''Authorization'' of
             [] \<Rightarrow> Some (Status codes_Unauthenticated ''no authorization header'')
           | a # _ \<Rightarrow>
               if b64_decode a = Some token then None
               else Some (Status codes_Unauthenticated ''invalid authorization token'')))"

section \<open>Listening\<close>

text \<open>
  The address to listen on: \<open>defaultAddress\<close> is empty except on Windows, \<open>HostIp\<close> is the address of the host or an error.
\<close>

definition tcp_addr :: "string \<Rightarrow> string + string \<Rightarrow> string \<Rightarrow> string + string" where
  "tcp_addr defaultAddress hostIp addr =
     (let addr = (if to_lower (trim_space addr) = AutoSelectAddr then defaultAddress @ '':0'' else addr);
          addr = (if has_prefix addr ''[::]:'' \<or> has_prefix addr ''0.0.0.0''
                  then (case last_index addr (CHR '':'') of Some idx \<Rightarrow> drop idx addr | None \<Rightarrow> '''') else addr)
      in if addr = '''' \<or> hd addr = CHR '':''
         then (case hostIp of
                 Inl e \<Rightarrow> Inl (''invalid address specified, err = '' @ e)
               | Inr ip \<Rightarrow> Inr (if addr = '''' then ip @ '':0'' else ip @ addr))
         else Inr (if contains_char addr (CHR '':'') then addr else addr @ '':0''))"

datatype 'l listen_result = ListenPanic | ListenError string | Listening 'l

text \<open>
  One of fifty random ports, computed with 32 bits. \<open>rnd i n\<close> is the number that \<open>rand.Int31n(n)\<close> gives in round \<open>i\<close>, and \<open>listen i a\<close> the
  answer of \<open>net.Listen\<close> then; \<open>Int31n\<close> panics unless \<open>n\<close> is positive.
\<close>

definition port_span :: "int \<Rightarrow> int \<Rightarrow> 32 word" where
  "port_span minPort maxPort = word_of_int maxPort - word_of_int minPort + 1"

definition random_port :: "int \<Rightarrow> 32 word \<Rightarrow> int" where
  "random_port minPort r = sint (word_of_int minPort + r)"

fun try_ports ::
  "(nat \<Rightarrow> 32 word \<Rightarrow> 32 word) \<Rightarrow> (nat \<Rightarrow> string \<Rightarrow> string + 'l) \<Rightarrow> string \<Rightarrow> int \<Rightarrow> int \<Rightarrow> nat list \<Rightarrow> 'l option" where
  "try_ports rnd listen host minPort maxPort [] = None"
| "try_ports rnd listen host minPort maxPort (i # rounds) =
     (case listen i (host @ '':'' @ format_int (random_port minPort (rnd i (port_span minPort maxPort)))) of
        Inr l \<Rightarrow> Some l
      | Inl _ \<Rightarrow> try_ports rnd listen host minPort maxPort rounds)"

definition port_or :: "int \<Rightarrow> int \<Rightarrow> int" where
  "port_or dflt port = (if port = -1 then dflt else port)"

definition listen_auto ::
  "(nat \<Rightarrow> 32 word \<Rightarrow> 32 word) \<Rightarrow> (nat \<Rightarrow> string \<Rightarrow> string + 'l) \<Rightarrow> string \<Rightarrow> int \<Rightarrow> int \<Rightarrow> 'l listen_result" where
  "listen_auto rnd listen host minPort maxPort =
     (if maxPort < minPort then ListenError ''invalid port range, max port is less than min port''
      else if sint (port_span minPort maxPort) \<le> 0 then ListenPanic
      else (case try_ports rnd listen host minPort maxPort [0..<50] of
              Some l \<Rightarrow> Listening l
            | None \<Rightarrow> ListenError ''no available port found in port range''))"

definition tcpListen ::
  "(string \<Rightarrow> 'ip option) \<Rightarrow> (nat \<Rightarrow> 32 word \<Rightarrow> 32 word) \<Rightarrow> (nat \<Rightarrow> string \<Rightarrow> string + 'l) \<Rightarrow> string \<Rightarrow> string + string \<Rightarrow> string \<Rightarrow> int \<Rightarrow> int \<Rightarrow> 'l listen_result" where
  "tcpListen ParseIP rnd listen defaultAddress hostIp addr minPort maxPort =
     (case tcp_addr defaultAddress hostIp addr of
        Inl e \<Rightarrow> ListenError e
      | Inr addr \<Rightarrow>
          (case SplitHostPort addr of
             None \<Rightarrow> ListenError (''invalid address specified, addr = '' @ addr)
           | Some (host, _) \<Rightarrow>
               if ParseIP host = None then ListenError (''invalid address specified, addr = '' @ addr)
               else if IsAutoPort addr then listen_auto rnd listen host (port_or 10000 minPort) (port_or 20000 maxPort)
               else (case listen 0 addr of Inl e \<Rightarrow> ListenError e | Inr l \<Rightarrow> Listening l)))"

section \<open>Serving\<close>

text \<open>
  Which servers run on which listeners. With one address and TLS the HTTP server also takes the gRPC requests, without TLS the
  connections are told apart by their first bytes. An error of a listener ends the program.
\<close>

datatype 'l serving = GrpcOn 'l | HttpRoutesGrpc 'l | Multiplexed 'l | GrpcAndHttp 'l 'l | ServeFatal string | ServePanic

definition serve :: "('w, 'ip, 'c, 'x) server_opts \<Rightarrow> (string \<Rightarrow> 'l listen_result) \<Rightarrow> 'l serving" where
  "serve opts Listen =
     (case Listen (sv_Addr opts) of
        ListenPanic \<Rightarrow> ServePanic
      | ListenError e \<Rightarrow> ServeFatal e
      | Listening l \<Rightarrow>
          if \<not> (sv_EnableHttp opts \<or> sv_EnableGrpcWeb opts) then GrpcOn l
          else if sv_MultiplexAddr opts then (if sv_WithTls opts then HttpRoutesGrpc l else Multiplexed l)
          else (case Listen (sv_HttpAddr opts) of
                  ListenPanic \<Rightarrow> ServePanic
                | ListenError e \<Rightarrow> ServeFatal e
                | Listening hl \<Rightarrow> GrpcAndHttp l hl))"

section \<open>The credentials of the flags\<close>

text \<open>The option of a self-signed certificate, when it succeeds, sets a certificate as \<open>WithServerCertificate\<close> does.\<close>

definition sets_certificate :: "('w, 'ip, 'c) server_option \<Rightarrow> bool" where
  "sets_certificate f \<longleftrightarrow> (\<forall>o1 o2. f o1 = Inr o2 \<longrightarrow> (\<exists>g. o2 = o1\<lparr>so_insecure := False, so_certificate := Some g\<rparr>))"

definition self_signed_ok :: "('w, 'ip, 'c, 'x) parse_env \<Rightarrow> bool" where
  "self_signed_ok E \<longleftrightarrow> (\<forall>san. sets_certificate (pe_SelfSigned E san))"

lemma self_signed_sets_certificate:
  "sets_certificate (WithSelfSignedCertificateWithCACert fetch now issuer first autoRenewal)"
  by (auto simp: sets_certificate_def WithSelfSignedCertificateWithCACert_def WithServerCertificateFactory_def
      WithServerCertificate_def WithInsecureListen_def split: option.splits sum.splits)

lemma cert_options_set: "self_signed_ok E \<Longrightarrow> list_all sets_certificate (cert_options E cf)"
  by (auto simp: cert_options_def Let_def self_signed_ok_def sets_certificate_def WithServerCertificate_def WithInsecureListen_def
      WithServerCertificateFile_def split: sum.splits)

lemma cert_options_length: "length (cert_options E cf) = (if has_cert cf then 1 else 0)"
  by (auto simp: cert_options_def has_cert_def Let_def)

lemma cert_options_cases:
  obtains "\<not> has_cert cf" "cert_options E cf = []" | f where "has_cert cf" "cert_options E cf = [f]"
proof (cases "has_cert cf")
  case True
  then show ?thesis using that(2) cert_options_length [of E cf] by (auto simp: length_Suc_conv)
next
  case False
  then show ?thesis using that(1) cert_options_length [of E cf] by simp
qed

lemma apply_cred_single: "apply_cred_options [f] o1 = Inr o2 \<longleftrightarrow> f o1 = Inr o2"
  by (auto split: sum.splits)

lemma apply_opts_append:
  "apply_opts (fs @ gs) o1 = (case apply_opts fs o1 of Inl e \<Rightarrow> Inl e | Inr o2 \<Rightarrow> apply_opts gs o2)"
  by (induction fs arbitrary: o1) (auto split: sum.splits)

lemma flag_options_no_creds:
  "f \<in> set (flag_options E cf) \<Longrightarrow> f o1 = Inr o2 \<Longrightarrow> sv_CredentialOpts o2 = sv_CredentialOpts o1"
  by (auto simp: flag_options_def WithAddr_def WithHttpAddr_def WithRegistry_def WithTracer_def WithRecovery_def WithEnableHttpServer_def
      WithEnableHttpGzip_def WithJsonOrigNameOption_def WithJsonEnumAsIntsOption_def WithJsonEmitDefaultsOption_def WithPackageName_def
      WithEnableGrpcWeb_def WithEnableGrpcWebWithWs_def WithGrpcGatewayCompatible_def WithAllowedOrigins_def WithAllowedRequestHeaders_def
      WithAllowedMethods_def WithAuthentication_def WithIgnoreInternalInterceptors_def WithHttpMaxConcurrentConnection_def
      WithHttpReadTimeout_def WithHttpWriteTimeout_def WithHttpIdleTimeout_def WithHttpKeepAlive_def WithPortRange_def Let_def
      WithLegacyHttpRegistry_def WithCorsLogger_def WithGrpcServerReflection_def WithGrpcServerReflectionAuth_def WithHealthService_def
      split: if_splits option.splits)

lemma apply_opts_keeps:
  assumes "\<And>f o1 o2. f \<in> set fs \<Longrightarrow> f o1 = Inr o2 \<Longrightarrow> P o2 = P o1" and "apply_opts fs o1 = Inr o2"
  shows "P o2 = P o1"
  using assms
proof (induction fs arbitrary: o1)
  case (Cons f fs)
  then obtain o' where "f o1 = Inr o'" "apply_opts fs o' = Inr o2" by (auto split: sum.splits)
  then show ?case using Cons.IH [of o'] Cons.prems(1) by (metis list.set_intros)
qed simp

lemma apply_credentials:
  "apply_opts (map (\<lambda>c. WithCredentialsOption [c]) creds) o1 = Inr (o1\<lparr>sv_CredentialOpts := sv_CredentialOpts o1 @ creds\<rparr>)"
  by (induction creds arbitrary: o1) (simp_all add: WithCredentialsOption_def)

lemma ParseOptions_credentials:
  assumes "ParseOptions E w opts = Inr s" and "\<And>f o1 o2. f \<in> set opts \<Longrightarrow> f o1 = Inr o2 \<Longrightarrow> sv_CredentialOpts o2 = sv_CredentialOpts o1"
  shows "credential_options E (pe_config E w) = Inr (sv_CredentialOpts s)"
proof -
  obtain creds r where c: "credential_options E (pe_config E w) = Inr creds"
    and r: "apply_opts (flag_options E (pe_config E w) @ map (\<lambda>c. WithCredentialsOption [c]) creds @ opts) new_server_opts = Inr r"
    and s: "sv_CredentialOpts s = sv_CredentialOpts r"
    using assms(1) by (auto simp: ParseOptions_def Let_def split: sum.splits)
  obtain r1 where r1: "apply_opts (flag_options E (pe_config E w)) new_server_opts = Inr r1"
    and r2: "apply_opts opts (r1\<lparr>sv_CredentialOpts := sv_CredentialOpts r1 @ creds\<rparr>) = Inr r"
    using r by (auto simp: apply_opts_append apply_credentials split: sum.splits)
  have "sv_CredentialOpts r1 = []"
    using apply_opts_keeps [where P = sv_CredentialOpts, OF _ r1] flag_options_no_creds by (metis new_server_opts_def server_opts.select_convs(10))
  then show ?thesis
    using c s apply_opts_keeps [where P = sv_CredentialOpts, OF _ r2] assms(2) by auto
qed

definition flag_authorities :: "('w, 'ip, 'c, 'x) parse_env \<Rightarrow> 'w \<Rightarrow> string list" where
  "flag_authorities E w = cf_StringList (pe_config E w) ''server.tls.client_authorities''"

definition ca_fields :: "('w, 'ip, 'c, 'x) parse_env \<Rightarrow> nat \<Rightarrow> string list \<Rightarrow> ('w, 'ip, 'c) server_options \<Rightarrow> ('w, 'ip, 'c) server_options" where
  "ca_fields E authType caCerts s =
     s\<lparr>so_clientCAs := Some (\<lambda>w. Inr caCerts), so_clientAuthType := authType,
       so_certificateChainVerifier := so_certificateChainVerifier s
         @ [certificateChainVerifier (pe_x509 E) (Some (\<lambda>w. Inr caCerts))
              (LeafAuthorityChecker (pe_x509 E) (Some (flag_authorities E))) [ExtKeyUsageClientAuth]]\<rparr>"

lemma apply_ca_options:
  assumes "client_ca_options E cf = Inr ca" and "apply_cred_options ca s = Inr s'"
  shows "cf_StringList cf ''server.tls.cacert'' = [] \<and> s' = s \<or>
     (\<exists>caCerts. cf_StringList cf ''server.tls.cacert'' \<noteq> [] \<and> read_ca_certs (pe_ReadFile E) (cf_StringList cf ''server.tls.cacert'') = Inr caCerts \<and>
        s' = ca_fields E (nat (cf_Int cf ''server.tls.client_auth_type'')) caCerts s)"
  using assms
  by (auto simp: client_ca_options_def Let_def ca_fields_def flag_authorities_def [abs_def] WithClientCACert_def WithClientAuthType_def
      WithVerifyClientAuthority_def split: if_splits sum.splits)

lemma apply_cert_options:
  assumes "self_signed_ok E" and "apply_cred_options (cert_options E cf) s = Inr s'"
  shows "if has_cert cf then \<exists>g. s' = s\<lparr>so_insecure := False, so_certificate := Some g\<rparr> else s' = s"
proof (cases rule: cert_options_cases [of cf E])
  case 1
  then show ?thesis using assms(2) by simp
next
  case (2 f)
  then have "f s = Inr s'" using assms(2) apply_cred_single [of f s s'] by simp
  moreover have "sets_certificate f" using 2 cert_options_set [OF assms(1), of cf] by simp
  ultimately show ?thesis using 2 by (auto simp: sets_certificate_def)
qed

text \<open>What the credential options of the flags amount to.\<close>

lemma flag_server_options:
  assumes ok: "self_signed_ok E" and c: "credential_options E cf = Inr creds" and p: "ParseServerOptions creds = Inr so"
  shows "so_insecure so = (cf_Bool cf ''server.insecure'' \<and> \<not> has_cert cf)"
    and "so_certificate so \<noteq> None \<longleftrightarrow> \<not> so_insecure so"
    and "so_verifyCertificate so = None"
    and "so_ignoreExpiresCheck so = (\<not> cf_Bool cf ''server.tls.check_client_cert_expiration'')"
    and "cf_StringList cf ''server.tls.cacert'' \<noteq> [] \<Longrightarrow>
      \<exists>caCerts. read_ca_certs (pe_ReadFile E) (cf_StringList cf ''server.tls.cacert'') = Inr caCerts \<and>
        so_clientAuthType so = nat (cf_Int cf ''server.tls.client_auth_type'') \<and>
        so_certificateChainVerifier so = [certificateChainVerifier (pe_x509 E) (Some (\<lambda>w. Inr caCerts))
          (LeafAuthorityChecker (pe_x509 E) (Some (flag_authorities E))) [ExtKeyUsageClientAuth]]"
proof -
  let ?ins = "cf_Bool cf ''server.insecure''"
  let ?s1 = "new_server_options\<lparr>so_insecure := ?ins, so_ignoreExpiresCheck := \<not> cf_Bool cf ''server.tls.check_client_cert_expiration''\<rparr>"
  let ?last = "if \<not> ?ins \<and> \<not> has_cert cf then [pe_SelfSigned E []] else []"
  obtain ca where ca: "client_ca_options E cf = Inr ca"
    and creds: "creds = [WithInsecureListen ?ins, WithIgnoreClientCertExpiresCheck (\<not> cf_Bool cf ''server.tls.check_client_cert_expiration'')]
                  @ cert_options E cf @ ca @ ?last"
    using c by (auto simp: credential_options_def Let_def split: sum.splits)
  have "apply_cred_options (cert_options E cf @ ca @ ?last) ?s1 = Inr so"
    using p by (simp add: creds ParseServerOptions_def WithInsecureListen_def WithIgnoreClientCertExpiresCheck_def)
  then obtain s2 s3 where s2: "apply_cred_options (cert_options E cf) ?s1 = Inr s2" and s3: "apply_cred_options ca s2 = Inr s3"
    and s4: "apply_cred_options ?last s3 = Inr so"
    by (auto simp: apply_cred_append split: sum.splits)
  have l: "if \<not> ?ins \<and> \<not> has_cert cf then \<exists>g. so = s3\<lparr>so_insecure := False, so_certificate := Some g\<rparr> else so = s3"
  proof (cases "\<not> ?ins \<and> \<not> has_cert cf")
    case True
    then have "pe_SelfSigned E [] s3 = Inr so" using s4 apply_cred_single [of "pe_SelfSigned E []" s3 so] by auto
    then show ?thesis using True ok by (auto simp: self_signed_ok_def sets_certificate_def)
  next
    case False
    then show ?thesis using s4 by auto
  qed
  note facts = apply_cert_options [OF ok s2] apply_ca_options [OF ca s3] l
  show "so_insecure so = (?ins \<and> \<not> has_cert cf)" "so_certificate so \<noteq> None \<longleftrightarrow> \<not> so_insecure so" "so_verifyCertificate so = None"
    "so_ignoreExpiresCheck so = (\<not> cf_Bool cf ''server.tls.check_client_cert_expiration'')"
    using facts by (auto simp: new_server_options_def ca_fields_def split: if_splits)
  show "\<exists>caCerts. read_ca_certs (pe_ReadFile E) (cf_StringList cf ''server.tls.cacert'') = Inr caCerts \<and>
        so_clientAuthType so = nat (cf_Int cf ''server.tls.client_auth_type'') \<and>
        so_certificateChainVerifier so = [certificateChainVerifier (pe_x509 E) (Some (\<lambda>w. Inr caCerts))
          (LeafAuthorityChecker (pe_x509 E) (Some (flag_authorities E))) [ExtKeyUsageClientAuth]]"
    if "cf_StringList cf ''server.tls.cacert'' \<noteq> []"
    using facts that by (auto simp: new_server_options_def ca_fields_def split: if_splits)
qed

lemma flags_grpc_options:
  assumes ok: "self_signed_ok E" and p: "ParseOptions E w [] = Inr s"
    and g: "PrepareGrpcOptions (pe_x509 E) suites w authUnary authStream prom s = Inr (gos, s')"
  obtains so cfg where "credential_options E (pe_config E w) = Inr (sv_CredentialOpts s)" "ParseServerOptions (sv_CredentialOpts s) = Inr so"
    "so_insecure so" "\<not> sv_WithTls s'"
  | so cfg where "credential_options E (pe_config E w) = Inr (sv_CredentialOpts s)" "ParseServerOptions (sv_CredentialOpts s) = Inr so"
    "\<not> so_insecure so" "sv_WithTls s'" "Creds cfg \<in> set gos" "configServerTLS (pe_x509 E) suites w so = Inr cfg"
proof -
  have c: "credential_options E (pe_config E w) = Inr (sv_CredentialOpts s)" using ParseOptions_credentials [OF p] by simp
  obtain cred so where so: "ParseServerOptions (sv_CredentialOpts s) = Inr so" "ServerOptionWithOpts (pe_x509 E) suites w so = Inr cred"
    and gos: "set gos \<supseteq> Creds ` set_option cred" and s': "sv_WithTls s' = (cred \<noteq> None)"
    using g by (auto simp: PrepareGrpcOptions_def ServerOption_def split: sum.splits option.splits)
  show ?thesis
  proof (cases "so_insecure so")
    case True
    then show ?thesis using that(1) [OF c so(1)] so(2) s' by (simp add: ServerOptionWithOpts_def)
  next
    case False
    then obtain cfg where "cred = Some cfg" "configServerTLS (pe_x509 E) suites w so = Inr cfg"
      using so(2) by (auto simp: ServerOptionWithOpts_def split: sum.splits if_splits)
    then show ?thesis using that(2) [OF c so(1) False, of cfg] s' gos by auto
  qed
qed

text \<open>
  C34 (TLS from the flags). A server that is started with nothing but its flags uses TLS unless it is told to be
  insecure and has no certificate. If it uses TLS, has files of certificate authorities and a client authentication of
  type 3 or 4, then in a full handshake it lets in the clients whose certificate leads to one of those authorities and is
  good for one of the names in \<^verbatim>\<open>server.tls.client_authorities\<close> at that time, with type 3, the default, also those that send
  no certificate, and no others. On a resumed session, which is not verified again, the certificates were accepted so at
  the time of an earlier handshake.
\<close>

theorem flags_give_mutual_tls:
  assumes "self_signed_ok E" and "ParseOptions E w [] = Inr s"
    and "PrepareGrpcOptions (pe_x509 E) suites w authUnary authStream prom s = Inr (gos, s')"
    and "cf = pe_config E w" and "t = cf_Int cf ''server.tls.client_auth_type''"
  shows "(sv_WithTls s' \<longleftrightarrow> \<not> cf_Bool cf ''server.insecure'' \<or> has_cert cf) \<and>
    (sv_WithTls s' \<and> cf_StringList cf ''server.tls.cacert'' \<noteq> [] \<and> (t = 3 \<or> t = 4) \<longrightarrow>
      (\<exists>cfg caCerts. Creds cfg \<in> set gos \<and> read_ca_certs (pe_ReadFile E) (cf_StringList cf ''server.tls.cacert'') = Inr caCerts \<and>
        (\<forall>w' rawCerts. server_handshake (pe_x509 E) cfg w' rawCerts \<longleftrightarrow>
           rawCerts = [] \<and> t = 3 \<or>
           leaf_verified (pe_x509 E) (\<lambda>w. Inr caCerts) (flag_authorities E) [ExtKeyUsageClientAuth]
             (\<not> cf_Bool cf ''server.tls.check_client_cert_expiration'') w' rawCerts) \<and>
        (\<forall>w' rawCerts. server_admits (pe_x509 E) cfg w' rawCerts \<longrightarrow>
           (\<exists>w0. rawCerts = [] \<and> t = 3 \<or>
             leaf_verified (pe_x509 E) (\<lambda>w. Inr caCerts) (flag_authorities E) [ExtKeyUsageClientAuth]
               (\<not> cf_Bool cf ''server.tls.check_client_cert_expiration'') w0 rawCerts))))"
proof (intro conjI impI)
  show "sv_WithTls s' \<longleftrightarrow> \<not> cf_Bool cf ''server.insecure'' \<or> has_cert cf"
    by (rule flags_grpc_options [OF assms(1-3)]) (use flag_server_options(1) [OF assms(1)] assms(4) in blast)+
  assume a: "sv_WithTls s' \<and> cf_StringList cf ''server.tls.cacert'' \<noteq> [] \<and> (t = 3 \<or> t = 4)"
  then have ca: "cf_StringList cf ''server.tls.cacert'' \<noteq> []" and t: "t = 3 \<or> t = 4" by auto
  obtain so cfg where so: "credential_options E cf = Inr (sv_CredentialOpts s)" "ParseServerOptions (sv_CredentialOpts s) = Inr so"
    and cfg: "Creds cfg \<in> set gos" "configServerTLS (pe_x509 E) suites w so = Inr cfg"
    using flags_grpc_options [OF assms(1-3)] a assms(4) by blast
  note f = flag_server_options [OF assms(1) so]
  obtain caCerts where caCerts: "read_ca_certs (pe_ReadFile E) (cf_StringList cf ''server.tls.cacert'') = Inr caCerts"
    and auth: "so_clientAuthType so = nat t"
    and v: "so_certificateChainVerifier so = [certificateChainVerifier (pe_x509 E) (Some (\<lambda>w. Inr caCerts))
          (LeafAuthorityChecker (pe_x509 E) (Some (flag_authorities E))) [ExtKeyUsageClientAuth]]"
    using f(5) [OF ca] assms(5) by blast
  have full: "\<forall>w' rawCerts. server_handshake (pe_x509 E) cfg w' rawCerts \<longleftrightarrow> rawCerts = [] \<and> t = 3 \<or>
      leaf_verified (pe_x509 E) (\<lambda>w. Inr caCerts) (flag_authorities E) [ExtKeyUsageClientAuth]
        (\<not> cf_Bool cf ''server.tls.check_client_cert_expiration'') w' rawCerts"
    using server_accepts_verified [OF cfg(2) _ v f(3)] auth t f(4) by auto
  then have "\<forall>w' rawCerts. server_admits (pe_x509 E) cfg w' rawCerts \<longrightarrow> (\<exists>w0. rawCerts = [] \<and> t = 3 \<or>
      leaf_verified (pe_x509 E) (\<lambda>w. Inr caCerts) (flag_authorities E) [ExtKeyUsageClientAuth]
        (\<not> cf_Bool cf ''server.tls.check_client_cert_expiration'') w0 rawCerts)"
    using server_admits_once by metis
  with full show "\<exists>cfg caCerts. Creds cfg \<in> set gos \<and> read_ca_certs (pe_ReadFile E) (cf_StringList cf ''server.tls.cacert'') = Inr caCerts \<and>
        (\<forall>w' rawCerts. server_handshake (pe_x509 E) cfg w' rawCerts \<longleftrightarrow>
           rawCerts = [] \<and> t = 3 \<or>
           leaf_verified (pe_x509 E) (\<lambda>w. Inr caCerts) (flag_authorities E) [ExtKeyUsageClientAuth]
             (\<not> cf_Bool cf ''server.tls.check_client_cert_expiration'') w' rawCerts) \<and>
        (\<forall>w' rawCerts. server_admits (pe_x509 E) cfg w' rawCerts \<longrightarrow>
           (\<exists>w0. rawCerts = [] \<and> t = 3 \<or>
             leaf_verified (pe_x509 E) (\<lambda>w. Inr caCerts) (flag_authorities E) [ExtKeyUsageClientAuth]
               (\<not> cf_Bool cf ''server.tls.check_client_cert_expiration'') w0 rawCerts))"
    using cfg(1) caCerts by blast
qed

definition example_reader :: config_reader where
  "example_reader =
     \<lparr>cf_String = (\<lambda>n. if n = ''server.addr.port_range'' then ''10000-'' else if n = ''server.addr'' then ''auto'' else ''''),
      cf_Bool = (\<lambda>n. False), cf_Int = (\<lambda>n. if n = ''server.tls.client_auth_type'' then 4 else -1),
      cf_StringList = (\<lambda>n. if n = ''server.tls.cacert'' then [''-----BEGIN CERTIFICATE'']
                           else if n = ''server.tls.client_authorities'' then [''client.example.com''] else []),
      cf_Duration = (\<lambda>n. 0)\<rparr>"

definition example_parse_env :: "(unit, nat, unit, nat) parse_env" where
  "example_parse_env =
     \<lparr>pe_x509 = example_env, pe_config = (\<lambda>w. example_reader), pe_ReadFile = (\<lambda>f. Inl ''no such file''),
      pe_X509KeyPair = (\<lambda>c k. Inl ''no key pair''), pe_SelfSigned = (\<lambda>san. WithServerCertificate (Some (\<lambda>w. Inr ()))),
      pe_Registry = None, pe_Tracer = None, pe_AuthProvider = None, pe_HealthService = 0\<rparr>"

lemma example_self_signed: "self_signed_ok example_parse_env"
  by (auto simp: self_signed_ok_def sets_certificate_def example_parse_env_def WithServerCertificate_def WithInsecureListen_def)

lemma example_parses: "\<not> isl (ParseOptions example_parse_env () [])"
  by code_simp

lemma example_prepares: "\<not> isl (PrepareGrpcOptions example_env [] () Some Some False (projr (ParseOptions example_parse_env () [])))"
  by code_simp

theorem flags_give_mutual_tls_witness:
  "\<exists>gos s'. PrepareGrpcOptions example_env [] () Some Some False (projr (ParseOptions example_parse_env () [])) = Inr (gos, s') \<and> sv_WithTls s' \<and>
     (\<exists>cfg. Creds cfg \<in> set gos \<and> server_handshake example_env cfg () [''*.example.com''] \<and>
        \<not> server_admits example_env cfg () [''example.com''] \<and> \<not> server_admits example_env cfg () [])"
proof -
  obtain s where s: "ParseOptions example_parse_env () [] = Inr s" using example_parses by (cases "ParseOptions example_parse_env () []") auto
  obtain gos s' where g: "PrepareGrpcOptions example_env [] () Some Some False s = Inr (gos, s')"
    using example_prepares s by (cases "PrepareGrpcOptions example_env [] () Some Some False s") auto
  have e: "pe_x509 example_parse_env = example_env" "flag_authorities example_parse_env = example_auths"
    by (auto simp: example_parse_env_def flag_authorities_def example_auths_def example_reader_def)
  have a: "VerifyHostname example_env (zero_certificate\<lparr>ce_CommonName := ''*.example.com''\<rparr>) ''client.example.com'' = None"
    and b: "VerifyHostname example_env (zero_certificate\<lparr>ce_CommonName := ''example.com''\<rparr>) ''client.example.com'' \<noteq> None"
    by code_simp+
  have l: "leaf_verified example_env (\<lambda>w. Inr cs) example_auths usages ign () [name] \<longleftrightarrow>
      VerifyHostname example_env (zero_certificate\<lparr>ce_CommonName := name\<rparr>) ''client.example.com'' = None" if "cs = [c]" for cs c usages ign name
    using that by (simp add: leaf_verified_def example_env_def example_auths_def)
  have r: "read_ca_certs (pe_ReadFile example_parse_env) (cf_StringList example_reader ''server.tls.cacert'') = Inr [''-----BEGIN CERTIFICATE'']"
    by code_simp
  have n: "\<not> leaf_verified example_env cas auths usages ign () []" for cas auths usages ign by (simp add: leaf_verified_def)
  have c: "pe_config example_parse_env () = example_reader" "cf_Int example_reader ''server.tls.client_auth_type'' = 4"
    "\<not> cf_Bool example_reader ''server.insecure''" "cf_StringList example_reader ''server.tls.cacert'' \<noteq> []"
    by (simp_all add: example_parse_env_def example_reader_def)
  note m = flags_give_mutual_tls [OF example_self_signed s, of "[]" Some Some False gos s' example_reader 4, unfolded e(1), OF g]
  have w: "sv_WithTls s'" using m c by simp
  obtain cfg where cfg: "Creds cfg \<in> set gos"
    and full: "\<And>raw. server_handshake example_env cfg () raw \<longleftrightarrow>
      leaf_verified example_env (\<lambda>w. Inr [''-----BEGIN CERTIFICATE'']) example_auths [ExtKeyUsageClientAuth]
        (\<not> cf_Bool example_reader ''server.tls.check_client_cert_expiration'') () raw"
    and admitted: "\<And>raw. server_admits example_env cfg () raw \<Longrightarrow>
      leaf_verified example_env (\<lambda>w. Inr [''-----BEGIN CERTIFICATE'']) example_auths [ExtKeyUsageClientAuth]
        (\<not> cf_Bool example_reader ''server.tls.check_client_cert_expiration'') () raw"
    using m w c r e(2) by auto
  have "server_handshake example_env cfg () [''*.example.com'']" using full l [OF refl] a by simp
  moreover have "\<not> server_admits example_env cfg () [''example.com'']" using admitted [of "[''example.com'']"] l [OF refl] b by auto
  moreover have "\<not> server_admits example_env cfg () []" using admitted [of "[]"] n by blast
  ultimately show ?thesis using g s w cfg by auto
qed

section \<open>The port of a listener\<close>

lemma sint_of_int32: "- (2 ^ 31) \<le> x \<Longrightarrow> x < 2 ^ 31 \<Longrightarrow> sint (word_of_int x :: 32 word) = x"
proof -
  assume x: "- (2 ^ 31) \<le> x" "x < 2 ^ 31"
  then have "signed_take_bit 31 x = x" by (intro signed_take_bit_int_eq_self) auto
  then show ?thesis by (simp only: sint_sbintrunc') simp
qed

lemma port_span_value:
  assumes "0 \<le> minPort" and "minPort \<le> maxPort" and "maxPort < 2 ^ 31" and "0 < sint (port_span minPort maxPort)"
  shows "sint (port_span minPort maxPort) = maxPort - minPort + 1"
proof -
  have e: "port_span minPort maxPort = word_of_int (maxPort - minPort + 1)" by (simp add: port_span_def)
  have "maxPort - minPort + 1 \<noteq> 2 ^ 31"
  proof
    assume "maxPort - minPort + 1 = 2 ^ 31"
    then have "port_span minPort maxPort = word_of_int (2 ^ 31)" using e by metis
    then have "sint (port_span minPort maxPort) < 0" by simp
    then show False using assms(4) by simp
  qed
  then show ?thesis unfolding e using assms by (intro sint_of_int32) auto
qed

lemma random_port_range:
  assumes "0 \<le> minPort" and "maxPort < 2 ^ 31" and "0 \<le> sint r" and "sint r < maxPort - minPort + 1"
  shows "minPort \<le> random_port minPort r \<and> random_port minPort r \<le> maxPort"
proof -
  have "word_of_int minPort + r = word_of_int (minPort + sint r)" by simp
  then have "random_port minPort r = minPort + sint r"
    unfolding random_port_def using assms by (simp only:) (intro sint_of_int32; linarith)
  then show ?thesis using assms by simp
qed

lemma try_ports_result:
  "try_ports rnd listen host minPort maxPort rounds = Some l \<Longrightarrow>
   \<exists>i \<in> set rounds. listen i (host @ '':'' @ format_int (random_port minPort (rnd i (port_span minPort maxPort)))) = Inr l"
  by (induction rounds) (auto split: sum.splits)

text \<open>
  C35 (the port of a server). When the port is chosen by the program, the server listens on the host of its address and on
  a port of the given range, found in one of at most fifty rounds, whatever random numbers come up. (A range that contains
  the port 0 may give it, and then the system chooses a port.)
\<close>

theorem auto_port_in_range:
  assumes rnd: "\<And>i n. 0 < sint n \<Longrightarrow> 0 \<le> sint (rnd i n) \<and> sint (rnd i n) < sint n"
    and "tcp_addr defaultAddress hostIp addr = Inr a" and "SplitHostPort a = Some (host, p)" and "IsAutoPort a"
    and "lo = port_or 10000 minPort" and "hi = port_or 20000 maxPort" and "0 \<le> lo" and "hi < 2 ^ 31"
    and "tcpListen ParseIP rnd listen defaultAddress hostIp addr minPort maxPort = Listening l"
  shows "\<exists>i < 50. \<exists>port. lo \<le> port \<and> port \<le> hi \<and> listen i (host @ '':'' @ format_int port) = Inr l"
proof -
  have auto: "listen_auto rnd listen host lo hi = Listening l"
    using assms(2-6,9) by (auto simp: tcpListen_def split: if_splits)
  then have le: "lo \<le> hi" and pos: "0 < sint (port_span lo hi)" and t: "try_ports rnd listen host lo hi [0..<50] = Some l"
    by (auto simp: listen_auto_def split: if_splits option.splits)
  obtain i where i: "i < 50" and li: "listen i (host @ '':'' @ format_int (random_port lo (rnd i (port_span lo hi)))) = Inr l"
    using try_ports_result [OF t] by auto
  have "lo \<le> random_port lo (rnd i (port_span lo hi)) \<and> random_port lo (rnd i (port_span lo hi)) \<le> hi"
    using rnd [OF pos, of i] port_span_value [OF assms(7) le assms(8) pos] random_port_range [OF assms(7,8)] by simp
  then show ?thesis using i li by blast
qed

theorem auto_port_in_range_witness:
  "\<exists>i < 50. \<exists>port. 10000 \<le> port \<and> port \<le> 10003 \<and> (if ''10.0.0.7:10002'' = ''10.0.0.7'' @ '':'' @ format_int port then Inr i else Inl ''in use'') = Inr (0 :: nat)"
proof -
  define rnd :: "nat \<Rightarrow> 32 word \<Rightarrow> 32 word" where "rnd = (\<lambda>i n. if 2 < sint n then 2 else 0)"
  define listen :: "nat \<Rightarrow> string \<Rightarrow> string + nat" where "listen = (\<lambda>i a. if ''10.0.0.7:10002'' = a then Inr i else Inl ''in use'')"
  have r: "0 \<le> sint (rnd i n) \<and> sint (rnd i n) < sint n" if "0 < sint n" for i n
    using that by (simp add: rnd_def)
  have a: "tcp_addr '''' (Inr ''10.0.0.7'') ''auto'' = Inr ''10.0.0.7:0''" by code_simp
  have b: "SplitHostPort ''10.0.0.7:0'' = Some (''10.0.0.7'', ''0'')" and c: "IsAutoPort ''10.0.0.7:0''" by code_simp+
  have s: "port_span 10000 10003 = 4" by (simp add: port_span_def)
  have p: "random_port 10000 (rnd 0 4) = 10002" by (simp add: random_port_def rnd_def)
  have f: "format_int 10002 = ''10002''" by (simp add: format_int_def format_nat.simps char_of_def bit_iff_odd)
  have t: "try_ports rnd listen ''10.0.0.7'' 10000 10003 [0..<50] = Some 0"
    by (simp add: upt_conv_Cons [of 0 50] s p f del: upt_Suc) (simp add: listen_def)
  have l: "tcpListen (\<lambda>s. Some ()) rnd listen '''' (Inr ''10.0.0.7'') ''auto'' 10000 10003 = Listening 0"
    using t s by (simp add: tcpListen_def a b c listen_auto_def port_or_def)
  show ?thesis
    using auto_port_in_range [OF r a b c refl refl _ _ l] by (simp add: port_or_def listen_def)
qed

text \<open>A range over all 31-bit numbers makes the argument of \<open>Int31n\<close> negative, and a lower bound alone above 20000 is refused.\<close>

lemma full_range_panics: "listen_auto rnd listen host 0 2147483647 = ListenPanic"
  by (simp add: listen_auto_def port_span_def)

lemma open_range_refused:
  "20000 < minPort \<Longrightarrow> listen_auto rnd listen host (port_or 10000 minPort) (port_or 20000 (-1)) =
     ListenError ''invalid port range, max port is less than min port''"
  by (simp add: listen_auto_def port_or_def)

section \<open>Interceptors and reflection\<close>

text \<open>The interceptors of the user and of the tracer are outside of the recovery, so a panic in them is not caught by it.\<close>

lemma recovery_is_inside:
  "sv_Recovery options \<Longrightarrow>
   \<exists>inner. unary_ints authInt prom options ignore =
     map UserInt (sv_UnaryInterceptors options) @ (case sv_Tracer options of None \<Rightarrow> [] | Some t \<Rightarrow> [TracingInt t]) @ RecoveryInt # inner"
  by (simp add: unary_ints_def)

lemma reflection_needs_token:
  "GrpcReflectionAuthInterceptor mkerr [Some (GrpcReflectionTokenAuth M token)] srv ctx reflectionMethod handler =
     (case GrpcReflectionTokenAuth M token ctx of None \<Rightarrow> handler srv ctx | Some e \<Rightarrow> mkerr (Some e))"
  by (auto simp: GrpcReflectionAuthInterceptor_def split: option.splits)

lemma token_accepted_iff:
  "GrpcReflectionTokenAuth M token incoming = None \<longleftrightarrow>
     (\<exists>md a rest. incoming = Some md \<and> md_Get M md ''Authorization'' = a # rest \<and> b64_decode a = Some token)"
  by (auto simp: GrpcReflectionTokenAuth_def split: option.splits list.splits)

text \<open>A server with two addresses listens on both, with one address on one.\<close>

lemma serve_listeners:
  "serve opts Listen = GrpcAndHttp l hl \<Longrightarrow>
   Listen (sv_Addr opts) = Listening l \<and> Listen (sv_HttpAddr opts) = Listening hl \<and> \<not> sv_MultiplexAddr opts"
  by (auto simp: serve_def split: listen_result.splits if_splits)

end
