(* ===== verification/Server_Parts.thy ===== *)
theory Server_Parts
  imports Server_Options Http_Cors Lifecycle
begin

text \<open>
  The parts a server is put together from: the HTTP server (\<^verbatim>\<open>server/internal/http_server/http_server.go\<close>), the gRPC
  server (\<^verbatim>\<open>server/internal/grpc_server/grpc_server.go\<close>), the options of a registration (the end of
  \<^verbatim>\<open>server/internal/option/option.go\<close>), the lists of running servers (\<^verbatim>\<open>server/internal/server_list\<close>), the health
  service (\<^verbatim>\<open>healthy\<close>), the providers of services (\<^verbatim>\<open>server/internal/service\<close>) and the default of authentication.
\<close>

section \<open>Requests of the HTTP server\<close>

text \<open>What the handler asks of a request; the tests for gRPC-Web are those of the package \<open>grpcweb\<close>.\<close>

record http_request =
  hq_ProtoMajor :: nat
  hq_ContentType :: string
  hq_GrpcWeb :: bool
  hq_GrpcWebSocket :: bool

datatype destination = ToGrpcWeb | ToGrpc | ToRest | ToNotFound

definition isGrpcRequest :: "http_request \<Rightarrow> bool" where
  "isGrpcRequest r \<longleftrightarrow> hq_ProtoMajor r = 2 \<and> has_prefix (hq_ContentType r) ''application/grpc''"

definition destination_of :: "('w, 'ip, 'c, 'x) server_opts \<Rightarrow> http_request \<Rightarrow> destination" where
  "destination_of opts r =
     (if sv_EnableGrpcWeb opts \<and> (hq_GrpcWeb r \<or> hq_GrpcWebSocket r) then ToGrpcWeb
      else if isGrpcRequest r then ToGrpc
      else if sv_EnableHttp opts then ToRest
      else ToNotFound)"

text \<open>Only these two go through the check of the origin.\<close>

definition through_cors :: "destination \<Rightarrow> bool" where
  "through_cors d \<longleftrightarrow> d = ToRest \<or> d = ToNotFound"

text \<open>The origins that gRPC-Web accepts: those of the CORS handler, and for a web socket every one.\<close>

definition grpcweb_origin :: "('w, 'ip, 'c, 'x) server_opts \<Rightarrow> string \<Rightarrow> bool" where
  "grpcweb_origin opts origin = isOriginAllowed (newCorsHandler (sv_AllowedOrigins opts)) origin"

definition websocket_origin :: "('w, 'ip, 'c, 'x) server_opts \<Rightarrow> string \<Rightarrow> bool" where
  "websocket_origin opts origin = sv_EnableGrpcWebWithWs opts"

text \<open>The handlers around it, the outermost first; \<open>auth\<close>: the default provider is one for HTTP.\<close>

datatype http_layer = RecoveryLayer | GzipLayer | ReqIdLayer | AuthLayer

definition handler_layers :: "('w, 'ip, 'c, 'x) server_opts \<Rightarrow> bool \<Rightarrow> http_layer list" where
  "handler_layers opts auth =
     (let h = (if auth then [AuthLayer] else []);
          h = ReqIdLayer # h;
          h = (if sv_EnableHttpGzip opts then GzipLayer # h else h)
      in if sv_Recovery opts then RecoveryLayer # h else h)"

section \<open>Running servers\<close>

record server_lists =
  sl_grpc :: "string list"
  sl_http :: "string list"

definition AddGrpcServer :: "string \<Rightarrow> server_lists \<Rightarrow> server_lists" where
  "AddGrpcServer addr s = s\<lparr>sl_grpc := sl_grpc s @ [addr]\<rparr>"

definition RemoveGrpcServer :: "string \<Rightarrow> server_lists \<Rightarrow> server_lists" where
  "RemoveGrpcServer addr s = s\<lparr>sl_grpc := filter (\<lambda>a. a \<noteq> addr) (sl_grpc s)\<rparr>"

definition AddHttpServer :: "string \<Rightarrow> server_lists \<Rightarrow> server_lists" where
  "AddHttpServer addr s = s\<lparr>sl_http := sl_http s @ [addr]\<rparr>"

definition RemoveHttpServer :: "string \<Rightarrow> server_lists \<Rightarrow> server_lists" where
  "RemoveHttpServer addr s = s\<lparr>sl_http := filter (\<lambda>a. a \<noteq> addr) (sl_http s)\<rparr>"

text \<open>
  \<open>Serve\<close> of both servers: what it does before it blocks, and what it does when the server has stopped. The deferred
  calls run in the order opposite to their declaration.
\<close>

datatype serve_action =
    LimitConnections int | WrapTls | RunPrepare | AddServer string | ServeLoop | RemoveServer string | RunFinalizer

definition http_Serve :: "('w, 'ip, 'c, 'x) server_opts \<Rightarrow> bool \<Rightarrow> string \<Rightarrow> serve_action list" where
  "http_Serve opts hasPrepare addr =
     (if sv_MaxHttpConcurrentConnection opts > 0 then [LimitConnections (sv_MaxHttpConcurrentConnection opts)] else []) @
     (if sv_WithTls opts then [WrapTls] else []) @
     (if hasPrepare then [RunPrepare] else []) @ [AddServer addr, ServeLoop, RemoveServer addr] @
     (if hasPrepare then [RunFinalizer] else [])"

definition grpc_Serve :: "bool \<Rightarrow> string \<Rightarrow> serve_action list" where
  "grpc_Serve hasPrepare addr =
     (if hasPrepare then [RunPrepare] else []) @ [AddServer addr, ServeLoop, RemoveServer addr] @ (if hasPrepare then [RunFinalizer] else [])"

section \<open>Registrations\<close>

record 'x register_options =
  rg_Alias :: "string list"
  rg_RegistryHandler :: "'x option"
  rg_ServiceStartHook :: "'x option"
  rg_ServiceStartHookOpts :: "int option"
  rg_ServiceStopHook :: "'x option"
  rg_ServiceStopHookOpts :: "int option"
  rg_ServiceProviderInitializer :: "'x option"
  rg_AliasOnly :: bool
  rg_BindAddrCallback :: "'x option"
  rg_HttpParameterHandler :: "(string \<times> 'x) list"

type_synonym 'x register_option = "'x register_options \<Rightarrow> string + 'x register_options"
type_synonym hook_timeout = "int \<Rightarrow> string + int"

definition defaultServiceHookOption :: int where
  "defaultServiceHookOption = 60 * 1000000000"

definition WithServiceHookTimeout :: "int \<Rightarrow> hook_timeout" where
  "WithServiceHookTimeout timeout t = Inr timeout"

fun apply_hook_timeouts :: "hook_timeout list \<Rightarrow> int \<Rightarrow> string + int" where
  "apply_hook_timeouts [] t = Inr t"
| "apply_hook_timeouts (f # fs) t = (case f t of Inl e \<Rightarrow> Inl e | Inr t' \<Rightarrow> apply_hook_timeouts fs t')"

definition WithAlias :: "string list \<Rightarrow> 'x register_option" where
  "WithAlias alias opts = Inr (opts\<lparr>rg_Alias := map trim_space alias\<rparr>)"

definition WithRegistryHandler :: "'x option \<Rightarrow> 'x register_option" where
  "WithRegistryHandler handler opts = Inr (opts\<lparr>rg_RegistryHandler := handler\<rparr>)"

definition WithServiceStartHook :: "'x option \<Rightarrow> hook_timeout list \<Rightarrow> 'x register_option" where
  "WithServiceStartHook hook opt opts =
     (case apply_hook_timeouts opt defaultServiceHookOption of
        Inl e \<Rightarrow> Inl e
      | Inr t \<Rightarrow> Inr (opts\<lparr>rg_ServiceStartHook := hook, rg_ServiceStartHookOpts := Some t\<rparr>))"

definition WithServiceStopHook :: "'x option \<Rightarrow> hook_timeout list \<Rightarrow> 'x register_option" where
  "WithServiceStopHook hook opt opts =
     (case apply_hook_timeouts opt defaultServiceHookOption of
        Inl e \<Rightarrow> Inl e
      | Inr t \<Rightarrow> Inr (opts\<lparr>rg_ServiceStopHook := hook, rg_ServiceStopHookOpts := Some t\<rparr>))"

definition WithServiceProviderInitializer :: "'x option \<Rightarrow> 'x register_option" where
  "WithServiceProviderInitializer initializer opts = Inr (opts\<lparr>rg_ServiceProviderInitializer := initializer\<rparr>)"

definition WithAliasOnlyMemoryRegistry :: "bool \<Rightarrow> 'x register_option" where
  "WithAliasOnlyMemoryRegistry aliasOnly opts = Inr (opts\<lparr>rg_AliasOnly := aliasOnly\<rparr>)"

definition WithBindAddrCallback :: "'x option \<Rightarrow> 'x register_option" where
  "WithBindAddrCallback cb opts = Inr (opts\<lparr>rg_BindAddrCallback := cb\<rparr>)"

definition WithGrpcHttpParameterHandler :: "string \<Rightarrow> 'x \<Rightarrow> 'x register_option" where
  "WithGrpcHttpParameterHandler parameterName handler opts =
     Inr (opts\<lparr>rg_HttpParameterHandler := AList.update parameterName handler (rg_HttpParameterHandler opts)\<rparr>)"

definition new_register_options :: "'x register_options" where
  "new_register_options =
     \<lparr>rg_Alias = [], rg_RegistryHandler = None, rg_ServiceStartHook = None, rg_ServiceStartHookOpts = None, rg_ServiceStopHook = None,
      rg_ServiceStopHookOpts = None, rg_ServiceProviderInitializer = None, rg_AliasOnly = False, rg_BindAddrCallback = None,
      rg_HttpParameterHandler = []\<rparr>"

text \<open>
  \<open>InvokeWithTimeout\<close>: the answer of the function, or an error when the timer is first. A function that answers later
  is never heard: nobody receives from its channel any more.
\<close>

definition InvokeWithTimeout :: "bool \<Rightarrow> string option \<Rightarrow> string option" where
  "InvokeWithTimeout timerFirst answer = (if timerFirst then Some ''timeout'' else answer)"

text \<open>
  What starting and stopping a service does, in order. A fatal error ends the program: \<open>None\<close>. Without its options a
  hook would be run with the time-out of a nil pointer, which is a panic.
\<close>

datatype service_action = StartHook | MemoryRegister | FinalizeUnregister | RegistryRegister | StopHook

datatype 'a service_result = ServiceFatal | ServicePanic | ServiceDone 'a

definition run_hook :: "'x option \<Rightarrow> int option \<Rightarrow> string option \<Rightarrow> service_action \<Rightarrow> service_action list service_result" where
  "run_hook hook hookOpts answer a =
     (case hook of
        None \<Rightarrow> ServiceDone []
      | Some _ \<Rightarrow> (case hookOpts of None \<Rightarrow> ServicePanic | Some t \<Rightarrow> if answer = None then ServiceDone [a] else ServiceFatal))"

definition after_start :: "'x register_options \<Rightarrow> bool \<Rightarrow> bool \<Rightarrow> bool \<Rightarrow> service_action list service_result" where
  "after_start ro memoryOk isInitial registerOk =
     (if \<not> memoryOk then ServiceFatal
      else (case rg_RegistryHandler ro of
              None \<Rightarrow> ServiceDone [MemoryRegister]
            | Some _ \<Rightarrow>
                if isInitial
                then (if registerOk then ServiceDone [MemoryRegister, FinalizeUnregister, RegistryRegister] else ServiceFatal)
                else ServiceDone [MemoryRegister, FinalizeUnregister]))"

definition startHookFunc :: "'x register_options \<Rightarrow> string option \<Rightarrow> bool \<Rightarrow> bool \<Rightarrow> bool \<Rightarrow> service_action list service_result" where
  "startHookFunc ro answer memoryOk isInitial registerOk =
     (case run_hook (rg_ServiceStartHook ro) (rg_ServiceStartHookOpts ro) answer StartHook of
        ServiceDone as \<Rightarrow>
          (case after_start ro memoryOk isInitial registerOk of ServiceDone bs \<Rightarrow> ServiceDone (as @ bs) | r \<Rightarrow> r)
      | r \<Rightarrow> r)"

definition stopHookFunc :: "'x register_options \<Rightarrow> string option \<Rightarrow> service_action list service_result" where
  "stopHookFunc ro answer = run_hook (rg_ServiceStopHook ro) (rg_ServiceStopHookOpts ro) answer StopHook"

text \<open>The hooks of a gRPC server: those of the user outside the rate limit, the circuit breaker and the time-out.\<close>

datatype 'x server_hook = UserHook 'x | RateLimitHook | CircuitBreakerHook | TimeoutHook

definition grpc_hooks :: "'x list \<Rightarrow> 'x server_hook list" where
  "grpc_hooks user = map UserHook user @ [RateLimitHook, CircuitBreakerHook, TimeoutHook]"

datatype 'x prepare_action =
    StopOnFinalize | RegisterHealth | RegisterReflection | HookServices "'x server_hook list" "'x server_hook list" | PrepareRegistry string bool | StartServices

definition grpc_Prepare :: "('w, 'ip, 'c, 'x) server_opts \<Rightarrow> string \<Rightarrow> 'x prepare_action list" where
  "grpc_Prepare opts addr =
     [StopOnFinalize] @ (if sv_HealthService opts \<noteq> None then [RegisterHealth] else []) @
     (if sv_GrpcServerReflection opts then [RegisterReflection] else []) @
     [HookServices (grpc_hooks (sv_UnaryHookInterceptors opts)) (grpc_hooks (sv_StreamHookInterceptors opts)),
      PrepareRegistry addr (sv_WithTls opts), StartServices]"

section \<open>HTTP services\<close>

record 'x http_register_options =
  hg_ServiceStartHook :: "'x option"
  hg_ServiceStartHookOpts :: "int option"
  hg_ServiceStopHook :: "'x option"
  hg_ServiceStopHookOpts :: "int option"
  hg_BindAddrCallback :: "'x option"

definition WithHttpServiceStartHook ::
  "'x option \<Rightarrow> hook_timeout list \<Rightarrow> 'x http_register_options \<Rightarrow> string + 'x http_register_options" where
  "WithHttpServiceStartHook hook opt opts =
     (case apply_hook_timeouts opt defaultServiceHookOption of
        Inl e \<Rightarrow> Inl e
      | Inr t \<Rightarrow> Inr (opts\<lparr>hg_ServiceStartHook := hook, hg_ServiceStartHookOpts := Some t\<rparr>))"

definition WithHttpServiceStopHook ::
  "'x option \<Rightarrow> hook_timeout list \<Rightarrow> 'x http_register_options \<Rightarrow> string + 'x http_register_options" where
  "WithHttpServiceStopHook hook opt opts =
     (case apply_hook_timeouts opt defaultServiceHookOption of
        Inl e \<Rightarrow> Inl e
      | Inr t \<Rightarrow> Inr (opts\<lparr>hg_ServiceStopHook := hook, hg_ServiceStopHookOpts := Some t\<rparr>))"

definition WithHttpBindAddrCallback :: "'x option \<Rightarrow> 'x http_register_options \<Rightarrow> string + 'x http_register_options" where
  "WithHttpBindAddrCallback cb opts = Inr (opts\<lparr>hg_BindAddrCallback := cb\<rparr>)"

definition http_startHookFunc :: "'x http_register_options \<Rightarrow> string option \<Rightarrow> service_action list service_result" where
  "http_startHookFunc ro answer = run_hook (hg_ServiceStartHook ro) (hg_ServiceStartHookOpts ro) answer StartHook"

definition http_stopHookFunc :: "'x http_register_options \<Rightarrow> string option \<Rightarrow> service_action list service_result" where
  "http_stopHookFunc ro answer = run_hook (hg_ServiceStopHook ro) (hg_ServiceStopHookOpts ro) answer StopHook"

text \<open>
  The hooks of all services run at once and the server waits for all of them; the first that fails, in whatever order
  they do, ends the program. Only then are the services registered. A failed hook and a panic end the program alike, so
  it does not matter which is first.
\<close>

datatype http_prepare_action =
    ShutdownOnFinalize | HttpPrepareRegistry string | HooksRun nat | HttpRegisterServices | UnregisterOnFinalize | DisplayInfo string

definition displayInfo :: "('w, 'ip, 'c, 'x) server_opts \<Rightarrow> string \<Rightarrow> string" where
  "displayInfo opts addr =
     (let httpServerType = (if sv_EnableHttp opts then [''http''] else []) @
            (if sv_EnableGrpcWeb opts then ''grpc-web'' # (if sv_EnableGrpcWebWithWs opts then [''grpc-web-ws''] else []) else [])
      in ''Start '' @ join ''/'' httpServerType @ (if sv_WithTls opts then '' server with tls: '' else '' server: '') @ addr)"

definition http_server_Prepare ::
  "('w, 'ip, 'c, 'x) server_opts \<Rightarrow> string \<Rightarrow> ('x http_register_options \<times> string option) list \<Rightarrow> bool \<Rightarrow> http_prepare_action list service_result" where
  "http_server_Prepare opts addr services registerOk =
     (let hooks = map (\<lambda>(ro, answer). http_startHookFunc ro answer) services
      in if list_ex (\<lambda>r. r = ServicePanic) hooks then ServicePanic
         else if list_ex (\<lambda>r. r = ServiceFatal) hooks then ServiceFatal
         else if \<not> registerOk then ServiceFatal
         else ServiceDone [ShutdownOnFinalize, HttpPrepareRegistry addr, HooksRun (length services), HttpRegisterServices, UnregisterOnFinalize,
                DisplayInfo (displayInfo opts addr)])"

section \<open>Health\<close>

abbreviation (input) SERVING :: nat where "SERVING \<equiv> 1"

definition health_Check :: "(string \<times> nat) list \<Rightarrow> string \<Rightarrow> nat" where
  "health_Check states service = (case map_of states service of Some s \<Rightarrow> s | None \<Rightarrow> SERVING)"

definition ChangeState :: "string \<Rightarrow> nat \<Rightarrow> (string \<times> nat) list \<Rightarrow> (string \<times> nat) list" where
  "ChangeState service state states = AList.update service state states"

text \<open>
  \<open>Watch\<close> answers at every tick until a send fails or the context ends: \<open>Some states\<close> is a tick that finds these
  states and whether the answer is sent, \<open>None\<close> the end of the context.
\<close>

fun health_Watch :: "string \<Rightarrow> ((string \<times> nat) list \<times> bool) option list \<Rightarrow> nat list" where
  "health_Watch service [] = []"
| "health_Watch service (None # es) = []"
| "health_Watch service (Some (states, sent) # es) =
     (if sent then health_Check states service # health_Watch service es else [])"

section \<open>Providers of services\<close>

record ('l, 'g) provider =
  pv_serviceName :: string
  pv_logger :: "'l option"
  pv_config :: "'g option"

definition provider_key :: "string \<Rightarrow> string list \<Rightarrow> string" where
  "provider_key serviceName configNs = serviceName @ ''|'' @ join ''|'' configNs"

text \<open>\<open>None\<close>: the plugin for the database failed, which ends the program.\<close>

definition CreateDefaultProvider ::
  "(string list \<Rightarrow> 'g) \<Rightarrow> bool \<Rightarrow> (string \<Rightarrow> bool) \<Rightarrow> string \<Rightarrow> string list \<Rightarrow> (string \<times> ('l, 'g) provider) list \<Rightarrow>
   (('l, 'g) provider \<times> (string \<times> ('l, 'g) provider) list) option" where
  "CreateDefaultProvider withNamespace hasDb invokeDb serviceName configNs providers =
     (case map_of providers (provider_key serviceName configNs) of
        Some p \<Rightarrow> Some (p, providers)
      | None \<Rightarrow>
          (let p = \<lparr>pv_serviceName = serviceName, pv_logger = None, pv_config = Some (withNamespace configNs)\<rparr>
           in if hasDb \<and> \<not> invokeDb serviceName then None
              else Some (p, AList.update (provider_key serviceName configNs) p providers)))"

definition DefaultDB :: "string list \<Rightarrow> string \<Rightarrow> string \<times> (string + string)" where
  "DefaultDB aliasList serviceName =
     (serviceName,
      if length aliasList = 1 then Inr (hd aliasList)
      else if length aliasList = 0 then Inl ''no db alias found''
      else if serviceName \<in> set aliasList then Inr serviceName
      else Inl ''multiple db alias, use SelectDB choice one'')"

definition SelectDB :: "string list \<Rightarrow> string \<Rightarrow> string \<Rightarrow> string \<times> (string + string)" where
  "SelectDB aliasList serviceName alias = (serviceName, if alias \<in> set aliasList then Inr alias else Inl ''no alias found'')"

definition provider_Logger :: "(string \<Rightarrow> 'l) \<Rightarrow> ('l, 'g) provider \<Rightarrow> 'l" where
  "provider_Logger tagged p = (case pv_logger p of None \<Rightarrow> tagged (pv_serviceName p) | Some l \<Rightarrow> l)"

definition InitProvider ::
  "(string \<Rightarrow> 'l) \<Rightarrow> (string + ('l, 'g) provider) option \<Rightarrow> ('l, 'g) provider \<Rightarrow> string option \<times> ('l, 'g) provider" where
  "InitProvider tagged initializer handler =
     (case initializer of
        None \<Rightarrow> (Some ''init service provider failed, initializer is nil'', handler)
      | Some (Inl e) \<Rightarrow> (Some (''init service provider failed, err = '' @ e), handler)
      | Some (Inr p) \<Rightarrow>
          (None, handler\<lparr>pv_serviceName := pv_serviceName p, pv_config := pv_config p, pv_logger := Some (provider_Logger tagged p)\<rparr>))"

section \<open>What holds\<close>

text \<open>A web socket is accepted from every origin, whatever origins are allowed.\<close>

lemma websocket_any_origin: "sv_EnableGrpcWebWithWs opts \<Longrightarrow> websocket_origin opts origin"
  by (simp add: websocket_origin_def)

lemma layers_recovered: "sv_Recovery opts \<Longrightarrow> hd (handler_layers opts auth) = RecoveryLayer"
  by (simp add: handler_layers_def Let_def)

lemma destination_cases:
  "destination_of opts r = ToRest \<longleftrightarrow>
     sv_EnableHttp opts \<and> \<not> isGrpcRequest r \<and> \<not> (sv_EnableGrpcWeb opts \<and> (hq_GrpcWeb r \<or> hq_GrpcWebSocket r))"
  "through_cors (destination_of opts r) \<longleftrightarrow> \<not> isGrpcRequest r \<and> \<not> (sv_EnableGrpcWeb opts \<and> (hq_GrpcWeb r \<or> hq_GrpcWebSocket r))"
  by (simp_all add: destination_of_def through_cors_def)

text \<open>Options of a registration give a hook its time-out, so starting and stopping a service does not panic.\<close>

fun apply_register_options :: "'x register_option list \<Rightarrow> 'x register_options \<Rightarrow> string + 'x register_options" where
  "apply_register_options [] ro = Inr ro"
| "apply_register_options (f # fs) ro = (case f ro of Inl e \<Rightarrow> Inl e | Inr ro' \<Rightarrow> apply_register_options fs ro')"

definition hooks_timed :: "'x register_options \<Rightarrow> bool" where
  "hooks_timed ro \<longleftrightarrow> (rg_ServiceStartHook ro = None \<or> rg_ServiceStartHookOpts ro \<noteq> None) \<and> (rg_ServiceStopHook ro = None \<or> rg_ServiceStopHookOpts ro \<noteq> None)"

inductive api_option :: "'x register_option \<Rightarrow> bool" where
  "api_option (WithAlias a)"
| "api_option (WithRegistryHandler h)"
| "api_option (WithServiceStartHook h ts)"
| "api_option (WithServiceStopHook h ts)"
| "api_option (WithServiceProviderInitializer i)"
| "api_option (WithAliasOnlyMemoryRegistry b)"
| "api_option (WithBindAddrCallback cb)"
| "api_option (WithGrpcHttpParameterHandler p ph)"

lemma api_option_timed: "api_option f \<Longrightarrow> hooks_timed ro \<Longrightarrow> f ro = Inr ro' \<Longrightarrow> hooks_timed ro'"
  by (induction rule: api_option.induct)
     (auto simp: hooks_timed_def WithAlias_def WithRegistryHandler_def WithServiceStartHook_def WithServiceStopHook_def
       WithServiceProviderInitializer_def WithAliasOnlyMemoryRegistry_def WithBindAddrCallback_def WithGrpcHttpParameterHandler_def split: sum.splits)

lemma options_timed:
  "list_all api_option fs \<Longrightarrow> hooks_timed ro \<Longrightarrow> apply_register_options fs ro = Inr ro' \<Longrightarrow> hooks_timed ro'"
  by (induction fs arbitrary: ro) (auto split: sum.splits dest: api_option_timed)

theorem service_hooks_never_panic:
  assumes "list_all api_option fs" "apply_register_options fs new_register_options = Inr ro"
  shows "startHookFunc ro answer memoryOk isInitial registerOk \<noteq> ServicePanic \<and> stopHookFunc ro answer \<noteq> ServicePanic"
proof -
  have "hooks_timed ro" using options_timed[OF assms(1) _ assms(2)] by (simp add: hooks_timed_def new_register_options_def)
  then show ?thesis
    by (auto simp: startHookFunc_def stopHookFunc_def run_hook_def after_start_def hooks_timed_def split: option.splits service_result.splits if_splits)
qed

text \<open>An HTTP server is announced only if every start hook of its services has succeeded.\<close>

lemma run_hook_done: "run_hook h t answer a = ServiceDone as \<longleftrightarrow> (h = None \<and> as = []) \<or> (h \<noteq> None \<and> t \<noteq> None \<and> answer = None \<and> as = [a])"
  by (auto simp: run_hook_def split: option.splits)

theorem announced_after_hooks:
  assumes "http_server_Prepare opts addr services registerOk = ServiceDone as"
  shows "HttpRegisterServices \<in> set as \<and>
    (\<forall>(ro, answer) \<in> set services. hg_ServiceStartHook ro \<noteq> None \<longrightarrow> hg_ServiceStartHookOpts ro \<noteq> None \<and> answer = None)"
proof -
  have n: "http_startHookFunc ro answer \<noteq> ServicePanic \<and> http_startHookFunc ro answer \<noteq> ServiceFatal" if "(ro, answer) \<in> set services" for ro answer
    using assms that by (force simp: http_server_Prepare_def Let_def list_ex_iff split: if_splits)
  have h: "hg_ServiceStartHook ro \<noteq> None \<longrightarrow> hg_ServiceStartHookOpts ro \<noteq> None \<and> answer = None" if "(ro, answer) \<in> set services" for ro answer
    using n[OF that] by (auto simp: http_startHookFunc_def run_hook_def split: option.splits if_splits)
  have "HttpRegisterServices \<in> set as" using assms by (auto simp: http_server_Prepare_def Let_def split: if_splits)
  then show ?thesis using h by blast
qed

text \<open>
  The list of gRPC servers is that of the servers that run, in the order in which they started, as long as no address
  is used by two at once.
\<close>

datatype list_event = Started string | Stopped string

fun list_event_step :: "list_event \<Rightarrow> server_lists \<Rightarrow> server_lists" where
  "list_event_step (Started a) s = AddGrpcServer a s"
| "list_event_step (Stopped a) s = RemoveGrpcServer a s"

fun running_after :: "list_event list \<Rightarrow> string list \<Rightarrow> string list option" where
  "running_after [] rs = Some rs"
| "running_after (Started a # es) rs = (if a \<in> set rs then None else running_after es (rs @ [a]))"
| "running_after (Stopped a # es) rs = (if a \<in> set rs then running_after es (remove1 a rs) else None)"

theorem server_list_running:
  assumes "distinct (sl_grpc s)" "running_after es (sl_grpc s) = Some rs"
  shows "sl_grpc (fold list_event_step es s) = rs"
  using assms
proof (induction es arbitrary: s)
  case (Cons e es)
  then show ?case
  proof (cases e)
    case (Stopped a)
    have "remove1 a (sl_grpc s) = filter (\<lambda>b. b \<noteq> a) (sl_grpc s)" 
      using distinct_remove1_removeAll[OF Cons.prems(1), of a] by (simp add: removeAll_filter_not_eq neq_commute)
    then show ?thesis using Cons.IH[of "RemoveGrpcServer a s"] Cons.prems Stopped by (auto simp: RemoveGrpcServer_def split: if_splits)
  qed (auto simp: AddGrpcServer_def split: if_splits)
qed simp

lemma health_change: "health_Check (ChangeState service state states) service' = (if service' = service then state else health_Check states service')"
  by (simp add: health_Check_def ChangeState_def update_conv')

lemma DefaultDB_listed: "snd (DefaultDB aliasList name) = Inr a \<Longrightarrow> a \<in> set aliasList"
  by (auto simp: DefaultDB_def length_Suc_conv split: if_splits)

text \<open>A provider is shared by services whose key is the same, which the separator does not rule out.\<close>

lemma provider_key_ambiguous: "provider_key ''a|b'' [''c''] = provider_key ''a'' [''b'', ''c'']"
  by (simp add: provider_key_def)

lemma provider_of_other_service:
  "\<exists>p ps. CreateDefaultProvider f False g ''a'' [''b'', ''c''] [] = Some (p, ps) \<and>
     CreateDefaultProvider f False g ''a|b'' [''c''] ps = Some (p, ps) \<and> pv_serviceName p = ''a''"
  by (simp add: CreateDefaultProvider_def provider_key_def Let_def)

end
