(* ===== verification/Flag_Usage.thy ===== *)
theory Flag_Usage
  imports Config_Plugins Http_Header "HOL-Library.Multiset"
begin

text \<open>
  The help text, \<^verbatim>\<open>internal/declare/usage.go\<close>: which flags it shows, in which section and in which order. A section
  is its title with the names of its flags; how a flag is printed is left to the package \<open>flag\<close>. Regular expressions
  are an argument: \<open>matches f name\<close> is \<open>None\<close> when the expression is malformed.
\<close>

section \<open>Order\<close>

definition ns_less :: "string \<Rightarrow> string \<Rightarrow> bool" where
  "ns_less p q =
     (let is = split_char (CHR ''.'') p; js = split_char (CHR ''.'') q
      in if length is \<le> 2 \<or> length js \<le> 2
         then (if length is = length js then str_less p q else length is < length js)
         else str_less p q)"

definition sortNameSpaceStrings :: "string list \<Rightarrow> string list" where
  "sortNameSpaceStrings a = slice_stable ns_less a"

section \<open>Sections\<close>

record usage_flag = flag +
  uf_Deprecated :: bool
  uf_pluginTypeFlag :: bool
  uf_pluginType :: string
  uf_pluginName :: string
  uf_pluginDeprecated :: bool

record usage =
  us_selector :: "string list"
  us_custom :: "string list"
  us_global :: "(string \<times> string list) list"
  us_plugin :: "((string \<times> string \<times> bool) \<times> string list) list"

definition isFlagShow :: "(string \<Rightarrow> string \<Rightarrow> bool option) \<Rightarrow> string list \<Rightarrow> string list \<Rightarrow> string \<Rightarrow> bool" where
  "isFlagShow matches flagsToShow flagsToHide name =
     (if flagsToShow = [] \<and> flagsToHide = [] then True
      else if flagsToShow \<noteq> [] then list_ex (\<lambda>f. matches f name \<noteq> Some False) flagsToShow
      else \<not> list_ex (\<lambda>f. matches f name \<noteq> Some False) flagsToHide)"

definition add_to :: "'k \<Rightarrow> 'v \<Rightarrow> ('k \<times> 'v list) list \<Rightarrow> ('k \<times> 'v list) list" where
  "add_to k v m = AList.update k ((case map_of m k of Some vs \<Rightarrow> vs | None \<Rightarrow> []) @ [v]) m"

definition flag_shown ::
  "(string \<Rightarrow> string \<Rightarrow> bool option) \<Rightarrow> string list \<Rightarrow> string list \<Rightarrow> bool \<Rightarrow> string \<Rightarrow> usage_flag \<Rightarrow> bool" where
  "flag_shown matches toShow toHide includeDeprecated ns f \<longleftrightarrow>
     \<not> ((uf_Deprecated f \<and> \<not> includeDeprecated) \<or> \<not> isFlagShow matches toShow toHide (flagName ns (fl_Name f)))"

definition usage_step ::
  "(string \<Rightarrow> string \<Rightarrow> bool option) \<Rightarrow> string list \<Rightarrow> string list \<Rightarrow> bool \<Rightarrow> string \<Rightarrow> usage_flag \<Rightarrow> usage \<Rightarrow> usage" where
  "usage_step matches toShow toHide includeDeprecated ns f u =
     (let name = flagName ns (fl_Name f)
      in if \<not> flag_shown matches toShow toHide includeDeprecated ns f then u
         else if uf_pluginTypeFlag f then u\<lparr>us_selector := us_selector u @ [name]\<rparr>
         else if uf_pluginType f \<noteq> '''' then u\<lparr>us_plugin := add_to (uf_pluginType f, uf_pluginName f, uf_pluginDeprecated f) name (us_plugin u)\<rparr>
         else if ns \<noteq> '''' then u\<lparr>us_global := add_to ns name (us_global u)\<rparr>
         else u\<lparr>us_custom := us_custom u @ [name]\<rparr>)"

definition declared_names :: "(string \<times> usage_flag list) list \<Rightarrow> string list" where
  "declared_names all = concat (map (\<lambda>(ns, flags). map (\<lambda>f. flagName ns (fl_Name f)) flags) all)"

definition no_usage :: usage where
  "no_usage = \<lparr>us_selector = [], us_custom = [], us_global = [], us_plugin = []\<rparr>"

text \<open>The flags of the flag set that were not declared are shown with those of the application.\<close>

definition gather ::
  "(string \<Rightarrow> string \<Rightarrow> bool option) \<Rightarrow> string list \<Rightarrow> string list \<Rightarrow> bool \<Rightarrow> (string \<times> usage_flag list) list \<Rightarrow> string list \<Rightarrow> usage" where
  "gather matches toShow toHide includeDeprecated all flagSet =
     (let u = fold (\<lambda>(ns, flags). fold (usage_step matches toShow toHide includeDeprecated ns) flags) all no_usage
      in u\<lparr>us_custom := us_custom u @ filter (\<lambda>n. n \<notin> set (declared_names all)) flagSet\<rparr>)"

definition capitalize :: "string \<Rightarrow> string" where
  "capitalize s = (case s of [] \<Rightarrow> '''' | c # cs \<Rightarrow> upper_char c # cs)"

definition section_of :: "string list \<Rightarrow> string \<Rightarrow> string list \<Rightarrow> string \<times> string list" where
  "section_of flagSet title names = (title, filter (\<lambda>n. n \<in> set flagSet) (sortNameSpaceStrings names))"

definition printGlobalFlags :: "string list \<Rightarrow> (string \<times> string list) list \<Rightarrow> (string \<times> string list) list" where
  "printGlobalFlags flagSet flags =
     map (\<lambda>ns. section_of flagSet (capitalize ns @ '' options:'') (the (map_of flags ns))) (sortNameSpaceStrings (map fst flags))"

definition printPluginFlags :: "string list \<Rightarrow> ((string \<times> string \<times> bool) \<times> string list) list \<Rightarrow> (string \<times> string list) list" where
  "printPluginFlags flagSet flags =
     map (\<lambda>pi. section_of flagSet (capitalize (fst (snd pi)) @ '' '' @ fst pi @ '' plugin options:'') (the (map_of flags pi)))
       (filter (\<lambda>pi. \<not> snd (snd pi))
         (slice_stable (\<lambda>p q. str_less (fst p @ fst (snd p)) (fst q @ fst (snd q))) (map fst flags)))"

definition ShowUsage ::
  "(string \<Rightarrow> string \<Rightarrow> bool option) \<Rightarrow> string list \<Rightarrow> string list \<Rightarrow> bool \<Rightarrow> (string \<times> usage_flag list) list \<Rightarrow> string list \<Rightarrow>
   (string \<times> string list) list" where
  "ShowUsage matches toShow toHide includeDeprecated all flagSet =
     (let u = gather matches toShow toHide includeDeprecated all flagSet
      in (if us_custom u = [] then [] else [section_of flagSet ''Options:'' (us_custom u)]) @
         (if us_selector u = [] then [] else [section_of flagSet ''Plugin selectors:'' (us_selector u)]) @
         printGlobalFlags flagSet (us_global u) @ printPluginFlags flagSet (us_plugin u))"

section \<open>The order is linear\<close>

lemma str_less_irrefl: "\<not> str_less p p"
  by (induction p) auto

lemma str_less_trans: "str_less p q \<Longrightarrow> str_less q r \<Longrightarrow> str_less p r"
  by (induction p q arbitrary: r rule: str_less.induct) (case_tac r; auto)+

lemma str_less_total: "p \<noteq> q \<Longrightarrow> str_less p q \<or> str_less q p"
proof (induction p q rule: str_less.induct)
  case (4 x xs y ys)
  have "x = y \<or> (of_char x :: nat) < of_char y \<or> (of_char y :: nat) < of_char x"
    by (metis nat_neq_iff of_char_eq_iff)
  then show ?case using 4 by auto
qed auto

text \<open>
  \<open>sort.Sort\<close> needs a strict linear order; with one, what it returns is determined by the elements alone, and so the
  stable sort of the model stands for whatever algorithm the library uses.
\<close>

locale strict_linear =
  fixes lt :: "'a \<Rightarrow> 'a \<Rightarrow> bool"
  assumes lt_irrefl: "\<not> lt x x"
    and lt_trans: "lt x y \<Longrightarrow> lt y z \<Longrightarrow> lt x z"
    and lt_total: "x \<noteq> y \<Longrightarrow> lt x y \<or> lt y x"
begin

lemma mset_insert_back: "mset (insert_back lt x ys) = add_mset x (mset ys)"
  by (induction ys) auto

lemma mset_slice_stable: "mset (slice_stable lt xs) = mset xs"
proof -
  have "mset (fold (insert_back lt) xs acc) = mset xs + mset acc" for acc
    by (induction xs arbitrary: acc) (auto simp: mset_insert_back)
  then show ?thesis by (simp add: slice_stable_def)
qed

lemma set_insert_back: "set (insert_back lt x ys) = insert x (set ys)"
  by (induction ys) auto

lemma insert_back_sorted:
  "sorted_wrt (\<lambda>a b. \<not> lt a b) ys \<Longrightarrow> sorted_wrt (\<lambda>a b. \<not> lt a b) (insert_back lt x ys)"
proof (induction ys)
  case (Cons y ys)
  show ?case
  proof (cases "lt x y")
    case True
    then have "\<not> lt y x" using lt_trans lt_irrefl by blast
    then show ?thesis using True Cons by (simp add: set_insert_back)
  next
    case False
    have "\<not> lt x z" if "z \<in> set ys" for z
      using that Cons.prems False lt_total[of x y] lt_trans[of y x z] by auto
    then show ?thesis using False Cons.prems by auto
  qed
qed simp

lemma slice_stable_sorted: "sorted_wrt (\<lambda>a b. \<not> lt b a) (slice_stable lt xs)"
proof -
  have "sorted_wrt (\<lambda>a b. \<not> lt a b) (fold (insert_back lt) xs acc)" if "sorted_wrt (\<lambda>a b. \<not> lt a b) acc" for acc
    using that by (induction xs arbitrary: acc) (auto simp: insert_back_sorted)
  then show ?thesis by (simp add: slice_stable_def sorted_wrt_rev)
qed

lemma sorted_unique:
  "mset xs = mset ys \<Longrightarrow> sorted_wrt (\<lambda>a b. \<not> lt b a) xs \<Longrightarrow> sorted_wrt (\<lambda>a b. \<not> lt b a) ys \<Longrightarrow> xs = ys"
proof (induction xs arbitrary: ys)
  case (Cons x xs)
  then obtain y ys' where ys: "ys = y # ys'" by (cases ys) auto
  have "set (x # xs) = set ys" using Cons.prems(1) by (rule mset_eq_setD)
  then have "x = y" using Cons.prems(2,3) lt_total ys by fastforce
  then show ?case using Cons ys by auto
qed simp

lemma sort_determined: "mset xs = mset ys \<Longrightarrow> slice_stable lt xs = slice_stable lt ys"
  by (rule sorted_unique) (simp_all add: mset_slice_stable slice_stable_sorted)

end

text \<open>The order of the help text: names with no or one dot first, then the others alphabetically.\<close>

definition depth :: "string \<Rightarrow> nat" where
  "depth p = min 3 (length (split_char (CHR ''.'') p))"

lemma ns_less_lex: "ns_less p q \<longleftrightarrow> depth p < depth q \<or> depth p = depth q \<and> str_less p q"
  by (auto simp: ns_less_def depth_def Let_def min_def)

interpretation ns: strict_linear ns_less
proof
  fix x y z
  show "\<not> ns_less x x" by (simp add: ns_less_lex str_less_irrefl)
  show "ns_less x y \<Longrightarrow> ns_less y z \<Longrightarrow> ns_less x z" using str_less_trans[of x y z] by (auto simp: ns_less_lex)
  show "x \<noteq> y \<Longrightarrow> ns_less x y \<or> ns_less y x" using str_less_total[of x y] by (auto simp: ns_less_lex)
qed

theorem names_sorted:
  "mset (sortNameSpaceStrings a) = mset a \<and> sorted_wrt (\<lambda>p q. \<not> ns_less q p) (sortNameSpaceStrings a)"
  by (simp add: sortNameSpaceStrings_def ns.mset_slice_stable ns.slice_stable_sorted)

text \<open>The sections of the name spaces do not depend on the order in which Go visits a map.\<close>

theorem global_sections_determined:
  assumes "distinct (map fst fs)" and "mset fs = mset gs"
  shows "printGlobalFlags flagSet fs = printGlobalFlags flagSet gs"
proof -
  have m: "mset (map fst fs) = mset (map fst gs)" using assms(2) by simp
  then have "distinct (map fst gs)" using assms(1) by (metis mset_eq_imp_distinct_iff)
  then have "map_of fs = map_of gs"
    using assms(1) mset_eq_setD[OF assms(2)] by (metis map_of_inject_set)
  then show ?thesis
    using ns.sort_determined[OF m] by (simp add: printGlobalFlags_def sortNameSpaceStrings_def)
qed

text \<open>The order of the sections of plugins is not linear: two plugins may have the same key.\<close>

lemma plugin_sections_tie:
  "\<exists>fs gs. mset fs = mset gs \<and> distinct (map fst fs) \<and>
     printPluginFlags [''x'', ''y''] fs \<noteq> printPluginFlags [''x'', ''y''] gs"
proof -
  let ?a = "((''ab'', ''c'', False), [''x''])" and ?b = "((''a'', ''bc'', False), [''y''])"
  have "printPluginFlags [''x'', ''y''] [?a, ?b] \<noteq> printPluginFlags [''x'', ''y''] [?b, ?a]" by code_simp
  then show ?thesis by (intro exI[of _ "[?a, ?b]"] exI[of _ "[?b, ?a]"]) auto
qed

section \<open>What is shown\<close>

definition names_of :: "('k \<times> string list) list \<Rightarrow> string set" where
  "names_of m = \<Union> (set ` snd ` set m)"

definition shown_names :: "usage \<Rightarrow> string set" where
  "shown_names u = set (us_selector u) \<union> set (us_custom u) \<union> names_of (us_global u) \<union> names_of (us_plugin u)"

lemma add_to_names: "distinct (map fst m) \<Longrightarrow> names_of (add_to k v m) = insert v (names_of m)"
  by (induction m) (auto simp: names_of_def add_to_def split: if_splits option.splits)

lemma add_to_distinct: "distinct (map fst m) \<Longrightarrow> distinct (map fst (add_to k v m))"
  by (simp add: add_to_def distinct_update)

definition wf_usage :: "usage \<Rightarrow> bool" where
  "wf_usage u \<longleftrightarrow> distinct (map fst (us_global u)) \<and> distinct (map fst (us_plugin u))"

lemma usage_step_names:
  "wf_usage u \<Longrightarrow>
   wf_usage (usage_step matches toShow toHide d ns f u) \<and>
   shown_names (usage_step matches toShow toHide d ns f u) =
     (if flag_shown matches toShow toHide d ns f then {flagName ns (fl_Name f)} else {}) \<union> shown_names u"
  by (simp add: usage_step_def Let_def wf_usage_def shown_names_def add_to_names add_to_distinct insert_commute Un_insert_left)

lemma usage_flags_names:
  "wf_usage u \<Longrightarrow>
   wf_usage (fold (usage_step matches toShow toHide d ns) fs u) \<and>
   shown_names (fold (usage_step matches toShow toHide d ns) fs u) =
     {flagName ns (fl_Name f) |f. f \<in> set fs \<and> flag_shown matches toShow toHide d ns f} \<union> shown_names u"
proof (induction fs arbitrary: u)
  case (Cons f fs)
  have s: "wf_usage (usage_step matches toShow toHide d ns f u)"
    "shown_names (usage_step matches toShow toHide d ns f u) =
       (if flag_shown matches toShow toHide d ns f then {flagName ns (fl_Name f)} else {}) \<union> shown_names u"
    using usage_step_names[OF Cons.prems, of matches toShow toHide d ns f] by auto
  show ?case using Cons.IH[OF s(1)] by (auto simp: s(2))
qed simp

lemma usage_all_names:
  "wf_usage u \<Longrightarrow>
   shown_names (fold (\<lambda>(ns, flags). fold (usage_step matches toShow toHide d ns) flags) all u) =
     {flagName ns (fl_Name f) |ns fs f. (ns, fs) \<in> set all \<and> f \<in> set fs \<and> flag_shown matches toShow toHide d ns f} \<union> shown_names u"
proof (induction all arbitrary: u)
  case (Cons a all)
  obtain ns fs where a: "a = (ns, fs)" by force
  note s = usage_flags_names[OF Cons.prems, of matches toShow toHide d ns fs]
  show ?case using Cons.IH[OF conjunct1[OF s]] s unfolding a by auto
qed simp

text \<open>
  A flag is in some section exactly if it is declared and not filtered out, or belongs to the flag set without being
  declared; flags of the second kind are shown whatever the filters say.
\<close>

theorem usage_shows:
  "n \<in> shown_names (gather matches toShow toHide d all flagSet) \<longleftrightarrow>
     (\<exists>ns fs f. (ns, fs) \<in> set all \<and> f \<in> set fs \<and> n = flagName ns (fl_Name f) \<and> flag_shown matches toShow toHide d ns f) \<or>
     n \<in> set flagSet \<and> n \<notin> set (declared_names all)"
proof -
  have w: "wf_usage no_usage" and e: "shown_names no_usage = {}"
    by (simp_all add: wf_usage_def no_usage_def shown_names_def names_of_def)
  have c: "shown_names (u\<lparr>us_custom := us_custom u @ xs\<rparr>) = set xs \<union> shown_names u" for u xs
    by (auto simp: shown_names_def)
  show ?thesis unfolding gather_def Let_def c usage_all_names[OF w] e by auto
qed

end
